(* ===== verification/Gov_Pattern.thy ===== *)
theory Gov_Pattern
  imports Prelude
begin

text \<open>
  The glob matcher of the mandate module (\<open>crates/uc-types/src/governance/mandate.rs\<close>):
  \<open>pattern_covers\<close>, an explicit-stack search over (pattern index, value index) cells with a
  \<open>seen\<close> matrix, and \<open>pattern_subsumes\<close>, the conservative "parent pattern covers child pattern"
  test that delegation uses.

  The search is modelled as it is written: \<open>covers_loop\<close> pops the stack, marks the cell, and pushes
  the successors in the order of the source; an index outside the matrix would panic and is \<open>None\<close>.
  It is compared with the language of a pattern: \<open>tokens\<close> reads a pattern as literals, \<open>*\<close> and \<open>**\<close>,
  and \<open>matches\<close> says which values they denote.
\<close>

section \<open>The search of \<open>pattern_covers\<close>\<close>

type_synonym cell = "nat \<times> nat"

definition covers_push :: "string \<Rightarrow> string \<Rightarrow> cell set \<Rightarrow> cell \<Rightarrow> cell list" where
  "covers_push p v seen s = (case s of (pi, vi) \<Rightarrow>
     if p ! pi = CHR ''*'' \<and> pi + 1 < length p \<and> p ! (pi + 1) = CHR ''*'' then
       (if vi < length v \<and> (pi, vi + 1) \<notin> seen then [(pi, vi + 1)] else []) @
       (if (pi + 2, vi) \<notin> seen then [(pi + 2, vi)] else [])
     else if p ! pi = CHR ''*'' then
       (if vi < length v \<and> v ! vi \<noteq> CHR ''/'' \<and> (pi, vi + 1) \<notin> seen then [(pi, vi + 1)] else []) @
       (if (pi + 1, vi) \<notin> seen then [(pi + 1, vi)] else [])
     else
       (if vi < length v \<and> v ! vi = p ! pi \<and> (pi + 1, vi + 1) \<notin> seen
        then [(pi + 1, vi + 1)] else []))"

text \<open>
  One iteration on the popped cell: \<open>Inl\<close> returns from the function (\<open>None\<close> for the panic of an index
  outside the matrix), \<open>Inr\<close> continues with the new matrix and the cells pushed.
\<close>

definition covers_visit ::
  "string \<Rightarrow> string \<Rightarrow> cell set \<Rightarrow> cell \<Rightarrow> bool option + cell set \<times> cell list" where
  "covers_visit p v seen s =
     (if \<not> (fst s \<le> length p \<and> snd s \<le> length v) then Inl None
      else if s \<in> seen then Inr (seen, [])
      else if fst s = length p then
        (if snd s = length v then Inl (Some True) else Inr (insert s seen, []))
      else Inr (insert s seen, covers_push p v (insert s seen) s))"

definition unseen :: "string \<Rightarrow> string \<Rightarrow> cell set \<Rightarrow> nat" where
  "unseen p v seen = card ({0..length p} \<times> {0..length v} - seen)"

lemma unseen_decreases:
  assumes "fst s \<le> length p" "snd s \<le> length v" "s \<notin> seen"
  shows "unseen p v (insert s seen) < unseen p v seen"
proof -
  let ?A = "{0..length p} \<times> {0..length v}"
  have "s \<in> ?A - seen" using assms by (simp add: mem_Times_iff)
  then have "?A - insert s seen \<subset> ?A - seen" by blast
  then show ?thesis unfolding unseen_def by (rule psubset_card_mono[rotated]) simp
qed

lemma covers_visit_decreases:
  "covers_visit p v seen s = Inr (seen', new) \<Longrightarrow>
     unseen p v seen' < unseen p v seen \<or> (seen' = seen \<and> new = [])"
  by (auto simp: covers_visit_def unseen_decreases split: if_splits)

function covers_loop :: "string \<Rightarrow> string \<Rightarrow> cell set \<Rightarrow> cell list \<Rightarrow> bool option" where
  "covers_loop p v seen [] = Some False"
| "covers_loop p v seen (s # stack) =
     (case covers_visit p v seen s of
        Inl r \<Rightarrow> r
      | Inr next \<Rightarrow> covers_loop p v (fst next) (snd next @ stack))"
  by pat_completeness auto
termination
  by (relation "measures [\<lambda>(p, v, seen, stack). unseen p v seen, \<lambda>(p, v, seen, stack). length stack]")
     (auto dest!: covers_visit_decreases)

definition pattern_covers :: "string \<Rightarrow> string \<Rightarrow> bool" where
  "pattern_covers pattern v =
     (case covers_loop pattern v {} [(0, 0)] of Some b \<Rightarrow> b | None \<Rightarrow> False)"

section \<open>\<open>pattern_subsumes\<close>\<close>

definition pattern_subsumes :: "string \<Rightarrow> string \<Rightarrow> bool" where
  "pattern_subsumes parent child =
     (if parent = child then True
      else if parent = ''**'' then True
      else if parent = ''*'' then CHR ''/'' \<notin> set child
      else case strip_suffix ''/**'' parent of
        Some prefix \<Rightarrow>
          child = prefix \<or>
          (case strip_prefix prefix child of
             Some rest \<Rightarrow> (case rest of [] \<Rightarrow> False | c # _ \<Rightarrow> c = CHR ''/'')
           | None \<Rightarrow> False)
      | None \<Rightarrow>
          (case strip_suffix ''/*'' parent of
             Some prefix \<Rightarrow>
               (case strip_prefix prefix child of
                  Some rest0 \<Rightarrow>
                    let rest = (case strip_prefix ''/'' rest0 of Some r \<Rightarrow> r | None \<Rightarrow> rest0)
                    in rest \<noteq> [] \<and> CHR ''/'' \<notin> set rest
                | None \<Rightarrow> False)
           | None \<Rightarrow> False))"

section \<open>The language of a pattern\<close>

datatype glob_tok = DStar | Star | Lit char

fun tokens :: "string \<Rightarrow> glob_tok list" where
  "tokens [] = []"
| "tokens [c] = [if c = CHR ''*'' then Star else Lit c]"
| "tokens (c # d # p) =
     (if c = CHR ''*'' \<and> d = CHR ''*'' then DStar # tokens p
      else (if c = CHR ''*'' then Star else Lit c) # tokens (d # p))"

fun matches :: "glob_tok list \<Rightarrow> string \<Rightarrow> bool" where
  "matches [] v \<longleftrightarrow> v = []"
| "matches (Lit c # ts) v \<longleftrightarrow> (\<exists>w. v = c # w \<and> matches ts w)"
| "matches (Star # ts) v \<longleftrightarrow> (\<exists>a b. v = a @ b \<and> CHR ''/'' \<notin> set a \<and> matches ts b)"
| "matches (DStar # ts) v \<longleftrightarrow> (\<exists>a b. v = a @ b \<and> matches ts b)"

lemma matches_Star_unfold:
  "matches (Star # ts) v \<longleftrightarrow>
     matches ts v \<or> (\<exists>c w. v = c # w \<and> c \<noteq> CHR ''/'' \<and> matches (Star # ts) w)"
proof
  assume "matches (Star # ts) v"
  then obtain a b where ab: "v = a @ b" "CHR ''/'' \<notin> set a" "matches ts b" by auto
  then show "matches ts v \<or> (\<exists>c w. v = c # w \<and> c \<noteq> CHR ''/'' \<and> matches (Star # ts) w)"
    by (cases a) auto
next
  assume "matches ts v \<or> (\<exists>c w. v = c # w \<and> c \<noteq> CHR ''/'' \<and> matches (Star # ts) w)"
  then consider "matches ts v"
    | c a b where "v = c # a @ b" "c \<noteq> CHR ''/''" "CHR ''/'' \<notin> set a" "matches ts b" by auto
  then show "matches (Star # ts) v"
  proof cases
    case 1
    then have "v = [] @ v \<and> CHR ''/'' \<notin> set [] \<and> matches ts v" by simp
    then show ?thesis unfolding matches.simps by blast
  next
    case 2
    then have "v = (c # a) @ b \<and> CHR ''/'' \<notin> set (c # a) \<and> matches ts b" by simp
    then show ?thesis unfolding matches.simps by blast
  qed
qed

lemma matches_DStar_unfold:
  "matches (DStar # ts) v \<longleftrightarrow> matches ts v \<or> (\<exists>c w. v = c # w \<and> matches (DStar # ts) w)"
proof
  assume "matches (DStar # ts) v"
  then obtain a b where ab: "v = a @ b" "matches ts b" by auto
  then show "matches ts v \<or> (\<exists>c w. v = c # w \<and> matches (DStar # ts) w)"
    by (cases a) auto
next
  assume "matches ts v \<or> (\<exists>c w. v = c # w \<and> matches (DStar # ts) w)"
  then consider "matches ts v" | c a b where "v = c # a @ b" "matches ts b" by auto
  then show "matches (DStar # ts) v"
  proof cases
    case 1
    then have "v = [] @ v \<and> matches ts v" by simp
    then show ?thesis unfolding matches.simps by blast
  next
    case 2
    then have "v = (c # a) @ b \<and> matches ts b" by simp
    then show ?thesis unfolding matches.simps by blast
  qed
qed

lemma matches_append:
  "matches (ts @ us) v \<longleftrightarrow> (\<exists>a b. v = a @ b \<and> matches ts a \<and> matches us b)"
proof (induction ts arbitrary: v)
  case Nil
  then show ?case by simp
next
  case (Cons t ts)
  show ?case
  proof (cases t)
    case DStar
    show ?thesis by (simp add: DStar Cons.IH) (metis append.assoc)
  next
    case Star
    show ?thesis by (simp add: Star Cons.IH) (metis append.assoc)
  next
    case (Lit c)
    show ?thesis by (simp add: Lit Cons.IH) (metis append_Cons)
  qed
qed

lemma tokens_append_slash:
  "tokens (p @ CHR ''/'' # q) = tokens p @ Lit (CHR ''/'') # tokens q"
  by (induction p rule: tokens.induct) (cases q, auto)+

lemma matches_slash_append:
  "matches (tokens (p @ CHR ''/'' # q)) v \<longleftrightarrow>
     (\<exists>a b. v = a @ CHR ''/'' # b \<and> matches (tokens p) a \<and> matches (tokens q) b)"
  by (auto simp: tokens_append_slash matches_append)

lemma tokens_lit: "Lit c \<in> set (tokens p) \<Longrightarrow> c \<in> set p"
  by (induction p rule: tokens.induct) (auto split: if_splits)

lemma matches_single_segment:
  assumes "matches ts v" "DStar \<notin> set ts" "Lit (CHR ''/'') \<notin> set ts"
  shows "CHR ''/'' \<notin> set v"
  using assms by (induction ts v rule: matches.induct) auto

section \<open>The search decides the language\<close>

text \<open>\<open>accepts p v pi vi\<close>: some path of pushes leads from the cell to the final cell.\<close>

inductive accepts :: "string \<Rightarrow> string \<Rightarrow> cell \<Rightarrow> bool" for p v where
  final: "accepts p v (length p, length v)"
| push: "fst s < length p \<Longrightarrow> t \<in> set (covers_push p v {} s) \<Longrightarrow> accepts p v t \<Longrightarrow> accepts p v s"

lemma covers_push_seen: "set (covers_push p v seen s) = set (covers_push p v {} s) - seen"
  by (cases s) (auto simp: covers_push_def)

lemma covers_push_in_range:
  assumes "t \<in> set (covers_push p v seen s)" "fst s < length p" "snd s \<le> length v"
  shows "fst t \<le> length p \<and> snd t \<le> length v"
  using assms by (cases s) (auto simp: covers_push_def split: if_splits)

lemma covers_loop_total:
  assumes "\<forall>s \<in> set stack. fst s \<le> length p \<and> snd s \<le> length v"
  shows "covers_loop p v seen stack \<noteq> None"
  using assms
proof (induction p v seen stack rule: covers_loop.induct)
  case (1 p v seen)
  then show ?case by simp
next
  case (2 p v seen s stack)
  show ?case
  proof (cases "covers_visit p v seen s")
    case (Inl r)
    with "2.prems" show ?thesis by (auto simp: covers_visit_def split: if_splits)
  next
    case (Inr n)
    have "fst t \<le> length p \<and> snd t \<le> length v" if "t \<in> set (snd n)" for t
      using that Inr "2.prems" covers_push_in_range[of t p v "insert s seen" s]
      by (auto simp: covers_visit_def split: if_splits)
    with "2.prems" have "\<forall>t \<in> set (snd n @ stack). fst t \<le> length p \<and> snd t \<le> length v"
      by auto
    with "2.IH"[OF Inr] Inr show ?thesis by simp
  qed
qed

lemma covers_loop_True:
  assumes "covers_loop p v seen stack = Some True"
  shows "\<exists>s \<in> set stack. accepts p v s"
  using assms
proof (induction p v seen stack rule: covers_loop.induct)
  case (1 p v seen)
  then show ?case by simp
next
  case (2 p v seen s stack)
  show ?case
  proof (cases "covers_visit p v seen s")
    case (Inl r)
    with "2.prems" have "s = (length p, length v)"
      by (cases s) (auto simp: covers_visit_def split: if_splits)
    then show ?thesis by (auto intro: accepts.final)
  next
    case (Inr n)
    with "2.IH"[OF Inr] "2.prems" obtain t where t: "t \<in> set (snd n @ stack)" "accepts p v t"
      by auto
    have "accepts p v s" if "t \<in> set (snd n)"
    proof -
      from that Inr have "fst s < length p" "t \<in> set (covers_push p v {} s)"
        by (auto simp: covers_visit_def covers_push_seen[of p v "insert s seen"] split: if_splits)
      then show ?thesis using t(2) by (rule accepts.push)
    qed
    with t show ?thesis by auto
  qed
qed

text \<open>
  Completeness: every cell already visited is not final and has its successors visited or waiting.
  When the stack is empty the visited cells are closed under pushes, so none of them accepts.
\<close>

definition search_inv :: "string \<Rightarrow> string \<Rightarrow> cell set \<Rightarrow> cell list \<Rightarrow> bool" where
  "search_inv p v seen stack \<longleftrightarrow>
     (\<forall>s \<in> seen. s \<noteq> (length p, length v) \<and>
        (fst s < length p \<longrightarrow> set (covers_push p v {} s) \<subseteq> seen \<union> set stack))"

lemma closed_not_accepting:
  assumes "search_inv p v seen []" "accepts p v s"
  shows "s \<notin> seen"
  using assms(2,1) by (induction rule: accepts.induct) (auto simp: search_inv_def)

lemma covers_visit_cases:
  assumes "covers_visit p v seen s = Inr n"
  obtains (seen) "s \<in> seen" "n = (seen, [])"
    | (row_end) "fst s = length p" "s \<noteq> (length p, length v)" "n = (insert s seen, [])"
    | (push) "fst s < length p" "n = (insert s seen, covers_push p v (insert s seen) s)"
  using assms by (cases s) (auto simp: covers_visit_def split: if_splits)

lemma covers_visit_search_inv:
  assumes "covers_visit p v seen s = Inr n" "search_inv p v seen (s # stack)"
  shows "search_inv p v (fst n) (snd n @ stack) \<and> insert s seen \<subseteq> fst n"
  using assms(1)
proof (cases rule: covers_visit_cases)
  case seen
  then have "insert s (set stack \<union> seen) = set stack \<union> seen" by auto
  with assms(2) seen show ?thesis by (auto simp: search_inv_def Un_commute)
next
  case row_end
  with assms(2) show ?thesis by (simp add: search_inv_def)
next
  case push
  then have "set (covers_push p v {} s) \<subseteq> insert s seen \<union> set (snd n @ stack)"
    by (auto simp: covers_push_seen[of p v "insert s seen"])
  moreover have "x \<noteq> (length p, length v) \<and>
      (fst x < length p \<longrightarrow> set (covers_push p v {} x) \<subseteq> insert s seen \<union> set (snd n @ stack))"
    if "x \<in> seen" for x
  proof -
    from that assms(2) have "x \<noteq> (length p, length v)"
      "fst x < length p \<longrightarrow> set (covers_push p v {} x) \<subseteq> seen \<union> set (s # stack)"
      unfolding search_inv_def by blast+
    moreover have "seen \<union> set (s # stack) \<subseteq> insert s seen \<union> set (snd n @ stack)" by auto
    ultimately show ?thesis by blast
  qed
  moreover have "s \<noteq> (length p, length v)" using push(1) by auto
  ultimately show ?thesis unfolding search_inv_def by (simp add: push(2))
qed

lemma covers_loop_False:
  assumes "covers_loop p v seen stack = Some False" "search_inv p v seen stack"
    "s \<in> seen \<union> set stack"
  shows "\<not> accepts p v s"
  using assms
proof (induction p v seen stack rule: covers_loop.induct)
  case (1 p v seen)
  then show ?case using closed_not_accepting[of p v seen s] by auto
next
  case (2 p v seen s' stack)
  show ?case
  proof (cases "covers_visit p v seen s'")
    case (Inl r)
    with "2.prems" show ?thesis by (auto simp: covers_visit_def split: if_splits)
  next
    case (Inr n)
    note inv = covers_visit_search_inv[OF Inr "2.prems"(2)]
    with "2.prems"(3) have "s \<in> fst n \<union> set (snd n @ stack)" by auto
    with "2.IH"[OF Inr] inv "2.prems"(1) Inr show ?thesis by simp
  qed
qed

lemma covers_loop_accepts:
  "covers_loop p v {} [(0, 0)] = Some (accepts p v (0, 0))"
proof -
  obtain b where b: "covers_loop p v {} [(0, 0)] = Some b"
    using covers_loop_total[of "[(0, 0)]" p v "{}"] by auto
  show ?thesis
  proof (cases b)
    case True
    with b covers_loop_True[of p v "{}" "[(0, 0)]"] show ?thesis by simp
  next
    case False
    with b covers_loop_False[of p v "{}" "[(0, 0)]" "(0, 0)"] show ?thesis
      by (simp add: search_inv_def)
  qed
qed

lemma drop_Suc_conv: "i < length p \<Longrightarrow> drop i p = p ! i # drop (Suc i) p"
  by (rule Cons_nth_drop_Suc[symmetric])

lemma tokens_drop:
  assumes "i < length p"
  shows "tokens (drop i p) =
    (if p ! i = CHR ''*'' \<and> i + 1 < length p \<and> p ! (i + 1) = CHR ''*'' then DStar # tokens (drop (i + 2) p)
     else (if p ! i = CHR ''*'' then Star else Lit (p ! i)) # tokens (drop (i + 1) p))"
proof (cases "i + 1 < length p")
  case True
  with assms have "drop i p = p ! i # p ! (i + 1) # drop (i + 2) p"
    and "drop (i + 1) p = p ! (i + 1) # drop (i + 2) p"
    by (simp_all add: drop_Suc_conv)
  with True show ?thesis by simp
next
  case False
  with assms have "drop i p = [p ! i]" "drop (i + 1) p = []" by (simp_all add: drop_Suc_conv)
  with False show ?thesis by simp
qed

lemma matches_cell:
  assumes "fst s < length p" "snd s \<le> length v"
  shows "matches (tokens (drop (fst s) p)) (drop (snd s) v) \<longleftrightarrow>
    (\<exists>t \<in> set (covers_push p v {} s). matches (tokens (drop (fst t) p)) (drop (snd t) v))"
proof -
  obtain i j where s: "s = (i, j)" by (cases s)
  have v: "(\<exists>c w. drop j v = c # w \<and> P c w) \<longleftrightarrow> j < length v \<and> P (v ! j) (drop (Suc j) v)" for P
    using assms s by (cases "j < length v") (auto simp: drop_Suc_conv)
  have lit: "(\<exists>w. drop j v = c # w \<and> P w) \<longleftrightarrow> j < length v \<and> v ! j = c \<and> P (drop (Suc j) v)" for P c
    using assms s by (cases "j < length v") (auto simp: drop_Suc_conv)
  have t: "tokens (drop i p) =
    (if p ! i = CHR ''*'' \<and> i + 1 < length p \<and> p ! (i + 1) = CHR ''*'' then DStar # tokens (drop (i + 2) p)
     else (if p ! i = CHR ''*'' then Star else Lit (p ! i)) # tokens (drop (i + 1) p))"
    using assms s by (simp only: tokens_drop fst_conv)
  have m: "matches (DStar # ts) (drop j v) \<longleftrightarrow>
      matches ts (drop j v) \<or> j < length v \<and> matches (DStar # ts) (drop (Suc j) v)"
    "matches (Star # ts) (drop j v) \<longleftrightarrow>
      matches ts (drop j v) \<or> j < length v \<and> v ! j \<noteq> CHR ''/'' \<and> matches (Star # ts) (drop (Suc j) v)"
    "matches (Lit c # ts) (drop j v) \<longleftrightarrow> j < length v \<and> v ! j = c \<and> matches ts (drop (Suc j) v)"
    for ts c
    using v[of "\<lambda>c w. matches (DStar # ts) w"] v[of "\<lambda>c w. c \<noteq> CHR ''/'' \<and> matches (Star # ts) w"]
      lit[of c "matches ts"]
    by (simp_all only: matches_DStar_unfold[of ts "drop j v"] matches_Star_unfold[of ts "drop j v"]
        matches.simps(2))
  show ?thesis unfolding s fst_conv snd_conv t
    by (auto simp del: matches.simps simp add: m covers_push_def t)
qed

lemma accepts_matches:
  assumes "fst s \<le> length p" "snd s \<le> length v"
  shows "accepts p v s \<longleftrightarrow> matches (tokens (drop (fst s) p)) (drop (snd s) v)"
proof
  assume "accepts p v s"
  then show "matches (tokens (drop (fst s) p)) (drop (snd s) v)" using assms
  proof (induction rule: accepts.induct)
    case final
    then show ?case by simp
  next
    case (push s t)
    with covers_push_in_range[OF push.hyps(2)] matches_cell[of s p v] show ?case by blast
  qed
next
  assume "matches (tokens (drop (fst s) p)) (drop (snd s) v)"
  then show "accepts p v s" using assms
  proof (induction "(length p - fst s) + (length v - snd s)" arbitrary: s rule: less_induct)
    case less
    show ?case
    proof (cases "fst s = length p")
      case True
      with less.prems show ?thesis by (cases s) (auto intro: accepts.final)
    next
      case False
      with less.prems have lt: "fst s < length p" by simp
      with less.prems matches_cell[of s p v] obtain t where
        t: "t \<in> set (covers_push p v {} s)" "matches (tokens (drop (fst t) p)) (drop (snd t) v)"
        by blast
      from t(1) lt less.prems
      have "(length p - fst t) + (length v - snd t) < (length p - fst s) + (length v - snd s)"
        by (cases s) (auto simp: covers_push_def split: if_splits)
      moreover note covers_push_in_range[OF t(1) lt less.prems(3)]
      ultimately have "accepts p v t" using less.hyps t(2) by blast
      with lt t(1) show ?thesis by (rule accepts.push)
    qed
  qed
qed

lemma pattern_covers_matches: "pattern_covers pattern v \<longleftrightarrow> matches (tokens pattern) v"
  by (simp add: pattern_covers_def covers_loop_accepts accepts_matches del: covers_loop.simps)

section \<open>Properties of the matcher\<close>

text \<open>
  C1. The stack search of \<open>pattern_covers\<close> always returns (it never indexes outside its matrix and
  never runs forever), and it answers \<open>true\<close> exactly on the language of the pattern: literals match
  themselves, \<open>*\<close> any run without \<open>/\<close>, \<open>**\<close> any run.
\<close>

theorem pattern_covers_decides_language:
  "covers_loop pattern v {} [(0, 0)] = Some (matches (tokens pattern) v) \<and>
   pattern_covers pattern v = matches (tokens pattern) v"
  by (simp add: covers_loop_accepts accepts_matches pattern_covers_matches del: covers_loop.simps)

lemma matches_DStar_any: "matches [DStar] v"
proof -
  have "v = v @ []" by simp
  then show ?thesis unfolding matches.simps by blast
qed

lemma pattern_subsumes_cases:
  assumes "pattern_subsumes parent child"
  obtains (equal) "parent = child"
    | (any) "parent = ''**''"
    | (segment) "parent = ''*''" "CHR ''/'' \<notin> set child"
    | (root) "parent = child @ ''/**''"
    | (below) prefix rest where "parent = prefix @ ''/**''" "child = prefix @ CHR ''/'' # rest"
    | (direct) prefix rest where "parent = prefix @ ''/*''" "child = prefix @ CHR ''/'' # rest"
        "rest \<noteq> []" "CHR ''/'' \<notin> set rest"
    | (sibling) prefix rest where "parent = prefix @ ''/*''" "child = prefix @ rest"
        "rest \<noteq> []" "CHR ''/'' \<notin> set rest"
  using assms unfolding pattern_subsumes_def Let_def
  by (fastforce simp: strip_suffix_Some_iff strip_prefix_Some_iff
      split: if_splits option.splits list.splits)

text \<open>
  The delegations on which the subsumption test is exact: the child repeats the parent's prefix with
  its separator, and a child of a one-segment parent does not use \<open>**\<close>.
\<close>

definition subsumes_exactly :: "string \<Rightarrow> string \<Rightarrow> bool" where
  "subsumes_exactly parent child \<longleftrightarrow>
     parent = child \<or> parent = ''**'' \<or>
     (parent = ''*'' \<and> DStar \<notin> set (tokens child)) \<or>
     (case strip_suffix ''/**'' parent of
        Some prefix \<Rightarrow> child \<noteq> prefix
      | None \<Rightarrow> (case strip_suffix ''/*'' parent of
           Some prefix \<Rightarrow> (case strip_prefix (prefix @ ''/'') child of
              Some rest \<Rightarrow> DStar \<notin> set (tokens rest)
            | None \<Rightarrow> False)
         | None \<Rightarrow> False))"

lemma subsumes_exactly_covers:
  assumes "pattern_subsumes parent child" "subsumes_exactly parent child"
    and "pattern_covers child v"
  shows "pattern_covers parent v"
  using assms(1)
proof (cases rule: pattern_subsumes_cases)
  case equal
  with assms(3) show ?thesis by simp
next
  case any
  then show ?thesis by (simp add: pattern_covers_matches matches_DStar_any del: matches.simps)
next
  case segment
  with assms(2) have "DStar \<notin> set (tokens child)"
    by (auto simp: subsumes_exactly_def strip_suffix_def split: option.splits)
  with segment assms(3) have "CHR ''/'' \<notin> set v"
    using matches_single_segment tokens_lit by (auto simp: pattern_covers_matches)
  with segment show ?thesis by (simp add: pattern_covers_matches)
next
  case root
  with assms(2) have "False"
    by (auto simp: subsumes_exactly_def strip_suffix_Some_iff split: option.splits)
  then show ?thesis ..
next
  case (below prefix rest)
  with assms(3) show ?thesis
    using matches_slash_append[of prefix "''**''" v]
    by (auto simp: pattern_covers_matches matches_slash_append)
next
  case (direct prefix rest)
  have "DStar \<notin> set (tokens rest)" using assms(2) direct
    by (auto simp: subsumes_exactly_def strip_suffix_def strip_prefix_Some_iff split: option.splits)
  then show ?thesis using assms(3) direct
    by (auto simp: pattern_covers_matches matches_slash_append dest!: tokens_lit
        dest: matches_single_segment)
next
  case (sibling prefix rest)
  have "strip_suffix ''/**'' parent = None" "strip_suffix ''/*'' parent = Some prefix"
    "parent \<noteq> ''**''" "parent \<noteq> ''*''"
    using sibling(1) by (auto simp: strip_suffix_def append_eq_Cons_conv)
  moreover have "strip_prefix (prefix @ ''/'') child = None"
    using sibling by (cases "strip_prefix (prefix @ ''/'') child") (auto simp: strip_prefix_Some_iff)
  ultimately have "parent = child" using assms(2) by (simp add: subsumes_exactly_def)
  with assms(3) show ?thesis by simp
qed

text \<open>
  Where the child repeats the parent's prefix and its separator, the subsumption test is sound:
  every value the child pattern covers is covered by the parent pattern.
\<close>

lemma pattern_subsumes_sound:
  assumes "pattern_subsumes parent child" "subsumes_exactly parent child"
  shows "{v. pattern_covers child v} \<subseteq> {v. pattern_covers parent v}"
  using subsumes_exactly_covers[OF assms] by blast

text \<open>
  Outside those delegations the test is not sound: \<open>release/*\<close> is said to subsume the sibling
  \<open>releases\<close> and the wider \<open>release/**\<close>, and \<open>*\<close> is said to subsume \<open>**\<close>, each of which covers a value
  the parent does not cover.
\<close>

lemma pattern_subsumes_unsound:
  "pattern_subsumes ''release/*'' ''releases'' \<and>
     pattern_covers ''releases'' ''releases'' \<and> \<not> pattern_covers ''release/*'' ''releases'' \<and>
   pattern_subsumes ''release/*'' ''release/**'' \<and>
     pattern_covers ''release/**'' ''release/a/b'' \<and> \<not> pattern_covers ''release/*'' ''release/a/b'' \<and>
   pattern_subsumes ''*'' ''**'' \<and>
     pattern_covers ''**'' ''a/b'' \<and> \<not> pattern_covers ''*'' ''a/b''"
  by code_simp

end
