(* ===== verification/Gov_Policy.thy ===== *)
theory Gov_Policy
  imports Prelude Ieee
begin

text \<open>
  Deterministic authorization (\<open>crates/uc-types/src/governance/policy.rs\<close>): principals and their
  structural ceiling, permissions, grants, the policy snapshot and its evaluation, the fail-closed
  tool table and the sandbox profile. A struct \<open>S\<close> with field \<open>f\<close> is a record whose field is \<open>f\<close> with
  a short prefix; an enum variant \<open>T::V\<close> is the constructor \<open>T.V\<close>.
\<close>

section \<open>Principals, permissions, actions\<close>

datatype PrincipalKind = User | Service | Agent | Worker | ExternalTrigger | Anonymous

datatype Permission =
  TaskSubmit | TaskRead | TaskControl | CaseCreate | CaseRead | CaseControl | MandateIssue |
  MandateRevoke | TriggerIngest | WorkerScale | MemoryWrite | MergeGrant | AttentionResolve |
  ProactivePropose | ProactiveExecute

datatype ActionClass =
  Read | Write | Execute | Dispatch | Push | Merge | ExternalNotify | Scale | Admin

record Principal =
  p_kind :: PrincipalKind
  p_id :: string

fun PrincipalKind_as_str :: "PrincipalKind \<Rightarrow> string" where
  "PrincipalKind_as_str PrincipalKind.User = ''user''"
| "PrincipalKind_as_str PrincipalKind.Service = ''service''"
| "PrincipalKind_as_str PrincipalKind.Agent = ''agent''"
| "PrincipalKind_as_str PrincipalKind.Worker = ''worker''"
| "PrincipalKind_as_str PrincipalKind.ExternalTrigger = ''external_trigger''"
| "PrincipalKind_as_str PrincipalKind.Anonymous = ''anonymous''"

fun is_authority_granting :: "Permission \<Rightarrow> bool" where
  "is_authority_granting Permission.MandateIssue = True"
| "is_authority_granting Permission.MandateRevoke = True"
| "is_authority_granting Permission.WorkerScale = True"
| "is_authority_granting Permission.MergeGrant = True"
| "is_authority_granting Permission.ProactiveExecute = True"
| "is_authority_granting _ = False"

definition may_hold :: "PrincipalKind \<Rightarrow> Permission \<Rightarrow> bool" where
  "may_hold kind permission = (case kind of
     PrincipalKind.ExternalTrigger \<Rightarrow> \<not> is_authority_granting permission
   | PrincipalKind.Anonymous \<Rightarrow> \<not> is_authority_granting permission
   | PrincipalKind.Agent \<Rightarrow> permission \<notin> {Permission.MandateIssue, Permission.MandateRevoke,
       Permission.WorkerScale, Permission.ProactiveExecute}
   | PrincipalKind.Worker \<Rightarrow> permission \<notin> {Permission.MandateIssue, Permission.MandateRevoke,
       Permission.WorkerScale, Permission.ProactiveExecute}
   | PrincipalKind.User \<Rightarrow> True
   | PrincipalKind.Service \<Rightarrow> True)"

definition Principal_new :: "PrincipalKind \<Rightarrow> string \<Rightarrow> Principal" where
  "Principal_new kind i = \<lparr>p_kind = kind, p_id = i\<rparr>"

definition Principal_anonymous :: Principal where
  "Principal_anonymous = Principal_new PrincipalKind.Anonymous ''anonymous''"

definition is_authenticated :: "Principal \<Rightarrow> bool" where
  "is_authenticated p = (p_kind p \<noteq> PrincipalKind.Anonymous)"

definition Principal_display :: "Principal \<Rightarrow> string" where
  "Principal_display p = PrincipalKind_as_str (p_kind p) @ '':'' @ p_id p"

fun Permission_as_str :: "Permission \<Rightarrow> string" where
  "Permission_as_str Permission.TaskSubmit = ''task_submit''"
| "Permission_as_str Permission.TaskRead = ''task_read''"
| "Permission_as_str Permission.TaskControl = ''task_control''"
| "Permission_as_str Permission.CaseCreate = ''case_create''"
| "Permission_as_str Permission.CaseRead = ''case_read''"
| "Permission_as_str Permission.CaseControl = ''case_control''"
| "Permission_as_str Permission.MandateIssue = ''mandate_issue''"
| "Permission_as_str Permission.MandateRevoke = ''mandate_revoke''"
| "Permission_as_str Permission.TriggerIngest = ''trigger_ingest''"
| "Permission_as_str Permission.WorkerScale = ''worker_scale''"
| "Permission_as_str Permission.MemoryWrite = ''memory_write''"
| "Permission_as_str Permission.MergeGrant = ''merge_grant''"
| "Permission_as_str Permission.AttentionResolve = ''attention_resolve''"
| "Permission_as_str Permission.ProactivePropose = ''proactive_propose''"
| "Permission_as_str Permission.ProactiveExecute = ''proactive_execute''"

definition Permission_from_str_lossy :: "string \<Rightarrow> Permission option" where
  "Permission_from_str_lossy value = (let s = to_ascii_lowercase (trim value) in
     if s = ''task_submit'' then Some Permission.TaskSubmit
     else if s = ''task_read'' then Some Permission.TaskRead
     else if s = ''task_control'' then Some Permission.TaskControl
     else if s = ''case_create'' then Some Permission.CaseCreate
     else if s = ''case_read'' then Some Permission.CaseRead
     else if s = ''case_control'' then Some Permission.CaseControl
     else if s = ''mandate_issue'' then Some Permission.MandateIssue
     else if s = ''mandate_revoke'' then Some Permission.MandateRevoke
     else if s = ''trigger_ingest'' then Some Permission.TriggerIngest
     else if s = ''worker_scale'' then Some Permission.WorkerScale
     else if s = ''memory_write'' then Some Permission.MemoryWrite
     else if s = ''merge_grant'' then Some Permission.MergeGrant
     else if s = ''attention_resolve'' then Some Permission.AttentionResolve
     else if s = ''proactive_propose'' then Some Permission.ProactivePropose
     else if s = ''proactive_execute'' then Some Permission.ProactiveExecute
     else None)"

fun ActionClass_as_str :: "ActionClass \<Rightarrow> string" where
  "ActionClass_as_str ActionClass.Read = ''read''"
| "ActionClass_as_str ActionClass.Write = ''write''"
| "ActionClass_as_str ActionClass.Execute = ''execute''"
| "ActionClass_as_str ActionClass.Dispatch = ''dispatch''"
| "ActionClass_as_str ActionClass.Push = ''push''"
| "ActionClass_as_str ActionClass.Merge = ''merge''"
| "ActionClass_as_str ActionClass.ExternalNotify = ''external_notify''"
| "ActionClass_as_str ActionClass.Scale = ''scale''"
| "ActionClass_as_str ActionClass.Admin = ''admin''"

fun required_permission :: "ActionClass \<Rightarrow> Permission" where
  "required_permission ActionClass.Read = Permission.TaskRead"
| "required_permission ActionClass.Write = Permission.TaskSubmit"
| "required_permission ActionClass.Execute = Permission.TaskSubmit"
| "required_permission ActionClass.Dispatch = Permission.TaskControl"
| "required_permission ActionClass.Push = Permission.MergeGrant"
| "required_permission ActionClass.Merge = Permission.MergeGrant"
| "required_permission ActionClass.ExternalNotify = Permission.MemoryWrite"
| "required_permission ActionClass.Scale = Permission.WorkerScale"
| "required_permission ActionClass.Admin = Permission.WorkerScale"

section \<open>Versions, grants, decisions\<close>

type_synonym PolicyVersion = u64

definition PolicyVersion_initial :: PolicyVersion where
  "PolicyVersion_initial = 1"

definition PolicyVersion_next :: "PolicyVersion \<Rightarrow> PolicyVersion" where
  "PolicyVersion_next v = saturating_add v 1"

record Grant =
  g_principal :: Principal
  g_permissions :: "Permission list"
  g_project_id :: "string option"
  g_expires_at :: "datetime option"
  g_revoked :: bool
  g_source :: string

definition Grant_new :: "Principal \<Rightarrow> Permission list \<Rightarrow> Grant" where
  "Grant_new who permissions = \<lparr>g_principal = who, g_permissions = permissions,
     g_project_id = None, g_expires_at = None, g_revoked = False, g_source = []\<rparr>"

definition Grant_with_project :: "Grant \<Rightarrow> string \<Rightarrow> Grant" where
  "Grant_with_project g project_id = g\<lparr>g_project_id := Some project_id\<rparr>"

definition Grant_with_expiry :: "Grant \<Rightarrow> datetime \<Rightarrow> Grant" where
  "Grant_with_expiry g expires_at = g\<lparr>g_expires_at := Some expires_at\<rparr>"

definition Grant_permits :: "Grant \<Rightarrow> Permission \<Rightarrow> string option \<Rightarrow> bool" where
  "Grant_permits g permission project_id =
     (if g_revoked g \<or> permission \<notin> set (g_permissions g) then False
      else case (g_project_id g, project_id) of
        (None, _) \<Rightarrow> True
      | (Some scope, Some requested) \<Rightarrow> scope = requested
      | (Some _, None) \<Rightarrow> False)"

text \<open>A scope value in a denial is text, or a float before its decimal rendering.\<close>

type_synonym scope_value = "string + f64"

datatype DenyReason =
    Unauthenticated
  | MissingPermission Permission
  | GrantRevoked Permission
  | GrantExpired Permission
  | ForbiddenPrincipalKind PrincipalKind Permission
  | StalePolicyVersion u64 u64
  | MandateMissing
  | MandateRevoked string
  | MandateExpired string datetime
  | MandateOutOfScope string scope_value
  | MandateWideningDenied string
  | ToolNotPermitted string
  | ToolRequiresMandateScope string string
  | ToolRequiresHumanApproval string
  | SandboxViolationDenied string
  | BudgetExhausted string
  | ProactiveModeDisallows string string

fun DenyReason_code :: "DenyReason \<Rightarrow> string" where
  "DenyReason_code DenyReason.Unauthenticated = ''unauthenticated''"
| "DenyReason_code (DenyReason.MissingPermission _) = ''missing_permission''"
| "DenyReason_code (DenyReason.GrantRevoked _) = ''grant_revoked''"
| "DenyReason_code (DenyReason.GrantExpired _) = ''grant_expired''"
| "DenyReason_code (DenyReason.ForbiddenPrincipalKind _ _) = ''forbidden_principal_kind''"
| "DenyReason_code (DenyReason.StalePolicyVersion _ _) = ''stale_policy_version''"
| "DenyReason_code DenyReason.MandateMissing = ''mandate_missing''"
| "DenyReason_code (DenyReason.MandateRevoked _) = ''mandate_revoked''"
| "DenyReason_code (DenyReason.MandateExpired _ _) = ''mandate_expired''"
| "DenyReason_code (DenyReason.MandateOutOfScope _ _) = ''mandate_out_of_scope''"
| "DenyReason_code (DenyReason.MandateWideningDenied _) = ''mandate_widening_denied''"
| "DenyReason_code (DenyReason.ToolNotPermitted _) = ''tool_not_permitted''"
| "DenyReason_code (DenyReason.ToolRequiresMandateScope _ _) = ''tool_requires_mandate_scope''"
| "DenyReason_code (DenyReason.ToolRequiresHumanApproval _) = ''tool_requires_human_approval''"
| "DenyReason_code (DenyReason.SandboxViolationDenied _) = ''sandbox_violation''"
| "DenyReason_code (DenyReason.BudgetExhausted _) = ''budget_exhausted''"
| "DenyReason_code (DenyReason.ProactiveModeDisallows _ _) = ''proactive_mode_disallows''"

datatype PolicyDecision = Allow | Deny DenyReason

definition PolicyDecision_is_allowed :: "PolicyDecision \<Rightarrow> bool" where
  "PolicyDecision_is_allowed d = (case d of PolicyDecision.Allow \<Rightarrow> True | PolicyDecision.Deny _ \<Rightarrow> False)"

fun deny_reason :: "PolicyDecision \<Rightarrow> DenyReason option" where
  "deny_reason (PolicyDecision.Deny reason) = Some reason"
| "deny_reason PolicyDecision.Allow = None"

definition deny_code :: "PolicyDecision \<Rightarrow> string option" where
  "deny_code d = map_option DenyReason_code (deny_reason d)"

lemma PolicyDecision_is_allowed_iff [simp]:
  "PolicyDecision_is_allowed d \<longleftrightarrow> d = PolicyDecision.Allow"
  by (simp add: PolicyDecision_is_allowed_def split: PolicyDecision.split)

section \<open>The policy snapshot\<close>

datatype GrantError = ForbiddenGrant PrincipalKind Permission

fun GrantError_display :: "GrantError \<Rightarrow> string" where
  "GrantError_display (ForbiddenGrant kind permission) =
     ''principal kind '' @ PrincipalKind_as_str kind @ '' may never hold '' @ Permission_as_str permission"

record PolicySnapshot =
  ps_version :: PolicyVersion
  ps_grants :: "Grant list"
  ps_revoked_mandates :: "string \<rightharpoonup> string"
  ps_minimum_accepted_version :: "PolicyVersion option"

definition PolicySnapshot_empty :: "PolicyVersion \<Rightarrow> PolicySnapshot" where
  "PolicySnapshot_empty version = \<lparr>ps_version = version, ps_grants = [],
     ps_revoked_mandates = Map.empty, ps_minimum_accepted_version = None\<rparr>"

definition with_grant :: "PolicySnapshot \<Rightarrow> Grant \<Rightarrow> GrantError + PolicySnapshot" where
  "with_grant snapshot grant =
     (case List.find (\<lambda>permission. \<not> may_hold (p_kind (g_principal grant)) permission) (g_permissions grant) of
        Some permission \<Rightarrow> Inl (ForbiddenGrant (p_kind (g_principal grant)) permission)
      | None \<Rightarrow> Inr (snapshot\<lparr>ps_grants := ps_grants snapshot @ [grant]\<rparr>))"

definition snapshot_revoke_mandate :: "PolicySnapshot \<Rightarrow> string \<Rightarrow> string \<Rightarrow> PolicySnapshot" where
  "snapshot_revoke_mandate snapshot mandate_id reason =
     snapshot\<lparr>ps_revoked_mandates := (ps_revoked_mandates snapshot)(mandate_id \<mapsto> reason)\<rparr>"

definition is_mandate_revoked :: "PolicySnapshot \<Rightarrow> string \<Rightarrow> string option" where
  "is_mandate_revoked snapshot mandate_id = ps_revoked_mandates snapshot mandate_id"

text \<open>The loop of \<open>evaluate\<close> over the grants of the principal, with its two flags.\<close>

fun evaluate_loop ::
  "Grant list \<Rightarrow> Principal \<Rightarrow> Permission \<Rightarrow> string option \<Rightarrow> datetime \<Rightarrow> bool \<Rightarrow> bool \<Rightarrow> PolicyDecision" where
  "evaluate_loop [] who permission project_id now saw_revoked saw_expired =
     (if saw_revoked then PolicyDecision.Deny (DenyReason.GrantRevoked permission)
      else if saw_expired then PolicyDecision.Deny (DenyReason.GrantExpired permission)
      else PolicyDecision.Deny (DenyReason.MissingPermission permission))"
| "evaluate_loop (grant # grants) who permission project_id now saw_revoked saw_expired =
     (if \<not> (g_principal grant = who \<and> permission \<in> set (g_permissions grant))
      then evaluate_loop grants who permission project_id now saw_revoked saw_expired
      else if g_revoked grant
      then evaluate_loop grants who permission project_id now True saw_expired
      else if (case g_expires_at grant of Some expires_at \<Rightarrow> expires_at \<le> now | None \<Rightarrow> False)
      then evaluate_loop grants who permission project_id now saw_revoked True
      else if Grant_permits grant permission project_id then PolicyDecision.Allow
      else evaluate_loop grants who permission project_id now saw_revoked saw_expired)"

definition evaluate ::
  "PolicySnapshot \<Rightarrow> Principal \<Rightarrow> Permission \<Rightarrow> string option \<Rightarrow> datetime \<Rightarrow> PolicyDecision" where
  "evaluate snapshot who permission project_id now =
     (if \<not> is_authenticated who then PolicyDecision.Deny DenyReason.Unauthenticated
      else if \<not> may_hold (p_kind who) permission
      then PolicyDecision.Deny (DenyReason.ForbiddenPrincipalKind (p_kind who) permission)
      else evaluate_loop (ps_grants snapshot) who permission project_id now False False)"

definition check_version :: "PolicySnapshot \<Rightarrow> u64 option \<Rightarrow> PolicyDecision" where
  "check_version snapshot provided =
     (case (provided, ps_minimum_accepted_version snapshot) of
        (Some p, Some minimum) \<Rightarrow>
          if p < minimum then PolicyDecision.Deny (DenyReason.StalePolicyVersion p minimum)
          else PolicyDecision.Allow
      | _ \<Rightarrow> PolicyDecision.Allow)"

section \<open>The tool table\<close>

record ToolPolicy =
  tp_tool :: string
  tp_action :: ActionClass
  tp_known :: bool
  tp_requires_mandate_scope :: bool
  tp_human_approval :: bool

definition ToolPolicy_allow :: "string \<Rightarrow> ActionClass \<Rightarrow> ToolPolicy" where
  "ToolPolicy_allow tool action = \<lparr>tp_tool = tool, tp_action = action, tp_known = True,
     tp_requires_mandate_scope = True, tp_human_approval = False\<rparr>"

definition ToolPolicy_read_only :: "string \<Rightarrow> ToolPolicy" where
  "ToolPolicy_read_only tool =
     (ToolPolicy_allow tool ActionClass.Read)\<lparr>tp_known := True, tp_requires_mandate_scope := False\<rparr>"

definition with_human_approval :: "ToolPolicy \<Rightarrow> ToolPolicy" where
  "with_human_approval t = t\<lparr>tp_human_approval := True\<rparr>"

definition without_mandate_scope :: "ToolPolicy \<Rightarrow> ToolPolicy" where
  "without_mandate_scope t = t\<lparr>tp_requires_mandate_scope := False\<rparr>"

text \<open>The \<open>BTreeMap\<close> of rules is an association list with distinct keys.\<close>

type_synonym ToolPolicyTable = "(string \<times> ToolPolicy) list"

definition table_insert :: "ToolPolicyTable \<Rightarrow> ToolPolicy \<Rightarrow> ToolPolicyTable" where
  "table_insert rules policy = AList.update (tp_tool policy) policy rules"

definition builtin_policies :: "ToolPolicy list" where
  "builtin_policies =
     map ToolPolicy_read_only [''Read'', ''Glob'', ''Grep'', ''LS'', ''NotebookRead'', ''TodoRead''] @
     map (\<lambda>tool. ToolPolicy_allow tool ActionClass.Write) [''Edit'', ''Write'', ''NotebookEdit'', ''MultiEdit''] @
     map (\<lambda>tool. ToolPolicy_allow tool ActionClass.Execute) [''Bash'', ''BashOutput'', ''KillBash''] @
     map (\<lambda>tool. ToolPolicy_allow tool ActionClass.Dispatch) [''Task'', ''Agent''] @
     [ToolPolicy_allow ''git_push'' ActionClass.Push,
      ToolPolicy_allow ''merge'' ActionClass.Merge,
      ToolPolicy_allow ''github_comment'' ActionClass.ExternalNotify,
      ToolPolicy_allow ''github_issue_update'' ActionClass.ExternalNotify,
      ToolPolicy_allow ''memory_write'' ActionClass.Write,
      with_human_approval (ToolPolicy_allow ''scale_workers'' ActionClass.Scale),
      with_human_approval (ToolPolicy_allow ''docker_run'' ActionClass.Execute)]"

definition builtin :: ToolPolicyTable where
  "builtin = fold (\<lambda>policy rules. table_insert rules policy) builtin_policies []"

definition requirement :: "ToolPolicyTable \<Rightarrow> string \<Rightarrow> ToolPolicy" where
  "requirement rules tool = (case map_of rules tool of
     Some policy \<Rightarrow> policy
   | None \<Rightarrow> \<lparr>tp_tool = tool, tp_action = ActionClass.Admin, tp_known = False,
               tp_requires_mandate_scope = True, tp_human_approval = True\<rparr>)"

definition evaluate_permission ::
  "ToolPolicyTable \<Rightarrow> string \<Rightarrow> Principal \<Rightarrow> PolicySnapshot \<Rightarrow> string option \<Rightarrow> datetime \<Rightarrow> PolicyDecision" where
  "evaluate_permission rules tool who snapshot project_id now =
     (let req = requirement rules tool in
      if \<not> tp_known req then PolicyDecision.Deny (DenyReason.ToolNotPermitted tool)
      else evaluate snapshot who (required_permission (tp_action req)) project_id now)"

definition known_tools :: "ToolPolicyTable \<Rightarrow> string list" where
  "known_tools rules = sort (map fst rules)"

section \<open>The sandbox profile\<close>

record SandboxSecurityProfile =
  sp_image :: string
  sp_privileged :: bool
  sp_network_mode :: string
  sp_docker_socket_mounted :: bool
  sp_host_pid :: bool
  sp_read_only_rootfs :: bool
  sp_run_as_root :: bool
  sp_seccomp_profile :: string
  sp_writable_host_mounts :: "string list"
  sp_memory_limit_bytes :: u64
  sp_cpu_limit_millis :: u64

datatype SandboxViolation =
  PrivilegedContainer | DockerSocketMounted | HostNetwork | HostPid | WritableHostMount string |
  RunsAsRoot | SeccompUnconfined | NoResourceLimits

fun SandboxViolation_as_str :: "SandboxViolation \<Rightarrow> string" where
  "SandboxViolation_as_str PrivilegedContainer = ''privileged_container''"
| "SandboxViolation_as_str DockerSocketMounted = ''docker_socket_mounted''"
| "SandboxViolation_as_str HostNetwork = ''host_network''"
| "SandboxViolation_as_str HostPid = ''host_pid''"
| "SandboxViolation_as_str (WritableHostMount _) = ''writable_host_mount''"
| "SandboxViolation_as_str RunsAsRoot = ''runs_as_root''"
| "SandboxViolation_as_str SeccompUnconfined = ''seccomp_unconfined''"
| "SandboxViolation_as_str NoResourceLimits = ''no_resource_limits''"

fun SandboxViolation_display :: "SandboxViolation \<Rightarrow> string" where
  "SandboxViolation_display (WritableHostMount path) = ''writable_host_mount('' @ path @ '')''"
| "SandboxViolation_display other = SandboxViolation_as_str other"

definition sandbox_violations :: "SandboxSecurityProfile \<Rightarrow> SandboxViolation list" where
  "sandbox_violations p =
     (if sp_privileged p then [PrivilegedContainer] else []) @
     (if sp_docker_socket_mounted p then [DockerSocketMounted] else []) @
     (if to_ascii_lowercase (sp_network_mode p) = ''host'' then [HostNetwork] else []) @
     (if sp_host_pid p then [HostPid] else []) @
     map WritableHostMount (sp_writable_host_mounts p) @
     (if sp_run_as_root p then [RunsAsRoot] else []) @
     (let seccomp = to_ascii_lowercase (sp_seccomp_profile p) in
      if seccomp = [] \<or> seccomp = ''unconfined'' then [SeccompUnconfined] else []) @
     (if sp_memory_limit_bytes p = 0 \<and> sp_cpu_limit_millis p = 0 then [NoResourceLimits] else [])"

definition sandbox_validate :: "SandboxSecurityProfile \<Rightarrow> SandboxViolation list + unit" where
  "sandbox_validate p = (let violations = sandbox_violations p in
     if violations = [] then Inr () else Inl violations)"

definition sandbox_decision :: "SandboxSecurityProfile \<Rightarrow> PolicyDecision" where
  "sandbox_decision p = (case sandbox_validate p of
     Inr _ \<Rightarrow> PolicyDecision.Allow
   | Inl violations \<Rightarrow> PolicyDecision.Deny (DenyReason.SandboxViolationDenied
       (join_with '','' (sort (map SandboxViolation_display violations)))))"

definition hardened_worker :: SandboxSecurityProfile where
  "hardened_worker = \<lparr>sp_image = ''ultimatecoders-worker:local'', sp_privileged = False,
     sp_network_mode = ''bridge'', sp_docker_socket_mounted = False, sp_host_pid = False,
     sp_read_only_rootfs = False, sp_run_as_root = False, sp_seccomp_profile = ''runtime/default'',
     sp_writable_host_mounts = [], sp_memory_limit_bytes = 2 * 1024 * 1024 * 1024,
     sp_cpu_limit_millis = 2000\<rparr>"

section \<open>Evaluation of a snapshot\<close>

text \<open>The grants that name the principal and the permission, and when one of them is expired or covers the project.\<close>

definition held_grants :: "Grant list \<Rightarrow> Principal \<Rightarrow> Permission \<Rightarrow> Grant set" where
  "held_grants grants who permission =
     {g \<in> set grants. g_principal g = who \<and> permission \<in> set (g_permissions g)}"

definition grant_expired :: "Grant \<Rightarrow> datetime \<Rightarrow> bool" where
  "grant_expired g now = (case g_expires_at g of Some e \<Rightarrow> e \<le> now | None \<Rightarrow> False)"

definition grant_in_project :: "Grant \<Rightarrow> string option \<Rightarrow> bool" where
  "grant_in_project g project_id = (case g_project_id g of None \<Rightarrow> True | Some s \<Rightarrow> project_id = Some s)"

lemma held_grants_simps [simp]:
  "held_grants [] who permission = {}"
  "held_grants (g # gs) who permission =
     (if g_principal g = who \<and> permission \<in> set (g_permissions g) then {g} else {}) \<union>
     held_grants gs who permission"
  by (auto simp: held_grants_def)

lemma Grant_permits_iff:
  "permission \<in> set (g_permissions g) \<Longrightarrow>
     Grant_permits g permission project_id \<longleftrightarrow> \<not> g_revoked g \<and> grant_in_project g project_id"
  by (auto simp: Grant_permits_def grant_in_project_def split: option.splits)

lemma evaluate_loop_spec:
  "evaluate_loop grants who permission project_id now saw_revoked saw_expired =
     (let held = held_grants grants who permission in
      if \<exists>g \<in> held. \<not> g_revoked g \<and> \<not> grant_expired g now \<and> grant_in_project g project_id
      then PolicyDecision.Allow
      else if saw_revoked \<or> (\<exists>g \<in> held. g_revoked g)
      then PolicyDecision.Deny (DenyReason.GrantRevoked permission)
      else if saw_expired \<or> (\<exists>g \<in> held. grant_expired g now)
      then PolicyDecision.Deny (DenyReason.GrantExpired permission)
      else PolicyDecision.Deny (DenyReason.MissingPermission permission))"
proof (induction grants arbitrary: saw_revoked saw_expired)
  case Nil
  then show ?case by simp
next
  case (Cons g gs)
  show ?case
  proof (cases "g_principal g = who \<and> permission \<in> set (g_permissions g)")
    case False
    then show ?thesis by (auto simp: Cons.IH Let_def)
  next
    case True
    then show ?thesis
      by (cases "g_revoked g"; cases "grant_expired g now"; cases "grant_in_project g project_id")
        (simp_all add: Cons.IH Grant_permits_iff grant_expired_def[symmetric] Let_def)
  qed
qed

text \<open>
  The decision of \<open>evaluate\<close> is fixed by the principal and the set of its grants, whatever their
  order: anonymous callers and kinds above their ceiling are refused first; otherwise it allows
  exactly when some grant of the principal names the permission, is neither revoked nor expired and
  covers the project, and each denial names the first fact that holds of the grants it has.
\<close>

lemma evaluate_decision:
  "evaluate snapshot who permission project_id now =
     (if p_kind who = PrincipalKind.Anonymous then PolicyDecision.Deny DenyReason.Unauthenticated
      else if \<not> may_hold (p_kind who) permission
      then PolicyDecision.Deny (DenyReason.ForbiddenPrincipalKind (p_kind who) permission)
      else let held = held_grants (ps_grants snapshot) who permission in
        if \<exists>g \<in> held. \<not> g_revoked g \<and> \<not> grant_expired g now \<and> grant_in_project g project_id
        then PolicyDecision.Allow
        else if \<exists>g \<in> held. g_revoked g then PolicyDecision.Deny (DenyReason.GrantRevoked permission)
        else if \<exists>g \<in> held. grant_expired g now
        then PolicyDecision.Deny (DenyReason.GrantExpired permission)
        else PolicyDecision.Deny (DenyReason.MissingPermission permission))"
  by (cases "p_kind who = PrincipalKind.Anonymous"; cases "may_hold (p_kind who) permission")
    (simp_all only: evaluate_def is_authenticated_def evaluate_loop_spec Let_def simp_thms if_True if_False)

lemma evaluate_Allow_ceiling:
  "evaluate snapshot who permission project_id now = PolicyDecision.Allow \<Longrightarrow>
     is_authenticated who \<and> may_hold (p_kind who) permission"
  by (auto simp: evaluate_def split: if_splits)

text \<open>
  The structural ceiling holds for every snapshot, also one that was not built with
  \<open>with_grant\<close>: an allowed authority-granting permission belongs to a user or a service, and only
  \<open>MergeGrant\<close> can also be allowed to an agent or a worker; an event or an anonymous caller never has one.
\<close>

lemma evaluate_authority_ceiling:
  assumes "evaluate snapshot who permission project_id now = PolicyDecision.Allow"
    and "is_authority_granting permission"
  shows "p_kind who \<in> {PrincipalKind.User, PrincipalKind.Service} \<or>
    permission = Permission.MergeGrant \<and> p_kind who \<in> {PrincipalKind.Agent, PrincipalKind.Worker}"
proof -
  from assms(1) have "is_authenticated who" "may_hold (p_kind who) permission"
    by (simp_all add: evaluate_Allow_ceiling)
  with assms(2) show ?thesis
    by (cases "p_kind who"; cases permission) (simp_all add: may_hold_def is_authenticated_def)
qed

section \<open>Building a snapshot\<close>

definition snapshot_within_ceiling :: "PolicySnapshot \<Rightarrow> bool" where
  "snapshot_within_ceiling s = list_all
     (\<lambda>g. list_all (may_hold (p_kind (g_principal g))) (g_permissions g)) (ps_grants s)"

lemma with_grant_Inr_iff:
  "with_grant s g = Inr s' \<longleftrightarrow>
     list_all (may_hold (p_kind (g_principal g))) (g_permissions g) \<and>
     s' = s\<lparr>ps_grants := ps_grants s @ [g]\<rparr>"
  by (auto simp: with_grant_def find_None_iff list_all_iff split: option.splits dest!: find_SomeD)

text \<open>
  Building a snapshot with \<open>with_grant\<close> keeps every stored grant within the ceiling of its
  principal, and a grant is refused exactly when it names a permission above the ceiling; the error
  names such a permission.
\<close>

lemma with_grant_ceiling:
  assumes "snapshot_within_ceiling s"
  shows "case with_grant s g of
      Inr s' \<Rightarrow> snapshot_within_ceiling s' \<and> ps_grants s' = ps_grants s @ [g]
    | Inl (ForbiddenGrant kind permission) \<Rightarrow>
        kind = p_kind (g_principal g) \<and> permission \<in> set (g_permissions g) \<and> \<not> may_hold kind permission"
proof (cases "with_grant s g")
  case (Inl e)
  then show ?thesis
    by (auto simp: with_grant_def split: option.splits dest!: find_SomeD)
next
  case (Inr s')
  with assms with_grant_Inr_iff[THEN iffD1, OF Inr] show ?thesis
    by (simp add: snapshot_within_ceiling_def list_all_append)
qed

section \<open>Tools and sandboxes\<close>

lemma requirement_known:
  assumes "list_all (\<lambda>(k, t). tp_known t) rules"
  shows "tp_known (requirement rules tool) \<longleftrightarrow> tool \<in> fst ` set rules"
proof (cases "map_of rules tool")
  case None
  then have "tool \<notin> fst ` set rules" by (simp add: map_of_eq_None_iff)
  with None show ?thesis by (simp add: requirement_def)
next
  case (Some t)
  then have "(tool, t) \<in> set rules" by (rule map_of_SomeD)
  with assms Some show ?thesis by (force simp: requirement_def list_all_iff)
qed

text \<open>
  The built-in table is fail-closed: exactly its listed tools are known, an unknown tool is
  denied whoever asks, and among the listed tools exactly \<open>scale_workers\<close> and \<open>docker_run\<close> need a human
  and exactly the six readers need no mandate scope.
\<close>

lemma builtin_fail_closed:
  "known_tools builtin = sort (map tp_tool builtin_policies) \<and>
   (tool \<notin> set (known_tools builtin) \<longrightarrow>
      evaluate_permission builtin tool who snapshot project_id now =
        PolicyDecision.Deny (DenyReason.ToolNotPermitted tool)) \<and>
   [t \<leftarrow> known_tools builtin. tp_human_approval (requirement builtin t)] = [''docker_run'', ''scale_workers''] \<and>
   [t \<leftarrow> known_tools builtin. \<not> tp_requires_mandate_scope (requirement builtin t)] =
     [''Glob'', ''Grep'', ''LS'', ''NotebookRead'', ''Read'', ''TodoRead'']"
proof -
  have "list_all (\<lambda>(k, t). tp_known t) builtin" by code_simp
  then have "tool \<notin> set (known_tools builtin) \<Longrightarrow> \<not> tp_known (requirement builtin tool)"
    by (simp add: requirement_known known_tools_def)
  then have "tool \<notin> set (known_tools builtin) \<longrightarrow>
      evaluate_permission builtin tool who snapshot project_id now =
        PolicyDecision.Deny (DenyReason.ToolNotPermitted tool)"
    by (simp add: evaluate_permission_def)
  moreover have "known_tools builtin = sort (map tp_tool builtin_policies)" by code_simp
  moreover have "[t \<leftarrow> known_tools builtin. tp_human_approval (requirement builtin t)] =
      [''docker_run'', ''scale_workers'']" by code_simp
  moreover have "[t \<leftarrow> known_tools builtin. \<not> tp_requires_mandate_scope (requirement builtin t)] =
      [''Glob'', ''Grep'', ''LS'', ''NotebookRead'', ''Read'', ''TodoRead'']" by code_simp
  ultimately show ?thesis by blast
qed

text \<open>
  A sandbox profile is allowed exactly when it is hardened: unprivileged, no docker socket, not
  the host network in any letter case, no host pid, no writable host mount, not root, a seccomp
  profile that is neither empty nor \<open>unconfined\<close>, and some resource limit. The profile the gateway
  ships for workers is one of them.
\<close>

lemma sandbox_decision_hardened:
  "(sandbox_decision p = PolicyDecision.Allow \<longleftrightarrow>
     \<not> sp_privileged p \<and> \<not> sp_docker_socket_mounted p \<and>
     to_ascii_lowercase (sp_network_mode p) \<noteq> ''host'' \<and> \<not> sp_host_pid p \<and>
     sp_writable_host_mounts p = [] \<and> \<not> sp_run_as_root p \<and>
     to_ascii_lowercase (sp_seccomp_profile p) \<notin> {[], ''unconfined''} \<and>
     (sp_memory_limit_bytes p, sp_cpu_limit_millis p) \<noteq> (0, 0)) \<and>
   sandbox_decision hardened_worker = PolicyDecision.Allow"
proof
  show "sandbox_decision hardened_worker = PolicyDecision.Allow" by code_simp
  show "sandbox_decision p = PolicyDecision.Allow \<longleftrightarrow>
     \<not> sp_privileged p \<and> \<not> sp_docker_socket_mounted p \<and>
     to_ascii_lowercase (sp_network_mode p) \<noteq> ''host'' \<and> \<not> sp_host_pid p \<and>
     sp_writable_host_mounts p = [] \<and> \<not> sp_run_as_root p \<and>
     to_ascii_lowercase (sp_seccomp_profile p) \<notin> {[], ''unconfined''} \<and>
     (sp_memory_limit_bytes p, sp_cpu_limit_millis p) \<noteq> (0, 0)"
    by (auto simp: sandbox_decision_def sandbox_validate_def sandbox_violations_def Let_def)
qed

end
