(* ===== verification/Gov_Mandate.thy ===== *)
theory Gov_Mandate
  imports Gov_Pattern Gov_Policy
begin

text \<open>
  Mandates (\<open>crates/uc-types/src/governance/mandate.rs\<close>): narrow, revocable, time-boxed scopes, the
  check of a request against them, the validation of a delegated mandate and the intersection of
  two. The id that \<open>MandateId::new\<close> draws is an argument of the operations that draw one.
\<close>

section \<open>Data\<close>

datatype MandateOrigin = HumanIssued | CaseDelegated | SystemDefault | TestFixture

fun MandateOrigin_as_str :: "MandateOrigin \<Rightarrow> string" where
  "MandateOrigin_as_str HumanIssued = ''human_issued''"
| "MandateOrigin_as_str CaseDelegated = ''case_delegated''"
| "MandateOrigin_as_str SystemDefault = ''system_default''"
| "MandateOrigin_as_str TestFixture = ''test_fixture''"

definition MandateOrigin_is_root :: "MandateOrigin \<Rightarrow> bool" where
  "MandateOrigin_is_root origin = (origin \<in> {HumanIssued, SystemDefault})"

datatype MandateScope =
    Repo string
  | Branch string
  | Path string
  | Tool string
  | Action ActionClass
  | Budget "u64 option" "f64 option" "u64 option"
  | MaxRuns u32

fun MandateScope_kind :: "MandateScope \<Rightarrow> string" where
  "MandateScope_kind (Repo _) = ''repo''"
| "MandateScope_kind (Branch _) = ''branch''"
| "MandateScope_kind (Path _) = ''path''"
| "MandateScope_kind (Tool _) = ''tool''"
| "MandateScope_kind (Action _) = ''action''"
| "MandateScope_kind (Budget _ _ _) = ''budget''"
| "MandateScope_kind (MaxRuns _) = ''max_runs''"

record MandateRequest =
  rq_repo :: "string option"
  rq_branch :: "string option"
  rq_path :: "string option"
  rq_tool :: "string option"
  rq_action :: "ActionClass option"
  rq_tokens :: "u64 option"
  rq_cost_usd :: "f64 option"
  rq_wall_secs :: "u64 option"
  rq_runs :: "u32 option"

definition MandateRequest_default :: MandateRequest where
  "MandateRequest_default = \<lparr>rq_repo = None, rq_branch = None, rq_path = None, rq_tool = None,
     rq_action = None, rq_tokens = None, rq_cost_usd = None, rq_wall_secs = None, rq_runs = None\<rparr>"

definition MandateRequest_tool :: "string \<Rightarrow> MandateRequest" where
  "MandateRequest_tool name = MandateRequest_default\<lparr>rq_tool := Some name\<rparr>"

definition MandateRequest_action :: "ActionClass \<Rightarrow> MandateRequest" where
  "MandateRequest_action class = MandateRequest_default\<lparr>rq_action := Some class\<rparr>"

definition MandateRequest_write_path :: "string \<Rightarrow> MandateRequest" where
  "MandateRequest_write_path path =
     MandateRequest_default\<lparr>rq_path := Some path, rq_action := Some ActionClass.Write\<rparr>"

datatype MandateDenial =
    Revoked string string
  | Expired string datetime
  | OutOfScope string scope_value
  | WideningDenied string
  | StalePolicyVersion u64 u64
  | OriginForbidden string

fun MandateDenial_code :: "MandateDenial \<Rightarrow> string" where
  "MandateDenial_code (MandateDenial.Revoked _ _) = ''mandate_revoked''"
| "MandateDenial_code (MandateDenial.Expired _ _) = ''mandate_expired''"
| "MandateDenial_code (MandateDenial.OutOfScope _ _) = ''mandate_out_of_scope''"
| "MandateDenial_code (MandateDenial.WideningDenied _) = ''mandate_widening_denied''"
| "MandateDenial_code (MandateDenial.StalePolicyVersion _ _) = ''stale_policy_version''"
| "MandateDenial_code (MandateDenial.OriginForbidden _) = ''mandate_origin_forbidden''"

datatype MandateDecision = Allowed | Denied MandateDenial

definition MandateDecision_is_allowed :: "MandateDecision \<Rightarrow> bool" where
  "MandateDecision_is_allowed decision = (decision = Allowed)"

fun MandateDecision_denial :: "MandateDecision \<Rightarrow> MandateDenial option" where
  "MandateDecision_denial (Denied denial) = Some denial"
| "MandateDecision_denial Allowed = None"

record MandateRevocation =
  rv_at :: datetime
  rv_by :: Principal
  rv_reason :: string

record Mandate =
  m_id :: string
  m_case_id :: string
  m_grantor :: Principal
  m_policy_version :: u64
  m_scopes :: "MandateScope list"
  m_issued_at :: datetime
  m_expires_at :: "datetime option"
  m_revoked :: "MandateRevocation option"
  m_origin :: MandateOrigin
  m_delegated_from :: "string option"

section \<open>Operations\<close>

definition Mandate_new ::
  "string \<Rightarrow> string \<Rightarrow> Principal \<Rightarrow> MandateOrigin \<Rightarrow> MandateScope list \<Rightarrow> PolicyVersion \<Rightarrow> datetime \<Rightarrow> Mandate" where
  "Mandate_new fresh_id case_id grantor origin scopes policy_version now =
     \<lparr>m_id = fresh_id, m_case_id = case_id, m_grantor = grantor, m_policy_version = policy_version,
      m_scopes = scopes, m_issued_at = now, m_expires_at = None, m_revoked = None,
      m_origin = origin, m_delegated_from = None\<rparr>"

definition Mandate_with_expiry :: "Mandate \<Rightarrow> datetime \<Rightarrow> Mandate" where
  "Mandate_with_expiry m expires_at = m\<lparr>m_expires_at := Some expires_at\<rparr>"

definition delegate_from :: "Mandate \<Rightarrow> Mandate \<Rightarrow> Mandate" where
  "delegate_from m parent = m\<lparr>m_delegated_from := Some (m_id parent)\<rparr>"

definition is_revoked :: "Mandate \<Rightarrow> bool" where
  "is_revoked m = (m_revoked m \<noteq> None)"

definition is_expired :: "Mandate \<Rightarrow> datetime \<Rightarrow> bool" where
  "is_expired m now = (case m_expires_at m of Some t \<Rightarrow> t \<le> now | None \<Rightarrow> False)"

definition revoke :: "Mandate \<Rightarrow> Principal \<Rightarrow> string \<Rightarrow> datetime \<Rightarrow> Mandate" where
  "revoke m who reason now =
     (if m_revoked m \<noteq> None then m
      else m\<lparr>m_revoked := Some \<lparr>rv_at = now, rv_by = who, rv_reason = reason\<rparr>\<rparr>)"

definition out_of_scope :: "string \<Rightarrow> scope_value \<Rightarrow> MandateDecision" where
  "out_of_scope scope v = Denied (MandateDenial.OutOfScope scope v)"

definition widen :: "string \<Rightarrow> MandateDecision" where
  "widen detail = Denied (MandateDenial.WideningDenied detail)"

fun is_budget :: "MandateScope \<Rightarrow> bool" where
  "is_budget (Budget _ _ _) = True"
| "is_budget _ = False"

definition budget_scope :: "Mandate \<Rightarrow> MandateScope option" where
  "budget_scope m = find is_budget (m_scopes m)"

fun scope_covers_repo :: "string \<Rightarrow> MandateScope \<Rightarrow> bool" where
  "scope_covers_repo repo (Repo pattern) = pattern_covers pattern repo"
| "scope_covers_repo repo _ = False"

fun scope_covers_branch :: "string \<Rightarrow> MandateScope \<Rightarrow> bool" where
  "scope_covers_branch branch (Branch pattern) = pattern_covers pattern branch"
| "scope_covers_branch branch _ = False"

fun scope_covers_path :: "string \<Rightarrow> MandateScope \<Rightarrow> bool" where
  "scope_covers_path path (Path pattern) = pattern_covers pattern path"
| "scope_covers_path path _ = False"

fun scope_covers_tool :: "string \<Rightarrow> MandateScope \<Rightarrow> bool" where
  "scope_covers_tool tool (Tool name) = (name = tool \<or> name = ''*'')"
| "scope_covers_tool tool _ = False"

fun scope_covers_action :: "ActionClass \<Rightarrow> MandateScope \<Rightarrow> bool" where
  "scope_covers_action action (Action class) = (class = action)"
| "scope_covers_action action _ = False"

fun scope_covers_runs :: "u32 \<Rightarrow> MandateScope \<Rightarrow> bool" where
  "scope_covers_runs runs (MaxRuns mx) = (runs \<le> mx)"
| "scope_covers_runs runs _ = False"

fun budget_covers_tokens :: "u64 \<Rightarrow> MandateScope option \<Rightarrow> bool" where
  "budget_covers_tokens n (Some (Budget (Some mx) _ _)) = (n \<le> mx)"
| "budget_covers_tokens n _ = False"

fun budget_covers_cost :: "f64 \<Rightarrow> MandateScope option \<Rightarrow> bool" where
  "budget_covers_cost cost (Some (Budget _ (Some mx) _)) = f64_le cost mx"
| "budget_covers_cost cost _ = False"

fun budget_covers_wall :: "u64 \<Rightarrow> MandateScope option \<Rightarrow> bool" where
  "budget_covers_wall wall (Some (Budget _ _ (Some mx))) = (wall \<le> mx)"
| "budget_covers_wall wall _ = False"

text \<open>
  One dimension of a request: denied with the scope's name and the requested value unless it is
  absent or covered. \<open>permits\<close> runs the dimensions in order and stops at the first denial.
\<close>

definition check_dimension ::
  "'a option \<Rightarrow> ('a \<Rightarrow> bool) \<Rightarrow> string \<Rightarrow> ('a \<Rightarrow> scope_value) \<Rightarrow> MandateDecision \<Rightarrow> MandateDecision" where
  "check_dimension requested covered scope shown rest =
     (case requested of None \<Rightarrow> rest
      | Some v \<Rightarrow> if covered v then rest else out_of_scope scope (shown v))"

definition permits_scopes :: "Mandate \<Rightarrow> MandateRequest \<Rightarrow> MandateDecision" where
  "permits_scopes m request =
     check_dimension (rq_repo request) (\<lambda>v. list_ex (scope_covers_repo v) (m_scopes m)) ''repo'' Inl (
     check_dimension (rq_branch request) (\<lambda>v. list_ex (scope_covers_branch v) (m_scopes m)) ''branch'' Inl (
     check_dimension (rq_path request) (\<lambda>v. list_ex (scope_covers_path v) (m_scopes m)) ''path'' Inl (
     check_dimension (rq_tool request) (\<lambda>v. list_ex (scope_covers_tool v) (m_scopes m)) ''tool'' Inl (
     check_dimension (rq_action request) (\<lambda>v. list_ex (scope_covers_action v) (m_scopes m)) ''action''
       (Inl \<circ> ActionClass_as_str) (
     check_dimension (rq_tokens request) (\<lambda>v. budget_covers_tokens v (budget_scope m)) ''budget.tokens''
       (Inl \<circ> show_word) (
     check_dimension (rq_cost_usd request) (\<lambda>v. budget_covers_cost v (budget_scope m)) ''budget.cost_usd'' Inr (
     check_dimension (rq_wall_secs request) (\<lambda>v. budget_covers_wall v (budget_scope m)) ''budget.wall_secs''
       (Inl \<circ> show_word) (
     check_dimension (rq_runs request) (\<lambda>v. list_ex (scope_covers_runs v) (m_scopes m)) ''max_runs''
       (Inl \<circ> show_word) Allowed))))))))"

definition permits :: "Mandate \<Rightarrow> MandateRequest \<Rightarrow> datetime \<Rightarrow> MandateDecision" where
  "permits m request now =
     (case m_revoked m of
        Some revocation \<Rightarrow> Denied (MandateDenial.Revoked (m_id m) (rv_reason revocation))
      | None \<Rightarrow>
        (case m_expires_at m of
           Some expires_at \<Rightarrow>
             if expires_at \<le> now then Denied (MandateDenial.Expired (m_id m) expires_at)
             else permits_scopes m request
         | None \<Rightarrow> permits_scopes m request))"

fun budget_within :: "u64 option \<Rightarrow> u64 option \<Rightarrow> bool" where
  "budget_within (Some c) (Some p) = (c \<le> p)"
| "budget_within (Some _) None = True"
| "budget_within None (Some _) = False"
| "budget_within None None = True"

fun cost_within :: "f64 option \<Rightarrow> f64 option \<Rightarrow> bool" where
  "cost_within (Some c) (Some p) = f64_le c (f64_add p f64_epsilon)"
| "cost_within (Some _) None = True"
| "cost_within None (Some _) = False"
| "cost_within None None = True"

fun scope_held :: "Mandate \<Rightarrow> MandateScope \<Rightarrow> bool" where
  "scope_held m (Repo pattern) =
     list_ex (\<lambda>s. case s of Repo p \<Rightarrow> pattern_subsumes p pattern | _ \<Rightarrow> False) (m_scopes m)"
| "scope_held m (Branch pattern) =
     list_ex (\<lambda>s. case s of Branch p \<Rightarrow> pattern_subsumes p pattern | _ \<Rightarrow> False) (m_scopes m)"
| "scope_held m (Path pattern) =
     list_ex (\<lambda>s. case s of Path p \<Rightarrow> pattern_subsumes p pattern | _ \<Rightarrow> False) (m_scopes m)"
| "scope_held m (Tool name) =
     list_ex (\<lambda>s. case s of Tool p \<Rightarrow> p = name \<or> p = ''*'' | _ \<Rightarrow> False) (m_scopes m)"
| "scope_held m (Action class) =
     list_ex (\<lambda>s. case s of Action c \<Rightarrow> c = class | _ \<Rightarrow> False) (m_scopes m)"
| "scope_held m (Budget max_tokens max_cost_usd max_wall_secs) =
     (case budget_scope m of
        Some (Budget parent_tokens parent_cost parent_wall) \<Rightarrow>
          budget_within max_tokens parent_tokens \<and> cost_within max_cost_usd parent_cost \<and>
          budget_within max_wall_secs parent_wall
      | _ \<Rightarrow> False)"
| "scope_held m (MaxRuns mx) =
     list_ex (\<lambda>s. case s of MaxRuns pmax \<Rightarrow> mx \<le> pmax | _ \<Rightarrow> False) (m_scopes m)"

fun check_child_scopes :: "Mandate \<Rightarrow> MandateScope list \<Rightarrow> MandateDecision" where
  "check_child_scopes m [] = Allowed"
| "check_child_scopes m (scope # scopes) =
     (if scope_held m scope then check_child_scopes m scopes
      else widen (''delegated mandate introduces a scope the parent does not hold: '' @
        MandateScope_kind scope))"

definition check_child_expiry :: "datetime option \<Rightarrow> datetime option \<Rightarrow> MandateDecision \<Rightarrow> MandateDecision" where
  "check_child_expiry child parent rest =
     (case (child, parent) of
        (Some child_expiry, Some parent_expiry) \<Rightarrow>
          if parent_expiry < child_expiry then widen ''delegated mandate outlives its parent'' else rest
      | (None, Some _) \<Rightarrow> widen ''delegated mandate removed the parent's expiry''
      | _ \<Rightarrow> rest)"

definition validate_child :: "Mandate \<Rightarrow> Mandate \<Rightarrow> datetime \<Rightarrow> PolicyVersion option \<Rightarrow> MandateDecision" where
  "validate_child m child now minimum_policy =
     (if \<not> MandateDecision_is_allowed (permits m MandateRequest_default now)
      then permits m MandateRequest_default now
      else if m_origin child = HumanIssued
      then Denied (MandateDenial.OriginForbidden (MandateOrigin_as_str (m_origin child)))
      else if m_policy_version child < m_policy_version m
      then Denied (MandateDenial.StalePolicyVersion (m_policy_version child) (m_policy_version m))
      else
        let rest =
          (if m_case_id child \<noteq> m_case_id m \<and> m_delegated_from child \<noteq> Some (m_id m)
           then widen ''delegated mandate must reference its parent mandate''
           else check_child_expiry (m_expires_at child) (m_expires_at m)
             (check_child_scopes m (m_scopes child)))
        in case minimum_policy of
             None \<Rightarrow> rest
           | Some minimum \<Rightarrow>
               if m_policy_version child < minimum
               then Denied (MandateDenial.StalePolicyVersion (m_policy_version child) minimum)
               else rest)"

definition narrowest_u64 :: "u64 option \<Rightarrow> u64 option \<Rightarrow> u64 option" where
  "narrowest_u64 a b = (case (a, b) of
     (Some a, Some b) \<Rightarrow> Some (min a b) | (Some a, None) \<Rightarrow> Some a
   | (None, Some b) \<Rightarrow> Some b | (None, None) \<Rightarrow> None)"

definition narrowest_f64 :: "f64 option \<Rightarrow> f64 option \<Rightarrow> f64 option" where
  "narrowest_f64 a b = (case (a, b) of
     (Some a, Some b) \<Rightarrow> Some (f64_min a b) | (Some a, None) \<Rightarrow> Some a
   | (None, Some b) \<Rightarrow> Some b | (None, None) \<Rightarrow> None)"

fun shared_scope :: "MandateScope list \<Rightarrow> MandateScope \<Rightarrow> bool" where
  "shared_scope others (Budget _ _ _) = False"
| "shared_scope others (MaxRuns mx) =
     list_ex (\<lambda>s. case s of MaxRuns pmax \<Rightarrow> mx \<le> pmax | _ \<Rightarrow> False) others"
| "shared_scope others scope = (scope \<in> set others)"

definition merged_budget :: "Mandate \<Rightarrow> Mandate \<Rightarrow> MandateScope list" where
  "merged_budget a b = (case (budget_scope a, budget_scope b) of
     (Some (Budget ta ca wa), Some (Budget tb cb wb)) \<Rightarrow>
       [Budget (narrowest_u64 ta tb) (narrowest_f64 ca cb) (narrowest_u64 wa wb)]
   | _ \<Rightarrow> [])"

definition intersect :: "string \<Rightarrow> Mandate \<Rightarrow> Mandate \<Rightarrow> datetime \<Rightarrow> Mandate" where
  "intersect fresh_id m other now =
     \<lparr>m_id = fresh_id, m_case_id = m_case_id m, m_grantor = m_grantor m,
      m_policy_version = max (m_policy_version m) (m_policy_version other),
      m_scopes = filter (shared_scope (m_scopes other)) (m_scopes m) @ merged_budget m other,
      m_issued_at = now,
      m_expires_at = (case (m_expires_at m, m_expires_at other) of
          (Some a, Some b) \<Rightarrow> Some (min a b) | (Some a, None) \<Rightarrow> Some a
        | (None, Some b) \<Rightarrow> Some b | (None, None) \<Rightarrow> None),
      m_revoked = None,
      m_origin = (if m_origin m = m_origin other then m_origin m else CaseDelegated),
      m_delegated_from = None\<rparr>"

section \<open>Requests\<close>

lemma check_dimension_Allowed_iff:
  "check_dimension requested covered scope shown rest = Allowed \<longleftrightarrow>
     pred_option covered requested \<and> rest = Allowed"
  by (auto simp: check_dimension_def out_of_scope_def split: option.splits)

lemma scope_covers_repo_iff: "scope_covers_repo v s \<longleftrightarrow> (\<exists>p. s = Repo p \<and> matches (tokens p) v)"
  by (cases s) (auto simp: pattern_covers_matches)

lemma scope_covers_branch_iff: "scope_covers_branch v s \<longleftrightarrow> (\<exists>p. s = Branch p \<and> matches (tokens p) v)"
  by (cases s) (auto simp: pattern_covers_matches)

lemma scope_covers_path_iff: "scope_covers_path v s \<longleftrightarrow> (\<exists>p. s = Path p \<and> matches (tokens p) v)"
  by (cases s) (auto simp: pattern_covers_matches)

lemma scope_covers_tool_iff: "scope_covers_tool v s \<longleftrightarrow> (\<exists>n \<in> {v, ''*''}. s = Tool n)"
  by (cases s) auto

lemma scope_covers_action_iff: "scope_covers_action v s \<longleftrightarrow> s = Action v"
  by (cases s) auto

lemma scope_covers_runs_iff: "scope_covers_runs v s \<longleftrightarrow> (\<exists>mx. s = MaxRuns mx \<and> v \<le> mx)"
  by (cases s) auto

lemma budget_covers_tokens_iff:
  "budget_covers_tokens v b \<longleftrightarrow> (\<exists>mx c w. b = Some (Budget (Some mx) c w) \<and> v \<le> mx)"
  by (cases "(v, b)" rule: budget_covers_tokens.cases) auto

lemma budget_covers_cost_iff:
  "budget_covers_cost v b \<longleftrightarrow> (\<exists>t mx w. b = Some (Budget t (Some mx) w) \<and> f64_le v mx)"
  by (cases "(v, b)" rule: budget_covers_cost.cases) auto

lemma budget_covers_wall_iff:
  "budget_covers_wall v b \<longleftrightarrow> (\<exists>t c mx. b = Some (Budget t c (Some mx)) \<and> v \<le> mx)"
  by (cases "(v, b)" rule: budget_covers_wall.cases) auto

lemmas scope_covers_iff = scope_covers_repo_iff scope_covers_branch_iff scope_covers_path_iff
  scope_covers_tool_iff scope_covers_action_iff scope_covers_runs_iff

lemmas budget_covers_iff = budget_covers_tokens_iff budget_covers_cost_iff budget_covers_wall_iff

text \<open>
  The dimensions of a request that a mandate's scopes cover, one conjunct per dimension. For the
  patterns, tools, actions and run counts any scope of the kind will do. Of the budgets only the first in
  the list of scopes counts.
\<close>

definition first_budget :: "Mandate \<Rightarrow> MandateScope \<Rightarrow> bool" where
  "first_budget m b \<longleftrightarrow> (\<exists>pre post t c w. m_scopes m = pre @ b # post \<and> b = Budget t c w \<and>
     (\<forall>t' c' w'. Budget t' c' w' \<notin> set pre))"

lemma is_budget_iff: "is_budget s \<longleftrightarrow> (\<exists>t c w. s = Budget t c w)"
  by (cases s) auto

lemma first_budget_iff: "first_budget m b \<longleftrightarrow> budget_scope m = Some b"
proof
  assume "first_budget m b"
  then obtain pre post t c w where "m_scopes m = pre @ b # post" "b = Budget t c w" "\<forall>t' c' w'. Budget t' c' w' \<notin> set pre"
    unfolding first_budget_def by blast
  moreover from this have "find is_budget pre = None" by (auto simp: find_None_iff is_budget_iff)
  moreover have "find P (xs @ ys) = (case find P xs of None \<Rightarrow> find P ys | Some x \<Rightarrow> Some x)" for P :: "MandateScope \<Rightarrow> bool" and xs ys
    by (induction xs) auto
  ultimately show "budget_scope m = Some b" by (simp add: budget_scope_def)
next
  assume "budget_scope m = Some b"
  then obtain i where i: "i < length (m_scopes m)" "is_budget (m_scopes m ! i)" "b = m_scopes m ! i" "\<forall>j < i. \<not> is_budget (m_scopes m ! j)"
    unfolding budget_scope_def find_Some_iff by auto
  then have "\<forall>t' c' w'. Budget t' c' w' \<notin> set (take i (m_scopes m))"
    by (metis in_set_conv_nth is_budget.simps(1) length_take min_less_iff_conj nth_take)
  then show "first_budget m b" using i unfolding first_budget_def is_budget_iff by (metis id_take_nth_drop)
qed

definition scopes_cover :: "Mandate \<Rightarrow> MandateRequest \<Rightarrow> bool" where
  "scopes_cover m r \<longleftrightarrow>
     pred_option (\<lambda>v. \<exists>p. Repo p \<in> set (m_scopes m) \<and> matches (tokens p) v) (rq_repo r) \<and>
     pred_option (\<lambda>v. \<exists>p. Branch p \<in> set (m_scopes m) \<and> matches (tokens p) v) (rq_branch r) \<and>
     pred_option (\<lambda>v. \<exists>p. Path p \<in> set (m_scopes m) \<and> matches (tokens p) v) (rq_path r) \<and>
     pred_option (\<lambda>v. \<exists>n \<in> {v, ''*''}. Tool n \<in> set (m_scopes m)) (rq_tool r) \<and>
     pred_option (\<lambda>v. Action v \<in> set (m_scopes m)) (rq_action r) \<and>
     pred_option (\<lambda>v. \<exists>mx c w. first_budget m (Budget (Some mx) c w) \<and> v \<le> mx) (rq_tokens r) \<and>
     pred_option (\<lambda>v. \<exists>t mx w. first_budget m (Budget t (Some mx) w) \<and> f64_le v mx) (rq_cost_usd r) \<and>
     pred_option (\<lambda>v. \<exists>t c mx. first_budget m (Budget t c (Some mx)) \<and> v \<le> mx) (rq_wall_secs r) \<and>
     pred_option (\<lambda>v. \<exists>mx. MaxRuns mx \<in> set (m_scopes m) \<and> v \<le> mx) (rq_runs r)"

lemma permits_scopes_iff: "permits_scopes m r = Allowed \<longleftrightarrow> scopes_cover m r"
proof -
  have ex: "list_ex (scope_covers_repo v) (m_scopes m) \<longleftrightarrow>
      (\<exists>p. Repo p \<in> set (m_scopes m) \<and> matches (tokens p) v)"
    "list_ex (scope_covers_branch v) (m_scopes m) \<longleftrightarrow>
      (\<exists>p. Branch p \<in> set (m_scopes m) \<and> matches (tokens p) v)"
    "list_ex (scope_covers_path v) (m_scopes m) \<longleftrightarrow>
      (\<exists>p. Path p \<in> set (m_scopes m) \<and> matches (tokens p) v)"
    "list_ex (scope_covers_tool v) (m_scopes m) \<longleftrightarrow> (\<exists>n \<in> {v, ''*''}. Tool n \<in> set (m_scopes m))"
    "list_ex (scope_covers_action a) (m_scopes m) \<longleftrightarrow> Action a \<in> set (m_scopes m)"
    "list_ex (scope_covers_runs u) (m_scopes m) \<longleftrightarrow>
      (\<exists>mx. MaxRuns mx \<in> set (m_scopes m) \<and> u \<le> mx)" for v a u
    unfolding list_ex_iff scope_covers_iff by blast+
  show ?thesis
    by (simp only: permits_scopes_def check_dimension_Allowed_iff ex budget_covers_iff scopes_cover_def
        first_budget_iff simp_thms)
qed

lemma permits_Allowed_iff:
  "permits m r now = Allowed \<longleftrightarrow> \<not> is_revoked m \<and> \<not> is_expired m now \<and> scopes_cover m r"
  by (auto simp: permits_def is_revoked_def is_expired_def permits_scopes_iff
      split: option.splits if_splits)

lemma scopes_cover_default [simp]: "scopes_cover m MandateRequest_default"
  by (simp add: scopes_cover_def MandateRequest_default_def)

text \<open>
  C2. A mandate allows a request exactly when it is not revoked, not yet expired at \<open>now\<close> and every
  dimension the request names is covered: repository, branch and path by some pattern of that kind,
  under the reference reading of the glob patterns, tool, action and number of runs by some scope of
  that kind, and tokens, cost and wall-clock time by the first budget of the mandate, which must bound
  that dimension (a second budget is never consulted). A dimension without a scope is refused.
\<close>

theorem permits_fail_closed:
  "permits m r now = Allowed \<longleftrightarrow> m_revoked m = None \<and> pred_option (\<lambda>t. now < t) (m_expires_at m) \<and>
     scopes_cover m r"
  by (auto simp: permits_Allowed_iff is_revoked_def is_expired_def split: option.splits)

text \<open>
  Revocation is checked first and is permanent: once revoked, whatever is asked and whenever, the
  answer is the denial with the first revocation's reason, also after a later revocation.
\<close>

lemma revoke_permanent:
  "permits (revoke (revoke m who reason t) who' reason' t') r now =
     Denied (MandateDenial.Revoked (m_id m)
       (case m_revoked m of None \<Rightarrow> reason | Some first \<Rightarrow> rv_reason first))"
  by (auto simp: permits_def revoke_def split: option.splits)

section \<open>Delegation\<close>

text \<open>
  The delegations on which the test is exact: each pattern the parent subsumes is subsumed exactly,
  and the child's budget bounds no dimension the parent leaves out.
\<close>

fun exact_scope :: "MandateScope \<Rightarrow> MandateScope \<Rightarrow> bool" where
  "exact_scope (Repo p) (Repo c) = (pattern_subsumes p c \<longrightarrow> subsumes_exactly p c)"
| "exact_scope (Branch p) (Branch c) = (pattern_subsumes p c \<longrightarrow> subsumes_exactly p c)"
| "exact_scope (Path p) (Path c) = (pattern_subsumes p c \<longrightarrow> subsumes_exactly p c)"
| "exact_scope (Budget pt pc pw) (Budget ct cc cw) =
     ((ct \<noteq> None \<longrightarrow> pt \<noteq> None) \<and> (cc \<noteq> None \<longrightarrow> pc \<noteq> None) \<and> (cw \<noteq> None \<longrightarrow> pw \<noteq> None))"
| "exact_scope _ _ = True"

definition exact_delegation :: "Mandate \<Rightarrow> Mandate \<Rightarrow> bool" where
  "exact_delegation m child = list_all (\<lambda>c. list_all (\<lambda>p. exact_scope p c) (m_scopes m)) (m_scopes child)"

text \<open>The parent with the tolerance that \<open>validate_child\<close> grants: its costs raised by \<open>f64::EPSILON\<close>.\<close>

fun tolerant_scope :: "MandateScope \<Rightarrow> MandateScope" where
  "tolerant_scope (Budget t (Some p) w) = Budget t (Some (f64_add p f64_epsilon)) w"
| "tolerant_scope s = s"

definition cost_tolerance :: "Mandate \<Rightarrow> Mandate" where
  "cost_tolerance m = m\<lparr>m_scopes := map tolerant_scope (m_scopes m)\<rparr>"

lemma tolerant_scope_iff [simp]:
  "tolerant_scope s = Repo p \<longleftrightarrow> s = Repo p" "tolerant_scope s = Branch p \<longleftrightarrow> s = Branch p"
  "tolerant_scope s = Path p \<longleftrightarrow> s = Path p" "tolerant_scope s = Tool p \<longleftrightarrow> s = Tool p"
  "tolerant_scope s = Action a \<longleftrightarrow> s = Action a" "tolerant_scope s = MaxRuns u \<longleftrightarrow> s = MaxRuns u"
  "is_budget (tolerant_scope s) = is_budget s"
  by (cases s rule: tolerant_scope.cases; simp)+

lemma tolerant_scope_Budget:
  "tolerant_scope s = Budget t c w \<longleftrightarrow> (\<exists>c'. s = Budget t c' w \<and> c = map_option (\<lambda>p. f64_add p f64_epsilon) c')"
  by (cases s rule: tolerant_scope.cases) auto

lemma cost_tolerance_scopes [simp]:
  "Repo p \<in> set (m_scopes (cost_tolerance m)) \<longleftrightarrow> Repo p \<in> set (m_scopes m)"
  "Branch p \<in> set (m_scopes (cost_tolerance m)) \<longleftrightarrow> Branch p \<in> set (m_scopes m)"
  "Path p \<in> set (m_scopes (cost_tolerance m)) \<longleftrightarrow> Path p \<in> set (m_scopes m)"
  "Tool p \<in> set (m_scopes (cost_tolerance m)) \<longleftrightarrow> Tool p \<in> set (m_scopes m)"
  "Action a \<in> set (m_scopes (cost_tolerance m)) \<longleftrightarrow> Action a \<in> set (m_scopes m)"
  "MaxRuns u \<in> set (m_scopes (cost_tolerance m)) \<longleftrightarrow> MaxRuns u \<in> set (m_scopes m)"
  by (simp_all add: cost_tolerance_def image_iff eq_commute[of _ "tolerant_scope _"])

lemma cost_tolerance_budget: "budget_scope (cost_tolerance m) = map_option tolerant_scope (budget_scope m)"
proof -
  have "find is_budget (map tolerant_scope scopes) = map_option tolerant_scope (find is_budget scopes)" for scopes
    by (induction scopes) auto
  then show ?thesis by (simp add: budget_scope_def cost_tolerance_def)
qed

lemma cost_tolerance_in_force [simp]:
  "is_revoked (cost_tolerance m) = is_revoked m" "is_expired (cost_tolerance m) t = is_expired m t"
  by (simp_all add: cost_tolerance_def is_revoked_def is_expired_def)

lemma check_child_scopes_Allowed_iff:
  "check_child_scopes m scopes = Allowed \<longleftrightarrow> (\<forall>s \<in> set scopes. scope_held m s)"
  by (induction scopes) (auto simp: widen_def)

lemma check_child_expiry_Allowed_iff:
  "check_child_expiry child parent rest = Allowed \<longleftrightarrow>
     pred_option (\<lambda>p. \<exists>c. child = Some c \<and> c \<le> p) parent \<and> rest = Allowed"
  by (auto simp: check_child_expiry_def widen_def split: option.splits)

lemma validate_child_Allowed_iff:
  "validate_child m child now minimum_policy = Allowed \<longleftrightarrow>
     \<not> is_revoked m \<and> \<not> is_expired m now \<and> m_origin child \<noteq> HumanIssued \<and>
     m_policy_version m \<le> m_policy_version child \<and>
     pred_option (\<lambda>v. v \<le> m_policy_version child) minimum_policy \<and>
     (m_case_id child = m_case_id m \<or> m_delegated_from child = Some (m_id m)) \<and>
     pred_option (\<lambda>p. \<exists>c. m_expires_at child = Some c \<and> c \<le> p) (m_expires_at m) \<and>
     (\<forall>s \<in> set (m_scopes child). scope_held m s)"
proof (cases "permits m MandateRequest_default now = Allowed")
  case False
  then show ?thesis by (auto simp: validate_child_def MandateDecision_is_allowed_def permits_Allowed_iff)
next
  case True
  then have "\<not> is_revoked m" "\<not> is_expired m now" by (simp_all add: permits_Allowed_iff)
  moreover have "\<And>d. widen d \<noteq> Allowed" by (simp add: widen_def)
  moreover have "\<And>rest. check_child_expiry (m_expires_at child) (m_expires_at m) rest = Allowed \<longleftrightarrow>
      pred_option (\<lambda>p. \<exists>c. m_expires_at child = Some c \<and> c \<le> p) (m_expires_at m) \<and> rest = Allowed"
    by (rule check_child_expiry_Allowed_iff)
  ultimately show ?thesis using True
    unfolding validate_child_def MandateDecision_is_allowed_def Let_def
      check_child_scopes_Allowed_iff[symmetric]
    by (simp only: simp_thms if_False not_less[symmetric] split: if_split option.split) (auto)
qed

lemma budget_scope_Some: "budget_scope m = Some b \<Longrightarrow> b \<in> set (m_scopes m) \<and> is_budget b"
  unfolding budget_scope_def by (rule find_SomeD)

lemma exact_delegationD:
  "exact_delegation m child \<Longrightarrow> p \<in> set (m_scopes m) \<Longrightarrow> c \<in> set (m_scopes child) \<Longrightarrow> exact_scope p c"
  by (simp add: exact_delegation_def list_all_iff)

lemma scope_case_iff:
  shows "(case s of Repo p \<Rightarrow> P0 p | _ \<Rightarrow> False) \<longleftrightarrow> (\<exists>p. s = Repo p \<and> P0 p)"
    and "(case s of Branch p \<Rightarrow> P1 p | _ \<Rightarrow> False) \<longleftrightarrow> (\<exists>p. s = Branch p \<and> P1 p)"
    and "(case s of Path p \<Rightarrow> P2 p | _ \<Rightarrow> False) \<longleftrightarrow> (\<exists>p. s = Path p \<and> P2 p)"
    and "(case s of Tool p \<Rightarrow> P3 p | _ \<Rightarrow> False) \<longleftrightarrow> (\<exists>p. s = Tool p \<and> P3 p)"
    and "(case s of Action p \<Rightarrow> P4 p | _ \<Rightarrow> False) \<longleftrightarrow> (\<exists>p. s = Action p \<and> P4 p)"
    and "(case s of MaxRuns p \<Rightarrow> P5 p | _ \<Rightarrow> False) \<longleftrightarrow> (\<exists>p. s = MaxRuns p \<and> P5 p)"
  by (cases s; simp)+

lemma held_scope_cases:
  assumes "scope_held m c"
  shows "c = Repo pat \<Longrightarrow> \<exists>p. Repo p \<in> set (m_scopes m) \<and> pattern_subsumes p pat"
    and "c = Branch pat \<Longrightarrow> \<exists>p. Branch p \<in> set (m_scopes m) \<and> pattern_subsumes p pat"
    and "c = Path pat \<Longrightarrow> \<exists>p. Path p \<in> set (m_scopes m) \<and> pattern_subsumes p pat"
    and "c = Tool name \<Longrightarrow> \<exists>p \<in> {name, ''*''}. Tool p \<in> set (m_scopes m)"
    and "c = Action class \<Longrightarrow> Action class \<in> set (m_scopes m)"
    and "c = MaxRuns mx \<Longrightarrow> \<exists>p. MaxRuns p \<in> set (m_scopes m) \<and> mx \<le> p"
  using assms by (auto simp: list_ex_iff scope_case_iff)

lemma held_pattern:
  assumes "exact_delegation m child" "\<forall>s \<in> set (m_scopes child). scope_held m s"
  shows "\<exists>p. Repo p \<in> set (m_scopes child) \<and> matches (tokens p) v \<Longrightarrow>
      \<exists>p. Repo p \<in> set (m_scopes m) \<and> matches (tokens p) v"
    and "\<exists>p. Branch p \<in> set (m_scopes child) \<and> matches (tokens p) v \<Longrightarrow>
      \<exists>p. Branch p \<in> set (m_scopes m) \<and> matches (tokens p) v"
    and "\<exists>p. Path p \<in> set (m_scopes child) \<and> matches (tokens p) v \<Longrightarrow>
      \<exists>p. Path p \<in> set (m_scopes m) \<and> matches (tokens p) v"
  using assms(2) exact_delegationD[OF assms(1)] subsumes_exactly_covers[unfolded pattern_covers_matches]
    held_scope_cases(1-3) exact_scope.simps(1-3) by metis+

lemma held_budget:
  assumes exact: "exact_delegation m child" and held: "\<forall>s \<in> set (m_scopes child). scope_held m s"
    and child: "budget_scope child = Some (Budget ct cc cw)"
  obtains pt pc pw where "budget_scope m = Some (Budget pt pc pw)"
    "pred_option (\<lambda>c. \<exists>p. pt = Some p \<and> c \<le> p) ct"
    "pred_option (\<lambda>c. \<exists>p. pc = Some p \<and> f64_le c (f64_add p f64_epsilon)) cc"
    "pred_option (\<lambda>c. \<exists>p. pw = Some p \<and> c \<le> p) cw"
proof -
  from child have "Budget ct cc cw \<in> set (m_scopes child)" using budget_scope_Some by blast
  moreover from this held have "scope_held m (Budget ct cc cw)" by blast
  then obtain pt pc pw where b: "budget_scope m = Some (Budget pt pc pw)"
    and w: "budget_within ct pt" "cost_within cc pc" "budget_within cw pw"
    by (auto split: option.split_asm MandateScope.split_asm)
  ultimately have e: "exact_scope (Budget pt pc pw) (Budget ct cc cw)"
    using exact_delegationD[OF exact] budget_scope_Some[OF b] by blast
  show ?thesis
  proof (rule that[OF b])
    show "pred_option (\<lambda>c. \<exists>p. pt = Some p \<and> c \<le> p) ct" "pred_option (\<lambda>c. \<exists>p. pw = Some p \<and> c \<le> p) cw"
      using w e by (auto elim!: budget_within.elims)
    show "pred_option (\<lambda>c. \<exists>p. pc = Some p \<and> f64_le c (f64_add p f64_epsilon)) cc"
      using w(2) e by (auto elim!: cost_within.elims)
  qed
qed

lemma scopes_cover_delegated:
  assumes held: "\<forall>s \<in> set (m_scopes child). scope_held m s"
    and exact: "exact_delegation m child" and cover: "scopes_cover child r"
  shows "scopes_cover (cost_tolerance m) r"
proof -
  have "\<exists>n \<in> {v, ''*''}. Tool n \<in> set (m_scopes m)" if "\<exists>n \<in> {v, ''*''}. Tool n \<in> set (m_scopes child)" for v
    using that held held_scope_cases(4) by blast
  moreover have "Action a \<in> set (m_scopes m)" if "Action a \<in> set (m_scopes child)" for a
    using that held held_scope_cases(5) by blast
  moreover have "\<exists>mx. MaxRuns mx \<in> set (m_scopes m) \<and> u \<le> mx"
    if "\<exists>mx. MaxRuns mx \<in> set (m_scopes child) \<and> u \<le> mx" for u
    using that held held_scope_cases(6) order_trans by metis
  moreover have "\<exists>mx c w. budget_scope (cost_tolerance m) = Some (Budget (Some mx) c w) \<and> t \<le> mx"
    if "\<exists>mx c w. budget_scope child = Some (Budget (Some mx) c w) \<and> t \<le> mx" for t
    using that by (elim exE conjE held_budget[OF exact held], rename_tac pt pc pw, case_tac pc)
      (auto simp: cost_tolerance_budget intro: order_trans)
  moreover have "\<exists>t mx w. budget_scope (cost_tolerance m) = Some (Budget t (Some mx) w) \<and> f64_le c mx"
    if "\<exists>t mx w. budget_scope child = Some (Budget t (Some mx) w) \<and> f64_le c mx" for c
    using that by (fastforce simp: cost_tolerance_budget elim!: held_budget[OF exact held] dest: f64_le_trans)
  moreover have "\<exists>t c mx. budget_scope (cost_tolerance m) = Some (Budget t c (Some mx)) \<and> w \<le> mx"
    if "\<exists>t c mx. budget_scope child = Some (Budget t c (Some mx)) \<and> w \<le> mx" for w
    using that by (elim exE conjE held_budget[OF exact held], rename_tac pt pc pw, case_tac pc)
      (auto simp: cost_tolerance_budget intro: order_trans)
  ultimately show ?thesis using cover held_pattern[OF exact held]
    unfolding scopes_cover_def first_budget_iff cost_tolerance_scopes
    by (elim conjE) (intro conjI; erule pred_option_mp; assumption?; blast)
qed

lemma tolerance_only_cost:
  assumes "rq_cost_usd r = None"
  shows "scopes_cover (cost_tolerance m) r \<longleftrightarrow> scopes_cover m r"
proof -
  have "(\<exists>mx c w. budget_scope (cost_tolerance m) = Some (Budget (Some mx) c w) \<and> t \<le> mx) \<longleftrightarrow>
      (\<exists>mx c w. budget_scope m = Some (Budget (Some mx) c w) \<and> t \<le> mx)" for t
    by (auto simp: cost_tolerance_budget tolerant_scope_Budget)
  moreover have "(\<exists>t c mx. budget_scope (cost_tolerance m) = Some (Budget t c (Some mx)) \<and> w \<le> mx) \<longleftrightarrow>
      (\<exists>t c mx. budget_scope m = Some (Budget t c (Some mx)) \<and> w \<le> mx)" for w
    by (auto simp: cost_tolerance_budget tolerant_scope_Budget)
  ultimately show ?thesis using assms unfolding scopes_cover_def first_budget_iff cost_tolerance_scopes by simp
qed

lemma delegated_narrows:
  assumes "validate_child m child now minimum_policy = Allowed" "exact_delegation m child" "permits child r t = Allowed"
  shows "permits (cost_tolerance m) r t = Allowed" and "rq_cost_usd r = None \<Longrightarrow> permits m r t = Allowed"
proof -
  have "\<not> is_revoked m" and "\<forall>s \<in> set (m_scopes child). scope_held m s"
    and exp: "pred_option (\<lambda>p. \<exists>c. m_expires_at child = Some c \<and> c \<le> p) (m_expires_at m)"
    using assms(1) by (simp_all add: validate_child_Allowed_iff)
  moreover have "is_expired m t \<Longrightarrow> is_expired child t"
    using exp by (auto simp: is_expired_def split: option.splits)
  ultimately show narrowed: "permits (cost_tolerance m) r t = Allowed"
    using scopes_cover_delegated[OF _ assms(2)] assms(3) by (auto simp: permits_Allowed_iff)
  show "permits m r t = Allowed" if "rq_cost_usd r = None"
    using narrowed tolerance_only_cost[OF that] by (simp add: permits_Allowed_iff)
qed

text \<open>
  C37. A delegated mandate that \<open>validate_child\<close> accepts never allows a request at a time its parent
  does not allow it, where the pattern test is exact on its scopes and its budget bounds only
  dimensions that the parent bounds. For the cost this holds up to the tolerance of the test: a
  request that names a cost is allowed by the parent with its cost bound raised by \<open>f64::EPSILON\<close>, one
  that names none by the parent itself.
\<close>

theorem delegation_narrows:
  assumes "validate_child m child now minimum_policy = Allowed" "exact_delegation m child"
  shows "{(r, t). permits child r t = Allowed} \<subseteq> {(r, t). permits (cost_tolerance m) r t = Allowed} \<and>
    {(r, t). permits child r t = Allowed \<and> rq_cost_usd r = None} \<subseteq> {(r, t). permits m r t = Allowed}"
  using delegated_narrows[OF assms] by auto

definition root_mandate :: Mandate where
  "root_mandate = Mandate_with_expiry (Mandate_new ''m1'' ''case-1'' (Principal_new PrincipalKind.User ''alice'')
     HumanIssued [Path ''crates/uc-engine/**'', Branch ''release/*'', Tool ''Edit'', Action ActionClass.Write,
       Budget (Some 1000) None None, MaxRuns 5] 1 0) 100"

definition child_mandate :: Mandate where
  "child_mandate = Mandate_with_expiry (delegate_from (Mandate_new ''m2'' ''case-2'' (Principal_new PrincipalKind.Agent ''a1'')
     CaseDelegated [Path ''crates/uc-engine/src/*'', Tool ''Edit'', Budget (Some 10) None None, MaxRuns 2] 1 1)
     root_mandate) 50"

theorem delegation_narrows_witness:
  "{(r, t). permits child_mandate r t = Allowed} \<subseteq> {(r, t). permits (cost_tolerance root_mandate) r t = Allowed} \<and>
   {(r, t). permits child_mandate r t = Allowed \<and> rq_cost_usd r = None} \<subseteq> {(r, t). permits root_mandate r t = Allowed}"
proof -
  have "validate_child root_mandate child_mandate 2 (Some 1) = Allowed" "exact_delegation root_mandate child_mandate"
    by code_simp+
  from delegation_narrows[OF this] show ?thesis by blast
qed

definition wider_child :: "MandateScope \<Rightarrow> Mandate" where
  "wider_child scope = Mandate_with_expiry (delegate_from (Mandate_new ''m3'' ''case-2''
     (Principal_new PrincipalKind.Agent ''a1'') CaseDelegated [scope] 1 1) root_mandate) 50"

text \<open>
  Without that restriction a delegation can widen: below a parent with branch \<open>release/*\<close> and a token
  budget only, \<open>validate_child\<close> accepts a child for the branch \<open>releases\<close> and one with a wall-clock
  budget, and each allows a request its parent denies.
\<close>

lemma delegation_widens:
  "validate_child root_mandate (wider_child (Branch ''releases'')) 2 None = Allowed \<and>
     permits (wider_child (Branch ''releases'')) (MandateRequest_default\<lparr>rq_branch := Some ''releases''\<rparr>) 2 = Allowed \<and>
     permits root_mandate (MandateRequest_default\<lparr>rq_branch := Some ''releases''\<rparr>) 2 \<noteq> Allowed \<and>
   validate_child root_mandate (wider_child (Budget (Some 5) (Some (Fin 7)) (Some 9))) 2 None = Allowed \<and>
     permits (wider_child (Budget (Some 5) (Some (Fin 7)) (Some 9))) (MandateRequest_default\<lparr>rq_wall_secs := Some 9\<rparr>) 2 = Allowed \<and>
     permits root_mandate (MandateRequest_default\<lparr>rq_wall_secs := Some 9\<rparr>) 2 \<noteq> Allowed"
  by code_simp

text \<open>The tolerance is real: below a cost of nothing a child may spend \<open>f64::EPSILON\<close>, which its parent denies.\<close>

lemma delegation_widens_cost:
  "let parent = root_mandate\<lparr>m_scopes := [Budget None (Some (Fin 0)) None]\<rparr>;
       child = wider_child (Budget None (Some f64_epsilon) None);
       r = MandateRequest_default\<lparr>rq_cost_usd := Some f64_epsilon\<rparr>
   in validate_child parent child 2 None = Allowed \<and> permits child r 2 = Allowed \<and> permits parent r 2 \<noteq> Allowed"
  by code_simp

section \<open>Intersection\<close>

text \<open>Two budgets whose merge is within both: they bound the same dimensions, with numbers.\<close>

fun budgets_agree :: "MandateScope option \<Rightarrow> MandateScope option \<Rightarrow> bool" where
  "budgets_agree (Some (Budget ta ca wa)) (Some (Budget tb cb wb)) =
     ((ta = None) = (tb = None) \<and> (ca = None) = (cb = None) \<and> (wa = None) = (wb = None) \<and>
      NaN \<notin> set_option ca \<union> set_option cb)"
| "budgets_agree _ _ = True"

lemma shared_scope_subset: "shared_scope others s \<Longrightarrow> \<not> is_budget s \<Longrightarrow> (\<nexists>mx. s = MaxRuns mx) \<Longrightarrow> s \<in> set others"
  by (cases s) auto

lemma shared_scope_not_budget: "shared_scope others s \<Longrightarrow> \<not> is_budget s"
  by (cases s) auto

lemma budget_scope_intersect:
  "budget_scope (intersect i a b t) = find is_budget (merged_budget a b)"
  by (simp add: budget_scope_def intersect_def find_filter_none[OF shared_scope_not_budget])

lemma intersect_scopes:
  assumes "s \<in> set (m_scopes (intersect i a b t))" "\<not> is_budget s"
  shows "s \<in> set (m_scopes a)" "shared_scope (m_scopes b) s"
proof -
  have "\<forall>x \<in> set (merged_budget a b). is_budget x"
    by (auto simp: merged_budget_def split: option.split MandateScope.split)
  with assms show "s \<in> set (m_scopes a)" "shared_scope (m_scopes b) s"
    by (auto simp: intersect_def)
qed

lemma intersect_budget:
  assumes agree: "budgets_agree (budget_scope a) (budget_scope b)"
    and m: "budget_scope (intersect i a b t) = Some (Budget t' c' w')"
  obtains ta ca wa tb cb wb where "budget_scope a = Some (Budget ta ca wa)" "budget_scope b = Some (Budget tb cb wb)"
    "pred_option (\<lambda>x. \<exists>p q. ta = Some p \<and> tb = Some q \<and> x \<le> p \<and> x \<le> q) t'"
    "pred_option (\<lambda>x. \<exists>p q. ca = Some p \<and> cb = Some q \<and> f64_le x p \<and> f64_le x q) c'"
    "pred_option (\<lambda>x. \<exists>p q. wa = Some p \<and> wb = Some q \<and> x \<le> p \<and> x \<le> q) w'"
proof -
  from m have "merged_budget a b \<noteq> []" by (auto simp: budget_scope_intersect)
  then obtain ta ca wa tb cb wb where ab: "budget_scope a = Some (Budget ta ca wa)"
      "budget_scope b = Some (Budget tb cb wb)"
    by (auto simp: merged_budget_def split: option.split_asm MandateScope.split_asm)
  with m have n: "t' = narrowest_u64 ta tb" "c' = narrowest_f64 ca cb" "w' = narrowest_u64 wa wb"
    by (simp_all add: budget_scope_intersect merged_budget_def)
  show ?thesis
  proof (rule that[OF ab])
    show "pred_option (\<lambda>x. \<exists>p q. ta = Some p \<and> tb = Some q \<and> x \<le> p \<and> x \<le> q) t'"
      using agree ab n by (cases ta; cases tb) (simp_all add: narrowest_u64_def)
    show "pred_option (\<lambda>x. \<exists>p q. ca = Some p \<and> cb = Some q \<and> f64_le x p \<and> f64_le x q) c'"
      using agree ab n f64_min_le by (cases ca; cases cb) (auto simp: narrowest_f64_def)
    show "pred_option (\<lambda>x. \<exists>p q. wa = Some p \<and> wb = Some q \<and> x \<le> p \<and> x \<le> q) w'"
      using agree ab n by (cases wa; cases wb) (simp_all add: narrowest_u64_def)
  qed
qed

lemma scopes_cover_intersect:
  assumes agree: "budgets_agree (budget_scope a) (budget_scope b)"
    and cover: "scopes_cover (intersect i a b t) r"
  shows "scopes_cover a r \<and> scopes_cover b r"
proof -
  let ?m = "intersect i a b t"
  have same: "s \<in> set (m_scopes a) \<and> s \<in> set (m_scopes b)"
    if "s \<in> set (m_scopes ?m)" "\<not> is_budget s" "\<nexists>mx. s = MaxRuns mx" for s
    using that intersect_scopes shared_scope_subset by blast
  have runs: "(\<exists>q. MaxRuns q \<in> set (m_scopes a) \<and> u \<le> q) \<and> (\<exists>q. MaxRuns q \<in> set (m_scopes b) \<and> u \<le> q)"
    if "\<exists>q. MaxRuns q \<in> set (m_scopes ?m) \<and> u \<le> q" for u
    using that intersect_scopes by (fastforce simp: list_ex_iff scope_case_iff dest: order_trans)
  have tok: "(\<exists>mx c w. budget_scope a = Some (Budget (Some mx) c w) \<and> v \<le> mx) \<and>
      (\<exists>mx c w. budget_scope b = Some (Budget (Some mx) c w) \<and> v \<le> mx)"
    if "\<exists>mx c w. budget_scope ?m = Some (Budget (Some mx) c w) \<and> v \<le> mx" for v
    using that by (auto elim!: intersect_budget[OF agree] intro: order_trans)
  have cost: "(\<exists>t mx w. budget_scope a = Some (Budget t (Some mx) w) \<and> f64_le v mx) \<and>
      (\<exists>t mx w. budget_scope b = Some (Budget t (Some mx) w) \<and> f64_le v mx)"
    if "\<exists>t mx w. budget_scope ?m = Some (Budget t (Some mx) w) \<and> f64_le v mx" for v
    using that by (fastforce elim!: intersect_budget[OF agree] dest: f64_le_trans)
  have wall: "(\<exists>t c mx. budget_scope a = Some (Budget t c (Some mx)) \<and> v \<le> mx) \<and>
      (\<exists>t c mx. budget_scope b = Some (Budget t c (Some mx)) \<and> v \<le> mx)"
    if "\<exists>t c mx. budget_scope ?m = Some (Budget t c (Some mx)) \<and> v \<le> mx" for v
    using that by (auto elim!: intersect_budget[OF agree] intro: order_trans)
  have pat: "(\<exists>p. K p \<in> set (m_scopes a) \<and> Q p) \<and> (\<exists>p. K p \<in> set (m_scopes b) \<and> Q p)"
    if "\<exists>p. K p \<in> set (m_scopes ?m) \<and> Q p" "\<And>p. \<not> is_budget (K p) \<and> (\<nexists>mx. K p = MaxRuns mx)" for K Q
    using that same by blast
  show ?thesis
    using cover unfolding scopes_cover_def first_budget_iff
    by (elim conjE) (intro conjI; erule pred_option_mp; (drule tok cost wall runs; blast | (drule pat; simp) | (auto dest: same)))
qed

text \<open>
  The intersection of two mandates in force whose budgets bound the same dimensions allows only
  what both allow.
\<close>

lemma intersect_narrows:
  assumes "\<not> is_revoked a" "\<not> is_revoked b" "budgets_agree (budget_scope a) (budget_scope b)"
  shows "{(r, t). permits (intersect i a b now) r t = Allowed} \<subseteq>
    {(r, t). permits a r t = Allowed} \<inter> {(r, t). permits b r t = Allowed}"
proof -
  have "is_expired a t \<or> is_expired b t \<Longrightarrow> is_expired (intersect i a b now) t" for t
    by (auto simp: is_expired_def intersect_def split: option.splits)
  then show ?thesis using assms(1,2) scopes_cover_intersect[OF assms(3)]
    by (auto simp: permits_Allowed_iff)
qed

text \<open>
  The restriction is needed: the intersection with a revoked mandate is in force, and a budget
  dimension that only one of two mandates bounds is granted by their intersection.
\<close>

lemma intersect_widens:
  "permits (intersect ''m4'' (revoke root_mandate (Principal_new PrincipalKind.User ''bob'') ''stop'' 1) root_mandate 2)
       (MandateRequest_tool ''Edit'') 3 = Allowed \<and>
   permits (revoke root_mandate (Principal_new PrincipalKind.User ''bob'') ''stop'' 1)
       (MandateRequest_tool ''Edit'') 3 \<noteq> Allowed \<and>
   permits (intersect ''m4'' root_mandate (wider_child (Budget None None (Some 9))) 2)
       (MandateRequest_default\<lparr>rq_wall_secs := Some 9\<rparr>) 3 = Allowed \<and>
   permits root_mandate (MandateRequest_default\<lparr>rq_wall_secs := Some 9\<rparr>) 3 \<noteq> Allowed"
  by code_simp

end
