(* ===== verification/Gov_WorkCase.thy ===== *)
theory Gov_WorkCase
  imports Prelude
begin

text \<open>
  Work cases (\<open>crates/uc-types/src/governance/workcase.rs\<close>): the status machine, the run history and
  the aggregate's operations. An operation on \<open>&mut self\<close> that can fail returns the state it leaves
  behind together with its result, because \<open>finish_run\<close> changes the run before its transition can
  be refused. The opaque JSON of \<open>completion_conditions\<close> is the type parameter \<open>'j\<close>; the digest of
  \<open>CaseId::from_parts\<close> is an argument.
\<close>

section \<open>Status\<close>

datatype CaseStatus =
  Open | Active | WaitingEvent | NeedsHuman | Blocked | Verifying | Completed | Failed | Cancelled

fun CaseStatus_as_str :: "CaseStatus \<Rightarrow> string" where
  "CaseStatus_as_str CaseStatus.Open = ''open''"
| "CaseStatus_as_str CaseStatus.Active = ''active''"
| "CaseStatus_as_str CaseStatus.WaitingEvent = ''waiting_event''"
| "CaseStatus_as_str CaseStatus.NeedsHuman = ''needs_human''"
| "CaseStatus_as_str CaseStatus.Blocked = ''blocked''"
| "CaseStatus_as_str CaseStatus.Verifying = ''verifying''"
| "CaseStatus_as_str CaseStatus.Completed = ''completed''"
| "CaseStatus_as_str CaseStatus.Failed = ''failed''"
| "CaseStatus_as_str CaseStatus.Cancelled = ''cancelled''"

definition CaseStatus_from_str_lossy :: "string \<Rightarrow> CaseStatus option" where
  "CaseStatus_from_str_lossy s = (let v = to_ascii_lowercase (trim s) in
     if v = ''open'' then Some CaseStatus.Open
     else if v = ''active'' then Some CaseStatus.Active
     else if v = ''waiting_event'' then Some CaseStatus.WaitingEvent
     else if v = ''needs_human'' then Some CaseStatus.NeedsHuman
     else if v = ''blocked'' then Some CaseStatus.Blocked
     else if v = ''verifying'' then Some CaseStatus.Verifying
     else if v = ''completed'' then Some CaseStatus.Completed
     else if v = ''failed'' then Some CaseStatus.Failed
     else if v = ''cancelled'' \<or> v = ''canceled'' then Some CaseStatus.Cancelled
     else None)"

definition is_terminal :: "CaseStatus \<Rightarrow> bool" where
  "is_terminal s = (s \<in> {CaseStatus.Completed, CaseStatus.Failed, CaseStatus.Cancelled})"

definition is_quiescent :: "CaseStatus \<Rightarrow> bool" where
  "is_quiescent s =
     (s \<in> {CaseStatus.WaitingEvent, CaseStatus.NeedsHuman, CaseStatus.Blocked, CaseStatus.Verifying})"

definition transition_edges :: "(CaseStatus \<times> CaseStatus) list" where
  "transition_edges =
    [(CaseStatus.Open, CaseStatus.Active), (CaseStatus.Open, CaseStatus.Blocked),
     (CaseStatus.Open, CaseStatus.NeedsHuman), (CaseStatus.Open, CaseStatus.Cancelled),
     (CaseStatus.Open, CaseStatus.Failed),
     (CaseStatus.Active, CaseStatus.WaitingEvent), (CaseStatus.Active, CaseStatus.NeedsHuman),
     (CaseStatus.Active, CaseStatus.Blocked), (CaseStatus.Active, CaseStatus.Verifying),
     (CaseStatus.Active, CaseStatus.Failed), (CaseStatus.Active, CaseStatus.Cancelled),
     (CaseStatus.WaitingEvent, CaseStatus.Active), (CaseStatus.WaitingEvent, CaseStatus.NeedsHuman),
     (CaseStatus.WaitingEvent, CaseStatus.Blocked), (CaseStatus.WaitingEvent, CaseStatus.Verifying),
     (CaseStatus.WaitingEvent, CaseStatus.Cancelled), (CaseStatus.WaitingEvent, CaseStatus.Failed),
     (CaseStatus.NeedsHuman, CaseStatus.Active), (CaseStatus.NeedsHuman, CaseStatus.Blocked),
     (CaseStatus.NeedsHuman, CaseStatus.Cancelled), (CaseStatus.NeedsHuman, CaseStatus.Failed),
     (CaseStatus.Blocked, CaseStatus.Active), (CaseStatus.Blocked, CaseStatus.NeedsHuman),
     (CaseStatus.Blocked, CaseStatus.WaitingEvent), (CaseStatus.Blocked, CaseStatus.Cancelled),
     (CaseStatus.Blocked, CaseStatus.Failed),
     (CaseStatus.Verifying, CaseStatus.Completed), (CaseStatus.Verifying, CaseStatus.Failed),
     (CaseStatus.Verifying, CaseStatus.Active), (CaseStatus.Verifying, CaseStatus.NeedsHuman),
     (CaseStatus.Verifying, CaseStatus.Cancelled)]"

definition can_transition_to :: "CaseStatus \<Rightarrow> CaseStatus \<Rightarrow> bool" where
  "can_transition_to s n =
     (if is_terminal s then False else if s = n then True else (s, n) \<in> set transition_edges)"

section \<open>The aggregate\<close>

definition CaseId_from_parts :: "(string \<Rightarrow> string) \<Rightarrow> string \<Rightarrow> string \<Rightarrow> string" where
  "CaseId_from_parts sha256_hex source external_ref =
     ''case-'' @ take 32 (sha256_hex (''case:'' @ source @ '':'' @ external_ref))"

record CaseOrigin =
  co_source :: string
  co_external_ref :: "string option"
  co_thread_key :: "string option"
  co_trigger_id :: "string option"

definition CaseOrigin_manual :: CaseOrigin where
  "CaseOrigin_manual =
     \<lparr>co_source = ''manual'', co_external_ref = None, co_thread_key = None, co_trigger_id = None\<rparr>"

definition CaseOrigin_from_trigger :: "string \<Rightarrow> string option \<Rightarrow> string option \<Rightarrow> CaseOrigin" where
  "CaseOrigin_from_trigger source thread_key trigger_id =
     \<lparr>co_source = source, co_external_ref = thread_key, co_thread_key = thread_key,
      co_trigger_id = trigger_id\<rparr>"

datatype CaseRunOutcome = Succeeded | Failed | Cancelled | Superseded

record CaseRun =
  r_run_id :: string
  r_task_id :: string
  r_attempt :: u32
  r_submission_id :: "string option"
  r_started_at :: datetime
  r_ended_at :: "datetime option"
  r_outcome :: "CaseRunOutcome option"
  r_detail :: "string option"

definition CaseRun_open :: "string \<Rightarrow> string \<Rightarrow> u32 \<Rightarrow> datetime \<Rightarrow> CaseRun" where
  "CaseRun_open fresh_id task_id attempt now =
     \<lparr>r_run_id = fresh_id, r_task_id = task_id, r_attempt = attempt, r_submission_id = None,
      r_started_at = now, r_ended_at = None, r_outcome = None, r_detail = None\<rparr>"

definition run_is_open :: "CaseRun \<Rightarrow> bool" where
  "run_is_open r = (r_outcome r = None)"

definition CaseRun_finish :: "CaseRun \<Rightarrow> CaseRunOutcome \<Rightarrow> string option \<Rightarrow> datetime \<Rightarrow> CaseRun" where
  "CaseRun_finish r outcome detail now =
     (if r_outcome r \<noteq> None then r
      else r\<lparr>r_outcome := Some outcome, r_ended_at := Some now, r_detail := detail\<rparr>)"

record 'j WorkCase =
  wc_id :: string
  wc_title :: string
  wc_description :: string
  wc_project_id :: string
  wc_status :: CaseStatus
  wc_origin :: CaseOrigin
  wc_contract_digest :: "string option"
  wc_completion_conditions :: "'j option"
  wc_mandate_id :: "string option"
  wc_subscriptions :: "string list"
  wc_runs :: "CaseRun list"
  wc_compacted_runs :: u32
  wc_priority :: u8
  wc_labels :: "string list"
  wc_created_at :: datetime
  wc_updated_at :: datetime
  wc_version :: nat

definition WorkCase_new ::
  "string \<Rightarrow> string \<Rightarrow> string \<Rightarrow> string \<Rightarrow> CaseOrigin \<Rightarrow> datetime \<Rightarrow> 'j WorkCase" where
  "WorkCase_new fresh_id title description project_id origin now =
     \<lparr>wc_id = fresh_id, wc_title = title, wc_description = description, wc_project_id = project_id,
      wc_status = CaseStatus.Open, wc_origin = origin, wc_contract_digest = None,
      wc_completion_conditions = None, wc_mandate_id = None, wc_subscriptions = [], wc_runs = [],
      wc_compacted_runs = 0, wc_priority = 0, wc_labels = [], wc_created_at = now,
      wc_updated_at = now, wc_version = 0\<rparr>"

definition MAX_PRIORITY :: u8 where "MAX_PRIORITY = 9"

definition MAX_RUN_HISTORY :: nat where "MAX_RUN_HISTORY = 64"

definition WorkCase_with_id :: "'j WorkCase \<Rightarrow> string \<Rightarrow> 'j WorkCase" where
  "WorkCase_with_id c i = c\<lparr>wc_id := i\<rparr>"

definition with_contract_digest :: "'j WorkCase \<Rightarrow> string \<Rightarrow> 'j WorkCase" where
  "with_contract_digest c digest = c\<lparr>wc_contract_digest := Some digest\<rparr>"

definition set_priority :: "'j WorkCase \<Rightarrow> u8 \<Rightarrow> 'j WorkCase" where
  "set_priority c priority = c\<lparr>wc_priority := min priority MAX_PRIORITY\<rparr>"

definition active_run :: "'j WorkCase \<Rightarrow> CaseRun option" where
  "active_run c = find run_is_open (wc_runs c)"

definition next_attempt :: "'j WorkCase \<Rightarrow> u32" where
  "next_attempt c = wc_compacted_runs c + of_nat (length (wc_runs c)) + 1"

datatype CaseTransitionError =
    Illegal CaseStatus CaseStatus
  | Terminal CaseStatus
  | Quiescent CaseStatus
  | RunAlreadyOpen
  | RunAlreadyFinished
  | UnknownRun
  | NoMandate

fun CaseTransitionError_display :: "CaseTransitionError \<Rightarrow> string" where
  "CaseTransitionError_display (Illegal f t) =
     ''illegal case transition '' @ CaseStatus_as_str f @ '' -> '' @ CaseStatus_as_str t"
| "CaseTransitionError_display (Terminal s) = ''case is terminal ('' @ CaseStatus_as_str s @ '')''"
| "CaseTransitionError_display (Quiescent s) =
     ''case is quiescent ('' @ CaseStatus_as_str s @ '') and may not start a run''"
| "CaseTransitionError_display RunAlreadyOpen = ''case already has an open run''"
| "CaseTransitionError_display RunAlreadyFinished = ''run is already finished''"
| "CaseTransitionError_display UnknownRun = ''unknown run id''"
| "CaseTransitionError_display NoMandate = ''case has no mandate and may not execute''"

text \<open>The loop of \<open>compact_runs\<close>: the oldest run goes while there are too many, unless it is open.\<close>

function compact_loop :: "CaseRun list \<Rightarrow> u32 \<Rightarrow> CaseRun list \<times> u32" where
  "compact_loop runs compacted =
     (if length runs \<le> MAX_RUN_HISTORY then (runs, compacted)
      else if run_is_open (hd runs) then (runs, compacted)
      else compact_loop (tl runs) (compacted + 1))"
  by pat_completeness auto
termination
  by (relation "measure (length \<circ> fst)") auto

declare compact_loop.simps [simp del]

definition compact_runs :: "'j WorkCase \<Rightarrow> 'j WorkCase" where
  "compact_runs c = (case compact_loop (wc_runs c) (wc_compacted_runs c) of
     (runs, compacted) \<Rightarrow> c\<lparr>wc_runs := runs, wc_compacted_runs := compacted\<rparr>)"

definition open_run ::
  "string \<Rightarrow> string \<Rightarrow> string option \<Rightarrow> datetime \<Rightarrow> 'j WorkCase \<Rightarrow>
     'j WorkCase \<times> (CaseTransitionError, string) result" where
  "open_run fresh_id task_id submission_id now c =
     (if is_terminal (wc_status c) then (c, Inl (Terminal (wc_status c)))
      else if is_quiescent (wc_status c) then (c, Inl (Quiescent (wc_status c)))
      else if active_run c \<noteq> None then (c, Inl RunAlreadyOpen)
      else if wc_mandate_id c = None then (c, Inl NoMandate)
      else let r = (CaseRun_open fresh_id task_id (next_attempt c) now)\<lparr>r_submission_id := submission_id\<rparr>;
               c = compact_runs (c\<lparr>wc_runs := wc_runs c @ [r]\<rparr>)
           in (c\<lparr>wc_updated_at := now\<rparr>, Inr fresh_id))"

definition transition :: "CaseStatus \<Rightarrow> datetime \<Rightarrow> 'j WorkCase \<Rightarrow> 'j WorkCase \<times> (CaseTransitionError, unit) result" where
  "transition n now c =
     (if \<not> can_transition_to (wc_status c) n then (c, Inl (Illegal (wc_status c) n))
      else (c\<lparr>wc_status := n, wc_updated_at := now\<rparr>, Inr ()))"

fun outcome_status :: "CaseRunOutcome \<Rightarrow> CaseStatus" where
  "outcome_status CaseRunOutcome.Succeeded = CaseStatus.Verifying"
| "outcome_status CaseRunOutcome.Failed = CaseStatus.Active"
| "outcome_status CaseRunOutcome.Cancelled = CaseStatus.Cancelled"
| "outcome_status CaseRunOutcome.Superseded = CaseStatus.Active"

text \<open>\<open>iter_mut().find\<close>: the first run with the id is changed in place.\<close>

fun update_run :: "string \<Rightarrow> (CaseRun \<Rightarrow> CaseRun) \<Rightarrow> CaseRun list \<Rightarrow> CaseRun list" where
  "update_run i f [] = []"
| "update_run i f (r # rs) = (if r_run_id r = i then f r # rs else r # update_run i f rs)"

definition finish_run ::
  "string \<Rightarrow> CaseRunOutcome \<Rightarrow> string option \<Rightarrow> datetime \<Rightarrow> 'j WorkCase \<Rightarrow>
     'j WorkCase \<times> (CaseTransitionError, unit) result" where
  "finish_run run_id outcome detail now c =
     (case find (\<lambda>r. r_run_id r = run_id) (wc_runs c) of
        None \<Rightarrow> (c, Inl UnknownRun)
      | Some r \<Rightarrow>
          if \<not> run_is_open r then (c, Inl RunAlreadyFinished)
          else let c = c\<lparr>wc_runs := update_run run_id (\<lambda>r. CaseRun_finish r outcome detail now) (wc_runs c)\<rparr>
               in (case transition (outcome_status outcome) now c of
                     (c, Inl e) \<Rightarrow> (c, Inl e)
                   | (c, Inr _) \<Rightarrow> (c\<lparr>wc_updated_at := now\<rparr>, Inr ())))"

definition attach_subscription :: "string \<Rightarrow> 'j WorkCase \<Rightarrow> 'j WorkCase" where
  "attach_subscription i c =
     (if i \<in> set (wc_subscriptions c) then c
      else c\<lparr>wc_subscriptions := wc_subscriptions c @ [i]\<rparr>)"

section \<open>The status machine\<close>

lemma can_transition_to_Completed: "can_transition_to s CaseStatus.Completed \<longleftrightarrow> s = CaseStatus.Verifying"
  by (cases s) (simp_all add: can_transition_to_def is_terminal_def transition_edges_def)

lemma terminal_no_transition: "is_terminal s \<Longrightarrow> \<not> can_transition_to s n"
  by (simp add: can_transition_to_def)

lemma transition_Ok_iff: "snd (transition n now c) = Inr () \<longleftrightarrow> can_transition_to (wc_status c) n"
  by (simp add: transition_def)

section \<open>Compaction\<close>

lemma compact_loop_drop:
  assumes "\<forall>r \<in> set (butlast runs). \<not> run_is_open r"
  shows "compact_loop runs n =
    (drop (length runs - MAX_RUN_HISTORY) runs, n + of_nat (length runs - MAX_RUN_HISTORY))"
  using assms
proof (induction runs n rule: compact_loop.induct)
  case (1 runs n)
  show ?case
  proof (cases "length runs \<le> MAX_RUN_HISTORY")
    case True
    then show ?thesis by (simp add: compact_loop.simps[of runs])
  next
    case False
    then obtain r s rs where runs: "runs = r # s # rs" and "MAX_RUN_HISTORY \<le> Suc (length rs)"
      by (cases runs; cases "tl runs") (auto simp: MAX_RUN_HISTORY_def)
    with 1 False show ?thesis
      by (simp add: compact_loop.simps[of "r # s # rs"] Suc_diff_le algebra_simps)
  qed
qed

section \<open>The run history\<close>

primrec attempts_from :: "u32 \<Rightarrow> u32 list \<Rightarrow> bool" where
  "attempts_from k [] = True"
| "attempts_from k (a # as) = (a = k + 1 \<and> attempts_from (k + 1) as)"

definition case_inv :: "'j WorkCase \<Rightarrow> bool" where
  "case_inv c \<longleftrightarrow>
     (\<forall>r \<in> set (butlast (wc_runs c)). \<not> run_is_open r) \<and>
     attempts_from (wc_compacted_runs c) (map r_attempt (wc_runs c)) \<and>
     distinct (map r_run_id (wc_runs c)) \<and>
     length (wc_runs c) \<le> MAX_RUN_HISTORY \<and>
     distinct (wc_subscriptions c) \<and>
     wc_priority c \<le> MAX_PRIORITY"

lemma attempts_from_append:
  "attempts_from k (as @ [a]) \<longleftrightarrow> attempts_from k as \<and> a = k + of_nat (length as) + 1"
  by (induction as arbitrary: k) (auto simp: algebra_simps)

lemma attempts_from_drop: "attempts_from k as \<Longrightarrow> n \<le> length as \<Longrightarrow> attempts_from (k + of_nat n) (drop n as)"
proof (induction n arbitrary: k as)
  case (Suc n)
  then show ?case using Suc.IH[of "k + 1" "tl as"] by (cases as) (simp_all add: algebra_simps)
qed simp

lemma run_finish_simps [simp]:
  "r_run_id (CaseRun_finish r o' d now) = r_run_id r"
  "r_attempt (CaseRun_finish r o' d now) = r_attempt r"
  "\<not> run_is_open (CaseRun_finish r o' d now)"
  by (simp_all add: CaseRun_finish_def run_is_open_def)

lemma update_run_finish:
  "map r_run_id (update_run i (\<lambda>r. CaseRun_finish r o' d now) runs) = map r_run_id runs"
  "map r_attempt (update_run i (\<lambda>r. CaseRun_finish r o' d now) runs) = map r_attempt runs"
  "length (update_run i f runs) = length runs"
  by (induction runs) auto

lemma update_run_closed:
  "\<forall>r \<in> set runs. \<not> run_is_open r \<Longrightarrow>
     \<forall>r \<in> set (update_run i (\<lambda>r. CaseRun_finish r o' d now) runs). \<not> run_is_open r"
  by (induction runs) auto

lemma update_run_butlast:
  "butlast (update_run i f runs) = update_run i f (butlast runs) \<or> butlast (update_run i f runs) = butlast runs"
  by (induction runs) (auto simp: neq_Nil_conv split: if_splits)

lemma new_case_inv: "case_inv (WorkCase_new i t d p orig now)"
  by (simp add: case_inv_def WorkCase_new_def attempts_from_def MAX_PRIORITY_def)

lemma active_run_None_iff: "active_run c = None \<longleftrightarrow> (\<forall>r \<in> set (wc_runs c). \<not> run_is_open r)"
  unfolding active_run_def by (auto simp: find_None_iff)

lemma compact_runs_inv:
  assumes closed: "\<forall>r \<in> set (butlast (wc_runs c)). \<not> run_is_open r"
  shows "compact_runs c = c\<lparr>wc_runs := drop (length (wc_runs c) - MAX_RUN_HISTORY) (wc_runs c),
    wc_compacted_runs := wc_compacted_runs c + of_nat (length (wc_runs c) - MAX_RUN_HISTORY)\<rparr>"
  by (simp add: compact_runs_def compact_loop_drop[OF closed])

lemma open_run_inv:
  assumes inv: "case_inv c" and fresh: "i \<notin> r_run_id ` set (wc_runs c)"
  shows "case_inv (fst (open_run i t s now c))"
proof (cases "is_terminal (wc_status c) \<or> is_quiescent (wc_status c) \<or> active_run c \<noteq> None \<or> wc_mandate_id c = None")
  case True
  with inv show ?thesis by (auto simp: open_run_def)
next
  case False
  then obtain mandate where mandate: "wc_mandate_id c = Some mandate" by auto
  define r where "r = (CaseRun_open i t (next_attempt c) now)\<lparr>r_submission_id := s\<rparr>"
  define runs where "runs = wc_runs c @ [r]"
  define n where "n = length runs - MAX_RUN_HISTORY"
  have closed: "\<forall>x \<in> set (butlast runs). \<not> run_is_open x"
    using False by (simp add: runs_def active_run_None_iff)
  have ids: "r_run_id r = i" "r_attempt r = next_attempt c"
    by (simp_all add: r_def CaseRun_open_def)
  have res: "fst (open_run i t s now c) = c\<lparr>wc_runs := drop n runs,
      wc_compacted_runs := wc_compacted_runs c + of_nat n, wc_updated_at := now\<rparr>"
    using False mandate closed by (simp add: open_run_def Let_def compact_runs_inv flip: r_def runs_def) (simp add: n_def)
  have "attempts_from (wc_compacted_runs c) (map r_attempt runs)"
    using inv ids by (simp add: runs_def attempts_from_append case_inv_def next_attempt_def)
  moreover have "distinct (map r_run_id runs)"
    using inv fresh ids by (simp add: case_inv_def runs_def)
  moreover have "\<forall>x \<in> set (butlast (drop n runs)). \<not> run_is_open x"
    using closed by (auto simp: butlast_drop dest: in_set_dropD)
  moreover have "length (drop n runs) \<le> MAX_RUN_HISTORY" "n \<le> length runs" by (simp_all add: n_def)
  ultimately show ?thesis
    using inv by (simp add: res case_inv_def attempts_from_drop distinct_drop flip: drop_map)
qed

lemma transition_inv: "case_inv c \<Longrightarrow> case_inv (fst (transition n now c))"
  by (simp add: transition_def case_inv_def)

lemma finish_run_inv:
  assumes "case_inv c"
  shows "case_inv (fst (finish_run i o' d now c))"
proof -
  let ?c = "c\<lparr>wc_runs := update_run i (\<lambda>r. CaseRun_finish r o' d now) (wc_runs c)\<rparr>"
  have "\<forall>r \<in> set (butlast (wc_runs ?c)). \<not> run_is_open r"
    using assms update_run_butlast[of i "\<lambda>r. CaseRun_finish r o' d now" "wc_runs c"] update_run_closed
    by (auto simp: case_inv_def)
  then have "case_inv ?c"
    using assms by (simp add: case_inv_def update_run_finish)
  then have "case_inv (fst (transition (outcome_status o') now ?c))" by (rule transition_inv)
  then have "case_inv (fst (transition (outcome_status o') now ?c)\<lparr>wc_updated_at := now\<rparr>)"
    by (simp add: case_inv_def)
  with assms \<open>case_inv (fst (transition _ _ _))\<close> show ?thesis
    by (cases "transition (outcome_status o') now ?c")
      (simp add: finish_run_def Let_def split: option.split sum.split)
qed

section \<open>Reachable cases\<close>

text \<open>
  One call on the aggregate, refused calls included. The owner of the case assigns its mandate
  directly. A run id drawn by \<open>open_run\<close> is fresh in the case.
\<close>

inductive case_step :: "'j WorkCase \<Rightarrow> 'j WorkCase \<Rightarrow> bool" where
  open_run: "i \<notin> r_run_id ` set (wc_runs c) \<Longrightarrow> case_step c (fst (open_run i t s now c))"
| finish_run: "case_step c (fst (finish_run i outcome d now c))"
| transition: "case_step c (fst (transition n now c))"
| attach_subscription: "case_step c (attach_subscription i c)"
| set_priority: "case_step c (set_priority c p)"
| assign_mandate: "case_step c (c\<lparr>wc_mandate_id := m\<rparr>)"

inductive_cases case_stepE: "case_step c c'"

lemma case_step_inv: "case_step c c' \<Longrightarrow> case_inv c \<Longrightarrow> case_inv c'"
  by (induction rule: case_step.induct)
    (simp_all add: open_run_inv finish_run_inv transition_inv,
     auto simp: case_inv_def attach_subscription_def set_priority_def)

lemma case_steps_inv: "case_step\<^sup>*\<^sup>* c c' \<Longrightarrow> case_inv c \<Longrightarrow> case_inv c'"
  by (induction rule: rtranclp_induct) (auto intro: case_step_inv)

lemma compact_runs_status [simp]: "wc_status (compact_runs c) = wc_status c"
  by (simp add: compact_runs_def split: prod.split)

lemma status_ops:
  "wc_status (fst (open_run i t s now c)) = wc_status c"
  "wc_status (fst (transition n now c)) \<in> {wc_status c} \<union> {x. can_transition_to (wc_status c) x}"
  "wc_status (fst (finish_run i outcome d now c)) \<in> {wc_status c} \<union> {x. can_transition_to (wc_status c) x}"
  by (auto simp: open_run_def transition_def finish_run_def Let_def split: option.splits)

lemma case_step_status:
  "case_step c c' \<Longrightarrow> wc_status c' = wc_status c \<or> can_transition_to (wc_status c) (wc_status c')"
  using status_ops by (elim case_stepE) (auto simp: attach_subscription_def set_priority_def, blast+)

lemma attempts_from_nth:
  "attempts_from k as \<longleftrightarrow> as = map (\<lambda>n. k + of_nat n + 1) [0..<length as]"
proof (induction as rule: rev_induct)
  case (snoc a as)
  then show ?case by (auto simp: attempts_from_append)
qed simp

lemma filter_open_butlast:
  assumes "\<forall>r \<in> set (butlast runs). \<not> run_is_open r"
  shows "filter run_is_open runs = (if runs \<noteq> [] \<and> run_is_open (last runs) then [last runs] else [])"
  using assms by (cases runs rule: rev_cases) (auto simp: filter_empty_conv)

text \<open>
  C32. In every case reached from a new one by any calls, refused ones included: at most 64 runs are
  kept, at most one run is open and it is the newest, and the kept attempts are numbered
  consecutively after the compacted ones.
\<close>

theorem reachable_case_inv:
  assumes "case_step\<^sup>*\<^sup>* (WorkCase_new i t d p orig now) c"
  shows "length (wc_runs c) \<le> MAX_RUN_HISTORY \<and>
    filter run_is_open (wc_runs c) =
      (if wc_runs c \<noteq> [] \<and> run_is_open (last (wc_runs c)) then [last (wc_runs c)] else []) \<and>
    map r_attempt (wc_runs c) =
      map (\<lambda>k. wc_compacted_runs c + of_nat k + 1) [0..<length (wc_runs c)]"
proof -
  from assms have "case_inv c" using case_steps_inv new_case_inv by blast
  then show ?thesis
    by (simp add: case_inv_def filter_open_butlast attempts_from_nth[of _ "map r_attempt _"])
qed

definition opened_case :: "unit WorkCase" where
  "opened_case = fst (open_run ''run-1'' ''task-1'' None 7
     ((WorkCase_new ''case-1'' ''t'' ''d'' ''proj'' CaseOrigin_manual 5)\<lparr>wc_mandate_id := Some ''m-1''\<rparr>))"

lemma opened_case_steps:
  "case_step\<^sup>*\<^sup>* (WorkCase_new ''case-1'' ''t'' ''d'' ''proj'' CaseOrigin_manual 5) opened_case"
proof -
  let ?new = "WorkCase_new ''case-1'' ''t'' ''d'' ''proj'' CaseOrigin_manual 5 :: unit WorkCase"
  have "case_step ?new (?new\<lparr>wc_mandate_id := Some ''m-1''\<rparr>)" by (rule case_step.assign_mandate)
  moreover have "case_step (?new\<lparr>wc_mandate_id := Some ''m-1''\<rparr>) opened_case"
    unfolding opened_case_def by (rule case_step.open_run) (simp add: WorkCase_new_def)
  ultimately show ?thesis by (meson converse_rtranclp_into_rtranclp r_into_rtranclp)
qed

theorem reachable_case_inv_witness:
  "length (wc_runs opened_case) = 1 \<and> filter run_is_open (wc_runs opened_case) = wc_runs opened_case \<and>
    map r_attempt (wc_runs opened_case) = [1]"
proof -
  have "length (wc_runs opened_case) = 1 \<and> wc_compacted_runs opened_case = 0 \<and>
      run_is_open (last (wc_runs opened_case))" by code_simp
  moreover from this obtain r where "wc_runs opened_case = [r]" by (auto simp: length_Suc_conv)
  ultimately show ?thesis using reachable_case_inv[OF opened_case_steps] by simp
qed

text \<open>
  A case that becomes completed went through \<open>Verifying\<close>: on every path from a case that is not
  completed to one that is, some step leaves \<open>Verifying\<close> for \<open>Completed\<close>.
\<close>

lemma completed_only_after_verification:
  assumes "case_step\<^sup>*\<^sup>* c c'" "wc_status c' = CaseStatus.Completed" "wc_status c \<noteq> CaseStatus.Completed"
  shows "\<exists>v v'. case_step\<^sup>*\<^sup>* c v \<and> wc_status v = CaseStatus.Verifying \<and> case_step v v' \<and>
    wc_status v' = CaseStatus.Completed \<and> case_step\<^sup>*\<^sup>* v' c'"
  using assms
proof (induction rule: rtranclp_induct)
  case (step b c')
  show ?case
  proof (cases "wc_status b = CaseStatus.Completed")
    case True
    with step show ?thesis by (meson rtranclp.rtrancl_into_rtrancl)
  next
    case False
    with step.prems step.hyps(2) have "wc_status b = CaseStatus.Verifying"
      using case_step_status can_transition_to_Completed by metis
    with step show ?thesis by blast
  qed
qed simp

text \<open>
  A terminal status is final: no sequence of calls changes it.
\<close>

lemma terminal_absorbing:
  assumes "case_step\<^sup>*\<^sup>* c c'" "is_terminal (wc_status c)"
  shows "wc_status c' = wc_status c"
  using assms case_step_status terminal_no_transition
  by (induction rule: rtranclp_induct) fastforce+

text \<open>
  \<open>open_run\<close> succeeds only on an open or active case with a mandate and no open run; the new run
  is then the open run, it is the last, it has the next attempt number, and compaction drops only
  the oldest runs beyond 64, so the numbering continues.
\<close>

lemma open_run_appends:
  assumes "case_inv c" "open_run i t s now c = (c', Inr x)"
  shows "x = i \<and> wc_status c \<in> {CaseStatus.Open, CaseStatus.Active} \<and> active_run c = None \<and>
    wc_mandate_id c \<noteq> None \<and>
    (\<exists>r. active_run c' = Some r \<and> r_run_id r = i \<and> r_attempt r = next_attempt c \<and>
      wc_runs c' = drop (length (wc_runs c) + 1 - MAX_RUN_HISTORY) (wc_runs c @ [r])) \<and>
    next_attempt c' = next_attempt c + 1"
proof -
  have ok: "\<not> is_terminal (wc_status c)" "\<not> is_quiescent (wc_status c)" "active_run c = None"
    "wc_mandate_id c \<noteq> None" "x = i"
    using assms(2) by (auto simp: open_run_def Let_def split: if_splits)
  define r where "r = (CaseRun_open i t (next_attempt c) now)\<lparr>r_submission_id := s\<rparr>"
  define n where "n = length (wc_runs c) + 1 - MAX_RUN_HISTORY"
  have n: "n \<le> length (wc_runs c)" by (simp add: n_def MAX_RUN_HISTORY_def)
  have c': "c' = c\<lparr>wc_runs := drop n (wc_runs c @ [r]),
      wc_compacted_runs := wc_compacted_runs c + of_nat n, wc_updated_at := now\<rparr>"
    using assms(2) ok compact_runs_inv[of "c\<lparr>wc_runs := wc_runs c @ [r]\<rparr>"]
    by (auto simp: open_run_def Let_def active_run_None_iff n_def simp flip: r_def)
  have "run_is_open r" by (simp add: r_def CaseRun_open_def run_is_open_def)
  moreover have "\<forall>x \<in> set (drop n (wc_runs c)). \<not> run_is_open x"
    using ok(3) by (auto simp: active_run_None_iff dest: in_set_dropD)
  ultimately have "find run_is_open (drop n (wc_runs c @ [r])) = Some r"
    using n by (simp add: find_append_None)
  moreover have "wc_status c \<in> {CaseStatus.Open, CaseStatus.Active}"
    using ok(1,2) by (cases "wc_status c") (simp_all add: is_terminal_def is_quiescent_def)
  moreover have "next_attempt c' = next_attempt c + 1"
    using n by (simp add: next_attempt_def c' of_nat_diff)
  moreover have "r_run_id r = i" "r_attempt r = next_attempt c" by (simp_all add: r_def CaseRun_open_def)
  ultimately show ?thesis using ok(3-5) by (simp add: c' active_run_def n_def)
qed

lemma update_run_last: "i \<notin> r_run_id ` set rs \<Longrightarrow> update_run i f (rs @ [r]) = (if r_run_id r = i then rs @ [f r] else rs @ [r])"
  by (induction rs) auto

lemma active_run_last:
  assumes "case_inv c" "active_run c = Some r"
  obtains rs where "wc_runs c = rs @ [r]" "r_run_id r \<notin> r_run_id ` set rs" "run_is_open r"
proof -
  from assms(2) have r: "r \<in> set (wc_runs c)" "run_is_open r"
    unfolding active_run_def by (auto dest: find_SomeD)
  then have "wc_runs c \<noteq> []" by auto
  with r assms(1) have "wc_runs c = butlast (wc_runs c) @ [r]"
    by (cases "wc_runs c" rule: rev_cases) (auto simp: case_inv_def)
  moreover from this assms(1) have "r_run_id r \<notin> r_run_id ` set (butlast (wc_runs c))"
    unfolding case_inv_def
    by (metis (no_types, lifting) distinct_append distinct.simps(2) list.simps(15) map_append list.map(2)
        not_distinct_conv_prefix set_map disjoint_insert(1) list.set(2))
  ultimately show ?thesis using that r(2) by blast
qed

text \<open>
  Finishing the open run of an active case always succeeds: only that run changes, and the case
  moves to the status its outcome stands for, to \<open>Verifying\<close> and not to \<open>Completed\<close> on success.
\<close>

lemma finish_run_settles:
  assumes "case_inv c" "active_run c = Some r" "wc_status c = CaseStatus.Active"
  shows "finish_run (r_run_id r) outcome d now c =
    (c\<lparr>wc_runs := butlast (wc_runs c) @ [CaseRun_finish r outcome d now],
       wc_status := outcome_status outcome, wc_updated_at := now\<rparr>, Inr ())"
proof -
  obtain rs where rs: "wc_runs c = rs @ [r]" "r_run_id r \<notin> r_run_id ` set rs" "run_is_open r"
    using assms(1,2) by (rule active_run_last)
  have "find (\<lambda>x. r_run_id x = r_run_id r) (wc_runs c) = Some r"
    unfolding rs(1) using rs(2) by (subst find_append_None) (auto simp: image_iff)
  moreover have "can_transition_to CaseStatus.Active (outcome_status outcome)"
    by (cases outcome) (simp_all add: can_transition_to_def is_terminal_def transition_edges_def)
  ultimately show ?thesis using rs assms(3)
    by (simp add: finish_run_def Let_def transition_def update_run_last)
qed

end
