(* ===== verification/Record_Store.thy ===== *)
theory Record_Store
  imports Prelude
begin

text \<open>
  The record store (\<open>crates/uc-engine/src/governance/record_store.rs\<close>): versioned documents with
  compare-and-swap, the in-memory and the PostgreSQL implementation behind the \<open>RecordStore\<close> trait,
  and the typed view \<open>NamespacedStore\<close>.

  The trait object is a record of its methods over a state \<open>'s\<close>; documents are of type \<open>'v\<close>
  (\<open>serde_json::Value\<close>). A method returns the state it leaves with its result. The wall clock is a
  field of the state. A poisoned lock, or a failing connection, is a field of the state that every
  method reports as a backend error. The versions and limits of the trait are natural numbers (a
  \<open>u64\<close> counter that grows by one per write does not wrap in memory); the PostgreSQL store keeps
  them at their width, with the casts of its statements. Its table is modelled after
  \<open>ensure_schema\<close> has run.
\<close>

section \<open>Records and errors\<close>

record 'v Record =
  rec_namespace :: string
  rec_key :: string
  rec_version :: nat
  rec_value :: 'v
  rec_updated_at :: datetime

datatype RecordError =
    Conflict nat "nat option"
  | Backend string
  | Decode string string
  | Encode string string

fun RecordError_display :: "RecordError \<Rightarrow> string" where
  "RecordError_display (Conflict expected (Some actual)) =
     ''record version conflict: expected v'' @ show_nat expected @ '', found v'' @ show_nat actual"
| "RecordError_display (Conflict expected None) =
     ''record version conflict: expected v'' @ show_nat expected @ '', found nothing''"
| "RecordError_display (Backend detail) = ''record store backend error: '' @ detail"
| "RecordError_display (Decode key detail) = ''cannot decode record '' @ key @ '': '' @ detail"
| "RecordError_display (Encode key detail) = ''cannot encode record '' @ key @ '': '' @ detail"

record ('s, 'v) RecordStore =
  rs_is_durable :: bool
  rs_get :: "string \<Rightarrow> string \<Rightarrow> 's \<Rightarrow> 's \<times> (RecordError, 'v Record option) result"
  rs_put :: "string \<Rightarrow> string \<Rightarrow> 'v \<Rightarrow> nat option \<Rightarrow> 's \<Rightarrow> 's \<times> (RecordError, 'v Record) result"
  rs_list :: "string \<Rightarrow> nat \<Rightarrow> 's \<Rightarrow> 's \<times> (RecordError, 'v Record list) result"
  rs_delete :: "string \<Rightarrow> string \<Rightarrow> 's \<Rightarrow> 's \<times> (RecordError, bool) result"

section \<open>In-memory store\<close>

record 'v InMemoryRecordStore =
  mem_inner :: "((string \<times> string) \<times> 'v Record) list"
  mem_poisoned :: bool
  mem_clock :: datetime

definition mem_new :: "datetime \<Rightarrow> 'v InMemoryRecordStore" where
  "mem_new now = \<lparr>mem_inner = [], mem_poisoned = False, mem_clock = now\<rparr>"

definition mem_len :: "'v InMemoryRecordStore \<Rightarrow> nat" where
  "mem_len s = (if mem_poisoned s then 0 else length (mem_inner s))"

definition lock_poisoned :: RecordError where
  "lock_poisoned = Backend ''record store lock poisoned''"

definition mem_get ::
  "string \<Rightarrow> string \<Rightarrow> 'v InMemoryRecordStore \<Rightarrow>
     'v InMemoryRecordStore \<times> (RecordError, 'v Record option) result" where
  "mem_get namespace key s =
     (s, if mem_poisoned s then Inl lock_poisoned else Inr (map_of (mem_inner s) (namespace, key)))"

definition mem_put ::
  "string \<Rightarrow> string \<Rightarrow> 'v \<Rightarrow> nat option \<Rightarrow> 'v InMemoryRecordStore \<Rightarrow>
     'v InMemoryRecordStore \<times> (RecordError, 'v Record) result" where
  "mem_put namespace key v expected_version s =
     (if mem_poisoned s then (s, Inl lock_poisoned)
      else
        let existing = map_of (mem_inner s) (namespace, key);
            version = (case existing of Some r \<Rightarrow> rec_version r + 1 | None \<Rightarrow> 1);
            r = \<lparr>rec_namespace = namespace, rec_key = key, rec_version = version, rec_value = v,
                 rec_updated_at = mem_clock s\<rparr>;
            written = (s\<lparr>mem_inner := AList.update (namespace, key) r (mem_inner s)\<rparr>, Inr r)
        in case (expected_version, existing) of
             (Some expected, Some current) \<Rightarrow>
               if rec_version current \<noteq> expected
               then (s, Inl (Conflict expected (Some (rec_version current)))) else written
           | (Some expected, None) \<Rightarrow>
               if expected \<noteq> 0 then (s, Inl (Conflict expected None)) else written
           | (None, _) \<Rightarrow> written)"

definition mem_list ::
  "string \<Rightarrow> nat \<Rightarrow> 'v InMemoryRecordStore \<Rightarrow>
     'v InMemoryRecordStore \<times> (RecordError, 'v Record list) result" where
  "mem_list namespace limit s =
     (s, if mem_poisoned s then Inl lock_poisoned
         else Inr (take limit (sort_key rec_key
           (filter (\<lambda>r. rec_namespace r = namespace) (map snd (mem_inner s))))))"

definition mem_delete ::
  "string \<Rightarrow> string \<Rightarrow> 'v InMemoryRecordStore \<Rightarrow> 'v InMemoryRecordStore \<times> (RecordError, bool) result" where
  "mem_delete namespace key s =
     (if mem_poisoned s then (s, Inl lock_poisoned)
      else (s\<lparr>mem_inner := AList.delete (namespace, key) (mem_inner s)\<rparr>,
            Inr (map_of (mem_inner s) (namespace, key) \<noteq> None)))"

definition in_memory_store :: "('v InMemoryRecordStore, 'v) RecordStore" where
  "in_memory_store = \<lparr>rs_is_durable = False, rs_get = mem_get, rs_put = mem_put, rs_list = mem_list,
     rs_delete = mem_delete\<rparr>"

section \<open>PostgreSQL store\<close>

text \<open>
  The table \<open>governance_records\<close>. A version is a \<open>BIGINT\<close>: the word of 64 bits that is also the
  \<open>u64\<close> of a record, so that the casts \<open>as i64\<close> and \<open>as u64\<close> keep the word and only comparisons with a
  sign tell them apart. Keys are ordered by the collation of the database, of which the table keeps
  the sort key of a string (\<open>pg_collation\<close>); two strings with one sort key are ordered by their bytes.
  The \<open>JSONB\<close> column gives back the document it was given.
\<close>

record 'v governance_row =
  row_version :: i64
  row_payload :: 'v
  row_updated_at :: datetime

record 'v PostgresRecordStore =
  pg_rows :: "((string \<times> string) \<times> 'v governance_row) list"
  pg_collation :: "string \<Rightarrow> string"
  pg_fault :: "string option"
  pg_clock :: datetime

definition row_record :: "string \<times> string \<Rightarrow> 'v governance_row \<Rightarrow> 'v Record" where
  "row_record k row = \<lparr>rec_namespace = fst k, rec_key = snd k, rec_version = unat (row_version row),
     rec_value = row_payload row, rec_updated_at = row_updated_at row\<rparr>"

definition pg_get ::
  "string \<Rightarrow> string \<Rightarrow> 'v PostgresRecordStore \<Rightarrow>
     'v PostgresRecordStore \<times> (RecordError, 'v Record option) result" where
  "pg_get namespace key s =
     (s, case pg_fault s of Some error \<Rightarrow> Inl (Backend (''postgres get: '' @ error))
         | None \<Rightarrow> Inr (map_option (row_record (namespace, key)) (map_of (pg_rows s) (namespace, key))))"

text \<open>
  The statement \<open>INSERT ... ON CONFLICT DO UPDATE ... WHERE ... RETURNING\<close>: an absent row is inserted
  with version 1 whatever version is expected; a present row is updated where the guard holds, and
  otherwise no row is returned. The sum of a \<open>BIGINT\<close> out of its range is an error of the statement.
\<close>

definition pg_upsert ::
  "string \<Rightarrow> string \<Rightarrow> 'v \<Rightarrow> i64 option \<Rightarrow> 'v PostgresRecordStore \<Rightarrow>
     'v PostgresRecordStore \<times> (string, 'v governance_row option) result" where
  "pg_upsert namespace key v expected s =
     (let returning = (\<lambda>version.
          let row = \<lparr>row_version = version, row_payload = v, row_updated_at = pg_clock s\<rparr>
          in (s\<lparr>pg_rows := AList.update (namespace, key) row (pg_rows s)\<rparr>, Inr (Some row)))
      in case pg_fault s of Some error \<Rightarrow> (s, Inl error)
         | None \<Rightarrow>
           (case map_of (pg_rows s) (namespace, key) of
              None \<Rightarrow> returning 1
            | Some row \<Rightarrow>
                if expected \<noteq> None \<and> expected \<noteq> Some (row_version row) then (s, Inr None)
                else if sint (row_version row) = i64_max then (s, Inl ''bigint out of range'')
                else returning (row_version row + 1)))"

definition pg_put ::
  "string \<Rightarrow> string \<Rightarrow> 'v \<Rightarrow> nat option \<Rightarrow> 'v PostgresRecordStore \<Rightarrow>
     'v PostgresRecordStore \<times> (RecordError, 'v Record) result" where
  "pg_put namespace key v expected_version s =
     (case pg_upsert namespace key v (map_option word_of_nat expected_version) s of
        (s, Inl error) \<Rightarrow> (s, Inl (Backend (''postgres put: '' @ error)))
      | (s, Inr (Some row)) \<Rightarrow> (s, Inr (row_record (namespace, key) row))
      | (s, Inr None) \<Rightarrow>
          (case pg_get namespace key s of
             (s, Inl e) \<Rightarrow> (s, Inl e)
           | (s, Inr actual) \<Rightarrow>
               (s, Inl (Conflict (case expected_version of Some v \<Rightarrow> v | None \<Rightarrow> 0)
                 (map_option rec_version actual)))))"





section \<open>Typed view\<close>

text \<open>
  A view has its store, its namespace and the \<open>serde_json\<close> conversions of its document type, which
  can fail with a message.
\<close>

record ('s, 'v, 'a) NamespacedStore =
  ns_store :: "('s, 'v) RecordStore"
  ns_namespace :: string
  ns_from_value :: "'v \<Rightarrow> (string, 'a) result"
  ns_to_value :: "'a \<Rightarrow> (string, 'v) result"

definition view_get ::
  "('s, 'v, 'a) NamespacedStore \<Rightarrow> string \<Rightarrow> 's \<Rightarrow> 's \<times> (RecordError, ('a \<times> nat) option) result" where
  "view_get view key s =
     (case rs_get (ns_store view) (ns_namespace view) key s of
        (s, Inl e) \<Rightarrow> (s, Inl e)
      | (s, Inr None) \<Rightarrow> (s, Inr None)
      | (s, Inr (Some r)) \<Rightarrow>
          (case ns_from_value view (rec_value r) of
             Inl detail \<Rightarrow> (s, Inl (Decode key detail))
           | Inr a \<Rightarrow> (s, Inr (Some (a, rec_version r)))))"

definition view_put ::
  "('s, 'v, 'a) NamespacedStore \<Rightarrow> string \<Rightarrow> 'a \<Rightarrow> nat option \<Rightarrow> 's \<Rightarrow> 's \<times> (RecordError, 'v Record) result" where
  "view_put view key a expected_version s =
     (case ns_to_value view a of
        Inl detail \<Rightarrow> (s, Inl (Encode key detail))
      | Inr v \<Rightarrow> rs_put (ns_store view) (ns_namespace view) key v expected_version s)"

fun decode_all :: "('v \<Rightarrow> (string, 'a) result) \<Rightarrow> 'v Record list \<Rightarrow> (RecordError, ('a \<times> nat) list) result" where
  "decode_all from_value [] = Inr []"
| "decode_all from_value (r # rs) =
     (case from_value (rec_value r) of
        Inl detail \<Rightarrow> Inl (Decode (rec_key r) detail)
      | Inr a \<Rightarrow> (case decode_all from_value rs of
          Inl e \<Rightarrow> Inl e | Inr as \<Rightarrow> Inr ((a, rec_version r) # as)))"

definition view_list ::
  "('s, 'v, 'a) NamespacedStore \<Rightarrow> nat \<Rightarrow> 's \<Rightarrow> 's \<times> (RecordError, ('a \<times> nat) list) result" where
  "view_list view limit s =
     (case rs_list (ns_store view) (ns_namespace view) limit s of
        (s, Inl e) \<Rightarrow> (s, Inl e)
      | (s, Inr records) \<Rightarrow> (s, decode_all (ns_from_value view) records))"

definition view_delete :: "('s, 'v, 'a) NamespacedStore \<Rightarrow> string \<Rightarrow> 's \<Rightarrow> 's \<times> (RecordError, bool) result" where
  "view_delete view key s = rs_delete (ns_store view) (ns_namespace view) key s"

section \<open>Compare-and-swap loops\<close>

text \<open>
  The loop that the stores share: read the document, let the caller decide, write it back at the
  version that was read, and start again on a conflict, at most \<open>n\<close> times.
\<close>

datatype ('a, 'r) cas_step = Return 'r | Write 'a 'r

fun cas_loop ::
  "('s, 'v, 'a) NamespacedStore \<Rightarrow> string \<Rightarrow> ('a \<Rightarrow> nat \<Rightarrow> ('a, 'r) cas_step) \<Rightarrow> 'r \<Rightarrow> (RecordError \<Rightarrow> 'r) \<Rightarrow>
     'r \<Rightarrow> nat \<Rightarrow> 's \<Rightarrow> 's \<times> 'r" where
  "cas_loop view key step absent failed exhausted 0 s = (s, exhausted)"
| "cas_loop view key step absent failed exhausted (Suc n) s =
     (case view_get view key s of
        (s, Inl e) \<Rightarrow> (s, failed e)
      | (s, Inr None) \<Rightarrow> (s, absent)
      | (s, Inr (Some (a, version))) \<Rightarrow>
          (case step a version of
             Return r \<Rightarrow> (s, r)
           | Write a' r \<Rightarrow>
               (case view_put view key a' (Some version) s of
                  (s, Inr _) \<Rightarrow> (s, r)
                | (s, Inl (Conflict _ _)) \<Rightarrow> cas_loop view key step absent failed exhausted n s
                | (s, Inl e) \<Rightarrow> (s, failed e))))"

section \<open>Interleaving\<close>

text \<open>
  Every method of a store is one atomic access; between two of them other tasks run. \<open>concurrent\<close>
  is a store on which the environment acts before each access: \<open>env i\<close> before access \<open>i\<close>.
\<close>

definition concurrent :: "(nat \<Rightarrow> 's \<Rightarrow> 's) \<Rightarrow> ('s, 'v) RecordStore \<Rightarrow> ('s \<times> nat, 'v) RecordStore" where
  "concurrent env store =
     \<lparr>rs_is_durable = rs_is_durable store,
      rs_get = (\<lambda>ns k (s, i). case rs_get store ns k (env i s) of (s, r) \<Rightarrow> ((s, Suc i), r)),
      rs_put = (\<lambda>ns k v ev (s, i). case rs_put store ns k v ev (env i s) of (s, r) \<Rightarrow> ((s, Suc i), r)),
      rs_list = (\<lambda>ns n (s, i). case rs_list store ns n (env i s) of (s, r) \<Rightarrow> ((s, Suc i), r)),
      rs_delete = (\<lambda>ns k (s, i). case rs_delete store ns k (env i s) of (s, r) \<Rightarrow> ((s, Suc i), r))\<rparr>"

definition concurrent_view ::
  "(nat \<Rightarrow> 's \<Rightarrow> 's) \<Rightarrow> ('s, 'v, 'a) NamespacedStore \<Rightarrow> ('s \<times> nat, 'v, 'a) NamespacedStore" where
  "concurrent_view env view = \<lparr>ns_store = concurrent env (ns_store view), ns_namespace = ns_namespace view,
     ns_from_value = ns_from_value view, ns_to_value = ns_to_value view\<rparr>"

section \<open>The contract of a record store\<close>

definition next_version :: "'v Record option \<Rightarrow> nat" where
  "next_version current = (case current of None \<Rightarrow> 1 | Some r \<Rightarrow> rec_version r + 1)"

fun cas_matches :: "'v Record option \<Rightarrow> nat option \<Rightarrow> bool" where
  "cas_matches current None = True"
| "cas_matches None (Some v) = (v = 0)"
| "cas_matches (Some r) (Some v) = (v = rec_version r)"

locale record_store =
  fixes store :: "('s, 'v) RecordStore"
    and contents :: "'s \<Rightarrow> string \<times> string \<Rightarrow> 'v Record option"
    and ready :: "'s \<Rightarrow> bool"
    and valid :: "'s \<Rightarrow> bool"
  assumes get_ready: "ready s \<Longrightarrow> rs_get store ns k s = (s, Inr (contents s (ns, k)))"
    and get_down: "\<not> ready s \<Longrightarrow> \<exists>e. rs_get store ns k s = (s, Inl (Backend e))"
    and put_match: "valid s \<Longrightarrow> ready s \<Longrightarrow> cas_matches (contents s (ns, k)) ev \<Longrightarrow>
      \<exists>s' r. rs_put store ns k v ev s = (s', Inr r) \<and> valid s' \<and> ready s' \<and>
        contents s' = (contents s)((ns, k) \<mapsto> r) \<and>
        rec_version r = next_version (contents s (ns, k)) \<and> rec_value r = v"
    and put_conflict: "ready s \<Longrightarrow> contents s (ns, k) = Some r \<Longrightarrow> x \<noteq> rec_version r \<Longrightarrow>
      rs_put store ns k v (Some x) s = (s, Inl (Conflict x (Some (rec_version r))))"
    and put_down: "\<not> ready s \<Longrightarrow> \<exists>e. rs_put store ns k v ev s = (s, Inl (Backend e))"
    and list_ready: "valid s \<Longrightarrow> ready s \<Longrightarrow> \<exists>L. rs_list store ns n s = (s, Inr (take n L)) \<and>
      sorted (map rec_key L) \<and> distinct (map rec_key L) \<and> set L = {r. \<exists>k. contents s (ns, k) = Some r}"
    and list_down: "\<not> ready s \<Longrightarrow> \<exists>e. rs_list store ns n s = (s, Inl (Backend e))"
    and delete_ready: "valid s \<Longrightarrow> ready s \<Longrightarrow> \<exists>s'. rs_delete store ns k s = (s', Inr (contents s (ns, k) \<noteq> None)) \<and>
      valid s' \<and> ready s' \<and> contents s' = (contents s)((ns, k) := None)"
    and delete_down: "\<not> ready s \<Longrightarrow> \<exists>e. rs_delete store ns k s = (s, Inl (Backend e))"
    and stored: "valid s \<Longrightarrow> contents s (ns, k) = Some r \<Longrightarrow>
      0 < rec_version r \<and> rec_namespace r = ns \<and> rec_key r = k"

section \<open>The in-memory store meets it\<close>

definition rows_ok :: "((string \<times> string) \<times> 'v Record) list \<Rightarrow> bool" where
  "rows_ok rows \<longleftrightarrow> distinct (map fst rows) \<and>
     (\<forall>((ns, k), r) \<in> set rows. 0 < rec_version r \<and> rec_namespace r = ns \<and> rec_key r = k)"

lemma rows_ok_stored: "rows_ok rows \<Longrightarrow> map_of rows (ns, k) = Some r \<Longrightarrow>
    0 < rec_version r \<and> rec_namespace r = ns \<and> rec_key r = k"
  unfolding rows_ok_def by (drule map_of_SomeD) auto

lemma rows_ok_update:
  assumes "rows_ok rows" "0 < rec_version r" "rec_namespace r = ns" "rec_key r = k"
  shows "rows_ok (AList.update (ns, k) r rows)"
proof -
  have "set (AList.update (ns, k) r rows) \<subseteq> insert ((ns, k), r) (set rows)"
    by (induction rows) auto
  then show ?thesis using assms
    by (auto simp: rows_ok_def distinct_update)
qed

lemma rows_ok_filter: "rows_ok rows \<Longrightarrow> rows_ok (filter P rows)"
  by (auto simp: rows_ok_def distinct_map_filter)

lemma rows_ok_delete: "rows_ok rows \<Longrightarrow> rows_ok (AList.delete k rows)"
  by (simp add: AList.delete_eq rows_ok_filter)

lemma rows_ok_keys:
  assumes "rows_ok rows"
  shows "distinct (map rec_key (map snd (filter (\<lambda>row. fst (fst row) = ns) rows)))"
  using assms
proof (induction rows)
  case (Cons row rows)
  then show ?case by (cases row) (force simp: rows_ok_def)
qed simp

lemma rows_ok_namespace:
  assumes "rows_ok rows"
  shows "filter (\<lambda>r. rec_namespace r = ns) (map snd rows) = map snd (filter (\<lambda>row. fst (fst row) = ns) rows)"
    and "set (map snd (filter (\<lambda>row. fst (fst row) = ns) rows)) = {r. \<exists>k. map_of rows (ns, k) = Some r}"
proof -
  show "filter (\<lambda>r. rec_namespace r = ns) (map snd rows) = map snd (filter (\<lambda>row. fst (fst row) = ns) rows)"
    using assms by (induction rows) (auto simp: rows_ok_def)
  show "set (map snd (filter (\<lambda>row. fst (fst row) = ns) rows)) = {r. \<exists>k. map_of rows (ns, k) = Some r}"
    using assms by (force simp: rows_ok_def map_of_eq_Some_iff)
qed

lemma sort_key_distinct_keys:
  assumes "rows_ok rows"
  shows "distinct (map rec_key (sort_key rec_key (map snd (filter (\<lambda>row. fst (fst row) = ns) rows))))"
proof -
  have "mset (map rec_key (sort_key rec_key rs)) = mset (map rec_key rs)" for rs :: "'a Record list"
    by (simp only: mset_map mset_sort)
  then show ?thesis using rows_ok_keys[OF assms] mset_eq_imp_distinct_iff by blast
qed

lemma sorted_listing:
  assumes "rows_ok rows"
  shows "\<exists>L. take n (sort_key rec_key (map snd (filter (\<lambda>row. fst (fst row) = ns) rows))) = take n L \<and>
    sorted (map rec_key L) \<and> distinct (map rec_key L) \<and> set L = {r. \<exists>k. map_of rows (ns, k) = Some r}"
proof (intro exI conjI)
  let ?rs = "map snd (filter (\<lambda>row. fst (fst row) = ns) rows)"
  show "distinct (map rec_key (sort_key rec_key ?rs))" by (rule sort_key_distinct_keys[OF assms])
  show "set (sort_key rec_key ?rs) = {r. \<exists>k. map_of rows (ns, k) = Some r}"
    using rows_ok_namespace(2)[OF assms] by simp
qed simp_all



definition mem_contents :: "'v InMemoryRecordStore \<Rightarrow> string \<times> string \<Rightarrow> 'v Record option" where
  "mem_contents s = map_of (mem_inner s)"

definition mem_ready :: "'v InMemoryRecordStore \<Rightarrow> bool" where "mem_ready s = (\<not> mem_poisoned s)"

definition mem_valid :: "'v InMemoryRecordStore \<Rightarrow> bool" where "mem_valid s = rows_ok (mem_inner s)"

lemmas mem_defs = in_memory_store_def mem_contents_def mem_ready_def mem_valid_def mem_get_def
  mem_put_def mem_list_def mem_delete_def lock_poisoned_def

interpretation mem: record_store in_memory_store mem_contents mem_ready mem_valid
proof
  fix s :: "'a InMemoryRecordStore" and ns k ev and v :: 'a
  assume *: "mem_valid s" "mem_ready s" "cas_matches (mem_contents s (ns, k)) ev"
  define r where "r = \<lparr>rec_namespace = ns, rec_key = k, rec_version = next_version (mem_contents s (ns, k)),
    rec_value = v, rec_updated_at = mem_clock s\<rparr>"
  have "mem_valid (s\<lparr>mem_inner := AList.update (ns, k) r (mem_inner s)\<rparr>)"
    using * unfolding mem_valid_def
    by (simp, intro rows_ok_update) (auto simp: r_def next_version_def split: option.split)
  moreover have "rs_put in_memory_store ns k v ev s =
      (s\<lparr>mem_inner := AList.update (ns, k) r (mem_inner s)\<rparr>, Inr r)"
    using * by (cases "map_of (mem_inner s) (ns, k)"; cases ev)
      (simp_all add: mem_defs r_def next_version_def Let_def)
  ultimately show "\<exists>s' r. rs_put in_memory_store ns k v ev s = (s', Inr r) \<and> mem_valid s' \<and> mem_ready s' \<and>
      mem_contents s' = (mem_contents s)((ns, k) \<mapsto> r) \<and>
      rec_version r = next_version (mem_contents s (ns, k)) \<and> rec_value r = v"
    using *(2) by (auto simp: mem_ready_def mem_contents_def update_conv' r_def)
next
  fix s :: "'a InMemoryRecordStore" and ns n
  assume "mem_valid s" "mem_ready s"
  then show "\<exists>L. rs_list in_memory_store ns n s = (s, Inr (take n L)) \<and> sorted (map rec_key L) \<and>
      distinct (map rec_key L) \<and> set L = {r. \<exists>k. mem_contents s (ns, k) = Some r}"
    using sorted_listing[of "mem_inner s" n ns]
    by (simp add: mem_defs rows_ok_namespace(1))
next
  fix s :: "'a InMemoryRecordStore" and ns k
  assume "mem_valid s" "mem_ready s"
  then show "\<exists>s'. rs_delete in_memory_store ns k s = (s', Inr (mem_contents s (ns, k) \<noteq> None)) \<and>
      mem_valid s' \<and> mem_ready s' \<and> mem_contents s' = (mem_contents s)((ns, k) := None)"
    by (simp add: mem_defs rows_ok_delete AList.delete_conv')
qed (auto simp: mem_defs Let_def dest: rows_ok_stored)

section \<open>Interference\<close>

lemma cas_loop_concurrent_Suc:
  "cas_loop (concurrent_view env view) key step absent failed exhausted (Suc n) (s, i) =
     (case view_get view key (env i s) of
        (s, Inl e) \<Rightarrow> ((s, Suc i), failed e)
      | (s, Inr None) \<Rightarrow> ((s, Suc i), absent)
      | (s, Inr (Some (a, version))) \<Rightarrow>
          (case step a version of
             Return r \<Rightarrow> ((s, Suc i), r)
           | Write a' r \<Rightarrow>
               (case ns_to_value view a' of
                  Inl detail \<Rightarrow> ((s, Suc i), failed (Encode key detail))
                | Inr v \<Rightarrow>
                    (case rs_put (ns_store view) (ns_namespace view) key v (Some version) (env (Suc i) s) of
                       (s, Inr _) \<Rightarrow> ((s, Suc (Suc i)), r)
                     | (s, Inl (Conflict _ _)) \<Rightarrow>
                         cas_loop (concurrent_view env view) key step absent failed exhausted n (s, Suc (Suc i))
                     | (s, Inl e) \<Rightarrow> ((s, Suc (Suc i)), failed e)))))"
  by (simp add: view_get_def view_put_def concurrent_view_def concurrent_def
      split: prod.split sum.split option.split cas_step.split RecordError.split)

text \<open>What other writers may do to the documents: add some, and replace some at a higher version.\<close>

definition advances :: "('k \<Rightarrow> 'v Record option) \<Rightarrow> ('k \<Rightarrow> 'v Record option) \<Rightarrow> bool" where
  "advances m m' \<longleftrightarrow>
     (\<forall>k r. m k = Some r \<longrightarrow> (\<exists>r'. m' k = Some r' \<and> (r' = r \<or> rec_version r < rec_version r')))"

lemma advances_refl [simp]: "advances m m"
  by (simp add: advances_def)

lemma advances_trans: "advances m m' \<Longrightarrow> advances m' m'' \<Longrightarrow> advances m m''"
  unfolding advances_def by (blast dest: less_trans)

lemma advances_same: "advances m m' \<Longrightarrow> m k = Some r \<Longrightarrow> m' k = Some r' \<Longrightarrow> rec_version r' = rec_version r \<Longrightarrow> r' = r"
  unfolding advances_def by (metis less_irrefl option.inject)

lemma advances_version: "advances m m' \<Longrightarrow> m k = Some r \<Longrightarrow> \<exists>r'. m' k = Some r' \<and> rec_version r \<le> rec_version r'"
  unfolding advances_def by fastforce

lemma advances_upd: "(\<And>r'. m k = Some r' \<Longrightarrow> rec_version r' < rec_version r) \<Longrightarrow> advances m (m(k \<mapsto> r))"
  by (auto simp: advances_def)

definition tolerable ::
  "('s \<Rightarrow> string \<times> string \<Rightarrow> 'v Record option) \<Rightarrow> ('s \<Rightarrow> bool) \<Rightarrow> (nat \<Rightarrow> 's \<Rightarrow> 's) \<Rightarrow> bool" where
  "tolerable contents valid env \<longleftrightarrow>
     (\<forall>i s. valid s \<longrightarrow> valid (env i s) \<and> advances (contents s) (contents (env i s)))"

text \<open>The one write of a loop: it replaces the document it was computed from, at the next version.\<close>

definition cas_wrote ::
  "('s, 'v, 'a) NamespacedStore \<Rightarrow> string \<Rightarrow> ('a \<Rightarrow> nat \<Rightarrow> ('a, 'r) cas_step) \<Rightarrow> 'r \<Rightarrow>
     (string \<times> string \<Rightarrow> 'v Record option) \<Rightarrow> (string \<times> string \<Rightarrow> 'v Record option) \<Rightarrow> bool" where
  "cas_wrote view key step res m m' \<longleftrightarrow>
     (\<exists>r r' a a'. m (ns_namespace view, key) = Some r \<and> ns_from_value view (rec_value r) = Inr a \<and>
        step a (rec_version r) = Write a' res \<and> ns_to_value view a' = Inr (rec_value r') \<and>
        rec_version r' = rec_version r + 1 \<and> m' = m((ns_namespace view, key) \<mapsto> r'))"

text \<open>The loop gave up, failed, or found in the documents \<open>m\<close> no reason to write.\<close>

definition cas_unwritten ::
  "('s, 'v, 'a) NamespacedStore \<Rightarrow> string \<Rightarrow> ('a \<Rightarrow> nat \<Rightarrow> ('a, 'r) cas_step) \<Rightarrow> 'r \<Rightarrow> (RecordError \<Rightarrow> 'r) \<Rightarrow> 'r \<Rightarrow>
     (string \<times> string \<Rightarrow> 'v Record option) \<Rightarrow> 'r \<Rightarrow> bool" where
  "cas_unwritten view key step absent failed exhausted m res \<longleftrightarrow>
     res = exhausted \<or> (\<exists>e. res = failed e) \<or> res = absent \<and> m (ns_namespace view, key) = None \<or>
     (\<exists>r a. m (ns_namespace view, key) = Some r \<and> ns_from_value view (rec_value r) = Inr a \<and>
        step a (rec_version r) = Return res)"

text \<open>The state the environment alone reaches with its actions \<open>i\<close> up to \<open>j - 1\<close>.\<close>

definition env_run :: "(nat \<Rightarrow> 's \<Rightarrow> 's) \<Rightarrow> nat \<Rightarrow> nat \<Rightarrow> 's \<Rightarrow> 's" where
  "env_run env i j s = fold env [i..<j] s"

lemma env_run_self [simp]: "env_run env i i s = s"
  by (simp add: env_run_def)

lemma env_run_step: "i < j \<Longrightarrow> env_run env i j s = env_run env (Suc i) j (env i s)"
  by (simp add: env_run_def upt_conv_Cons)

lemma env_run_tolerable:
  assumes "tolerable contents valid env" "valid s" "i \<le> j"
  shows "valid (env_run env i j s) \<and> advances (contents s) (contents (env_run env i j s))"
  using assms(2,3)
proof (induction "j - i" arbitrary: i s)
  case (Suc n)
  then have "env_run env i j s = env_run env (Suc i) j (env i s)" by (simp add: env_run_step)
  moreover have "valid (env i s)" "advances (contents s) (contents (env i s))"
    using assms(1) Suc.prems(1) by (auto simp: tolerable_def)
  ultimately show ?case using Suc.hyps(1)[of "Suc i" "env i s"] Suc.hyps(2) Suc.prems(2) by (auto intro: advances_trans)
qed simp

context record_store
begin

lemma put_expecting:
  assumes "valid s" "rs_put store ns k v (Some x) s = (s', res)" "contents s (ns, k) = Some r"
  obtains (written) r' where "res = Inr r'" "x = rec_version r" "rec_version r' = x + 1" "rec_value r' = v"
      "valid s'" "contents s' = (contents s)((ns, k) \<mapsto> r')"
    | (conflict) y where "res = Inl (Conflict x y)" "s' = s" "x \<noteq> rec_version r"
    | (down) e where "res = Inl (Backend e)" "s' = s"
proof (cases "ready s")
  case False
  with assms(2) put_down[of s ns k v "Some x"] down show ?thesis by auto
next
  case True
  show ?thesis
  proof (cases "x = rec_version r")
    case True
    with assms(3) have "cas_matches (contents s (ns, k)) (Some x)" by simp
    from put_match[OF assms(1) \<open>ready s\<close> this, of v] assms(2,3) True written show ?thesis
      by (auto simp: next_version_def)
  next
    case False
    from put_conflict[OF \<open>ready s\<close> assms(3) False, of v] assms(2) False conflict show ?thesis by auto
  qed
qed

lemma view_get_cases:
  assumes "ns_store view = store"
  obtains (down) e where "view_get view key s = (s, Inl e)" "\<nexists>x y. e = Conflict x y"
    | (absent) "view_get view key s = (s, Inr None)" "contents s (ns_namespace view, key) = None"
    | (found) r a where "view_get view key s = (s, Inr (Some (a, rec_version r)))"
        "contents s (ns_namespace view, key) = Some r" "ns_from_value view (rec_value r) = Inr a"
proof (cases "ready s")
  case True
  then show ?thesis using that assms get_ready[OF True, of "ns_namespace view" key]
    by (cases "contents s (ns_namespace view, key)";
        cases "ns_from_value view (rec_value (the (contents s (ns_namespace view, key))))")
      (auto simp: view_get_def)
next
  case False
  then show ?thesis using that assms get_down[of s "ns_namespace view" key] by (auto simp: view_get_def)
qed

lemma cas_loop_exact:
  assumes store: "ns_store view = store" and env: "tolerable contents valid env"
    and "valid s" "cas_loop (concurrent_view env view) key step absent failed exhausted n (s, i) = ((s', i'), res)"
  shows "i \<le> i' \<and> valid s' \<and>
    (s' = env_run env i i' s \<and> cas_unwritten view key step absent failed exhausted (contents s') res \<or>
     cas_wrote view key step res (contents (env_run env i i' s)) (contents s'))"
  using assms(3,4)
proof (induction n arbitrary: s i)
  case 0
  then show ?case by (auto simp: cas_unwritten_def)
next
  case (Suc n)
  note unf = Suc.prems(2)[unfolded cas_loop_concurrent_Suc]
  have env_s: "valid (env i s)" "advances (contents s) (contents (env i s))"
    using env Suc.prems(1) by (auto simp: tolerable_def)
  have one: "env_run env i (Suc i) s = env i s" by (simp add: env_run_step)
  from store show ?case
  proof (cases rule: view_get_cases[where key = key and s = "env i s"])
    case (down e)
    with unf env_s one show ?thesis by (auto simp: cas_unwritten_def)
  next
    case absent
    with unf env_s one show ?thesis by (auto simp: cas_unwritten_def)
  next
    case (found r a)
    show ?thesis
    proof (cases "step a (rec_version r)")
      case (Return _)
      with unf found env_s one show ?thesis by (auto simp: cas_unwritten_def)
    next
      case (Write a' res')
      show ?thesis
      proof (cases "ns_to_value view a'")
        case (Inl _)
        with unf found env_s Write one show ?thesis by (auto simp: cas_unwritten_def)
      next
        case (Inr v)
        define s0 where "s0 = env (Suc i) (env i s)"
        have two: "env_run env i j s = env_run env (Suc (Suc i)) j s0" if "Suc (Suc i) \<le> j" for j
          using that by (simp add: env_run_step s0_def)
        have s0: "valid s0" "advances (contents (env i s)) (contents s0)"
          using env env_s by (auto simp: tolerable_def s0_def)
        then obtain r0 where r0: "contents s0 (ns_namespace view, key) = Some r0"
          using advances_version[OF s0(2) found(2)] by blast
        obtain s1 p where p: "rs_put store (ns_namespace view) key v (Some (rec_version r)) s0 = (s1, p)"
          by fastforce
        note unf = unf[unfolded found(1), simplified, unfolded Write, simplified, unfolded Inr, simplified,
            unfolded store s0_def[symmetric] p]
        from s0(1) p r0 show ?thesis
        proof (cases rule: put_expecting)
          case (written r')
          then have "r0 = r" using advances_same[OF s0(2) found(2) r0] by simp
          with written unf Write Inr found(3) r0 have "cas_wrote view key step res (contents s0) (contents s')"
            by (auto simp: cas_wrote_def)
          with written(1,5) unf two[of i'] show ?thesis by auto
        next
          case (conflict y)
          with unf have
            "cas_loop (concurrent_view env view) key step absent failed exhausted n (s0, Suc (Suc i)) = ((s', i'), res)"
            by simp
          from Suc.IH[OF s0(1) this] two[of i'] show ?thesis by fastforce
        next
          case (down e)
          with unf s0(1) two[of i'] show ?thesis by (auto simp: cas_unwritten_def)
        qed
      qed
    qed
  qed
qed

lemma cas_loop_linearizable:
  assumes "ns_store view = store" "tolerable contents valid env" "valid s"
    and "cas_loop (concurrent_view env view) key step absent failed exhausted n (s, i) = ((s', i'), res)"
  shows "valid s' \<and> (\<exists>m. advances (contents s) m \<and>
    (m = contents s' \<and> cas_unwritten view key step absent failed exhausted m res \<or>
     cas_wrote view key step res m (contents s')))"
  using cas_loop_exact[OF assms] env_run_tolerable[OF assms(2,3), of i i'] by blast

lemma cas_loop_exhausted:
  assumes store: "ns_store view = store" and env: "tolerable contents valid env"
    and distinguishable: "absent \<noteq> exhausted" "\<And>e. \<nexists>x y. e = Conflict x y \<Longrightarrow> failed e \<noteq> exhausted"
      "\<And>a v. step a v \<noteq> Return exhausted" "\<And>a v a'. step a v \<noteq> Write a' exhausted"
    and "valid s" "contents s (ns_namespace view, key) = Some r"
    and "cas_loop (concurrent_view env view) key step absent failed exhausted n (s, i) = ((s', i'), exhausted)"
  shows "\<exists>r'. contents s' (ns_namespace view, key) = Some r' \<and> rec_version r + n \<le> rec_version r'"
  using assms(7-9)
proof (induction n arbitrary: s i r)
  case 0
  then show ?case by auto
next
  case (Suc n)
  note unf = Suc.prems(3)[unfolded cas_loop_concurrent_Suc]
  have env_s: "valid (env i s)" "advances (contents s) (contents (env i s))"
    using env Suc.prems(1) by (auto simp: tolerable_def)
  then obtain r1 where r1: "contents (env i s) (ns_namespace view, key) = Some r1" "rec_version r \<le> rec_version r1"
    using advances_version[OF env_s(2) Suc.prems(2)] by blast
  from store show ?case
  proof (cases rule: view_get_cases[where key = key and s = "env i s"])
    case (found q a)
    with r1 have [simp]: "q = r1" by simp
    obtain a' res' where w: "step a (rec_version r1) = Write a' res'"
      using unf[unfolded found(1)] distinguishable(3) by (cases "step a (rec_version r1)") simp_all
    obtain v where v: "ns_to_value view a' = Inr v"
      using unf[unfolded found(1), simplified, unfolded w] distinguishable(2)
      by (cases "ns_to_value view a'") simp_all
    define s0 where "s0 = env (Suc i) (env i s)"
    have s0: "valid s0" "advances (contents (env i s)) (contents s0)"
      using env env_s by (auto simp: tolerable_def s0_def)
    then obtain r0 where r0: "contents s0 (ns_namespace view, key) = Some r0" "rec_version r1 \<le> rec_version r0"
      using advances_version[OF s0(2) r1(1)] by blast
    obtain s1 p where p: "rs_put store (ns_namespace view) key v (Some (rec_version r1)) s0 = (s1, p)"
      by fastforce
    note unf = unf[unfolded found(1), simplified, unfolded w, simplified, unfolded v, simplified,
        unfolded store s0_def[symmetric] p]
    from s0(1) p r0(1) show ?thesis
    proof (cases rule: put_expecting)
      case (conflict y)
      with unf have
        "cas_loop (concurrent_view env view) key step absent failed exhausted n (s0, Suc (Suc i)) = ((s', i'), exhausted)"
        by simp
      from Suc.IH[OF s0(1) r0(1) this] conflict(3) r0(2) r1(2) show ?thesis by fastforce
    qed (use unf w distinguishable(2,4) in simp_all)
  qed (use unf distinguishable(1,2) r1 in simp_all)
qed

lemma cas_loop_undisturbed:
  assumes "ns_store view = store" "valid s" "ready s" "contents s (ns_namespace view, key) = Some r"
    "ns_from_value view (rec_value r) = Inr a" "step a (rec_version r) = Write a' res"
    "ns_to_value view a' = Inr v" "0 < n"
  shows "\<exists>s' r'. cas_loop view key step absent failed exhausted n s = (s', res) \<and>
    valid s' \<and> ready s' \<and> contents s' = (contents s)((ns_namespace view, key) \<mapsto> r') \<and>
    rec_value r' = v \<and> rec_version r' = rec_version r + 1"
proof -
  from assms(4) have "cas_matches (contents s (ns_namespace view, key)) (Some (rec_version r))" by simp
  from put_match[OF assms(2,3) this, of v] obtain s' r' where p:
    "rs_put store (ns_namespace view) key v (Some (rec_version r)) s = (s', Inr r')"
    "valid s'" "ready s'" "contents s' = (contents s)((ns_namespace view, key) \<mapsto> r')"
    "rec_value r' = v" "rec_version r' = rec_version r + 1"
    using assms(4) by (auto simp: next_version_def)
  moreover from assms p(1) get_ready[OF assms(3)]
  have "cas_loop view key step absent failed exhausted n s = (s', res)"
    by (cases n) (simp_all add: view_get_def view_put_def)
  ultimately show ?thesis by blast
qed

end

section \<open>The two implementations compared\<close>































definition empty_table :: "'v PostgresRecordStore" where
  "empty_table = \<lparr>pg_rows = [], pg_collation = id, pg_fault = None, pg_clock = 7\<rparr>"


text \<open>
  On that one call they differ: where the in-memory store reports the conflict the module's
  contract asks for, the PostgreSQL statement inserts the document with version 1.
\<close>

lemma postgres_accepts_blind_update:
  "snd (mem_put ''ns'' ''k'' (1 :: nat) (Some 3) (mem_new 7)) = Inl (Conflict 3 None) \<and>
   snd (pg_put ''ns'' ''k'' (1 :: nat) (Some 3) empty_table) =
     Inr \<lparr>rec_namespace = ''ns'', rec_key = ''k'', rec_version = 1, rec_value = 1, rec_updated_at = 7\<rparr>"
  by code_simp

section \<open>No lost update\<close>

context record_store
begin

lemma put_advances:
  assumes "valid s" "cas_matches (contents s (ns, k)) ev"
  shows "valid (fst (rs_put store ns k v ev s))"
    and "advances (contents s) (contents (fst (rs_put store ns k v ev s)))"
proof -
  have "valid (fst (rs_put store ns k v ev s)) \<and> advances (contents s) (contents (fst (rs_put store ns k v ev s)))"
  proof (cases "ready s")
    case True
    from put_match[OF assms(1) True assms(2), of v] obtain s' r where
      p: "rs_put store ns k v ev s = (s', Inr r)" "valid s'" "contents s' = (contents s)((ns, k) \<mapsto> r)"
        "rec_version r = next_version (contents s (ns, k))" by blast
    from p(3) have "advances (contents s) (contents s')"
      by (simp only:) (rule advances_upd, simp add: p(4) next_version_def)
    with p(1,2) show ?thesis by simp
  next
    case False
    with assms(1) put_down[of s ns k v ev] show ?thesis by auto
  qed
  then show "valid (fst (rs_put store ns k v ev s))"
    and "advances (contents s) (contents (fst (rs_put store ns k v ev s)))" by simp_all
qed

end

text \<open>
  C34. No lost update. Other tasks act before each access of a compare-and-swap loop, as long as they
  only add documents or replace them at higher versions. With \<open>n'\<close> accesses made, the store is either
  exactly what the other tasks alone made of it, so the loop wrote nothing: it gave up, failed, or
  found no document or no reason to write in that store. Or the last access was its one write: the
  written document is computed from the document and version that stand in the store that the other
  tasks alone made of the initial one, every other document of that store is kept, and the version
  grows by one.
\<close>

theorem cas_loop_no_lost_update:
  assumes "record_store store contents ready valid" "ns_store view = store" "tolerable contents valid env" "valid s"
    and "cas_loop (concurrent_view env view) key step absent failed exhausted n (s, 0) = ((s', n'), res)"
  shows "s' = env_run env 0 n' s \<and> cas_unwritten view key step absent failed exhausted (contents s') res \<or>
    cas_wrote view key step res (contents (env_run env 0 n' s)) (contents s')"
  using record_store.cas_loop_exact[OF assms] by blast

definition plain_view :: "('a InMemoryRecordStore, 'a, 'a) NamespacedStore" where
  "plain_view = \<lparr>ns_store = in_memory_store, ns_namespace = ''ns'', ns_from_value = Inr, ns_to_value = Inr\<rparr>"

definition rival :: "nat \<Rightarrow> nat InMemoryRecordStore \<Rightarrow> nat InMemoryRecordStore" where
  "rival i s = (if i = 1 then fst (rs_put in_memory_store ''ns'' ''k'' 40 None s) else s)"

definition one_record :: "nat InMemoryRecordStore" where
  "one_record = fst (mem_put ''ns'' ''k'' 10 (Some 0) (mem_new 7))"

definition increment :: "nat \<Rightarrow> nat \<Rightarrow> (nat, nat option) cas_step" where
  "increment a version = Write (a + 1) (Some a)"

lemma rival_tolerable: "tolerable mem_contents mem_valid rival"
  using mem.put_advances[where ev = None and ns = "''ns''" and k = "''k''" and v = 40]
  by (auto simp: tolerable_def rival_def)

definition rival_run :: "(nat InMemoryRecordStore \<times> nat) \<times> nat option" where
  "rival_run = cas_loop (concurrent_view rival plain_view) ''k'' increment None (\<lambda>_. None) None 16 (one_record, 0)"

theorem cas_loop_no_lost_update_witness:
  "cas_wrote plain_view ''k'' increment (Some 40) (mem_contents (env_run rival 0 4 one_record)) (mem_contents (fst (fst rival_run)))"
proof -
  have run: "snd (fst rival_run) = 4" "snd rival_run = Some 40" by code_simp+
  have loop: "cas_loop (concurrent_view rival plain_view) ''k'' increment None (\<lambda>_. None) None 16 (one_record, 0) =
      ((fst (fst rival_run), 4), Some 40)"
    using run by (metis rival_run_def prod.collapse)
  have s: "ns_store plain_view = in_memory_store" "mem_valid one_record"
    by (auto simp: one_record_def mem_put_def mem_new_def Let_def mem_valid_def rows_ok_def plain_view_def)
  have "\<not> cas_unwritten plain_view ''k'' increment None (\<lambda>_. None) None m (Some 40)" for m
    by (simp add: cas_unwritten_def increment_def)
  then show ?thesis
    using cas_loop_no_lost_update[OF mem.record_store_axioms s(1) rival_tolerable s(2) loop] by blast
qed

section \<open>Documents\<close>

text \<open>The document a view shows under a key, with its version.\<close>

definition document ::
  "('s, 'v, 'a) NamespacedStore \<Rightarrow> (string \<times> string \<Rightarrow> 'v Record option) \<Rightarrow> string \<Rightarrow> ('a \<times> nat) option" where
  "document view m key = (case m (ns_namespace view, key) of
     None \<Rightarrow> None
   | Some r \<Rightarrow> (case ns_from_value view (rec_value r) of Inl _ \<Rightarrow> None | Inr a \<Rightarrow> Some (a, rec_version r)))"

text \<open>What the stores rely on of the JSON conversions: every document can be written and reads back.\<close>

definition serde_ok :: "('s, 'v, 'a) NamespacedStore \<Rightarrow> bool" where
  "serde_ok view \<longleftrightarrow> (\<forall>a. \<exists>v. ns_to_value view a = Inr v \<and> ns_from_value view v = Inr a)"

lemma serde_okE:
  assumes "serde_ok view"
  obtains v where "ns_to_value view a = Inr v" "ns_from_value view v = Inr a"
  using assms unfolding serde_ok_def by blast

lemma document_SomeE:
  assumes "document view m key = Some (a, n)"
  obtains r where "m (ns_namespace view, key) = Some r" "ns_from_value view (rec_value r) = Inr a"
    "rec_version r = n"
  using assms unfolding document_def by (auto split: option.splits sum.splits)

lemma document_other_key: "k' \<noteq> key \<or> ns \<noteq> ns_namespace view \<Longrightarrow>
    document view (m((ns, k') := x)) key = document view m key"
  by (auto simp: document_def)

context record_store
begin

lemma view_get_found:
  assumes "ns_store view = store" "ready s" "contents s (ns_namespace view, key) = Some r"
    "ns_from_value view (rec_value r) = Inr a"
  shows "view_get view key s = (s, Inr (Some (a, rec_version r)))"
  using assms get_ready[OF assms(2)] by (simp add: view_get_def)

lemma view_get_absent:
  assumes "ns_store view = store" "ready s" "contents s (ns_namespace view, key) = None"
  shows "view_get view key s = (s, Inr None)"
  using assms get_ready[OF assms(2)] by (simp add: view_get_def)

lemma view_put_match:
  assumes "ns_store view = store" "serde_ok view" "valid s" "ready s"
    "cas_matches (contents s (ns_namespace view, key)) ev"
  obtains s' r where "view_put view key a ev s = (s', Inr r)" "valid s'" "ready s'"
    "contents s' = (contents s)((ns_namespace view, key) \<mapsto> r)" "ns_from_value view (rec_value r) = Inr a"
    "rec_version r = next_version (contents s (ns_namespace view, key))"
proof -
  obtain v where v: "ns_to_value view a = Inr v" "ns_from_value view v = Inr a"
    using assms(2) by (rule serde_okE)
  from put_match[OF assms(3,4,5), of v] v assms(1) that show ?thesis
    by (auto simp: view_put_def)
qed

lemma view_create:
  assumes "ns_store view = store" "serde_ok view" "valid s" "ready s"
    "contents s (ns_namespace view, key) = None"
  obtains s' r where "view_put view key a (Some 0) s = (s', Inr r)" "valid s'" "ready s'"
    "contents s' = (contents s)((ns_namespace view, key) \<mapsto> r)" "ns_from_value view (rec_value r) = Inr a"
    "rec_version r = 1"
  using view_put_match[OF assms(1-4), of key "Some 0" a] assms(5) by (auto simp: next_version_def)

lemma view_create_exists:
  assumes "ns_store view = store" "serde_ok view" "valid s" "ready s"
    "contents s (ns_namespace view, key) = Some r"
  shows "view_put view key a (Some 0) s = (s, Inl (Conflict 0 (Some (rec_version r))))"
proof -
  obtain v where v: "ns_to_value view a = Inr v" using assms(2) by (rule serde_okE)
  have "0 \<noteq> rec_version r" using stored[OF assms(3,5)] by simp
  from put_conflict[OF assms(4,5) this, of v] v assms(1) show ?thesis by (simp add: view_put_def)
qed

lemma view_list_ready:
  assumes "ns_store view = store" "valid s" "ready s"
    and "\<forall>k r. contents s (ns_namespace view, k) = Some r \<longrightarrow> is_ok (ns_from_value view (rec_value r))"
  obtains L where "view_list view n s = (s, Inr (take n (map (\<lambda>r. (projr (ns_from_value view (rec_value r)), rec_version r)) L)))"
    "sorted (map rec_key L)" "distinct (map rec_key L)" "set L = {r. \<exists>k. contents s (ns_namespace view, k) = Some r}"
proof -
  obtain L where L: "rs_list store (ns_namespace view) n s = (s, Inr (take n L))" "sorted (map rec_key L)"
    "distinct (map rec_key L)" "set L = {r. \<exists>k. contents s (ns_namespace view, k) = Some r}"
    using list_ready[OF assms(2,3)] by blast
  have "decode_all (ns_from_value view) rs =
      Inr (map (\<lambda>r. (projr (ns_from_value view (rec_value r)), rec_version r)) rs)" if "set rs \<subseteq> set L" for rs
    using that
  proof (induction rs)
    case (Cons r rs)
    then obtain a where "ns_from_value view (rec_value r) = Inr a"
      using assms(4) L(4) by (fastforce simp: is_ok_iff)
    with Cons show ?case by simp
  qed simp
  from this[of "take n L"] L(1) assms(1)
  have "view_list view n s = (s, Inr (take n (map (\<lambda>r. (projr (ns_from_value view (rec_value r)), rec_version r)) L)))"
    by (simp add: view_list_def take_map set_take_subset)
  with L(2-4) that show ?thesis by blast
qed

end

section \<open>Sequential runs\<close>

context record_store
begin

lemma cas_loop_sequential:
  assumes store: "ns_store view = store" and "valid s" "0 < n"
    and "cas_loop view key step absent failed exhausted n s = (s', res)"
  shows "valid s' \<and> (s' = s \<and> cas_unwritten view key step absent failed exhausted (contents s) res \<or>
    cas_wrote view key step res (contents s) (contents s'))"
proof -
  obtain k where n: "n = Suc k" using assms(3) by (cases n) auto
  note unf = assms(4)[unfolded n cas_loop.simps]
  from store show ?thesis
  proof (cases rule: view_get_cases[where key = key and s = s])
    case (found r a)
    show ?thesis
    proof (cases "step a (rec_version r)")
      case (Return x)
      with unf found(1) have "s' = s" "step a (rec_version r) = Return res" by simp_all
      with assms(2) found(2,3) show ?thesis by (auto simp: cas_unwritten_def)
    next
      case (Write a' x)
      show ?thesis
      proof (cases "ns_to_value view a'")
        case (Inl d)
        with unf found(1) Write have "s' = s" "res = failed (Encode key d)" by (simp_all add: view_put_def)
        with assms(2) show ?thesis by (auto simp: cas_unwritten_def)
      next
        case (Inr v)
        obtain s1 p where p: "rs_put store (ns_namespace view) key v (Some (rec_version r)) s = (s1, p)" by fastforce
        have unf: "(case (s1, p) of (s, Inr _) \<Rightarrow> (s, x)
            | (s, Inl (Conflict _ _)) \<Rightarrow> cas_loop view key step absent failed exhausted k s
            | (s, Inl e) \<Rightarrow> (s, failed e)) = (s', res)"
          using unf found(1) Write Inr store p by (simp add: view_put_def)
        from assms(2) p found(2) show ?thesis
        proof (cases rule: put_expecting)
          case (written r')
          with unf have "s' = s1" "res = x" by simp_all
          with written found(2,3) Write Inr show ?thesis unfolding cas_wrote_def by blast
        next
          case (down e)
          with unf have "s' = s" "res = failed (Backend e)" by simp_all
          with assms(2) show ?thesis by (auto simp: cas_unwritten_def)
        qed simp
      qed
    qed
  qed (use unf assms(2) in \<open>auto simp: cas_unwritten_def\<close>)
qed

lemma decode_all_set:
  "decode_all from_value rs = Inr xs \<Longrightarrow> (a, v) \<in> set xs \<Longrightarrow>
     \<exists>r \<in> set rs. from_value (rec_value r) = Inr a \<and> rec_version r = v"
  by (induction rs arbitrary: xs) (auto split: sum.splits)

lemma view_list_state:
  assumes "ns_store view = store" "valid s" "view_list view n s = (s', res)"
  shows "s' = s"
proof (cases "ready s")
  case True
  with list_ready[OF assms(2) True, of "ns_namespace view" n] assms(1,3) show ?thesis by (auto simp: view_list_def)
next
  case False
  with list_down[OF False, of "ns_namespace view" n] assms(1,3) show ?thesis by (auto simp: view_list_def)
qed

lemma view_list_document:
  assumes "ns_store view = store" "valid s" "view_list view n s = (s', Inr xs)" "(a, v) \<in> set xs"
  shows "\<exists>k. document view (contents s) k = Some (a, v)"
proof (cases "ready s")
  case True
  then obtain L where L: "rs_list store (ns_namespace view) n s = (s, Inr (take n L))"
    "set L = {r. \<exists>k. contents s (ns_namespace view, k) = Some r}" using list_ready[OF assms(2)] by blast
  then have "decode_all (ns_from_value view) (take n L) = Inr xs" using assms(1,3) by (simp add: view_list_def)
  from decode_all_set[OF this assms(4)] obtain r where r: "r \<in> set L" "ns_from_value view (rec_value r) = Inr a"
    "rec_version r = v" by (blast dest: in_set_takeD)
  then obtain k where "contents s (ns_namespace view, k) = Some r" using L(2) by blast
  with r(2,3) show ?thesis by (intro exI[of _ k]) (simp add: document_def)
next
  case False
  with list_down[OF False, of "ns_namespace view" n] assms(1,3) show ?thesis by (auto simp: view_list_def)
qed

end

section \<open>Complete listings\<close>

text \<open>Every record of a view is readable and stored under the id of its document.\<close>

definition keyed_by :: "('s, 'v, 'a) NamespacedStore \<Rightarrow> ('a \<Rightarrow> string) \<Rightarrow> (string \<times> string \<Rightarrow> 'v Record option) \<Rightarrow> bool" where
  "keyed_by view ident m \<longleftrightarrow> (\<forall>k r. m (ns_namespace view, k) = Some r \<longrightarrow>
     (\<exists>a. ns_from_value view (rec_value r) = Inr a \<and> ident a = k))"

definition keys_of :: "('s, 'v, 'a) NamespacedStore \<Rightarrow> (string \<times> string \<Rightarrow> 'v Record option) \<Rightarrow> string set" where
  "keys_of view m = {k. m (ns_namespace view, k) \<noteq> None}"

lemma keyed_by_update:
  "keyed_by view ident m \<Longrightarrow> ns_from_value view (rec_value r) = Inr a \<Longrightarrow> ident a = k \<Longrightarrow>
     keyed_by view ident (m((ns_namespace view, k) \<mapsto> r))"
  by (simp add: keyed_by_def)

lemma keyed_by_other: "(\<And>k. m' (ns_namespace view, k) = m (ns_namespace view, k)) \<Longrightarrow> keyed_by view ident m' = keyed_by view ident m"
  by (simp add: keyed_by_def)

lemma keyed_by_document:
  assumes "keyed_by view ident m" "m (ns_namespace view, k) = Some r"
  obtains a where "ns_from_value view (rec_value r) = Inr a" "ident a = k" "document view m k = Some (a, rec_version r)"
  using assms by (fastforce simp: keyed_by_def document_def)

text \<open>The documents of a view, by their ids.\<close>

definition documents :: "('s, 'v, 'a) NamespacedStore \<Rightarrow> ('a \<Rightarrow> string) \<Rightarrow> (string \<times> string \<Rightarrow> 'v Record option) \<Rightarrow> 'a set" where
  "documents view ident m = {a. \<exists>v. document view m (ident a) = Some (a, v)}"

lemma documents_inj: "a \<in> documents view ident m \<Longrightarrow> b \<in> documents view ident m \<Longrightarrow> ident a = ident b \<Longrightarrow> a = b"
  unfolding documents_def mem_Collect_eq by (metis fst_conv option.inject)

lemma documents_update:
  "ns_from_value view (rec_value r) = Inr a \<Longrightarrow>
     documents view ident (m((ns_namespace view, ident a) \<mapsto> r)) = insert a {b \<in> documents view ident m. ident b \<noteq> ident a}"
  by (auto simp: documents_def document_def)

lemma documents_stored:
  assumes "keyed_by view ident m"
  shows "a \<in> documents view ident m \<and> ident a = k \<longleftrightarrow>
    (\<exists>r. m (ns_namespace view, k) = Some r \<and> ns_from_value view (rec_value r) = Inr a)"
proof
  assume "a \<in> documents view ident m \<and> ident a = k"
  then obtain v where "document view m k = Some (a, v)" unfolding documents_def by blast
  then show "\<exists>r. m (ns_namespace view, k) = Some r \<and> ns_from_value view (rec_value r) = Inr a"
    by (rule document_SomeE) blast
next
  assume "\<exists>r. m (ns_namespace view, k) = Some r \<and> ns_from_value view (rec_value r) = Inr a"
  then obtain r where r: "m (ns_namespace view, k) = Some r" "ns_from_value view (rec_value r) = Inr a" by blast
  from keyed_by_document[OF assms r(1)] r(2) have "ident a = k" "document view m k = Some (a, rec_version r)" by auto
  then show "a \<in> documents view ident m \<and> ident a = k" unfolding documents_def by blast
qed

context record_store
begin

text \<open>A listing that is long enough returns every document, in key order.\<close>

lemma view_list_all:
  assumes view: "ns_store view = store" and s: "valid s" "ready s" and keyed: "keyed_by view ident (contents s)"
    and few: "card (keys_of view (contents s)) \<le> n"
  obtains docs where "view_list view n s = (s, Inr docs)" "distinct (map (ident \<circ> fst) docs)" "sorted (map (ident \<circ> fst) docs)"
    "\<forall>a v. (a, v) \<in> set docs \<longleftrightarrow> document view (contents s) (ident a) = Some (a, v)"
    "fst ` set docs = documents view ident (contents s)" "length docs \<le> n"
proof -
  let ?dec = "\<lambda>r. (projr (ns_from_value view (rec_value r)), rec_version r)"
  have "\<forall>k r. contents s (ns_namespace view, k) = Some r \<longrightarrow> is_ok (ns_from_value view (rec_value r))"
    using keyed by (auto simp: keyed_by_def is_ok_iff)
  from view_list_ready[OF view s this] obtain L where
    L: "view_list view n s = (s, Inr (take n (map ?dec L)))" "sorted (map rec_key L)" "distinct (map rec_key L)"
      "set L = {r. \<exists>k. contents s (ns_namespace view, k) = Some r}" by blast
  have mem: "r \<in> set L \<longleftrightarrow> contents s (ns_namespace view, rec_key r) = Some r" for r
    unfolding L(4) using stored[OF s(1)] by blast
  have dec: "ident (fst (?dec r)) = rec_key r \<and> document view (contents s) (rec_key r) = Some (?dec r)" if mr: "r \<in> set L" for r
  proof -
    obtain a where "ns_from_value view (rec_value r) = Inr a" "ident a = rec_key r"
      "document view (contents s) (rec_key r) = Some (a, rec_version r)"
      using keyed_by_document[OF keyed mem[THEN iffD1, OF mr]] .
    then show ?thesis by simp
  qed
  have "k \<in> keys_of view (contents s) \<longleftrightarrow> (\<exists>r \<in> set L. rec_key r = k)" for k
  proof
    assume "k \<in> keys_of view (contents s)"
    then obtain r where r: "contents s (ns_namespace view, k) = Some r" by (auto simp: keys_of_def)
    then have "r \<in> set L" unfolding L(4) by blast
    moreover have "rec_key r = k" using stored[OF s(1) r] by blast
    ultimately show "\<exists>r \<in> set L. rec_key r = k" by blast
  next
    assume "\<exists>r \<in> set L. rec_key r = k"
    then show "k \<in> keys_of view (contents s)" using mem by (auto simp: keys_of_def)
  qed
  then have "keys_of view (contents s) = set (map rec_key L)" by (auto simp: image_iff)
  then have short: "length L \<le> n" using few L(3) by (metis distinct_card length_map)
  then have list: "view_list view n s = (s, Inr (map ?dec L))" using L(1) by simp
  have keys: "map (ident \<circ> fst) (map ?dec L) = map rec_key L" using dec by simp
  have "(a, v) \<in> set (map ?dec L) \<longleftrightarrow> document view (contents s) (ident a) = Some (a, v)" for a v
  proof
    assume "(a, v) \<in> set (map ?dec L)"
    then obtain r where r: "r \<in> set L" "(a, v) = ?dec r" by auto
    then have "ident a = rec_key r" using dec[OF r(1)] by simp
    then show "document view (contents s) (ident a) = Some (a, v)" using dec[OF r(1)] r(2) by simp
  next
    assume doc: "document view (contents s) (ident a) = Some (a, v)"
    then obtain r where "contents s (ns_namespace view, ident a) = Some r" "ns_from_value view (rec_value r) = Inr a" "v = rec_version r"
      by (auto simp: document_def split: option.splits sum.splits)
    then have r: "contents s (ns_namespace view, ident a) = Some r" "(a, v) = ?dec r" by simp_all
    then have "r \<in> set L" unfolding L(4) by blast
    then show "(a, v) \<in> set (map ?dec L)" unfolding set_map using r(2) by (rule rev_image_eqI)
  qed
  then have docs: "\<forall>a v. (a, v) \<in> set (map ?dec L) \<longleftrightarrow> document view (contents s) (ident a) = Some (a, v)" by blast
  then have "fst ` set (map ?dec L) = documents view ident (contents s)"
    unfolding documents_def by (simp only: set_eq_iff image_iff Bex_def split_paired_Ex) simp
  moreover have "length (map ?dec L) \<le> n" using short by simp
  ultimately show ?thesis using that[OF list] docs keys L(2,3) by presburger
qed

text \<open>A write without an expected version touches its own key only, whether it succeeds or not.\<close>

lemma view_put_blind:
  assumes "ns_store view = store" "valid s"
  shows "valid (fst (view_put view key a None s)) \<and>
    (p \<noteq> (ns_namespace view, key) \<longrightarrow> contents (fst (view_put view key a None s)) p = contents s p)"
proof (cases "ns_to_value view a")
  case (Inl e)
  then show ?thesis using assms by (simp add: view_put_def)
next
  case (Inr v)
  show ?thesis
  proof (cases "ready s")
    case True
    then obtain s' r where "rs_put store (ns_namespace view) key v None s = (s', Inr r)" "valid s'"
      "contents s' = (contents s)((ns_namespace view, key) \<mapsto> r)" using put_match[OF assms(2) True, of _ _ None] by fastforce
    then show ?thesis using Inr assms(1) by (simp add: view_put_def)
  next
    case False
    then show ?thesis using put_down[OF False] Inr assms by (metis fst_conv sum.case(2) view_put_def)
  qed
qed

end

end
