(* ===== verification/Gov_Submission.thy ===== *)
theory Gov_Submission
  imports Gov_Policy
begin

text \<open>
  Submit-once identities and outbox entries (\<open>crates/uc-types/src/governance/submission.rs\<close>). The
  digest \<open>sha256_hex\<close> is an argument of the definitions that use it.
\<close>

section \<open>Identity and digest of a request\<close>

abbreviation CR :: char where "CR \<equiv> CHR 0x0D"
abbreviation LF :: char where "LF \<equiv> CHR 0x0A"
abbreviation NUL :: char where "NUL \<equiv> CHR 0x00"

definition SubmissionId_caller_supplied :: "string \<Rightarrow> string" where
  "SubmissionId_caller_supplied key = trim key"

definition SubmissionId_is_empty :: "string \<Rightarrow> bool" where
  "SubmissionId_is_empty i = (trim i = [])"

fun replace_crlf :: "string \<Rightarrow> string" where
  "replace_crlf [] = []"
| "replace_crlf [c] = [c]"
| "replace_crlf (c # d # cs) = (if c = CR \<and> d = LF then LF # replace_crlf cs else c # replace_crlf (d # cs))"

fun split_lines :: "string \<Rightarrow> string list" where
  "split_lines [] = [[]]"
| "split_lines (c # cs) =
     (if c = LF then [] # split_lines cs
      else case split_lines cs of l # ls \<Rightarrow> (c # l) # ls | [] \<Rightarrow> [[c]])"

definition trim_newlines :: "string \<Rightarrow> string" where
  "trim_newlines s = rev (dropWhile (\<lambda>c. c = LF) (rev (dropWhile (\<lambda>c. c = LF) s)))"

definition unify_newlines :: "string \<Rightarrow> string" where
  "unify_newlines s = map (\<lambda>c. if c = CR then LF else c) (replace_crlf s)"

definition normalize_request :: "string \<Rightarrow> string" where
  "normalize_request description =
     trim_newlines (join_with [LF] (map trim_end (split_lines (unify_newlines description))))"

definition request_digest :: "(string \<Rightarrow> string) \<Rightarrow> string \<Rightarrow> string \<Rightarrow> string" where
  "request_digest sha256_hex project_id description =
     sha256_hex (project_id @ [NUL] @ normalize_request description)"

definition SubmissionId_derive :: "(string \<Rightarrow> string) \<Rightarrow> Principal \<Rightarrow> string \<Rightarrow> string \<Rightarrow> string" where
  "SubmissionId_derive sha256_hex who project_id description =
     ''auto-'' @ take 32 (sha256_hex (Principal_display who @ ''|'' @ project_id @ ''|'' @
       request_digest sha256_hex project_id description))"

definition derive_task_id :: "(string \<Rightarrow> string) \<Rightarrow> string \<Rightarrow> string" where
  "derive_task_id sha256_hex submission_id = ''sub-'' @ take 32 (sha256_hex (''task:'' @ submission_id))"

datatype SubmissionState = Received | Published | Applied | Failed | Abandoned

fun SubmissionState_as_str :: "SubmissionState \<Rightarrow> string" where
  "SubmissionState_as_str Received = ''received''"
| "SubmissionState_as_str Published = ''published''"
| "SubmissionState_as_str Applied = ''applied''"
| "SubmissionState_as_str SubmissionState.Failed = ''failed''"
| "SubmissionState_as_str Abandoned = ''abandoned''"

definition SubmissionState_from_str_lossy :: "string \<Rightarrow> SubmissionState option" where
  "SubmissionState_from_str_lossy s = (let v = to_ascii_lowercase (trim s) in
     if v = ''received'' then Some Received
     else if v = ''published'' then Some Published
     else if v = ''applied'' then Some Applied
     else if v = ''failed'' then Some SubmissionState.Failed
     else if v = ''abandoned'' then Some Abandoned
     else None)"

definition SubmissionState_is_terminal :: "SubmissionState \<Rightarrow> bool" where
  "SubmissionState_is_terminal s = (s \<in> {Applied, SubmissionState.Failed, Abandoned})"

record SubmissionRequest =
  sq_submission_id :: string
  sq_principal :: Principal
  sq_project_id :: string
  sq_description :: string
  sq_case_id :: "string option"

definition SubmissionRequest_new ::
  "(string \<Rightarrow> string) \<Rightarrow> Principal \<Rightarrow> string \<Rightarrow> string \<Rightarrow> string option \<Rightarrow> SubmissionRequest" where
  "SubmissionRequest_new sha256_hex who project_id description submission_id =
     \<lparr>sq_submission_id = (case submission_id of Some i \<Rightarrow> i
        | None \<Rightarrow> SubmissionId_derive sha256_hex who project_id description),
      sq_principal = who, sq_project_id = project_id, sq_description = description, sq_case_id = None\<rparr>"

definition SubmissionRequest_with_case :: "SubmissionRequest \<Rightarrow> string \<Rightarrow> SubmissionRequest" where
  "SubmissionRequest_with_case r case_id = r\<lparr>sq_case_id := Some case_id\<rparr>"

definition SubmissionRequest_digest :: "(string \<Rightarrow> string) \<Rightarrow> SubmissionRequest \<Rightarrow> string" where
  "SubmissionRequest_digest sha256_hex r =
     sha256_hex (sq_project_id r @ [NUL] @ normalize_request (sq_description r) @
       (case sq_case_id r of Some case_id \<Rightarrow> NUL # case_id | None \<Rightarrow> []))"

record SubmissionRecord =
  sr_submission_id :: string
  sr_task_id :: string
  sr_state :: SubmissionState
  sr_principal :: Principal
  sr_project_id :: string
  sr_request_digest :: string
  sr_case_id :: "string option"
  sr_outbox_key :: "string option"
  sr_publish_attempts :: u32
  sr_created_at :: datetime
  sr_updated_at :: datetime
  sr_published_at :: "datetime option"
  sr_applied_at :: "datetime option"
  sr_last_error :: "string option"
  sr_version :: nat

definition SubmissionRecord_new :: "(string \<Rightarrow> string) \<Rightarrow> SubmissionRequest \<Rightarrow> datetime \<Rightarrow> SubmissionRecord" where
  "SubmissionRecord_new sha256_hex request now =
     \<lparr>sr_submission_id = sq_submission_id request,
      sr_task_id = derive_task_id sha256_hex (sq_submission_id request),
      sr_state = Received, sr_principal = sq_principal request, sr_project_id = sq_project_id request,
      sr_request_digest = SubmissionRequest_digest sha256_hex request, sr_case_id = sq_case_id request,
      sr_outbox_key = None, sr_publish_attempts = 0, sr_created_at = now, sr_updated_at = now,
      sr_published_at = None, sr_applied_at = None, sr_last_error = None, sr_version = 0\<rparr>"

definition task_id_matches_derivation :: "(string \<Rightarrow> string) \<Rightarrow> SubmissionRecord \<Rightarrow> bool" where
  "task_id_matches_derivation sha256_hex r = (derive_task_id sha256_hex (sr_submission_id r) = sr_task_id r)"

datatype SubmitOnceOutcome =
    Created SubmissionRecord
  | Replayed SubmissionRecord
  | Conflicting string string string

fun SubmitOnceOutcome_record :: "SubmitOnceOutcome \<Rightarrow> SubmissionRecord option" where
  "SubmitOnceOutcome_record (Created r) = Some r"
| "SubmitOnceOutcome_record (Replayed r) = Some r"
| "SubmitOnceOutcome_record (Conflicting _ _ _) = None"

section \<open>Outbox entries\<close>

datatype OutboxState = Pending | InFlight | Delivered | Dead

fun OutboxState_as_str :: "OutboxState \<Rightarrow> string" where
  "OutboxState_as_str Pending = ''pending''"
| "OutboxState_as_str InFlight = ''in_flight''"
| "OutboxState_as_str Delivered = ''delivered''"
| "OutboxState_as_str Dead = ''dead''"

definition OUTBOX_MAX_ATTEMPTS :: u32 where "OUTBOX_MAX_ATTEMPTS = 12"

record OutboxEntry =
  o_key :: string
  o_subject :: string
  o_payload :: string
  o_state :: OutboxState
  o_attempts :: u32
  o_next_attempt_at_ms :: int
  o_created_at :: datetime
  o_updated_at :: datetime
  o_delivered_at :: "datetime option"
  o_last_error :: "string option"

definition OutboxEntry_new :: "string \<Rightarrow> string \<Rightarrow> string \<Rightarrow> datetime \<Rightarrow> OutboxEntry" where
  "OutboxEntry_new key subject payload now =
     \<lparr>o_key = key, o_subject = subject, o_payload = payload, o_state = Pending, o_attempts = 0,
      o_next_attempt_at_ms = timestamp_millis now, o_created_at = now, o_updated_at = now,
      o_delivered_at = None, o_last_error = None\<rparr>"

definition is_due :: "OutboxEntry \<Rightarrow> int \<Rightarrow> bool" where
  "is_due e now_ms = (o_state e = Pending \<and> o_next_attempt_at_ms e \<le> now_ms)"

definition backoff_ms :: "u32 \<Rightarrow> int" where
  "backoff_ms attempts = min (i64_saturating_mul 250 (2 ^ unat (min attempts 7))) 30000"

definition schedule_retry :: "string \<Rightarrow> datetime \<Rightarrow> OutboxEntry \<Rightarrow> OutboxEntry" where
  "schedule_retry error now e =
     (let attempts = saturating_add (o_attempts e) 1;
          e = e\<lparr>o_attempts := attempts, o_state := Pending, o_last_error := Some error, o_updated_at := now\<rparr>
      in if OUTBOX_MAX_ATTEMPTS \<le> attempts then e\<lparr>o_state := Dead\<rparr>
         else e\<lparr>o_next_attempt_at_ms := i64_saturating_add (timestamp_millis now) (backoff_ms attempts)\<rparr>)"

definition mark_delivered :: "datetime \<Rightarrow> OutboxEntry \<Rightarrow> OutboxEntry" where
  "mark_delivered now e =
     e\<lparr>o_state := Delivered, o_delivered_at := Some now, o_updated_at := now, o_last_error := None\<rparr>"

definition recover_in_flight :: "datetime \<Rightarrow> OutboxEntry \<Rightarrow> OutboxEntry \<times> bool" where
  "recover_in_flight now e =
     (if o_state e \<noteq> InFlight then (e, False)
      else (e\<lparr>o_state := Pending, o_updated_at := now, o_next_attempt_at_ms := timestamp_millis now\<rparr>, True))"

end
