(* ===== verification/Outbox_Queue.thy ===== *)
theory Outbox_Queue
  imports Gov_Submission Record_Store
begin

text \<open>
  The transactional outbox (\<open>crates/uc-engine/src/governance/outbox.rs\<close>). A queue is its typed view of
  the record store; every operation passes the store's state through its accesses in the order of
  the code.
\<close>

datatype OutboxError = Store RecordError

fun OutboxError_display :: "OutboxError \<Rightarrow> string" where
  "OutboxError_display (OutboxError.Store error) = ''outbox: '' @ RecordError_display error"

type_synonym ('s, 'v) OutboxQueue = "('s, 'v, OutboxEntry) NamespacedStore"

definition OutboxQueue_new ::
  "('s, 'v) RecordStore \<Rightarrow> ('v \<Rightarrow> (string, OutboxEntry) result) \<Rightarrow> (OutboxEntry \<Rightarrow> (string, 'v) result) \<Rightarrow>
     ('s, 'v) OutboxQueue" where
  "OutboxQueue_new records from_value to_value =
     \<lparr>ns_store = records, ns_namespace = ''outbox'', ns_from_value = from_value, ns_to_value = to_value\<rparr>"

definition outbox_get :: "('s, 'v) OutboxQueue \<Rightarrow> string \<Rightarrow> 's \<Rightarrow> 's \<times> (OutboxError, OutboxEntry option) result" where
  "outbox_get q key s = (case view_get q key s of
     (s, Inl e) \<Rightarrow> (s, Inl (OutboxError.Store e))
   | (s, Inr found) \<Rightarrow> (s, Inr (map_option fst found)))"

definition enqueue :: "('s, 'v) OutboxQueue \<Rightarrow> OutboxEntry \<Rightarrow> 's \<Rightarrow> 's \<times> (OutboxError, OutboxEntry) result" where
  "enqueue q entry s = (case view_put q (o_key entry) entry (Some 0) s of
     (s, Inr _) \<Rightarrow> (s, Inr entry)
   | (s, Inl (Conflict _ _)) \<Rightarrow>
       (case outbox_get q (o_key entry) s of
          (s, Inl e) \<Rightarrow> (s, Inl e)
        | (s, Inr (Some existing)) \<Rightarrow> (s, Inr existing)
        | (s, Inr None) \<Rightarrow> (s, Inl (OutboxError.Store (Conflict 0 None))))
   | (s, Inl other) \<Rightarrow> (s, Inl (OutboxError.Store other)))"

definition outbox_list ::
  "('s, 'v) OutboxQueue \<Rightarrow> nat \<Rightarrow> 's \<Rightarrow> 's \<times> (OutboxError, (OutboxEntry \<times> nat) list) result" where
  "outbox_list q limit s = (case view_list q limit s of
     (s, Inl e) \<Rightarrow> (s, Inl (OutboxError.Store e))
   | (s, Inr entries) \<Rightarrow> (s, Inr entries))"

fun claim_loop ::
  "('s, 'v) OutboxQueue \<Rightarrow> datetime \<Rightarrow> int \<Rightarrow> nat \<Rightarrow> (OutboxEntry \<times> nat) list \<Rightarrow> OutboxEntry list \<Rightarrow> 's \<Rightarrow>
     's \<times> (OutboxError, OutboxEntry list) result" where
  "claim_loop q now now_ms limit [] claimed s = (s, Inr claimed)"
| "claim_loop q now now_ms limit ((entry, version) # rest) claimed s =
     (if limit \<le> length claimed then (s, Inr claimed)
      else if \<not> is_due entry now_ms \<or> o_state entry \<noteq> Pending then claim_loop q now now_ms limit rest claimed s
      else let entry = entry\<lparr>o_state := InFlight, o_updated_at := now\<rparr>
           in (case view_put q (o_key entry) entry (Some version) s of
                 (s, Inr _) \<Rightarrow> claim_loop q now now_ms limit rest (claimed @ [entry]) s
               | (s, Inl (Conflict _ _)) \<Rightarrow> claim_loop q now now_ms limit rest claimed s
               | (s, Inl other) \<Rightarrow> (s, Inl (OutboxError.Store other))))"

definition usize_saturating_mul :: "nat \<Rightarrow> nat \<Rightarrow> nat" where
  "usize_saturating_mul a b = nat (min (int a * int b) 18446744073709551615)"

definition claim_due ::
  "('s, 'v) OutboxQueue \<Rightarrow> datetime \<Rightarrow> nat \<Rightarrow> 's \<Rightarrow> 's \<times> (OutboxError, OutboxEntry list) result" where
  "claim_due q now limit s =
     (case view_list q (max (usize_saturating_mul limit 4) limit) s of
        (s, Inl e) \<Rightarrow> (s, Inl (OutboxError.Store e))
      | (s, Inr candidates) \<Rightarrow>
          (case claim_loop q now (timestamp_millis now) limit candidates [] s of
             (s, Inl e) \<Rightarrow> (s, Inl e)
           | (s, Inr claimed) \<Rightarrow> (s, Inr (sort_key o_created_at claimed))))"

definition outbox_mutate ::
  "('s, 'v) OutboxQueue \<Rightarrow> string \<Rightarrow> (OutboxEntry \<Rightarrow> OutboxEntry) \<Rightarrow> 's \<Rightarrow>
     's \<times> (OutboxError, OutboxEntry option) result" where
  "outbox_mutate q key mutate s =
     cas_loop q key (\<lambda>entry version. Write (mutate entry) (Inr (Some (mutate entry)))) (Inr None)
       (\<lambda>e. Inl (OutboxError.Store e)) (Inl (OutboxError.Store (Conflict 0 None))) 8 s"

definition outbox_mark_delivered ::
  "('s, 'v) OutboxQueue \<Rightarrow> string \<Rightarrow> datetime \<Rightarrow> 's \<Rightarrow> 's \<times> (OutboxError, OutboxEntry option) result" where
  "outbox_mark_delivered q key now s = outbox_mutate q key (mark_delivered now) s"

definition outbox_schedule_retry ::
  "('s, 'v) OutboxQueue \<Rightarrow> string \<Rightarrow> string \<Rightarrow> datetime \<Rightarrow> 's \<Rightarrow> 's \<times> (OutboxError, OutboxEntry option) result" where
  "outbox_schedule_retry q key error now s = outbox_mutate q key (schedule_retry error now) s"

fun recover_loop ::
  "('s, 'v) OutboxQueue \<Rightarrow> datetime \<Rightarrow> (OutboxEntry \<times> nat) list \<Rightarrow> nat \<Rightarrow> 's \<Rightarrow> 's \<times> (OutboxError, nat) result" where
  "recover_loop q now [] recovered s = (s, Inr recovered)"
| "recover_loop q now ((entry, version) # rest) recovered s =
     (if o_state entry \<noteq> InFlight then recover_loop q now rest recovered s
      else (case recover_in_flight now entry of
              (entry, False) \<Rightarrow> recover_loop q now rest recovered s
            | (entry, True) \<Rightarrow>
                (case view_put q (o_key entry) entry (Some version) s of
                   (s, Inr _) \<Rightarrow> recover_loop q now rest (recovered + 1) s
                 | (s, Inl (Conflict _ _)) \<Rightarrow> recover_loop q now rest recovered s
                 | (s, Inl other) \<Rightarrow> (s, Inl (OutboxError.Store other)))))"

definition outbox_recover :: "('s, 'v) OutboxQueue \<Rightarrow> datetime \<Rightarrow> 's \<Rightarrow> 's \<times> (OutboxError, nat) result" where
  "outbox_recover q now s = (case view_list q 1000 s of
     (s, Inl e) \<Rightarrow> (s, Inl (OutboxError.Store e))
   | (s, Inr entries) \<Rightarrow> recover_loop q now entries 0 s)"

definition dead_letters :: "('s, 'v) OutboxQueue \<Rightarrow> nat \<Rightarrow> 's \<Rightarrow> 's \<times> (OutboxError, OutboxEntry list) result" where
  "dead_letters q limit s = (case view_list q limit s of
     (s, Inl e) \<Rightarrow> (s, Inl (OutboxError.Store e))
   | (s, Inr entries) \<Rightarrow> (s, Inr (filter (\<lambda>e. o_state e = Dead) (map fst entries))))"

definition pending_count :: "('s, 'v) OutboxQueue \<Rightarrow> 's \<Rightarrow> 's \<times> (OutboxError, nat) result" where
  "pending_count q s = (case view_list q 1000 s of
     (s, Inl e) \<Rightarrow> (s, Inl (OutboxError.Store e))
   | (s, Inr entries) \<Rightarrow> (s, Inr (length (filter (\<lambda>(e, _). o_state e \<in> {Pending, InFlight}) entries))))"

section \<open>The queue's contract\<close>

definition claim :: "datetime \<Rightarrow> OutboxEntry \<Rightarrow> OutboxEntry" where
  "claim now e = e\<lparr>o_state := InFlight, o_updated_at := now\<rparr>"

lemma claim_simps [simp]: "o_key (claim now e) = o_key e" "o_state (claim now e) = InFlight"
    "o_created_at (claim now e) = o_created_at e"
  by (simp_all add: claim_def)

text \<open>The entries a claim takes from its candidates: the first due ones, in key order.\<close>

definition chosen :: "int \<Rightarrow> nat \<Rightarrow> (OutboxEntry \<times> nat) list \<Rightarrow> OutboxEntry list" where
  "chosen now_ms n cs = take n (filter (\<lambda>e. is_due e now_ms) (map fst cs))"

lemma chosenD: "e \<in> set (chosen now_ms n cs) \<Longrightarrow> is_due e now_ms \<and> (\<exists>v. (e, v) \<in> set cs)"
  by (auto simp: chosen_def dest!: in_set_takeD) blast

locale outbox_queue = record_store store contents ready valid
  for store :: "('s, 'v) RecordStore" and contents ready valid +
  fixes q :: "('s, 'v) OutboxQueue"
  assumes q_store: "ns_store q = store"
    and q_namespace: "ns_namespace q = ''outbox''"
    and q_serde: "serde_ok q"
begin

lemma enqueue_new:
  assumes "valid s" "ready s" "contents s (''outbox'', o_key e) = None"
  shows "\<exists>s' r. enqueue q e s = (s', Inr e) \<and> valid s' \<and> ready s' \<and>
    contents s' = (contents s)((''outbox'', o_key e) \<mapsto> r) \<and> document q (contents s') (o_key e) = Some (e, 1)"
proof -
  obtain s' r where "view_put q (o_key e) e (Some 0) s = (s', Inr r)" "valid s'" "ready s'"
    "contents s' = (contents s)((ns_namespace q, o_key e) \<mapsto> r)" "ns_from_value q (rec_value r) = Inr e"
    "rec_version r = 1"
    using view_create[OF q_store q_serde assms(1,2), of "o_key e" e] assms(3) q_namespace by auto
  then show ?thesis using q_namespace
    by (intro exI[of _ s'] exI[of _ r]) (simp add: enqueue_def document_def)
qed

lemma enqueue_again:
  assumes "ready s" "document q (contents s) (o_key e) = Some (e', v)" "valid s"
  shows "enqueue q e s = (s, Inr e')"
proof -
  obtain r where r: "contents s (ns_namespace q, o_key e) = Some r" "ns_from_value q (rec_value r) = Inr e'"
    using assms(2) by (rule document_SomeE)
  moreover obtain y where "view_put q (o_key e) e (Some 0) s = (s, Inl (Conflict 0 y))"
    using view_create_exists[OF q_store q_serde assms(3,1) r(1)] by blast
  moreover have "view_get q (o_key e) s = (s, Inr (Some (e', rec_version r)))"
    using view_get_found[OF q_store assms(1) r] .
  ultimately show ?thesis by (simp add: enqueue_def outbox_get_def)
qed

lemma claim_loop_undisturbed:
  assumes "valid s" "ready s" "distinct (map (o_key \<circ> fst) cs)"
    and "\<forall>(e, v) \<in> set cs. document q (contents s) (o_key e) = Some (e, v)"
  shows "\<exists>s'. claim_loop q now now_ms limit cs claimed s =
      (s', Inr (claimed @ map (claim now) (chosen now_ms (limit - length claimed) cs))) \<and> valid s' \<and> ready s' \<and>
    (\<forall>e \<in> set (chosen now_ms (limit - length claimed) cs).
       map_option fst (document q (contents s') (o_key e)) = Some (claim now e)) \<and>
    (\<forall>p. p \<notin> (\<lambda>e. (''outbox'', o_key e)) ` set (chosen now_ms (limit - length claimed) cs) \<longrightarrow>
       contents s' p = contents s p)"
  using assms
proof (induction cs arbitrary: s claimed)
  case Nil
  then show ?case by (auto simp: chosen_def)
next
  case (Cons c cs)
  obtain e v where c: "c = (e, v)" by fastforce
  show ?case
  proof (cases "limit \<le> length claimed \<or> \<not> is_due e now_ms")
    case True
    with Cons.prems Cons.IH[of s claimed] show ?thesis
      by (auto simp: c chosen_def is_due_def)
  next
    case False
    then obtain n where n: "limit - length claimed = Suc n" by (cases "limit - length claimed") auto
    obtain r where r: "contents s (ns_namespace q, o_key e) = Some r" "rec_version r = v"
      using Cons.prems(4) c by (auto elim: document_SomeE)
    have "cas_matches (contents s (ns_namespace q, o_key e)) (Some v)" using r by simp
    then obtain s1 r1 where s1: "view_put q (o_key e) (claim now e) (Some v) s = (s1, Inr r1)" "valid s1" "ready s1"
      "contents s1 = (contents s)((ns_namespace q, o_key e) \<mapsto> r1)" "ns_from_value q (rec_value r1) = Inr (claim now e)"
      using view_put_match[OF q_store q_serde Cons.prems(1,2), of "o_key e" "Some v" "claim now e"] by blast
    have step: "claim_loop q now now_ms limit (c # cs) claimed s =
        claim_loop q now now_ms limit cs (claimed @ [claim now e]) s1"
      using False s1(1) by (simp add: c is_due_def Let_def claim_def)
    have new: "o_key e \<notin> o_key ` fst ` set cs" using Cons.prems(3) c by (auto simp: image_image)
    have docs: "\<forall>(e', v') \<in> set cs. document q (contents s1) (o_key e') = Some (e', v')"
    proof (intro ballI, clarify)
      fix e' v' assume in_cs: "(e', v') \<in> set cs"
      then have "o_key e' \<noteq> o_key e" using new by (force simp: image_iff)
      with in_cs Cons.prems(4) show "document q (contents s1) (o_key e') = Some (e', v')"
        by (auto simp: s1(4) document_other_key)
    qed
    have ch: "chosen now_ms (Suc n) (c # cs) = e # chosen now_ms n cs"
      using False by (simp add: chosen_def c)
    have lim: "limit - length (claimed @ [claim now e]) = n" using n by simp
    obtain s' where s': "claim_loop q now now_ms limit cs (claimed @ [claim now e]) s1 =
        (s', Inr ((claimed @ [claim now e]) @ map (claim now) (chosen now_ms n cs)))" "valid s'" "ready s'"
      "\<forall>x \<in> set (chosen now_ms n cs). map_option fst (document q (contents s') (o_key x)) = Some (claim now x)"
      "\<forall>p. p \<notin> (\<lambda>x. (''outbox'', o_key x)) ` set (chosen now_ms n cs) \<longrightarrow> contents s' p = contents s1 p"
      using Cons.IH[OF s1(2,3) _ docs, of "claimed @ [claim now e]"] Cons.prems(3) unfolding lim by auto
    have not_chosen: "(''outbox'', o_key e) \<notin> (\<lambda>x. (''outbox'', o_key x)) ` set (chosen now_ms n cs)"
      using new by (auto simp: chosen_def dest!: in_set_takeD)
    then have "map_option fst (document q (contents s') (o_key e)) = Some (claim now e)"
      using s'(5) s1(4,5) q_namespace by (simp add: document_def)
    with s' s1(4) show ?thesis unfolding n ch step
      by (intro exI[of _ s']) (auto simp: q_namespace)
  qed
qed

lemma claim_due_undisturbed:
  assumes "valid s" "ready s"
    and keyed: "\<And>k r. contents s (''outbox'', k) = Some r \<Longrightarrow> \<exists>e. ns_from_value q (rec_value r) = Inr e \<and> o_key e = k"
  obtains s' cs where "view_list q (max (usize_saturating_mul limit 4) limit) s = (s, Inr cs)"
    "claim_due q now limit s =
      (s', Inr (sort_key o_created_at (map (claim now) (chosen (timestamp_millis now) limit cs))))"
    "valid s'" "ready s'"
    "\<forall>e \<in> set (chosen (timestamp_millis now) limit cs).
       map_option fst (document q (contents s) (o_key e)) = Some e \<and> is_due e (timestamp_millis now) \<and>
       map_option fst (document q (contents s') (o_key e)) = Some (claim now e)"
    "\<forall>p. p \<notin> (\<lambda>e. (''outbox'', o_key e)) ` set (chosen (timestamp_millis now) limit cs) \<longrightarrow>
       contents s' p = contents s p"
proof -
  let ?n = "max (usize_saturating_mul limit 4) limit"
  let ?f = "\<lambda>r. (projr (ns_from_value q (rec_value r)), rec_version r)"
  have ok: "\<forall>k r. contents s (ns_namespace q, k) = Some r \<longrightarrow> is_ok (ns_from_value q (rec_value r))"
    using keyed q_namespace by (fastforce simp: is_ok_iff)
  obtain L where L: "view_list q ?n s = (s, Inr (take ?n (map ?f L)))"
    "sorted (map rec_key L)" "distinct (map rec_key L)"
    "set L = {r. \<exists>k. contents s (ns_namespace q, k) = Some r}"
    by (rule view_list_ready[OF q_store assms(1,2) ok])
  have key: "o_key (fst (?f r)) = rec_key r \<and> document q (contents s) (rec_key r) = Some (?f r)" if r: "r \<in> set L" for r
  proof -
    obtain k where k: "contents s (ns_namespace q, k) = Some r" using r L(4) by auto
    then obtain e where "ns_from_value q (rec_value r) = Inr e" "o_key e = k" using keyed q_namespace by auto
    moreover have "rec_key r = k" using stored[OF assms(1) k] by simp
    ultimately show ?thesis using k by (simp add: document_def)
  qed
  then have "map (o_key \<circ> fst) (take ?n (map ?f L)) = take ?n (map rec_key L)"
    by (auto simp: take_map dest: in_set_takeD)
  then have d: "distinct (map (o_key \<circ> fst) (take ?n (map ?f L)))"
    using L(3) by (simp only: distinct_take)
  have docs: "\<forall>(e, v) \<in> set (take ?n (map ?f L)). document q (contents s) (o_key e) = Some (e, v)"
    using key by (auto simp: take_map dest!: in_set_takeD)
  obtain s' where s': "claim_loop q now (timestamp_millis now) limit (take ?n (map ?f L)) [] s =
      (s', Inr (map (claim now) (chosen (timestamp_millis now) limit (take ?n (map ?f L)))))" "valid s'" "ready s'"
    "\<forall>e \<in> set (chosen (timestamp_millis now) limit (take ?n (map ?f L))).
       map_option fst (document q (contents s') (o_key e)) = Some (claim now e)"
    "\<forall>p. p \<notin> (\<lambda>e. (''outbox'', o_key e)) ` set (chosen (timestamp_millis now) limit (take ?n (map ?f L))) \<longrightarrow>
       contents s' p = contents s p"
    using claim_loop_undisturbed[OF assms(1,2) d docs, of now "timestamp_millis now" limit "[]"] by auto
  have "map_option fst (document q (contents s) (o_key e)) = Some e \<and> is_due e (timestamp_millis now)"
    if "e \<in> set (chosen (timestamp_millis now) limit (take ?n (map ?f L)))" for e
    using chosenD[OF that] docs by auto
  with s' L(1) show ?thesis by (intro that[of "take ?n (map ?f L)" s']) (auto simp: claim_due_def)
qed

end

section \<open>Retry\<close>

lemma backoff_ms_eq: "backoff_ms a = min (250 * 2 ^ min (unat a) 7) 30000"
proof -
  have "unat (min a 7) = min (unat a) 7" by (simp add: min_def word_le_nat_alt)
  moreover define p where "p = 250 * (2 :: int) ^ min (unat a) 7"
  moreover have "(2 :: int) ^ min (unat a) 7 \<le> 2 ^ 7" by (intro power_increasing) auto
  then have "0 \<le> p \<and> p \<le> 32000" by (simp add: p_def)
  then have "i64_clamp p = p" by (simp add: i64_clamp_def i64_max_def)
  ultimately show ?thesis by (simp add: backoff_ms_def i64_saturating_mul_def)
qed

lemma schedule_retry_attempts: "o_attempts (schedule_retry error now e) = saturating_add (o_attempts e) 1"
    "o_key (schedule_retry error now e) = o_key e"
  by (simp_all add: schedule_retry_def Let_def)

lemma schedule_retry_state:
  "o_state (schedule_retry error now e) =
     (if 12 \<le> unat (o_attempts (schedule_retry error now e)) then Dead else Pending)"
  by (simp add: schedule_retry_def Let_def OUTBOX_MAX_ATTEMPTS_def word_le_nat_alt)

lemma retries_attempts:
  "unat (o_attempts (((schedule_retry error now) ^^ n) (OutboxEntry_new key subject payload t))) = min n 4294967295"
  by (induction n) (auto simp: schedule_retry_attempts unat_saturating_add OutboxEntry_new_def)

text \<open>
  Retries are bounded: an entry whose publication fails is pending until the twelfth failure and
  parked from then on, and the delay before the next attempt doubles from 500 ms up to a cap of 30 s.
\<close>

lemma schedule_retry_bounded:
  "o_state (((schedule_retry error now) ^^ n) (OutboxEntry_new key subject payload t)) = (if n < 12 then Pending else Dead) \<and>
   o_next_attempt_at_ms (schedule_retry error now e) =
     (if o_state (schedule_retry error now e) = Dead then o_next_attempt_at_ms e
      else i64_saturating_add (timestamp_millis now) (min (250 * 2 ^ min (unat (o_attempts e) + 1) 7) 30000))"
proof
  show "o_state (((schedule_retry error now) ^^ n) (OutboxEntry_new key subject payload t)) =
      (if n < 12 then Pending else Dead)"
  proof (cases n)
    case (Suc m)
    then show ?thesis using retries_attempts[of n error now key subject payload t]
      by (simp add: schedule_retry_state)
  qed (simp add: OutboxEntry_new_def)
  have "min (unat (saturating_add (o_attempts e) 1)) 7 = min (unat (o_attempts e) + 1) 7"
    by (simp add: unat_saturating_add)
  then show "o_next_attempt_at_ms (schedule_retry error now e) =
     (if o_state (schedule_retry error now e) = Dead then o_next_attempt_at_ms e
      else i64_saturating_add (timestamp_millis now) (min (250 * 2 ^ min (unat (o_attempts e) + 1) 7) 30000))"
    by (simp add: schedule_retry_def Let_def backoff_ms_eq)
qed

section \<open>Claims\<close>

text \<open>
  Enqueueing is idempotent by key: with an entry of the key in any state the store is unchanged and
  that entry is returned; otherwise the entry is stored, and a later entry of the same key, whatever
  its content, changes nothing.
\<close>

lemma enqueue_idempotent:
  assumes queue: "outbox_queue store contents ready valid q" and s: "valid s" "ready s"
    and key: "o_key again = o_key e"
    and decodable: "\<And>r. contents s (''outbox'', o_key e) = Some r \<Longrightarrow> is_ok (ns_from_value q (rec_value r))"
  shows "\<exists>s' stored. enqueue q e s = (s', Inr stored) \<and> enqueue q again s' = (s', Inr stored) \<and>
    (case document q (contents s) (o_key e) of None \<Rightarrow> stored = e | Some (old, _) \<Rightarrow> s' = s \<and> stored = old)"
proof (cases "contents s (''outbox'', o_key e)")
  case None
  obtain s' r where s': "enqueue q e s = (s', Inr e)" "valid s'" "ready s'"
    "contents s' = (contents s)((''outbox'', o_key e) \<mapsto> r)" "document q (contents s') (o_key e) = Some (e, 1)"
    using outbox_queue.enqueue_new[OF queue, OF s None] by blast
  moreover have "document q (contents s) (o_key e) = None"
    using None outbox_queue.q_namespace[OF queue] by (simp add: document_def)
  moreover have "enqueue q again s' = (s', Inr e)"
    using outbox_queue.enqueue_again[OF queue, OF s'(3) _ s'(2), of again e 1] s'(5) key by simp
  ultimately show ?thesis by (intro exI[of _ s'] exI[of _ e]) simp
next
  case (Some r)
  then obtain old where old: "document q (contents s) (o_key e) = Some (old, rec_version r)"
    using decodable[OF Some] outbox_queue.q_namespace[OF queue] by (auto simp: document_def is_ok_iff)
  with outbox_queue.enqueue_again[OF queue, OF s(2) _ s(1)] key show ?thesis by auto
qed

text \<open>
  A claim that no other task disturbs takes the first \<open>limit\<close> due entries, in key order, of the first
  \<open>4 * limit\<close> records, marks exactly these as in flight, leaves every other record of every namespace
  as it was, and returns them oldest first.
\<close>

lemma claim_due_takes_due:
  assumes "outbox_queue store contents ready valid q" "valid s" "ready s"
    and "\<And>k r. contents s (''outbox'', k) = Some r \<Longrightarrow> \<exists>e. ns_from_value q (rec_value r) = Inr e \<and> o_key e = k"
  shows "\<exists>s' cs taken. view_list q (max (usize_saturating_mul limit 4) limit) s = (s, Inr cs) \<and>
    taken = take limit (filter (\<lambda>e. is_due e (timestamp_millis now)) (map fst cs)) \<and>
    claim_due q now limit s = (s', Inr (sort_key o_created_at (map (claim now) taken))) \<and>
    (\<forall>e \<in> set taken. map_option fst (document q (contents s') (o_key e)) = Some (claim now e)) \<and>
    (\<forall>p. p \<notin> (\<lambda>e. (''outbox'', o_key e)) ` set taken \<longrightarrow> contents s' p = contents s p)"
  using outbox_queue.claim_due_undisturbed[OF assms(1), OF assms(2-4)]
  unfolding chosen_def by metis

type_synonym plain_store = "OutboxEntry InMemoryRecordStore"

definition plain_queue :: "(plain_store, OutboxEntry) OutboxQueue" where
  "plain_queue = OutboxQueue_new in_memory_store Inr Inr"

interpretation mem_outbox: outbox_queue in_memory_store mem_contents mem_ready mem_valid plain_queue
  by unfold_locales (simp_all add: plain_queue_def OutboxQueue_new_def serde_ok_def)

definition entry_a :: OutboxEntry where
  "entry_a = OutboxEntry_new ''task-submit:a'' ''uc.task.submit'' ''{}'' 5000000"

definition queue_a :: plain_store where "queue_a = fst (enqueue plain_queue entry_a (mem_new 0))"

lemma queue_a_ok: "mem_valid queue_a" "mem_ready queue_a"
    "mem_contents queue_a (''outbox'', k) = Some r \<Longrightarrow> k = ''task-submit:a'' \<and> rec_value r = entry_a"
  by (auto simp: queue_a_def enqueue_def view_put_def plain_queue_def OutboxQueue_new_def entry_a_def OutboxEntry_new_def
      mem_defs mem_new_def Let_def rows_ok_def split: if_splits)

definition crowded :: plain_store where
  "crowded = fst (enqueue plain_queue (entry_a\<lparr>o_key := ''e''\<rparr>)
     (foldl (\<lambda>s k. fst (outbox_mark_delivered plain_queue k 1 (fst (enqueue plain_queue (entry_a\<lparr>o_key := k\<rparr>) s))))
       (mem_new 0) [''a'', ''b'', ''c'', ''d'']))"

text \<open>
  A due entry can starve: the window is cut before entries are selected and delivered entries stay in
  the queue, so four delivered entries with smaller keys hide a due one from every claim of one.
\<close>

lemma claim_due_starves:
  "map_option (\<lambda>(e, _). is_due e (timestamp_millis 9000000)) (document plain_queue (mem_contents crowded) ''e'') = Some True \<and>
   claim_due plain_queue 9000000 1 crowded = (crowded, Inr [])"
  by code_simp

end
