(* ===== verification/Submission_Store.thy ===== *)
theory Submission_Store
  imports Outbox_Queue
begin

text \<open>
  Durable submit-once (\<open>crates/uc-engine/src/governance/submission.rs\<close>). The submission store and the
  outbox are two views of one record store, so their operations pass one state. A publication
  payload is a JSON object, here the list of its fields; its text is the argument \<open>render\<close>.
\<close>

datatype SubmissionError = Store RecordError | Outbox string

fun SubmissionError_display :: "SubmissionError \<Rightarrow> string" where
  "SubmissionError_display (SubmissionError.Store error) = ''submission store: '' @ RecordError_display error"
| "SubmissionError_display (SubmissionError.Outbox detail) = ''submission outbox: '' @ detail"

datatype json_field = JString string | JNull | JBool bool

record SubmissionRecovery =
  sv_requeued :: nat
  sv_confirmed :: nat
  sv_already_applied :: nat
  sv_already_published :: nat
  sv_failed :: nat
  sv_task_ids :: "string list"

type_synonym ('s, 'v) SubmissionStore = "('s, 'v, SubmissionRecord) NamespacedStore"

definition SubmissionStore_new ::
  "('s, 'v) RecordStore \<Rightarrow> ('v \<Rightarrow> (string, SubmissionRecord) result) \<Rightarrow> (SubmissionRecord \<Rightarrow> (string, 'v) result) \<Rightarrow>
     ('s, 'v) SubmissionStore" where
  "SubmissionStore_new records from_value to_value =
     \<lparr>ns_store = records, ns_namespace = ''submission'', ns_from_value = from_value, ns_to_value = to_value\<rparr>"

definition OUTBOX_SUBJECT_TASK_SUBMIT :: string where
  "OUTBOX_SUBJECT_TASK_SUBMIT = ''uc.task.submit''"

definition submission_outbox_prefix :: string where
  "submission_outbox_prefix = ''task-submit:''"

definition outbox_key :: "string \<Rightarrow> string" where
  "outbox_key submission_id = ''task-submit:'' @ submission_id"

definition submission_id_from_outbox_key :: "string \<Rightarrow> string option" where
  "submission_id_from_outbox_key key =
     (case strip_prefix submission_outbox_prefix key of
        None \<Rightarrow> None
      | Some rest \<Rightarrow> if rest = [] then None else Some (SubmissionId_caller_supplied rest))"

definition opt_field :: "string option \<Rightarrow> json_field" where
  "opt_field x = (case x of Some s \<Rightarrow> JString s | None \<Rightarrow> JNull)"

definition publication_payload :: "SubmissionRecord \<Rightarrow> SubmissionRequest \<Rightarrow> (string \<times> json_field) list" where
  "publication_payload r request =
     [(''task_id'', JString (sr_task_id r)), (''description'', JString (sq_description request)),
      (''project_id'', JString (sq_project_id request)), (''submission_id'', JString (sr_submission_id r)),
      (''case_id'', opt_field (sr_case_id r))]"

definition recovery_payload :: "SubmissionRecord \<Rightarrow> (string \<times> json_field) list" where
  "recovery_payload r =
     [(''task_id'', JString (sr_task_id r)), (''project_id'', JString (sr_project_id r)),
      (''submission_id'', JString (sr_submission_id r)), (''case_id'', opt_field (sr_case_id r)),
      (''recovered'', JBool True)]"

definition queue_publication ::
  "((string \<times> json_field) list \<Rightarrow> string) \<Rightarrow> SubmissionRecord \<Rightarrow> SubmissionRequest \<Rightarrow> ('s, 'v) OutboxQueue \<Rightarrow>
     datetime \<Rightarrow> 's \<Rightarrow> 's \<times> (SubmissionError, unit) result" where
  "queue_publication render r request outbox now s =
     (case enqueue outbox (OutboxEntry_new (outbox_key (sr_submission_id r)) OUTBOX_SUBJECT_TASK_SUBMIT
             (render (publication_payload r request)) now) s of
        (s, Inl error) \<Rightarrow> (s, Inl (SubmissionError.Outbox (OutboxError_display error)))
      | (s, Inr _) \<Rightarrow> (s, Inr ()))"

definition submit_once ::
  "(string \<Rightarrow> string) \<Rightarrow> ((string \<times> json_field) list \<Rightarrow> string) \<Rightarrow> ('s, 'v) SubmissionStore \<Rightarrow> SubmissionRequest \<Rightarrow>
     ('s, 'v) OutboxQueue \<Rightarrow> datetime \<Rightarrow> 's \<Rightarrow> 's \<times> (SubmissionError, SubmitOnceOutcome) result" where
  "submit_once sha256_hex render store request outbox now s =
     (let key = sq_submission_id request; r = SubmissionRecord_new sha256_hex request now in
      case view_put store key r (Some 0) s of
        (s, Inr _) \<Rightarrow>
          (case queue_publication render r request outbox now s of
             (s, Inl e) \<Rightarrow> (s, Inl e)
           | (s, Inr _) \<Rightarrow> (s, Inr (Created r)))
      | (s, Inl (Conflict _ _)) \<Rightarrow>
          (case view_get store key s of
             (s, Inl e) \<Rightarrow> (s, Inl (SubmissionError.Store e))
           | (s, Inr None) \<Rightarrow> (s, Inl (SubmissionError.Store (Conflict 0 None)))
           | (s, Inr (Some (existing, _))) \<Rightarrow>
               let requested_digest = SubmissionRequest_digest sha256_hex request in
               if sr_request_digest existing \<noteq> requested_digest
               then (s, Inr (Conflicting (sr_submission_id existing) (sr_request_digest existing) requested_digest))
               else (case queue_publication render existing request outbox now s of
                       (s, Inl e) \<Rightarrow> (s, Inl e)
                     | (s, Inr _) \<Rightarrow> (s, Inr (Replayed existing))))
      | (s, Inl other) \<Rightarrow> (s, Inl (SubmissionError.Store other)))"

definition submission_transition ::
  "('s, 'v) SubmissionStore \<Rightarrow> string \<Rightarrow> datetime \<Rightarrow> (SubmissionRecord \<Rightarrow> SubmissionRecord) \<Rightarrow> 's \<Rightarrow>
     's \<times> (SubmissionError, SubmissionRecord option) result" where
  "submission_transition store submission_id now mutate s =
     cas_loop store submission_id
       (\<lambda>r version. let r = (mutate r)\<lparr>sr_updated_at := now, sr_version := version + 1\<rparr> in Write r (Inr (Some r)))
       (Inr None) (\<lambda>e. Inl (SubmissionError.Store e)) (Inl (SubmissionError.Store (Conflict 0 None))) 8 s"

definition publish_record :: "datetime \<Rightarrow> SubmissionRecord \<Rightarrow> SubmissionRecord" where
  "publish_record now r =
     (let r = (if sr_state r = Received then r\<lparr>sr_state := Published, sr_published_at := Some now\<rparr> else r)
      in r\<lparr>sr_publish_attempts := saturating_add (sr_publish_attempts r) 1\<rparr>)"

definition mark_published ::
  "('s, 'v) SubmissionStore \<Rightarrow> string \<Rightarrow> datetime \<Rightarrow> 's \<Rightarrow> 's \<times> (SubmissionError, SubmissionRecord option) result" where
  "mark_published store submission_id now s = submission_transition store submission_id now (publish_record now) s"

definition mark_applied ::
  "('s, 'v) SubmissionStore \<Rightarrow> string \<Rightarrow> datetime \<Rightarrow> 's \<Rightarrow> 's \<times> (SubmissionError, SubmissionRecord option) result" where
  "mark_applied store submission_id now s =
     submission_transition store submission_id now (\<lambda>r. r\<lparr>sr_state := Applied, sr_applied_at := Some now\<rparr>) s"

definition mark_failed ::
  "('s, 'v) SubmissionStore \<Rightarrow> string \<Rightarrow> string \<Rightarrow> datetime \<Rightarrow> 's \<Rightarrow>
     's \<times> (SubmissionError, SubmissionRecord option) result" where
  "mark_failed store submission_id error now s =
     submission_transition store submission_id now
       (\<lambda>r. r\<lparr>sr_state := SubmissionState.Failed, sr_last_error := Some error\<rparr>) s"

definition recover_record ::
  "((string \<times> json_field) list \<Rightarrow> string) \<Rightarrow> ('s, 'v) SubmissionStore \<Rightarrow> ('s, 'v) OutboxQueue \<Rightarrow> datetime \<Rightarrow>
     SubmissionRecord \<Rightarrow> SubmissionRecovery \<Rightarrow> 's \<Rightarrow> 's \<times> (SubmissionError, SubmissionRecovery) result" where
  "recover_record render store outbox now r summary s =
     (if sr_state r = Applied \<or> sr_state r = Abandoned
      then (s, Inr (summary\<lparr>sv_already_applied := sv_already_applied summary + 1\<rparr>))
      else if sr_state r = SubmissionState.Failed
      then (s, Inr (summary\<lparr>sv_failed := sv_failed summary + 1\<rparr>))
      else
        let key = outbox_key (sr_submission_id r);
            touched = (\<lambda>summary. summary\<lparr>sv_task_ids := sv_task_ids summary @ [sr_task_id r]\<rparr>)
        in case outbox_get outbox key s of (s, looked_up) \<Rightarrow>
          let delivered = (case looked_up of Inr (Some entry) \<Rightarrow> o_state entry = Delivered | _ \<Rightarrow> False)
          in if delivered
             then (if sr_state r = Published
                   then (s, Inr (touched (summary\<lparr>sv_already_published := sv_already_published summary + 1\<rparr>)))
                   else (case mark_published store (sr_submission_id r) now s of
                           (s, Inl e) \<Rightarrow> (s, Inl e)
                         | (s, Inr _) \<Rightarrow> (s, Inr (touched (summary\<lparr>sv_confirmed := sv_confirmed summary + 1\<rparr>)))))
             else (case enqueue outbox (OutboxEntry_new key OUTBOX_SUBJECT_TASK_SUBMIT
                          (render (recovery_payload r)) now) s of
                     (s, Inr _) \<Rightarrow> (s, Inr (touched (summary\<lparr>sv_requeued := sv_requeued summary + 1\<rparr>)))
                   | (s, Inl _) \<Rightarrow> (s, Inr summary)))"

fun recover_records ::
  "((string \<times> json_field) list \<Rightarrow> string) \<Rightarrow> ('s, 'v) SubmissionStore \<Rightarrow> ('s, 'v) OutboxQueue \<Rightarrow> datetime \<Rightarrow>
     (SubmissionRecord \<times> nat) list \<Rightarrow> SubmissionRecovery \<Rightarrow> 's \<Rightarrow> 's \<times> (SubmissionError, SubmissionRecovery) result" where
  "recover_records render store outbox now [] summary s = (s, Inr summary)"
| "recover_records render store outbox now ((r, _) # rest) summary s =
     (case recover_record render store outbox now r summary s of
        (s, Inl e) \<Rightarrow> (s, Inl e)
      | (s, Inr summary) \<Rightarrow> recover_records render store outbox now rest summary s)"

definition recover_unfinished ::
  "((string \<times> json_field) list \<Rightarrow> string) \<Rightarrow> ('s, 'v) SubmissionStore \<Rightarrow> ('s, 'v) OutboxQueue \<Rightarrow> datetime \<Rightarrow> nat \<Rightarrow>
     's \<Rightarrow> 's \<times> (SubmissionError, SubmissionRecovery) result" where
  "recover_unfinished render store outbox now limit s =
     (case view_list store limit s of
        (s, Inl e) \<Rightarrow> (s, Inl (SubmissionError.Store e))
      | (s, Inr records) \<Rightarrow>
          recover_records render store outbox now records
            \<lparr>sv_requeued = 0, sv_confirmed = 0, sv_already_applied = 0, sv_already_published = 0,
             sv_failed = 0, sv_task_ids = []\<rparr> s)"

section \<open>Submissions over one record store\<close>

locale submit_plane = outbox_queue store contents ready valid q
  for store :: "('s, 'v) RecordStore" and contents ready valid q +
  fixes subs :: "('s, 'v) SubmissionStore"
  assumes subs_store: "ns_store subs = store"
    and subs_namespace: "ns_namespace subs = ''submission''"
    and subs_serde: "serde_ok subs"

text \<open>The stored documents are readable, and a submission is stored under its own id.\<close>

definition plane_ok ::
  "('s, 'v) SubmissionStore \<Rightarrow> ('s, 'v) OutboxQueue \<Rightarrow> (string \<times> string \<Rightarrow> 'v Record option) \<Rightarrow> bool" where
  "plane_ok subs q m \<longleftrightarrow>
     (\<forall>k r. m (''submission'', k) = Some r \<longrightarrow>
        (\<exists>a. ns_from_value subs (rec_value r) = Inr a \<and> sr_submission_id a = k)) \<and>
     (\<forall>k r. m (''outbox'', k) = Some r \<longrightarrow> is_ok (ns_from_value q (rec_value r)))"

text \<open>Another set of documents that has every document of the first in the two namespaces, unchanged.\<close>

definition outbox_kept ::
  "('s, 'v) OutboxQueue \<Rightarrow> (string \<times> string \<Rightarrow> 'v Record option) \<Rightarrow> (string \<times> string \<Rightarrow> 'v Record option) \<Rightarrow> bool" where
  "outbox_kept q m m' \<longleftrightarrow> (\<forall>k e. document q m k = Some e \<longrightarrow> document q m' k = Some e)"

lemma plane_okD:
  assumes "plane_ok subs q m"
  shows "m (''submission'', k) = Some r \<Longrightarrow> \<exists>a. ns_from_value subs (rec_value r) = Inr a \<and> sr_submission_id a = k"
    and "m (''outbox'', k) = Some r \<Longrightarrow> \<exists>e. ns_from_value q (rec_value r) = Inr e"
  using assms unfolding plane_ok_def is_ok_iff by blast+

context submit_plane
begin

lemma enqueue_total:
  assumes s: "valid s" "ready s" and ok: "plane_ok subs q (contents s)"
  shows "\<exists>s' e'. enqueue q e s = (s', Inr e') \<and> valid s' \<and> ready s' \<and> plane_ok subs q (contents s') \<and>
    (\<forall>k. contents s' (''submission'', k) = contents s (''submission'', k)) \<and>
    outbox_kept q (contents s) (contents s') \<and> document q (contents s') (o_key e) \<noteq> None \<and>
    (document q (contents s) (o_key e) \<noteq> None \<longrightarrow> s' = s)"
proof (cases "contents s (''outbox'', o_key e)")
  case None
  then obtain s' r where s': "enqueue q e s = (s', Inr e)" "valid s'" "ready s'"
    "contents s' = (contents s)((''outbox'', o_key e) \<mapsto> r)" "document q (contents s') (o_key e) = Some (e, 1)"
    using enqueue_new[OF s] by blast
  have "document q (contents s) (o_key e) = None" using None q_namespace by (simp add: document_def)
  moreover have "outbox_kept q (contents s) (contents s')"
    unfolding outbox_kept_def using calculation s'(4)
    by (metis document_other_key option.distinct(1))
  moreover have "plane_ok subs q (contents s')"
    using ok s'(4,5) q_namespace by (auto simp: plane_ok_def document_def is_ok_iff split: sum.splits)
  ultimately show ?thesis using s' by (intro exI[of _ s'] exI[of _ e]) auto
next
  case (Some r)
  then obtain e' where "document q (contents s) (o_key e) = Some (e', rec_version r)"
    using plane_okD(2)[OF ok Some] q_namespace by (auto simp: document_def)
  with enqueue_again[OF s(2) this s(1)] s ok show ?thesis
    by (intro exI[of _ s] exI[of _ e']) (auto simp: outbox_kept_def)
qed

lemma queue_publication_total:
  assumes "valid s" "ready s" "plane_ok subs q (contents s)"
  shows "\<exists>s'. queue_publication render r request q now s = (s', Inr ()) \<and> valid s' \<and> ready s' \<and>
    plane_ok subs q (contents s') \<and> (\<forall>k. contents s' (''submission'', k) = contents s (''submission'', k)) \<and>
    outbox_kept q (contents s) (contents s') \<and>
    document q (contents s') (outbox_key (sr_submission_id r)) \<noteq> None \<and>
    (document q (contents s) (outbox_key (sr_submission_id r)) \<noteq> None \<longrightarrow> s' = s)"
  using enqueue_total[OF assms, of "OutboxEntry_new (outbox_key (sr_submission_id r)) OUTBOX_SUBJECT_TASK_SUBMIT
      (render (publication_payload r request)) now"]
  by (auto simp: queue_publication_def OutboxEntry_new_def)

lemma submit_once_new:
  assumes s: "valid s" "ready s" and ok: "plane_ok subs q (contents s)"
    and absent: "contents s (''submission'', sq_submission_id request) = None"
  shows "\<exists>s'. submit_once sha render subs request q now s = (s', Inr (Created (SubmissionRecord_new sha request now))) \<and>
    valid s' \<and> ready s' \<and> plane_ok subs q (contents s') \<and>
    document subs (contents s') (sq_submission_id request) = Some (SubmissionRecord_new sha request now, 1) \<and>
    outbox_kept q (contents s) (contents s') \<and>
    document q (contents s') (outbox_key (sq_submission_id request)) \<noteq> None"
proof -
  let ?r = "SubmissionRecord_new sha request now" and ?i = "sq_submission_id request"
  obtain s1 x where s1: "view_put subs ?i ?r (Some 0) s = (s1, Inr x)" "valid s1" "ready s1"
    "contents s1 = (contents s)((ns_namespace subs, ?i) \<mapsto> x)" "ns_from_value subs (rec_value x) = Inr ?r" "rec_version x = 1"
    using view_create[OF subs_store subs_serde s, of ?i ?r] absent subs_namespace by auto
  have id: "sr_submission_id ?r = ?i" by (simp add: SubmissionRecord_new_def)
  have "plane_ok subs q (contents s1)" using ok s1(4,5) subs_namespace id by (auto simp: plane_ok_def)
  from queue_publication_total[OF s1(2,3) this, of render ?r request now] obtain s' where
    s': "queue_publication render ?r request q now s1 = (s', Inr ())" "valid s'" "ready s'"
      "plane_ok subs q (contents s')" "\<forall>k. contents s' (''submission'', k) = contents s1 (''submission'', k)"
      "outbox_kept q (contents s1) (contents s')" "document q (contents s') (outbox_key (sr_submission_id ?r)) \<noteq> None"
    by blast
  moreover have "document q (contents s1) k = document q (contents s) k" for k
    using s1(4) subs_namespace q_namespace by (simp add: document_other_key)
  ultimately show ?thesis using s1 subs_namespace id
    by (intro exI[of _ s']) (simp add: submit_once_def Let_def document_def outbox_kept_def)
qed

lemma submit_once_again:
  assumes s: "valid s" "ready s" and ok: "plane_ok subs q (contents s)"
    and doc: "document subs (contents s) (sq_submission_id request) = Some (old, v)"
  shows "if sr_request_digest old = SubmissionRequest_digest sha request
    then \<exists>s'. submit_once sha render subs request q now s = (s', Inr (Replayed old)) \<and> valid s' \<and> ready s' \<and>
      plane_ok subs q (contents s') \<and> (\<forall>k. contents s' (''submission'', k) = contents s (''submission'', k)) \<and>
      outbox_kept q (contents s) (contents s') \<and>
      document q (contents s') (outbox_key (sq_submission_id request)) \<noteq> None \<and>
      (document q (contents s) (outbox_key (sq_submission_id request)) \<noteq> None \<longrightarrow> s' = s)
    else submit_once sha render subs request q now s = (s, Inr (Conflicting (sq_submission_id request)
      (sr_request_digest old) (SubmissionRequest_digest sha request)))"
proof -
  let ?i = "sq_submission_id request"
  obtain x where x: "contents s (ns_namespace subs, ?i) = Some x" "ns_from_value subs (rec_value x) = Inr old"
    using doc by (rule document_SomeE)
  then have id: "sr_submission_id old = ?i" using plane_okD(1)[OF ok] subs_namespace by fastforce
  note put = view_create_exists[OF subs_store subs_serde s x(1), of "SubmissionRecord_new sha request now"]
  note got = view_get_found[OF subs_store s(2) x]
  show ?thesis
  proof (cases "sr_request_digest old = SubmissionRequest_digest sha request")
    case True
    with queue_publication_total[OF s ok, of render old request now] put got id show ?thesis
      by (auto simp: submit_once_def Let_def)
  next
    case False
    with put got id show ?thesis by (simp add: submit_once_def Let_def)
  qed
qed

lemma submit_once_recorded:
  assumes s: "valid s" "ready s" "plane_ok subs q (contents s)"
    and first: "submit_once sha render subs request q now s = (s', Inr outcome)"
      "SubmitOnceOutcome_record outcome = Some r"
  obtains v where "valid s'" "ready s'" "plane_ok subs q (contents s')"
    "sr_request_digest r = SubmissionRequest_digest sha request"
    "document subs (contents s') (sq_submission_id request) = Some (r, v)"
    "document q (contents s') (outbox_key (sq_submission_id request)) \<noteq> None"
proof (cases "document subs (contents s) (sq_submission_id request)")
  case None
  have "contents s (''submission'', sq_submission_id request) = None"
    using None plane_okD(1)[OF s(3)] subs_namespace by (fastforce simp: document_def split: option.splits)
  from submit_once_new[OF s this, of sha render now] first show ?thesis
    by (intro that) (auto simp: SubmissionRecord_new_def)
next
  case (Some d)
  obtain old v where d: "d = (old, v)" by fastforce
  from submit_once_again[OF s Some[unfolded d], of sha render now] first Some d subs_namespace show ?thesis
    by (intro that) (auto simp: document_def split: if_splits)
qed

lemma mark_published_total:
  assumes s: "valid s" "ready s" and ok: "plane_ok subs q (contents s)"
    and doc: "document subs (contents s) i = Some (old, v)"
  shows "\<exists>s' res. mark_published subs i now s = (s', Inr res) \<and> valid s' \<and> ready s' \<and> plane_ok subs q (contents s') \<and>
    (\<forall>k. contents s' (''outbox'', k) = contents s (''outbox'', k)) \<and>
    (\<forall>k. map_option (sr_task_id \<circ> fst) (document subs (contents s') k) =
      map_option (sr_task_id \<circ> fst) (document subs (contents s) k))"
proof -
  obtain r where r: "contents s (ns_namespace subs, i) = Some r" "ns_from_value subs (rec_value r) = Inr old"
    using doc by (rule document_SomeE)
  define new where "new = (publish_record now old)\<lparr>sr_updated_at := now, sr_version := rec_version r + 1\<rparr>"
  have new: "sr_submission_id new = sr_submission_id old" "sr_task_id new = sr_task_id old"
    by (simp_all add: new_def publish_record_def Let_def)
  obtain w where w: "ns_to_value subs new = Inr w" "ns_from_value subs w = Inr new"
    using subs_serde by (rule serde_okE)
  define st :: "SubmissionRecord \<Rightarrow> nat \<Rightarrow> (SubmissionRecord, (SubmissionError, SubmissionRecord option) result) cas_step"
    where "st = (\<lambda>r version. let r = (publish_record now r)\<lparr>sr_updated_at := now, sr_version := version + 1\<rparr>
      in Write r (Inr (Some r)))"
  have step: "st old (rec_version r) = Write new (Inr (Some new))" by (simp add: st_def new_def Let_def)
  obtain s' r' where s': "mark_published subs i now s = (s', Inr (Some new))" "valid s'" "ready s'"
      "contents s' = (contents s)((ns_namespace subs, i) \<mapsto> r')" "rec_value r' = w" "rec_version r' = rec_version r + 1"
    using cas_loop_undisturbed[OF subs_store s r, where step = st, OF step w(1), of 8 "Inr None"]
    unfolding mark_published_def submission_transition_def st_def by fastforce
  have "plane_ok subs q (contents s')"
    using ok s'(4,5) w(2) new plane_okD(1)[OF ok, of i r] r subs_namespace by (auto simp: plane_ok_def)
  moreover have "map_option (sr_task_id \<circ> fst) (document subs (contents s') k) =
      map_option (sr_task_id \<circ> fst) (document subs (contents s) k)" for k
    using s'(4,5) w(2) new r by (cases "k = i") (simp_all add: document_def)
  ultimately show ?thesis using s' subs_namespace by (intro exI[of _ s'] exI[of _ "Some new"]) simp
qed

lemma recover_record_total:
  assumes s: "valid s" "ready s" and ok: "plane_ok subs q (contents s)"
    and doc: "document subs (contents s) (sr_submission_id r) \<noteq> None"
  shows "\<exists>s' summary'. recover_record render subs q now r summary s = (s', Inr summary') \<and> valid s' \<and> ready s' \<and>
    plane_ok subs q (contents s') \<and> outbox_kept q (contents s) (contents s') \<and>
    (\<forall>k. map_option (sr_task_id \<circ> fst) (document subs (contents s') k) =
      map_option (sr_task_id \<circ> fst) (document subs (contents s) k)) \<and>
    (sr_state r \<in> {Received, Published} \<longrightarrow> document q (contents s') (outbox_key (sr_submission_id r)) \<noteq> None)"
proof (cases "sr_state r \<in> {Received, Published}")
  case False
  then have "sr_state r \<in> {Applied, Abandoned, SubmissionState.Failed}" by (cases "sr_state r") auto
  with s ok show ?thesis by (auto simp: recover_record_def outbox_kept_def)
next
  case True
  let ?k = "outbox_key (sr_submission_id r)"
  have get: "\<exists>found. outbox_get q ?k s = (s, Inr found) \<and> found = map_option fst (document q (contents s) ?k)"
  proof (cases "contents s (''outbox'', ?k)")
    case None
    with view_get_absent[OF q_store s(2), of ?k] q_namespace show ?thesis
      by (simp add: outbox_get_def document_def)
  next
    case (Some x)
    with plane_okD(2)[OF ok Some] view_get_found[OF q_store s(2), of ?k x] q_namespace show ?thesis
      by (auto simp: outbox_get_def document_def)
  qed
  then obtain found where found: "outbox_get q ?k s = (s, Inr found)" "found = map_option fst (document q (contents s) ?k)"
    by blast
  note defs = recover_record_def Let_def outbox_kept_def
  show ?thesis
  proof (cases "\<exists>e. found = Some e \<and> o_state e = Delivered")
    case delivered: True
    then have present: "document q (contents s) ?k \<noteq> None" using found by auto
    show ?thesis
    proof (cases "sr_state r = Published")
      case True
      with delivered found s ok present show ?thesis by (auto simp: defs)
    next
      case False
      with True have "sr_state r = Received" by simp
      moreover obtain old v where "document subs (contents s) (sr_submission_id r) = Some (old, v)" using doc by auto
      from mark_published_total[OF s ok this, of now] obtain s' res where
        s': "mark_published subs (sr_submission_id r) now s = (s', Inr res)" "valid s'" "ready s'"
          "plane_ok subs q (contents s')" "\<forall>k. contents s' (''outbox'', k) = contents s (''outbox'', k)"
          "\<forall>k. map_option (sr_task_id \<circ> fst) (document subs (contents s') k) =
             map_option (sr_task_id \<circ> fst) (document subs (contents s) k)" by blast
      moreover have "document q (contents s') = document q (contents s)"
        using s'(5) q_namespace by (auto simp: document_def fun_eq_iff)
      ultimately show ?thesis using delivered found present by (auto simp: defs)
    qed
  next
    case False
    from enqueue_total[OF s ok, of "OutboxEntry_new ?k OUTBOX_SUBJECT_TASK_SUBMIT (render (recovery_payload r)) now"]
    obtain s' e' where s': "enqueue q (OutboxEntry_new ?k OUTBOX_SUBJECT_TASK_SUBMIT (render (recovery_payload r)) now) s = (s', Inr e')"
      "valid s'" "ready s'" "plane_ok subs q (contents s')"
      "\<forall>k. contents s' (''submission'', k) = contents s (''submission'', k)"
      "outbox_kept q (contents s) (contents s')" "document q (contents s') ?k \<noteq> None"
      by (auto simp: OutboxEntry_new_def)
    moreover have "document subs (contents s') = document subs (contents s)"
      using s'(5) subs_namespace by (auto simp: document_def fun_eq_iff)
    moreover have "recover_record render subs q now r summary s = (s', Inr (summary
        \<lparr>sv_requeued := sv_requeued summary + 1, sv_task_ids := sv_task_ids summary @ [sr_task_id r]\<rparr>))"
      using True False found(1) s'(1) by (cases found) (auto simp: defs)
    ultimately show ?thesis by auto
  qed
qed

lemma recover_records_total:
  assumes "valid s" "ready s" "plane_ok subs q (contents s)"
    and "\<forall>(r, _) \<in> set rs. document subs (contents s) (sr_submission_id r) \<noteq> None"
  shows "\<exists>s' summary'. recover_records render subs q now rs summary s = (s', Inr summary') \<and> valid s' \<and> ready s' \<and>
    plane_ok subs q (contents s') \<and> outbox_kept q (contents s) (contents s') \<and>
    (\<forall>k. map_option (sr_task_id \<circ> fst) (document subs (contents s') k) =
      map_option (sr_task_id \<circ> fst) (document subs (contents s) k)) \<and>
    (\<forall>(r, _) \<in> set rs. sr_state r \<in> {Received, Published} \<longrightarrow>
      document q (contents s') (outbox_key (sr_submission_id r)) \<noteq> None)"
  using assms
proof (induction rs arbitrary: s summary)
  case Nil
  then show ?case by (auto simp: outbox_kept_def)
next
  case (Cons x rs)
  obtain r v where x: "x = (r, v)" by fastforce
  have "document subs (contents s) (sr_submission_id r) \<noteq> None" using Cons.prems(4) x by simp
  from recover_record_total[OF Cons.prems(1-3) this, of render now summary] obtain s1 sum1 where
    s1: "recover_record render subs q now r summary s = (s1, Inr sum1)" "valid s1" "ready s1"
      "plane_ok subs q (contents s1)" "outbox_kept q (contents s) (contents s1)"
      "\<forall>k. map_option (sr_task_id \<circ> fst) (document subs (contents s1) k) =
        map_option (sr_task_id \<circ> fst) (document subs (contents s) k)"
      "sr_state r \<in> {Received, Published} \<longrightarrow> document q (contents s1) (outbox_key (sr_submission_id r)) \<noteq> None"
    by blast
  have "document subs (contents s1) k = None \<longleftrightarrow> document subs (contents s) k = None" for k
    using s1(6)[rule_format, of k] by (metis map_option_is_None)
  then have "\<forall>(r, _) \<in> set rs. document subs (contents s1) (sr_submission_id r) \<noteq> None"
    using Cons.prems(4) by auto
  from Cons.IH[OF s1(2-4) this, of sum1] obtain s' sum' where
    s': "recover_records render subs q now rs sum1 s1 = (s', Inr sum')" "valid s'" "ready s'"
      "plane_ok subs q (contents s')" "outbox_kept q (contents s1) (contents s')"
      "\<forall>k. map_option (sr_task_id \<circ> fst) (document subs (contents s') k) =
        map_option (sr_task_id \<circ> fst) (document subs (contents s1) k)"
      "\<forall>(r, _) \<in> set rs. sr_state r \<in> {Received, Published} \<longrightarrow>
        document q (contents s') (outbox_key (sr_submission_id r)) \<noteq> None"
    by blast
  have "sr_state r \<in> {Received, Published} \<longrightarrow> document q (contents s') (outbox_key (sr_submission_id r)) \<noteq> None"
    using s1(7) s'(5) unfolding outbox_kept_def by (metis option.exhaust)
  moreover have "outbox_kept q (contents s) (contents s')"
    using s1(5) s'(5) by (simp add: outbox_kept_def)
  ultimately show ?case using s1 s' by (simp add: x comp_def)
qed

lemma recover_unfinished_total:
  assumes "valid s" "ready s" "plane_ok subs q (contents s)"
    and all: "card {k. contents s (''submission'', k) \<noteq> None} \<le> limit"
  shows "\<exists>s' summary. recover_unfinished render subs q now limit s = (s', Inr summary) \<and>
    outbox_kept q (contents s) (contents s') \<and>
    (\<forall>k. map_option (sr_task_id \<circ> fst) (document subs (contents s') k) =
      map_option (sr_task_id \<circ> fst) (document subs (contents s) k)) \<and>
    (\<forall>k r v. document subs (contents s) k = Some (r, v) \<and> sr_state r \<in> {Received, Published} \<longrightarrow>
      document q (contents s') (outbox_key k) \<noteq> None)"
proof -
  let ?f = "\<lambda>r. (projr (ns_from_value subs (rec_value r)), rec_version r)"
  have ok: "\<forall>k r. contents s (ns_namespace subs, k) = Some r \<longrightarrow> is_ok (ns_from_value subs (rec_value r))"
    using assms(3) subs_namespace by (fastforce simp: plane_ok_def is_ok_iff)
  obtain L where L: "view_list subs limit s = (s, Inr (take limit (map ?f L)))"
    "sorted (map rec_key L)" "distinct (map rec_key L)"
    "set L = {r. \<exists>k. contents s (ns_namespace subs, k) = Some r}"
    by (rule view_list_ready[OF subs_store assms(1,2) ok])
  have key: "rec_key r = k" if "contents s (ns_namespace subs, k) = Some r" for k r
    using stored[OF assms(1) that] by simp
  have "rec_key ` set L = {k. contents s (''submission'', k) \<noteq> None}"
    using L(4) key subs_namespace by force
  then have "length L \<le> limit" using all L(3) by (metis distinct_card length_map set_map)
  then have L1: "view_list subs limit s = (s, Inr (map ?f L))" using L(1) by simp
  have docs: "document subs (contents s) k = Some (?f r) \<and> sr_submission_id (fst (?f r)) = k"
    if "contents s (ns_namespace subs, k) = Some r" for k r
    using plane_okD(1)[OF assms(3), of k r] that subs_namespace by (auto simp: document_def)
  then have "\<forall>(r, _) \<in> set (map ?f L). document subs (contents s) (sr_submission_id r) \<noteq> None"
    using L(4) by auto
  from recover_records_total[OF assms(1-3) this, of render now] obtain s' summary where
    s': "recover_unfinished render subs q now limit s = (s', Inr summary)"
      "outbox_kept q (contents s) (contents s')"
      "\<forall>k. map_option (sr_task_id \<circ> fst) (document subs (contents s') k) =
        map_option (sr_task_id \<circ> fst) (document subs (contents s) k)"
      "\<forall>(r, _) \<in> set (map ?f L). sr_state r \<in> {Received, Published} \<longrightarrow>
        document q (contents s') (outbox_key (sr_submission_id r)) \<noteq> None"
    using L1 unfolding recover_unfinished_def by fastforce
  have "document q (contents s') (outbox_key k) \<noteq> None"
    if doc: "document subs (contents s) k = Some (r, v)" "sr_state r \<in> {Received, Published}" for k r v
  proof -
    obtain x where x: "contents s (ns_namespace subs, k) = Some x" using doc(1) by (rule document_SomeE)
    then have "?f x \<in> set (map ?f L)" "?f x = (r, v)" "sr_submission_id r = k"
      using L(4) docs[OF x] doc(1) by auto
    with s'(4) doc(2) show ?thesis by auto
  qed
  with s'(1-3) show ?thesis by blast
qed

end

section \<open>Submit once\<close>

text \<open>
  C3. Exactly one record per submission id. On a store that answers: an unknown id is recorded with the
  derived task id and its publication is queued; a known id with the same content digest returns the
  recorded submission, which is not changed, and its publication is queued; a known id with another
  digest is reported as a conflict and nothing changes. Queued entries are never altered.
\<close>

theorem submit_once_outcome:
  assumes plane: "submit_plane store contents ready valid q subs"
    and s: "valid s" "ready s" "plane_ok subs q (contents s)"
  shows "\<exists>s'. outbox_kept q (contents s) (contents s') \<and>
    (case document subs (contents s) (sq_submission_id request) of
       None \<Rightarrow>
         submit_once sha render subs request q now s = (s', Inr (Created (SubmissionRecord_new sha request now))) \<and>
         document subs (contents s') (sq_submission_id request) = Some (SubmissionRecord_new sha request now, 1) \<and>
         document q (contents s') (outbox_key (sq_submission_id request)) \<noteq> None
     | Some (old, v) \<Rightarrow>
         document subs (contents s') = document subs (contents s) \<and>
         (if sr_request_digest old = SubmissionRequest_digest sha request
          then submit_once sha render subs request q now s = (s', Inr (Replayed old)) \<and>
            document q (contents s') (outbox_key (sq_submission_id request)) \<noteq> None
          else submit_once sha render subs request q now s = (s, Inr (Conflicting (sq_submission_id request)
            (sr_request_digest old) (SubmissionRequest_digest sha request))) \<and> s' = s))"
proof (cases "document subs (contents s) (sq_submission_id request)")
  case None
  have "contents s (''submission'', sq_submission_id request) = None"
    using None plane_okD(1)[OF s(3)] submit_plane.subs_namespace[OF plane]
    by (fastforce simp: document_def split: option.splits)
  from submit_plane.submit_once_new[OF plane, OF s this] None show ?thesis by fastforce
next
  case (Some d)
  obtain old v where d: "d = (old, v)" by fastforce
  have kept: "outbox_kept q m m" for m by (simp add: outbox_kept_def)
  have docs: "document subs m' = document subs m" if "\<forall>k. m' (''submission'', k) = m (''submission'', k)" for m m'
    using that submit_plane.subs_namespace[OF plane] by (auto simp: document_def fun_eq_iff)
  from submit_plane.submit_once_again[OF plane, OF s Some[unfolded d], of sha render now] Some d kept docs
  show ?thesis by (auto split: if_splits)
qed

text \<open>
  A retry cannot create a second task: after a submission was created or replayed, submitting it
  again at any later time changes nothing and returns the same record.
\<close>

lemma submit_once_retry:
  assumes plane: "submit_plane store contents ready valid q subs"
    and s: "valid s" "ready s" "plane_ok subs q (contents s)"
    and first: "submit_once sha render subs request q now s = (s', Inr outcome)"
      "SubmitOnceOutcome_record outcome = Some r"
  shows "submit_once sha render subs request q later s' = (s', Inr (Replayed r))"
proof (rule submit_plane.submit_once_recorded[OF plane, OF s first])
  fix v
  assume "valid s'" "ready s'" "plane_ok subs q (contents s')"
    "sr_request_digest r = SubmissionRequest_digest sha request" "document subs (contents s') (sq_submission_id request) = Some (r, v)"
    "document q (contents s') (outbox_key (sq_submission_id request)) \<noteq> None"
  with submit_plane.submit_once_again[OF plane, of s' request r v sha render later] show ?thesis by auto
qed

text \<open>
  Recovery loses no submission and creates no second task: after the startup sweep over all records,
  every submission that was received or published has a queued publication, entries that were
  queued are unchanged, and each submission keeps its task id.
\<close>

lemma recover_unfinished_requeues:
  assumes "submit_plane store contents ready valid q subs" "valid s" "ready s" "plane_ok subs q (contents s)"
    and "card {k. contents s (''submission'', k) \<noteq> None} \<le> limit"
  shows "\<exists>s' summary. recover_unfinished render subs q now limit s = (s', Inr summary) \<and>
    outbox_kept q (contents s) (contents s') \<and>
    (\<forall>k. map_option (sr_task_id \<circ> fst) (document subs (contents s') k) =
      map_option (sr_task_id \<circ> fst) (document subs (contents s) k)) \<and>
    (\<forall>k r v. document subs (contents s) k = Some (r, v) \<and> sr_state r \<in> {Received, Published} \<longrightarrow>
      document q (contents s') (outbox_key k) \<noteq> None)"
  using submit_plane.recover_unfinished_total[OF assms(1), OF assms(2-5)] .

text \<open>
  The publication key of a submission id names that id again, for every non-blank id a caller supplies.
\<close>

lemma outbox_key_roundtrip:
  "submission_id_from_outbox_key (outbox_key (SubmissionId_caller_supplied key)) =
     (if SubmissionId_is_empty key then None else Some (SubmissionId_caller_supplied key))"
proof -
  have "strip_prefix submission_outbox_prefix (outbox_key i) = Some i" for i
    by (simp add: strip_prefix_Some_iff submission_outbox_prefix_def outbox_key_def)
  then show ?thesis
    by (simp add: submission_id_from_outbox_key_def SubmissionId_is_empty_def SubmissionId_caller_supplied_def trim_idem)
qed

section \<open>The in-memory plane\<close>

text \<open>The contract is met by the in-memory store with a faithful conversion of the two documents.\<close>

definition plane_subs ::
  "((SubmissionRecord + OutboxEntry) InMemoryRecordStore, SubmissionRecord + OutboxEntry) SubmissionStore" where
  "plane_subs = SubmissionStore_new in_memory_store
     (\<lambda>v. case v of Inl r \<Rightarrow> Inr r | Inr _ \<Rightarrow> Inl ''not a submission'') (\<lambda>r. Inr (Inl r))"

definition plane_outbox ::
  "((SubmissionRecord + OutboxEntry) InMemoryRecordStore, SubmissionRecord + OutboxEntry) OutboxQueue" where
  "plane_outbox = OutboxQueue_new in_memory_store
     (\<lambda>v. case v of Inr e \<Rightarrow> Inr e | Inl _ \<Rightarrow> Inl ''not an outbox entry'') (\<lambda>e. Inr (Inr e))"

interpretation mem_plane: submit_plane in_memory_store mem_contents mem_ready mem_valid plane_outbox plane_subs
  by unfold_locales
    (simp_all add: plane_subs_def plane_outbox_def SubmissionStore_new_def OutboxQueue_new_def serde_ok_def)

lemma empty_plane:
  "mem_valid (mem_new t)" "mem_ready (mem_new t)" "plane_ok subs q (mem_contents (mem_new t))"
  by (simp_all add: mem_defs mem_new_def rows_ok_def plane_ok_def)

definition sample_request :: SubmissionRequest where
  "sample_request = SubmissionRequest_new id (Principal_new PrincipalKind.User ''alice'') ''proj'' ''fix the build''
     (Some ''sub-1'')"

theorem submit_once_outcome_witness:
  "\<exists>s'. submit_once id (\<lambda>_. ''{}'') plane_subs sample_request plane_outbox 5 (mem_new 0) =
      (s', Inr (Created (SubmissionRecord_new id sample_request 5))) \<and>
    document plane_outbox (mem_contents s') ''task-submit:sub-1'' \<noteq> None"
proof -
  have "document plane_subs (mem_contents (mem_new 0)) (sq_submission_id sample_request) = None"
    by (simp add: document_def mem_contents_def mem_new_def)
  moreover have "outbox_key (sq_submission_id sample_request) = ''task-submit:sub-1''" by code_simp
  ultimately show ?thesis
    using submit_once_outcome[OF mem_plane.submit_plane_axioms, OF empty_plane[where t = 0],
        where request = sample_request and sha = id and render = "\<lambda>_. ''{}''" and now = 5] by auto
qed

lemma recovery_drops_description:
  "''description'' \<in> fst ` set (publication_payload r request) \<and> ''description'' \<notin> fst ` set (recovery_payload r)"
  by (simp add: publication_payload_def recovery_payload_def)

end
