(* ===== verification/Case_Store.thy ===== *)
theory Case_Store
  imports Gov_WorkCase Gov_Mandate Record_Store
begin

text \<open>
  Durable cases and mandates (\<open>crates/uc-engine/src/governance/case_store.rs\<close>), each a typed view of the
  record store. The ids that \<open>open_run\<close> and the mandate constructors draw are arguments; an id that
  is drawn again on each attempt of a loop is the one of the attempt that writes.
\<close>

section \<open>Cases\<close>

datatype CaseStoreError =
    Store RecordError
  | NotFound string
  | Transition CaseTransitionError
  | Contended string

fun CaseStoreError_display :: "CaseStoreError \<Rightarrow> string" where
  "CaseStoreError_display (CaseStoreError.Store error) = ''case store: '' @ RecordError_display error"
| "CaseStoreError_display (CaseStoreError.NotFound case_id) = ''case '' @ case_id @ '' not found''"
| "CaseStoreError_display (CaseStoreError.Transition error) =
     ''case transition rejected: '' @ CaseTransitionError_display error"
| "CaseStoreError_display (CaseStoreError.Contended case_id) =
     ''case '' @ case_id @ '' is contended; retry later''"

type_synonym ('s, 'v, 'j) CaseStore = "('s, 'v, 'j WorkCase) NamespacedStore"

definition CaseStore_new ::
  "('s, 'v) RecordStore \<Rightarrow> ('v \<Rightarrow> (string, 'j WorkCase) result) \<Rightarrow> ('j WorkCase \<Rightarrow> (string, 'v) result) \<Rightarrow>
     ('s, 'v, 'j) CaseStore" where
  "CaseStore_new records from_value to_value =
     \<lparr>ns_store = records, ns_namespace = ''work_case'', ns_from_value = from_value, ns_to_value = to_value\<rparr>"

definition case_get ::
  "('s, 'v, 'j) CaseStore \<Rightarrow> string \<Rightarrow> 's \<Rightarrow> 's \<times> (CaseStoreError, ('j WorkCase \<times> nat) option) result" where
  "case_get cases case_id s = (case view_get cases case_id s of
     (s, Inl e) \<Rightarrow> (s, Inl (CaseStoreError.Store e)) | (s, Inr found) \<Rightarrow> (s, Inr found))"

definition case_list ::
  "('s, 'v, 'j) CaseStore \<Rightarrow> nat \<Rightarrow> 's \<Rightarrow> 's \<times> (CaseStoreError, ('j WorkCase \<times> nat) list) result" where
  "case_list cases limit s = (case view_list cases limit s of
     (s, Inl e) \<Rightarrow> (s, Inl (CaseStoreError.Store e)) | (s, Inr found) \<Rightarrow> (s, Inr found))"

definition create_unique ::
  "('s, 'v, 'j) CaseStore \<Rightarrow> 'j WorkCase \<Rightarrow> 's \<Rightarrow> 's \<times> (CaseStoreError, 'j WorkCase \<times> bool) result" where
  "create_unique cases c s =
     (let c = c\<lparr>wc_version := 1\<rparr> in
      case view_put cases (wc_id c) c (Some 0) s of
        (s, Inr _) \<Rightarrow> (s, Inr (c, False))
      | (s, Inl (Conflict _ _)) \<Rightarrow>
          (case case_get cases (wc_id c) s of
             (s, Inl e) \<Rightarrow> (s, Inl e)
           | (s, Inr (Some (existing, _))) \<Rightarrow> (s, Inr (existing, True))
           | (s, Inr None) \<Rightarrow> (s, Inl (CaseStoreError.Store (Conflict 0 None))))
      | (s, Inl other) \<Rightarrow> (s, Inl (CaseStoreError.Store other)))"

definition find_by_thread ::
  "('s, 'v, 'j) CaseStore \<Rightarrow> string \<Rightarrow> nat \<Rightarrow> 's \<Rightarrow> 's \<times> (CaseStoreError, 'j WorkCase option) result" where
  "find_by_thread cases thread_key limit s = (case view_list cases limit s of
     (s, Inl e) \<Rightarrow> (s, Inl (CaseStoreError.Store e))
   | (s, Inr found) \<Rightarrow>
       (s, Inr (find (\<lambda>c. co_thread_key (wc_origin c) = Some thread_key) (map fst found))))"

definition case_update_step ::
  "('j WorkCase \<Rightarrow> 'j WorkCase \<times> (CaseTransitionError, 't) result) \<Rightarrow> 'j WorkCase \<Rightarrow> nat \<Rightarrow>
     ('j WorkCase, (CaseStoreError, 'j WorkCase \<times> 't) result) cas_step" where
  "case_update_step mutate c version = (case mutate c of
     (_, Inl e) \<Rightarrow> Return (Inl (CaseStoreError.Transition e))
   | (c, Inr outcome) \<Rightarrow> let c = c\<lparr>wc_version := version + 1\<rparr> in Write c (Inr (c, outcome)))"

definition case_update ::
  "('s, 'v, 'j) CaseStore \<Rightarrow> string \<Rightarrow> ('j WorkCase \<Rightarrow> 'j WorkCase \<times> (CaseTransitionError, 't) result) \<Rightarrow> 's \<Rightarrow>
     's \<times> (CaseStoreError, 'j WorkCase \<times> 't) result" where
  "case_update cases case_id mutate s =
     cas_loop cases case_id (case_update_step mutate) (Inl (CaseStoreError.NotFound case_id))
       (\<lambda>e. Inl (CaseStoreError.Store e)) (Inl (CaseStoreError.Contended case_id)) 16 s"

definition case_transition ::
  "('s, 'v, 'j) CaseStore \<Rightarrow> string \<Rightarrow> CaseStatus \<Rightarrow> datetime \<Rightarrow> 's \<Rightarrow> 's \<times> (CaseStoreError, 'j WorkCase) result" where
  "case_transition cases case_id status now s =
     map_prod id (map_sum id fst) (case_update cases case_id (transition status now) s)"

definition promote_and_open ::
  "string \<Rightarrow> string \<Rightarrow> string option \<Rightarrow> datetime \<Rightarrow> 'j WorkCase \<Rightarrow> 'j WorkCase \<times> (CaseTransitionError, unit) result" where
  "promote_and_open fresh_id task_id submission_id now c =
     (let opened = (\<lambda>c. map_prod id (map_sum id (\<lambda>_. ())) (open_run fresh_id task_id submission_id now c)) in
      if wc_status c = CaseStatus.Open
      then (case transition CaseStatus.Active now c of
              (c, Inl e) \<Rightarrow> (c, Inl e) | (c, Inr _) \<Rightarrow> opened c)
      else opened c)"

definition case_open_run ::
  "('s, 'v, 'j) CaseStore \<Rightarrow> string \<Rightarrow> string \<Rightarrow> string \<Rightarrow> string option \<Rightarrow> datetime \<Rightarrow> 's \<Rightarrow>
     's \<times> (CaseStoreError, 'j WorkCase) result" where
  "case_open_run cases fresh_id case_id task_id submission_id now s =
     map_prod id (map_sum id fst) (case_update cases case_id (promote_and_open fresh_id task_id submission_id now) s)"

definition finish_by_id ::
  "string \<Rightarrow> CaseRunOutcome \<Rightarrow> string option \<Rightarrow> datetime \<Rightarrow> 'j WorkCase \<Rightarrow> 'j WorkCase \<times> (CaseTransitionError, unit) result" where
  "finish_by_id run_id outcome detail now c =
     (case find (\<lambda>r. r_run_id r = run_id) (wc_runs c) of
        None \<Rightarrow> (c, Inl UnknownRun)
      | Some r \<Rightarrow> finish_run (r_run_id r) outcome detail now c)"

definition case_finish_run ::
  "('s, 'v, 'j) CaseStore \<Rightarrow> string \<Rightarrow> string \<Rightarrow> CaseRunOutcome \<Rightarrow> string option \<Rightarrow> datetime \<Rightarrow> 's \<Rightarrow>
     's \<times> (CaseStoreError, 'j WorkCase) result" where
  "case_finish_run cases case_id run_id outcome detail now s =
     map_prod id (map_sum id fst) (case_update cases case_id (finish_by_id run_id outcome detail now) s)"

definition case_delete :: "('s, 'v, 'j) CaseStore \<Rightarrow> string \<Rightarrow> 's \<Rightarrow> 's \<times> (CaseStoreError, bool) result" where
  "case_delete cases case_id s = map_prod id (map_sum CaseStoreError.Store id) (view_delete cases case_id s)"

fun count_status :: "CaseStatus \<Rightarrow> (CaseStatus \<times> nat) list \<Rightarrow> (CaseStatus \<times> nat) list" where
  "count_status status [] = [(status, 1)]"
| "count_status status ((s, n) # counts) =
     (if s = status then (s, n + 1) # counts else (s, n) # count_status status counts)"

definition status_counts ::
  "('s, 'v, 'j) CaseStore \<Rightarrow> nat \<Rightarrow> 's \<Rightarrow> 's \<times> (CaseStoreError, (CaseStatus \<times> nat) list) result" where
  "status_counts cases limit s = (case view_list cases limit s of
     (s, Inl e) \<Rightarrow> (s, Inl (CaseStoreError.Store e))
   | (s, Inr found) \<Rightarrow> (s, Inr (foldl (\<lambda>counts (c, _). count_status (wc_status c) counts) [] found)))"

section \<open>Mandates\<close>

datatype MandateStoreError = Store RecordError | NotFound string | Contended string

fun MandateStoreError_display :: "MandateStoreError \<Rightarrow> string" where
  "MandateStoreError_display (MandateStoreError.Store error) = ''mandate store: '' @ RecordError_display error"
| "MandateStoreError_display (MandateStoreError.NotFound mandate_id) = ''mandate '' @ mandate_id @ '' not found''"
| "MandateStoreError_display (MandateStoreError.Contended mandate_id) =
     ''mandate '' @ mandate_id @ '' is contended; retry later''"

type_synonym ('s, 'v) MandateStore = "('s, 'v, Mandate) NamespacedStore"

definition MandateStore_new ::
  "('s, 'v) RecordStore \<Rightarrow> ('v \<Rightarrow> (string, Mandate) result) \<Rightarrow> (Mandate \<Rightarrow> (string, 'v) result) \<Rightarrow>
     ('s, 'v) MandateStore" where
  "MandateStore_new records from_value to_value =
     \<lparr>ns_store = records, ns_namespace = ''mandate'', ns_from_value = from_value, ns_to_value = to_value\<rparr>"

definition put_new :: "('s, 'v) MandateStore \<Rightarrow> Mandate \<Rightarrow> 's \<Rightarrow> 's \<times> (MandateStoreError, unit) result" where
  "put_new mandates m s =
     map_prod id (map_sum MandateStoreError.Store (\<lambda>_. ())) (view_put mandates (m_id m) m (Some 0) s)"

definition mandate_get ::
  "('s, 'v) MandateStore \<Rightarrow> string \<Rightarrow> 's \<Rightarrow> 's \<times> (MandateStoreError, (Mandate \<times> nat) option) result" where
  "mandate_get mandates mandate_id s = map_prod id (map_sum MandateStoreError.Store id) (view_get mandates mandate_id s)"

definition mandate_list ::
  "('s, 'v) MandateStore \<Rightarrow> nat \<Rightarrow> 's \<Rightarrow> 's \<times> (MandateStoreError, (Mandate \<times> nat) list) result" where
  "mandate_list mandates limit s = map_prod id (map_sum MandateStoreError.Store id) (view_list mandates limit s)"

text \<open>\<open>Iterator::max_by_key\<close>: the last of the maximal elements.\<close>

fun max_by_key :: "('a \<Rightarrow> 'b::linorder) \<Rightarrow> 'a list \<Rightarrow> 'a option" where
  "max_by_key f [] = None"
| "max_by_key f (x # xs) = (case max_by_key f xs of
     None \<Rightarrow> Some x | Some y \<Rightarrow> if f y < f x then Some x else Some y)"

definition latest_for_case ::
  "('s, 'v) MandateStore \<Rightarrow> string \<Rightarrow> nat \<Rightarrow> 's \<Rightarrow> 's \<times> (MandateStoreError, Mandate option) result" where
  "latest_for_case mandates case_id limit s = (case view_list mandates limit s of
     (s, Inl e) \<Rightarrow> (s, Inl (MandateStoreError.Store e))
   | (s, Inr found) \<Rightarrow>
       (s, Inr (max_by_key m_issued_at (filter (\<lambda>m. m_case_id m = case_id) (map fst found)))))"

definition mandate_revoke_step ::
  "Principal \<Rightarrow> string \<Rightarrow> datetime \<Rightarrow> Mandate \<Rightarrow> nat \<Rightarrow> (Mandate, (MandateStoreError, Mandate) result) cas_step" where
  "mandate_revoke_step who reason now m version =
     (if m_revoked m \<noteq> None then Return (Inr m)
      else Write (revoke m who reason now) (Inr (revoke m who reason now)))"

definition mandate_revoke ::
  "('s, 'v) MandateStore \<Rightarrow> string \<Rightarrow> Principal \<Rightarrow> string \<Rightarrow> datetime \<Rightarrow> 's \<Rightarrow> 's \<times> (MandateStoreError, Mandate) result" where
  "mandate_revoke mandates mandate_id who reason now s =
     cas_loop mandates mandate_id (mandate_revoke_step who reason now) (Inl (MandateStoreError.NotFound mandate_id))
       (\<lambda>e. Inl (MandateStoreError.Store e)) (Inl (MandateStoreError.Contended mandate_id)) 16 s"

definition human_mandate ::
  "string \<Rightarrow> string \<Rightarrow> Principal \<Rightarrow> MandateScope list \<Rightarrow> PolicyVersion \<Rightarrow> datetime \<Rightarrow> Mandate" where
  "human_mandate fresh_id case_id grantor scopes policy_version now =
     Mandate_new fresh_id case_id grantor HumanIssued scopes policy_version now"

definition revocation :: "Principal \<Rightarrow> string \<Rightarrow> datetime \<Rightarrow> MandateRevocation" where
  "revocation who reason t = \<lparr>rv_at = t, rv_by = who, rv_reason = reason\<rparr>"

section \<open>Updates under interference\<close>

lemma case_update_step_Write:
  "case_update_step mutate c v = Write c' res \<longleftrightarrow>
     (\<exists>d out. mutate c = (d, Inr out) \<and> c' = d\<lparr>wc_version := v + 1\<rparr> \<and> res = Inr (c', out))"
  by (auto simp: case_update_step_def Let_def split: prod.splits sum.splits)

lemma case_update_step_Return:
  "case_update_step mutate c v = Return res \<Longrightarrow> \<exists>e. res = Inl (CaseStoreError.Transition e)"
  by (auto simp: case_update_step_def Let_def split: prod.splits sum.splits)

context record_store
begin

lemma case_update_atomic:
  assumes "ns_store cases = store" "serde_ok cases" "tolerable contents valid env" "valid s"
    and "case_update (concurrent_view env cases) i mutate (s, n) = ((s', n'), res)"
  shows "\<exists>m. advances (contents s) m \<and>
    (case res of
       Inl _ \<Rightarrow> contents s' = m
     | Inr (c, out) \<Rightarrow> \<exists>old v d. document cases m i = Some (old, v) \<and> mutate old = (d, Inr out) \<and>
         c = d\<lparr>wc_version := v + 1\<rparr> \<and> document cases (contents s') i = Some (c, v + 1) \<and>
         (\<forall>p. p \<noteq> (ns_namespace cases, i) \<longrightarrow> contents s' p = m p))"
proof -
  let ?absent = "Inl (CaseStoreError.NotFound i)" and ?failed = "\<lambda>e. Inl (CaseStoreError.Store e)"
    and ?exhausted = "Inl (CaseStoreError.Contended i)"
  obtain m where m: "advances (contents s) m"
    and alt: "m = contents s' \<and> cas_unwritten cases i (case_update_step mutate) ?absent ?failed ?exhausted m res \<or>
      cas_wrote cases i (case_update_step mutate) res m (contents s')"
    using cas_loop_linearizable[OF assms(1,3,4) assms(5)[unfolded case_update_def]] by blast
  from alt show ?thesis
  proof
    assume "m = contents s' \<and> cas_unwritten cases i (case_update_step mutate) ?absent ?failed ?exhausted m res"
    moreover from this have "\<exists>e. res = Inl e"
      unfolding cas_unwritten_def using case_update_step_Return[of mutate] by blast
    ultimately show ?thesis using m by auto
  next
    assume "cas_wrote cases i (case_update_step mutate) res m (contents s')"
    then obtain r r' old c out d where w: "m (ns_namespace cases, i) = Some r" "ns_from_value cases (rec_value r) = Inr old"
      "mutate old = (d, Inr out)" "c = d\<lparr>wc_version := rec_version r + 1\<rparr>" "res = Inr (c, out)"
      "ns_to_value cases c = Inr (rec_value r')" "rec_version r' = rec_version r + 1"
      "contents s' = m((ns_namespace cases, i) \<mapsto> r')"
      unfolding cas_wrote_def case_update_step_Write by blast
    moreover have "ns_from_value cases (rec_value r') = Inr c"
      using w(6) assms(2) by (metis serde_okE sum.inject(2))
    ultimately show ?thesis using m
      by (intro exI[of _ m]) (simp add: document_def)
  qed
qed

end

lemma map_prod_Inr_fst: "map_prod id (map_sum id fst) x = (s, Inr c) \<Longrightarrow> \<exists>out. x = (s, Inr (c, out))"
  by (cases x; cases "snd x") auto

lemma map_prod_Inl: "map_prod id (map_sum id fst) x = (s, Inl e) \<Longrightarrow> x = (s, Inl e)"
  by (cases x; cases "snd x") auto

text \<open>
  A status change is never lost and never reverts another one: when a transition of a stored case
  succeeds, whatever other tasks wrote in between, the stored case it replaced could make that
  transition, and everything else of that case is kept.
\<close>

lemma case_transition_linearizable:
  assumes rs: "record_store store contents ready valid" and view: "ns_store cases = store" "serde_ok cases"
    and env: "tolerable contents valid env" and "valid s"
    and "case_transition (concurrent_view env cases) i status now (s, 0) = ((s', n'), Inr c)"
  shows "\<exists>m old v. advances (contents s) m \<and> document cases m i = Some (old, v) \<and>
    can_transition_to (wc_status old) status \<and>
    c = old\<lparr>wc_status := status, wc_updated_at := now, wc_version := v + 1\<rparr> \<and>
    document cases (contents s') i = Some (c, v + 1)"
proof -
  obtain out where "case_update (concurrent_view env cases) i (transition status now) (s, 0) = ((s', n'), Inr (c, out))"
    using map_prod_Inr_fst[OF assms(6)[unfolded case_transition_def]] by blast
  from record_store.case_update_atomic[OF rs, OF view env assms(5) this] obtain m old v d where
    w: "advances (contents s) m" "document cases m i = Some (old, v)" "transition status now old = (d, Inr out)"
      "c = d\<lparr>wc_version := v + 1\<rparr>" "document cases (contents s') i = Some (c, v + 1)" by auto
  from w(3) have "can_transition_to (wc_status old) status" "d = old\<lparr>wc_status := status, wc_updated_at := now\<rparr>"
    by (auto simp: transition_def split: if_splits)
  with w show ?thesis by auto
qed

text \<open>
  A case is reported as contended only if others made progress: its version grew by at least sixteen.
\<close>

lemma case_contended_progress:
  assumes rs: "record_store store contents ready valid" and "ns_store cases = store"
    and "tolerable contents valid env" "valid s" "contents s (ns_namespace cases, i) = Some r"
    and "case_update (concurrent_view env cases) i mutate (s, 0) = ((s', n'), Inl (CaseStoreError.Contended i))"
  shows "\<exists>r'. contents s' (ns_namespace cases, i) = Some r' \<and> rec_version r + 16 \<le> rec_version r'"
  using record_store.cas_loop_exhausted[OF rs, OF assms(2,3) _ _ _ _ assms(4,5) assms(6)[unfolded case_update_def]]
  by (auto simp: case_update_step_Write dest: case_update_step_Return)

section \<open>Creation\<close>

text \<open>
  Creating a case under an id that exists returns the stored case and changes nothing; otherwise the
  case is stored with version one.
\<close>

lemma create_unique_dedups:
  assumes rs: "record_store store contents ready valid" and view: "ns_store cases = store" "serde_ok cases"
    and s: "valid s" "ready s"
    and decodable: "\<And>r. contents s (ns_namespace cases, wc_id c) = Some r \<Longrightarrow> is_ok (ns_from_value cases (rec_value r))"
  shows "\<exists>s'. case document cases (contents s) (wc_id c) of
      None \<Rightarrow> create_unique cases c s = (s', Inr (c\<lparr>wc_version := 1\<rparr>, False)) \<and>
        document cases (contents s') (wc_id c) = Some (c\<lparr>wc_version := 1\<rparr>, 1)
    | Some (existing, _) \<Rightarrow> create_unique cases c s = (s, Inr (existing, True)) \<and> s' = s"
proof (cases "contents s (ns_namespace cases, wc_id c)")
  case None
  obtain s' r where "view_put cases (wc_id c) (c\<lparr>wc_version := 1\<rparr>) (Some 0) s = (s', Inr r)"
    "contents s' = (contents s)((ns_namespace cases, wc_id c) \<mapsto> r)"
    "ns_from_value cases (rec_value r) = Inr (c\<lparr>wc_version := 1\<rparr>)" "rec_version r = 1"
    using record_store.view_create[OF rs, OF view s None, of "c\<lparr>wc_version := 1\<rparr>"] by blast
  with None show ?thesis by (intro exI[of _ s']) (simp add: create_unique_def document_def)
next
  case (Some r)
  then obtain existing where d: "ns_from_value cases (rec_value r) = Inr existing"
    using decodable[OF Some] by (auto simp: is_ok_iff)
  have "create_unique cases c s = (s, Inr (existing, True))"
    using record_store.view_create_exists[OF rs, OF view s Some, of "c\<lparr>wc_version := 1\<rparr>"]
      record_store.view_get_found[OF rs, OF view(1) s(2) Some d]
    by (simp add: create_unique_def case_get_def)
  with Some d show ?thesis by (intro exI[of _ s]) (simp add: document_def)
qed

section \<open>Revocation\<close>

text \<open>
  A successful revocation returns a revoked mandate: either it was revoked already and nothing was
  written, or the stored mandate, not revoked before, is replaced by its revoked self.
\<close>

lemma mandate_revoke_sticks:
  assumes rs: "record_store store contents ready valid" and view: "ns_store mandates = store" "serde_ok mandates"
    and env: "tolerable contents valid env" and "valid s"
    and res: "mandate_revoke (concurrent_view env mandates) i who reason now (s, 0) = ((s', n'), Inr m')"
  shows "is_revoked m' \<and> (\<exists>m old v. advances (contents s) m \<and>
    (contents s' = m \<or> document mandates m i = Some (old, v) \<and> \<not> is_revoked old \<and> m' = revoke old who reason now \<and>
       document mandates (contents s') i = Some (m', v + 1)))"
proof -
  let ?absent = "Inl (MandateStoreError.NotFound i)" and ?failed = "\<lambda>e. Inl (MandateStoreError.Store e)"
    and ?exhausted = "Inl (MandateStoreError.Contended i)" and ?step = "mandate_revoke_step who reason now"
  obtain m where m: "advances (contents s) m"
    and alt: "m = contents s' \<and> cas_unwritten mandates i ?step ?absent ?failed ?exhausted m (Inr m') \<or>
      cas_wrote mandates i ?step (Inr m') m (contents s')"
    using record_store.cas_loop_linearizable[OF rs, OF view(1) env assms(5) res[unfolded mandate_revoke_def]] by blast
  from alt show ?thesis
  proof
    assume "m = contents s' \<and> cas_unwritten mandates i ?step ?absent ?failed ?exhausted m (Inr m')"
    moreover from this have "is_revoked m'"
      by (auto simp: cas_unwritten_def mandate_revoke_step_def is_revoked_def split: if_splits)
    ultimately show ?thesis using m by blast
  next
    assume "cas_wrote mandates i ?step (Inr m') m (contents s')"
    then obtain r r' old where w: "m (ns_namespace mandates, i) = Some r" "ns_from_value mandates (rec_value r) = Inr old"
      "\<not> is_revoked old" "m' = revoke old who reason now" "ns_to_value mandates m' = Inr (rec_value r')"
      "rec_version r' = rec_version r + 1" "contents s' = m((ns_namespace mandates, i) \<mapsto> r')"
      by (auto simp: cas_wrote_def mandate_revoke_step_def is_revoked_def split: if_splits)
    moreover have "ns_from_value mandates (rec_value r') = Inr m'"
      using w(5) view(2) by (metis serde_okE sum.inject(2))
    moreover have "is_revoked m'" by (simp add: w(4) revoke_def is_revoked_def)
    ultimately show ?thesis using m
      by (intro conjI exI[of _ m] exI[of _ old] exI[of _ "rec_version r"]) (auto simp: document_def)
  qed
qed

end
