(* ===== verification/Gov_Approval.thy ===== *)
theory Gov_Approval
  imports Gov_Policy Record_Store
begin

text \<open>
  Human approvals of single tool calls: the approval document and its decisions
  (\<open>crates/uc-types/src/governance/approval.rs\<close>) and the durable store of approvals
  (\<open>crates/uc-engine/src/governance/approvals.rs\<close>). The digest is an argument of \<open>approval_id\<close>.
\<close>

section \<open>The document\<close>

definition APPROVAL_TTL_MINUTES :: int where "APPROVAL_TTL_MINUTES = 15"
definition MAX_APPROVAL_TTL_MINUTES :: int where "MAX_APPROVAL_TTL_MINUTES = 24 * 60"

datatype ApprovalState = Pending | Approved | Rejected | Expired | Used

fun ApprovalState_as_str :: "ApprovalState \<Rightarrow> string" where
  "ApprovalState_as_str ApprovalState.Pending = ''pending''"
| "ApprovalState_as_str Approved = ''approved''"
| "ApprovalState_as_str Rejected = ''rejected''"
| "ApprovalState_as_str ApprovalState.Expired = ''expired''"
| "ApprovalState_as_str Used = ''used''"

definition ApprovalState_is_terminal :: "ApprovalState \<Rightarrow> bool" where
  "ApprovalState_is_terminal st = (st \<in> {Rejected, ApprovalState.Expired, Used})"

record ApprovalRequest =
  aq_tool :: string
  aq_case_id :: "string option"
  aq_project_id :: "string option"
  aq_action_digest :: "string option"
  aq_requested_by :: Principal
  aq_reason :: "string option"

record ToolApproval =
  ta_id :: string
  ta_request :: ApprovalRequest
  ta_state :: ApprovalState
  ta_requested_at :: datetime
  ta_expires_at :: datetime
  ta_decided_at :: "datetime option"
  ta_decided_by :: "Principal option"
  ta_note :: "string option"
  ta_used_at :: "datetime option"

datatype ApprovalError =
    NotPending ApprovalState
  | NotAHumanDecision PrincipalKind
  | SelfDecision
  | Expired datetime
  | NotUsable ApprovalState

definition unwrap_or_empty :: "string option \<Rightarrow> string" where
  "unwrap_or_empty x = (case x of Some s \<Rightarrow> s | None \<Rightarrow> [])"

definition approval_id :: "(string \<Rightarrow> string) \<Rightarrow> ApprovalRequest \<Rightarrow> string" where
  "approval_id sha256_hex request =
     ''apr-'' @ take 32 (sha256_hex (aq_tool request @ ''|'' @ unwrap_or_empty (aq_case_id request) @ ''|'' @
       PrincipalKind_as_str (p_kind (aq_requested_by request)) @ ''|'' @ p_id (aq_requested_by request) @ ''|'' @
       unwrap_or_empty (aq_action_digest request)))"

definition ToolApproval_request ::
  "(string \<Rightarrow> string) \<Rightarrow> ApprovalRequest \<Rightarrow> datetime \<Rightarrow> int option \<Rightarrow> ToolApproval" where
  "ToolApproval_request sha256_hex request now ttl =
     (let ttl = (case ttl of
          Some ttl \<Rightarrow> max (minutes 1) (min (minutes MAX_APPROVAL_TTL_MINUTES) ttl)
        | None \<Rightarrow> minutes APPROVAL_TTL_MINUTES)
      in \<lparr>ta_id = approval_id sha256_hex request, ta_request = request, ta_state = ApprovalState.Pending,
          ta_requested_at = now, ta_expires_at = now + ttl, ta_decided_at = None, ta_decided_by = None,
          ta_note = None, ta_used_at = None\<rparr>)"

definition is_pending :: "ToolApproval \<Rightarrow> bool" where
  "is_pending a = (ta_state a = ApprovalState.Pending)"

definition is_decidable :: "ToolApproval \<Rightarrow> datetime \<Rightarrow> bool" where
  "is_decidable a now = (is_pending a \<and> now < ta_expires_at a)"

definition is_usable :: "ToolApproval \<Rightarrow> datetime \<Rightarrow> bool" where
  "is_usable a now = (ta_state a = Approved \<and> now < ta_expires_at a)"

definition approval_covers :: "ToolApproval \<Rightarrow> string \<Rightarrow> string option \<Rightarrow> bool" where
  "approval_covers a tool case_id = (aq_tool (ta_request a) = tool \<and> aq_case_id (ta_request a) = case_id)"

definition decide ::
  "ToolApproval \<Rightarrow> Principal \<Rightarrow> ApprovalState \<Rightarrow> string option \<Rightarrow> datetime \<Rightarrow> (ApprovalError, ToolApproval) result" where
  "decide a who nxt note now =
     (if \<not> is_pending a then Inl (NotPending (ta_state a))
      else if ta_expires_at a \<le> now then Inl (ApprovalError.Expired (ta_expires_at a))
      else if p_kind who \<noteq> PrincipalKind.User then Inl (NotAHumanDecision (p_kind who))
      else if who = aq_requested_by (ta_request a) then Inl SelfDecision
      else Inr (a\<lparr>ta_state := nxt, ta_decided_at := Some now, ta_decided_by := Some who, ta_note := note\<rparr>))"

definition approve ::
  "ToolApproval \<Rightarrow> Principal \<Rightarrow> string option \<Rightarrow> datetime \<Rightarrow> (ApprovalError, ToolApproval) result" where
  "approve a who note now = (case decide a who Approved note now of
     Inl e \<Rightarrow> Inl e | Inr approved \<Rightarrow> Inr (approved\<lparr>ta_decided_at := Some now\<rparr>))"

definition reject ::
  "ToolApproval \<Rightarrow> Principal \<Rightarrow> string option \<Rightarrow> datetime \<Rightarrow> (ApprovalError, ToolApproval) result" where
  "reject a who note now = decide a who Rejected note now"

definition consume :: "ToolApproval \<Rightarrow> datetime \<Rightarrow> (ApprovalError, ToolApproval) result" where
  "consume a now =
     (if \<not> is_usable a now then Inl (NotUsable (ta_state a))
      else Inr (a\<lparr>ta_state := Used, ta_used_at := Some now\<rparr>))"

definition expire :: "ToolApproval \<Rightarrow> datetime \<Rightarrow> (ApprovalError, ToolApproval) result" where
  "expire a now =
     (if \<not> is_pending a then Inl (NotPending (ta_state a))
      else if now < ta_expires_at a then Inl (NotPending (ta_state a))
      else Inr (a\<lparr>ta_state := ApprovalState.Expired\<rparr>))"

section \<open>The store\<close>

datatype ApprovalStoreError = Store RecordError | Refused ApprovalError | NotFound string

type_synonym ('s, 'v) ApprovalStore = "('s, 'v, ToolApproval) NamespacedStore"

definition ApprovalStore_new ::
  "('s, 'v) RecordStore \<Rightarrow> ('v \<Rightarrow> (string, ToolApproval) result) \<Rightarrow> (ToolApproval \<Rightarrow> (string, 'v) result) \<Rightarrow>
     ('s, 'v) ApprovalStore" where
  "ApprovalStore_new records from_value to_value =
     \<lparr>ns_store = records, ns_namespace = ''approvals'', ns_from_value = from_value, ns_to_value = to_value\<rparr>"

definition APPROVAL_SCAN_LIMIT :: nat where "APPROVAL_SCAN_LIMIT = 512"

definition approval_get ::
  "('s, 'v) ApprovalStore \<Rightarrow> string \<Rightarrow> 's \<Rightarrow> 's \<times> (ApprovalStoreError, (ToolApproval \<times> nat) option) result" where
  "approval_get store i s = map_prod id (map_sum ApprovalStoreError.Store id) (view_get store i s)"

definition approval_request ::
  "('s, 'v) ApprovalStore \<Rightarrow> ToolApproval \<Rightarrow> 's \<Rightarrow> 's \<times> (ApprovalStoreError, ToolApproval \<times> bool) result" where
  "approval_request store a s = (case view_put store (ta_id a) a (Some 0) s of
     (s, Inr _) \<Rightarrow> (s, Inr (a, True))
   | (s, Inl (Conflict _ _)) \<Rightarrow>
       (case approval_get store (ta_id a) s of
          (s, Inl e) \<Rightarrow> (s, Inl e)
        | (s, Inr None) \<Rightarrow> (s, Inl (ApprovalStoreError.NotFound (ta_id a)))
        | (s, Inr (Some (existing, _))) \<Rightarrow> (s, Inr (existing, False)))
   | (s, Inl other) \<Rightarrow> (s, Inl (ApprovalStoreError.Store other)))"

text \<open>
  The two sorts: by request time, newest first, then by id; and by decision time. Both are stable,
  so the first is a sort by id followed by a sort by negated time.
\<close>

definition approval_list_page ::
  "('s, 'v) ApprovalStore \<Rightarrow> ApprovalState option \<Rightarrow> nat \<Rightarrow> nat \<Rightarrow> 's \<Rightarrow>
     's \<times> (ApprovalStoreError, ToolApproval list) result" where
  "approval_list_page store state limit offset s = (case view_list store APPROVAL_SCAN_LIMIT s of
     (s, Inl e) \<Rightarrow> (s, Inl (ApprovalStoreError.Store e))
   | (s, Inr found) \<Rightarrow>
       (s, Inr (take limit (drop offset (sort_key (\<lambda>a. - ta_requested_at a) (sort_key ta_id
          (filter (\<lambda>a. state = None \<or> state = Some (ta_state a)) (map fst found))))))))"

definition approval_list ::
  "('s, 'v) ApprovalStore \<Rightarrow> ApprovalState option \<Rightarrow> nat \<Rightarrow> 's \<Rightarrow> 's \<times> (ApprovalStoreError, ToolApproval list) result" where
  "approval_list store state limit s = approval_list_page store state limit 0 s"

definition decide_step ::
  "Principal \<Rightarrow> string option \<Rightarrow> datetime \<Rightarrow> bool \<Rightarrow> ToolApproval \<Rightarrow> nat \<Rightarrow>
     (ToolApproval, (ApprovalStoreError, ToolApproval) result) cas_step" where
  "decide_step who note now allow a version =
     (case (if allow then approve a who note now else reject a who note now) of
        Inl e \<Rightarrow> Return (Inl (Refused e))
      | Inr nxt \<Rightarrow> Write nxt (Inr nxt))"

definition store_decide ::
  "('s, 'v) ApprovalStore \<Rightarrow> string \<Rightarrow> Principal \<Rightarrow> string option \<Rightarrow> datetime \<Rightarrow> bool \<Rightarrow> 's \<Rightarrow>
     's \<times> (ApprovalStoreError, ToolApproval) result" where
  "store_decide store i who note now allow s =
     cas_loop store i (decide_step who note now allow) (Inl (ApprovalStoreError.NotFound i))
       (\<lambda>e. Inl (ApprovalStoreError.Store e)) (Inl (Refused (NotPending ApprovalState.Pending))) 3 s"

definition decided_or_requested :: "ToolApproval \<Rightarrow> datetime" where
  "decided_or_requested a = (case ta_decided_at a of Some t \<Rightarrow> t | None \<Rightarrow> ta_requested_at a)"

definition find_approved ::
  "('s, 'v) ApprovalStore \<Rightarrow> string \<Rightarrow> string option \<Rightarrow> datetime \<Rightarrow> 's \<Rightarrow>
     's \<times> (ApprovalStoreError, ToolApproval option) result" where
  "find_approved store tool case_id now s = (case view_list store APPROVAL_SCAN_LIMIT s of
     (s, Inl e) \<Rightarrow> (s, Inl (ApprovalStoreError.Store e))
   | (s, Inr found) \<Rightarrow>
       (s, Inr (case sort_key decided_or_requested
           (filter (\<lambda>a. is_usable a now \<and> approval_covers a tool case_id) (map fst found)) of
          [] \<Rightarrow> None | a # _ \<Rightarrow> Some a)))"

definition consume_step ::
  "datetime \<Rightarrow> ToolApproval \<Rightarrow> nat \<Rightarrow> (ToolApproval, (ApprovalStoreError, ToolApproval) result) cas_step" where
  "consume_step now a version = (case consume a now of
     Inl e \<Rightarrow> Return (Inl (Refused e)) | Inr used \<Rightarrow> Write used (Inr used))"

definition store_consume ::
  "('s, 'v) ApprovalStore \<Rightarrow> string \<Rightarrow> datetime \<Rightarrow> 's \<Rightarrow> 's \<times> (ApprovalStoreError, ToolApproval) result" where
  "store_consume store i now s =
     cas_loop store i (consume_step now) (Inl (ApprovalStoreError.NotFound i))
       (\<lambda>e. Inl (ApprovalStoreError.Store e)) (Inl (Refused (NotUsable Approved))) 3 s"

fun consume_first ::
  "('s, 'v) ApprovalStore \<Rightarrow> datetime \<Rightarrow> (ToolApproval \<times> nat) list \<Rightarrow> 's \<Rightarrow>
     's \<times> (ApprovalStoreError, ToolApproval option) result" where
  "consume_first store now [] s = (s, Inr None)"
| "consume_first store now ((a, version) # rest) s =
     (case consume a now of
        Inl _ \<Rightarrow> consume_first store now rest s
      | Inr used \<Rightarrow>
          (case view_put store (ta_id used) used (Some version) s of
             (s, Inr _) \<Rightarrow> (s, Inr (Some used))
           | (s, Inl (Conflict _ _)) \<Rightarrow> consume_first store now rest s
           | (s, Inl e) \<Rightarrow> (s, Inl (ApprovalStoreError.Store e))))"

definition consume_approved ::
  "('s, 'v) ApprovalStore \<Rightarrow> string \<Rightarrow> string option \<Rightarrow> datetime \<Rightarrow> 's \<Rightarrow>
     's \<times> (ApprovalStoreError, ToolApproval option) result" where
  "consume_approved store tool case_id now s = (case view_list store APPROVAL_SCAN_LIMIT s of
     (s, Inl e) \<Rightarrow> (s, Inl (ApprovalStoreError.Store e))
   | (s, Inr found) \<Rightarrow>
       consume_first store now (sort_key (decided_or_requested \<circ> fst)
         (filter (\<lambda>(a, _). is_usable a now \<and> approval_covers a tool case_id) found)) s)"

fun expire_loop ::
  "('s, 'v) ApprovalStore \<Rightarrow> datetime \<Rightarrow> (ToolApproval \<times> nat) list \<Rightarrow> nat \<Rightarrow> 's \<Rightarrow> 's \<times> (ApprovalStoreError, nat) result" where
  "expire_loop store now [] expired s = (s, Inr expired)"
| "expire_loop store now ((a, version) # rest) expired s =
     (case expire a now of
        Inl _ \<Rightarrow> expire_loop store now rest expired s
      | Inr nxt \<Rightarrow>
          (case view_put store (ta_id nxt) nxt (Some version) s of
             (s, Inr _) \<Rightarrow> expire_loop store now rest (expired + 1) s
           | (s, Inl (Conflict _ _)) \<Rightarrow> expire_loop store now rest expired s
           | (s, Inl e) \<Rightarrow> (s, Inl (ApprovalStoreError.Store e))))"

definition expire_stale ::
  "('s, 'v) ApprovalStore \<Rightarrow> datetime \<Rightarrow> nat \<Rightarrow> 's \<Rightarrow> 's \<times> (ApprovalStoreError, nat) result" where
  "expire_stale store now limit s = (case view_list store APPROVAL_SCAN_LIMIT s of
     (s, Inl e) \<Rightarrow> (s, Inl (ApprovalStoreError.Store e))
   | (s, Inr found) \<Rightarrow>
       expire_loop store now
         (take limit (filter (\<lambda>(a, _). is_pending a \<and> ta_expires_at a \<le> now) found)) 0 s)"

section \<open>Life of an approval\<close>

inductive approval_step :: "ToolApproval \<Rightarrow> ToolApproval \<Rightarrow> bool" where
  approve: "approve a who note now = Inr a' \<Longrightarrow> approval_step a a'"
| reject: "reject a who note now = Inr a' \<Longrightarrow> approval_step a a'"
| consume: "consume a now = Inr a' \<Longrightarrow> approval_step a a'"
| expire: "expire a now = Inr a' \<Longrightarrow> approval_step a a'"

inductive_cases approval_stepE: "approval_step a a'"

text \<open>What holds of an approval by its state: who decided it, when, and when it was used.\<close>

definition decided_by_other_human :: "ToolApproval \<Rightarrow> bool" where
  "decided_by_other_human a \<longleftrightarrow> (\<exists>who t. ta_decided_by a = Some who \<and> p_kind who = PrincipalKind.User \<and>
     who \<noteq> aq_requested_by (ta_request a) \<and> ta_decided_at a = Some t \<and> t < ta_expires_at a)"

definition approval_inv :: "ToolApproval \<Rightarrow> bool" where
  "approval_inv a \<longleftrightarrow>
     minutes 1 \<le> ta_expires_at a - ta_requested_at a \<and> ta_expires_at a - ta_requested_at a \<le> minutes (24 * 60) \<and>
     (ta_state a \<in> {Approved, Rejected, Used} \<longrightarrow> decided_by_other_human a) \<and>
     (ta_state a = Used \<longleftrightarrow> ta_used_at a \<noteq> None) \<and>
     pred_option (\<lambda>t. t < ta_expires_at a) (ta_used_at a)"

lemma minutes_less [simp]: "minutes a \<le> minutes b \<longleftrightarrow> a \<le> b"
  by (simp add: minutes_def)

lemma request_inv: "approval_inv (ToolApproval_request sha r now ttl)"
  by (auto simp: approval_inv_def ToolApproval_request_def Let_def APPROVAL_TTL_MINUTES_def
      MAX_APPROVAL_TTL_MINUTES_def max_def min_def split: option.split)

lemma approval_step_inv: "approval_step a a' \<Longrightarrow> approval_inv a \<Longrightarrow> approval_inv a'"
  by (elim approval_stepE)
    (auto simp: approve_def reject_def decide_def consume_def expire_def approval_inv_def is_pending_def is_usable_def
      decided_by_other_human_def split: sum.splits if_splits)

lemma approval_steps_inv: "approval_step\<^sup>*\<^sup>* a a' \<Longrightarrow> approval_inv a \<Longrightarrow> approval_inv a'"
  by (induction rule: rtranclp_induct) (auto intro: approval_step_inv)

lemma approval_step_request: "approval_step a a' \<Longrightarrow> ta_request a' = ta_request a \<and> ta_expires_at a' = ta_expires_at a"
  by (elim approval_stepE)
    (auto simp: approve_def reject_def decide_def consume_def expire_def split: sum.splits if_splits)

text \<open>
  A used approval was decided by a user other than its requester before it expired, it was used
  before it expired, and it expires within a day of the request.
\<close>

lemma used_needs_human:
  assumes "approval_step\<^sup>*\<^sup>* (ToolApproval_request sha r now ttl) a" "ta_state a = Used"
  shows "\<exists>who decided used. ta_decided_by a = Some who \<and> p_kind who = PrincipalKind.User \<and> who \<noteq> aq_requested_by r \<and>
    ta_decided_at a = Some decided \<and> decided < ta_expires_at a \<and> ta_used_at a = Some used \<and> used < ta_expires_at a \<and>
    ta_expires_at a \<le> ta_requested_at a + minutes (24 * 60)"
proof -
  have "ta_request a = r" using assms(1)
    by (induction rule: rtranclp_induct) (auto simp: approval_step_request ToolApproval_request_def Let_def)
  moreover have "approval_inv a" using assms(1) request_inv approval_steps_inv by blast
  ultimately show ?thesis using assms(2) by (auto simp: approval_inv_def decided_by_other_human_def)
qed

lemma used_final: "ta_state a = Used \<Longrightarrow> \<not> approval_step a a'"
  by (auto elim!: approval_stepE simp: approve_def reject_def decide_def consume_def expire_def is_pending_def is_usable_def
      split: sum.splits if_splits)

definition scale_request :: ApprovalRequest where
  "scale_request = \<lparr>aq_tool = ''scale_workers'', aq_case_id = Some ''case-1'', aq_project_id = None,
     aq_action_digest = Some ''d1'', aq_requested_by = Principal_new PrincipalKind.Agent ''a1'', aq_reason = None\<rparr>"

definition scale_used :: ToolApproval where
  "scale_used = projr (consume (projr (approve (ToolApproval_request id scale_request 0 None)
     (Principal_new PrincipalKind.User ''alice'') None 5)) 6)"

lemma scale_used_steps: "approval_step\<^sup>*\<^sup>* (ToolApproval_request id scale_request 0 None) scale_used"
proof -
  let ?a = "ToolApproval_request id scale_request 0 None" and ?who = "Principal_new PrincipalKind.User ''alice''"
  have "approve ?a ?who None 5 = Inr (projr (approve ?a ?who None 5))" by code_simp
  then have "approval_step ?a (projr (approve ?a ?who None 5))" by (rule approval_step.approve)
  moreover have "consume (projr (approve ?a ?who None 5)) 6 = Inr scale_used" by code_simp
  then have "approval_step (projr (approve ?a ?who None 5)) scale_used" by (rule approval_step.consume)
  ultimately show ?thesis by (meson converse_rtranclp_into_rtranclp r_into_rtranclp)
qed

section \<open>Single use in the store\<close>

lemma consume_step_Write: "consume_step now a v = Write a' res \<longleftrightarrow> consume a now = Inr a' \<and> res = Inr a'"
  by (auto simp: consume_step_def split: sum.splits)

lemma consume_step_Return: "consume_step now a v = Return res \<Longrightarrow> \<exists>e. res = Inl e"
  by (auto simp: consume_step_def split: sum.splits)

text \<open>
  C35. A permit is spent once, whatever other tasks write between the accesses of \<open>consume\<close>, as long as
  they only add documents or replace them at higher versions. A successful consumption replaces the
  approval that stands in the store right before the write (the store the other tasks alone made of
  the initial one): approved, not expired and not yet used, it becomes its used self at the next
  version, and every other document is kept. A refused consumption writes nothing.
\<close>

theorem store_consume_single_use:
  assumes rs: "record_store store contents ready valid" and view: "ns_store approvals = store" "serde_ok approvals"
    and env: "tolerable contents valid env" and "valid s"
    and res: "store_consume (concurrent_view env approvals) i now (s, 0) = ((s', n'), res)"
  shows "case res of
      Inl _ \<Rightarrow> s' = env_run env 0 n' s
    | Inr used \<Rightarrow> \<exists>old v.
        document approvals (contents (env_run env 0 n' s)) i = Some (old, v) \<and> ta_state old = Approved \<and>
        now < ta_expires_at old \<and> used = old\<lparr>ta_state := Used, ta_used_at := Some now\<rparr> \<and>
        document approvals (contents s') i = Some (used, v + 1) \<and>
        (\<forall>p. p \<noteq> (ns_namespace approvals, i) \<longrightarrow> contents s' p = contents (env_run env 0 n' s) p)"
proof -
  let ?absent = "Inl (ApprovalStoreError.NotFound i)" and ?failed = "\<lambda>e. Inl (ApprovalStoreError.Store e)"
    and ?exhausted = "Inl (Refused (NotUsable Approved))" and ?pre = "env_run env 0 n' s"
  consider "s' = ?pre" "cas_unwritten approvals i (consume_step now) ?absent ?failed ?exhausted (contents s') res"
    | "cas_wrote approvals i (consume_step now) res (contents ?pre) (contents s')"
    using record_store.cas_loop_exact[OF rs, OF view(1) env assms(5) res[unfolded store_consume_def]] by blast
  then show ?thesis
  proof cases
    case 1
    then have "\<exists>e. res = Inl e" by (auto simp: cas_unwritten_def dest: consume_step_Return)
    with 1(1) show ?thesis by auto
  next
    case 2
    then obtain r r' old used where w: "contents ?pre (ns_namespace approvals, i) = Some r"
      "ns_from_value approvals (rec_value r) = Inr old" "consume old now = Inr used" "res = Inr used"
      "ns_to_value approvals used = Inr (rec_value r')" "rec_version r' = rec_version r + 1"
      "contents s' = (contents ?pre)((ns_namespace approvals, i) \<mapsto> r')"
      by (auto simp: cas_wrote_def consume_step_Write)
    moreover have "ns_from_value approvals (rec_value r') = Inr used"
      using w(5) view(2) by (metis serde_okE sum.inject(2))
    ultimately show ?thesis
      by (auto simp: document_def consume_def is_usable_def split: if_splits)
  qed
qed

definition plain_approvals :: "(ToolApproval InMemoryRecordStore, ToolApproval) ApprovalStore" where
  "plain_approvals = ApprovalStore_new in_memory_store Inr Inr"

definition scale_approved :: ToolApproval where
  "scale_approved = projr (approve (ToolApproval_request id scale_request 0 None)
     (Principal_new PrincipalKind.User ''alice'') None 5)"

definition approved_store :: "ToolApproval InMemoryRecordStore" where
  "approved_store = fst (view_put plain_approvals (ta_id scale_approved) scale_approved (Some 0) (mem_new 0))"

text \<open>A rival that reads the approval and writes it back, at a higher version, before the first write.\<close>

definition touching :: "nat \<Rightarrow> ToolApproval InMemoryRecordStore \<Rightarrow> ToolApproval InMemoryRecordStore" where
  "touching n s = (if n = 1 then fst (rs_put in_memory_store (ns_namespace plain_approvals) (ta_id scale_approved) scale_approved None s) else s)"

theorem store_consume_single_use_witness:
  "\<exists>old v. document plain_approvals (mem_contents (env_run touching 0 4 approved_store)) (ta_id scale_approved) = Some (old, v) \<and>
    ta_state old = Approved \<and> 6 < ta_expires_at old \<and> scale_used = old\<lparr>ta_state := Used, ta_used_at := Some 6\<rparr>"
proof -
  let ?run = "store_consume (concurrent_view touching plain_approvals) (ta_id scale_approved) 6 (approved_store, 0)"
  have "snd ?run = Inr scale_used" "snd (fst ?run) = 4" by code_simp+
  then have run: "?run = ((fst (fst ?run), 4), Inr scale_used)" by (metis prod.collapse)
  have env: "tolerable mem_contents mem_valid touching"
    using mem.put_advances[where ev = None] by (auto simp: tolerable_def touching_def)
  have s: "ns_store plain_approvals = in_memory_store" "serde_ok plain_approvals" "mem_valid approved_store"
    by (auto simp: approved_store_def view_put_def plain_approvals_def ApprovalStore_new_def serde_ok_def
        mem_defs mem_new_def Let_def rows_ok_def)
  show ?thesis using store_consume_single_use[OF mem.record_store_axioms s(1,2) env s(3) run] by auto
qed

text \<open>An approval is found by tool and case alone.\<close>

lemma approval_ignores_digest:
  "approval_covers (a\<lparr>ta_request := (ta_request a)\<lparr>aq_action_digest := d, aq_requested_by := who\<rparr>\<rparr>) tool case_id =
     approval_covers a tool case_id"
  by (simp add: approval_covers_def)

end
