(* ===== verification/Policy_Engine.thy ===== *)
theory Policy_Engine
  imports Gov_Mandate Case_Store Gov_Approval
begin

text \<open>
  The policy engine (\<open>crates/uc-engine/src/governance/policy.rs\<close>): the installed snapshot, the decision on
  a tool call (tool table, permission, human tier, mandate) and the life of mandates.

  The fields that never change are the record \<open>PolicyEngine\<close>; the snapshot behind its \<open>RwLock\<close>, whether
  that lock is poisoned and the shared record store are \<open>PolicyState\<close>. Logging is left out. The id of a new mandate
  is an argument.
\<close>

section \<open>The engine and its state\<close>

text \<open>\<open>Widening\<close> carries a message, or the denial whose \<open>Debug\<close> rendering is the message.\<close>

datatype PolicyEngineError =
    Store RecordError
  | Mandate MandateStoreError
  | Denied PolicyDecision
  | Widening "string + MandateDenial"
  | UnknownMandate string
  | MandateConflict string string

fun PolicyEngineError_display :: "(MandateDenial \<Rightarrow> string) \<Rightarrow> PolicyEngineError \<Rightarrow> string" where
  "PolicyEngineError_display debug (PolicyEngineError.Store error) = ''policy store: '' @ RecordError_display error"
| "PolicyEngineError_display debug (PolicyEngineError.Mandate error) =
     ''policy mandate: '' @ MandateStoreError_display error"
| "PolicyEngineError_display debug (PolicyEngineError.Denied decision) =
     ''denied: '' @ (case deny_code decision of Some code \<Rightarrow> code | None \<Rightarrow> ''unknown'')"
| "PolicyEngineError_display debug (Widening (Inl detail)) = ''mandate widening refused: '' @ detail"
| "PolicyEngineError_display debug (Widening (Inr denial)) = ''mandate widening refused: '' @ debug denial"
| "PolicyEngineError_display debug (UnknownMandate mandate_id) = ''unknown mandate '' @ mandate_id"
| "PolicyEngineError_display debug (MandateConflict case_id existing) =
     ''case '' @ case_id @ '' already has a live mandate ('' @ existing @ ''); revoke it first''"

record ('s, 'v) PolicyEngine =
  pe_view :: "('s, 'v, PolicySnapshot) NamespacedStore"
  pe_mandates :: "('s, 'v) MandateStore"
  pe_tools :: ToolPolicyTable
  pe_approvals :: "('s, 'v) ApprovalStore option"

record 's PolicyState =
  pe_snapshot :: PolicySnapshot
  pe_poisoned :: bool
  pe_records :: 's

definition PolicyEngine_new ::
  "('s, 'v) RecordStore \<Rightarrow> ('v \<Rightarrow> (string, PolicySnapshot) result) \<Rightarrow> (PolicySnapshot \<Rightarrow> (string, 'v) result) \<Rightarrow>
     ('s, 'v) MandateStore \<Rightarrow> 's \<Rightarrow> ('s, 'v) PolicyEngine \<times> 's PolicyState" where
  "PolicyEngine_new records from_value to_value mandates s =
     (\<lparr>pe_view = \<lparr>ns_store = records, ns_namespace = ''policy'', ns_from_value = from_value, ns_to_value = to_value\<rparr>,
       pe_mandates = mandates, pe_tools = builtin, pe_approvals = None\<rparr>,
      \<lparr>pe_snapshot = PolicySnapshot_empty PolicyVersion_initial, pe_poisoned = False, pe_records = s\<rparr>)"

definition with_approvals :: "('s, 'v) PolicyEngine \<Rightarrow> ('s, 'v) ApprovalStore \<Rightarrow> ('s, 'v) PolicyEngine" where
  "with_approvals engine approvals = engine\<lparr>pe_approvals := Some approvals\<rparr>"

definition engine_version :: "'s PolicyState \<Rightarrow> PolicyVersion" where
  "engine_version st = (if pe_poisoned st then PolicyVersion_initial else ps_version (pe_snapshot st))"

definition engine_snapshot :: "'s PolicyState \<Rightarrow> PolicySnapshot" where
  "engine_snapshot st = (if pe_poisoned st then PolicySnapshot_empty PolicyVersion_initial else pe_snapshot st)"

definition install_in_memory :: "PolicySnapshot \<Rightarrow> 's PolicyState \<Rightarrow> 's PolicyState" where
  "install_in_memory snapshot st = (if pe_poisoned st then st else st\<lparr>pe_snapshot := snapshot\<rparr>)"

definition with_snapshot ::
  "('s, 'v) RecordStore \<Rightarrow> ('v \<Rightarrow> (string, PolicySnapshot) result) \<Rightarrow> (PolicySnapshot \<Rightarrow> (string, 'v) result) \<Rightarrow>
     ('s, 'v) MandateStore \<Rightarrow> PolicySnapshot \<Rightarrow> 's \<Rightarrow> ('s, 'v) PolicyEngine \<times> 's PolicyState" where
  "with_snapshot records from_value to_value mandates snapshot s =
     map_prod id (install_in_memory snapshot) (PolicyEngine_new records from_value to_value mandates s)"

definition install ::
  "('s, 'v) PolicyEngine \<Rightarrow> PolicySnapshot \<Rightarrow> 's PolicyState \<Rightarrow> 's PolicyState \<times> (PolicyEngineError, PolicyVersion) result" where
  "install engine snapshot st =
     (let version = (if engine_version st < ps_version snapshot then ps_version snapshot
                     else PolicyVersion_next (engine_version st));
          snapshot = snapshot\<lparr>ps_version := version\<rparr>
      in case view_put (pe_view engine) ''current'' snapshot None (pe_records st) of
           (s, Inl e) \<Rightarrow> (st\<lparr>pe_records := s\<rparr>, Inl (PolicyEngineError.Store e))
         | (s, Inr _) \<Rightarrow> (install_in_memory snapshot (st\<lparr>pe_records := s\<rparr>), Inr version))"

definition load_persisted ::
  "('s, 'v) PolicyEngine \<Rightarrow> 's PolicyState \<Rightarrow> 's PolicyState \<times> (PolicyEngineError, PolicyVersion option) result" where
  "load_persisted engine st = (case view_get (pe_view engine) ''current'' (pe_records st) of
     (s, Inl e) \<Rightarrow> (st\<lparr>pe_records := s\<rparr>, Inl (PolicyEngineError.Store e))
   | (s, Inr None) \<Rightarrow> (st\<lparr>pe_records := s\<rparr>, Inr None)
   | (s, Inr (Some (snapshot, _))) \<Rightarrow>
       (install_in_memory snapshot (st\<lparr>pe_records := s\<rparr>), Inr (Some (ps_version snapshot))))"

section \<open>Permission checks\<close>

definition authorize :: "'s PolicyState \<Rightarrow> Principal \<Rightarrow> Permission \<Rightarrow> string option \<Rightarrow> datetime \<Rightarrow> PolicyDecision" where
  "authorize st who permission project_id now = evaluate (engine_snapshot st) who permission project_id now"

definition authorize_scale_workers :: "'s PolicyState \<Rightarrow> Principal \<Rightarrow> datetime \<Rightarrow> PolicyDecision" where
  "authorize_scale_workers st who now = authorize st who Permission.WorkerScale None now"

definition validate_sandbox :: "SandboxSecurityProfile \<Rightarrow> PolicyDecision" where
  "validate_sandbox profile = sandbox_decision profile"

fun mandate_denial :: "MandateDenial \<Rightarrow> DenyReason" where
  "mandate_denial (MandateDenial.Revoked mandate_id reason) = DenyReason.MandateRevoked mandate_id"
| "mandate_denial (MandateDenial.Expired mandate_id expired_at) = DenyReason.MandateExpired mandate_id expired_at"
| "mandate_denial (MandateDenial.OutOfScope scope v) = DenyReason.MandateOutOfScope scope v"
| "mandate_denial (MandateDenial.WideningDenied detail) = DenyReason.MandateWideningDenied detail"
| "mandate_denial (MandateDenial.StalePolicyVersion mandate_version minimum) =
     DenyReason.StalePolicyVersion mandate_version minimum"
| "mandate_denial (MandateDenial.OriginForbidden origin) =
     DenyReason.MandateWideningDenied (''forbidden mandate origin: '' @ origin)"

definition authorize_mandate :: "Mandate \<Rightarrow> MandateRequest \<Rightarrow> datetime \<Rightarrow> PolicyDecision" where
  "authorize_mandate mandate request now = (case permits mandate request now of
     MandateDecision.Allowed \<Rightarrow> PolicyDecision.Allow
   | MandateDecision.Denied denial \<Rightarrow> PolicyDecision.Deny (mandate_denial denial))"

definition requires_human :: "string \<Rightarrow> PolicyDecision" where
  "requires_human tool = PolicyDecision.Deny (DenyReason.ToolRequiresHumanApproval tool)"

definition peek_human_tier_permit ::
  "('s, 'v) PolicyEngine \<Rightarrow> Principal \<Rightarrow> string option \<Rightarrow> string \<Rightarrow> string option \<Rightarrow> datetime \<Rightarrow> 's PolicyState \<Rightarrow>
     's PolicyState \<times> (PolicyDecision, string option) result" where
  "peek_human_tier_permit engine who project_id tool case_id now st =
     (if PolicyDecision_is_allowed (authorize st who Permission.ProactiveExecute project_id now)
      then (st, Inr None)
      else case pe_approvals engine of
        None \<Rightarrow> (st, Inl (requires_human tool))
      | Some approvals \<Rightarrow>
          (case find_approved approvals tool case_id now (pe_records st) of
             (s, Inr (Some approval)) \<Rightarrow> (st\<lparr>pe_records := s\<rparr>, Inr (Some (ta_id approval)))
           | (s, Inr None) \<Rightarrow> (st\<lparr>pe_records := s\<rparr>, Inl (requires_human tool))
           | (s, Inl error) \<Rightarrow> (st\<lparr>pe_records := s\<rparr>, Inl (requires_human tool))))"

definition settle_tool_decision ::
  "('s, 'v) PolicyEngine \<Rightarrow> string option \<Rightarrow> string \<Rightarrow> datetime \<Rightarrow> 's PolicyState \<Rightarrow> 's PolicyState \<times> PolicyDecision" where
  "settle_tool_decision engine permit_id tool now st = (case permit_id of
     None \<Rightarrow> (st, PolicyDecision.Allow)
   | Some i \<Rightarrow>
       (case pe_approvals engine of
          None \<Rightarrow> (st, requires_human tool)
        | Some approvals \<Rightarrow>
            (case store_consume approvals i now (pe_records st) of
               (s, Inr approval) \<Rightarrow> (st\<lparr>pe_records := s\<rparr>, PolicyDecision.Allow)
             | (s, Inl error) \<Rightarrow> (st\<lparr>pe_records := s\<rparr>, requires_human tool))))"

text \<open>The checks that \<open>authorize_tool\<close> and \<open>authorize_human_tier_tool\<close> start with, up to the peeked permit.\<close>

definition tool_gate ::
  "('s, 'v) PolicyEngine \<Rightarrow> Principal \<Rightarrow> string \<Rightarrow> string option \<Rightarrow> string option \<Rightarrow> datetime \<Rightarrow> 's PolicyState \<Rightarrow>
     's PolicyState \<times> (PolicyDecision, string option) result" where
  "tool_gate engine who tool project_id case_id now st =
     (let req = requirement (pe_tools engine) tool;
          permission_decision = authorize st who (required_permission (tp_action req)) project_id now
      in if \<not> tp_known req then (st, Inl (PolicyDecision.Deny (DenyReason.ToolNotPermitted tool)))
         else if \<not> PolicyDecision_is_allowed permission_decision then (st, Inl permission_decision)
         else if tp_human_approval req then peek_human_tier_permit engine who project_id tool case_id now st
         else (st, Inr None))"

definition authorize_tool ::
  "('s, 'v) PolicyEngine \<Rightarrow> Principal \<Rightarrow> string \<Rightarrow> string option \<Rightarrow> string option \<Rightarrow> datetime \<Rightarrow> 's PolicyState \<Rightarrow>
     's PolicyState \<times> PolicyDecision" where
  "authorize_tool engine who tool project_id case_id now st =
     (case tool_gate engine who tool project_id case_id now st of
        (st, Inl decision) \<Rightarrow> (st, decision)
      | (st, Inr permit_id) \<Rightarrow>
          (let req = requirement (pe_tools engine) tool in
           if \<not> tp_requires_mandate_scope req then settle_tool_decision engine permit_id tool now st
           else case case_id of
             None \<Rightarrow> (st, PolicyDecision.Deny DenyReason.MandateMissing)
           | Some c \<Rightarrow>
               (case latest_for_case (pe_mandates engine) c 256 (pe_records st) of
                  (s, Inl error) \<Rightarrow> (st\<lparr>pe_records := s\<rparr>, PolicyDecision.Deny DenyReason.MandateMissing)
                | (s, Inr None) \<Rightarrow> (st\<lparr>pe_records := s\<rparr>, PolicyDecision.Deny DenyReason.MandateMissing)
                | (s, Inr (Some mandate)) \<Rightarrow>
                    (let st = st\<lparr>pe_records := s\<rparr>;
                         request = MandateRequest_default\<lparr>rq_tool := Some tool, rq_action := Some (tp_action req)\<rparr>;
                         decision = authorize_mandate mandate request now
                     in if PolicyDecision_is_allowed decision then settle_tool_decision engine permit_id tool now st
                        else (st, decision)))))"

definition authorize_human_tier_tool ::
  "('s, 'v) PolicyEngine \<Rightarrow> Principal \<Rightarrow> string \<Rightarrow> string option \<Rightarrow> string option \<Rightarrow> datetime \<Rightarrow> 's PolicyState \<Rightarrow>
     's PolicyState \<times> PolicyDecision" where
  "authorize_human_tier_tool engine who tool project_id case_id now st =
     (case tool_gate engine who tool project_id case_id now st of
        (st, Inl decision) \<Rightarrow> (st, decision)
      | (st, Inr permit_id) \<Rightarrow> settle_tool_decision engine permit_id tool now st)"

section \<open>Mandate lifecycle\<close>

definition issue_mandate ::
  "('s, 'v) PolicyEngine \<Rightarrow> string \<Rightarrow> Principal \<Rightarrow> string \<Rightarrow> string option \<Rightarrow> MandateScope list \<Rightarrow> MandateOrigin \<Rightarrow>
     datetime option \<Rightarrow> string option \<Rightarrow> datetime \<Rightarrow> 's PolicyState \<Rightarrow> 's PolicyState \<times> (PolicyEngineError, Mandate) result" where
  "issue_mandate engine fresh_id grantor case_id project_id scopes origin expires_at delegated_from now st =
     (let decision = authorize st grantor Permission.MandateIssue project_id now in
      if \<not> PolicyDecision_is_allowed decision then (st, Inl (PolicyEngineError.Denied decision))
      else if origin = HumanIssued \<and> delegated_from \<noteq> None
      then (st, Inl (Widening (Inl ''a delegated mandate cannot claim the human origin'')))
      else
        let version = engine_version st;
            mandate = Mandate_new fresh_id case_id grantor origin scopes version now;
            mandate = (case expires_at of Some t \<Rightarrow> Mandate_with_expiry mandate t | None \<Rightarrow> mandate);
            store = (\<lambda>mandate s. case put_new (pe_mandates engine) mandate s of
              (s, Inl e) \<Rightarrow> (st\<lparr>pe_records := s\<rparr>, Inl (PolicyEngineError.Mandate e))
            | (s, Inr _) \<Rightarrow> (st\<lparr>pe_records := s\<rparr>, Inr mandate))
        in case delegated_from of
          Some parent_id \<Rightarrow>
            (case mandate_get (pe_mandates engine) parent_id (pe_records st) of
               (s, Inl e) \<Rightarrow> (st\<lparr>pe_records := s\<rparr>, Inl (PolicyEngineError.Mandate e))
             | (s, Inr None) \<Rightarrow> (st\<lparr>pe_records := s\<rparr>, Inl (UnknownMandate parent_id))
             | (s, Inr (Some (parent, _))) \<Rightarrow>
                 (let mandate = delegate_from mandate parent in
                  case validate_child parent mandate now (Some version) of
                    MandateDecision.Denied denial \<Rightarrow> (st\<lparr>pe_records := s\<rparr>, Inl (Widening (Inr denial)))
                  | MandateDecision.Allowed \<Rightarrow> store (mandate\<lparr>m_case_id := m_case_id parent\<rparr>) s))
        | None \<Rightarrow>
            (case latest_for_case (pe_mandates engine) case_id 256 (pe_records st) of
               (s, Inl e) \<Rightarrow> (st\<lparr>pe_records := s\<rparr>, Inl (PolicyEngineError.Mandate e))
             | (s, Inr None) \<Rightarrow> store mandate s
             | (s, Inr (Some existing)) \<Rightarrow>
                 if \<not> is_revoked existing \<and> \<not> is_expired existing now \<and> m_id existing \<noteq> m_id mandate
                 then (st\<lparr>pe_records := s\<rparr>, Inl (MandateConflict case_id (m_id existing)))
                 else store mandate s))"

definition revoke_mandate ::
  "('s, 'v) PolicyEngine \<Rightarrow> string \<Rightarrow> Principal \<Rightarrow> string \<Rightarrow> datetime \<Rightarrow> 's PolicyState \<Rightarrow>
     's PolicyState \<times> (PolicyEngineError, Mandate) result" where
  "revoke_mandate engine mandate_id who reason now st =
     (let decision = authorize st who Permission.MandateRevoke None now in
      if \<not> PolicyDecision_is_allowed decision then (st, Inl (PolicyEngineError.Denied decision))
      else case mandate_revoke (pe_mandates engine) mandate_id who reason now (pe_records st) of
        (s, Inl e) \<Rightarrow> (st\<lparr>pe_records := s\<rparr>, Inl (PolicyEngineError.Mandate e))
      | (s, Inr mandate) \<Rightarrow>
          (install_in_memory (snapshot_revoke_mandate (pe_snapshot st) mandate_id reason) (st\<lparr>pe_records := s\<rparr>), Inr mandate))"

definition get_mandate ::
  "('s, 'v) PolicyEngine \<Rightarrow> string \<Rightarrow> 's PolicyState \<Rightarrow> 's PolicyState \<times> (PolicyEngineError, Mandate option) result" where
  "get_mandate engine mandate_id st = (case mandate_get (pe_mandates engine) mandate_id (pe_records st) of
     (s, r) \<Rightarrow> (st\<lparr>pe_records := s\<rparr>, map_sum PolicyEngineError.Mandate (map_option fst) r))"

definition latest_mandate_for_case ::
  "('s, 'v) PolicyEngine \<Rightarrow> string \<Rightarrow> 's PolicyState \<Rightarrow> 's PolicyState \<times> (PolicyEngineError, Mandate option) result" where
  "latest_mandate_for_case engine case_id st = (case latest_for_case (pe_mandates engine) case_id 256 (pe_records st) of
     (s, r) \<Rightarrow> (st\<lparr>pe_records := s\<rparr>, map_sum PolicyEngineError.Mandate id r))"

definition add_grant :: "Principal \<Rightarrow> Permission list \<Rightarrow> PolicySnapshot \<Rightarrow> PolicySnapshot" where
  "add_grant who permissions snapshot = (case with_grant snapshot (Grant_new who permissions) of
     Inr nxt \<Rightarrow> nxt | Inl _ \<Rightarrow> snapshot)"

definition development_snapshot :: "string \<Rightarrow> PolicySnapshot" where
  "development_snapshot operator =
     (let permissions = [Permission.TaskSubmit, Permission.TaskRead, Permission.TaskControl, Permission.CaseCreate,
            Permission.CaseRead, Permission.CaseControl, Permission.MandateIssue, Permission.MandateRevoke,
            Permission.TriggerIngest, Permission.WorkerScale, Permission.MemoryWrite, Permission.MergeGrant,
            Permission.AttentionResolve, Permission.ProactivePropose, Permission.ProactiveExecute];
          dashboard_permissions = [Permission.TaskSubmit, Permission.TaskRead, Permission.CaseCreate,
            Permission.CaseRead, Permission.CaseControl, Permission.AttentionResolve, Permission.TriggerIngest,
            Permission.ProactivePropose, Permission.ProactiveExecute];
          snapshot = PolicySnapshot_empty PolicyVersion_initial;
          snapshot = add_grant (Principal_new PrincipalKind.User operator) permissions snapshot;
          snapshot = add_grant (Principal_new PrincipalKind.Agent ''uc-worker'') [Permission.TaskSubmit] snapshot
      in fold (\<lambda>who snapshot. add_grant who dashboard_permissions snapshot)
           [Principal_new PrincipalKind.Service ''dashboard'', Principal_new PrincipalKind.User ''dashboard''] snapshot)"

section \<open>Permits\<close>

text \<open>Approvals are stored under their own id.\<close>

definition keyed_by_id :: "('s, 'v) ApprovalStore \<Rightarrow> (string \<times> string \<Rightarrow> 'v Record option) \<Rightarrow> bool" where
  "keyed_by_id approvals m \<longleftrightarrow> (\<forall>k a v. document approvals m k = Some (a, v) \<longrightarrow> ta_id a = k)"

text \<open>The permit of a tool and case that one state holds and the next has spent, with every other record kept.\<close>

definition permit_spent ::
  "('s, 'v) ApprovalStore \<Rightarrow> string \<Rightarrow> string option \<Rightarrow> datetime \<Rightarrow> (string \<times> string \<Rightarrow> 'v Record option) \<Rightarrow>
     (string \<times> string \<Rightarrow> 'v Record option) \<Rightarrow> bool" where
  "permit_spent approvals tool case_id now m m' \<longleftrightarrow>
     (\<exists>a v. document approvals m (ta_id a) = Some (a, v) \<and> ta_state a = Approved \<and> now < ta_expires_at a \<and>
        approval_covers a tool case_id \<and>
        document approvals m' (ta_id a) = Some (a\<lparr>ta_state := Used, ta_used_at := Some now\<rparr>, v + 1) \<and>
        (\<forall>p. p \<noteq> (ns_namespace approvals, ta_id a) \<longrightarrow> m' p = m p))"

context record_store
begin

lemma store_consume_sequential:
  assumes "ns_store approvals = store" "serde_ok approvals" "valid s" "store_consume approvals i now s = (s', res)"
  shows "case res of
      Inl _ \<Rightarrow> s' = s
    | Inr used \<Rightarrow> \<exists>a v. document approvals (contents s) i = Some (a, v) \<and> ta_state a = Approved \<and>
        now < ta_expires_at a \<and> used = a\<lparr>ta_state := Used, ta_used_at := Some now\<rparr> \<and>
        document approvals (contents s') i = Some (used, v + 1) \<and>
        (\<forall>p. p \<noteq> (ns_namespace approvals, i) \<longrightarrow> contents s' p = contents s p)"
proof -
  consider "s' = s" "\<exists>e. res = Inl e" | "cas_wrote approvals i (consume_step now) res (contents s) (contents s')"
    using cas_loop_sequential[OF assms(1,3) _ assms(4)[unfolded store_consume_def]]
    by (auto simp: cas_unwritten_def dest: consume_step_Return)
  then show ?thesis
  proof cases
    case 2
    then obtain r r' a used where w: "contents s (ns_namespace approvals, i) = Some r"
      "ns_from_value approvals (rec_value r) = Inr a" "consume a now = Inr used" "res = Inr used"
      "ns_to_value approvals used = Inr (rec_value r')" "rec_version r' = rec_version r + 1"
      "contents s' = (contents s)((ns_namespace approvals, i) \<mapsto> r')"
      by (auto simp: cas_wrote_def consume_step_Write)
    moreover have "ns_from_value approvals (rec_value r') = Inr used"
      using w(5) assms(2) by (metis serde_okE sum.inject(2))
    ultimately show ?thesis by (auto simp: document_def consume_def is_usable_def split: if_splits)
  qed auto
qed

lemma find_approved_state:
  assumes "ns_store approvals = store" "valid s" "find_approved approvals tool case_id now s = (s', res)"
  shows "s' = s"
  using assms view_list_state[OF assms(1,2)] by (auto simp: find_approved_def split: prod.splits sum.splits)

lemma find_approved_found:
  assumes "ns_store approvals = store" "valid s" "find_approved approvals tool case_id now s = (s', Inr (Some a))"
  shows "approval_covers a tool case_id \<and> (\<exists>k v. document approvals (contents s) k = Some (a, v))"
proof -
  let ?usable = "\<lambda>found. sort_key decided_or_requested
    (filter (\<lambda>a. is_usable a now \<and> approval_covers a tool case_id) (map fst found))"
  obtain s1 found where l: "view_list approvals APPROVAL_SCAN_LIMIT s = (s1, Inr found)"
    "(case ?usable found of [] \<Rightarrow> None | a # _ \<Rightarrow> Some a) = Some a"
    using assms(3) by (auto simp: find_approved_def split: prod.splits sum.splits)
  from l(2) obtain rest where "?usable found = a # rest" by (cases "?usable found") simp_all
  then have "a \<in> set (?usable found)" by (metis list.set_intros(1))
  then obtain v where "(a, v) \<in> set found" "approval_covers a tool case_id" by auto
  with view_list_document[OF assms(1,2) l(1)] show ?thesis by blast
qed

lemma latest_for_case_state:
  assumes "ns_store mandates = store" "valid s" "latest_for_case mandates c n s = (s', res)"
  shows "s' = s"
  using assms view_list_state[OF assms(1,2)] by (auto simp: latest_for_case_def split: prod.splits sum.splits)

end

lemma authorize_mandate_Allow [simp]:
  "authorize_mandate m request now = PolicyDecision.Allow \<longleftrightarrow> permits m request now = MandateDecision.Allowed"
  by (simp add: authorize_mandate_def split: MandateDecision.split)

lemma authorize_records [simp]: "authorize (st\<lparr>pe_records := s\<rparr>) = authorize st"
  by (intro ext) (simp add: authorize_def engine_snapshot_def)

text \<open>The stores of an engine are views of one record store, its approvals kept under their ids.\<close>

definition engine_over ::
  "('s, 'v) RecordStore \<Rightarrow> ('s \<Rightarrow> string \<times> string \<Rightarrow> 'v Record option) \<Rightarrow> ('s, 'v) PolicyEngine \<Rightarrow> 's PolicyState \<Rightarrow> bool" where
  "engine_over store contents engine st \<longleftrightarrow>
     ns_store (pe_view engine) = store \<and> ns_store (pe_mandates engine) = store \<and>
     serde_ok (pe_view engine) \<and> serde_ok (pe_mandates engine) \<and>
     pred_option (\<lambda>approvals. ns_store approvals = store \<and> serde_ok approvals \<and>
       keyed_by_id approvals (contents (pe_records st))) (pe_approvals engine)"

text \<open>What a principal needs for a tool of the human tier, and the effect of the check on the records.\<close>

definition human_tier_met ::
  "('s, 'v) PolicyEngine \<Rightarrow> Principal \<Rightarrow> string option \<Rightarrow> string \<Rightarrow> string option \<Rightarrow> datetime \<Rightarrow> 's PolicyState \<Rightarrow>
     (string \<times> string \<Rightarrow> 'v Record option) \<Rightarrow> (string \<times> string \<Rightarrow> 'v Record option) \<Rightarrow> bool" where
  "human_tier_met engine who project_id tool case_id now st m m' \<longleftrightarrow>
     authorize st who Permission.ProactiveExecute project_id now = PolicyDecision.Allow \<and> m' = m \<or>
     (\<exists>approvals. pe_approvals engine = Some approvals \<and> permit_spent approvals tool case_id now m m')"

definition mandate_met ::
  "('s, 'v) PolicyEngine \<Rightarrow> string \<Rightarrow> string option \<Rightarrow> datetime \<Rightarrow> 's \<Rightarrow> bool" where
  "mandate_met engine tool case_id now s \<longleftrightarrow>
     (\<exists>c m. case_id = Some c \<and> snd (latest_for_case (pe_mandates engine) c 256 s) = Inr (Some m) \<and>
        permits m (MandateRequest_default\<lparr>rq_tool := Some tool,
          rq_action := Some (tp_action (requirement (pe_tools engine) tool))\<rparr>) now = MandateDecision.Allowed)"

definition tool_allowed ::
  "('s, 'v) PolicyEngine \<Rightarrow> Principal \<Rightarrow> string \<Rightarrow> string option \<Rightarrow> string option \<Rightarrow> datetime \<Rightarrow> 's PolicyState \<Rightarrow>
     (string \<times> string \<Rightarrow> 'v Record option) \<Rightarrow> (string \<times> string \<Rightarrow> 'v Record option) \<Rightarrow> bool" where
  "tool_allowed engine who tool project_id case_id now st m m' \<longleftrightarrow>
     tp_known (requirement (pe_tools engine) tool) \<and>
     authorize st who (required_permission (tp_action (requirement (pe_tools engine) tool))) project_id now = PolicyDecision.Allow \<and>
     (if tp_human_approval (requirement (pe_tools engine) tool)
      then human_tier_met engine who project_id tool case_id now st m m' else m' = m) \<and>
     (tp_requires_mandate_scope (requirement (pe_tools engine) tool) \<longrightarrow> mandate_met engine tool case_id now (pe_records st))"

context record_store
begin

lemma tool_gate_cases:
  assumes over: "engine_over store contents engine st" and "valid (pe_records st)"
    and "tool_gate engine who tool project_id case_id now st = (st', res)"
  shows "st' = st \<and> (case res of
      Inl decision \<Rightarrow> decision \<noteq> PolicyDecision.Allow
    | Inr permit \<Rightarrow> tp_known (requirement (pe_tools engine) tool) \<and>
        authorize st who (required_permission (tp_action (requirement (pe_tools engine) tool))) project_id now = PolicyDecision.Allow \<and>
        (case permit of
           None \<Rightarrow> tp_human_approval (requirement (pe_tools engine) tool) \<longrightarrow>
             authorize st who Permission.ProactiveExecute project_id now = PolicyDecision.Allow
         | Some i \<Rightarrow> tp_human_approval (requirement (pe_tools engine) tool) \<and>
             (\<exists>approvals a v. pe_approvals engine = Some approvals \<and> approval_covers a tool case_id \<and> ta_id a = i \<and>
               document approvals (contents (pe_records st)) i = Some (a, v))))"
proof -
  have found: "s' = pe_records st \<and> approval_covers a tool case_id \<and>
      (\<exists>v. document approvals (contents (pe_records st)) (ta_id a) = Some (a, v))"
    if "pe_approvals engine = Some approvals" "find_approved approvals tool case_id now (pe_records st) = (s', Inr (Some a))"
    for approvals s' a
    using that over find_approved_state[OF _ assms(2) that(2)] find_approved_found[OF _ assms(2) that(2)]
    by (auto simp: engine_over_def keyed_by_id_def)
  have state: "s' = pe_records st"
    if "pe_approvals engine = Some approvals" "find_approved approvals tool case_id now (pe_records st) = (s', r)" for approvals s' r
    using that over find_approved_state[OF _ assms(2) that(2)] by (auto simp: engine_over_def)
  show ?thesis using assms(3) found state
    by (fastforce simp: tool_gate_def Let_def peek_human_tier_permit_def requires_human_def
        split: if_splits option.splits prod.splits sum.splits)
qed

lemma settle_cases:
  assumes over: "engine_over store contents engine st" and "valid (pe_records st)"
    and "settle_tool_decision engine permit tool now st = (st', decision)"
    and permit: "\<And>i. permit = Some i \<Longrightarrow> \<exists>approvals a v. pe_approvals engine = Some approvals \<and>
      approval_covers a tool case_id \<and> ta_id a = i \<and> document approvals (contents (pe_records st)) i = Some (a, v)"
  shows "pe_snapshot st' = pe_snapshot st \<and>
    (if decision = PolicyDecision.Allow
     then if permit = None then st' = st else \<exists>approvals. pe_approvals engine = Some approvals \<and>
       permit_spent approvals tool case_id now (contents (pe_records st)) (contents (pe_records st'))
     else st' = st)"
proof (cases permit)
  case None
  with assms(3) show ?thesis by (auto simp: settle_tool_decision_def)
next
  case (Some i)
  then obtain approvals a v where a: "pe_approvals engine = Some approvals" "approval_covers a tool case_id" "ta_id a = i"
    "document approvals (contents (pe_records st)) i = Some (a, v)" using permit by blast
  then have view: "ns_store approvals = store" "serde_ok approvals" using over by (simp_all add: engine_over_def)
  obtain s' r where r: "store_consume approvals i now (pe_records st) = (s', r)" by fastforce
  have spent: "permit_spent approvals tool case_id now (contents (pe_records st)) (contents s')" if "r = Inr used" for used
    using store_consume_sequential[OF view assms(2) r] a that
    unfolding permit_spent_def by (intro exI[of _ a]) auto
  from store_consume_sequential[OF view assms(2) r] a(1) r Some assms(3) spent show ?thesis
    by (cases r) (auto simp: settle_tool_decision_def requires_human_def)
qed

lemma authorize_tool_gated:
  assumes "ns_store (pe_mandates engine) = store" "valid (pe_records st)"
    and "tool_gate engine who tool project_id case_id now st = (st, Inr permit)"
  shows "if tp_requires_mandate_scope (requirement (pe_tools engine) tool) \<longrightarrow> mandate_met engine tool case_id now (pe_records st)
    then authorize_tool engine who tool project_id case_id now st = settle_tool_decision engine permit tool now st
    else \<exists>reason. authorize_tool engine who tool project_id case_id now st = (st, PolicyDecision.Deny reason)"
proof (cases case_id)
  case None
  with assms(3) show ?thesis by (simp add: authorize_tool_def Let_def mandate_met_def)
next
  case (Some c)
  obtain s r where l: "latest_for_case (pe_mandates engine) c 256 (pe_records st) = (s, r)" by fastforce
  then have "s = pe_records st" using latest_for_case_state[OF assms(1,2)] by blast
  with assms(3) Some l show ?thesis
    by (auto simp: authorize_tool_def Let_def mandate_met_def authorize_mandate_def
        split: sum.splits option.splits MandateDecision.splits)
qed

lemma authorize_tool_cases:
  assumes over: "engine_over store contents engine st" and "valid (pe_records st)"
    and "authorize_tool engine who tool project_id case_id now st = (st', decision)"
  shows "if decision = PolicyDecision.Allow then
      tool_allowed engine who tool project_id case_id now st (contents (pe_records st)) (contents (pe_records st'))
    else st' = st"
proof -
  obtain st1 gate where g: "tool_gate engine who tool project_id case_id now st = (st1, gate)" by fastforce
  note gc = tool_gate_cases[OF over assms(2) g]
  have mand: "ns_store (pe_mandates engine) = store" using over by (simp add: engine_over_def)
  show ?thesis
  proof (cases gate)
    case (Inl d)
    with gc g assms(3) show ?thesis by (auto simp: authorize_tool_def)
  next
    case (Inr permit)
    with gc g have g': "tool_gate engine who tool project_id case_id now st = (st, Inr permit)" by simp
    have permit: "\<exists>approvals a v. pe_approvals engine = Some approvals \<and> approval_covers a tool case_id \<and> ta_id a = i \<and>
        document approvals (contents (pe_records st)) i = Some (a, v)" if "permit = Some i" for i
      using gc that Inr by simp
    note gated = authorize_tool_gated[OF mand assms(2) g', unfolded assms(3)]
    show ?thesis
    proof (cases "tp_requires_mandate_scope (requirement (pe_tools engine) tool) \<longrightarrow> mandate_met engine tool case_id now (pe_records st)")
      case True
      with gated have "settle_tool_decision engine permit tool now st = (st', decision)" by auto
      from settle_cases[OF over assms(2) this permit] gc Inr True show ?thesis
        by (cases permit) (auto simp: tool_allowed_def human_tier_met_def)
    qed (use gated in auto)
  qed
qed

end

section \<open>Tools\<close>

text \<open>
  C4. When \<open>authorize_tool\<close> allows a call, the tool is in the table, the principal holds the permission of
  its action, a tool that needs a mandate is covered by the latest mandate of the case, and a tool of
  the human tier is called by an operator, with no record changed, or spends exactly one approved,
  unexpired permit for this tool and case: that one approval is used afterwards, at its next version,
  and every other record, the other approvals among them, is as it was. A tool outside the human tier
  changes no record.
\<close>

theorem authorize_tool_sound:
  assumes "record_store store contents ready valid" "engine_over store contents engine st" "valid (pe_records st)"
    and "authorize_tool engine who tool project_id case_id now st = (st', PolicyDecision.Allow)"
  shows "tool_allowed engine who tool project_id case_id now st (contents (pe_records st)) (contents (pe_records st'))"
  using record_store.authorize_tool_cases[OF assms(1), OF assms(2-4)] by simp

text \<open>
  A denied call burns no consent: whatever the reason, it leaves the records and the snapshot as
  they were.
\<close>

lemma authorize_tool_denial_keeps:
  assumes "record_store store contents ready valid" "engine_over store contents engine st" "valid (pe_records st)"
    and "authorize_tool engine who tool project_id case_id now st = (st', PolicyDecision.Deny reason)"
  shows "st' = st"
  using record_store.authorize_tool_cases[OF assms(1), OF assms(2-4)] by simp

section \<open>Installing a snapshot\<close>

text \<open>
  Installing a policy advances its generation, up to the largest \<open>u64\<close>, and survives a restart: an
  engine that starts over the same records with any other snapshot loads exactly what was installed.
\<close>

lemma install_survives_restart:
  assumes rs: "record_store store contents ready valid"
    and over: "ns_store (pe_view engine) = store" "serde_ok (pe_view engine)"
    and s: "valid (pe_records st)" "ready (pe_records st)" and "\<not> pe_poisoned st" "\<not> pe_poisoned st0"
  shows "\<exists>st' v. install engine snapshot st = (st', Inr v) \<and>
    (engine_version st < v \<or> engine_version st = - 1 \<and> v = - 1) \<and> engine_version st' = v \<and>
    engine_snapshot st' = snapshot\<lparr>ps_version := v\<rparr> \<and>
    load_persisted engine (st0\<lparr>pe_records := pe_records st'\<rparr>) =
      (st0\<lparr>pe_records := pe_records st', pe_snapshot := snapshot\<lparr>ps_version := v\<rparr>\<rparr>, Inr (Some v))"
proof -
  let ?v = "if engine_version st < ps_version snapshot then ps_version snapshot else PolicyVersion_next (engine_version st)"
  let ?new = "snapshot\<lparr>ps_version := ?v\<rparr>" and ?view = "pe_view engine"
  obtain s' r where put: "view_put ?view ''current'' ?new None (pe_records st) = (s', Inr r)" "ready s'"
    "contents s' = (contents (pe_records st))((ns_namespace ?view, ''current'') \<mapsto> r)" "ns_from_value ?view (rec_value r) = Inr ?new"
    using record_store.view_put_match[OF rs, OF over s, where key = "''current''" and ev = None and a = ?new]
    by (metis cas_matches.simps(1))
  have get: "view_get ?view ''current'' s' = (s', Inr (Some (?new, rec_version r)))"
    using record_store.view_get_found[OF rs, OF over(1) put(2) _ put(4)] put(3) by simp
  have "engine_version st < ?v \<or> engine_version st = - 1 \<and> ?v = - 1"
    using saturating_add_one_greater[of "engine_version st"]
    by (cases "engine_version st = - 1") (auto simp: PolicyVersion_next_def saturating_add_def unat_minus_one_eq)
  with put(1) get assms(6,7) show ?thesis
    by (intro exI[of _ "st\<lparr>pe_records := s', pe_snapshot := ?new\<rparr>"] exI[of _ ?v])
      (simp add: install_def load_persisted_def install_in_memory_def engine_version_def engine_snapshot_def Let_def)
qed

section \<open>Issuing mandates\<close>

lemma authorize_issue_kind:
  "authorize st who Permission.MandateIssue project_id now = PolicyDecision.Allow \<Longrightarrow>
     p_kind who = PrincipalKind.User \<or> p_kind who = PrincipalKind.Service"
  by (cases "p_kind who") (auto simp: authorize_def evaluate_def may_hold_def split: if_splits)

lemma delegation_ignores_case: "permits (m\<lparr>m_case_id := c\<rparr>) = permits m"
  by (intro ext) (simp add: permits_def permits_scopes_def budget_scope_def split: option.split)

definition draft_mandate ::
  "'s PolicyState \<Rightarrow> string \<Rightarrow> Principal \<Rightarrow> string \<Rightarrow> MandateScope list \<Rightarrow> MandateOrigin \<Rightarrow> datetime option \<Rightarrow> datetime \<Rightarrow> Mandate" where
  "draft_mandate st i grantor case_id scopes origin expires_at now =
     (Mandate_new i case_id grantor origin scopes (engine_version st) now)\<lparr>m_expires_at := expires_at\<rparr>"

context record_store
begin

lemma put_new_stored:
  assumes "ns_store mandates = store" "serde_ok mandates" "valid s" "put_new mandates m s = (s', Inr u)"
  shows "contents s (ns_namespace mandates, m_id m) = None \<and> document mandates (contents s') (m_id m) = Some (m, 1) \<and>
    (\<forall>p. p \<noteq> (ns_namespace mandates, m_id m) \<longrightarrow> contents s' p = contents s p)"
proof -
  obtain r where p: "view_put mandates (m_id m) m (Some 0) s = (s', Inr r)"
    using assms(4) by (cases "view_put mandates (m_id m) m (Some 0) s"; cases "snd (view_put mandates (m_id m) m (Some 0) s)")
      (auto simp: put_new_def)
  have "ready s"
  proof (rule ccontr)
    assume "\<not> ready s"
    from put_down[OF this] p assms(1) show False
      by (cases "ns_to_value mandates m") (auto simp: view_put_def, metis old.sum.distinct(1) prod.inject)
  qed
  moreover from this have "contents s (ns_namespace mandates, m_id m) = None"
    using view_create_exists[OF assms(1-3), of "m_id m" _ m] p
    by (cases "contents s (ns_namespace mandates, m_id m)") simp_all
  ultimately show ?thesis
    using view_create[OF assms(1-3), of "m_id m" m] p by (fastforce simp: document_def)
qed

lemma mandate_get_state:
  assumes "ns_store mandates = store" "mandate_get mandates i s = (s', res)"
  shows "s' = s \<and> (\<forall>m v. res = Inr (Some (m, v)) \<longrightarrow> document mandates (contents s) i = Some (m, v))"
  using assms(1) by (cases rule: view_get_cases[where key = i and s = s])
    (use assms(2) in \<open>auto simp: mandate_get_def document_def\<close>)

lemma issue_mandate_cases:
  assumes over: "engine_over store contents engine st" and "valid (pe_records st)"
    and "issue_mandate engine i grantor case_id project_id scopes origin expires_at delegated_from now st = (st', Inr m)"
  defines "draft \<equiv> draft_mandate st i grantor case_id scopes origin expires_at now"
  shows "authorize st grantor Permission.MandateIssue project_id now = PolicyDecision.Allow \<and>
    snd (put_new (pe_mandates engine) m (pe_records st)) = Inr () \<and>
    pe_records st' = fst (put_new (pe_mandates engine) m (pe_records st)) \<and>
    (case delegated_from of
       None \<Rightarrow> m = draft \<and>
         (\<forall>x. snd (latest_for_case (pe_mandates engine) case_id 256 (pe_records st)) = Inr (Some x) \<longrightarrow>
           is_revoked x \<or> is_expired x now \<or> m_id x = i)
     | Some p \<Rightarrow> origin \<noteq> HumanIssued \<and> (\<exists>parent v. document (pe_mandates engine) (contents (pe_records st)) p = Some (parent, v) \<and>
         validate_child parent (delegate_from draft parent) now (Some (engine_version st)) = Allowed \<and>
         m = (delegate_from draft parent)\<lparr>m_case_id := m_case_id parent\<rparr>))"
proof -
  have view: "ns_store (pe_mandates engine) = store" using over by (simp add: engine_over_def)
  have decision: "authorize st grantor Permission.MandateIssue project_id now = PolicyDecision.Allow"
    "\<not> (origin = HumanIssued \<and> delegated_from \<noteq> None)"
    using assms(3) by (auto simp: issue_mandate_def Let_def split: if_splits)
  show ?thesis
  proof (cases delegated_from)
    case None
    obtain s r where l: "latest_for_case (pe_mandates engine) case_id 256 (pe_records st) = (s, r)" by fastforce
    then have "s = pe_records st" using latest_for_case_state[OF view assms(2)] by blast
    then show ?thesis using assms(3) decision None l
      by (auto simp: issue_mandate_def Let_def draft_def draft_mandate_def Mandate_new_def Mandate_with_expiry_def
          split: sum.splits option.splits prod.splits if_splits)
  next
    case (Some p)
    obtain s r where g: "mandate_get (pe_mandates engine) p (pe_records st) = (s, r)" by fastforce
    note mandate_get_state[OF view g]
    then show ?thesis using assms(3) decision Some g
      by (auto simp: issue_mandate_def Let_def draft_def draft_mandate_def Mandate_new_def Mandate_with_expiry_def
          split: sum.splits option.splits prod.splits if_splits MandateDecision.splits)
  qed
qed

end

text \<open>
  A mandate is issued only by a user or a service that holds \<open>mandate_issue\<close>, under an id that was
  free, at the engine's policy version. A delegated mandate never claims the human origin, stays in
  its parent's case and, where the pattern and budget tests are exact, allows nothing that its parent
  does not allow, up to the tolerance on costs; any other mandate is issued only when the case's latest mandate is not in force.
\<close>

lemma issue_mandate_checked:
  assumes rs: "record_store store contents ready valid" and over: "engine_over store contents engine st"
    and s: "valid (pe_records st)"
    and res: "issue_mandate engine i grantor case_id project_id scopes origin expires_at delegated_from now st = (st', Inr m)"
  shows "(p_kind grantor = PrincipalKind.User \<or> p_kind grantor = PrincipalKind.Service) \<and>
    authorize st grantor Permission.MandateIssue project_id now = PolicyDecision.Allow \<and>
    contents (pe_records st) (ns_namespace (pe_mandates engine), i) = None \<and>
    document (pe_mandates engine) (contents (pe_records st')) i = Some (m, 1) \<and>
    m_policy_version m = engine_version st \<and>
    (case delegated_from of
       Some p \<Rightarrow> m_origin m \<noteq> HumanIssued \<and>
         (\<exists>parent v. document (pe_mandates engine) (contents (pe_records st)) p = Some (parent, v) \<and>
            m_case_id m = m_case_id parent \<and>
            (exact_delegation parent m \<longrightarrow> (\<forall>r t. permits m r t = Allowed \<longrightarrow> permits (cost_tolerance parent) r t = Allowed)))
     | None \<Rightarrow> m_case_id m = case_id \<and>
         (\<forall>x. snd (latest_for_case (pe_mandates engine) case_id 256 (pe_records st)) = Inr (Some x) \<longrightarrow>
           m_id x = i \<or> is_revoked x \<or> is_expired x now))"
proof -
  note c = record_store.issue_mandate_cases[OF rs, OF over s res]
  have view: "ns_store (pe_mandates engine) = store" "serde_ok (pe_mandates engine)"
    using over by (simp_all add: engine_over_def)
  have m: "m_id m = i" "m_policy_version m = engine_version st"
    using c by (auto simp: draft_mandate_def Mandate_new_def delegate_from_def split: option.splits)
  have put: "put_new (pe_mandates engine) m (pe_records st) = (pe_records st', Inr ())"
    using c by (metis prod.collapse)
  note stored = record_store.put_new_stored[OF rs, OF view s put, unfolded m]
  have kind: "p_kind grantor = PrincipalKind.User \<or> p_kind grantor = PrincipalKind.Service"
    using c authorize_issue_kind by blast
  show ?thesis
  proof (cases delegated_from)
    case None
    with c m kind stored show ?thesis by (auto simp: draft_mandate_def Mandate_new_def)
  next
    case (Some p)
    let ?draft = "draft_mandate st i grantor case_id scopes origin expires_at now"
    from c Some obtain parent v where d: "document (pe_mandates engine) (contents (pe_records st)) p = Some (parent, v)"
      "validate_child parent (delegate_from ?draft parent) now (Some (engine_version st)) = Allowed"
      "m = (delegate_from ?draft parent)\<lparr>m_case_id := m_case_id parent\<rparr>" "origin \<noteq> HumanIssued" by auto
    have "permits (cost_tolerance parent) r t = Allowed" if "exact_delegation parent m" "permits m r t = Allowed" for r t
      using delegated_narrows(1)[OF d(2)] that by (simp add: d(3) exact_delegation_def delegation_ignores_case)
    with c m kind stored Some d show ?thesis by (auto simp: draft_mandate_def Mandate_new_def delegate_from_def)
  qed
qed

section \<open>An engine over the in-memory store\<close>

datatype stored_value = DPolicy PolicySnapshot | DMandate Mandate | DApproval ToolApproval

definition plain_engine :: "(stored_value InMemoryRecordStore, stored_value) PolicyEngine" where
  "plain_engine =
     \<lparr>pe_view = \<lparr>ns_store = in_memory_store, ns_namespace = ''policy'',
        ns_from_value = (\<lambda>d. case d of DPolicy x \<Rightarrow> Inr x | _ \<Rightarrow> Inl ''not a snapshot''), ns_to_value = Inr \<circ> DPolicy\<rparr>,
      pe_mandates = MandateStore_new in_memory_store
        (\<lambda>d. case d of DMandate x \<Rightarrow> Inr x | _ \<Rightarrow> Inl ''not a mandate'') (Inr \<circ> DMandate),
      pe_tools = builtin,
      pe_approvals = Some (ApprovalStore_new in_memory_store
        (\<lambda>d. case d of DApproval x \<Rightarrow> Inr x | _ \<Rightarrow> Inl ''not an approval'') (Inr \<circ> DApproval))\<rparr>"

definition alice :: Principal where "alice = Principal_new PrincipalKind.User ''alice''"

definition scale_mandate :: Mandate where
  "scale_mandate = Mandate_new ''m1'' ''case-1'' alice HumanIssued [Tool ''scale_workers'', Action ActionClass.Scale] 1 0"

definition ops_snapshot :: PolicySnapshot where
  "ops_snapshot = add_grant (Principal_new PrincipalKind.Service ''ops'') [Permission.WorkerScale] (development_snapshot ''alice'')"

definition engine_state :: "stored_value InMemoryRecordStore PolicyState" where
  "engine_state =
     \<lparr>pe_snapshot = ops_snapshot, pe_poisoned = False,
      pe_records = \<lparr>mem_inner =
        [((''mandate'', ''m1''), \<lparr>rec_namespace = ''mandate'', rec_key = ''m1'', rec_version = 1,
            rec_value = DMandate scale_mandate, rec_updated_at = 0\<rparr>),
         ((''approvals'', ta_id scale_approved), \<lparr>rec_namespace = ''approvals'', rec_key = ta_id scale_approved,
            rec_version = 1, rec_value = DApproval scale_approved, rec_updated_at = 0\<rparr>)],
        mem_poisoned = False, mem_clock = 0\<rparr>\<rparr>"

lemma engine_state_ok:
  "engine_over in_memory_store mem_contents plain_engine engine_state" "mem_valid (pe_records engine_state)"
  "mem_ready (pe_records engine_state)"
proof -
  show "mem_valid (pe_records engine_state)" "mem_ready (pe_records engine_state)"
    by (simp_all add: engine_state_def mem_valid_def mem_ready_def rows_ok_def)
  show "engine_over in_memory_store mem_contents plain_engine engine_state"
    by (auto simp: engine_over_def plain_engine_def MandateStore_new_def ApprovalStore_new_def serde_ok_def
        keyed_by_id_def document_def engine_state_def mem_contents_def split: if_splits stored_value.splits)
qed

theorem authorize_tool_sound_witness:
  "permit_spent (the (pe_approvals plain_engine)) ''scale_workers'' (Some ''case-1'') 6
     (mem_contents (pe_records engine_state))
     (mem_contents (pe_records (fst (authorize_tool plain_engine (Principal_new PrincipalKind.Service ''ops'')
        ''scale_workers'' None (Some ''case-1'') 6 engine_state))))"
proof -
  let ?who = "Principal_new PrincipalKind.Service ''ops''"
  let ?run = "authorize_tool plain_engine ?who ''scale_workers'' None (Some ''case-1'') 6 engine_state"
  have "snd ?run = PolicyDecision.Allow" by code_simp
  then have run: "?run = (fst ?run, PolicyDecision.Allow)" by (metis prod.collapse)
  have "authorize engine_state ?who Permission.ProactiveExecute None 6 \<noteq> PolicyDecision.Allow"
    "tp_human_approval (requirement (pe_tools plain_engine) ''scale_workers'')" by code_simp+
  with authorize_tool_sound[OF mem.record_store_axioms, OF engine_state_ok(1,2) run] show ?thesis
    by (auto simp: tool_allowed_def human_tier_met_def)
qed

end
