(* ===== verification/Agent_Types.thy ===== *)
theory Agent_Types
  imports Prelude Ieee
begin

text \<open>
  The task types of the orchestrator (\<open>crates/uc-types/src/agent.rs\<close>, \<open>crates/uc-types/src/error.rs\<close>) that the
  scheduler and the gateway share. Ids are the strings they wrap.
\<close>

section \<open>Errors\<close>

datatype EngineError =
    NotFound string | SearchError string | IndexError string | MemoryReadError string | MemoryWriteError string
  | IndexingError string | ConnectionError string | TimeoutError string | RateLimited u64
  | ConflictError string string | TaskError string | WorkerUnavailable string | SandboxError string
  | ConfigError string | InternalError string | StorageError string | InvalidOperation string

section \<open>Tasks\<close>

type_synonym TaskId = string
type_synonym WorkerId = string

datatype TaskStatus = Created | Planning | InProgress | Completed | Failed | Paused

datatype DispatchMode = Remote | PreferRemote

datatype EffectClass = ReadOnly | LocalSafe | RequiresWorker

fun EffectClass_as_str :: "EffectClass \<Rightarrow> string" where
  "EffectClass_as_str ReadOnly = ''read_only''"
| "EffectClass_as_str LocalSafe = ''local_safe''"
| "EffectClass_as_str RequiresWorker = ''requires_worker''"

record WorkflowStep =
  ws_agent :: string
  ws_prompt :: string
  ws_agent_config_json :: "string option"
  ws_abort_on_failure :: bool
  ws_retry_count :: u32
  ws_retry_delay_ms :: u64
  ws_condition :: "string option"
  ws_parallel_group :: "string option"

datatype SubtaskStatus = Pending | Assigned | InProgress | Completed | Failed | Conflicted

datatype ChangeType = Created | Modified | Deleted

record FileChange =
  fc_file_path :: string
  fc_change_type :: ChangeType
  fc_diff :: string

record SubtaskUsage =
  su_input_tokens :: "u64 option"
  su_output_tokens :: "u64 option"
  su_total_cost_usd :: "f64 option"
  su_source :: "string option"

definition SubtaskUsage_is_empty :: "SubtaskUsage \<Rightarrow> bool" where
  "SubtaskUsage_is_empty u \<longleftrightarrow> su_input_tokens u = None \<and> su_output_tokens u = None \<and> su_total_cost_usd u = None"

record SubtaskReview =
  sr_approved :: bool
  sr_issues :: "string list"
  sr_suggestions :: "string list"

record SubtaskResult =
  res_subtask_id :: TaskId
  res_worker_id :: WorkerId
  res_modified_files :: "FileChange list"
  res_summary :: string
  res_success :: bool
  res_completed_at :: datetime
  res_result :: "string option"
  res_usage :: "SubtaskUsage option"
  res_review :: "SubtaskReview option"

record Subtask =
  st_id :: TaskId
  st_parent_id :: TaskId
  st_description :: string
  st_status :: SubtaskStatus
  st_assigned_worker :: "WorkerId option"
  st_depends_on :: "TaskId list"
  st_file_constraints :: "string list"
  st_expected_output :: string
  st_result :: "SubtaskResult option"
  st_dispatch_mode :: DispatchMode
  st_effect_class :: EffectClass
  st_dispatch_retry_count :: u32
  st_required_capabilities :: "string list"
  st_agent_config_json :: "string option"
  st_steps :: "WorkflowStep list"
  st_retry_count :: u32

record StepUsage =
  su_step_index :: u32
  su_parallel_group :: string
  su_usage :: "SubtaskUsage option"
  su_step_source :: "string option"

record Task =
  t_id :: TaskId
  t_description :: string
  t_project_id :: string
  t_status :: TaskStatus
  t_subtasks :: "Subtask list"
  t_created_at :: datetime
  t_updated_at :: datetime

end
