(* ===== verification/Trigger_Inbox.thy ===== *)
theory Trigger_Inbox
  imports Record_Store
begin

text \<open>
  External events and their routing to cases: \<open>crates/uc-types/src/governance/trigger.rs\<close> and
  \<open>crates/uc-engine/src/governance/trigger_inbox.rs\<close>. The SHA-256 digest, the rendering of a payload, the labels
  read from it and the fresh ids are arguments. The locale \<open>trigger_inbox\<close> holds the two views of an
  inbox; an event is processed at most once and reaches exactly the cases that listen.
\<close>

section \<open>Events\<close>

datatype SourceKind = GitHub | Ci | Lark | Dashboard | Api | Cron | Manual

fun SourceKind_as_str :: "SourceKind \<Rightarrow> string" where
  "SourceKind_as_str SourceKind.GitHub = ''github''"
| "SourceKind_as_str SourceKind.Ci = ''ci''"
| "SourceKind_as_str SourceKind.Lark = ''lark''"
| "SourceKind_as_str SourceKind.Dashboard = ''dashboard''"
| "SourceKind_as_str SourceKind.Api = ''api''"
| "SourceKind_as_str SourceKind.Cron = ''cron''"
| "SourceKind_as_str SourceKind.Manual = ''manual''"

definition SourceKind_from_str_lossy :: "string \<Rightarrow> SourceKind option" where
  "SourceKind_from_str_lossy v = (let s = to_ascii_lowercase (trim v) in
     if s = ''github'' then Some SourceKind.GitHub
     else if s = ''ci'' then Some SourceKind.Ci
     else if s = ''lark'' \<or> s = ''feishu'' then Some SourceKind.Lark
     else if s = ''dashboard'' then Some SourceKind.Dashboard
     else if s = ''api'' then Some SourceKind.Api
     else if s = ''cron'' then Some SourceKind.Cron
     else if s = ''manual'' then Some SourceKind.Manual
     else None)"

datatype TriggerKind =
  IssueOpened | IssueComment | PullRequestOpened | PullRequestSynchronize | PullRequestReview |
  PullRequestComment | Push | CheckRun | WorkflowRun | Message | CronTick | ApiCall | Manual

fun TriggerKind_as_str :: "TriggerKind \<Rightarrow> string" where
  "TriggerKind_as_str TriggerKind.IssueOpened = ''issue_opened''"
| "TriggerKind_as_str TriggerKind.IssueComment = ''issue_comment''"
| "TriggerKind_as_str TriggerKind.PullRequestOpened = ''pull_request_opened''"
| "TriggerKind_as_str TriggerKind.PullRequestSynchronize = ''pull_request_synchronize''"
| "TriggerKind_as_str TriggerKind.PullRequestReview = ''pull_request_review''"
| "TriggerKind_as_str TriggerKind.PullRequestComment = ''pull_request_comment''"
| "TriggerKind_as_str TriggerKind.Push = ''push''"
| "TriggerKind_as_str TriggerKind.CheckRun = ''check_run''"
| "TriggerKind_as_str TriggerKind.WorkflowRun = ''workflow_run''"
| "TriggerKind_as_str TriggerKind.Message = ''message''"
| "TriggerKind_as_str TriggerKind.CronTick = ''cron_tick''"
| "TriggerKind_as_str TriggerKind.ApiCall = ''api_call''"
| "TriggerKind_as_str TriggerKind.Manual = ''manual''"

definition TriggerKind_from_str_lossy :: "string \<Rightarrow> TriggerKind option" where
  "TriggerKind_from_str_lossy v = (let s = to_ascii_lowercase (trim v) in
     if s = ''issue_opened'' then Some TriggerKind.IssueOpened
     else if s = ''issue_comment'' then Some TriggerKind.IssueComment
     else if s = ''pull_request_opened'' then Some TriggerKind.PullRequestOpened
     else if s = ''pull_request_synchronize'' then Some TriggerKind.PullRequestSynchronize
     else if s = ''pull_request_review'' then Some TriggerKind.PullRequestReview
     else if s = ''pull_request_comment'' then Some TriggerKind.PullRequestComment
     else if s = ''push'' then Some TriggerKind.Push
     else if s = ''check_run'' then Some TriggerKind.CheckRun
     else if s = ''workflow_run'' then Some TriggerKind.WorkflowRun
     else if s = ''message'' then Some TriggerKind.Message
     else if s = ''cron_tick'' then Some TriggerKind.CronTick
     else if s = ''api_call'' then Some TriggerKind.ApiCall
     else if s = ''manual'' then Some TriggerKind.Manual
     else None)"

definition is_thread_update :: "TriggerKind \<Rightarrow> bool" where
  "is_thread_update kind \<longleftrightarrow> kind \<in> {TriggerKind.IssueComment, TriggerKind.PullRequestSynchronize,
     TriggerKind.PullRequestReview, TriggerKind.PullRequestComment, TriggerKind.CheckRun,
     TriggerKind.WorkflowRun, TriggerKind.Push}"

record 'p TriggerEvent =
  te_id :: string
  te_source :: SourceKind
  te_kind :: TriggerKind
  te_external_id :: string
  te_thread_key :: "string option"
  te_repo :: "string option"
  te_actor :: "string option"
  te_payload_digest :: "string option"
  te_payload :: 'p
  te_received_at :: datetime

definition TriggerEvent_new ::
  "(string \<Rightarrow> string) \<Rightarrow> ('p \<Rightarrow> string) \<Rightarrow> string \<Rightarrow> SourceKind \<Rightarrow> TriggerKind \<Rightarrow> string \<Rightarrow> 'p \<Rightarrow> datetime \<Rightarrow> 'p TriggerEvent" where
  "TriggerEvent_new sha256_hex to_string fresh_id source kind external_id payload now =
     \<lparr>te_id = fresh_id, te_source = source, te_kind = kind, te_external_id = external_id, te_thread_key = None,
      te_repo = None, te_actor = None, te_payload_digest = Some (sha256_hex (to_string payload)),
      te_payload = payload, te_received_at = now\<rparr>"

definition with_thread :: "'p TriggerEvent \<Rightarrow> string \<Rightarrow> 'p TriggerEvent" where
  "with_thread e thread_key = e\<lparr>te_thread_key := Some thread_key\<rparr>"

definition with_repo :: "'p TriggerEvent \<Rightarrow> string \<Rightarrow> 'p TriggerEvent" where
  "with_repo e repo = e\<lparr>te_repo := Some repo\<rparr>"

definition with_actor :: "'p TriggerEvent \<Rightarrow> string \<Rightarrow> 'p TriggerEvent" where
  "with_actor e actor = e\<lparr>te_actor := Some actor\<rparr>"

definition thread_key_for :: "string \<Rightarrow> u64 \<Rightarrow> string" where
  "thread_key_for repo number = repo @ ''#'' @ show_word number"

definition dedup_material :: "'p TriggerEvent \<Rightarrow> string" where
  "dedup_material e = SourceKind_as_str (te_source e) @ ''|'' @ TriggerKind_as_str (te_kind e) @ ''|'' @
     te_external_id e @ ''|'' @ (case te_payload_digest e of Some d \<Rightarrow> d | None \<Rightarrow> [])"

definition dedup_key :: "(string \<Rightarrow> string) \<Rightarrow> 'p TriggerEvent \<Rightarrow> string" where
  "dedup_key sha256_hex e = sha256_hex (dedup_material e)"

section \<open>Subscriptions\<close>

record SubscriptionFilter =
  sf_repo :: "string option"
  sf_kinds :: "TriggerKind list"
  sf_thread_key :: "string option"
  sf_labels :: "string list"

definition filter_default :: SubscriptionFilter where
  "filter_default = \<lparr>sf_repo = None, sf_kinds = [], sf_thread_key = None, sf_labels = []\<rparr>"

definition filter_thread :: "string \<Rightarrow> SubscriptionFilter" where
  "filter_thread thread_key = filter_default\<lparr>sf_thread_key := Some thread_key\<rparr>"

definition filter_repo :: "string \<Rightarrow> SubscriptionFilter" where
  "filter_repo repo = filter_default\<lparr>sf_repo := Some repo\<rparr>"

definition with_kinds :: "SubscriptionFilter \<Rightarrow> TriggerKind list \<Rightarrow> SubscriptionFilter" where
  "with_kinds f kinds = f\<lparr>sf_kinds := kinds\<rparr>"

text \<open>\<open>labels\<close> stands for the JSON access: the text values of the payload's \<open>labels\<close> array, empty without one.\<close>

definition filter_matches :: "('p \<Rightarrow> string list) \<Rightarrow> SubscriptionFilter \<Rightarrow> 'p TriggerEvent \<Rightarrow> bool" where
  "filter_matches labels f e =
     (if (case sf_repo f of Some repo \<Rightarrow> te_repo e \<noteq> Some repo | None \<Rightarrow> False) then False
      else if sf_kinds f \<noteq> [] \<and> te_kind e \<notin> set (sf_kinds f) then False
      else if (case sf_thread_key f of Some thread \<Rightarrow> te_thread_key e \<noteq> Some thread | None \<Rightarrow> False) then False
      else if sf_labels f \<noteq> [] \<and> \<not> list_ex (\<lambda>wanted. wanted \<in> set (labels (te_payload e))) (sf_labels f) then False
      else True)"

record Subscription =
  sb_id :: string
  sb_case_id :: string
  sb_source :: SourceKind
  sb_filter :: SubscriptionFilter
  sb_created_at :: datetime
  sb_active :: bool
  sb_last_event_at :: "datetime option"
  sb_event_count :: u64
  sb_auto_resume :: bool

definition Subscription_new :: "string \<Rightarrow> string \<Rightarrow> SourceKind \<Rightarrow> SubscriptionFilter \<Rightarrow> datetime \<Rightarrow> Subscription" where
  "Subscription_new fresh_id case_id source filt now =
     \<lparr>sb_id = fresh_id, sb_case_id = case_id, sb_source = source, sb_filter = filt, sb_created_at = now,
      sb_active = True, sb_last_event_at = None, sb_event_count = 0, sb_auto_resume = False\<rparr>"

definition with_auto_resume :: "Subscription \<Rightarrow> Subscription" where
  "with_auto_resume sub = sub\<lparr>sb_auto_resume := True\<rparr>"

definition record_event :: "datetime \<Rightarrow> Subscription \<Rightarrow> Subscription" where
  "record_event now sub = sub\<lparr>sb_event_count := saturating_add (sb_event_count sub) 1, sb_last_event_at := Some now\<rparr>"

record IngestOutcome =
  io_event_id :: string
  io_dedup_key :: string
  io_accepted :: bool
  io_duplicate :: bool
  io_matched_cases :: "string list"
  io_unmatched_reason :: "string option"
  io_auto_resume_cases :: "string list"

definition IngestOutcome_duplicate :: "string \<Rightarrow> string \<Rightarrow> IngestOutcome" where
  "IngestOutcome_duplicate event_id key =
     \<lparr>io_event_id = event_id, io_dedup_key = key, io_accepted = False, io_duplicate = True,
      io_matched_cases = [], io_unmatched_reason = None, io_auto_resume_cases = []\<rparr>"

section \<open>The inbox\<close>

datatype TriggerInboxError = Store RecordError | NotFound string | Contended

fun TriggerInboxError_display :: "TriggerInboxError \<Rightarrow> string" where
  "TriggerInboxError_display (TriggerInboxError.Store e) = ''trigger inbox: '' @ RecordError_display e"
| "TriggerInboxError_display (TriggerInboxError.NotFound i) = ''subscription '' @ i @ '' not found''"
| "TriggerInboxError_display TriggerInboxError.Contended = ''trigger inbox contention; retry the operation''"

record ('s, 'v, 'p) TriggerInbox =
  ti_events :: "('s, 'v, 'p TriggerEvent) NamespacedStore"
  ti_subscriptions :: "('s, 'v, Subscription) NamespacedStore"

definition TriggerInbox_new ::
  "('s, 'v) RecordStore \<Rightarrow> ('v \<Rightarrow> (string, 'p TriggerEvent) result) \<Rightarrow> ('p TriggerEvent \<Rightarrow> (string, 'v) result) \<Rightarrow>
     ('v \<Rightarrow> (string, Subscription) result) \<Rightarrow> (Subscription \<Rightarrow> (string, 'v) result) \<Rightarrow> ('s, 'v, 'p) TriggerInbox" where
  "TriggerInbox_new records event_from event_to sub_from sub_to =
     \<lparr>ti_events = \<lparr>ns_store = records, ns_namespace = ''trigger_event'', ns_from_value = event_from, ns_to_value = event_to\<rparr>,
      ti_subscriptions = \<lparr>ns_store = records, ns_namespace = ''subscription'', ns_from_value = sub_from, ns_to_value = sub_to\<rparr>\<rparr>"

definition push_new :: "'a \<Rightarrow> 'a list \<Rightarrow> 'a list" where
  "push_new x xs = (if x \<in> set xs then xs else xs @ [x])"

fun fan_out ::
  "('s, 'v, 'p) TriggerInbox \<Rightarrow> ('p \<Rightarrow> string list) \<Rightarrow> 'p TriggerEvent \<Rightarrow> datetime \<Rightarrow> (Subscription \<times> nat) list \<Rightarrow>
     string list \<Rightarrow> string list \<Rightarrow> 's \<Rightarrow> 's \<times> (TriggerInboxError, string list \<times> string list) result" where
  "fan_out inbox labels e now [] matched resume s = (s, Inr (matched, resume))"
| "fan_out inbox labels e now ((sub, version) # rest) matched resume s =
     (if \<not> sb_active sub \<or> sb_source sub \<noteq> te_source e then fan_out inbox labels e now rest matched resume s
      else if \<not> filter_matches labels (sb_filter sub) e then fan_out inbox labels e now rest matched resume s
      else
        let matched = push_new (sb_case_id sub) matched;
            resume = (if sb_auto_resume sub then push_new (sb_case_id sub) resume else resume)
        in case view_put (ti_subscriptions inbox) (sb_id sub) (record_event now sub) (Some version) s of
             (s, Inr _) \<Rightarrow> fan_out inbox labels e now rest matched resume s
           | (s, Inl (Conflict _ _)) \<Rightarrow> fan_out inbox labels e now rest matched resume s
           | (s, Inl other) \<Rightarrow> (s, Inl (TriggerInboxError.Store other)))"

definition ingest ::
  "('s, 'v, 'p) TriggerInbox \<Rightarrow> (string \<Rightarrow> string) \<Rightarrow> ('p \<Rightarrow> string list) \<Rightarrow> 'p TriggerEvent \<Rightarrow> datetime \<Rightarrow> 's \<Rightarrow>
     's \<times> (TriggerInboxError, IngestOutcome) result" where
  "ingest inbox sha256_hex labels e now s =
     (let key = dedup_key sha256_hex e in
      case view_put (ti_events inbox) key e (Some 0) s of
        (s, Inl (Conflict _ _)) \<Rightarrow> (s, Inr (IngestOutcome_duplicate (te_id e) key))
      | (s, Inl other) \<Rightarrow> (s, Inl (TriggerInboxError.Store other))
      | (s, Inr _) \<Rightarrow>
          (case view_list (ti_subscriptions inbox) 1000 s of
             (s, Inl error) \<Rightarrow> (s, Inl (TriggerInboxError.Store error))
           | (s, Inr subscriptions) \<Rightarrow>
               (case fan_out inbox labels e now subscriptions [] [] s of
                  (s, Inl error) \<Rightarrow> (s, Inl error)
                | (s, Inr (matched, resume)) \<Rightarrow>
                    (s, Inr \<lparr>io_event_id = te_id e, io_dedup_key = key, io_accepted = True, io_duplicate = False,
                       io_matched_cases = matched,
                       io_unmatched_reason =
                         (if matched = [] then Some (if te_thread_key e \<noteq> None then ''thread_has_no_subscription''
                                                     else ''no_subscription'')
                          else None),
                       io_auto_resume_cases = resume\<rparr>))))"

fun upsert_loop ::
  "('s, 'v, 'p) TriggerInbox \<Rightarrow> nat \<Rightarrow> Subscription \<Rightarrow> 's \<Rightarrow> 's \<times> (TriggerInboxError, Subscription) result" where
  "upsert_loop inbox 0 sub s = (s, Inl TriggerInboxError.Contended)"
| "upsert_loop inbox (Suc n) sub s =
     (case view_get (ti_subscriptions inbox) (sb_id sub) s of
        (s, Inl e) \<Rightarrow> (s, Inl (TriggerInboxError.Store e))
      | (s, Inr None) \<Rightarrow>
          (case view_put (ti_subscriptions inbox) (sb_id sub) sub (Some 0) s of
             (s, Inr _) \<Rightarrow> (s, Inr sub)
           | (s, Inl (Conflict _ _)) \<Rightarrow> upsert_loop inbox n sub s
           | (s, Inl other) \<Rightarrow> (s, Inl (TriggerInboxError.Store other)))
      | (s, Inr (Some (existing, version))) \<Rightarrow>
          (let sub = sub\<lparr>sb_event_count := sb_event_count existing, sb_last_event_at := sb_last_event_at existing,
                sb_created_at := sb_created_at existing\<rparr>
           in case view_put (ti_subscriptions inbox) (sb_id sub) sub (Some version) s of
                (s, Inr _) \<Rightarrow> (s, Inr sub)
              | (s, Inl (Conflict _ _)) \<Rightarrow> upsert_loop inbox n sub s
              | (s, Inl other) \<Rightarrow> (s, Inl (TriggerInboxError.Store other))))"

definition upsert_subscription ::
  "('s, 'v, 'p) TriggerInbox \<Rightarrow> Subscription \<Rightarrow> 's \<Rightarrow> 's \<times> (TriggerInboxError, Subscription) result" where
  "upsert_subscription inbox sub s = upsert_loop inbox 8 sub s"

definition delete_subscription ::
  "('s, 'v, 'p) TriggerInbox \<Rightarrow> string \<Rightarrow> 's \<Rightarrow> 's \<times> (TriggerInboxError, bool) result" where
  "delete_subscription inbox subscription_id s =
     map_prod id (map_sum TriggerInboxError.Store id) (view_delete (ti_subscriptions inbox) subscription_id s)"

definition list_subscriptions ::
  "('s, 'v, 'p) TriggerInbox \<Rightarrow> string option \<Rightarrow> SourceKind option \<Rightarrow> nat \<Rightarrow> 's \<Rightarrow> 's \<times> (TriggerInboxError, Subscription list) result" where
  "list_subscriptions inbox case_id source limit s =
     map_prod id (map_sum TriggerInboxError.Store (\<lambda>found. filter (\<lambda>sub.
       (case case_id of Some c \<Rightarrow> sb_case_id sub = c | None \<Rightarrow> True) \<and>
       (case source of Some k \<Rightarrow> sb_source sub = k | None \<Rightarrow> True)) (map fst found)))
       (view_list (ti_subscriptions inbox) limit s)"

definition get_event ::
  "('s, 'v, 'p) TriggerInbox \<Rightarrow> string \<Rightarrow> 's \<Rightarrow> 's \<times> (TriggerInboxError, 'p TriggerEvent option) result" where
  "get_event inbox key s = map_prod id (map_sum TriggerInboxError.Store (map_option fst)) (view_get (ti_events inbox) key s)"

definition list_events ::
  "('s, 'v, 'p) TriggerInbox \<Rightarrow> nat \<Rightarrow> 's \<Rightarrow> 's \<times> (TriggerInboxError, 'p TriggerEvent list) result" where
  "list_events inbox limit s = map_prod id (map_sum TriggerInboxError.Store (map fst)) (view_list (ti_events inbox) limit s)"

section \<open>Routing\<close>

definition listens :: "('p \<Rightarrow> string list) \<Rightarrow> 'p TriggerEvent \<Rightarrow> Subscription \<Rightarrow> bool" where
  "listens labels e sub \<longleftrightarrow> sb_active sub \<and> sb_source sub = te_source e \<and> filter_matches labels (sb_filter sub) e"

lemma filter_matches_iff:
  "filter_matches labels f e \<longleftrightarrow> pred_option (\<lambda>repo. te_repo e = Some repo) (sf_repo f) \<and>
     (sf_kinds f = [] \<or> te_kind e \<in> set (sf_kinds f)) \<and>
     pred_option (\<lambda>thread. te_thread_key e = Some thread) (sf_thread_key f) \<and>
     (sf_labels f = [] \<or> set (sf_labels f) \<inter> set (labels (te_payload e)) \<noteq> {})"
  by (auto simp: filter_matches_def list_ex_iff split: option.splits)

lemma push_new_simps [simp]: "set (push_new x xs) = insert x (set xs)" "distinct xs \<Longrightarrow> distinct (push_new x xs)"
  by (auto simp: push_new_def)

text \<open>The two views of an inbox share one record store, in different namespaces.\<close>

locale trigger_inbox = record_store store contents ready valid
  for store :: "('s, 'v) RecordStore" and contents ready valid +
  fixes inbox :: "('s, 'v, 'p) TriggerInbox"
  assumes events_view: "ns_store (ti_events inbox) = store" "serde_ok (ti_events inbox)"
    and subscriptions_view: "ns_store (ti_subscriptions inbox) = store" "serde_ok (ti_subscriptions inbox)"
    and namespaces: "ns_namespace (ti_events inbox) \<noteq> ns_namespace (ti_subscriptions inbox)"
begin

abbreviation sub_ns where "sub_ns \<equiv> ns_namespace (ti_subscriptions inbox)"

lemma fan_out_routes:
  assumes "valid s" "ready s" "distinct (map (sb_id \<circ> fst) subs)"
    and "\<forall>(sub, v) \<in> set subs. \<exists>r. contents s (sub_ns, sb_id sub) = Some r \<and> rec_version r = v"
    and "distinct matched" "distinct resume"
  shows "\<exists>s' matched' resume'. fan_out inbox labels e now subs matched resume s = (s', Inr (matched', resume')) \<and>
    valid s' \<and> ready s' \<and> (\<forall>ns k. ns \<noteq> sub_ns \<longrightarrow> contents s' (ns, k) = contents s (ns, k)) \<and>
    distinct matched' \<and> distinct resume' \<and>
    set matched' = set matched \<union> sb_case_id ` {sub \<in> fst ` set subs. listens labels e sub} \<and>
    set resume' = set resume \<union> sb_case_id ` {sub \<in> fst ` set subs. listens labels e sub \<and> sb_auto_resume sub}"
  using assms
proof (induction subs arbitrary: s matched resume)
  case (Cons x subs)
  obtain sub v where x: "x = (sub, v)" by fastforce
  show ?case
  proof (cases "listens labels e sub")
    case False
    then have "fan_out inbox labels e now (x # subs) matched resume s = fan_out inbox labels e now subs matched resume s"
      by (auto simp: x listens_def)
    moreover have "{t \<in> fst ` set (x # subs). listens labels e t} = {t \<in> fst ` set subs. listens labels e t}"
      "{t \<in> fst ` set (x # subs). listens labels e t \<and> sb_auto_resume t} = {t \<in> fst ` set subs. listens labels e t \<and> sb_auto_resume t}"
      using False by (auto simp: x)
    ultimately show ?thesis using Cons.IH[of s matched resume] Cons.prems by simp
  next
    case True
    let ?matched = "push_new (sb_case_id sub) matched"
      and ?resume = "if sb_auto_resume sub then push_new (sb_case_id sub) resume else resume"
    from Cons.prems(4) x obtain r where r: "contents s (sub_ns, sb_id sub) = Some r" "rec_version r = v" by auto
    then have "cas_matches (contents s (sub_ns, sb_id sub)) (Some v)" by simp
    then obtain s1 r1 where put: "view_put (ti_subscriptions inbox) (sb_id sub) (record_event now sub) (Some v) s = (s1, Inr r1)"
      "valid s1" "ready s1" "contents s1 = (contents s)((sub_ns, sb_id sub) \<mapsto> r1)"
      using view_put_match[OF subscriptions_view Cons.prems(1,2)] by metis
    have "fan_out inbox labels e now (x # subs) matched resume s = fan_out inbox labels e now subs ?matched ?resume s1"
      using True put(1) by (simp add: x listens_def Let_def)
    moreover have "\<forall>(t, w) \<in> set subs. \<exists>q. contents s1 (sub_ns, sb_id t) = Some q \<and> rec_version q = w"
      using Cons.prems(3,4) put(4) x by (fastforce simp: image_iff)
    moreover have "{t \<in> fst ` set (x # subs). listens labels e t} = insert sub {t \<in> fst ` set subs. listens labels e t}"
      "{t \<in> fst ` set (x # subs). listens labels e t \<and> sb_auto_resume t} =
        (if sb_auto_resume sub then {sub} else {}) \<union> {t \<in> fst ` set subs. listens labels e t \<and> sb_auto_resume t}"
      using True by (auto simp: x)
    moreover have "contents s1 (ns, k) = contents s (ns, k)" if "ns \<noteq> sub_ns" for ns k using put(4) that by simp
    ultimately show ?thesis using Cons.IH[of s1 ?matched ?resume] Cons.prems put(2,3) by (cases "sb_auto_resume sub") auto
  qed
qed simp

end

abbreviation subscribed :: "('s, 'v, 'p) TriggerInbox \<Rightarrow> (string \<times> string \<Rightarrow> 'v Record option) \<Rightarrow> Subscription set" where
  "subscribed inbox m \<equiv> documents (ti_subscriptions inbox) sb_id m"

context trigger_inbox
begin

lemma subscriptions_listed:
  assumes "valid s" "ready s" "keyed_by (ti_subscriptions inbox) sb_id (contents s)"
    and "card (keys_of (ti_subscriptions inbox) (contents s)) \<le> n"
  obtains subs where "view_list (ti_subscriptions inbox) n s = (s, Inr subs)" "distinct (map (sb_id \<circ> fst) subs)"
    "\<forall>(sub, v) \<in> set subs. \<exists>r. contents s (sub_ns, sb_id sub) = Some r \<and> rec_version r = v"
    "fst ` set subs = subscribed inbox (contents s)"
proof (rule view_list_all[OF subscriptions_view(1) assms])
  fix subs
  assume l: "view_list (ti_subscriptions inbox) n s = (s, Inr subs)" "distinct (map (sb_id \<circ> fst) subs)"
    "\<forall>a v. (a, v) \<in> set subs \<longleftrightarrow> document (ti_subscriptions inbox) (contents s) (sb_id a) = Some (a, v)"
    "fst ` set subs = subscribed inbox (contents s)"
  have "\<exists>r. contents s (sub_ns, sb_id sub) = Some r \<and> rec_version r = v" if "(sub, v) \<in> set subs" for sub v
    using document_SomeE[OF l(3)[rule_format, THEN iffD1, OF that]] by blast
  then show ?thesis using that[OF l(1,2) _ l(4)] by blast
qed

lemma event_put:
  assumes "valid s" "ready s"
  shows "if contents s (ns_namespace (ti_events inbox), key) = None
    then \<exists>s1 r. view_put (ti_events inbox) key e (Some 0) s = (s1, Inr r) \<and> valid s1 \<and> ready s1 \<and>
      contents s1 = (contents s)((ns_namespace (ti_events inbox), key) \<mapsto> r) \<and>
      ns_from_value (ti_events inbox) (rec_value r) = Inr e \<and> rec_version r = 1
    else \<exists>v. view_put (ti_events inbox) key e (Some 0) s = (s, Inl (Conflict 0 (Some v)))"
proof (cases "contents s (ns_namespace (ti_events inbox), key)")
  case None
  then show ?thesis using view_create[OF events_view assms None, of e] by auto metis
next
  case (Some r)
  then show ?thesis using view_create_exists[OF events_view assms Some, of e] by auto
qed

lemma ingest_duplicate:
  assumes "valid s" "ready s" "contents s (ns_namespace (ti_events inbox), dedup_key sha e) \<noteq> None"
  shows "ingest inbox sha labels e now s = (s, Inr (IngestOutcome_duplicate (te_id e) (dedup_key sha e)))"
  using event_put[OF assms(1,2), of "dedup_key sha e" e] assms(3) by (auto simp: ingest_def Let_def)

lemma ingest_fresh:
  assumes "valid s" "ready s" "keyed_by (ti_subscriptions inbox) sb_id (contents s)"
    and "card (keys_of (ti_subscriptions inbox) (contents s)) \<le> 1000"
    and fresh: "contents s (ns_namespace (ti_events inbox), dedup_key sha e) = None"
  shows "\<exists>s' out. ingest inbox sha labels e now s = (s', Inr out) \<and> valid s' \<and> ready s' \<and>
    document (ti_events inbox) (contents s') (dedup_key sha e) = Some (e, 1) \<and> io_accepted out \<and> \<not> io_duplicate out \<and>
    distinct (io_matched_cases out) \<and>
    set (io_matched_cases out) = sb_case_id ` {sub \<in> subscribed inbox (contents s). listens labels e sub} \<and>
    set (io_auto_resume_cases out) = sb_case_id ` {sub \<in> subscribed inbox (contents s). listens labels e sub \<and> sb_auto_resume sub} \<and>
    (io_unmatched_reason out = None \<longleftrightarrow> io_matched_cases out \<noteq> [])"
proof -
  let ?ens = "ns_namespace (ti_events inbox)" and ?key = "dedup_key sha e"
  obtain s1 r where put: "view_put (ti_events inbox) ?key e (Some 0) s = (s1, Inr r)" "valid s1" "ready s1"
    "contents s1 = (contents s)((?ens, ?key) \<mapsto> r)" "ns_from_value (ti_events inbox) (rec_value r) = Inr e" "rec_version r = 1"
    using event_put[OF assms(1,2), of ?key e] fresh by auto
  have same: "contents s1 (sub_ns, k) = contents s (sub_ns, k)" for k using put(4) namespaces by simp
  then have s1: "keyed_by (ti_subscriptions inbox) sb_id (contents s1)" "card (keys_of (ti_subscriptions inbox) (contents s1)) \<le> 1000"
    "subscribed inbox (contents s1) = subscribed inbox (contents s)"
    using assms(3,4) by (simp_all add: keyed_by_def keys_of_def documents_def document_def)
  obtain subs where l: "view_list (ti_subscriptions inbox) 1000 s1 = (s1, Inr subs)" "distinct (map (sb_id \<circ> fst) subs)"
    "\<forall>(sub, v) \<in> set subs. \<exists>r. contents s1 (sub_ns, sb_id sub) = Some r \<and> rec_version r = v"
    "fst ` set subs = subscribed inbox (contents s)"
    by (rule subscriptions_listed[OF put(2,3) s1(1,2)]) (simp only: s1(3))
  obtain s' matched resume where f: "fan_out inbox labels e now subs [] [] s1 = (s', Inr (matched, resume))" "valid s'" "ready s'"
    "\<forall>ns k. ns \<noteq> sub_ns \<longrightarrow> contents s' (ns, k) = contents s1 (ns, k)" "distinct matched"
    "set matched = sb_case_id ` {sub \<in> fst ` set subs. listens labels e sub}"
    "set resume = sb_case_id ` {sub \<in> fst ` set subs. listens labels e sub \<and> sb_auto_resume sub}"
    using fan_out_routes[OF put(2,3) l(2,3), of "[]" "[]" labels e now] by auto
  have "document (ti_events inbox) (contents s') ?key = Some (e, 1)"
    using f(4) namespaces put(4-6) by (simp add: document_def)
  moreover have "ingest inbox sha labels e now s = (s', Inr \<lparr>io_event_id = te_id e, io_dedup_key = ?key, io_accepted = True,
      io_duplicate = False, io_matched_cases = matched,
      io_unmatched_reason = (if matched = [] then Some (if te_thread_key e \<noteq> None then ''thread_has_no_subscription''
        else ''no_subscription'') else None), io_auto_resume_cases = resume\<rparr>)"
    using put(1) l(1) f(1) by (simp add: ingest_def Let_def)
  ultimately show ?thesis using f l(4) by simp
qed

end

text \<open>
  C26. An event is processed at most once: after a delivery was ingested, every later delivery with the
  same dedup key, whatever was written in between, is reported as a duplicate that matches no case and
  leaves the store as it is.
\<close>

theorem ingest_at_most_once:
  assumes inbox: "trigger_inbox store contents ready valid inbox" and s: "valid s" "ready s"
    and first: "ingest inbox sha labels e now s = (s1, Inr out)"
    and few: "keyed_by (ti_subscriptions inbox) sb_id (contents s)" "card (keys_of (ti_subscriptions inbox) (contents s)) \<le> 1000"
    and later: "advances (contents s1) (contents s2)" "valid s2" "ready s2" "dedup_key sha e' = dedup_key sha e"
  shows "ingest inbox sha labels e' now' s2 = (s2, Inr (IngestOutcome_duplicate (te_id e') (dedup_key sha e')))"
proof -
  let ?p = "(ns_namespace (ti_events inbox), dedup_key sha e)"
  have "contents s1 ?p \<noteq> None"
  proof (cases "contents s ?p = None")
    case True
    from trigger_inbox.ingest_fresh[OF inbox, OF s few this, of labels now] first show ?thesis
      by (auto simp: document_def split: option.splits)
  next
    case False
    from trigger_inbox.ingest_duplicate[OF inbox, OF s this, of labels now] first False show ?thesis by simp
  qed
  then have "contents s2 ?p \<noteq> None" using later(1) advances_version by fastforce
  then show ?thesis using trigger_inbox.ingest_duplicate[OF inbox, OF later(2,3)] later(4) by simp
qed

text \<open>
  A new event is recorded and routed to exactly the cases of the active subscriptions to its source
  whose filter it passes, each once; only those that opted in are named for resumption.
\<close>

lemma ingest_routes:
  assumes "trigger_inbox store contents ready valid inbox" "valid s" "ready s"
    and "keyed_by (ti_subscriptions inbox) sb_id (contents s)" "card (keys_of (ti_subscriptions inbox) (contents s)) \<le> 1000"
    and "contents s (ns_namespace (ti_events inbox), dedup_key sha e) = None"
  shows "\<exists>s' out. ingest inbox sha labels e now s = (s', Inr out) \<and>
    document (ti_events inbox) (contents s') (dedup_key sha e) = Some (e, 1) \<and> io_accepted out \<and>
    distinct (io_matched_cases out) \<and>
    set (io_matched_cases out) = sb_case_id ` {sub \<in> subscribed inbox (contents s). listens labels e sub} \<and>
    set (io_auto_resume_cases out) = sb_case_id ` {sub \<in> subscribed inbox (contents s). listens labels e sub \<and> sb_auto_resume sub}"
  using trigger_inbox.ingest_fresh[OF assms(1), OF assms(2-6)] by blast

section \<open>An inbox on the in-memory store\<close>

text \<open>Documents as they are, the payload being the list of its labels.\<close>

datatype inbox_value = DEvent "string list TriggerEvent" | DSubscription Subscription

definition plain_inbox :: "(inbox_value InMemoryRecordStore, inbox_value, string list) TriggerInbox" where
  "plain_inbox = TriggerInbox_new in_memory_store
     (\<lambda>d. case d of DEvent e \<Rightarrow> Inr e | DSubscription _ \<Rightarrow> Inl ''not an event'') (Inr \<circ> DEvent)
     (\<lambda>d. case d of DSubscription sub \<Rightarrow> Inr sub | DEvent _ \<Rightarrow> Inl ''not a subscription'') (Inr \<circ> DSubscription)"

interpretation mem_inbox: trigger_inbox in_memory_store mem_contents mem_ready mem_valid plain_inbox
  by unfold_locales (auto simp: plain_inbox_def TriggerInbox_new_def serde_ok_def)

definition review_event :: "string list TriggerEvent" where
  "review_event = with_thread (with_repo (TriggerEvent_new id concat ''ev-1'' SourceKind.GitHub TriggerKind.PullRequestReview
     ''42'' [''urgent''] 5) ''acme/app'') (thread_key_for ''acme/app'' 7)"

definition review_subscription :: Subscription where
  "review_subscription = with_auto_resume (Subscription_new ''sub-1'' ''case-1'' SourceKind.GitHub (filter_thread ''acme/app#7'') 1)"

definition subscribed_store :: "inbox_value InMemoryRecordStore" where
  "subscribed_store = \<lparr>mem_inner = [((''subscription'', ''sub-1''), \<lparr>rec_namespace = ''subscription'', rec_key = ''sub-1'',
     rec_version = 1, rec_value = DSubscription review_subscription, rec_updated_at = 1\<rparr>)], mem_poisoned = False, mem_clock = 1\<rparr>"

lemma subscribed_store_ok:
  "mem_valid subscribed_store" "mem_ready subscribed_store"
  "keyed_by (ti_subscriptions plain_inbox) sb_id (mem_contents subscribed_store)"
  "keys_of (ti_subscriptions plain_inbox) (mem_contents subscribed_store) = {''sub-1''}"
  "subscribed plain_inbox (mem_contents subscribed_store) = {review_subscription}"
  "mem_contents subscribed_store (ns_namespace (ti_events plain_inbox), dedup_key id review_event) = None"
  by (auto simp: subscribed_store_def mem_valid_def mem_ready_def rows_ok_def keyed_by_def keys_of_def mem_contents_def
      plain_inbox_def TriggerInbox_new_def documents_def document_def review_subscription_def with_auto_resume_def
      Subscription_new_def split: if_splits option.splits)

theorem ingest_at_most_once_witness:
  "\<exists>s1. ingest plain_inbox id (\<lambda>p. p) (review_event\<lparr>te_id := ''ev-2''\<rparr>) 9 s1 =
     (s1, Inr (IngestOutcome_duplicate ''ev-2'' (dedup_key id review_event)))"
proof -
  have few: "card (keys_of (ti_subscriptions plain_inbox) (mem_contents subscribed_store)) \<le> 1000"
    by (simp add: subscribed_store_ok)
  obtain s1 out where first: "ingest plain_inbox id (\<lambda>p. p) review_event 6 subscribed_store = (s1, Inr out)"
    "mem_valid s1" "mem_ready s1"
    using mem_inbox.ingest_fresh[OF subscribed_store_ok(1-3) few subscribed_store_ok(6)] by blast
  have "dedup_key id (review_event\<lparr>te_id := ''ev-2''\<rparr>) = dedup_key id review_event" by code_simp
  with ingest_at_most_once[OF mem_inbox.trigger_inbox_axioms, OF subscribed_store_ok(1,2) first(1) subscribed_store_ok(3) few
      advances_refl first(2,3) this]
  show ?thesis by auto
qed

end
