(* ===== verification/Attention_Board.thy ===== *)
theory Attention_Board
  imports Case_Store
begin

text \<open>
  Why a case does not progress: \<open>crates/uc-types/src/governance/attention.rs\<close> and
  \<open>crates/uc-engine/src/governance/attention.rs\<close>. Raising an item keeps one open item per case, the
  worklist is the head of the open items in worklist order, and the capacity report counts exactly. The theorems
  are about one operation at a time on a board that the listings of the code cover.
\<close>

section \<open>Attention items\<close>

datatype AttentionKind = WaitingEvent | NeedsHuman | Blocked | Verifying

fun AttentionKind_as_str :: "AttentionKind \<Rightarrow> string" where
  "AttentionKind_as_str AttentionKind.WaitingEvent = ''waiting_event''"
| "AttentionKind_as_str AttentionKind.NeedsHuman = ''needs_human''"
| "AttentionKind_as_str AttentionKind.Blocked = ''blocked''"
| "AttentionKind_as_str AttentionKind.Verifying = ''verifying''"

definition AttentionKind_from_str_lossy :: "string \<Rightarrow> AttentionKind option" where
  "AttentionKind_from_str_lossy v = (let s = to_ascii_lowercase (trim v) in
     if s = ''waiting_event'' then Some AttentionKind.WaitingEvent
     else if s = ''needs_human'' then Some AttentionKind.NeedsHuman
     else if s = ''blocked'' then Some AttentionKind.Blocked
     else if s = ''verifying'' then Some AttentionKind.Verifying
     else None)"

fun holds_worker_slot :: "AttentionKind \<Rightarrow> bool" where
  "holds_worker_slot AttentionKind.WaitingEvent = False"
| "holds_worker_slot AttentionKind.Verifying = False"
| "holds_worker_slot AttentionKind.NeedsHuman = False"
| "holds_worker_slot AttentionKind.Blocked = False"

definition reserves_human_slot :: "AttentionKind \<Rightarrow> bool" where
  "reserves_human_slot kind \<longleftrightarrow> kind = AttentionKind.NeedsHuman"

definition requires_human_now :: "AttentionKind \<Rightarrow> bool" where
  "requires_human_now kind \<longleftrightarrow> kind = AttentionKind.NeedsHuman"

definition is_visible_in_worklist :: "AttentionKind \<Rightarrow> bool" where
  "is_visible_in_worklist kind \<longleftrightarrow> kind \<noteq> AttentionKind.Verifying"

definition AttentionKind_display :: "AttentionKind \<Rightarrow> string" where
  "AttentionKind_display kind = AttentionKind_as_str kind"

datatype AttentionResolution =
  HumanDecision (ar_by: string) (ar_answer: string)
| EventReceived (ar_trigger_id: string)
| Automatic (ar_detail: string)
| CaseClosed (ar_status: string)

fun AttentionResolution_summary :: "AttentionResolution \<Rightarrow> string" where
  "AttentionResolution_summary (HumanDecision who answer) = ''human:'' @ who @ '':'' @ answer"
| "AttentionResolution_summary (EventReceived trigger_id) = ''event:'' @ trigger_id"
| "AttentionResolution_summary (Automatic detail) = ''auto:'' @ detail"
| "AttentionResolution_summary (CaseClosed status) = ''closed:'' @ status"

record AttentionItem =
  at_id :: string
  at_case_id :: string
  at_task_id :: "string option"
  at_kind :: AttentionKind
  at_summary :: string
  at_detail :: "string option"
  at_since :: datetime
  at_priority :: u8
  at_human_action :: "string option"
  at_resolved_at :: "datetime option"
  at_resolution :: "AttentionResolution option"
  at_version :: u64

definition AttentionItem_new :: "string \<Rightarrow> string \<Rightarrow> AttentionKind \<Rightarrow> string \<Rightarrow> datetime \<Rightarrow> AttentionItem" where
  "AttentionItem_new i case_id kind summary since =
     \<lparr>at_id = i, at_case_id = case_id, at_task_id = None, at_kind = kind, at_summary = summary, at_detail = None,
      at_since = since, at_priority = 0, at_human_action = None, at_resolved_at = None, at_resolution = None,
      at_version = 0\<rparr>"

definition item_with_detail :: "AttentionItem \<Rightarrow> string \<Rightarrow> AttentionItem" where
  "item_with_detail item detail = item\<lparr>at_detail := Some detail\<rparr>"

definition item_with_human_action :: "AttentionItem \<Rightarrow> string \<Rightarrow> AttentionItem" where
  "item_with_human_action item action = item\<lparr>at_human_action := Some action\<rparr>"

definition item_with_task :: "AttentionItem \<Rightarrow> string \<Rightarrow> AttentionItem" where
  "item_with_task item task_id = item\<lparr>at_task_id := Some task_id\<rparr>"

definition item_with_priority :: "AttentionItem \<Rightarrow> u8 \<Rightarrow> AttentionItem" where
  "item_with_priority item priority = item\<lparr>at_priority := priority\<rparr>"

definition is_open :: "AttentionItem \<Rightarrow> bool" where
  "is_open item \<longleftrightarrow> at_resolved_at item = None"

definition item_resolve :: "AttentionResolution \<Rightarrow> datetime \<Rightarrow> AttentionItem \<Rightarrow> AttentionItem" where
  "item_resolve resolution now item =
     (if at_resolved_at item \<noteq> None then item
      else item\<lparr>at_resolved_at := Some now, at_resolution := Some resolution\<rparr>)"

text \<open>The key of the worklist; \<open>Reverse\<close> of the priority as its negation.\<close>

definition worklist_order_key :: "AttentionItem \<Rightarrow> u8 \<times> int \<times> int \<times> string" where
  "worklist_order_key item =
     (if requires_human_now (at_kind item) then 0 else 1, - uint (at_priority item),
      timestamp_millis (at_since item), at_case_id item)"

record CapacitySnapshot =
  cs_worker_slots_total :: u32
  cs_worker_slots_busy :: u32
  cs_worker_slots_reserved_human :: u32
  cs_waiting_event_cases :: u32
  cs_verifying_cases :: u32
  cs_needs_human_items :: u32
  cs_blocked_cases :: u32

definition worker_slots_available :: "CapacitySnapshot \<Rightarrow> u32" where
  "worker_slots_available c =
     saturating_sub (saturating_sub (cs_worker_slots_total c) (cs_worker_slots_busy c)) (cs_worker_slots_reserved_human c)"

definition can_admit_worker :: "CapacitySnapshot \<Rightarrow> bool" where
  "can_admit_worker c \<longleftrightarrow> 0 < worker_slots_available c"

definition slots_saved_by_quiet_waiting :: "CapacitySnapshot \<Rightarrow> u32" where
  "slots_saved_by_quiet_waiting c = saturating_add (cs_waiting_event_cases c) (cs_verifying_cases c)"

section \<open>The board\<close>

datatype AttentionBoardError = Store RecordError | NotFound string | Contended

fun AttentionBoardError_display :: "AttentionBoardError \<Rightarrow> string" where
  "AttentionBoardError_display (AttentionBoardError.Store e) = ''attention board: '' @ RecordError_display e"
| "AttentionBoardError_display (AttentionBoardError.NotFound i) = ''attention item '' @ i @ '' not found''"
| "AttentionBoardError_display AttentionBoardError.Contended = ''attention board contention''"

type_synonym ('s, 'v) AttentionBoard = "('s, 'v, AttentionItem) NamespacedStore"

definition AttentionBoard_new ::
  "('s, 'v) RecordStore \<Rightarrow> ('v \<Rightarrow> (string, AttentionItem) result) \<Rightarrow> (AttentionItem \<Rightarrow> (string, 'v) result) \<Rightarrow> ('s, 'v) AttentionBoard" where
  "AttentionBoard_new records from to =
     \<lparr>ns_store = records, ns_namespace = ''attention'', ns_from_value = from, ns_to_value = to\<rparr>"

definition resolve_step ::
  "AttentionResolution \<Rightarrow> datetime \<Rightarrow> AttentionItem \<Rightarrow> nat \<Rightarrow> (AttentionItem, (AttentionBoardError, AttentionItem) result) cas_step" where
  "resolve_step resolution now item version =
     (if \<not> is_open item then Return (Inr item)
      else cas_step.Write (item_resolve resolution now item) (Inr (item_resolve resolution now item)))"

definition board_resolve ::
  "('s, 'v) AttentionBoard \<Rightarrow> string \<Rightarrow> AttentionResolution \<Rightarrow> datetime \<Rightarrow> 's \<Rightarrow> 's \<times> (AttentionBoardError, AttentionItem) result" where
  "board_resolve board attention_id resolution now s =
     cas_loop board attention_id (resolve_step resolution now) (Inl (AttentionBoardError.NotFound attention_id))
       (\<lambda>e. Inl (AttentionBoardError.Store e)) (Inl AttentionBoardError.Contended) 8 s"

definition board_get ::
  "('s, 'v) AttentionBoard \<Rightarrow> string \<Rightarrow> 's \<Rightarrow> 's \<times> (AttentionBoardError, AttentionItem option) result" where
  "board_get board attention_id s =
     map_prod id (map_sum AttentionBoardError.Store (map_option fst)) (view_get board attention_id s)"

definition open_for_case ::
  "('s, 'v) AttentionBoard \<Rightarrow> string \<Rightarrow> 's \<Rightarrow> 's \<times> (AttentionBoardError, AttentionItem option) result" where
  "open_for_case board case_id s =
     map_prod id (map_sum AttentionBoardError.Store (\<lambda>items.
       max_by_key at_since (filter (\<lambda>item. at_case_id item = case_id \<and> is_open item) (map fst items))))
       (view_list board 2000 s)"

text \<open>The write of \<open>raise\<close>: create the item, or overwrite the one of the same id, whose age it inherits.\<close>

definition raise_put ::
  "('s, 'v) AttentionBoard \<Rightarrow> AttentionItem \<Rightarrow> 's \<Rightarrow> 's \<times> (AttentionBoardError, AttentionItem) result" where
  "raise_put board item s = (case view_put board (at_id item) item (Some 0) s of
     (s, Inr _) \<Rightarrow> (s, Inr item)
   | (s, Inl (Conflict _ _)) \<Rightarrow>
       (case view_get board (at_id item) s of
          (s, Inl e) \<Rightarrow> (s, Inl (AttentionBoardError.Store e))
        | (s, Inr None) \<Rightarrow> (s, Inl (AttentionBoardError.Store (Conflict 0 None)))
        | (s, Inr (Some (current, version))) \<Rightarrow>
            (let existing = item\<lparr>at_since := at_since current\<rparr> in
             case view_put board (at_id existing) existing (Some version) s of
               (s, Inl e) \<Rightarrow> (s, Inl (AttentionBoardError.Store e))
             | (s, Inr _) \<Rightarrow> (s, Inr existing)))
   | (s, Inl other) \<Rightarrow> (s, Inl (AttentionBoardError.Store other)))"

definition board_raise ::
  "('s, 'v) AttentionBoard \<Rightarrow> AttentionItem \<Rightarrow> datetime \<Rightarrow> 's \<Rightarrow> 's \<times> (AttentionBoardError, AttentionItem \<times> string option) result" where
  "board_raise board item now s = (case open_for_case board (at_case_id item) s of
     (s, Inl e) \<Rightarrow> (s, Inl e)
   | (s, Inr opened) \<Rightarrow>
       (let superseded = (case opened of
              Some old \<Rightarrow> if at_id old \<noteq> at_id item then Some (at_id old) else None
            | None \<Rightarrow> None);
            s = (case superseded of
              Some previous_id \<Rightarrow> fst (board_resolve board previous_id (Automatic (''superseded by '' @ at_id item)) now s)
            | None \<Rightarrow> s)
        in map_prod id (map_sum id (\<lambda>stored. (stored, superseded))) (raise_put board item s)))"

definition worklist ::
  "('s, 'v) AttentionBoard \<Rightarrow> bool \<Rightarrow> u64 \<Rightarrow> 's \<Rightarrow> 's \<times> (AttentionBoardError, AttentionItem list) result" where
  "worklist board include_resolved limit s =
     map_prod id (map_sum AttentionBoardError.Store (\<lambda>items.
       take (unat limit) (sort_key worklist_order_key (filter (\<lambda>item. include_resolved \<or> is_open item) (map fst items)))))
       (view_list board (unat (max (saturating_mul limit 4) 50)) s)"

fun count_kind :: "AttentionKind \<Rightarrow> (AttentionKind \<times> u32) list \<Rightarrow> (AttentionKind \<times> u32) list" where
  "count_kind kind [] = [(kind, 1)]"
| "count_kind kind ((k, n) # counts) = (if k = kind then (k, n + 1) # counts else (k, n) # count_kind kind counts)"

fun count_open :: "AttentionItem list \<Rightarrow> (AttentionKind \<times> u32) list \<Rightarrow> (AttentionKind \<times> u32) list" where
  "count_open [] counts = counts"
| "count_open (item # items) counts =
     (if \<not> is_open item then count_open items counts else count_open items (count_kind (at_kind item) counts))"

definition open_counts ::
  "('s, 'v) AttentionBoard \<Rightarrow> 's \<Rightarrow> 's \<times> (AttentionBoardError, (AttentionKind \<times> u32) list) result" where
  "open_counts board s =
     map_prod id (map_sum AttentionBoardError.Store (\<lambda>items. count_open (map fst items) [])) (view_list board 2000 s)"

definition kind_count :: "(AttentionKind \<times> u32) list \<Rightarrow> AttentionKind \<Rightarrow> u32" where
  "kind_count counts kind = (case find (\<lambda>(k, n). k = kind) counts of Some (k, n) \<Rightarrow> n | None \<Rightarrow> 0)"

definition capacity ::
  "('s, 'v) AttentionBoard \<Rightarrow> u32 \<Rightarrow> u32 \<Rightarrow> u32 \<Rightarrow> 's \<Rightarrow> 's \<times> (AttentionBoardError, CapacitySnapshot) result" where
  "capacity board worker_slots_total worker_slots_busy reserved_human s =
     map_prod id (map_sum id (\<lambda>counts.
       \<lparr>cs_worker_slots_total = worker_slots_total, cs_worker_slots_busy = worker_slots_busy,
        cs_worker_slots_reserved_human = min reserved_human worker_slots_total,
        cs_waiting_event_cases = kind_count counts AttentionKind.WaitingEvent,
        cs_verifying_cases = kind_count counts AttentionKind.Verifying,
        cs_needs_human_items = kind_count counts AttentionKind.NeedsHuman,
        cs_blocked_cases = kind_count counts AttentionKind.Blocked\<rparr>))
       (open_counts board s)"

section \<open>One open item per case\<close>

definition one_open :: "('s, 'v) AttentionBoard \<Rightarrow> (string \<times> string \<Rightarrow> 'v Record option) \<Rightarrow> bool" where
  "one_open board m \<longleftrightarrow> (\<forall>a \<in> documents board at_id m. \<forall>b \<in> documents board at_id m.
     is_open a \<and> is_open b \<and> at_case_id a = at_case_id b \<longrightarrow> a = b)"

lemma max_by_key_None: "max_by_key f xs = None \<longleftrightarrow> xs = []"
  by (cases xs) (auto split: option.splits)

lemma max_by_key_in: "max_by_key f xs = Some x \<Longrightarrow> x \<in> set xs \<and> (\<forall>y \<in> set xs. f y \<le> f x)"
  by (induction xs arbitrary: x) (fastforce simp: max_by_key_None split: option.splits if_splits)+

lemma item_resolve_simps [simp]:
  "at_id (item_resolve res now item) = at_id item" "at_case_id (item_resolve res now item) = at_case_id item"
  "\<not> is_open (item_resolve res now item)"
  by (auto simp: item_resolve_def is_open_def)

lemma is_open_since [simp]: "is_open (item\<lparr>at_since := t\<rparr>) = is_open item"
  by (simp add: is_open_def)

locale attention_board = record_store store contents ready valid
  for store :: "('s, 'v) RecordStore" and contents ready valid +
  fixes board :: "('s, 'v) AttentionBoard"
  assumes board_view: "ns_store board = store" "serde_ok board"
begin

abbreviation items where "items s \<equiv> documents board at_id (contents s)"
abbreviation settled where
  "settled s \<equiv> valid s \<and> ready s \<and> keyed_by board at_id (contents s)"

lemma item_stored:
  assumes "settled s" "item \<in> items s"
  obtains r where "contents s (ns_namespace board, at_id item) = Some r" "ns_from_value board (rec_value r) = Inr item"
  using documents_stored[of board at_id "contents s" item "at_id item"] assms by blast

lemma open_for_case_open:
  assumes "settled s" "card (keys_of board (contents s)) \<le> 2000"
  obtains found where "open_for_case board c s = (s, Inr found)"
    "found = None \<Longrightarrow> \<forall>item \<in> items s. is_open item \<longrightarrow> at_case_id item \<noteq> c"
    "\<And>item. found = Some item \<Longrightarrow> item \<in> items s \<and> is_open item \<and> at_case_id item = c"
proof (rule view_list_all[OF board_view(1) _ _ _ assms(2), of at_id])
  show "valid s" "ready s" "keyed_by board at_id (contents s)" using assms(1) by auto
  fix docs :: "(AttentionItem \<times> nat) list"
  let ?mine = "filter (\<lambda>item. at_case_id item = c \<and> is_open item) (map fst docs)"
  assume l: "view_list board 2000 s = (s, Inr docs)" "fst ` set docs = items s"
  have mine: "set ?mine = {item \<in> items s. at_case_id item = c \<and> is_open item}" using l(2) by auto
  have "open_for_case board c s = (s, Inr (max_by_key at_since ?mine))" using l(1) by (simp add: open_for_case_def)
  then show ?thesis
  proof (rule that)
    assume "max_by_key at_since ?mine = None"
    then have "set ?mine = {}" by (simp only: max_by_key_None set_empty)
    then show "\<forall>item \<in> items s. is_open item \<longrightarrow> at_case_id item \<noteq> c" unfolding mine by blast
  next
    fix item
    assume "max_by_key at_since ?mine = Some item"
    then have "item \<in> set ?mine" by (blast dest: max_by_key_in)
    then show "item \<in> items s \<and> is_open item \<and> at_case_id item = c" unfolding mine by blast
  qed
qed

lemma settled_write:
  assumes "settled s" "valid s'" "ready s'" "contents s' = (contents s)((ns_namespace board, at_id item) \<mapsto> r)"
    "ns_from_value board (rec_value r) = Inr item"
  shows "settled s'" "items s' = insert item {b \<in> items s. at_id b \<noteq> at_id item}"
  using assms keyed_by_update[OF _ assms(5)] documents_update[OF assms(5)] by auto

lemma resolve_open:
  assumes "settled s" "item \<in> items s" "is_open item"
  obtains s' where "board_resolve board (at_id item) res now s = (s', Inr (item_resolve res now item))" "settled s'"
    "items s' = insert (item_resolve res now item) {b \<in> items s. at_id b \<noteq> at_id item}"
    "keys_of board (contents s') = keys_of board (contents s)"
    "\<forall>ns k. ns \<noteq> ns_namespace board \<longrightarrow> contents s' (ns, k) = contents s (ns, k)"
proof -
  let ?done = "item_resolve res now item"
  obtain r where r: "contents s (ns_namespace board, at_id item) = Some r" "ns_from_value board (rec_value r) = Inr item"
    using item_stored[OF assms(1,2)] .
  obtain v where v: "ns_to_value board ?done = Inr v" "ns_from_value board v = Inr ?done"
    using board_view(2) by (auto simp: serde_ok_def)
  have "resolve_step res now item (rec_version r) = cas_step.Write ?done (Inr ?done)"
    using assms(3) by (simp add: resolve_step_def)
  from cas_loop_undisturbed[OF board_view(1) _ _ r, where step = "resolve_step res now", OF _ _ this v(1), of 8
      "Inl (AttentionBoardError.NotFound (at_id item))" "\<lambda>e. Inl (AttentionBoardError.Store e)" "Inl AttentionBoardError.Contended"] assms(1)
  obtain s' r' where w: "board_resolve board (at_id item) res now s = (s', Inr ?done)" "valid s'" "ready s'"
    "contents s' = (contents s)((ns_namespace board, at_id ?done) \<mapsto> r')" "rec_value r' = v"
    unfolding board_resolve_def by auto
  have f: "ns_from_value board (rec_value r') = Inr ?done" using v(2) w(5) by simp
  have "keys_of board (contents s') = keys_of board (contents s)" using w(4) r(1) by (auto simp: keys_of_def)
  moreover have "\<forall>ns k. ns \<noteq> ns_namespace board \<longrightarrow> contents s' (ns, k) = contents s (ns, k)" using w(4) by simp
  ultimately show ?thesis using that[OF w(1)] settled_write[OF assms(1) w(2-4) f] by simp
qed

lemma raise_put_stores:
  assumes "settled s"
  obtains s' stored where "raise_put board item s = (s', Inr stored)" "settled s'"
    "items s' = insert stored {b \<in> items s. at_id b \<noteq> at_id item}"
    "stored = item\<lparr>at_since := at_since stored\<rparr>"
    "\<And>old. old \<in> items s \<Longrightarrow> at_id old = at_id item \<Longrightarrow> at_since stored = at_since old"
    "\<forall>old \<in> items s. at_id old \<noteq> at_id item \<Longrightarrow> stored = item"
proof (cases "contents s (ns_namespace board, at_id item)")
  case None
  obtain s' r where w: "view_put board (at_id item) item (Some 0) s = (s', Inr r)" "valid s'" "ready s'"
    "contents s' = (contents s)((ns_namespace board, at_id item) \<mapsto> r)" "ns_from_value board (rec_value r) = Inr item"
    using view_create[OF board_view _ _ None] assms by blast
  have "raise_put board item s = (s', Inr item)" using w(1) by (simp add: raise_put_def)
  moreover have "at_id old \<noteq> at_id item" if "old \<in> items s" for old
    using item_stored[OF assms that] None by (metis option.distinct(1))
  ultimately show ?thesis by (intro that[OF _ settled_write[OF assms w(2-5)]]) simp_all
next
  case (Some r0)
  obtain old where old: "ns_from_value board (rec_value r0) = Inr old" "at_id old = at_id item"
    using keyed_by_document[OF assms[THEN conjunct2, THEN conjunct2] Some] by blast
  have mem: "old \<in> items s" using documents_stored[of board at_id "contents s" old "at_id item"] assms Some old by blast
  let ?new = "item\<lparr>at_since := at_since old\<rparr>"
  have m: "cas_matches (contents s (ns_namespace board, at_id item)) (Some (rec_version r0))" using Some by simp
  have vr: "valid s" "ready s" using assms by auto
  obtain s' r where put: "view_put board (at_id item) ?new (Some (rec_version r0)) s = (s', Inr r)" "valid s'" "ready s'"
    "contents s' = (contents s)((ns_namespace board, at_id item) \<mapsto> r)" "ns_from_value board (rec_value r) = Inr ?new"
    by (rule view_put_match[OF board_view vr m, of ?new]) (rule that)
  then have w: "contents s' = (contents s)((ns_namespace board, at_id ?new) \<mapsto> r)" by simp
  have "view_put board (at_id item) item (Some 0) s = (s, Inl (Conflict 0 (Some (rec_version r0))))"
    "view_get board (at_id item) s = (s, Inr (Some (old, rec_version r0)))"
    by (rule view_create_exists[OF board_view vr Some], rule view_get_found[OF board_view(1) vr(2) Some old(1)])
  then have "raise_put board item s = (s', Inr ?new)" using put(1) by (simp add: raise_put_def Let_def)
  moreover have "at_since b = at_since old" if "b \<in> items s" "at_id b = at_id item" for b
    using documents_inj[OF that(1) mem] that(2) old(2) by simp
  moreover have "\<not> (\<forall>old \<in> items s. at_id old \<noteq> at_id item)" using mem old(2) by blast
  ultimately show ?thesis using settled_write[OF assms put(2,3) w put(5)] by (intro that[of s' ?new]) simp_all
qed

end

text \<open>What raising an item does to another one of the board.\<close>

definition superseded_by :: "AttentionItem \<Rightarrow> datetime \<Rightarrow> AttentionItem \<Rightarrow> AttentionItem" where
  "superseded_by item now b =
     (if is_open b \<and> at_case_id b = at_case_id item \<and> at_id b \<noteq> at_id item
      then item_resolve (Automatic (''superseded by '' @ at_id item)) now b else b)"

lemma superseded_by_simps [simp]:
  "at_id (superseded_by item now b) = at_id b" "at_case_id (superseded_by item now b) = at_case_id b"
  "is_open (superseded_by item now b) \<longleftrightarrow> is_open b \<and> (at_case_id b = at_case_id item \<longrightarrow> at_id b = at_id item)"
  by (auto simp: superseded_by_def)

context attention_board
begin

lemma supersede:
  assumes s: "settled s" "card (keys_of board (contents s)) \<le> 2000" and one: "one_open board (contents s)"
  obtains s1 superseded where
    "board_raise board item now s = map_prod id (map_sum id (\<lambda>stored. (stored, superseded))) (raise_put board item s1)"
    "settled s1" "items s1 = superseded_by item now ` items s"
    "keys_of board (contents s1) = keys_of board (contents s)"
    "set_option superseded = at_id ` {b \<in> items s. superseded_by item now b \<noteq> b}"
proof (rule open_for_case_open[OF s, of "at_case_id item"])
  fix found
  let ?f = "superseded_by item now"
  assume found: "open_for_case board (at_case_id item) s = (s, Inr found)"
    "found = None \<Longrightarrow> \<forall>b \<in> items s. is_open b \<longrightarrow> at_case_id b \<noteq> at_case_id item"
    "\<And>b. found = Some b \<Longrightarrow> b \<in> items s \<and> is_open b \<and> at_case_id b = at_case_id item"
  consider (keep) "\<forall>b \<in> items s. ?f b = b" "found = None \<or> (\<exists>old. found = Some old \<and> at_id old = at_id item)"
    | (close) old where "found = Some old" "old \<in> items s" "is_open old" "at_id old \<noteq> at_id item" "at_case_id old = at_case_id item"
        "\<forall>b \<in> items s. b \<noteq> old \<longrightarrow> ?f b = b"
  proof (cases found)
    case None
    then have "\<forall>b \<in> items s. ?f b = b" using found(2) unfolding superseded_by_def by metis
    then show ?thesis using None keep by blast
  next
    case (Some old)
    note old = found(3)[OF Some]
    have other: "?f b = b" if "b \<in> items s" "b \<noteq> old" for b
      using one old that unfolding one_open_def superseded_by_def by metis
    show ?thesis
    proof (cases "at_id old = at_id item")
      case True
      then have "?f old = old" by (simp add: superseded_by_def)
      with other keep(1) Some True show ?thesis by metis
    next
      case False
      with close[OF Some] old other show ?thesis by blast
    qed
  qed
  then show ?thesis
  proof cases
    case keep
    have raise: "board_raise board item now s = map_prod id (map_sum id (\<lambda>stored. (stored, None))) (raise_put board item s)"
      using found(1) keep(2) by (auto simp: board_raise_def)
    have "?f ` items s = items s" using keep(1) by simp
    moreover have "{b \<in> items s. ?f b \<noteq> b} = {}" using keep(1) by blast
    ultimately show ?thesis using that[OF raise s(1)] by simp
  next
    case close
    let ?res = "Automatic (''superseded by '' @ at_id item)"
    obtain s1 where r: "board_resolve board (at_id old) ?res now s = (s1, Inr (item_resolve ?res now old))" "settled s1"
      "items s1 = insert (item_resolve ?res now old) {b \<in> items s. at_id b \<noteq> at_id old}"
      "keys_of board (contents s1) = keys_of board (contents s)"
      by (rule resolve_open[OF s(1) close(2,3)]) (rule that)
    have raise: "board_raise board item now s =
        map_prod id (map_sum id (\<lambda>stored. (stored, Some (at_id old)))) (raise_put board item s1)"
      using found(1) close(1,4) r(1) by (simp add: board_raise_def)
    have fold: "?f old = item_resolve ?res now old" using close by (simp add: superseded_by_def)
    have "b = old" if "b \<in> items s" "at_id b = at_id old" for b using documents_inj[OF that(1) close(2) that(2)] .
    then have rest: "{b \<in> items s. at_id b \<noteq> at_id old} = items s - {old}" by blast
    have "?f ` items s = insert (?f old) (?f ` (items s - {old}))" using close(2) by blast
    also have "?f ` (items s - {old}) = items s - {old}" using close(6) by simp
    finally have "items s1 = ?f ` items s" using r(3) fold rest by simp
    moreover have "?f old \<noteq> old" using fold close(3) by (metis item_resolve_simps(3))
    then have "{b \<in> items s. ?f b \<noteq> b} = {old}" using close(2,6) by blast
    ultimately show ?thesis using that[OF raise r(2)] r(4) by simp
  qed
qed

lemma raise_one_open:
  assumes s: "settled s" "card (keys_of board (contents s)) \<le> 2000" and one: "one_open board (contents s)" and "is_open item"
  obtains s' stored superseded where "board_raise board item now s = (s', Inr (stored, superseded))"
    "settled s'" "one_open board (contents s')"
    "\<forall>old \<in> items s. at_id old = at_id item \<longrightarrow> stored = item\<lparr>at_since := at_since old\<rparr>"
    "(\<forall>old \<in> items s. at_id old \<noteq> at_id item) \<longrightarrow> stored = item"
    "items s' = insert stored (superseded_by item now ` {b \<in> items s. at_id b \<noteq> at_id item})"
    "{b \<in> items s'. is_open b \<and> at_case_id b = at_case_id item} = {stored}"
    "set_option superseded = at_id ` {b \<in> items s. superseded_by item now b \<noteq> b}"
proof (rule supersede[OF s one, of item now])
  fix s1 superseded
  let ?f = "superseded_by item now"
  assume r: "board_raise board item now s = map_prod id (map_sum id (\<lambda>stored. (stored, superseded))) (raise_put board item s1)"
    "settled s1" "items s1 = ?f ` items s" "set_option superseded = at_id ` {b \<in> items s. ?f b \<noteq> b}"
  obtain s' stored where p: "raise_put board item s1 = (s', Inr stored)" "settled s'"
    "items s' = insert stored {b \<in> items s1. at_id b \<noteq> at_id item}" "stored = item\<lparr>at_since := at_since stored\<rparr>"
    "\<And>old. old \<in> items s1 \<Longrightarrow> at_id old = at_id item \<Longrightarrow> at_since stored = at_since old"
    "\<forall>old \<in> items s1. at_id old \<noteq> at_id item \<Longrightarrow> stored = item"
    by (rule raise_put_stores[OF r(2), of item]) (rule that)
  have "\<forall>old \<in> items s. at_id old = at_id item \<longrightarrow> stored = item\<lparr>at_since := at_since old\<rparr>"
  proof (intro ballI impI)
    fix old assume old: "old \<in> items s" "at_id old = at_id item"
    then have "?f old = old" by (simp add: superseded_by_def)
    then have "old \<in> items s1" using old(1) r(3) by (metis imageI)
    from p(5)[OF this old(2)] p(4) show "stored = item\<lparr>at_since := at_since old\<rparr>" by simp
  qed
  moreover have "(\<forall>old \<in> items s. at_id old \<noteq> at_id item) \<longrightarrow> stored = item" using p(6) unfolding r(3) by auto
  ultimately have age: "\<forall>old \<in> items s. at_id old = at_id item \<longrightarrow> stored = item\<lparr>at_since := at_since old\<rparr>"
    "(\<forall>old \<in> items s. at_id old \<noteq> at_id item) \<longrightarrow> stored = item" by blast+
  have stored: "at_case_id stored = at_case_id item" "at_id stored = at_id item" "is_open stored"
    by (subst p(4); simp add: assms(4))+
  have items: "items s' = insert stored (?f ` {b \<in> items s. at_id b \<noteq> at_id item})"
    unfolding p(3) r(3) by (auto simp: image_iff)
  have mine: "{b \<in> items s'. is_open b \<and> at_case_id b = at_case_id item} = {stored}"
    unfolding items using stored by auto
  have "one_open board (contents s')"
    unfolding one_open_def items using one stored
    by (auto simp: one_open_def)
  then show ?thesis using that[of s' stored superseded] r(1,4) p(1,2) age items mine by simp
qed

end

section \<open>Counting and ordering\<close>

lemma kind_count_count_kind: "kind_count (count_kind kind counts) k = kind_count counts k + (if k = kind then 1 else 0)"
  by (induction kind counts rule: count_kind.induct) (auto simp: kind_count_def)

lemma kind_count_count_open:
  "kind_count (count_open xs counts) k =
     kind_count counts k + of_nat (length (filter (\<lambda>item. is_open item \<and> at_kind item = k) xs))"
  by (induction xs counts rule: count_open.induct) (auto simp: kind_count_count_kind)

lemma distinct_items_card:
  assumes "distinct (map (at_id \<circ> fst) docs)" "fst ` set docs = A"
  shows "length (filter P (map fst docs)) = card {a \<in> A. P a}"
proof -
  have "distinct (map fst docs)" using assms(1) by (metis distinct_map map_map)
  then have "length (filter P (map fst docs)) = card (set (filter P (map fst docs)))"
    by (metis distinct_card distinct_filter)
  also have "set (filter P (map fst docs)) = {a \<in> A. P a}" using assms(2) by auto
  finally show ?thesis .
qed

context attention_board
begin

lemma capacity_exact:
  assumes s: "settled s" "card (keys_of board (contents s)) \<le> 2000"
  shows "\<exists>c. capacity board slots busy reserved s = (s, Inr c) \<and>
    (\<forall>kind. unat (case kind of AttentionKind.WaitingEvent \<Rightarrow> cs_waiting_event_cases c
        | AttentionKind.Verifying \<Rightarrow> cs_verifying_cases c | AttentionKind.NeedsHuman \<Rightarrow> cs_needs_human_items c
        | AttentionKind.Blocked \<Rightarrow> cs_blocked_cases c) = card {b \<in> items s. is_open b \<and> at_kind b = kind}) \<and>
    unat (worker_slots_available c) = unat slots - unat busy - min (unat reserved) (unat slots)"
proof (rule view_list_all[OF board_view(1) _ _ _ s(2), of at_id])
  show "valid s" "ready s" "keyed_by board at_id (contents s)" using s(1) by auto
  fix docs :: "(AttentionItem \<times> nat) list"
  assume l: "view_list board 2000 s = (s, Inr docs)" "distinct (map (at_id \<circ> fst) docs)" "fst ` set docs = items s" "length docs \<le> 2000"
  let ?counts = "count_open (map fst docs) []"
  let ?c = "\<lparr>cs_worker_slots_total = slots, cs_worker_slots_busy = busy, cs_worker_slots_reserved_human = min reserved slots,
    cs_waiting_event_cases = kind_count ?counts AttentionKind.WaitingEvent, cs_verifying_cases = kind_count ?counts AttentionKind.Verifying,
    cs_needs_human_items = kind_count ?counts AttentionKind.NeedsHuman, cs_blocked_cases = kind_count ?counts AttentionKind.Blocked\<rparr>"
  have "capacity board slots busy reserved s = (s, Inr ?c)" using l(1) by (simp add: capacity_def open_counts_def)
  moreover have "unat (kind_count ?counts kind) = card {b \<in> items s. is_open b \<and> at_kind b = kind}" for kind
  proof -
    let ?n = "length (filter (\<lambda>item. is_open item \<and> at_kind item = kind) (map fst docs))"
    have "?n \<le> 2000" using l(4) by (metis le_trans length_filter_le length_map)
    then have "unat (of_nat ?n :: u32) = ?n" by (simp add: unat_of_nat take_bit_nat_eq_self)
    then show ?thesis
      using distinct_items_card[OF l(2,3)] by (simp add: kind_count_count_open kind_count_def[of "[]"])
  qed
  moreover have "unat (worker_slots_available ?c) = unat slots - unat busy - min (unat reserved) (unat slots)"
    by (simp add: worker_slots_available_def unat_saturating_sub min_def word_le_nat_alt)
  ultimately show ?thesis by (intro exI[of _ ?c] conjI allI) (simp_all split: AttentionKind.split)
qed

lemma worklist_first:
  assumes s: "settled s" "card (keys_of board (contents s)) \<le> max (4 * unat limit) 50" "4 * unat limit < 2 ^ 64"
  obtains xs where "worklist board False limit s = (s, Inr xs)" "sorted (map worklist_order_key xs)"
    "set xs \<subseteq> {b \<in> items s. is_open b}" "length xs = min (unat limit) (card {b \<in> items s. is_open b})"
    "\<forall>x \<in> set xs. \<forall>b \<in> {b \<in> items s. is_open b} - set xs. worklist_order_key x \<le> worklist_order_key b"
proof -
  have window: "unat (max (saturating_mul limit 4) 50) = max (4 * unat limit) 50"
    using s(3) by (auto simp: max_def word_le_nat_alt unat_saturating_mul mult.commute)
  show ?thesis
  proof (rule view_list_all[OF board_view(1) _ _ _ s(2), of at_id])
    show "valid s" "ready s" "keyed_by board at_id (contents s)" using s(1) by auto
    fix docs :: "(AttentionItem \<times> nat) list"
    assume l: "view_list board (max (4 * unat limit) 50) s = (s, Inr docs)" "distinct (map (at_id \<circ> fst) docs)" "fst ` set docs = items s"
    let ?all = "sort_key worklist_order_key (filter is_open (map fst docs))"
    let ?xs = "take (unat limit) ?all"
    have run: "worklist board False limit s = (s, Inr ?xs)" using l(1) by (simp add: worklist_def window)
    have all: "set ?all = {b \<in> items s. is_open b}" using l(3) by auto
    have sorted: "sorted (map worklist_order_key (?xs @ drop (unat limit) ?all))" by simp
    then have "\<forall>x \<in> set ?xs. \<forall>b \<in> set (drop (unat limit) ?all). worklist_order_key x \<le> worklist_order_key b"
      unfolding map_append sorted_append by auto
    moreover have "set ?all = set ?xs \<union> set (drop (unat limit) ?all)" by (metis append_take_drop_id set_append)
    ultimately have "\<forall>x \<in> set ?xs. \<forall>b \<in> set ?all - set ?xs. worklist_order_key x \<le> worklist_order_key b" by blast
    moreover have "sorted (map worklist_order_key ?xs)" using sorted unfolding map_append sorted_append by blast
    moreover have "length ?xs = min (unat limit) (card {b \<in> items s. is_open b})"
      using distinct_items_card[OF l(2,3), of is_open] by (simp add: min.commute)
    moreover have "set ?xs \<subseteq> set ?all" by (rule set_take_subset)
    ultimately show ?thesis using that[OF run] unfolding all by blast
  qed
qed

end

text \<open>
  C28. Raising an open item on a board of at most 2000 records (the window of the search; resolved items stay on the board)
  keeps it at one open item per case: afterwards the item is the only open one of its case, the one it replaces is resolved
  as superseded and reported, and every other item is as it was. The item is stored as it was given, except that an item
  that is raised again under an id the board has keeps the instant since when it was on the board.
\<close>

theorem raise_keeps_one_open:
  assumes "attention_board store contents ready valid board" "valid s" "ready s" "keyed_by board at_id (contents s)"
    and "card (keys_of board (contents s)) \<le> 2000" "one_open board (contents s)" "is_open item"
  shows "\<exists>s' stored superseded. board_raise board item now s = (s', Inr (stored, superseded)) \<and>
    one_open board (contents s') \<and>
    (\<forall>old \<in> documents board at_id (contents s). at_id old = at_id item \<longrightarrow> stored = item\<lparr>at_since := at_since old\<rparr>) \<and>
    ((\<forall>old \<in> documents board at_id (contents s). at_id old \<noteq> at_id item) \<longrightarrow> stored = item) \<and>
    {b \<in> documents board at_id (contents s'). is_open b \<and> at_case_id b = at_case_id item} = {stored} \<and>
    documents board at_id (contents s') =
      insert stored (superseded_by item now ` {b \<in> documents board at_id (contents s). at_id b \<noteq> at_id item}) \<and>
    set_option superseded = at_id ` {b \<in> documents board at_id (contents s). superseded_by item now b \<noteq> b}"
  by (rule attention_board.raise_one_open[OF assms(1), OF conjI[OF assms(2) conjI[OF assms(3,4)]] assms(5-7), of now]) blast

text \<open>
  The capacity report is exact: it counts the open items of each kind, and offers the slots that are
  neither busy nor reserved for human decisions.
\<close>

lemma capacity_counts:
  assumes "attention_board store contents ready valid board" "valid s" "ready s" "keyed_by board at_id (contents s)"
    and "card (keys_of board (contents s)) \<le> 2000"
  shows "\<exists>c. capacity board slots busy reserved s = (s, Inr c) \<and>
    unat (cs_waiting_event_cases c) = card {b \<in> documents board at_id (contents s). is_open b \<and> at_kind b = AttentionKind.WaitingEvent} \<and>
    unat (cs_needs_human_items c) = card {b \<in> documents board at_id (contents s). is_open b \<and> at_kind b = AttentionKind.NeedsHuman} \<and>
    unat (cs_verifying_cases c) = card {b \<in> documents board at_id (contents s). is_open b \<and> at_kind b = AttentionKind.Verifying} \<and>
    unat (cs_blocked_cases c) = card {b \<in> documents board at_id (contents s). is_open b \<and> at_kind b = AttentionKind.Blocked} \<and>
    unat (worker_slots_available c) = unat slots - unat busy - min (unat reserved) (unat slots)"
proof -
  obtain c where c: "capacity board slots busy reserved s = (s, Inr c)"
    "\<forall>kind. unat (case kind of AttentionKind.WaitingEvent \<Rightarrow> cs_waiting_event_cases c
        | AttentionKind.Verifying \<Rightarrow> cs_verifying_cases c | AttentionKind.NeedsHuman \<Rightarrow> cs_needs_human_items c
        | AttentionKind.Blocked \<Rightarrow> cs_blocked_cases c) = card {b \<in> documents board at_id (contents s). is_open b \<and> at_kind b = kind}"
    "unat (worker_slots_available c) = unat slots - unat busy - min (unat reserved) (unat slots)"
    using attention_board.capacity_exact[OF assms(1), OF _ assms(5)] assms(2-4) by blast
  from c(2)[rule_format, of AttentionKind.WaitingEvent] c(2)[rule_format, of AttentionKind.NeedsHuman]
    c(2)[rule_format, of AttentionKind.Verifying] c(2)[rule_format, of AttentionKind.Blocked] c(1,3)
  show ?thesis by (intro exI[of _ c]) simp
qed

text \<open>
  When the window of the worklist holds every record, the worklist is the first open items of the board in
  worklist order: sorted, as many as asked for or all of them, and none left out comes before one listed.
\<close>

lemma worklist_takes_first:
  assumes "attention_board store contents ready valid board" "valid s" "ready s" "keyed_by board at_id (contents s)"
    and "card (keys_of board (contents s)) \<le> max (4 * unat limit) 50" "4 * unat limit < 2 ^ 64"
  shows "\<exists>xs. worklist board False limit s = (s, Inr xs) \<and> sorted (map worklist_order_key xs) \<and>
    set xs \<subseteq> {b \<in> documents board at_id (contents s). is_open b} \<and>
    length xs = min (unat limit) (card {b \<in> documents board at_id (contents s). is_open b}) \<and>
    (\<forall>x \<in> set xs. \<forall>b \<in> {b \<in> documents board at_id (contents s). is_open b} - set xs. worklist_order_key x \<le> worklist_order_key b)"
  by (rule attention_board.worklist_first[OF assms(1), OF conjI[OF assms(2) conjI[OF assms(3,4)]] assms(5,6)]) blast

section \<open>A board on the in-memory store\<close>

definition plain_board :: "(AttentionItem InMemoryRecordStore, AttentionItem) AttentionBoard" where
  "plain_board = AttentionBoard_new in_memory_store Inr Inr"

interpretation mem_board: attention_board in_memory_store mem_contents mem_ready mem_valid plain_board
  by unfold_locales (auto simp: plain_board_def AttentionBoard_new_def serde_ok_def)

definition ci_item :: AttentionItem where
  "ci_item = AttentionItem_new ''att-1'' ''case-1'' AttentionKind.WaitingEvent ''waiting for ci'' 1"

definition review_item :: AttentionItem where
  "review_item = AttentionItem_new ''att-2'' ''case-1'' AttentionKind.NeedsHuman ''approve the merge'' 2"

definition one_item :: "AttentionItem InMemoryRecordStore" where
  "one_item = \<lparr>mem_inner = [((''attention'', ''att-1''), \<lparr>rec_namespace = ''attention'', rec_key = ''att-1'',
     rec_version = 1, rec_value = ci_item, rec_updated_at = 1\<rparr>)], mem_poisoned = False, mem_clock = 1\<rparr>"

lemma one_item_ok:
  "mem_valid one_item" "mem_ready one_item" "keyed_by plain_board at_id (mem_contents one_item)"
  "keys_of plain_board (mem_contents one_item) = {''att-1''}" "documents plain_board at_id (mem_contents one_item) = {ci_item}"
  "one_open plain_board (mem_contents one_item)"
proof -
  show docs: "documents plain_board at_id (mem_contents one_item) = {ci_item}"
    by (auto simp: one_item_def documents_def document_def mem_contents_def plain_board_def AttentionBoard_new_def ci_item_def
        AttentionItem_new_def split: if_splits option.splits)
  show "one_open plain_board (mem_contents one_item)" unfolding one_open_def docs by simp
qed (auto simp: one_item_def mem_valid_def mem_ready_def rows_ok_def keyed_by_def keys_of_def mem_contents_def plain_board_def
    AttentionBoard_new_def ci_item_def AttentionItem_new_def split: if_splits)

theorem raise_keeps_one_open_witness:
  "\<exists>s' stored. board_raise plain_board review_item 5 one_item = (s', Inr (stored, Some ''att-1'')) \<and>
     one_open plain_board (mem_contents s')"
proof -
  have changed: "superseded_by review_item 5 ci_item \<noteq> ci_item \<and> at_id ci_item = ''att-1''" by code_simp
  have open_item: "is_open review_item" by code_simp
  have few: "card (keys_of plain_board (mem_contents one_item)) \<le> 2000" by (simp add: one_item_ok(4))
  obtain s' stored superseded where r: "board_raise plain_board review_item 5 one_item = (s', Inr (stored, superseded))"
    "one_open plain_board (mem_contents s')"
    "set_option superseded = at_id ` {b \<in> documents plain_board at_id (mem_contents one_item). superseded_by review_item 5 b \<noteq> b}"
    using raise_keeps_one_open[OF mem_board.attention_board_axioms, OF one_item_ok(1-3) few one_item_ok(6) open_item, of 5]
    by (elim exE conjE) (rule that)
  have "set_option superseded = {''att-1''}" using r(3) changed unfolding one_item_ok(5) by auto
  then have "superseded = Some ''att-1''" by (cases superseded) auto
  with r(1) have "board_raise plain_board review_item 5 one_item = (s', Inr (stored, Some ''att-1''))" by (simp only:)
  then show ?thesis using r(2) by (intro exI conjI)
qed

end
