(* ===== verification/Proactive_Gate.thy ===== *)
theory Proactive_Gate
  imports Gov_Policy Record_Store
begin

text \<open>
  Bounded autonomy: the proposals and the gate of \<open>crates/uc-types/src/governance/proactive.rs\<close> and
  \<open>crates/uc-engine/src/governance/proactive.rs\<close>. What the gate lets execute, the life of a proposal, and
  that an approval is executed once.
\<close>

section \<open>Modes and proposals\<close>

datatype ProactiveMode = Off | Observe | Propose | Execute

fun ProactiveMode_as_str :: "ProactiveMode \<Rightarrow> string" where
  "ProactiveMode_as_str ProactiveMode.Off = ''off''"
| "ProactiveMode_as_str ProactiveMode.Observe = ''observe''"
| "ProactiveMode_as_str ProactiveMode.Propose = ''propose''"
| "ProactiveMode_as_str ProactiveMode.Execute = ''execute''"

definition ProactiveMode_from_str_lossy :: "string \<Rightarrow> ProactiveMode option" where
  "ProactiveMode_from_str_lossy v = (let s = to_ascii_lowercase (trim v) in
     if s = ''off'' \<or> s = ''disabled'' \<or> s = [] then Some ProactiveMode.Off
     else if s = ''observe'' then Some ProactiveMode.Observe
     else if s = ''propose'' then Some ProactiveMode.Propose
     else if s = ''execute'' then Some ProactiveMode.Execute
     else None)"

definition evaluates :: "ProactiveMode \<Rightarrow> bool" where
  "evaluates mode \<longleftrightarrow> mode \<noteq> ProactiveMode.Off"

definition allows_proposal :: "ProactiveMode \<Rightarrow> bool" where
  "allows_proposal mode \<longleftrightarrow> mode = ProactiveMode.Propose \<or> mode = ProactiveMode.Execute"

definition allows_execution :: "ProactiveMode \<Rightarrow> bool" where
  "allows_execution mode \<longleftrightarrow> mode = ProactiveMode.Execute"

datatype ProposalKind = DiscoveredFollowup | UnblockStalled | FixFailingCi | MaintenanceDebt | InvestigateAlert | Replan

fun ProposalKind_as_str :: "ProposalKind \<Rightarrow> string" where
  "ProposalKind_as_str DiscoveredFollowup = ''discovered_followup''"
| "ProposalKind_as_str UnblockStalled = ''unblock_stalled''"
| "ProposalKind_as_str FixFailingCi = ''fix_failing_ci''"
| "ProposalKind_as_str MaintenanceDebt = ''maintenance_debt''"
| "ProposalKind_as_str InvestigateAlert = ''investigate_alert''"
| "ProposalKind_as_str Replan = ''replan''"

datatype ProposalStatus = Observed | Proposed | Approved | Rejected | Executed | Expired | Failed

fun ProposalStatus_as_str :: "ProposalStatus \<Rightarrow> string" where
  "ProposalStatus_as_str ProposalStatus.Observed = ''observed''"
| "ProposalStatus_as_str ProposalStatus.Proposed = ''proposed''"
| "ProposalStatus_as_str ProposalStatus.Approved = ''approved''"
| "ProposalStatus_as_str ProposalStatus.Rejected = ''rejected''"
| "ProposalStatus_as_str ProposalStatus.Executed = ''executed''"
| "ProposalStatus_as_str ProposalStatus.Expired = ''expired''"
| "ProposalStatus_as_str ProposalStatus.Failed = ''failed''"

definition ProposalStatus_is_terminal :: "ProposalStatus \<Rightarrow> bool" where
  "ProposalStatus_is_terminal st \<longleftrightarrow>
     st \<in> {ProposalStatus.Rejected, ProposalStatus.Executed, ProposalStatus.Expired, ProposalStatus.Failed}"

definition ProposalStatus_is_open :: "ProposalStatus \<Rightarrow> bool" where
  "ProposalStatus_is_open st \<longleftrightarrow> st = ProposalStatus.Proposed \<or> st = ProposalStatus.Approved"

datatype ProposalDecision = Approve (pd_by: string) | Reject (pd_by: string) (pd_reason: string)

text \<open>The confidence is a binary32 float; it is only compared, so its value as a rational is kept.\<close>

record ProactiveProposal =
  pp_id :: string
  pp_case_id :: "string option"
  pp_kind :: ProposalKind
  pp_title :: string
  pp_rationale :: string
  pp_confidence :: f64
  pp_evidence :: "string list"
  pp_proposed_request :: "string option"
  pp_project_id :: "string option"
  pp_estimated_tokens :: "u64 option"
  pp_mode_at_creation :: ProactiveMode
  pp_status :: ProposalStatus
  pp_created_at :: datetime
  pp_decided_at :: "datetime option"
  pp_decided_by :: "string option"
  pp_executed_case_id :: "string option"
  pp_version :: u64

definition ProactiveProposal_new ::
  "string \<Rightarrow> ProposalKind \<Rightarrow> string \<Rightarrow> string \<Rightarrow> ProactiveMode \<Rightarrow> datetime \<Rightarrow> ProactiveProposal" where
  "ProactiveProposal_new fresh_id kind title rationale mode now =
     \<lparr>pp_id = fresh_id, pp_case_id = None, pp_kind = kind, pp_title = title, pp_rationale = rationale,
      pp_confidence = Fin 0, pp_evidence = [], pp_proposed_request = None, pp_project_id = None,
      pp_estimated_tokens = None, pp_mode_at_creation = mode,
      pp_status = (if allows_proposal mode then ProposalStatus.Proposed else ProposalStatus.Observed),
      pp_created_at = now, pp_decided_at = None, pp_decided_by = None, pp_executed_case_id = None, pp_version = 0\<rparr>"

definition with_evidence :: "ProactiveProposal \<Rightarrow> string list \<Rightarrow> ProactiveProposal" where
  "with_evidence p evidence = p\<lparr>pp_evidence := evidence\<rparr>"

definition with_confidence :: "ProactiveProposal \<Rightarrow> f64 \<Rightarrow> ProactiveProposal" where
  "with_confidence p confidence = p\<lparr>pp_confidence := f64_clamp confidence (Fin 0) (Fin 1)\<rparr>"

definition with_request :: "ProactiveProposal \<Rightarrow> string \<Rightarrow> string \<Rightarrow> ProactiveProposal" where
  "with_request p project_id request = p\<lparr>pp_project_id := Some project_id, pp_proposed_request := Some request\<rparr>"

definition with_estimate :: "ProactiveProposal \<Rightarrow> u64 \<Rightarrow> ProactiveProposal" where
  "with_estimate p t = p\<lparr>pp_estimated_tokens := Some t\<rparr>"

datatype ProposalError = NotActionable ProposalStatus

fun ProposalError_display :: "ProposalError \<Rightarrow> string" where
  "ProposalError_display (ProposalError.NotActionable status) =
     ''proposal in status '' @ ProposalStatus_as_str status @ '' is not actionable''"

definition apply_decision :: "ProposalDecision \<Rightarrow> datetime \<Rightarrow> ProactiveProposal \<Rightarrow> (ProposalError, ProactiveProposal) result" where
  "apply_decision decision now p =
     (if pp_status p \<noteq> ProposalStatus.Proposed then Inl (ProposalError.NotActionable (pp_status p))
      else Inr ((case decision of
          Approve who \<Rightarrow> p\<lparr>pp_status := ProposalStatus.Approved, pp_decided_by := Some who\<rparr>
        | Reject who reason \<Rightarrow> p\<lparr>pp_status := ProposalStatus.Rejected, pp_decided_by := Some (who @ '':'' @ reason)\<rparr>)
        \<lparr>pp_decided_at := Some now\<rparr>))"

definition mark_executed :: "string \<Rightarrow> datetime \<Rightarrow> ProactiveProposal \<Rightarrow> (ProposalError, ProactiveProposal) result" where
  "mark_executed case_id now p =
     (if pp_status p \<noteq> ProposalStatus.Approved then Inl (ProposalError.NotActionable (pp_status p))
      else Inr (p\<lparr>pp_status := ProposalStatus.Executed, pp_executed_case_id := Some case_id, pp_decided_at := Some now\<rparr>))"

section \<open>The gate's rules\<close>

record ProactiveGateState =
  gs_mode :: ProactiveMode
  gs_max_open_proposals :: u32
  gs_max_tokens_per_action :: "u64 option"
  gs_always_require_approval :: bool

definition default_max_open :: u32 where "default_max_open = 5"

definition ProactiveGateState_default :: ProactiveGateState where
  "ProactiveGateState_default =
     \<lparr>gs_mode = ProactiveMode.Off, gs_max_open_proposals = default_max_open, gs_max_tokens_per_action = None,
      gs_always_require_approval = False\<rparr>"

definition mode_disallows :: "ProactiveGateState \<Rightarrow> string \<Rightarrow> PolicyDecision" where
  "mode_disallows g action = PolicyDecision.Deny (ProactiveModeDisallows (ProactiveMode_as_str (gs_mode g)) action)"

definition admit_proposal :: "ProactiveGateState \<Rightarrow> ProactiveProposal \<Rightarrow> u32 \<Rightarrow> PolicyDecision" where
  "admit_proposal g p open_proposals =
     (if \<not> evaluates (gs_mode g) then mode_disallows g ''evaluate''
      else if pp_evidence p = [] then mode_disallows g ''propose_without_evidence''
      else if gs_max_open_proposals g \<le> open_proposals
      then PolicyDecision.Deny (BudgetExhausted (''open proactive proposals at capacity ('' @ show_word open_proposals @ ''/'' @
             show_word (gs_max_open_proposals g) @ '')''))
      else PolicyDecision.Allow)"

definition admit_execution :: "ProactiveGateState \<Rightarrow> ProactiveProposal \<Rightarrow> PolicyDecision" where
  "admit_execution g p =
     (if gs_always_require_approval g \<and> pp_status p \<noteq> ProposalStatus.Approved then mode_disallows g ''execution_requires_approval''
      else if \<not> allows_execution (gs_mode g) then mode_disallows g ''execute''
      else if pp_status p \<noteq> ProposalStatus.Approved then mode_disallows g (''status_'' @ ProposalStatus_as_str (pp_status p))
      else case (gs_max_tokens_per_action g, pp_estimated_tokens p) of
        (Some limit, Some estimate) \<Rightarrow>
          if limit < estimate
          then PolicyDecision.Deny (BudgetExhausted (''proposal estimates '' @ show_word estimate @ '' tokens, limit is '' @ show_word limit))
          else PolicyDecision.Allow
      | _ \<Rightarrow> PolicyDecision.Allow)"

record ProactiveAuditEntry =
  ae_at :: datetime
  ae_mode :: ProactiveMode
  ae_action :: string
  ae_proposal_id :: "string option"
  ae_case_id :: "string option"
  ae_allowed :: bool
  ae_reason :: "string option"
  ae_detail :: "string option"

definition ProactiveAuditEntry_new :: "datetime \<Rightarrow> ProactiveMode \<Rightarrow> string \<Rightarrow> bool \<Rightarrow> ProactiveAuditEntry" where
  "ProactiveAuditEntry_new t mode action allowed =
     \<lparr>ae_at = t, ae_mode = mode, ae_action = action, ae_proposal_id = None, ae_case_id = None, ae_allowed = allowed,
      ae_reason = None, ae_detail = None\<rparr>"

text \<open>\<open>debug\<close> stands for the derived \<open>Debug\<close> rendering of a reason.\<close>

definition from_decision ::
  "(DenyReason \<Rightarrow> string) \<Rightarrow> datetime \<Rightarrow> ProactiveMode \<Rightarrow> string \<Rightarrow> PolicyDecision \<Rightarrow> ProactiveAuditEntry" where
  "from_decision debug t mode action decision =
     (ProactiveAuditEntry_new t mode action (PolicyDecision_is_allowed decision))
       \<lparr>ae_reason := map_option DenyReason_code (deny_reason decision), ae_detail := map_option debug (deny_reason decision)\<rparr>"

definition for_proposal :: "ProactiveAuditEntry \<Rightarrow> string \<Rightarrow> ProactiveAuditEntry" where
  "for_proposal e proposal_id = e\<lparr>ae_proposal_id := Some proposal_id\<rparr>"

definition for_case :: "ProactiveAuditEntry \<Rightarrow> string \<Rightarrow> ProactiveAuditEntry" where
  "for_case e case_id = e\<lparr>ae_case_id := Some case_id\<rparr>"

section \<open>The gate\<close>

datatype ProactiveGateError = Store RecordError | NotFound string | NotActionable string string | Contended

fun ProactiveGateError_display :: "ProactiveGateError \<Rightarrow> string" where
  "ProactiveGateError_display (ProactiveGateError.Store e) = ''proactive gate: '' @ RecordError_display e"
| "ProactiveGateError_display (ProactiveGateError.NotFound i) = ''proposal '' @ i @ '' not found''"
| "ProactiveGateError_display (ProactiveGateError.NotActionable i status) =
     ''proposal '' @ i @ '' is '' @ status @ '' and cannot be changed''"
| "ProactiveGateError_display ProactiveGateError.Contended = ''proactive gate contention''"

record Admission =
  ad_allowed :: bool
  ad_deny_code :: "string option"
  ad_deny_detail :: "string option"

definition Admission_allowed :: Admission where
  "Admission_allowed = \<lparr>ad_allowed = True, ad_deny_code = None, ad_deny_detail = None\<rparr>"

definition Admission_denied :: "string \<Rightarrow> string \<Rightarrow> Admission" where
  "Admission_denied code detail = \<lparr>ad_allowed = False, ad_deny_code = Some code, ad_deny_detail = Some detail\<rparr>"

record ('s, 'v) ProactiveGate =
  pg_proposals :: "('s, 'v, ProactiveProposal) NamespacedStore"
  pg_audit :: "('s, 'v, ProactiveAuditEntry) NamespacedStore"
  pg_state :: "('s, 'v, ProactiveGateState) NamespacedStore"

text \<open>What changes: the mode behind its lock, whether the lock is poisoned, and the records.\<close>

record 's GateMemory =
  gm_mode :: ProactiveGateState
  gm_poisoned :: bool
  gm_records :: 's

definition ProactiveGate_new ::
  "('s, 'v) RecordStore \<Rightarrow> ('v \<Rightarrow> (string, ProactiveProposal) result) \<Rightarrow> (ProactiveProposal \<Rightarrow> (string, 'v) result) \<Rightarrow>
     ('v \<Rightarrow> (string, ProactiveAuditEntry) result) \<Rightarrow> (ProactiveAuditEntry \<Rightarrow> (string, 'v) result) \<Rightarrow>
     ('v \<Rightarrow> (string, ProactiveGateState) result) \<Rightarrow> (ProactiveGateState \<Rightarrow> (string, 'v) result) \<Rightarrow> 's \<Rightarrow>
     ('s, 'v) ProactiveGate \<times> 's GateMemory" where
  "ProactiveGate_new records from_proposal to_proposal from_entry to_entry from_state to_state s =
     (\<lparr>pg_proposals = \<lparr>ns_store = records, ns_namespace = ''proactive_proposal'', ns_from_value = from_proposal, ns_to_value = to_proposal\<rparr>,
       pg_audit = \<lparr>ns_store = records, ns_namespace = ''proactive_audit'', ns_from_value = from_entry, ns_to_value = to_entry\<rparr>,
       pg_state = \<lparr>ns_store = records, ns_namespace = ''proactive_gate_state'', ns_from_value = from_state, ns_to_value = to_state\<rparr>\<rparr>,
      \<lparr>gm_mode = ProactiveGateState_default, gm_poisoned = False, gm_records = s\<rparr>)"

definition with_state :: "ProactiveGateState \<Rightarrow> 's GateMemory \<Rightarrow> 's GateMemory" where
  "with_state g st = (if gm_poisoned st then st else st\<lparr>gm_mode := g\<rparr>)"

definition gate_state :: "'s GateMemory \<Rightarrow> ProactiveGateState" where
  "gate_state st = (if gm_poisoned st then ProactiveGateState_default else gm_mode st)"

definition gate_mode :: "'s GateMemory \<Rightarrow> ProactiveMode" where
  "gate_mode st = gs_mode (gate_state st)"

definition gate_load_persisted ::
  "('s, 'v) ProactiveGate \<Rightarrow> 's GateMemory \<Rightarrow> 's GateMemory \<times> (ProactiveGateError, ProactiveGateState) result" where
  "gate_load_persisted gate st = (case view_get (pg_state gate) ''current'' (gm_records st) of
     (s, Inl e) \<Rightarrow> (st\<lparr>gm_records := s\<rparr>, Inl (ProactiveGateError.Store e))
   | (s, Inr (Some (g, _))) \<Rightarrow> (with_state g (st\<lparr>gm_records := s\<rparr>), Inr g)
   | (s, Inr None) \<Rightarrow> (st\<lparr>gm_records := s\<rparr>, Inr (gate_state st)))"

definition set_mode ::
  "('s, 'v) ProactiveGate \<Rightarrow> ProactiveMode \<Rightarrow> u32 option \<Rightarrow> u64 option \<Rightarrow> bool option \<Rightarrow> 's GateMemory \<Rightarrow>
     's GateMemory \<times> (ProactiveGateError, ProactiveGateState) result" where
  "set_mode gate mode max_open_proposals max_tokens_per_action always_require_approval st =
     (let g = (gate_state st)\<lparr>gs_mode := mode\<rparr>;
          g = (case max_open_proposals of Some n \<Rightarrow> g\<lparr>gs_max_open_proposals := max n 1\<rparr> | None \<Rightarrow> g);
          g = (if max_tokens_per_action \<noteq> None then g\<lparr>gs_max_tokens_per_action := max_tokens_per_action\<rparr> else g);
          g = (case always_require_approval of Some b \<Rightarrow> g\<lparr>gs_always_require_approval := b\<rparr> | None \<Rightarrow> g)
      in case view_put (pg_state gate) ''current'' g None (gm_records st) of
           (s, Inl e) \<Rightarrow> (st\<lparr>gm_records := s\<rparr>, Inl (ProactiveGateError.Store e))
         | (s, Inr _) \<Rightarrow> (with_state g (st\<lparr>gm_records := s\<rparr>), Inr g))"

definition audit_key :: "datetime \<Rightarrow> string \<Rightarrow> string" where
  "audit_key now proposal_id = show_int (timestamp_micros now) @ '':'' @ proposal_id"

definition denied_admission :: "(DenyReason \<Rightarrow> string) \<Rightarrow> PolicyDecision \<Rightarrow> Admission" where
  "denied_admission debug decision =
     Admission_denied (case deny_code decision of Some code \<Rightarrow> code | None \<Rightarrow> ''denied'')
       (case deny_reason decision of Some reason \<Rightarrow> debug reason | None \<Rightarrow> [])"

definition submit ::
  "('s, 'v) ProactiveGate \<Rightarrow> (DenyReason \<Rightarrow> string) \<Rightarrow> ProactiveProposal \<Rightarrow> u32 \<Rightarrow> datetime \<Rightarrow> 's GateMemory \<Rightarrow>
     's GateMemory \<times> (ProactiveGateError, Admission \<times> ProactiveProposal) result" where
  "submit gate debug p open_proposals now st =
     (let g = gate_state st;
          decision = admit_proposal g p open_proposals;
          audit = for_proposal (from_decision debug now (gs_mode g) ''admit_proposal'' decision) (pp_id p);
          audit = (case pp_case_id p of Some case_id \<Rightarrow> for_case audit case_id | None \<Rightarrow> audit);
          s = fst (view_put (pg_audit gate) (audit_key now (pp_id p)) audit None (gm_records st))
      in if \<not> PolicyDecision_is_allowed decision
         then let p = (if pp_status p = ProposalStatus.Proposed \<and> \<not> allows_proposal (gs_mode g) \<and> evaluates (gs_mode g)
                       then p\<lparr>pp_status := ProposalStatus.Observed\<rparr> else p);
                  s = (if evaluates (gs_mode g) then fst (view_put (pg_proposals gate) (pp_id p) p None s) else s)
              in (st\<lparr>gm_records := s\<rparr>, Inr (denied_admission debug decision, p))
         else case view_put (pg_proposals gate) (pp_id p) p (Some 0) s of
           (s, Inl e) \<Rightarrow> (st\<lparr>gm_records := s\<rparr>, Inl (ProactiveGateError.Store e))
         | (s, Inr _) \<Rightarrow> (st\<lparr>gm_records := s\<rparr>, Inr (Admission_allowed, p)))"

definition gate_admit_execution ::
  "('s, 'v) ProactiveGate \<Rightarrow> (DenyReason \<Rightarrow> string) \<Rightarrow> string \<Rightarrow> datetime \<Rightarrow> 's GateMemory \<Rightarrow>
     's GateMemory \<times> (ProactiveGateError, Admission \<times> ProactiveProposal option) result" where
  "gate_admit_execution gate debug proposal_id now st = (case view_get (pg_proposals gate) proposal_id (gm_records st) of
     (s, Inl e) \<Rightarrow> (st\<lparr>gm_records := s\<rparr>, Inl (ProactiveGateError.Store e))
   | (s, Inr None) \<Rightarrow> (st\<lparr>gm_records := s\<rparr>, Inr (Admission_denied ''proposal_not_found'' proposal_id, None))
   | (s, Inr (Some (p, _))) \<Rightarrow>
       (let g = gate_state st;
            decision = admit_execution g p;
            audit = for_proposal (from_decision debug now (gs_mode g) ''admit_execution'' decision) (pp_id p);
            s = fst (view_put (pg_audit gate) (audit_key now (pp_id p)) audit None s)
        in (st\<lparr>gm_records := s\<rparr>,
            Inr (if \<not> PolicyDecision_is_allowed decision then denied_admission debug decision else Admission_allowed, Some p))))"

definition gate_get ::
  "('s, 'v) ProactiveGate \<Rightarrow> string \<Rightarrow> 's \<Rightarrow> 's \<times> (ProactiveGateError, ProactiveProposal option) result" where
  "gate_get gate proposal_id s =
     map_prod id (map_sum ProactiveGateError.Store (map_option fst)) (view_get (pg_proposals gate) proposal_id s)"

definition gate_list ::
  "('s, 'v) ProactiveGate \<Rightarrow> ProposalStatus option \<Rightarrow> string option \<Rightarrow> nat \<Rightarrow> 's \<Rightarrow>
     's \<times> (ProactiveGateError, ProactiveProposal list) result" where
  "gate_list gate status case_id limit s =
     map_prod id (map_sum ProactiveGateError.Store (\<lambda>found. sort_key (\<lambda>p. - pp_created_at p) (filter (\<lambda>p.
       (case status of Some st \<Rightarrow> pp_status p = st | None \<Rightarrow> True) \<and>
       (case case_id of Some c \<Rightarrow> pp_case_id p = Some c | None \<Rightarrow> True)) (map fst found))))
       (view_list (pg_proposals gate) limit s)"

definition open_count :: "('s, 'v) ProactiveGate \<Rightarrow> 's \<Rightarrow> 's \<times> (ProactiveGateError, u32) result" where
  "open_count gate s =
     map_prod id (map_sum id (\<lambda>found. of_nat (length (filter (\<lambda>p. ProposalStatus_is_open (pp_status p)) found))))
       (gate_list gate None None 1000 s)"

definition gate_step ::
  "string \<Rightarrow> (ProactiveProposal \<Rightarrow> (ProposalError, ProactiveProposal) result) \<Rightarrow> ProactiveProposal \<Rightarrow> nat \<Rightarrow>
     (ProactiveProposal, (ProactiveGateError, ProactiveProposal) result) cas_step" where
  "gate_step proposal_id change p version = (case change p of
     Inl (ProposalError.NotActionable status) \<Rightarrow>
       Return (Inl (ProactiveGateError.NotActionable proposal_id (ProposalStatus_as_str status)))
   | Inr p \<Rightarrow> cas_step.Write p (Inr p))"

text \<open>\<open>mode\<close> is \<open>self.mode()\<close> at the moment the decision was stored.\<close>

definition gate_decide ::
  "('s, 'v) ProactiveGate \<Rightarrow> ProactiveMode \<Rightarrow> string \<Rightarrow> ProposalDecision \<Rightarrow> datetime \<Rightarrow> 's \<Rightarrow>
     's \<times> (ProactiveGateError, ProactiveProposal) result" where
  "gate_decide gate mode proposal_id decision now s =
     (case cas_loop (pg_proposals gate) proposal_id (gate_step proposal_id (apply_decision decision now))
             (Inl (ProactiveGateError.NotFound proposal_id)) (\<lambda>e. Inl (ProactiveGateError.Store e))
             (Inl ProactiveGateError.Contended) 8 s of
        (s, Inl e) \<Rightarrow> (s, Inl e)
      | (s, Inr p) \<Rightarrow>
          (let entry = for_proposal (ProactiveAuditEntry_new now mode ''decision'' (case decision of Approve _ \<Rightarrow> True | _ \<Rightarrow> False)) proposal_id
           in (fst (view_put (pg_audit gate) (audit_key now proposal_id) entry None s), Inr p)))"

definition gate_mark_executed ::
  "('s, 'v) ProactiveGate \<Rightarrow> string \<Rightarrow> string \<Rightarrow> datetime \<Rightarrow> 's \<Rightarrow> 's \<times> (ProactiveGateError, ProactiveProposal) result" where
  "gate_mark_executed gate proposal_id case_id now s =
     cas_loop (pg_proposals gate) proposal_id (gate_step proposal_id (mark_executed case_id now))
       (Inl (ProactiveGateError.NotFound proposal_id)) (\<lambda>e. Inl (ProactiveGateError.Store e))
       (Inl ProactiveGateError.Contended) 8 s"

definition record_audit ::
  "('s, 'v) ProactiveGate \<Rightarrow> ProactiveAuditEntry \<Rightarrow> datetime \<Rightarrow> 's \<Rightarrow> 's \<times> (ProactiveGateError, unit) result" where
  "record_audit gate entry now s =
     (let key = show_int (timestamp_micros now) @ '':'' @
            (case ae_proposal_id entry of Some i \<Rightarrow> i | None \<Rightarrow> ''none'') @ '':'' @ ae_action entry
      in map_prod id (map_sum ProactiveGateError.Store (\<lambda>_. ())) (view_put (pg_audit gate) key entry None s))"

definition gate_audit ::
  "('s, 'v) ProactiveGate \<Rightarrow> string option \<Rightarrow> string option \<Rightarrow> u64 \<Rightarrow> 's \<Rightarrow>
     's \<times> (ProactiveGateError, ProactiveAuditEntry list) result" where
  "gate_audit gate proposal_id case_id limit s =
     map_prod id (map_sum ProactiveGateError.Store (\<lambda>found. take (unat limit) (sort_key (\<lambda>e. - ae_at e) (filter (\<lambda>e.
       (case proposal_id of Some i \<Rightarrow> ae_proposal_id e = Some i | None \<Rightarrow> True) \<and>
       (case case_id of Some c \<Rightarrow> ae_case_id e = Some c | None \<Rightarrow> True)) (map fst found)))))
       (view_list (pg_audit gate) (unat (max (saturating_mul limit 4) 50)) s)"

section \<open>What may execute\<close>

definition within_token_limit :: "ProactiveGateState \<Rightarrow> ProactiveProposal \<Rightarrow> bool" where
  "within_token_limit g p \<longleftrightarrow> pred_option (\<lambda>limit. pred_option (\<lambda>estimate. estimate \<le> limit) (pp_estimated_tokens p)) (gs_max_tokens_per_action g)"

lemma admit_execution_Allow_iff:
  "admit_execution g p = PolicyDecision.Allow \<longleftrightarrow>
     gs_mode g = ProactiveMode.Execute \<and> pp_status p = ProposalStatus.Approved \<and> within_token_limit g p"
  by (auto simp: admit_execution_def mode_disallows_def allows_execution_def within_token_limit_def not_less split: option.splits)

lemma admit_proposal_Allow_iff:
  "admit_proposal g p n = PolicyDecision.Allow \<longleftrightarrow>
     gs_mode g \<noteq> ProactiveMode.Off \<and> pp_evidence p \<noteq> [] \<and> n < gs_max_open_proposals g"
  by (auto simp: admit_proposal_def mode_disallows_def evaluates_def not_le)

text \<open>
  C29. The gate lets a proposal execute only when its mode is \<open>Execute\<close>, with its lock sound, and the stored
  proposal is approved and within the token limit; asking changes nothing but the audit trail.
\<close>

theorem admitted_execution_sound:
  assumes rs: "record_store store contents ready valid"
    and over: "ns_store (pg_proposals gate) = store" "ns_store (pg_audit gate) = store"
    and s: "valid (gm_records st)"
    and run: "gate_admit_execution gate debug proposal_id now st = (st', Inr (admission, found))"
  shows "(ad_allowed admission \<longrightarrow> (\<exists>p v. found = Some p \<and> document (pg_proposals gate) (contents (gm_records st)) proposal_id = Some (p, v) \<and>
      \<not> gm_poisoned st \<and> gs_mode (gm_mode st) = ProactiveMode.Execute \<and> pp_status p = ProposalStatus.Approved \<and>
      within_token_limit (gm_mode st) p)) \<and>
    (\<forall>ns k. ns \<noteq> ns_namespace (pg_audit gate) \<longrightarrow> contents (gm_records st') (ns, k) = contents (gm_records st) (ns, k)) \<and>
    gm_mode st' = gm_mode st"
proof (rule record_store.view_get_cases[OF rs, OF over(1), of proposal_id "gm_records st"], goal_cases down absent found)
  case (down e)
  then show ?thesis using run by (simp add: gate_admit_execution_def)
next
  case absent
  then show ?thesis using run by (auto simp: gate_admit_execution_def Admission_denied_def)
next
  case (found r p)
  let ?g = "gate_state st"
  let ?audit = "for_proposal (from_decision debug now (gs_mode ?g) ''admit_execution'' (admit_execution ?g p)) (pp_id p)"
  obtain s' where s': "fst (view_put (pg_audit gate) (audit_key now (pp_id p)) ?audit None (gm_records st)) = s'" by blast
  have other: "contents s' (ns, k) = contents (gm_records st) (ns, k)" if "ns \<noteq> ns_namespace (pg_audit gate)" for ns k
    using record_store.view_put_blind[OF rs, OF over(2) s, where p = "(ns, k)"] that s' by (metis fst_conv)
  have out: "st' = st\<lparr>gm_records := s'\<rparr>" "found = Some p"
    "ad_allowed admission \<longleftrightarrow> admit_execution ?g p = PolicyDecision.Allow"
    using run found(1) s' by (auto simp: gate_admit_execution_def Let_def denied_admission_def Admission_denied_def
        Admission_allowed_def PolicyDecision_is_allowed_iff split: if_splits)
  have "document (pg_proposals gate) (contents (gm_records st)) proposal_id = Some (p, rec_version r)"
    using found(2,3) by (simp add: document_def)
  moreover have "\<not> gm_poisoned st \<and> ?g = gm_mode st" if "gs_mode ?g = ProactiveMode.Execute"
    using that by (auto simp: gate_state_def ProactiveGateState_default_def split: if_splits)
  ultimately show ?thesis using out other by (auto simp: admit_execution_Allow_iff)
qed

section \<open>Life of a proposal\<close>

inductive proposal_step :: "ProactiveProposal \<Rightarrow> ProactiveProposal \<Rightarrow> bool" where
  decided: "apply_decision decision now p = Inr p' \<Longrightarrow> proposal_step p p'"
| executed: "mark_executed case_id now p = Inr p' \<Longrightarrow> proposal_step p p'"

lemma apply_decision_Inr:
  "apply_decision decision now p = Inr p' \<Longrightarrow> pp_status p = ProposalStatus.Proposed \<and>
     pp_status p' = (case decision of Approve _ \<Rightarrow> ProposalStatus.Approved | Reject _ _ \<Rightarrow> ProposalStatus.Rejected)"
  by (auto simp: apply_decision_def split: if_splits ProposalDecision.splits)

lemma mark_executed_Inr:
  "mark_executed case_id now p = Inr p' \<Longrightarrow> pp_status p = ProposalStatus.Approved \<and> pp_status p' = ProposalStatus.Executed"
  by (auto simp: mark_executed_def split: if_splits)

lemma proposal_history:
  assumes "proposal_step\<^sup>*\<^sup>* p0 p" "pp_status p0 \<in> {ProposalStatus.Observed, ProposalStatus.Proposed}"
  shows "p = p0 \<or> (\<exists>d t. apply_decision d t p0 = Inr p) \<or>
    (\<exists>who t q c t'. apply_decision (Approve who) t p0 = Inr q \<and> mark_executed c t' q = Inr p)"
  using assms(1)
proof (induction rule: rtranclp_induct)
  case (step q p)
  from step(2) show ?case
  proof (cases rule: proposal_step.cases)
    case (decided decision now)
    then have "pp_status q = ProposalStatus.Proposed" by (blast dest: apply_decision_Inr)
    then have "q = p0" using step(3) by (auto dest!: apply_decision_Inr mark_executed_Inr split: ProposalDecision.splits)
    with decided show ?thesis by blast
  next
    case (executed case_id now)
    then have "pp_status q = ProposalStatus.Approved" by (blast dest: mark_executed_Inr)
    with step(3) assms(2) obtain d t where d: "apply_decision d t p0 = Inr q" "pp_status q = ProposalStatus.Approved"
      by (auto dest: mark_executed_Inr)
    then obtain who where "d = Approve who" using apply_decision_Inr[OF d(1)] by (cases d) auto
    with executed d(1) show ?thesis by blast
  qed
qed simp

text \<open>
  Nothing executes without an approval: an executed proposal was created in a mode that shows proposals
  to a human, and its whole history is one approval of the fresh proposal followed by one execution.
\<close>

lemma executed_needs_approval:
  assumes "proposal_step\<^sup>*\<^sup>* (with_evidence (ProactiveProposal_new i kind title rationale mode now) evidence) p"
    and "pp_status p = ProposalStatus.Executed"
  shows "allows_proposal mode \<and> (\<exists>who t q c t'.
    apply_decision (Approve who) t (with_evidence (ProactiveProposal_new i kind title rationale mode now) evidence) = Inr q \<and>
    mark_executed c t' q = Inr p \<and> pp_decided_by p = Some who \<and> pp_executed_case_id p = Some c)"
proof -
  let ?p0 = "with_evidence (ProactiveProposal_new i kind title rationale mode now) evidence"
  have st: "pp_status ?p0 = (if allows_proposal mode then ProposalStatus.Proposed else ProposalStatus.Observed)"
    by (simp add: with_evidence_def ProactiveProposal_new_def)
  have "p \<noteq> ?p0" using st assms(2) by (auto split: if_splits)
  moreover have "apply_decision d t ?p0 \<noteq> Inr p" for d t
    using apply_decision_Inr assms(2) by (fastforce split: ProposalDecision.splits)
  ultimately obtain who t q c t' where h: "apply_decision (Approve who) t ?p0 = Inr q" "mark_executed c t' q = Inr p"
    using proposal_history[OF assms(1)] st by (auto split: if_splits)
  moreover have "allows_proposal mode" using apply_decision_Inr[OF h(1)] st by (simp split: if_splits)
  moreover have "pp_decided_by p = Some who" "pp_executed_case_id p = Some c"
    using h by (auto simp: apply_decision_def mark_executed_def split: if_splits)
  ultimately show ?thesis by blast
qed

lemma gate_step_Write: "gate_step i change p v = cas_step.Write p' res \<longleftrightarrow> change p = Inr p' \<and> res = Inr p'"
  by (auto simp: gate_step_def split: sum.splits ProposalError.splits)

lemma gate_step_Return: "gate_step i change p v = Return res \<Longrightarrow> \<exists>e. res = Inl e"
  by (auto simp: gate_step_def split: sum.splits ProposalError.splits)

text \<open>
  An approval is executed once: whatever is written in between, a successful \<open>mark_executed\<close> replaces a
  stored approved proposal by its executed self, at the next version.
\<close>

lemma executed_once:
  assumes rs: "record_store store contents ready valid"
    and view: "ns_store (pg_proposals gate) = store" "serde_ok (pg_proposals gate)"
    and env: "tolerable contents valid env" and s: "valid s"
    and run: "gate_mark_executed (gate'\<lparr>pg_proposals := concurrent_view env (pg_proposals gate)\<rparr>) i case_id now (s, 0) = ((s', n'), Inr p)"
  shows "\<exists>m old v. advances (contents s) m \<and> document (pg_proposals gate) m i = Some (old, v) \<and>
    pp_status old = ProposalStatus.Approved \<and>
    p = old\<lparr>pp_status := ProposalStatus.Executed, pp_executed_case_id := Some case_id, pp_decided_at := Some now\<rparr> \<and>
    document (pg_proposals gate) (contents s') i = Some (p, v + 1)"
proof -
  let ?step = "gate_step i (mark_executed case_id now)" and ?absent = "Inl (ProactiveGateError.NotFound i)"
    and ?failed = "\<lambda>e. Inl (ProactiveGateError.Store e)" and ?exhausted = "Inl ProactiveGateError.Contended"
  obtain m where m: "advances (contents s) m"
    and alt: "m = contents s' \<and> cas_unwritten (pg_proposals gate) i ?step ?absent ?failed ?exhausted m (Inr p) \<or>
      cas_wrote (pg_proposals gate) i ?step (Inr p) m (contents s')"
    using record_store.cas_loop_linearizable[OF rs, OF view(1) env s] run unfolding gate_mark_executed_def by fastforce
  moreover have "\<not> cas_unwritten (pg_proposals gate) i ?step ?absent ?failed ?exhausted m (Inr p)"
    by (auto simp: cas_unwritten_def dest: gate_step_Return)
  ultimately obtain r r' old where w: "m (ns_namespace (pg_proposals gate), i) = Some r"
    "ns_from_value (pg_proposals gate) (rec_value r) = Inr old" "mark_executed case_id now old = Inr p"
    "ns_to_value (pg_proposals gate) p = Inr (rec_value r')" "rec_version r' = rec_version r + 1"
    "contents s' = m((ns_namespace (pg_proposals gate), i) \<mapsto> r')"
    by (auto simp: cas_wrote_def gate_step_Write)
  moreover have "ns_from_value (pg_proposals gate) (rec_value r') = Inr p"
    using w(4) view(2) by (metis serde_okE sum.inject(2))
  ultimately show ?thesis using m
    by (intro exI[of _ m] exI[of _ old] exI[of _ "rec_version r"])
      (auto simp: document_def mark_executed_def split: if_splits)
qed

section \<open>A gate on the in-memory store\<close>

datatype gate_value = DProposal ProactiveProposal | DAudit ProactiveAuditEntry | DGate ProactiveGateState

definition plain_gate :: "(gate_value InMemoryRecordStore, gate_value) ProactiveGate" where
  "plain_gate = fst (ProactiveGate_new in_memory_store
     (\<lambda>d. case d of DProposal p \<Rightarrow> Inr p | _ \<Rightarrow> Inl ''not a proposal'') (Inr \<circ> DProposal)
     (\<lambda>d. case d of DAudit e \<Rightarrow> Inr e | _ \<Rightarrow> Inl ''not an entry'') (Inr \<circ> DAudit)
     (\<lambda>d. case d of DGate g \<Rightarrow> Inr g | _ \<Rightarrow> Inl ''not a state'') (Inr \<circ> DGate) (mem_new 0))"

definition fresh_proposal :: ProactiveProposal where
  "fresh_proposal = with_evidence (ProactiveProposal_new ''p1'' FixFailingCi ''fix ci'' ''red build'' ProactiveMode.Execute 1) [''run:7'']"

definition approved_proposal :: ProactiveProposal where
  "approved_proposal = projr (apply_decision (Approve ''alice'') 2 fresh_proposal)"

definition gate_records :: "gate_value InMemoryRecordStore" where
  "gate_records = \<lparr>mem_inner = [((''proactive_proposal'', ''p1''), \<lparr>rec_namespace = ''proactive_proposal'', rec_key = ''p1'',
     rec_version = 2, rec_value = DProposal approved_proposal, rec_updated_at = 2\<rparr>)], mem_poisoned = False, mem_clock = 2\<rparr>"

definition execute_memory :: "gate_value InMemoryRecordStore GateMemory" where
  "execute_memory = \<lparr>gm_mode = ProactiveGateState_default\<lparr>gs_mode := ProactiveMode.Execute\<rparr>, gm_poisoned = False,
     gm_records = gate_records\<rparr>"

lemma plain_gate_ok:
  "ns_store (pg_proposals plain_gate) = in_memory_store" "serde_ok (pg_proposals plain_gate)"
  "ns_store (pg_audit plain_gate) = in_memory_store" "mem_valid gate_records"
  by (auto simp: plain_gate_def ProactiveGate_new_def serde_ok_def gate_records_def mem_valid_def rows_ok_def)

theorem admitted_execution_sound_witness:
  "\<exists>p v. document (pg_proposals plain_gate) (mem_contents gate_records) ''p1'' = Some (p, v) \<and> pp_status p = ProposalStatus.Approved"
proof -
  let ?run = "gate_admit_execution plain_gate (\<lambda>_. []) ''p1'' 3 execute_memory"
  have r: "snd ?run = Inr (Admission_allowed, Some approved_proposal)" by code_simp
  then have "?run = (fst ?run, Inr (Admission_allowed, Some approved_proposal))" by (metis prod.collapse)
  from admitted_execution_sound[OF mem.record_store_axioms, OF plain_gate_ok(1,3) _ this] plain_gate_ok(4)
  show ?thesis by (auto simp: execute_memory_def Admission_allowed_def)
qed

text \<open>A refused submission is still stored, over whatever proposal has its id: here over an approved one.\<close>

definition unexplained :: ProactiveProposal where
  "unexplained = fresh_proposal\<lparr>pp_evidence := []\<rparr>"

lemma denied_submit_overwrites:
  "case submit plain_gate (\<lambda>_. []) unexplained 0 5 execute_memory of (st, res) \<Rightarrow>
     map_option fst (document (pg_proposals plain_gate) (mem_contents gate_records) ''p1'') = Some approved_proposal \<and>
     map_sum id (ad_allowed \<circ> fst) res = Inr False \<and>
     map_option fst (document (pg_proposals plain_gate) (mem_contents (gm_records st)) ''p1'') = Some unexplained"
  by code_simp

end
