(* ===== verification/Watchdog.thy ===== *)
theory Watchdog
  imports Record_Store
begin

text \<open>
  The watchdog: the decision on a stall signal in \<open>crates/uc-types/src/governance/proactive.rs\<close> and its ledger in
  \<open>crates/uc-engine/src/governance/watchdog.rs\<close>. The verdict follows the budgets, the backoff is bounded, and
  a case is replanned a bounded number of times.
\<close>

section \<open>Bounded decisions\<close>

record WatchdogSignal =
  ws_task_id :: string
  ws_subtask_id :: "string option"
  ws_no_progress_count :: u32
  ws_evidence_signature :: "string option"
  ws_last_error :: "string option"
  ws_confirmed_effect_ids :: "string list"
  ws_attempts_used :: u32
  ws_replans_used :: u32

definition WatchdogSignal_new :: "string \<Rightarrow> WatchdogSignal" where
  "WatchdogSignal_new task_id =
     \<lparr>ws_task_id = task_id, ws_subtask_id = None, ws_no_progress_count = 0, ws_evidence_signature = None,
      ws_last_error = None, ws_confirmed_effect_ids = [], ws_attempts_used = 0, ws_replans_used = 0\<rparr>"

record WatchdogConfig =
  wd_stall_limit :: u32
  wd_max_replans :: u32
  wd_max_attempts :: u32
  wd_base_backoff_ms :: u64
  wd_max_backoff_ms :: u64

definition WatchdogConfig_default :: WatchdogConfig where
  "WatchdogConfig_default =
     \<lparr>wd_stall_limit = 2, wd_max_replans = 2, wd_max_attempts = 5, wd_base_backoff_ms = 1000, wd_max_backoff_ms = 60000\<rparr>"

datatype WatchdogVerdict =
  Continue
| RetrySameContract (wv_delay_ms: u64)
| Replan (wv_attempt: u32) (wv_delay_ms: u64) (wv_preserve_effects: "string list")
| EscalateNeedsHuman (wv_reason: string)
| Stop (wv_reason: string)

record WatchdogDecision =
  wo_verdict :: WatchdogVerdict
  wo_replans_remaining :: u32
  wo_attempts_remaining :: u32

definition replan_delay_ms :: "WatchdogConfig \<Rightarrow> u32 \<Rightarrow> u64" where
  "replan_delay_ms config attempt =
     min (saturating_mul (wd_base_backoff_ms config) (push_bit (unat (min (saturating_sub attempt 1) 16)) 1))
       (wd_max_backoff_ms config)"

definition watchdog_decide :: "WatchdogConfig \<Rightarrow> WatchdogSignal \<Rightarrow> WatchdogDecision" where
  "watchdog_decide config signal =
     (let replans_remaining = saturating_sub (wd_max_replans config) (ws_replans_used signal);
          attempts_remaining = saturating_sub (wd_max_attempts config) (ws_attempts_used signal)
      in if wd_max_attempts config \<le> ws_attempts_used signal
         then \<lparr>wo_verdict = Stop (''attempt budget exhausted ('' @ show_word (ws_attempts_used signal) @ ''/'' @
                 show_word (wd_max_attempts config) @ '')''),
               wo_replans_remaining = replans_remaining, wo_attempts_remaining = 0\<rparr>
         else if ws_no_progress_count signal < wd_stall_limit config
         then \<lparr>wo_verdict = Continue, wo_replans_remaining = replans_remaining, wo_attempts_remaining = attempts_remaining\<rparr>
         else if replans_remaining = 0
         then \<lparr>wo_verdict = EscalateNeedsHuman (''stalled for '' @ show_word (ws_no_progress_count signal) @
                 '' attempts and the replan budget is exhausted''),
               wo_replans_remaining = replans_remaining, wo_attempts_remaining = attempts_remaining\<rparr>
         else let attempt = ws_replans_used signal + 1;
                  delay_ms = replan_delay_ms config attempt
              in \<lparr>wo_verdict = Replan attempt delay_ms (ws_confirmed_effect_ids signal),
                  wo_replans_remaining = replans_remaining, wo_attempts_remaining = attempts_remaining\<rparr>)"

definition decide_with_retry :: "WatchdogConfig \<Rightarrow> WatchdogSignal \<Rightarrow> bool \<Rightarrow> WatchdogDecision" where
  "decide_with_retry config signal already_retried =
     (if wd_stall_limit config \<le> ws_no_progress_count signal \<and> \<not> already_retried \<and>
         ws_attempts_used signal < wd_max_attempts config \<and> ws_replans_used signal < wd_max_replans config
      then \<lparr>wo_verdict = RetrySameContract (wd_base_backoff_ms config),
            wo_replans_remaining = saturating_sub (wd_max_replans config) (ws_replans_used signal),
            wo_attempts_remaining = saturating_sub (wd_max_attempts config) (ws_attempts_used signal)\<rparr>
      else watchdog_decide config signal)"

section \<open>The ledger\<close>

datatype WatchdogError = Store RecordError

fun WatchdogError_display :: "WatchdogError \<Rightarrow> string" where
  "WatchdogError_display (WatchdogError.Store e) = ''watchdog ledger: '' @ RecordError_display e"

record WatchdogRecord =
  wr_task_id :: string
  wr_subtask_id :: "string option"
  wr_verdict :: string
  wr_reason :: string
  wr_no_progress_count :: u32
  wr_replans_used :: u32
  wr_attempts_used :: u32
  wr_preserve_effects :: "string list"
  wr_at :: datetime

record ('s, 'v) Watchdog =
  wg_config :: WatchdogConfig
  wg_view :: "('s, 'v, WatchdogRecord) NamespacedStore"

definition Watchdog_new ::
  "('s, 'v) RecordStore \<Rightarrow> ('v \<Rightarrow> (string, WatchdogRecord) result) \<Rightarrow> (WatchdogRecord \<Rightarrow> (string, 'v) result) \<Rightarrow> ('s, 'v) Watchdog" where
  "Watchdog_new records from to =
     \<lparr>wg_config = WatchdogConfig_default,
      wg_view = \<lparr>ns_store = records, ns_namespace = ''watchdog_decision'', ns_from_value = from, ns_to_value = to\<rparr>\<rparr>"

definition with_config :: "('s, 'v) Watchdog \<Rightarrow> WatchdogConfig \<Rightarrow> ('s, 'v) Watchdog" where
  "with_config dog config = dog\<lparr>wg_config := config\<rparr>"

fun verdict_token :: "WatchdogVerdict \<Rightarrow> string" where
  "verdict_token Continue = ''continue''"
| "verdict_token (RetrySameContract _) = ''retry_same_contract''"
| "verdict_token (Replan _ _ _) = ''replan''"
| "verdict_token (EscalateNeedsHuman _) = ''escalate_needs_human''"
| "verdict_token (Stop _) = ''stop''"

fun verdict_reason :: "WatchdogVerdict \<Rightarrow> string" where
  "verdict_reason Continue = ''progress within budget''"
| "verdict_reason (RetrySameContract delay_ms) = ''stalled: retry the same contract after '' @ show_word delay_ms @ ''ms''"
| "verdict_reason (Replan attempt _ effects) =
     ''stalled: bounded replan attempt '' @ show_word attempt @ '', preserving '' @ show_nat (length effects) @ '' confirmed effect(s)''"
| "verdict_reason (EscalateNeedsHuman reason) = reason"
| "verdict_reason (Stop reason) = reason"

fun preserve_effects :: "WatchdogVerdict \<Rightarrow> string list" where
  "preserve_effects (Replan _ _ effects) = effects"
| "preserve_effects _ = []"

definition watchdog_record :: "WatchdogSignal \<Rightarrow> WatchdogDecision \<Rightarrow> datetime \<Rightarrow> WatchdogRecord" where
  "watchdog_record signal decision now =
     \<lparr>wr_task_id = ws_task_id signal, wr_subtask_id = ws_subtask_id signal, wr_verdict = verdict_token (wo_verdict decision),
      wr_reason = verdict_reason (wo_verdict decision), wr_no_progress_count = ws_no_progress_count signal,
      wr_replans_used = ws_replans_used signal, wr_attempts_used = ws_attempts_used signal,
      wr_preserve_effects = preserve_effects (wo_verdict decision), wr_at = now\<rparr>"

definition dog_decide ::
  "('s, 'v) Watchdog \<Rightarrow> WatchdogSignal \<Rightarrow> bool \<Rightarrow> datetime \<Rightarrow> 's \<Rightarrow> 's \<times> (WatchdogError, WatchdogDecision) result" where
  "dog_decide dog signal already_retried now s =
     (let decision = decide_with_retry (wg_config dog) signal already_retried;
          key = ws_task_id signal @ '':'' @ show_int (timestamp_millis now)
      in (fst (view_put (wg_view dog) key (watchdog_record signal decision now) None s), Inr decision))"

definition dog_history ::
  "('s, 'v) Watchdog \<Rightarrow> string \<Rightarrow> nat \<Rightarrow> 's \<Rightarrow> 's \<times> (WatchdogError, WatchdogRecord list) result" where
  "dog_history dog task_id limit s =
     map_prod id (map_sum WatchdogError.Store (\<lambda>found.
       take limit (sort_key (\<lambda>r. - wr_at r) (filter (\<lambda>r. wr_task_id r = task_id) (map fst found)))))
       (view_list (wg_view dog) 1000 s)"

definition dog_list :: "('s, 'v) Watchdog \<Rightarrow> nat \<Rightarrow> 's \<Rightarrow> 's \<times> (WatchdogError, WatchdogRecord list) result" where
  "dog_list dog limit s = map_prod id (map_sum WatchdogError.Store (map fst)) (view_list (wg_view dog) limit s)"

section \<open>Recovery is bounded\<close>

lemma backoff_exact:
  assumes "n \<noteq> - 1"
  shows "unat (replan_delay_ms config (n + 1)) =
    min (min (unat (wd_base_backoff_ms config) * 2 ^ min (unat n) 16) (2 ^ 64 - 1)) (unat (wd_max_backoff_ms config))"
proof -
  have "unat (n + 1) = Suc (unat n)" by (rule unat_plus_one[OF assms])
  then have n: "saturating_sub (n + 1) 1 = n" by (simp add: word_unat_eq_iff unat_saturating_sub)
  have e: "unat (min n 16) = min (unat n) 16" by (simp add: min_def word_le_nat_alt)
  have "unat (push_bit (min (unat n) 16) 1 :: u64) = 2 ^ min (unat n) 16"
  proof -
    have "(2 :: nat) ^ min (unat n) 16 \<le> 2 ^ 16" by (rule power_increasing) auto
    then have "(2 :: nat) ^ min (unat n) 16 < 2 ^ 64" by simp
    then show ?thesis by (simp add: push_bit_eq_mult unat_of_nat[of "2 ^ _", simplified] take_bit_nat_eq_self)
  qed
  then show ?thesis unfolding replan_delay_ms_def n e by (simp add: min_def word_le_nat_alt unat_saturating_mul)
qed

lemma watchdog_budget:
  "case wo_verdict (decide_with_retry config signal already_retried) of
     Stop _ \<Rightarrow> wd_max_attempts config \<le> ws_attempts_used signal
   | Continue \<Rightarrow> ws_attempts_used signal < wd_max_attempts config \<and> ws_no_progress_count signal < wd_stall_limit config
   | EscalateNeedsHuman _ \<Rightarrow> ws_attempts_used signal < wd_max_attempts config \<and> wd_stall_limit config \<le> ws_no_progress_count signal \<and>
       wd_max_replans config \<le> ws_replans_used signal
   | RetrySameContract delay \<Rightarrow> ws_attempts_used signal < wd_max_attempts config \<and> wd_stall_limit config \<le> ws_no_progress_count signal \<and>
       ws_replans_used signal < wd_max_replans config \<and> \<not> already_retried \<and> delay = wd_base_backoff_ms config
   | Replan attempt delay effects \<Rightarrow> ws_attempts_used signal < wd_max_attempts config \<and>
       wd_stall_limit config \<le> ws_no_progress_count signal \<and> already_retried \<and> effects = ws_confirmed_effect_ids signal \<and>
       unat attempt = unat (ws_replans_used signal) + 1 \<and> unat attempt \<le> unat (wd_max_replans config) \<and>
       unat delay = min (min (unat (wd_base_backoff_ms config) * 2 ^ min (unat (ws_replans_used signal)) 16) (2 ^ 64 - 1))
         (unat (wd_max_backoff_ms config))"
proof -
  consider (stop) "wd_max_attempts config \<le> ws_attempts_used signal"
    | (quiet) "ws_attempts_used signal < wd_max_attempts config" "ws_no_progress_count signal < wd_stall_limit config"
    | (human) "ws_attempts_used signal < wd_max_attempts config" "wd_stall_limit config \<le> ws_no_progress_count signal"
        "wd_max_replans config \<le> ws_replans_used signal"
    | (retry) "ws_attempts_used signal < wd_max_attempts config" "wd_stall_limit config \<le> ws_no_progress_count signal"
        "ws_replans_used signal < wd_max_replans config" "\<not> already_retried"
    | (replan) "ws_attempts_used signal < wd_max_attempts config" "wd_stall_limit config \<le> ws_no_progress_count signal"
        "ws_replans_used signal < wd_max_replans config" already_retried
    by (metis not_le)
  then show ?thesis
  proof cases
    case replan
    let ?n = "ws_replans_used signal"
    have n: "?n \<noteq> - 1" using replan(3) by (metis word_order.extremum_strict)
    have "unat (?n + 1) = unat ?n + 1" using unat_plus_one[OF n] by simp
    moreover have "unat ?n + 1 \<le> unat (wd_max_replans config)" using replan(3) by (simp add: word_less_nat_alt)
    moreover have "wo_verdict (decide_with_retry config signal already_retried) =
        Replan (?n + 1) (replan_delay_ms config (?n + 1)) (ws_confirmed_effect_ids signal)"
      using replan by (simp add: decide_with_retry_def watchdog_decide_def Let_def saturating_sub_zero_iff not_le not_less)
    ultimately show ?thesis using replan backoff_exact[OF n, of config] by simp
  qed (simp_all add: decide_with_retry_def watchdog_decide_def Let_def saturating_sub_zero_iff not_le not_less)
qed

text \<open>
  C31. The verdict follows the budgets: a task out of attempts is stopped, a stalled one out of replans goes to
  a human, a stalled one is retried once and then replanned, and a replan is numbered within the budget without
  overflow, keeps every confirmed effect and waits the doubled backoff, never longer than the configured maximum.
\<close>

theorem watchdog_verdict:
  "case wo_verdict (decide_with_retry config signal already_retried) of
     Stop _ \<Rightarrow> wd_max_attempts config \<le> ws_attempts_used signal
   | Continue \<Rightarrow> ws_attempts_used signal < wd_max_attempts config \<and> ws_no_progress_count signal < wd_stall_limit config
   | EscalateNeedsHuman _ \<Rightarrow> ws_attempts_used signal < wd_max_attempts config \<and> wd_stall_limit config \<le> ws_no_progress_count signal \<and>
       wd_max_replans config \<le> ws_replans_used signal
   | RetrySameContract delay \<Rightarrow> ws_attempts_used signal < wd_max_attempts config \<and> wd_stall_limit config \<le> ws_no_progress_count signal \<and>
       ws_replans_used signal < wd_max_replans config \<and> \<not> already_retried \<and> delay = wd_base_backoff_ms config
   | Replan attempt delay effects \<Rightarrow> ws_attempts_used signal < wd_max_attempts config \<and>
       wd_stall_limit config \<le> ws_no_progress_count signal \<and> already_retried \<and> effects = ws_confirmed_effect_ids signal \<and>
       unat attempt = unat (ws_replans_used signal) + 1 \<and> unat attempt \<le> unat (wd_max_replans config) \<and>
       unat delay = min (min (unat (wd_base_backoff_ms config) * 2 ^ min (unat (ws_replans_used signal)) 16) (2 ^ 64 - 1))
         (unat (wd_max_backoff_ms config))"
  by (rule watchdog_budget)

definition replans :: "WatchdogConfig \<Rightarrow> WatchdogSignal \<times> bool \<Rightarrow> bool" where
  "replans config q = (case wo_verdict (decide_with_retry config (fst q) (snd q)) of Replan _ _ _ \<Rightarrow> True | _ \<Rightarrow> False)"

text \<open>The signals of one case, in order: each reports the replans that were ordered before it.\<close>

definition counts_replans :: "WatchdogConfig \<Rightarrow> (WatchdogSignal \<times> bool) list \<Rightarrow> bool" where
  "counts_replans config qs \<longleftrightarrow>
     (\<forall>i < length qs. unat (ws_replans_used (fst (qs ! i))) = length (filter (replans config) (take i qs)))"

text \<open>
  The watchdog cannot loop: however long a case goes on signalling, it orders at most \<open>max_replans\<close> replans,
  as long as the signals report the replans already ordered.
\<close>

lemma watchdog_replans_bounded:
  assumes "counts_replans config qs"
  shows "length (filter (replans config) qs) \<le> unat (wd_max_replans config)"
  using assms
proof (induction qs rule: rev_induct)
  case (snoc q qs)
  have qs: "counts_replans config qs"
    unfolding counts_replans_def
  proof (intro allI impI)
    fix i
    assume "i < length qs"
    then show "unat (ws_replans_used (fst (qs ! i))) = length (filter (replans config) (take i qs))"
      using snoc.prems[unfolded counts_replans_def, rule_format, of i] by (simp add: nth_append)
  qed
  have q: "unat (ws_replans_used (fst q)) = length (filter (replans config) qs)"
    using snoc.prems[unfolded counts_replans_def, rule_format, of "length qs"] by simp
  show ?case
  proof (cases "replans config q")
    case True
    then obtain a d e where "wo_verdict (decide_with_retry config (fst q) (snd q)) = Replan a d e"
      by (auto simp: replans_def split: WatchdogVerdict.splits)
    with watchdog_budget[where config = config and signal = "fst q" and already_retried = "snd q"] q True show ?thesis by simp
  next
    case False
    with snoc.IH[OF qs] show ?thesis by simp
  qed
qed simp

end
