(* ===== verification/Case_Wake.thy ===== *)
theory Case_Wake
  imports Submission_Store Attention_Board Trigger_Inbox
begin

text \<open>
  Events that move cases: \<open>crates/uc-engine/src/governance/case_wake.rs\<close> and \<open>case_resume.rs\<close>. An event wakes the
  waiting cases it matched, and for a subscription that opted in it plans the submission of the next run, which
  the submission store of the same plane records once.
\<close>

section \<open>The stores of the plane\<close>

text \<open>The fields of \<open>Governance\<close> that waking and resuming read, over one record store.\<close>

record ('s, 'v, 'j) Governance =
  gv_cases :: "('s, 'v, 'j) CaseStore"
  gv_mandates :: "('s, 'v) MandateStore"
  gv_attention :: "('s, 'v) AttentionBoard"

section \<open>Waking\<close>

record CaseWake =
  ck_case_id :: string
  ck_resolved_attention :: "string option"

definition open_waiting_item ::
  "('s, 'v) AttentionBoard \<Rightarrow> string \<Rightarrow> 's \<Rightarrow> 's \<times> (AttentionBoardError, AttentionItem option) result" where
  "open_waiting_item attention case_id s = (case open_for_case attention case_id s of
     (s, Inl e) \<Rightarrow> (s, Inl e)
   | (s, Inr None) \<Rightarrow> (s, Inr None)
   | (s, Inr (Some item)) \<Rightarrow> (s, Inr (if at_kind item = AttentionKind.WaitingEvent then Some item else None)))"

definition wake_case ::
  "('s, 'v, 'j) CaseStore \<Rightarrow> ('s, 'v) AttentionBoard \<Rightarrow> string \<Rightarrow> string \<Rightarrow> datetime \<Rightarrow> 's \<Rightarrow> 's \<times> (string, CaseWake option) result" where
  "wake_case cases attention case_id trigger_id now s = (case case_get cases case_id s of
     (s, Inl error) \<Rightarrow> (s, Inl (''case read failed: '' @ CaseStoreError_display error))
   | (s, Inr None) \<Rightarrow> (s, Inr None)
   | (s, Inr (Some (c, _))) \<Rightarrow>
       if is_terminal (wc_status c) \<or> wc_status c \<noteq> CaseStatus.WaitingEvent then (s, Inr None)
       else
         let wake = (\<lambda>resolved_attention s. case case_transition cases case_id CaseStatus.Active now s of
               (s, Inl error) \<Rightarrow> (s, Inl (''case transition failed: '' @ CaseStoreError_display error))
             | (s, Inr _) \<Rightarrow> (s, Inr (Some \<lparr>ck_case_id = case_id, ck_resolved_attention = resolved_attention\<rparr>)))
         in case open_waiting_item attention case_id s of
           (s, Inl error) \<Rightarrow> (s, Inl (''attention read failed: '' @ AttentionBoardError_display error))
         | (s, Inr None) \<Rightarrow> wake None s
         | (s, Inr (Some item)) \<Rightarrow>
             (case board_resolve attention (at_id item) (EventReceived trigger_id) now s of
                (s, Inl error) \<Rightarrow> (s, Inl (''attention resolve failed: '' @ AttentionBoardError_display error))
              | (s, Inr _) \<Rightarrow> wake (Some (at_id item)) s))"

fun wake_matched_cases ::
  "('s, 'v, 'j) Governance \<Rightarrow> string list \<Rightarrow> string \<Rightarrow> datetime \<Rightarrow> 's \<Rightarrow> 's \<times> CaseWake list" where
  "wake_matched_cases governance [] trigger_id now s = (s, [])"
| "wake_matched_cases governance (case_id # rest) trigger_id now s =
     (case wake_case (gv_cases governance) (gv_attention governance) case_id trigger_id now s of
        (s, Inr (Some wake)) \<Rightarrow> map_prod id (Cons wake) (wake_matched_cases governance rest trigger_id now s)
      | (s, _) \<Rightarrow> wake_matched_cases governance rest trigger_id now s)"

section \<open>Planning a resume\<close>

record ResumePlan =
  rp_case_id :: string
  rp_submission :: SubmissionRequest
  rp_reason :: string

datatype ResumeSkip =
  NotOptedIn | UnknownCase | Terminal CaseStatus | NotRunnable CaseStatus | RunAlreadyOpen string | NoLiveMandate string

fun ResumeSkip_code :: "ResumeSkip \<Rightarrow> string" where
  "ResumeSkip_code NotOptedIn = ''not_opted_in''"
| "ResumeSkip_code UnknownCase = ''unknown_case''"
| "ResumeSkip_code (Terminal _) = ''case_terminal''"
| "ResumeSkip_code (NotRunnable _) = ''case_not_runnable''"
| "ResumeSkip_code (RunAlreadyOpen _) = ''run_already_open''"
| "ResumeSkip_code (NoLiveMandate _) = ''no_live_mandate''"

fun ResumeSkip_detail :: "ResumeSkip \<Rightarrow> string" where
  "ResumeSkip_detail NotOptedIn = ''subscription did not opt into auto_resume''"
| "ResumeSkip_detail UnknownCase = ''case does not exist''"
| "ResumeSkip_detail (Terminal status) = ''case is terminal ('' @ CaseStatus_as_str status @ '')''"
| "ResumeSkip_detail (NotRunnable status) = ''case is '' @ CaseStatus_as_str status @ ''; only an active case can start a run''"
| "ResumeSkip_detail (RunAlreadyOpen run_id) = ''case already has an open run ('' @ run_id @ '')''"
| "ResumeSkip_detail (NoLiveMandate detail) = detail"

definition resume_description :: "string \<Rightarrow> 'p TriggerEvent \<Rightarrow> string" where
  "resume_description case_id e =
     ''Resume case '' @ case_id @ '' after a '' @ SourceKind_as_str (te_source e) @ '' '' @ TriggerKind_as_str (te_kind e) @
     '' event (external id '' @ te_external_id e @ ''). Continue the outstanding work for this case.''"

definition resume_submission_id :: "(string \<Rightarrow> string) \<Rightarrow> string \<Rightarrow> 'p TriggerEvent \<Rightarrow> string" where
  "resume_submission_id sha256_hex case_id e =
     SubmissionId_caller_supplied (''case-resume:'' @ case_id @ '':'' @ dedup_key sha256_hex e)"

definition plan_resume ::
  "('s, 'v, 'j) Governance \<Rightarrow> (string \<Rightarrow> string) \<Rightarrow> string \<Rightarrow> 'p TriggerEvent \<Rightarrow> bool \<Rightarrow> datetime \<Rightarrow> 's \<Rightarrow>
     's \<times> (ResumeSkip, ResumePlan) result" where
  "plan_resume governance sha256_hex case_id e opted_in now s =
     (if \<not> opted_in then (s, Inl NotOptedIn)
      else case case_get (gv_cases governance) case_id s of
        (s, Inl _) \<Rightarrow> (s, Inl UnknownCase)
      | (s, Inr None) \<Rightarrow> (s, Inl UnknownCase)
      | (s, Inr (Some (c, _))) \<Rightarrow>
          if is_terminal (wc_status c) then (s, Inl (Terminal (wc_status c)))
          else if wc_status c \<noteq> CaseStatus.Active then (s, Inl (NotRunnable (wc_status c)))
          else case active_run c of
            Some run \<Rightarrow> (s, Inl (RunAlreadyOpen (r_run_id run)))
          | None \<Rightarrow>
              (case wc_mandate_id c of
                 None \<Rightarrow> (s, Inl (NoLiveMandate ''case has no mandate''))
               | Some mandate_id \<Rightarrow>
                   (case mandate_get (gv_mandates governance) mandate_id s of
                      (s, Inr None) \<Rightarrow> (s, Inl (NoLiveMandate (''mandate '' @ mandate_id @ '' no longer exists'')))
                    | (s, Inl error) \<Rightarrow>
                        (s, Inl (NoLiveMandate (''mandate '' @ mandate_id @ '' could not be read: '' @ MandateStoreError_display error)))
                    | (s, Inr (Some (mandate, _))) \<Rightarrow>
                        if is_revoked mandate then (s, Inl (NoLiveMandate (''mandate '' @ mandate_id @ '' is revoked'')))
                        else if is_expired mandate now then (s, Inl (NoLiveMandate (''mandate '' @ mandate_id @ '' has expired'')))
                        else if permits mandate (MandateRequest_action ActionClass.Dispatch) now \<noteq> MandateDecision.Allowed
                        then (s, Inl (NoLiveMandate (''mandate '' @ mandate_id @ '' does not permit the dispatch action'')))
                        else (s, Inr \<lparr>rp_case_id = case_id,
                            rp_submission = SubmissionRequest_with_case (SubmissionRequest_new sha256_hex (m_grantor mandate)
                              (wc_project_id c) (resume_description case_id e) (Some (resume_submission_id sha256_hex case_id e))) case_id,
                            rp_reason = ''subscription opted into auto_resume and '' @ SourceKind_as_str (te_source e) @ '' '' @
                              TriggerKind_as_str (te_kind e) @ '' arrived''\<rparr>))))"

section \<open>Resuming under a live mandate\<close>

lemma case_get_cases:
  assumes rs: "record_store store contents ready valid" and "ns_store cases = store"
  obtains (down) e where "case_get cases i s = (s, Inl e)"
    | (absent) "case_get cases i s = (s, Inr None)"
    | (found) c v where "case_get cases i s = (s, Inr (Some (c, v)))" "document cases (contents s) i = Some (c, v)"
proof (rule record_store.view_get_cases[OF rs, OF assms(2), of i s], goal_cases)
  case (1 e)
  then show ?case using that(1) by (simp add: case_get_def)
next
  case 2
  then show ?case using that(2) by (simp add: case_get_def)
next
  case (3 r c)
  then show ?case using that(3) by (simp add: case_get_def document_def)
qed

lemma mandate_get_cases:
  assumes rs: "record_store store contents ready valid" and "ns_store mandates = store"
  obtains (down) e where "mandate_get mandates i s = (s, Inl e)"
    | (absent) "mandate_get mandates i s = (s, Inr None)"
    | (found) m v where "mandate_get mandates i s = (s, Inr (Some (m, v)))" "document mandates (contents s) i = Some (m, v)"
proof (rule record_store.view_get_cases[OF rs, OF assms(2), of i s], goal_cases)
  case (1 e)
  then show ?case using that(1) by (simp add: mandate_get_def)
next
  case 2
  then show ?case using that(2) by (simp add: mandate_get_def)
next
  case (3 r m)
  then show ?case using that(3) by (simp add: mandate_get_def document_def)
qed

text \<open>The gates that a resume passes.\<close>

definition resumable ::
  "('s, 'v, 'j) Governance \<Rightarrow> (string \<times> string \<Rightarrow> 'v Record option) \<Rightarrow> string \<Rightarrow> datetime \<Rightarrow> 'j WorkCase \<Rightarrow> Mandate \<Rightarrow> bool" where
  "resumable governance docs case_id now c mandate \<longleftrightarrow>
     (\<exists>v. document (gv_cases governance) docs case_id = Some (c, v)) \<and>
     wc_status c = CaseStatus.Active \<and> active_run c = None \<and>
     (\<exists>i v. wc_mandate_id c = Some i \<and> document (gv_mandates governance) docs i = Some (mandate, v)) \<and>
     \<not> is_revoked mandate \<and> \<not> is_expired mandate now \<and>
     permits mandate (MandateRequest_action ActionClass.Dispatch) now = MandateDecision.Allowed"

lemma plan_resume_pure:
  assumes rs: "record_store store contents ready valid"
    and over: "ns_store (gv_cases governance) = store" "ns_store (gv_mandates governance) = store"
  shows "fst (plan_resume governance sha case_id e opted_in now s) = s"
proof (cases opted_in)
  case True
  show ?thesis
  proof (cases rule: case_get_cases[OF rs over(1), of case_id s])
    case (3 c v)
    show ?thesis
    proof (cases "wc_mandate_id c")
      case (Some i)
      then show ?thesis
        by (cases rule: mandate_get_cases[OF rs over(2), of i s])
          (use 3 True in \<open>auto simp: plan_resume_def split: option.splits\<close>)
    qed (use 3 True in \<open>auto simp: plan_resume_def split: option.splits\<close>)
  qed (use True in \<open>auto simp: plan_resume_def\<close>)
qed (simp add: plan_resume_def)

lemma plan_resume_Inr:
  assumes rs: "record_store store contents ready valid"
    and over: "ns_store (gv_cases governance) = store" "ns_store (gv_mandates governance) = store"
    and run: "plan_resume governance sha case_id e opted_in now s = (s', Inr plan)"
  obtains c mandate where "opted_in" "resumable governance (contents s) case_id now c mandate"
    "rp_submission plan = SubmissionRequest_with_case (SubmissionRequest_new sha (m_grantor mandate)
       (wc_project_id c) (resume_description case_id e) (Some (resume_submission_id sha case_id e))) case_id"
    "rp_case_id plan = case_id"
proof -
  have opt: "opted_in" using run by (auto simp: plan_resume_def split: if_splits)
  show ?thesis
  proof (cases rule: case_get_cases[OF rs over(1), of case_id s])
    case (3 c v)
    then obtain i where i: "wc_mandate_id c = Some i" using run opt by (auto simp: plan_resume_def split: if_splits option.splits)
    show ?thesis
    proof (cases rule: mandate_get_cases[OF rs over(2), of i s])
      case (3 m w)
      then show ?thesis using that[of c m] run opt i \<open>case_get (gv_cases governance) case_id s = (s, Inr (Some (c, v)))\<close>
          \<open>document (gv_cases governance) (contents s) case_id = Some (c, v)\<close>
        by (auto simp: plan_resume_def resumable_def split: if_splits option.splits)
    qed (use run opt i 3 in \<open>auto simp: plan_resume_def split: if_splits option.splits\<close>)
  qed (use run opt in \<open>auto simp: plan_resume_def\<close>)
qed

text \<open>
  C30. An event starts a run only through all the gates: the subscription opted in, the stored case is active
  with no open run, and its stored mandate is neither revoked nor expired and permits dispatch; the submission
  is the one of the case and the event, for the mandate's grantor, and planning writes nothing.
\<close>

theorem plan_resume_gated:
  assumes rs: "record_store store contents ready valid"
    and over: "ns_store (gv_cases governance) = store" "ns_store (gv_mandates governance) = store"
    and run: "plan_resume governance sha case_id e opted_in now s = (s', Inr plan)"
  shows "s' = s \<and> opted_in \<and> (\<exists>c mandate. resumable governance (contents s) case_id now c mandate \<and>
    sq_submission_id (rp_submission plan) = resume_submission_id sha case_id e \<and>
    sq_principal (rp_submission plan) = m_grantor mandate \<and> sq_case_id (rp_submission plan) = Some case_id)"
proof (rule plan_resume_Inr[OF rs over run])
  fix c mandate
  assume p: opted_in "resumable governance (contents s) case_id now c mandate"
    "rp_submission plan = SubmissionRequest_with_case (SubmissionRequest_new sha (m_grantor mandate)
       (wc_project_id c) (resume_description case_id e) (Some (resume_submission_id sha case_id e))) case_id"
  have "s' = s" using plan_resume_pure[OF rs over, of sha case_id e opted_in now s] run by simp
  with p show ?thesis
    by (auto simp: SubmissionRequest_with_case_def SubmissionRequest_new_def resume_submission_id_def)
qed

section \<open>Waking a waiting case\<close>

lemma case_transition_undisturbed:
  assumes rs: "record_store store contents ready valid" and view: "ns_store cases = store" "serde_ok cases"
    and s: "valid s" "ready s" and doc: "document cases (contents s) i = Some (c, v)"
    and can: "can_transition_to (wc_status c) status"
  obtains s' r where "case_transition cases i status now s =
      (s', Inr (c\<lparr>wc_status := status, wc_updated_at := now, wc_version := v + 1\<rparr>))"
    "contents s' = (contents s)((ns_namespace cases, i) \<mapsto> r)"
    "document cases (contents s') i = Some (c\<lparr>wc_status := status, wc_updated_at := now, wc_version := v + 1\<rparr>, v + 1)"
proof -
  let ?new = "c\<lparr>wc_status := status, wc_updated_at := now, wc_version := v + 1\<rparr>"
  obtain r where r: "contents s (ns_namespace cases, i) = Some r" "ns_from_value cases (rec_value r) = Inr c" "rec_version r = v"
    using doc by (rule document_SomeE)
  obtain w where w: "ns_to_value cases ?new = Inr w" "ns_from_value cases w = Inr ?new"
    using view(2) by (rule serde_okE)
  have "case_update_step (transition status now) c (rec_version r) = cas_step.Write ?new (Inr (?new, ()))"
    using can r(3) by (simp add: case_update_step_def transition_def Let_def)
  from record_store.cas_loop_undisturbed[OF rs, OF view(1) s r(1,2), where step = "case_update_step (transition status now)",
      OF this w(1), of 16 "Inl (CaseStoreError.NotFound i)" "\<lambda>e. Inl (CaseStoreError.Store e)" "Inl (CaseStoreError.Contended i)"]
  obtain s' r' where "case_update cases i (transition status now) s = (s', Inr (?new, ()))"
    "contents s' = (contents s)((ns_namespace cases, i) \<mapsto> r')" "rec_value r' = w" "rec_version r' = rec_version r + 1"
    unfolding case_update_def by auto
  then show ?thesis using w(2) r(3) by (intro that[of s' r']) (simp_all add: case_transition_def document_def)
qed


text \<open>
  An event wakes exactly the cases that wait for one: a waiting case becomes active, an open item that
  said so is resolved as answered by the event, and every other open item stays; a case in any other
  status is left alone and nothing is written.
\<close>

lemma wake_case_effect:
  assumes plane: "attention_board store contents ready valid board"
    and cases: "ns_store cases = store" "serde_ok cases" "ns_namespace cases \<noteq> ns_namespace board"
    and s: "valid s" "ready s" "keyed_by board at_id (contents s)" "card (keys_of board (contents s)) \<le> 2000"
    and doc: "document cases (contents s) case_id = Some (c, v)"
  shows "if wc_status c = CaseStatus.WaitingEvent
    then \<exists>s' resolved. wake_case cases board case_id trigger_id now s =
        (s', Inr (Some \<lparr>ck_case_id = case_id, ck_resolved_attention = map_option at_id resolved\<rparr>)) \<and>
      document cases (contents s') case_id =
        Some (c\<lparr>wc_status := CaseStatus.Active, wc_updated_at := now, wc_version := v + 1\<rparr>, v + 1) \<and>
      (case resolved of
         None \<Rightarrow> documents board at_id (contents s') = documents board at_id (contents s)
       | Some item \<Rightarrow> item \<in> documents board at_id (contents s) \<and> is_open item \<and> at_case_id item = case_id \<and>
           at_kind item = AttentionKind.WaitingEvent \<and>
           documents board at_id (contents s') = insert (item_resolve (EventReceived trigger_id) now item)
             {b \<in> documents board at_id (contents s). at_id b \<noteq> at_id item})
    else wake_case cases board case_id trigger_id now s = (s, Inr None)"
proof (cases "wc_status c = CaseStatus.WaitingEvent")
  case waiting: True
  have rs: "record_store store contents ready valid" using attention_board.axioms(1)[OF plane] .
  have get: "case_get cases case_id s = (s, Inr (Some (c, v)))"
    using doc by (rule document_SomeE) (use record_store.view_get_found[OF rs, OF cases(1) s(2)] in \<open>auto simp: case_get_def\<close>)
  let ?new = "c\<lparr>wc_status := CaseStatus.Active, wc_updated_at := now, wc_version := v + 1\<rparr>"
  have wake: "\<exists>s'. case_transition cases case_id CaseStatus.Active now s1 = (s', Inr ?new) \<and>
      document cases (contents s') case_id = Some (?new, v + 1) \<and>
      documents board at_id (contents s') = documents board at_id (contents s1)"
    if "valid s1" "ready s1" "document cases (contents s1) case_id = Some (c, v)" for s1
  proof (rule case_transition_undisturbed[OF rs cases(1,2) that])
    show "can_transition_to (wc_status c) CaseStatus.Active" unfolding waiting by code_simp
    fix s' r
    assume w: "case_transition cases case_id CaseStatus.Active now s1 = (s', Inr ?new)"
      "contents s' = (contents s1)((ns_namespace cases, case_id) \<mapsto> r)" "document cases (contents s') case_id = Some (?new, v + 1)"
    moreover have "documents board at_id (contents s') = documents board at_id (contents s1)"
      using w(2) cases(3) by (simp add: documents_def document_other_key)
    ultimately show ?thesis by blast
  qed
  have live: "\<not> is_terminal CaseStatus.WaitingEvent" by code_simp
  note unfold = wake_case_def get waiting live Let_def
  show ?thesis
  proof (rule attention_board.open_for_case_open[OF plane, of s case_id])
    fix found
    assume found: "open_for_case board case_id s = (s, Inr found)"
      "\<And>item. found = Some item \<Longrightarrow> item \<in> documents board at_id (contents s) \<and> is_open item \<and> at_case_id item = case_id"
    show ?thesis
    proof (cases "\<exists>item. found = Some item \<and> at_kind item = AttentionKind.WaitingEvent")
      case False
      with found(1) have "open_waiting_item board case_id s = (s, Inr None)"
        by (cases found) (simp_all add: open_waiting_item_def)
      with wake[OF s(1,2) doc] show ?thesis by (auto simp: unfold intro!: exI[of _ None])
    next
      case True
      then obtain item where item: "found = Some item" "at_kind item = AttentionKind.WaitingEvent" by blast
      then have open_item: "item \<in> documents board at_id (contents s)" "is_open item" "at_case_id item = case_id"
        using found(2) by blast+
      show ?thesis
      proof (rule attention_board.resolve_open[OF plane, of s item "EventReceived trigger_id" now])
        fix s1
        assume r: "board_resolve board (at_id item) (EventReceived trigger_id) now s =
            (s1, Inr (item_resolve (EventReceived trigger_id) now item))"
          "valid s1 \<and> ready s1 \<and> keyed_by board at_id (contents s1)"
          "documents board at_id (contents s1) = insert (item_resolve (EventReceived trigger_id) now item)
             {b \<in> documents board at_id (contents s). at_id b \<noteq> at_id item}"
          "\<forall>ns k. ns \<noteq> ns_namespace board \<longrightarrow> contents s1 (ns, k) = contents s (ns, k)"
        have "document cases (contents s1) case_id = Some (c, v)" using doc r(4) cases(3) by (simp add: document_def)
        with wake[of s1] r(2) obtain s' where "case_transition cases case_id CaseStatus.Active now s1 = (s', Inr ?new)"
          "document cases (contents s') case_id = Some (?new, v + 1)"
          "documents board at_id (contents s') = documents board at_id (contents s1)" by blast
        with found(1) item r(1,3) open_item show ?thesis
          by (intro if_P[THEN iffD2, OF waiting] exI[of _ s'] exI[of _ "Some item"]) (simp add: unfold open_waiting_item_def)
      qed (use s open_item in auto)
    qed
  qed (use s in auto)
next
  case False
  have rs: "record_store store contents ready valid" using attention_board.axioms(1)[OF plane] .
  have "case_get cases case_id s = (s, Inr (Some (c, v)))"
    using doc by (rule document_SomeE) (use record_store.view_get_found[OF rs, OF cases(1) s(2)] in \<open>auto simp: case_get_def\<close>)
  with False show ?thesis by (simp add: wake_case_def)
qed

section \<open>One task per resume\<close>

lemma plan_resume_submission_id:
  assumes "record_store store contents ready valid"
    and "ns_store (gv_cases governance) = store" "ns_store (gv_mandates governance) = store"
    and "plan_resume governance sha case_id e opted_in now s = (s', Inr plan)"
  shows "sq_submission_id (rp_submission plan) = resume_submission_id sha case_id e"
  by (rule plan_resume_Inr[OF assms])
    (simp add: SubmissionRequest_with_case_def SubmissionRequest_new_def resume_submission_id_def)

text \<open>
  However often an event is delivered, a case resumes at most one task for it: once the submission of a
  resume is recorded, submitting the plan of any delivery with the same deduplication key, for the same case,
  creates nothing and changes nothing; the same request gets the recorded task back.
\<close>

lemma resume_single_task:
  assumes plane: "submit_plane store contents ready valid q subs"
    and s: "valid s" "ready s" "plane_ok subs q (contents s)"
    and recs: "record_store records docs up good"
      "ns_store (gv_cases governance) = records" "ns_store (gv_mandates governance) = records"
    and plans: "plan_resume governance sha case_id e opted_in t1 g1 = (g1', Inr plan)"
      "plan_resume governance sha case_id e' opted_in' t2 g2 = (g2', Inr plan')" "dedup_key sha e' = dedup_key sha e"
    and first: "submit_once sha render subs (rp_submission plan) q now s = (s', Inr outcome)"
      "SubmitOnceOutcome_record outcome = Some r"
  shows "\<exists>again. submit_once sha render subs (rp_submission plan') q later s' = (s', Inr again) \<and>
    (again = Replayed r \<or> rp_submission plan' \<noteq> rp_submission plan \<and>
      (\<exists>d d'. again = Conflicting (resume_submission_id sha case_id e) d d'))"
proof (rule submit_plane.submit_once_recorded[OF plane, OF s first])
  have same: "sq_submission_id (rp_submission plan') = sq_submission_id (rp_submission plan)"
    "sq_submission_id (rp_submission plan) = resume_submission_id sha case_id e"
  proof -
    note id = plan_resume_submission_id[OF recs]
    show "sq_submission_id (rp_submission plan) = resume_submission_id sha case_id e" using id[OF plans(1)] .
    then show "sq_submission_id (rp_submission plan') = sq_submission_id (rp_submission plan)"
      using id[OF plans(2)] plans(3) by (simp add: resume_submission_id_def)
  qed
  fix v
  assume r: "valid s'" "ready s'" "plane_ok subs q (contents s')"
    "sr_request_digest r = SubmissionRequest_digest sha (rp_submission plan)"
    "document subs (contents s') (sq_submission_id (rp_submission plan)) = Some (r, v)"
    "document q (contents s') (outbox_key (sq_submission_id (rp_submission plan))) \<noteq> None"
  from submit_plane.submit_once_again[OF plane, OF r(1-3), of "rp_submission plan'" r v sha render later] r(4-6) same
  show ?thesis by (auto split: if_splits)
qed

section \<open>A plane with a waiting case\<close>

text \<open>The documents of the three namespaces, as one type of values.\<close>

datatype plane_doc = CaseDoc "unit WorkCase" | MandateDoc Mandate | ItemDoc AttentionItem

definition doc_governance :: "(plane_doc InMemoryRecordStore, plane_doc, unit) Governance" where
  "doc_governance = \<lparr>
     gv_cases = CaseStore_new in_memory_store (\<lambda>d. case d of CaseDoc c \<Rightarrow> Inr c | _ \<Rightarrow> Inl ''not a case'') (\<lambda>c. Inr (CaseDoc c)),
     gv_mandates = MandateStore_new in_memory_store (\<lambda>d. case d of MandateDoc m \<Rightarrow> Inr m | _ \<Rightarrow> Inl ''not a mandate'') (\<lambda>m. Inr (MandateDoc m)),
     gv_attention = AttentionBoard_new in_memory_store (\<lambda>d. case d of ItemDoc i \<Rightarrow> Inr i | _ \<Rightarrow> Inl ''not an item'') (\<lambda>i. Inr (ItemDoc i))\<rparr>"

interpretation doc_board: attention_board in_memory_store mem_contents mem_ready mem_valid "gv_attention doc_governance"
  by unfold_locales (simp_all add: doc_governance_def AttentionBoard_new_def serde_ok_def)

definition dispatch_mandate :: Mandate where
  "dispatch_mandate = human_mandate ''m-1'' ''case-1'' (Principal_new PrincipalKind.User ''alice'')
     [Action ActionClass.Dispatch] 1 5"

definition active_case :: "unit WorkCase" where
  "active_case = (WorkCase_new ''case-1'' ''t'' ''d'' ''proj'' CaseOrigin_manual 5)\<lparr>wc_status := CaseStatus.Active, wc_version := 1\<rparr>"

definition runnable_case :: "unit WorkCase" where
  "runnable_case = active_case\<lparr>wc_mandate_id := Some ''m-1''\<rparr>"

definition runnable_plane :: "plane_doc InMemoryRecordStore" where
  "runnable_plane = fst (mem_put ''mandate'' ''m-1'' (MandateDoc dispatch_mandate) (Some 0)
     (fst (mem_put ''work_case'' ''case-1'' (CaseDoc runnable_case) (Some 0) (mem_new 7))))"


lemma runnable_plane_ok:
  "plan_resume doc_governance id ''case-1'' review_event True 9 runnable_plane =
     (runnable_plane, Inr \<lparr>rp_case_id = ''case-1'',
        rp_submission = SubmissionRequest_with_case (SubmissionRequest_new id (Principal_new PrincipalKind.User ''alice'')
          ''proj'' (resume_description ''case-1'' review_event) (Some (resume_submission_id id ''case-1'' review_event))) ''case-1'',
        rp_reason = ''subscription opted into auto_resume and github pull_request_review arrived''\<rparr>)"
  by code_simp


lemma doc_governance_stores:
  "ns_store (gv_cases doc_governance) = in_memory_store" "ns_store (gv_mandates doc_governance) = in_memory_store"
  "serde_ok (gv_cases doc_governance)" "ns_namespace (gv_cases doc_governance) = ''work_case''"
  "ns_namespace (gv_attention doc_governance) = ''attention''"
  by (simp_all add: doc_governance_def CaseStore_new_def MandateStore_new_def AttentionBoard_new_def serde_ok_def)

theorem plan_resume_gated_witness:
  "\<exists>c mandate. resumable doc_governance (mem_contents runnable_plane) ''case-1'' 9 c mandate \<and>
    m_grantor mandate = Principal_new PrincipalKind.User ''alice''"
  using plan_resume_gated[OF mem.record_store_axioms doc_governance_stores(1,2) runnable_plane_ok]
  by (fastforce simp: SubmissionRequest_with_case_def SubmissionRequest_new_def)

end
