(* ===== verification/Scheduler_Dependency.thy ===== *)
theory Scheduler_Dependency
  imports Agent_Types
begin

text \<open>
  Execution order of subtasks (\<open>crates/uc-engine/src/scheduler/dependency.rs\<close>): Kahn's algorithm on the
  dependencies that name a subtask of the same task. The loop is total: every round uses up an
  in-degree or empties the queue.
\<close>

section \<open>Resolution\<close>

text \<open>Collecting pairs into a \<open>HashMap\<close> keeps the last index of an id.\<close>

definition id_to_idx :: "Subtask list \<Rightarrow> TaskId \<rightharpoonup> nat" where
  "id_to_idx subtasks = map_of (rev (zip (map st_id subtasks) [0..<length subtasks]))"

text \<open>The two loops that fill \<open>adj\<close> and \<open>in_degree\<close>: over the dependencies of subtask \<open>i\<close>, and over the subtasks.\<close>

fun add_dependencies ::
  "(TaskId \<rightharpoonup> nat) \<Rightarrow> nat \<Rightarrow> TaskId list \<Rightarrow> nat list list \<times> nat list \<Rightarrow> nat list list \<times> nat list" where
  "add_dependencies idx i [] (adj, in_degree) = (adj, in_degree)"
| "add_dependencies idx i (dep # deps) (adj, in_degree) =
     add_dependencies idx i deps (case idx dep of
       Some d \<Rightarrow> (adj[d := adj ! d @ [i]], in_degree[i := in_degree ! i + 1])
     | None \<Rightarrow> (adj, in_degree))"

fun build_graph ::
  "(TaskId \<rightharpoonup> nat) \<Rightarrow> (nat \<times> Subtask) list \<Rightarrow> nat list list \<times> nat list \<Rightarrow> nat list list \<times> nat list" where
  "build_graph idx [] g = g"
| "build_graph idx ((i, st) # rest) g = build_graph idx rest (add_dependencies idx i (st_depends_on st) g)"

text \<open>
  The decrements of one layer. An index out of range, or a decrement below zero, would stop the
  program: that is \<open>None\<close>.
\<close>

fun release :: "nat list \<Rightarrow> nat list \<times> nat list \<Rightarrow> (nat list \<times> nat list) option" where
  "release [] (in_degree, next_queue) = Some (in_degree, next_queue)"
| "release (d # ds) (in_degree, next_queue) =
     (if length in_degree \<le> d \<or> in_degree ! d = 0 then None
      else let in_degree = in_degree[d := in_degree ! d - 1]
           in release ds (in_degree, if in_degree ! d = 0 then next_queue @ [d] else next_queue))"

fun release_layer :: "nat list list \<Rightarrow> nat list \<Rightarrow> nat list \<times> nat list \<Rightarrow> (nat list \<times> nat list) option" where
  "release_layer adj [] g = Some g"
| "release_layer adj (idx # queue) g =
     (if length adj \<le> idx then None
      else Option.bind (release (adj ! idx) g) (release_layer adj queue))"

lemma release_sum:
  "release ds (deg, nxt) = Some (deg', nxt') \<Longrightarrow> sum_list deg' + length ds = sum_list deg \<and> length nxt' \<le> length nxt + length ds"
proof (induction ds arbitrary: deg nxt)
  case (Cons d ds)
  then have d: "d < length deg" "0 < deg ! d" by (auto split: if_splits)
  then have "sum_list (deg[d := deg ! d - 1]) + 1 = sum_list deg"
    using elem_le_sum_list[of d deg] by (simp add: sum_list_update)
  with Cons d show ?case by (fastforce simp: Let_def split: if_splits)
qed simp

lemma release_layer_sum:
  "release_layer adj queue (deg, nxt) = Some (deg', nxt') \<Longrightarrow>
     sum_list deg' \<le> sum_list deg \<and> (sum_list deg' = sum_list deg \<longrightarrow> length nxt' \<le> length nxt)"
proof (induction queue arbitrary: deg nxt)
  case (Cons i queue)
  then obtain deg1 nxt1 where r: "release (adj ! i) (deg, nxt) = Some (deg1, nxt1)"
    "release_layer adj queue (deg1, nxt1) = Some (deg', nxt')"
    by (auto split: if_splits simp: bind_eq_Some_conv)
  from release_sum[OF r(1)] Cons.IH[OF r(2)] show ?case by auto
qed simp

function execution_layers ::
  "Subtask list \<Rightarrow> nat list list \<Rightarrow> nat list \<Rightarrow> nat list \<Rightarrow> nat \<Rightarrow> TaskId list list \<Rightarrow> (nat \<times> TaskId list list) option" where
  "execution_layers subtasks adj in_degree queue visited layers =
     (if queue = [] then Some (visited, layers)
      else case release_layer adj queue (in_degree, []) of
        None \<Rightarrow> None
      | Some (in_degree, next_queue) \<Rightarrow>
          execution_layers subtasks adj in_degree next_queue (visited + length queue)
            (layers @ [map (\<lambda>i. st_id (subtasks ! i)) queue]))"
  by pat_completeness auto

termination
  by (relation "measure (\<lambda>(_, adj, deg, queue, _, _). sum_list deg + (if queue = [] then 0 else 1))")
    (auto dest!: release_layer_sum)

declare execution_layers.simps [simp del]

definition resolve_execution_order :: "Subtask list \<Rightarrow> (EngineError, TaskId list list) result option" where
  "resolve_execution_order subtasks =
     (if subtasks = [] then Some (Inr [])
      else
        let n = length subtasks;
            (adj, in_degree) = build_graph (id_to_idx subtasks) (enumerate 0 subtasks) (replicate n [], replicate n 0);
            queue = filter (\<lambda>i. in_degree ! i = 0) [0..<n]
        in case execution_layers subtasks adj in_degree queue 0 [] of
             None \<Rightarrow> None
           | Some (visited, layers) \<Rightarrow>
               if visited \<noteq> n then Some (Inl (TaskError ''circular dependency detected in subtasks''))
               else Some (Inr layers))"

section \<open>The graph\<close>

text \<open>How many dependencies of subtask \<open>i\<close> name subtask \<open>j\<close>, and the relation this is.\<close>

definition dependency_count :: "Subtask list \<Rightarrow> nat \<Rightarrow> nat \<Rightarrow> nat" where
  "dependency_count subtasks j i = length (filter (\<lambda>d. id_to_idx subtasks d = Some j) (st_depends_on (subtasks ! i)))"

definition depends :: "Subtask list \<Rightarrow> (nat \<times> nat) set" where
  "depends subtasks = {(j, i). j < length subtasks \<and> i < length subtasks \<and> 0 < dependency_count subtasks j i}"

lemma id_to_idx_bound: "id_to_idx subtasks d = Some j \<Longrightarrow> j < length subtasks \<and> st_id (subtasks ! j) = d"
  unfolding id_to_idx_def by (drule map_of_SomeD) (auto simp: set_zip)

lemma add_dependencies_graph:
  assumes "\<And>d j. idx d = Some j \<Longrightarrow> j < n" "i < n" "length adj = n" "length deg = n"
    and "add_dependencies idx i deps (adj, deg) = (adj', deg')"
  shows "length adj' = n \<and> length deg' = n \<and>
    (\<forall>j < n. \<forall>k. count_list (adj' ! j) k = count_list (adj ! j) k +
       (if k = i then length (filter (\<lambda>d. idx d = Some j) deps) else 0)) \<and>
    (\<forall>k < n. deg' ! k = deg ! k + (if k = i then length (filter (\<lambda>d. idx d \<noteq> None) deps) else 0))"
  using assms(3-5)
proof (induction deps arbitrary: adj deg)
  case (Cons dep deps)
  show ?case
  proof (cases "idx dep")
    case None
    with Cons.IH[OF Cons.prems(1,2)] Cons.prems(3) show ?thesis by simp
  next
    case (Some d)
    with assms(1) have d: "d < n" by blast
    from Cons.IH[of "adj[d := adj ! d @ [i]]" "deg[i := deg ! i + 1]"] Cons.prems Some d assms(2) show ?thesis
      by (auto simp: nth_list_update)
  qed
qed simp

lemma build_graph_counts:
  assumes "\<And>d j. idx d = Some j \<Longrightarrow> j < n" "length adj = n" "length deg = n" "m + length sts \<le> n"
    and "build_graph idx (enumerate m sts) (adj, deg) = (adj', deg')"
  shows "length adj' = n \<and> length deg' = n \<and>
    (\<forall>j < n. \<forall>k. count_list (adj' ! j) k = count_list (adj ! j) k +
       (if m \<le> k \<and> k < m + length sts then length (filter (\<lambda>d. idx d = Some j) (st_depends_on (sts ! (k - m)))) else 0)) \<and>
    (\<forall>k < n. deg' ! k = deg ! k +
       (if m \<le> k \<and> k < m + length sts then length (filter (\<lambda>d. idx d \<noteq> None) (st_depends_on (sts ! (k - m)))) else 0))"
  using assms(2-5)
proof (induction sts arbitrary: m adj deg)
  case (Cons st sts)
  obtain adj1 deg1 where g: "add_dependencies idx m (st_depends_on st) (adj, deg) = (adj1, deg1)" by fastforce
  have "m < n" using Cons.prems(3) by simp
  note step = add_dependencies_graph[OF assms(1) this Cons.prems(1,2) g]
  have "build_graph idx (enumerate (Suc m) sts) (adj1, deg1) = (adj', deg')" using Cons.prems(4) g by simp
  from Cons.IH[OF _ _ _ this] step Cons.prems(3) have
    IH: "length adj' = n \<and> length deg' = n \<and>
    (\<forall>j < n. \<forall>k. count_list (adj' ! j) k = count_list (adj1 ! j) k +
       (if Suc m \<le> k \<and> k < Suc m + length sts then length (filter (\<lambda>d. idx d = Some j) (st_depends_on (sts ! (k - Suc m)))) else 0)) \<and>
    (\<forall>k < n. deg' ! k = deg1 ! k +
       (if Suc m \<le> k \<and> k < Suc m + length sts then length (filter (\<lambda>d. idx d \<noteq> None) (st_depends_on (sts ! (k - Suc m)))) else 0))"
    by auto
  have nth: "(st # sts) ! (k - m) = (if k = m then st else sts ! (k - Suc m))" if "m \<le> k" for k
    using that by (auto simp: nth_Cons' Suc_diff_Suc)
  from IH step show ?case by (auto simp: nth)
qed auto

lemma sum_fibres:
  fixes n :: nat
  assumes "\<And>x j. f x = Some j \<Longrightarrow> j < n"
  shows "(\<Sum>j<n. length (filter (\<lambda>x. f x = Some j) xs)) = length (filter (\<lambda>x. f x \<noteq> None) xs)"
proof (induction xs)
  case (Cons x xs)
  show ?case
  proof (cases "f x")
    case (Some j)
    with assms have "j < n" by blast
    then have "(\<Sum>k<n. if k = j then 1 else 0) = (1::nat)" by simp
    moreover have "(\<Sum>k<n. length (filter (\<lambda>y. f y = Some k) (x # xs))) =
        (\<Sum>k<n. length (filter (\<lambda>y. f y = Some k) xs) + (if k = j then 1 else 0))"
      using Some by (intro sum.cong) auto
    ultimately show ?thesis using Cons.IH Some by (simp add: sum.distrib)
  qed (use Cons.IH in simp)
qed simp

text \<open>What the two loops compute.\<close>

lemma build_graph_spec:
  assumes "build_graph (id_to_idx subtasks) (enumerate 0 subtasks) (replicate n [], replicate n 0) = (adj, deg)"
    and n: "n = length subtasks"
  shows "length adj = n \<and> length deg = n \<and>
    (\<forall>j < n. \<forall>i. count_list (adj ! j) i = (if i < n then dependency_count subtasks j i else 0)) \<and>
    (\<forall>i < n. deg ! i = (\<Sum>j<n. dependency_count subtasks j i))"
proof -
  have b: "\<And>d j. id_to_idx subtasks d = Some j \<Longrightarrow> j < n" using id_to_idx_bound n by blast
  have "(\<Sum>j<n. dependency_count subtasks j i) =
      length (filter (\<lambda>d. id_to_idx subtasks d \<noteq> None) (st_depends_on (subtasks ! i)))" for i
    unfolding dependency_count_def by (rule sum_fibres) (use b in blast)
  with build_graph_counts[OF b _ _ _ assms(1)] n show ?thesis by (simp add: dependency_count_def)
qed

section \<open>One layer\<close>

lemma Collect_insert_if:
  "(z \<Longrightarrow> P d) \<Longrightarrow> (P d \<Longrightarrow> \<not> z \<Longrightarrow> d \<in> A) \<Longrightarrow>
     (if z then insert d {e \<in> A. P e} else {e \<in> A. P e}) = {e \<in> insert d A. P e}"
  by auto

lemma release_spec:
  assumes "\<And>d. d \<in> set ds \<Longrightarrow> d < length deg \<and> count_list ds d \<le> deg ! d"
  shows "\<exists>deg' new. release ds (deg, nxt) = Some (deg', nxt @ new) \<and> length deg' = length deg \<and>
    (\<forall>i < length deg. deg' ! i = deg ! i - count_list ds i) \<and> distinct new \<and>
    set new = {d \<in> set ds. deg ! d = count_list ds d}"
  using assms
proof (induction ds arbitrary: deg nxt)
  case (Cons d ds)
  have d: "d < length deg" "count_list ds d + 1 \<le> deg ! d" using Cons.prems[of d] by simp_all
  let ?deg = "deg[d := deg ! d - 1]" and ?nxt = "if deg ! d - 1 = 0 then nxt @ [d] else nxt"
  have "e < length ?deg \<and> count_list ds e \<le> ?deg ! e" if "e \<in> set ds" for e
    using Cons.prems[of e] that d by (auto simp: nth_list_update split: if_splits)
  from Cons.IH[OF this, of ?nxt] obtain deg' new where IH:
    "release ds (?deg, ?nxt) = Some (deg', ?nxt @ new)" "length deg' = length deg"
    "\<forall>i < length deg. deg' ! i = ?deg ! i - count_list ds i" "distinct new"
    "set new = {e \<in> set ds. ?deg ! e = count_list ds e}" by auto
  have zero: "d \<notin> set ds \<and> count_list ds d = 0" if "deg ! d - 1 = 0"
    using d(2) that by (metis add_leD2 count_list_0_iff add_le_cancel_right add_0 diff_is_0_eq le_antisym le_zero_eq)
  show ?case
  proof (intro exI conjI)
    show "release (d # ds) (deg, nxt) = Some (deg', nxt @ (if deg ! d - 1 = 0 then d # new else new))"
      using d IH(1) by (auto simp: Let_def split: if_splits)
    show "length deg' = length deg" by (fact IH(2))
    show "\<forall>i < length deg. deg' ! i = deg ! i - count_list (d # ds) i"
      using IH(3) d by (auto simp: nth_list_update)
    show "distinct (if deg ! d - 1 = 0 then d # new else new)" using IH(4,5) zero by auto
    have new: "set new = {e \<in> set ds. deg ! e = count_list (d # ds) e}"
      unfolding IH(5) using d by (intro Collect_cong) (auto simp: nth_list_update)
    have "deg ! d = count_list (d # ds) d \<Longrightarrow> deg ! d - 1 \<noteq> 0 \<Longrightarrow> d \<in> set ds" by (simp add: count_list_0_iff)
    moreover have "deg ! d - 1 = 0 \<Longrightarrow> deg ! d = count_list (d # ds) d" using d(2) zero by simp
    ultimately show "set (if deg ! d - 1 = 0 then d # new else new) = {e \<in> set (d # ds). deg ! e = count_list (d # ds) e}"
      unfolding if_distrib[of set] list.set(2) new by (intro Collect_insert_if)
  qed
qed simp

lemma release_append:
  "release (xs @ ys) g = Option.bind (release xs g) (release ys)"
  by (induction xs g rule: release.induct) (auto simp: Let_def)

lemma release_layer_concat:
  "\<forall>i \<in> set queue. i < length adj \<Longrightarrow> release_layer adj queue g = release (concat (map ((!) adj) queue)) g"
proof (induction queue arbitrary: g)
  case Nil
  then show ?case by (cases g) simp
next
  case (Cons i queue)
  then have "release_layer adj queue = release (concat (map ((!) adj) queue))" by auto
  with Cons.prems show ?case by (simp add: release_append)
qed

lemma count_list_concat: "distinct queue \<Longrightarrow> count_list (concat (map f queue)) i = (\<Sum>j \<in> set queue. count_list (f j) i)"
  by (induction queue) (auto simp: count_list_append)

section \<open>All layers\<close>

text \<open>The subtasks that are not placed yet and all of whose dependencies are placed.\<close>

definition ready_set :: "nat \<Rightarrow> (nat \<Rightarrow> nat \<Rightarrow> nat) \<Rightarrow> nat set \<Rightarrow> nat set" where
  "ready_set n c D = {i. i < n \<and> i \<notin> D \<and> (\<forall>j < n. j \<notin> D \<longrightarrow> c j i = 0)}"

text \<open>Reference: each layer lists what is ready once the layers before it are placed.\<close>

fun layering :: "nat \<Rightarrow> (nat \<Rightarrow> nat \<Rightarrow> nat) \<Rightarrow> nat set \<Rightarrow> nat list list \<Rightarrow> bool" where
  "layering n c D [] \<longleftrightarrow> True"
| "layering n c D (l # L) \<longleftrightarrow> l \<noteq> [] \<and> distinct l \<and> set l = ready_set n c D \<and> layering n c (D \<union> set l) L"

definition graph_of :: "nat \<Rightarrow> (nat \<Rightarrow> nat \<Rightarrow> nat) \<Rightarrow> nat list list \<Rightarrow> bool" where
  "graph_of n c adj \<longleftrightarrow> length adj = n \<and> (\<forall>j < n. \<forall>i. count_list (adj ! j) i = (if i < n then c j i else 0))"

definition kahn_inv :: "nat \<Rightarrow> (nat \<Rightarrow> nat \<Rightarrow> nat) \<Rightarrow> nat set \<Rightarrow> nat list \<Rightarrow> nat list \<Rightarrow> bool" where
  "kahn_inv n c D deg queue \<longleftrightarrow> length deg = n \<and> distinct queue \<and> D \<subseteq> {..<n} \<and>
     (\<forall>i < n. deg ! i = (\<Sum>j \<in> {..<n} - D. c j i)) \<and> (\<forall>i \<in> D. deg ! i = 0) \<and> set queue = ready_set n c D"

lemma ready_set_iff: "i < n \<Longrightarrow> i \<in> ready_set n c D \<longleftrightarrow> i \<notin> D \<and> (\<Sum>j \<in> {..<n} - D. c j i) = 0"
  by (auto simp: ready_set_def)

lemma kahn_step:
  assumes g: "graph_of n c adj" and inv: "kahn_inv n c D deg queue"
  shows "\<exists>deg' nxt. release_layer adj queue (deg, []) = Some (deg', nxt) \<and> kahn_inv n c (D \<union> set queue) deg' nxt"
proof -
  let ?Q = "set queue" and ?ds = "concat (map ((!) adj) queue)"
  have Q: "?Q \<subseteq> {..<n} - D" and q0: "\<And>i. i \<in> ?Q \<Longrightarrow> deg ! i = 0" and len: "length deg = n"
    using inv by (auto simp: kahn_inv_def ready_set_def)
  have count: "count_list ?ds i = (if i < n then \<Sum>j \<in> ?Q. c j i else 0)" for i
    using inv g Q unfolding kahn_inv_def graph_of_def
    by (subst count_list_concat) (auto intro!: sum.cong sum.neutral)
  have split: "(\<Sum>j \<in> {..<n} - D. c j i) = (\<Sum>j \<in> {..<n} - (D \<union> ?Q). c j i) + (\<Sum>j \<in> ?Q. c j i)" for i
    using sum.subset_diff[OF Q, of "\<lambda>j. c j i"] by (simp add: Diff_Diff_Int Un_commute Diff_eq Int_ac Compl_Un)
  have le: "d < length deg \<and> count_list ?ds d \<le> deg ! d" if "d \<in> set ?ds" for d
  proof -
    have "count_list ?ds d \<noteq> 0" using that by (simp only: count_list_0_iff not_not)
    then have "d < n" using count by metis
    moreover from this have "count_list ?ds d \<le> deg ! d" using count split inv by (simp add: kahn_inv_def)
    ultimately show ?thesis using len by simp
  qed
  from release_spec[OF le, of "[]"] obtain deg' new where
    r: "release ?ds (deg, []) = Some (deg', new)" "length deg' = n"
      "\<forall>i < n. deg' ! i = deg ! i - count_list ?ds i" "distinct new" "set new = {d \<in> set ?ds. deg ! d = count_list ?ds d}"
    using len by auto
  have deg': "deg' ! i = (\<Sum>j \<in> {..<n} - (D \<union> ?Q). c j i)" if "i < n" for i
    using r(3) that inv count split by (simp add: kahn_inv_def)
  have "set new = ready_set n c (D \<union> ?Q)"
  proof (intro set_eqI iffI)
    fix i assume "i \<in> set new"
    then have i: "i \<in> set ?ds" "deg ! i = count_list ?ds i" using r(5) by auto
    then have "i < n" and pos: "count_list ?ds i \<noteq> 0"
      using le len by (simp, simp only: count_list_0_iff not_not)
    moreover from this i(2) have "deg' ! i = 0" "deg ! i \<noteq> 0" using r(3) by auto
    moreover from this(2) have "i \<notin> D \<union> ?Q" using q0 inv by (auto simp: kahn_inv_def)
    ultimately show "i \<in> ready_set n c (D \<union> ?Q)" using deg' by (simp add: ready_set_iff)
  next
    fix i assume i: "i \<in> ready_set n c (D \<union> ?Q)"
    then have j: "i < n" "i \<notin> D" "i \<notin> ready_set n c D" using inv by (auto simp: ready_set_def kahn_inv_def)
    then have "deg ! i = (\<Sum>j \<in> {..<n} - D. c j i)" using inv by (simp add: kahn_inv_def)
    moreover have "(\<Sum>j \<in> {..<n} - (D \<union> ?Q). c j i) = 0" using i ready_set_iff[OF j(1)] by blast
    ultimately have "deg ! i \<noteq> 0" "deg ! i = count_list ?ds i"
      using ready_set_iff[OF j(1), of c D] j split[of i] count[of i] by simp_all
    then show "i \<in> set new" using r(5) by (metis (mono_tags, lifting) count_list_0_iff mem_Collect_eq)
  qed
  moreover have "release_layer adj queue (deg, []) = Some (deg', new)"
    using r(1) Q g by (subst release_layer_concat) (auto simp: graph_of_def)
  moreover have "deg' ! i = 0" if "i \<in> D \<union> ?Q" for i
  proof -
    have "i < n" "deg ! i = 0" using that q0 inv Q by (auto simp: kahn_inv_def)
    with r(3) show ?thesis by simp
  qed
  ultimately show ?thesis using r(2,4) deg' inv Q by (intro exI[of _ deg'] exI[of _ new]) (auto simp: kahn_inv_def)
qed

lemma execution_layers_spec:
  assumes g: "graph_of n c adj" and "kahn_inv n c D deg queue"
  shows "\<exists>L. execution_layers subtasks adj deg queue v ls =
      Some (v + length (concat L), ls @ map (map (\<lambda>i. st_id (subtasks ! i))) L) \<and>
    layering n c D L \<and> ready_set n c (D \<union> set (concat L)) = {}"
  using assms
proof (induction subtasks adj deg queue v ls arbitrary: D rule: execution_layers.induct)
  case (1 subtasks adj deg queue v ls)
  show ?case
  proof (cases "queue = []")
    case True
    with "1.prems"(2) show ?thesis
      by (intro exI[of _ "[]"]) (simp add: execution_layers.simps[of _ _ _ "[]"] kahn_inv_def)
  next
    case False
    from kahn_step[OF "1.prems"] obtain deg' nxt where
      s: "release_layer adj queue (deg, []) = Some (deg', nxt)" "kahn_inv n c (D \<union> set queue) deg' nxt" by blast
    from "1.IH"[OF False s(1) refl "1.prems"(1) s(2)] obtain L where
      L: "execution_layers subtasks adj deg' nxt (v + length queue) (ls @ [map (\<lambda>i. st_id (subtasks ! i)) queue]) =
        Some (v + length queue + length (concat L),
          ls @ [map (\<lambda>i. st_id (subtasks ! i)) queue] @ map (map (\<lambda>i. st_id (subtasks ! i))) L)"
        "layering n c (D \<union> set queue) L" "ready_set n c (D \<union> set queue \<union> set (concat L)) = {}" by auto
    with False s(1) "1.prems"(2) show ?thesis
      by (intro exI[of _ "queue # L"])
        (simp add: execution_layers.simps[of _ _ _ queue] kahn_inv_def Un_assoc)
  qed
qed

lemma layering_distinct:
  "layering n c D L \<Longrightarrow> D \<subseteq> {..<n} \<Longrightarrow> distinct (concat L) \<and> set (concat L) \<subseteq> {..<n} - D"
proof (induction L arbitrary: D)
  case (Cons l L)
  then have l: "distinct l" "set l \<subseteq> {..<n} - D" by (auto simp: ready_set_def)
  with Cons.prems have "distinct (concat L) \<and> set (concat L) \<subseteq> {..<n} - (D \<union> set l)"
    by (intro Cons.IH) auto
  with l show ?case by auto
qed simp

lemma layering_before:
  "layering n c D L \<Longrightarrow> k < length L \<Longrightarrow> i \<in> set (L ! k) \<Longrightarrow> j < n \<Longrightarrow> 0 < c j i \<Longrightarrow>
     j \<in> D \<or> (\<exists>k' < k. j \<in> set (L ! k'))"
proof (induction L arbitrary: D k)
  case (Cons l L)
  show ?case
  proof (cases k)
    case 0
    with Cons.prems show ?thesis by (auto simp: ready_set_def)
  next
    case (Suc m)
    with Cons.IH[of "D \<union> set l" m] Cons.prems consider "j \<in> D" | "j \<in> set l" | k' where "k' < m" "j \<in> set (L ! k')" by auto
    then show ?thesis
    proof cases
      case 2
      with Suc show ?thesis by (intro disjI2 exI[of _ 0]) simp
    next
      case 3
      with Suc show ?thesis by (intro disjI2 exI[of _ "Suc k'"]) simp
    qed simp
  qed
qed simp

lemma layering_tight:
  "layering n c D L \<Longrightarrow> Suc k < length L \<Longrightarrow> i \<in> set (L ! Suc k) \<Longrightarrow> \<exists>j \<in> set (L ! k). j < n \<and> 0 < c j i"
proof (induction L arbitrary: D k)
  case (Cons l L)
  show ?case
  proof (cases k)
    case 0
    with Cons.prems obtain l' L' where L: "L = l' # L'" by (cases L) auto
    have l: "set l = ready_set n c D" using Cons.prems by simp
    with Cons.prems 0 L have "i \<in> ready_set n c (D \<union> set l)" by simp
    moreover from this have "i \<notin> set l" unfolding ready_set_def by blast
    then have "i \<notin> ready_set n c D" using l by simp
    ultimately obtain j where "j < n" "j \<notin> D" "0 < c j i" "j \<in> D \<union> set l" unfolding ready_set_def by blast
    with 0 show ?thesis by auto
  next
    case (Suc m)
    with Cons.IH[of "D \<union> set l" m] Cons.prems show ?thesis by auto
  qed
qed simp

text \<open>A set of subtasks each of which depends on another of the set holds a cycle.\<close>

lemma stuck_cycle:
  assumes "finite R" "S \<noteq> {}" "\<forall>i \<in> S. \<exists>j \<in> S. (j, i) \<in> R"
  shows "\<not> acyclic R"
proof
  assume "acyclic R"
  then have "wf R" using assms(1) by (simp add: finite_acyclic_wf)
  with assms(2,3) show False by (metis wf_eq_minimal ex_in_conv)
qed

lemma depends_finite: "finite (depends subtasks)"
  by (rule finite_subset[of _ "{..<length subtasks} \<times> {..<length subtasks}"]) (auto simp: depends_def)

lemma initial_inv:
  assumes "length deg = n" "\<forall>i < n. deg ! i = (\<Sum>j<n. c j i)"
  shows "kahn_inv n c {} deg (filter (\<lambda>i. deg ! i = 0) [0..<n])"
  using assms by (auto simp: kahn_inv_def ready_set_def)

lemma resolve_layers:
  fixes subtasks defines "n \<equiv> length subtasks" and "c \<equiv> dependency_count subtasks"
  obtains L where "layering n c {} L" "ready_set n c (set (concat L)) = {}"
    "resolve_execution_order subtasks = Some (if length (concat L) = n
       then Inr (map (map (\<lambda>i. st_id (subtasks ! i))) L)
       else Inl (TaskError ''circular dependency detected in subtasks''))"
proof (cases "subtasks = []")
  case True
  then show ?thesis using that[of "[]"] by (simp add: resolve_execution_order_def ready_set_def n_def)
next
  case False
  obtain adj deg where g: "build_graph (id_to_idx subtasks) (enumerate 0 subtasks) (replicate n [], replicate n 0) = (adj, deg)"
    by fastforce
  from build_graph_spec[OF this n_def[THEN meta_eq_to_obj_eq]] have spec: "graph_of n c adj" "length deg = n" "\<forall>i < n. deg ! i = (\<Sum>j<n. c j i)"
    by (simp_all add: graph_of_def c_def)
  from execution_layers_spec[OF spec(1) initial_inv[OF spec(2,3)], of subtasks 0 "[]"] obtain L where
    "execution_layers subtasks adj deg (filter (\<lambda>i. deg ! i = 0) [0..<n]) 0 [] =
       Some (length (concat L), map (map (\<lambda>i. st_id (subtasks ! i))) L)"
    "layering n c {} L" "ready_set n c (set (concat L)) = {}" by auto
  with False g that[of L] show ?thesis
    by (simp add: resolve_execution_order_def Let_def flip: n_def)
qed

lemma layers_complete:
  fixes subtasks defines "n \<equiv> length subtasks" and "c \<equiv> dependency_count subtasks"
  assumes L: "layering n c {} L" "ready_set n c (set (concat L)) = {}"
  shows "length (concat L) = n \<longleftrightarrow> acyclic (depends subtasks)"
proof -
  have sub: "distinct (concat L)" "set (concat L) \<subseteq> {..<n}" using layering_distinct[OF L(1)] by auto
  have eq: "length (concat L) = n \<longleftrightarrow> set (concat L) = {..<n}"
    using sub by (metis card_lessThan card_subset_eq distinct_card finite_lessThan)
  show ?thesis
  proof
    assume "length (concat L) = n"
    then have all: "set (concat L) = {..<n}" using eq by simp
    define r where "r i = (LEAST k. k < length L \<and> i \<in> set (L ! k))" for i
    have "r j < r i" if "(j, i) \<in> depends subtasks" for j i
    proof -
      have e: "j < n" "0 < c j i" "i \<in> set (concat L)" using that all by (auto simp: depends_def n_def c_def)
      then have "\<exists>k. k < length L \<and> i \<in> set (L ! k)" by (metis UN_E in_set_conv_nth set_concat)
      then have "r i < length L \<and> i \<in> set (L ! r i)" unfolding r_def by (rule LeastI_ex)
      with layering_before[OF L(1) _ _ e(1,2)] obtain k where "k < r i" "k < length L" "j \<in> set (L ! k)" by fastforce
      then have "r j \<le> k" unfolding r_def by (intro Least_le) simp
      with \<open>k < r i\<close> show ?thesis by simp
    qed
    then have "depends subtasks \<subseteq> measure r" by (auto simp: measure_def inv_image_def)
    then show "acyclic (depends subtasks)" by (metis wf_acyclic wf_measure wf_subset)
  next
    assume "acyclic (depends subtasks)"
    show "length (concat L) = n"
    proof (rule ccontr)
      assume "length (concat L) \<noteq> n"
      with eq sub(2) have ne: "{..<n} - set (concat L) \<noteq> {}" by auto
      have "\<forall>i \<in> {..<n} - set (concat L). \<exists>j \<in> {..<n} - set (concat L). (j, i) \<in> depends subtasks"
        using L(2) by (fastforce simp: ready_set_def depends_def n_def c_def)
      from stuck_cycle[OF depends_finite ne this] \<open>acyclic (depends subtasks)\<close> show False by simp
    qed
  qed
qed

section \<open>Correctness of the execution order\<close>

text \<open>
  C25. Resolution always returns, without an index or counter fault; it reports a circular dependency
  exactly when the known dependencies of the subtasks contain a cycle.
\<close>

theorem resolve_execution_order_cycle:
  "(\<exists>layers. resolve_execution_order subtasks = Some (Inr layers)) = acyclic (depends subtasks) \<and>
   (resolve_execution_order subtasks = Some (Inl (TaskError ''circular dependency detected in subtasks''))) =
     (\<not> acyclic (depends subtasks))"
proof -
  obtain L where "layering (length subtasks) (dependency_count subtasks) {} L"
    "ready_set (length subtasks) (dependency_count subtasks) (set (concat L)) = {}"
    and r: "resolve_execution_order subtasks = Some (if length (concat L) = length subtasks
       then Inr (map (map (\<lambda>i. st_id (subtasks ! i))) L)
       else Inl (TaskError ''circular dependency detected in subtasks''))" by (rule resolve_layers)
  from layers_complete[OF this(1,2)] show ?thesis unfolding r by simp
qed

lemma layering_nonempty: "layering n c D L \<Longrightarrow> [] \<notin> set L"
  by (induction L arbitrary: D) auto

lemma id_to_idx_nth:
  assumes "distinct (map st_id subtasks)" "i < length subtasks"
  shows "id_to_idx subtasks (st_id (subtasks ! i)) = Some i"
proof -
  let ?ps = "zip (map st_id subtasks) [0..<length subtasks]"
  have "distinct (map fst (rev ?ps))" using assms(1) by (simp add: rev_map[symmetric])
  moreover have "(st_id (subtasks ! i), i) \<in> set (rev ?ps)" using assms(2) by (force simp: set_zip)
  ultimately show ?thesis unfolding id_to_idx_def by (simp add: map_of_eq_Some_iff)
qed

lemma dependency_count_pos:
  assumes "distinct (map st_id subtasks)" "j < length subtasks"
  shows "0 < dependency_count subtasks j i \<longleftrightarrow> st_id (subtasks ! j) \<in> set (st_depends_on (subtasks ! i))"
proof -
  have "id_to_idx subtasks d = Some j \<longleftrightarrow> d = st_id (subtasks ! j)" for d
    using id_to_idx_nth[OF assms] id_to_idx_bound[of subtasks d j] by auto
  then show ?thesis by (auto simp: dependency_count_def filter_empty_conv)
qed

text \<open>A resolved task has a rank that its known dependencies decrease.\<close>

lemma resolved_rank:
  assumes distinct: "distinct (map st_id subtasks)" and res: "resolve_execution_order subtasks = Some (Inr layers)"
  shows "\<exists>rank :: TaskId \<Rightarrow> nat. \<forall>st \<in> set subtasks. \<forall>d \<in> set (st_depends_on st) \<inter> st_id ` set subtasks. rank d < rank (st_id st)"
proof -
  let ?n = "length subtasks" and ?id = "\<lambda>i. st_id (subtasks ! i)"
  obtain L where L: "layering ?n (dependency_count subtasks) {} L" and r: "resolve_execution_order subtasks = Some (if length (concat L) = ?n
       then Inr (map (map ?id) L) else Inl (TaskError ''circular dependency detected in subtasks''))"
    by (rule resolve_layers)
  from r res have len: "length (concat L) = ?n" by (auto split: if_splits)
  have d: "distinct (concat L)" "set (concat L) \<subseteq> {..<?n}" using layering_distinct[OF L] by auto
  with len have all: "set (concat L) = {..<?n}" by (metis card_lessThan card_subset_eq distinct_card finite_lessThan)
  define layer where "layer i = (LEAST k. k < length L \<and> i \<in> set (L ! k))" for i
  have in_layer: "layer i < length L \<and> i \<in> set (L ! layer i)" if "i < ?n" for i
  proof -
    have "\<exists>k. k < length L \<and> i \<in> set (L ! k)" using that all by (metis in_set_conv_nth lessThan_iff UN_E set_concat)
    then show ?thesis unfolding layer_def by (rule LeastI_ex)
  qed
  have less: "layer j < layer i" if i: "i < ?n" and j: "j < ?n" "?id j \<in> set (st_depends_on (subtasks ! i))" for i j
  proof -
    have "0 < dependency_count subtasks j i" using dependency_count_pos[OF distinct j(1)] j(2) i by simp
    then obtain k where k: "k < layer i" "j \<in> set (L ! k)" using layering_before[OF L] in_layer[OF i] j(1) by blast
    then have "k < length L \<and> j \<in> set (L ! k)" using in_layer[OF i] by simp
    then have "layer j \<le> k" unfolding layer_def by (rule Least_le)
    with k(1) show ?thesis by simp
  qed
  define index where "index x = (THE i. i < ?n \<and> ?id i = x)" for x
  have index: "index (?id i) = i" if "i < ?n" for i
    unfolding index_def using that distinct by (intro the_equality) (simp_all add: distinct_conv_nth, metis)
  have "layer (index x) < layer (index (st_id st))" if a: "st \<in> set subtasks" "x \<in> set (st_depends_on st) \<inter> st_id ` set subtasks" for st x
  proof -
    obtain i where i: "i < ?n" "st = subtasks ! i" using a(1) by (metis in_set_conv_nth)
    obtain j where j: "j < ?n" "x = ?id j" using a(2) by (auto simp: in_set_conv_nth)
    have "?id j \<in> set (st_depends_on (subtasks ! i))" using a(2) i(2) j(2) by simp
    from less[OF i(1) j(1) this] show ?thesis by (simp add: i(2) j(2) index i(1) j(1))
  qed
  then show ?thesis by (intro exI[of _ "layer \<circ> index"]) auto
qed

text \<open>
  C24. The layers of a resolved task hold every subtask once. A subtask's known dependencies lie in
  earlier layers, so the subtasks of a layer can run together, and a subtask outside the first layer
  depends on one of the layer right before it, so none waits longer than it has to.
\<close>

theorem resolve_execution_order_layers:
  assumes distinct: "distinct (map st_id subtasks)" and res: "resolve_execution_order subtasks = Some (Inr layers)"
  shows "distinct (concat layers) \<and> set (concat layers) = st_id ` set subtasks \<and> [] \<notin> set layers \<and>
    (\<forall>st k. st \<in> set subtasks \<and> k < length layers \<and> st_id st \<in> set (layers ! k) \<longrightarrow>
       (\<forall>d \<in> set (st_depends_on st) \<inter> st_id ` set subtasks. \<exists>k' < k. d \<in> set (layers ! k')) \<and>
       (0 < k \<longrightarrow> (\<exists>d \<in> set (st_depends_on st). d \<in> set (layers ! (k - 1)))))"
proof -
  let ?n = "length subtasks" and ?c = "dependency_count subtasks" and ?id = "\<lambda>i. st_id (subtasks ! i)"
  obtain L where L: "layering ?n ?c {} L" and r: "resolve_execution_order subtasks = Some (if length (concat L) = ?n
       then Inr (map (map ?id) L) else Inl (TaskError ''circular dependency detected in subtasks''))"
    by (rule resolve_layers)
  from r res have len: "length (concat L) = ?n" and layers: "layers = map (map ?id) L" by (auto split: if_splits)
  have d: "distinct (concat L)" "set (concat L) \<subseteq> {..<?n}" using layering_distinct[OF L] by auto
  with len have all: "set (concat L) = {..<?n}" by (metis card_lessThan card_subset_eq distinct_card finite_lessThan)
  have inj: "inj_on ?id {..<?n}" using distinct by (auto simp: inj_on_def distinct_conv_nth)
  have cc: "concat layers = map ?id (concat L)" by (simp add: layers map_concat)
  have "distinct (concat layers)" unfolding cc distinct_map using d(1) inj all by simp
  moreover have "set (concat layers) = st_id ` set subtasks"
    unfolding cc set_map all by (force simp: in_set_conv_nth image_iff)
  moreover have "[] \<notin> set layers" using layering_nonempty[OF L] by (auto simp: layers)
  moreover have "(\<forall>x \<in> set (st_depends_on st) \<inter> st_id ` set subtasks. \<exists>k' < k. x \<in> set (layers ! k')) \<and>
      (0 < k \<longrightarrow> (\<exists>x \<in> set (st_depends_on st). x \<in> set (layers ! (k - 1))))"
    if st: "st \<in> set subtasks" "k < length layers" "st_id st \<in> set (layers ! k)" for st k
  proof -
    have k: "k < length L" using st(2) by (simp add: layers)
    obtain i where i: "i \<in> set (L ! k)" "st_id st = ?id i" using st(3) k by (auto simp: layers)
    obtain m where m: "m < ?n" "st = subtasks ! m" using st(1) by (metis in_set_conv_nth)
    have "i < ?n" using i(1) k all by (metis UN_I lessThan_iff nth_mem set_concat)
    with m i inj have "i = m" by (simp add: inj_on_def)
    with m i have i: "i < ?n" "st = subtasks ! i" "i \<in> set (L ! k)" by simp_all
    have "\<exists>k' < k. ?id j \<in> set (layers ! k')" if "j < ?n" "?id j \<in> set (st_depends_on st)" for j
      using layering_before[OF L k i(3) that(1)] dependency_count_pos[OF distinct that(1), of i] that(2) i(2) k
      by (fastforce simp: layers)
    moreover have "\<exists>x \<in> set (st_depends_on st). x \<in> set (layers ! (k - 1))" if "0 < k"
      using layering_tight[OF L, of "k - 1" i] dependency_count_pos[OF distinct, of _ i] that i k
      by (fastforce simp: layers)
    ultimately show ?thesis by (fastforce simp: in_set_conv_nth)
  qed
  ultimately show ?thesis by blast
qed

definition plain_subtask :: "TaskId \<Rightarrow> TaskId list \<Rightarrow> Subtask" where
  "plain_subtask i deps = \<lparr>st_id = i, st_parent_id = ''t'', st_description = [], st_status = SubtaskStatus.Pending,
     st_assigned_worker = None, st_depends_on = deps, st_file_constraints = [], st_expected_output = [],
     st_result = None, st_dispatch_mode = PreferRemote, st_effect_class = RequiresWorker, st_dispatch_retry_count = 0,
     st_required_capabilities = [], st_agent_config_json = None, st_steps = [], st_retry_count = 0\<rparr>"

definition diamond :: "Subtask list" where
  "diamond = [plain_subtask ''d'' [''b'', ''c''], plain_subtask ''b'' [''a''], plain_subtask ''c'' [''a'', ''elsewhere''], plain_subtask ''a'' []]"

theorem resolve_execution_order_layers_witness:
  "resolve_execution_order diamond = Some (Inr [[''a''], [''b'', ''c''], [''d'']]) \<and>
   set (concat [[''a''], [''b'', ''c''], [''d'']]) = st_id ` set diamond"
proof -
  have r: "resolve_execution_order diamond = Some (Inr [[''a''], [''b'', ''c''], [''d'']])" by code_simp
  moreover have "distinct (map st_id diamond)" by (simp add: diamond_def plain_subtask_def)
  ultimately show ?thesis using resolve_execution_order_layers[of diamond] by blast
qed

end
