(* ===== verification/Placement.thy ===== *)
theory Placement
  imports Agent_Types Complex_Main
begin

text \<open>
  Affinity placement (\<open>crates/uc-grpc/src/placement.rs\<close>): which worker a node is offered to first. The JSON
  lookup of a worker's host name is an argument of the definitions that use it.
\<close>

section \<open>Paths\<close>

definition PER_WORKER_SUBJECT_PREFIX :: string where
  "PER_WORKER_SUBJECT_PREFIX = ''uc.subtask.execute.w.''"

definition MAX_RECENT_FILES :: nat where "MAX_RECENT_FILES = 64"

definition MIN_AFFINITY_HITS :: nat where "MIN_AFFINITY_HITS = 1"

datatype PlacementPolicy = Affinity | Capacity

definition PlacementPolicy_from_str :: "string \<Rightarrow> (EngineError, PlacementPolicy) result" where
  "PlacementPolicy_from_str s =
     (if s = ''affinity'' then Inr Affinity
      else if s = ''capacity'' then Inr Capacity
      else Inl (ConfigError ''UC_PLACEMENT_POLICY must be affinity or capacity''))"

definition per_worker_subject :: "string \<Rightarrow> string" where
  "per_worker_subject worker_id = PER_WORKER_SUBJECT_PREFIX @ worker_id"

fun strip_dot_slash :: "string \<Rightarrow> string" where
  "strip_dot_slash (CHR ''.'' # CHR ''/'' # rest) = strip_dot_slash rest"
| "strip_dot_slash s = s"

definition normalize_path :: "string \<Rightarrow> string" where
  "normalize_path path = strip_dot_slash (map (\<lambda>c. if c = CHR 0x5C then CHR ''/'' else c) (trim path))"

fun recent_files_loop :: "string list \<Rightarrow> string list \<Rightarrow> string list" where
  "recent_files_loop out [] = out"
| "recent_files_loop out (entry # raw) =
     (if MAX_RECENT_FILES \<le> length out then out
      else let norm = normalize_path entry
           in if norm = [] \<or> norm \<in> set out then recent_files_loop out raw
              else recent_files_loop (out @ [norm]) raw)"

definition normalize_recent_files :: "string list \<Rightarrow> string list" where
  "normalize_recent_files raw = recent_files_loop [] raw"

fun matched_constraints :: "string list \<Rightarrow> string list \<Rightarrow> string list \<Rightarrow> string list" where
  "matched_constraints recent_files matched [] = matched"
| "matched_constraints recent_files matched (constraint # rest) =
     (let norm = normalize_path constraint
      in if norm = [] \<or> norm \<in> set matched then matched_constraints recent_files matched rest
         else if norm \<in> set recent_files then matched_constraints recent_files (matched @ [norm]) rest
         else matched_constraints recent_files matched rest)"

definition affinity_hits :: "string list \<Rightarrow> string list \<Rightarrow> nat" where
  "affinity_hits file_constraints recent_files =
     (if file_constraints = [] \<or> recent_files = [] then 0
      else length (matched_constraints recent_files [] file_constraints))"

text \<open>
  \<open>hostname\<close> stands for the JSON lookup: the text of the key \<open>hostname\<close> of a metadata document, if the
  document parses and has that key with a string value.
\<close>

definition host_from_metadata :: "(string \<Rightarrow> string option) \<Rightarrow> string \<Rightarrow> string option" where
  "host_from_metadata hostname metadata =
     (if metadata = [] then None
      else case hostname metadata of
        None \<Rightarrow> None
      | Some h \<Rightarrow> if trim h = [] then None else Some (trim h))"

section \<open>Candidates and the choice\<close>

record PlacementCandidate =
  pc_worker_id :: string
  pc_metadata :: string
  pc_recent_files :: "string list"
  pc_current_load :: u32
  pc_max_capacity :: u32

definition load_percent :: "PlacementCandidate \<Rightarrow> u32" where
  "load_percent c =
     (if pc_max_capacity c = 0 then 100
      else ucast (min ((ucast (pc_current_load c) * 100) div ucast (pc_max_capacity c)) (ucast (- 1 :: u32)) :: u64))"

record Placement =
  pl_worker_id :: string
  pl_subject :: string
  pl_affinity_hits :: nat
  pl_load_percent :: u32
  pl_same_host :: bool

datatype Ordering = Less | Equal | Greater

definition cmp :: "'a::linorder \<Rightarrow> 'a \<Rightarrow> Ordering" where
  "cmp a b = (if a < b then Less else if a = b then Equal else Greater)"

fun then_with :: "Ordering \<Rightarrow> Ordering \<Rightarrow> Ordering" where
  "then_with Equal other = other"
| "then_with Less other = Less"
| "then_with Greater other = Greater"

text \<open>\<open>Iterator::min_by\<close>: the first of the minimal elements.\<close>

fun min_by_loop :: "('a \<Rightarrow> 'a \<Rightarrow> Ordering) \<Rightarrow> 'a \<Rightarrow> 'a list \<Rightarrow> 'a" where
  "min_by_loop compare x [] = x"
| "min_by_loop compare x (y # ys) = min_by_loop compare (if compare x y = Greater then y else x) ys"

definition min_by :: "('a \<Rightarrow> 'a \<Rightarrow> Ordering) \<Rightarrow> 'a list \<Rightarrow> 'a option" where
  "min_by compare xs = (case xs of [] \<Rightarrow> None | x # xs \<Rightarrow> Some (min_by_loop compare x xs))"

definition eligible :: "PlacementPolicy \<Rightarrow> string list \<Rightarrow> PlacementCandidate \<Rightarrow> bool" where
  "eligible policy file_constraints c \<longleftrightarrow>
     \<not> (policy = Affinity \<and> affinity_hits file_constraints (pc_recent_files c) < MIN_AFFINITY_HITS \<or>
        policy = Capacity \<and> (pc_max_capacity c = 0 \<or> pc_max_capacity c \<le> pc_current_load c))"

definition placement_of ::
  "(string \<Rightarrow> string option) \<Rightarrow> string list \<Rightarrow> string set \<Rightarrow> PlacementCandidate \<Rightarrow> Placement" where
  "placement_of hostname file_constraints sibling_hosts c =
     \<lparr>pl_worker_id = pc_worker_id c, pl_subject = per_worker_subject (pc_worker_id c),
      pl_affinity_hits = affinity_hits file_constraints (pc_recent_files c), pl_load_percent = load_percent c,
      pl_same_host = (case host_from_metadata hostname (pc_metadata c) of None \<Rightarrow> False | Some h \<Rightarrow> h \<in> sibling_hosts)\<rparr>"

definition compare_candidates ::
  "PlacementPolicy \<Rightarrow> PlacementCandidate \<times> Placement \<Rightarrow> PlacementCandidate \<times> Placement \<Rightarrow> Ordering" where
  "compare_candidates policy x y = (case (x, y) of ((ca, a), (cb, b)) \<Rightarrow>
     (if policy = Capacity
      then then_with (cmp (ucast (pc_current_load ca) * ucast (pc_max_capacity cb) :: u64)
                          (ucast (pc_current_load cb) * ucast (pc_max_capacity ca)))
          (then_with (cmp (pl_affinity_hits b) (pl_affinity_hits a))
          (then_with (cmp (pl_same_host b) (pl_same_host a)) (cmp (pl_worker_id a) (pl_worker_id b))))
      else then_with (cmp (pl_affinity_hits b) (pl_affinity_hits a))
          (then_with (cmp (pl_load_percent a) (pl_load_percent b))
          (then_with (cmp (pl_same_host b) (pl_same_host a)) (cmp (pl_worker_id a) (pl_worker_id b))))))"

definition place_with_policy ::
  "(string \<Rightarrow> string option) \<Rightarrow> PlacementCandidate list \<Rightarrow> string list \<Rightarrow> string set \<Rightarrow> PlacementPolicy \<Rightarrow> Placement option" where
  "place_with_policy hostname candidates file_constraints sibling_hosts policy =
     map_option snd (min_by (compare_candidates policy)
       (map (\<lambda>c. (c, placement_of hostname file_constraints sibling_hosts c)) (filter (eligible policy file_constraints) candidates)))"

definition place ::
  "(string \<Rightarrow> string option) \<Rightarrow> PlacementCandidate list \<Rightarrow> string list \<Rightarrow> string set \<Rightarrow> Placement option" where
  "place hostname candidates file_constraints sibling_hosts =
     place_with_policy hostname candidates file_constraints sibling_hosts Affinity"

section \<open>Comparisons\<close>

lemma cmp_pair: "cmp (a, c) (b, d) = then_with (cmp a b) (cmp c d)"
  by (auto simp: cmp_def)

lemma cmp_nat_rev: "cmp (- rat_of_nat a) (- rat_of_nat b) = cmp b a"
  by (auto simp: cmp_def)

lemma cmp_bool_rev: "cmp (\<not> a) (\<not> b) = cmp b a"
  by (auto simp: cmp_def)

lemma cmp_unat: "cmp (rat_of_nat (unat a)) (rat_of_nat (unat b)) = cmp a b" for a b :: "'a::len word"
  by (auto simp: cmp_def word_less_nat_alt word_unat_eq_iff simp del: of_nat_unat)

lemma cmp_Greater_iff: "cmp a b = Greater \<longleftrightarrow> b < a"
  by (auto simp: cmp_def)

text \<open>The products of two \<open>u32\<close> values fit in a \<open>u64\<close>.\<close>

lemma unat_product_fits: "unat (ucast a * ucast b :: u64) = unat a * unat b" for a b :: u32
proof -
  have "unat a < 2 ^ 32" "unat b < 2 ^ 32" using unsigned_less[of a] unsigned_less[of b] by simp_all
  then have "unat a * unat b < 2 ^ 32 * 2 ^ 32" by (intro mult_strict_mono') simp_all
  then show ?thesis by (simp add: unat_word_ariths unat_ucast_up)
qed

lemma cmp_fractions:
  fixes a b c d :: u32
  assumes "0 < b" "0 < d"
  shows "cmp (ucast a * ucast d :: u64) (ucast c * ucast b) =
    cmp (rat_of_nat (unat a) / rat_of_nat (unat b)) (rat_of_nat (unat c) / rat_of_nat (unat d))"
proof -
  have pos: "0 < rat_of_nat (unat b)" "0 < rat_of_nat (unat d)" using assms by (simp_all add: word_less_nat_alt del: of_nat_unat)
  have "rat_of_nat (unat a) / rat_of_nat (unat b) < rat_of_nat (unat c) / rat_of_nat (unat d) \<longleftrightarrow>
      unat a * unat d < unat c * unat b"
    using pos by (simp add: divide_less_eq less_divide_eq mult.commute del: of_nat_unat flip: of_nat_mult)
  moreover have "rat_of_nat (unat a) / rat_of_nat (unat b) = rat_of_nat (unat c) / rat_of_nat (unat d) \<longleftrightarrow>
      unat a * unat d = unat c * unat b"
    using pos by (simp add: frac_eq_eq del: of_nat_unat flip: of_nat_mult)
  ultimately show ?thesis by (simp add: cmp_def word_less_nat_alt word_unat_eq_iff unat_product_fits del: of_nat_unat)
qed

section \<open>The best candidate\<close>

text \<open>The precedence of the two policies as one key, compared lexicographically: smaller is better.\<close>

definition rank :: "PlacementPolicy \<Rightarrow> PlacementCandidate \<times> Placement \<Rightarrow> rat \<times> rat \<times> bool \<times> string" where
  "rank policy x = (case x of (c, p) \<Rightarrow>
     (case policy of
        Capacity \<Rightarrow> (rat_of_nat (unat (pc_current_load c)) / rat_of_nat (unat (pc_max_capacity c)),
          - rat_of_nat (pl_affinity_hits p), \<not> pl_same_host p, pl_worker_id p)
      | Affinity \<Rightarrow> (- rat_of_nat (pl_affinity_hits p), rat_of_nat (unat (pl_load_percent p)),
          \<not> pl_same_host p, pl_worker_id p)))"

lemma compare_candidates_rank:
  assumes "policy = Capacity \<Longrightarrow> 0 < pc_max_capacity (fst x) \<and> 0 < pc_max_capacity (fst y)"
  shows "compare_candidates policy x y = cmp (rank policy x) (rank policy y)"
proof -
  obtain ca a cb b where xy: "x = (ca, a)" "y = (cb, b)" by (cases x, cases y)
  with assms show ?thesis
    by (cases policy) (simp_all add: compare_candidates_def rank_def cmp_pair cmp_nat_rev cmp_bool_rev cmp_unat
        cmp_fractions[symmetric] del: of_nat_unat)
qed

lemma min_by_loop_least:
  assumes "\<And>y z. y \<in> set (x # xs) \<Longrightarrow> z \<in> set (x # xs) \<Longrightarrow> compare y z = cmp (f y) (f z)"
  shows "min_by_loop compare x xs \<in> set (x # xs) \<and> (\<forall>y \<in> set (x # xs). f (min_by_loop compare x xs) \<le> f y)"
  using assms
proof (induction xs arbitrary: x)
  case (Cons y xs)
  let ?z = "if compare x y = Greater then y else x"
  have "f ?z \<le> f x" "f ?z \<le> f y" using Cons.prems[of x y] by (auto simp: cmp_Greater_iff)
  moreover have "min_by_loop compare ?z xs \<in> set (?z # xs) \<and> (\<forall>y \<in> set (?z # xs). f (min_by_loop compare ?z xs) \<le> f y)"
    using Cons.prems by (intro Cons.IH) (auto split: if_splits)
  ultimately show ?case by (auto split: if_splits)
qed simp

lemma place_least:
  fixes hostname fc hosts policy
  defines "pair \<equiv> \<lambda>c. (c, placement_of hostname fc hosts c)"
  shows "case place_with_policy hostname cs fc hosts policy of
      None \<Rightarrow> \<forall>c \<in> set cs. \<not> eligible policy fc c
    | Some p \<Rightarrow> \<exists>c \<in> set cs. eligible policy fc c \<and> p = placement_of hostname fc hosts c \<and>
        (\<forall>d \<in> set cs. eligible policy fc d \<longrightarrow> rank policy (pair c) \<le> rank policy (pair d))"
proof (cases "filter (eligible policy fc) cs")
  case Nil
  then show ?thesis by (simp add: place_with_policy_def min_by_def filter_empty_conv)
next
  case (Cons c ds)
  let ?xs = "map pair ds" and ?best = "min_by_loop (compare_candidates policy) (pair c) (map pair ds)"
  have elig: "y \<in> set (pair c # ?xs) \<longleftrightarrow> (\<exists>d \<in> set cs. eligible policy fc d \<and> y = pair d)" for y
    using arg_cong[OF Cons, of set] by auto
  have "compare_candidates policy y z = cmp (rank policy y) (rank policy z)"
    if "y \<in> set (pair c # ?xs)" "z \<in> set (pair c # ?xs)" for y z
    using that elig by (intro compare_candidates_rank)
      (auto simp: eligible_def pair_def word_neq_0_conv)
  then have best: "?best \<in> set (pair c # ?xs)" "\<forall>y \<in> set (pair c # ?xs). rank policy ?best \<le> rank policy y"
    using min_by_loop_least[of "pair c" ?xs "compare_candidates policy" "rank policy"] by simp_all
  from best(1) obtain d where d: "d \<in> set cs" "eligible policy fc d" "?best = pair d" using elig by blast
  have "rank policy (pair d) \<le> rank policy (pair e)" if "e \<in> set cs" "eligible policy fc e" for e
    using best(2) elig that d(3) by metis
  moreover note d
  moreover have "place_with_policy hostname cs fc hosts policy = Some (snd ?best)"
    by (simp add: place_with_policy_def Cons min_by_def pair_def)
  ultimately show ?thesis by (auto simp: pair_def)
qed

text \<open>
  C36. Placement picks a best eligible candidate: by file affinity, then load, host and worker id, or in
  capacity mode by the exact fraction of used capacity first; it gives none only when no candidate is
  eligible.
\<close>

theorem place_with_policy_best:
  "case place_with_policy hostname cs fc hosts policy of
      None \<Rightarrow> \<not> (\<exists>c. c \<in> set cs \<and> eligible policy fc c)
    | Some p \<Rightarrow> \<exists>c. c \<in> set cs \<and> eligible policy fc c \<and> p = placement_of hostname fc hosts c \<and>
        is_arg_min (\<lambda>d. rank policy (d, placement_of hostname fc hosts d)) (\<lambda>d. d \<in> set cs \<and> eligible policy fc d) c"
  using place_least[where hostname = hostname and cs = cs and fc = fc and hosts = hosts and policy = policy]
  by (force simp: is_arg_min_linorder split: option.splits)

text \<open>
  The choice does not depend on the order in which the candidates are listed, which is that of a hash
  map: candidates with distinct worker ids give the same placement in any order.
\<close>

lemma place_order_independent:
  assumes "mset cs = mset cs'" "distinct (map pc_worker_id cs)"
  shows "place_with_policy hostname cs fc hosts policy = place_with_policy hostname cs' fc hosts policy"
proof -
  have s: "set cs' = set cs" using assms(1) by (metis set_mset_mset)
  have inj: "c = d" if "c \<in> set cs" "d \<in> set cs"
    "rank policy (c, placement_of hostname fc hosts c) = rank policy (d, placement_of hostname fc hosts d)" for c d
  proof -
    from that(3) have "pc_worker_id c = pc_worker_id d"
      by (cases policy) (simp_all add: rank_def placement_of_def)
    with that(1,2) assms(2) show ?thesis by (simp add: distinct_map inj_on_def)
  qed
  show ?thesis
    using place_least[where hostname = hostname and cs = cs and fc = fc and hosts = hosts and policy = policy] place_least[where hostname = hostname and cs = cs' and fc = fc and hosts = hosts and policy = policy]
    unfolding s by (auto split: option.splits) (metis inj antisym)
qed

section \<open>Affinity and load\<close>

fun keep_first :: "'a list \<Rightarrow> 'a list" where
  "keep_first [] = []"
| "keep_first (x # xs) = x # filter (\<lambda>y. y \<noteq> x) (keep_first xs)"

lemma recent_files_loop_spec:
  "length out \<le> MAX_RECENT_FILES \<Longrightarrow>
     recent_files_loop out raw = take MAX_RECENT_FILES
       (out @ filter (\<lambda>f. f \<notin> set out) (keep_first (filter (\<lambda>f. f \<noteq> []) (map normalize_path raw))))"
proof (induction raw arbitrary: out)
  case (Cons entry raw)
  let ?norm = "normalize_path entry" and ?rest = "keep_first (filter (\<lambda>f. f \<noteq> []) (map normalize_path raw))"
  consider "MAX_RECENT_FILES = length out" | "length out < MAX_RECENT_FILES" "?norm = [] \<or> ?norm \<in> set out"
    | "length out < MAX_RECENT_FILES" "?norm \<noteq> []" "?norm \<notin> set out" using Cons.prems by linarith
  then show ?case
  proof cases
    case 2
    have "filter (\<lambda>f. f \<noteq> ?norm \<and> f \<notin> set out) ?rest = filter (\<lambda>f. f \<notin> set out) ?rest" if "?norm \<in> set out"
      using that by (intro filter_cong) auto
    with 2 Cons show ?thesis by (auto simp: Let_def)
  next
    case 3
    have "filter (\<lambda>f. f \<notin> set (out @ [?norm])) ?rest = filter (\<lambda>f. f \<noteq> ?norm \<and> f \<notin> set out) ?rest"
      by (intro filter_cong) auto
    with 3 Cons show ?thesis by (simp add: Let_def take_Cons' Suc_diff_Suc)
  qed simp
qed simp

text \<open>
  A worker's advertised files are bounded and cleaned: what is kept is the first sixty-four distinct
  non-blank normalized paths, in the order they were first reported.
\<close>

lemma normalize_recent_files_bounded:
  "normalize_recent_files raw =
     take 64 (keep_first (filter (\<lambda>f. f \<noteq> []) (map normalize_path raw))) \<and>
   length (normalize_recent_files raw) \<le> 64 \<and> distinct (normalize_recent_files raw) \<and> [] \<notin> set (normalize_recent_files raw)"
proof -
  let ?kept = "keep_first (filter (\<lambda>f. f \<noteq> []) (map normalize_path raw))"
  have eq: "normalize_recent_files raw = take 64 ?kept"
    by (simp add: normalize_recent_files_def recent_files_loop_spec MAX_RECENT_FILES_def)
  have "distinct (keep_first xs) \<and> set (keep_first xs) = set xs" for xs :: "string list" by (induction xs) auto
  then have "distinct ?kept" "[] \<notin> set ?kept" by auto
  then show ?thesis unfolding eq by (auto dest: in_set_takeD)
qed

lemma matched_constraints_card:
  "distinct matched \<Longrightarrow> set matched \<subseteq> set recent_files \<Longrightarrow>
     distinct (matched_constraints recent_files matched fc) \<and>
     set (matched_constraints recent_files matched fc) =
       set matched \<union> ((normalize_path ` set fc - {[]}) \<inter> set recent_files)"
  by (induction fc arbitrary: matched) (auto simp: Let_def)

text \<open>
  The affinity of a worker for a node is the number of distinct normalized constraints, blanks left
  out, that the worker has recently touched; repeated spellings do not inflate it.
\<close>

lemma affinity_hits_distinct:
  "affinity_hits fc recent_files = card ((normalize_path ` set fc - {[]}) \<inter> set recent_files)"
  using matched_constraints_card[of "[]" recent_files fc]
  by (auto simp: affinity_hits_def simp flip: distinct_card)

text \<open>
  The load of a worker is the exact percentage rounded down, capped at the largest \<open>u32\<close>; the
  multiplication never wraps, and a worker without capacity counts as fully loaded.
\<close>

lemma load_percent_exact:
  "unat (load_percent c) =
     (if pc_max_capacity c = 0 then 100
      else min (100 * unat (pc_current_load c) div unat (pc_max_capacity c)) (2 ^ 32 - 1))"
proof (cases "pc_max_capacity c = 0")
  case False
  let ?m = "ucast (- 1 :: u32) :: u64" and ?q = "(ucast (pc_current_load c) * 100) div ucast (pc_max_capacity c) :: u64"
  have l: "unat (pc_current_load c) < 2 ^ 32" using unsigned_less[of "pc_current_load c"] by simp
  have u: "unat (ucast x :: u64) = unat x" for x :: u32
    by (rule unat_ucast_up)
  have "unat (ucast (pc_current_load c) * 100 :: u64) = unat (pc_current_load c) * 100"
    using l by (simp add: unat_word_ariths u)
  then have q: "unat ?q = unat (pc_current_load c) * 100 div unat (pc_max_capacity c)" by (simp add: unat_div_distrib u)
  have m: "unat ?m = 2 ^ 32 - 1" unfolding u by (simp add: unat_minus_one_eq)
  have "unat (min ?q ?m) = min (unat ?q) (unat ?m)" by (simp add: min_def word_le_nat_alt)
  then have "unat (min ?q ?m) < 2 ^ 32" using m by simp
  then have "unat (ucast (min ?q ?m) :: u32) = unat (min ?q ?m)"
    by (simp add: unsigned_ucast_eq take_bit_nat_eq_self)
  with False q m \<open>unat (min ?q ?m) = min (unat ?q) (unat ?m)\<close> show ?thesis
    by (simp add: load_percent_def mult.commute)
qed (simp add: load_percent_def)

end
