(* ===== verification/Task_Backend.thy ===== *)
theory Task_Backend
  imports Agent_Types
begin

text \<open>
  The backends that keep tasks across restarts (\<open>crates/uc-engine/src/task_store.rs\<close>): the in-memory one and the
  PostgreSQL one with its fallback. The locale \<open>task_backend\<close> is what the gateway relies on, an upsert that stores
  and a complete listing; both backends provide it. The locale \<open>subtask_json\<close> is the JSON conversion of the subtasks.
\<close>

section \<open>The in-memory backend\<close>

type_synonym InMemoryTaskBackend = "(string \<times> Task) list"

definition backend_new :: InMemoryTaskBackend where
  "backend_new = []"

definition mem_submit_task :: "Task \<Rightarrow> InMemoryTaskBackend \<Rightarrow> InMemoryTaskBackend \<times> (EngineError, Task) result" where
  "mem_submit_task task s = (AList.update (t_id task) task s, Inr task)"

definition mem_get_task :: "string \<Rightarrow> InMemoryTaskBackend \<Rightarrow> (EngineError, Task option) result" where
  "mem_get_task task_id s = Inr (map_of s task_id)"

definition mem_list_tasks :: "InMemoryTaskBackend \<Rightarrow> (EngineError, Task list) result" where
  "mem_list_tasks s = Inr (map snd s)"

definition mem_update_task :: "Task \<Rightarrow> InMemoryTaskBackend \<Rightarrow> InMemoryTaskBackend \<times> (EngineError, Task) result" where
  "mem_update_task task s = (AList.update (t_id task) task s, Inr task)"

fun TaskStatus_debug :: "TaskStatus \<Rightarrow> string" where
  "TaskStatus_debug TaskStatus.Created = ''Created''"
| "TaskStatus_debug Planning = ''Planning''"
| "TaskStatus_debug TaskStatus.InProgress = ''InProgress''"
| "TaskStatus_debug TaskStatus.Completed = ''Completed''"
| "TaskStatus_debug TaskStatus.Failed = ''Failed''"
| "TaskStatus_debug Paused = ''Paused''"

definition task_not_found :: "string \<Rightarrow> EngineError" where
  "task_not_found task_id = EngineError.NotFound (''Task not found: '' @ task_id)"

definition mem_pause_task ::
  "datetime \<Rightarrow> string \<Rightarrow> InMemoryTaskBackend \<Rightarrow> InMemoryTaskBackend \<times> (EngineError, Task) result" where
  "mem_pause_task now task_id s = (case map_of s task_id of
     None \<Rightarrow> (s, Inl (task_not_found task_id))
   | Some task \<Rightarrow>
       if t_status task \<in> {TaskStatus.InProgress, Planning}
       then let task = task\<lparr>t_status := Paused, t_updated_at := now\<rparr> in (AList.update task_id task s, Inr task)
       else (s, Inl (InvalidOperation (''Cannot pause task in '' @ TaskStatus_debug (t_status task) @ '' status''))))"

definition mem_resume_task ::
  "datetime \<Rightarrow> string \<Rightarrow> InMemoryTaskBackend \<Rightarrow> InMemoryTaskBackend \<times> (EngineError, Task) result" where
  "mem_resume_task now task_id s = (case map_of s task_id of
     None \<Rightarrow> (s, Inl (task_not_found task_id))
   | Some task \<Rightarrow>
       if t_status task = Paused
       then let task = task\<lparr>t_status := TaskStatus.InProgress, t_updated_at := now\<rparr> in (AList.update task_id task s, Inr task)
       else (s, Inl (InvalidOperation (''Cannot resume task in '' @ TaskStatus_debug (t_status task) @ '' status''))))"

definition mem_delete_task :: "string \<Rightarrow> InMemoryTaskBackend \<Rightarrow> InMemoryTaskBackend \<times> (EngineError, unit) result" where
  "mem_delete_task task_id s = (case map_of s task_id of
     None \<Rightarrow> (s, Inl (task_not_found task_id))
   | Some _ \<Rightarrow> (AList.delete task_id s, Inr ()))"

section \<open>The PostgreSQL backend\<close>

text \<open>
  A row of the table \<open>tasks\<close>; its subtasks are a JSON value. A \<open>TIMESTAMPTZ\<close> column keeps microseconds.
  A query fails when the database is at fault, and its clock is \<open>NOW()\<close>.
\<close>

record 'j TaskRow =
  tr_description :: string
  tr_project_id :: string
  tr_status :: string
  tr_subtasks :: 'j
  tr_created_at :: datetime
  tr_updated_at :: datetime

record 'j PostgresTaskBackend =
  tp_pool :: bool
  tp_rows :: "(string \<times> 'j TaskRow) list"
  tp_fault :: "string option"
  tp_clock :: datetime
  tp_fallback :: InMemoryTaskBackend

definition timestamptz :: "datetime \<Rightarrow> datetime" where
  "timestamptz t = timestamp_micros t * 1000"

fun task_status_str :: "TaskStatus \<Rightarrow> string" where
  "task_status_str TaskStatus.Created = ''Created''"
| "task_status_str Planning = ''Planning''"
| "task_status_str TaskStatus.InProgress = ''InProgress''"
| "task_status_str Paused = ''Paused''"
| "task_status_str TaskStatus.Completed = ''Completed''"
| "task_status_str TaskStatus.Failed = ''Failed''"

definition row_to_task :: "('j \<Rightarrow> (string, Subtask list) result) \<Rightarrow> string \<Rightarrow> 'j TaskRow \<Rightarrow> (EngineError, Task) result" where
  "row_to_task from_value task_id row =
     (let parsed =
        (if tr_status row = ''Created'' then Some TaskStatus.Created
         else if tr_status row = ''Planning'' then Some Planning
         else if tr_status row = ''InProgress'' then Some TaskStatus.InProgress
         else if tr_status row = ''Paused'' then Some Paused
         else if tr_status row = ''Completed'' then Some TaskStatus.Completed
         else if tr_status row = ''Failed'' then Some TaskStatus.Failed
         else None)
      in case parsed of
        None \<Rightarrow> Inl (StorageError (''Unknown task status: '' @ tr_status row))
      | Some status \<Rightarrow>
          (case from_value (tr_subtasks row) of
             Inl e \<Rightarrow> Inl (StorageError (''Subtask deserialization: '' @ e))
           | Inr subtasks \<Rightarrow> Inr \<lparr>t_id = task_id, t_description = tr_description row, t_project_id = tr_project_id row,
               t_status = status, t_subtasks = subtasks, t_created_at = tr_created_at row, t_updated_at = tr_updated_at row\<rparr>))"

definition pg_submit_task ::
  "(Subtask list \<Rightarrow> (string, 'j) result) \<Rightarrow> Task \<Rightarrow> 'j PostgresTaskBackend \<Rightarrow> 'j PostgresTaskBackend \<times> (EngineError, Task) result" where
  "pg_submit_task to_value task s =
     (if \<not> tp_pool s then (case mem_submit_task task (tp_fallback s) of (f, r) \<Rightarrow> (s\<lparr>tp_fallback := f\<rparr>, r))
      else case to_value (t_subtasks task) of
        Inl e \<Rightarrow> (s, Inl (StorageError (''Subtask serialization: '' @ e)))
      | Inr json \<Rightarrow>
          (case tp_fault s of
             Some error \<Rightarrow> (s, Inl (StorageError (''Task insert failed: '' @ error)))
           | None \<Rightarrow>
               if map_of (tp_rows s) (t_id task) \<noteq> None
               then (s, Inl (StorageError ''Task insert failed: duplicate key value violates unique constraint''))
               else (s\<lparr>tp_rows := AList.update (t_id task)
                   \<lparr>tr_description = t_description task, tr_project_id = t_project_id task, tr_status = task_status_str (t_status task),
                    tr_subtasks = json, tr_created_at = timestamptz (t_created_at task), tr_updated_at = timestamptz (t_updated_at task)\<rparr>
                   (tp_rows s)\<rparr>, Inr task)))"

definition pg_get_task ::
  "('j \<Rightarrow> (string, Subtask list) result) \<Rightarrow> string \<Rightarrow> 'j PostgresTaskBackend \<Rightarrow> (EngineError, Task option) result" where
  "pg_get_task from_value task_id s =
     (if \<not> tp_pool s then mem_get_task task_id (tp_fallback s)
      else case tp_fault s of
        Some error \<Rightarrow> Inl (StorageError (''Task select failed: '' @ error))
      | None \<Rightarrow>
          (case map_of (tp_rows s) task_id of
             None \<Rightarrow> Inr None
           | Some row \<Rightarrow> map_sum id Some (row_to_task from_value task_id row)))"

fun collect_results :: "('e, 'a) result list \<Rightarrow> ('e, 'a list) result" where
  "collect_results [] = Inr []"
| "collect_results (Inl e # rs) = Inl e"
| "collect_results (Inr a # rs) = map_sum id (Cons a) (collect_results rs)"

definition pg_list_tasks ::
  "('j \<Rightarrow> (string, Subtask list) result) \<Rightarrow> 'j PostgresTaskBackend \<Rightarrow> (EngineError, Task list) result" where
  "pg_list_tasks from_value s =
     (if \<not> tp_pool s then mem_list_tasks (tp_fallback s)
      else case tp_fault s of
        Some error \<Rightarrow> Inl (StorageError (''Task list failed: '' @ error))
      | None \<Rightarrow> collect_results (map (\<lambda>(i, row). row_to_task from_value i row)
          (sort_key (\<lambda>(i, row). - tr_created_at row) (tp_rows s))))"

definition pg_update_task ::
  "(Subtask list \<Rightarrow> (string, 'j) result) \<Rightarrow> Task \<Rightarrow> 'j PostgresTaskBackend \<Rightarrow> 'j PostgresTaskBackend \<times> (EngineError, Task) result" where
  "pg_update_task to_value task s =
     (if \<not> tp_pool s then (case mem_update_task task (tp_fallback s) of (f, r) \<Rightarrow> (s\<lparr>tp_fallback := f\<rparr>, r))
      else case to_value (t_subtasks task) of
        Inl e \<Rightarrow> (s, Inl (StorageError (''Subtask serialization: '' @ e)))
      | Inr json \<Rightarrow>
          (case tp_fault s of
             Some error \<Rightarrow> (s, Inl (StorageError (''Task upsert failed: '' @ error)))
           | None \<Rightarrow>
               let created = (case map_of (tp_rows s) (t_id task) of
                     None \<Rightarrow> timestamptz (t_created_at task) | Some row \<Rightarrow> tr_created_at row)
               in (s\<lparr>tp_rows := AList.update (t_id task)
                   \<lparr>tr_description = t_description task, tr_project_id = t_project_id task, tr_status = task_status_str (t_status task),
                    tr_subtasks = json, tr_created_at = created, tr_updated_at = timestamptz (t_updated_at task)\<rparr>
                   (tp_rows s)\<rparr>, Inr task)))"

text \<open>The \<open>UPDATE\<close> of the status of one row where its status is one of \<open>from\<close>, and the row read back.\<close>

definition pg_move ::
  "('j \<Rightarrow> (string, Subtask list) result) \<Rightarrow> string \<Rightarrow> string list \<Rightarrow> string \<Rightarrow> string \<Rightarrow> EngineError \<Rightarrow>
     'j PostgresTaskBackend \<Rightarrow> 'j PostgresTaskBackend \<times> (EngineError, Task) result" where
  "pg_move from_value status from task_id failed refused s = (case tp_fault s of
     Some error \<Rightarrow> (s, Inl (StorageError (failed @ error)))
   | None \<Rightarrow>
       (case map_of (tp_rows s) task_id of
          Some row \<Rightarrow>
            if tr_status row \<in> set from
            then let s = s\<lparr>tp_rows := AList.update task_id (row\<lparr>tr_status := status, tr_updated_at := tp_clock s\<rparr>) (tp_rows s)\<rparr>
              in (s, map_sum id the (pg_get_task from_value task_id s))
            else (s, Inl refused)
        | None \<Rightarrow> (s, Inl refused)))"

definition pg_pause_task ::
  "('j \<Rightarrow> (string, Subtask list) result) \<Rightarrow> datetime \<Rightarrow> string \<Rightarrow> 'j PostgresTaskBackend \<Rightarrow>
     'j PostgresTaskBackend \<times> (EngineError, Task) result" where
  "pg_pause_task from_value now task_id s =
     (if \<not> tp_pool s then (case mem_pause_task now task_id (tp_fallback s) of (f, r) \<Rightarrow> (s\<lparr>tp_fallback := f\<rparr>, r))
      else pg_move from_value ''Paused'' [''InProgress'', ''Planning''] task_id ''Task pause failed: ''
        (InvalidOperation (''Cannot pause task '' @ task_id @ '' (not found or wrong status)'')) s)"

definition pg_resume_task ::
  "('j \<Rightarrow> (string, Subtask list) result) \<Rightarrow> datetime \<Rightarrow> string \<Rightarrow> 'j PostgresTaskBackend \<Rightarrow>
     'j PostgresTaskBackend \<times> (EngineError, Task) result" where
  "pg_resume_task from_value now task_id s =
     (if \<not> tp_pool s then (case mem_resume_task now task_id (tp_fallback s) of (f, r) \<Rightarrow> (s\<lparr>tp_fallback := f\<rparr>, r))
      else pg_move from_value ''InProgress'' [''Paused''] task_id ''Task resume failed: ''
        (InvalidOperation (''Cannot resume task '' @ task_id @ '' (not found or not paused)'')) s)"

definition pg_delete_task :: "string \<Rightarrow> 'j PostgresTaskBackend \<Rightarrow> 'j PostgresTaskBackend \<times> (EngineError, unit) result" where
  "pg_delete_task task_id s =
     (if \<not> tp_pool s then (case mem_delete_task task_id (tp_fallback s) of (f, r) \<Rightarrow> (s\<lparr>tp_fallback := f\<rparr>, r))
      else case tp_fault s of
        Some error \<Rightarrow> (s, Inl (StorageError (''Task delete failed: '' @ error)))
      | None \<Rightarrow> (s\<lparr>tp_rows := AList.delete task_id (tp_rows s)\<rparr>, Inr ()))"

section \<open>What a backend promises\<close>

text \<open>Two tasks that differ at most in their timestamps: a backend may round them or keep the first creation time.\<close>

definition same_task :: "Task \<Rightarrow> Task \<Rightarrow> bool" where
  "same_task a b \<longleftrightarrow> a\<lparr>t_created_at := 0, t_updated_at := 0\<rparr> = b\<lparr>t_created_at := 0, t_updated_at := 0\<rparr>"

lemma same_taskD:
  assumes "same_task a b"
  shows "t_id a = t_id b" "t_description a = t_description b" "t_project_id a = t_project_id b"
    "t_status a = t_status b" "t_subtasks a = t_subtasks b"
  using assms by (cases a; cases b; simp add: same_task_def)+

lemma same_task_refl [simp]: "same_task a a"
  by (simp add: same_task_def)

locale task_backend =
  fixes upsert :: "Task \<Rightarrow> 's \<Rightarrow> 's \<times> (EngineError, Task) result"
    and listing :: "'s \<Rightarrow> (EngineError, Task list) result"
    and stored :: "'s \<Rightarrow> string \<Rightarrow> Task option"
    and up :: "'s \<Rightarrow> bool"
  assumes upsert_ok: "up s \<Longrightarrow> \<exists>s' t'. upsert t s = (s', Inr t) \<and> up s' \<and> same_task t' t \<and>
      stored s' = (stored s)(t_id t \<mapsto> t')"
    and listing_ok: "up s \<Longrightarrow> \<exists>ts. listing s = Inr ts \<and> distinct (map t_id ts) \<and>
      (\<forall>i t. stored s i = Some t \<longleftrightarrow> t \<in> set ts \<and> t_id t = i)"

definition task_keyed :: "(string \<times> Task) list \<Rightarrow> bool" where
  "task_keyed al \<longleftrightarrow> distinct (map fst al) \<and> (\<forall>k t. map_of al k = Some t \<longrightarrow> t_id t = k)"

lemma task_keyed_listing:
  assumes "task_keyed al"
  shows "distinct (map t_id (map snd al))" "map_of al i = Some t \<longleftrightarrow> t \<in> set (map snd al) \<and> t_id t = i"
proof -
  have in_al: "(k, t) \<in> set al \<Longrightarrow> t_id t = k" for k t using assms by (simp add: task_keyed_def)
  then have "map t_id (map snd al) = map fst al" by (auto simp: map_eq_conv)
  with assms show "distinct (map t_id (map snd al))" unfolding task_keyed_def by (simp only:)
  show "map_of al i = Some t \<longleftrightarrow> t \<in> set (map snd al) \<and> t_id t = i"
    using assms in_al by (force simp: task_keyed_def)
qed

lemma task_keyed_update: "task_keyed al \<Longrightarrow> t_id t = k \<Longrightarrow> task_keyed (AList.update k t al)"
  by (simp add: task_keyed_def distinct_update update_conv')

interpretation mem_tasks: task_backend mem_update_task mem_list_tasks map_of task_keyed
proof unfold_locales
  fix s t
  assume "task_keyed s"
  then show "\<exists>s' t'. mem_update_task t s = (s', Inr t) \<and> task_keyed s' \<and> same_task t' t \<and> map_of s' = (map_of s)(t_id t \<mapsto> t')"
    by (intro exI[of _ "AList.update (t_id t) t s"] exI[of _ t]) (simp add: mem_update_task_def update_conv' task_keyed_update)
next
  fix s
  assume "task_keyed s"
  then show "\<exists>ts. mem_list_tasks s = Inr ts \<and> distinct (map t_id ts) \<and> (\<forall>i t. map_of s i = Some t \<longleftrightarrow> t \<in> set ts \<and> t_id t = i)"
    unfolding mem_list_tasks_def using task_keyed_listing by blast
qed

section \<open>The PostgreSQL backend keeps the promise\<close>

lemma row_to_task_of_task:
  assumes "from_value json = Inr (t_subtasks task)"
  shows "\<exists>t'. row_to_task from_value (t_id task) \<lparr>tr_description = t_description task, tr_project_id = t_project_id task,
      tr_status = task_status_str (t_status task), tr_subtasks = json, tr_created_at = c, tr_updated_at = u\<rparr> = Inr t' \<and>
      same_task t' task"
  using assms by (cases "t_status task"; cases task; simp add: row_to_task_def same_task_def)

lemma row_to_task_id: "row_to_task from_value i row = Inr t \<Longrightarrow> t_id t = i"
  by (auto simp: row_to_task_def Let_def split: option.splits sum.splits if_splits)

lemma collect_results_Inr: "\<forall>r \<in> set rs. \<exists>a. r = Inr a \<Longrightarrow> collect_results rs = Inr (map projr rs)"
  by (induction rs rule: collect_results.induct) auto

definition pg_stored :: "('j \<Rightarrow> (string, Subtask list) result) \<Rightarrow> 'j PostgresTaskBackend \<Rightarrow> string \<Rightarrow> Task option" where
  "pg_stored from_value s i =
     (if \<not> tp_pool s then map_of (tp_fallback s) i
      else case map_of (tp_rows s) i of
        None \<Rightarrow> None
      | Some row \<Rightarrow> (case row_to_task from_value i row of Inl _ \<Rightarrow> None | Inr t \<Rightarrow> Some t))"

definition pg_up :: "('j \<Rightarrow> (string, Subtask list) result) \<Rightarrow> 'j PostgresTaskBackend \<Rightarrow> bool" where
  "pg_up from_value s \<longleftrightarrow>
     (if \<not> tp_pool s then task_keyed (tp_fallback s)
      else tp_fault s = None \<and> distinct (map fst (tp_rows s)) \<and>
        (\<forall>i row. map_of (tp_rows s) i = Some row \<longrightarrow> is_ok (row_to_task from_value i row)))"

text \<open>What the backend relies on of the JSON conversion of the subtasks.\<close>

locale subtask_json =
  fixes to_value :: "Subtask list \<Rightarrow> (string, 'j) result"
    and from_value :: "'j \<Rightarrow> (string, Subtask list) result"
  assumes json_ok: "\<exists>json. to_value subtasks = Inr json \<and> from_value json = Inr subtasks"
begin

lemma pg_update_stores:
  assumes "pg_up from_value s"
  shows "\<exists>s' t'. pg_update_task to_value t s = (s', Inr t) \<and> pg_up from_value s' \<and> same_task t' t \<and>
      pg_stored from_value s' = (pg_stored from_value s)(t_id t \<mapsto> t')"
proof (cases "tp_pool s")
  case True
  obtain json where json: "to_value (t_subtasks t) = Inr json" "from_value json = Inr (t_subtasks t)" using json_ok by blast
  let ?created = "case map_of (tp_rows s) (t_id t) of None \<Rightarrow> timestamptz (t_created_at t) | Some row \<Rightarrow> tr_created_at row"
  obtain t' where t': "row_to_task from_value (t_id t) \<lparr>tr_description = t_description t, tr_project_id = t_project_id t,
      tr_status = task_status_str (t_status t), tr_subtasks = json, tr_created_at = ?created,
      tr_updated_at = timestamptz (t_updated_at t)\<rparr> = Inr t'" "same_task t' t"
    using row_to_task_of_task[where from_value = from_value and task = t, OF json(2)] by blast
  with True assms json show ?thesis
    by (intro exI[of _ "fst (pg_update_task to_value t s)"] exI[of _ t'])
      (simp add: pg_update_task_def Let_def pg_up_def pg_stored_def distinct_update update_conv' fun_eq_iff)
next
  case False
  with assms show ?thesis
    by (intro exI[of _ "fst (pg_update_task to_value t s)"] exI[of _ t])
      (simp add: pg_update_task_def mem_update_task_def pg_up_def pg_stored_def task_keyed_update update_conv' fun_eq_iff)
qed

lemma pg_lists:
  assumes "pg_up from_value s"
  shows "\<exists>ts. pg_list_tasks from_value s = Inr ts \<and> distinct (map t_id ts) \<and>
      (\<forall>i t. pg_stored from_value s i = Some t \<longleftrightarrow> t \<in> set ts \<and> t_id t = i)"
proof (cases "tp_pool s")
  case True
  let ?rows = "sort_key (\<lambda>(i, row). - tr_created_at row) (tp_rows s)"
  let ?read = "\<lambda>(i, row). row_to_task from_value i row"
  let ?ts = "map (projr \<circ> ?read) ?rows"
  from True assms have d: "distinct (map fst (tp_rows s))" "tp_fault s = None"
    and readable: "(i, row) \<in> set (tp_rows s) \<Longrightarrow> \<exists>t. row_to_task from_value i row = Inr t" for i row
    by (auto simp: pg_up_def is_ok_iff)
  have ids: "map t_id ?ts = map fst ?rows"
    using readable row_to_task_id by (fastforce simp: map_eq_conv)
  have "mset (map fst ?rows) = mset (map fst (tp_rows s))" by simp
  then have "distinct (map fst ?rows)" using d(1) by (metis mset_eq_imp_distinct_iff)
  moreover have "pg_list_tasks from_value s = Inr ?ts"
    using True d(2) readable collect_results_Inr[of "map ?read ?rows"] by (fastforce simp: pg_list_tasks_def comp_def)
  moreover have "pg_stored from_value s i = Some t \<longleftrightarrow> t \<in> set ?ts \<and> t_id t = i" for i t
  proof
    assume "pg_stored from_value s i = Some t"
    then obtain row where row: "map_of (tp_rows s) i = Some row" "row_to_task from_value i row = Inr t"
      using True by (auto simp: pg_stored_def split: option.splits sum.splits)
    then have "(i, row) \<in> set (tp_rows s)" by (blast dest: map_of_SomeD)
    then have "(projr \<circ> ?read) (i, row) \<in> set ?ts" by (simp only: set_map set_sort) blast
    with row(2) show "t \<in> set ?ts \<and> t_id t = i" by (simp add: row_to_task_id)
  next
    assume "t \<in> set ?ts \<and> t_id t = i"
    then obtain k row where "(k, row) \<in> set (tp_rows s)" "t = projr (row_to_task from_value k row)" "t_id t = i" by auto
    with readable[of k row] d(1) True row_to_task_id[of from_value k row] show "pg_stored from_value s i = Some t"
      by (auto simp: pg_stored_def)
  qed
  ultimately show ?thesis unfolding ids[symmetric] by blast
next
  case False
  with assms have "task_keyed (tp_fallback s)" by (simp add: pg_up_def)
  with False task_keyed_listing[OF this] show ?thesis
    by (intro exI[of _ "map snd (tp_fallback s)"]) (simp add: pg_list_tasks_def mem_list_tasks_def pg_stored_def del: map_map)
qed

end

sublocale subtask_json \<subseteq> pg: task_backend "pg_update_task to_value" "pg_list_tasks from_value" "pg_stored from_value" "pg_up from_value"
  by unfold_locales (fact pg_update_stores, fact pg_lists)

interpretation plain_json: subtask_json Inr Inr
  by unfold_locales simp

end
