(* ===== verification/Agent_Events.thy ===== *)
theory Agent_Events
  imports Agent_Types
begin

text \<open>
  The event log of the agents: the events of \<open>crates/uc-engine/src/events.rs\<close> and the in-memory event store, whose
  offsets are one global counter over all streams.
\<close>

section \<open>Events\<close>

record LineRange =
  lr_start :: u32
  lr_end :: u32

definition LineRange_new :: "u32 \<Rightarrow> u32 \<Rightarrow> LineRange" where
  "LineRange_new start finish = \<lparr>lr_start = start, lr_end = finish\<rparr>"

definition overlaps :: "LineRange \<Rightarrow> LineRange \<Rightarrow> bool" where
  "overlaps a b \<longleftrightarrow> lr_start a < lr_end b \<and> lr_start b < lr_end a"

datatype AgentEventType =
    TaskCreated TaskId string
  | SubtaskAssigned TaskId TaskId WorkerId
  | SubtaskStarted TaskId TaskId WorkerId
  | SubtaskProgress TaskId TaskId WorkerId string u32 "u32 option" "u32 option" "string option" "string option"
      "string option" "string option" "u32 option"
  | ToolInvoked TaskId TaskId string string
  | ToolResult TaskId TaskId string bool
  | FileModified TaskId TaskId string string
  | EditIntent WorkerId string string "LineRange list"
  | SubtaskCompleted TaskId TaskId string bool "FileChange list" string bool
  | SubtaskFailed TaskId TaskId string bool string string
  | CheckpointCreated TaskId string u64
  | TaskCompleted TaskId string string
  | TaskFailed TaskId string
  | TaskPaused TaskId
  | TaskResumed TaskId
  | TaskCancelled TaskId
  | TaskUpdated TaskId string
  | SubtaskRetried TaskId TaskId u32

record RecordedEvent =
  re_offset :: u64
  re_timestamp :: int
  re_event :: AgentEventType
  re_subject :: string

record InMemoryEventStore =
  es_streams :: "(string \<times> RecordedEvent list) list"
  es_global_offset :: u64

definition es_new :: InMemoryEventStore where
  "es_new = \<lparr>es_streams = [], es_global_offset = 1\<rparr>"

definition es_append :: "datetime \<Rightarrow> string \<Rightarrow> AgentEventType \<Rightarrow> InMemoryEventStore \<Rightarrow> InMemoryEventStore \<times> u64" where
  "es_append now subject event s =
     (let offset = es_global_offset s;
          recorded = \<lparr>re_offset = offset, re_timestamp = timestamp_millis now, re_event = event, re_subject = subject\<rparr>;
          stream = (case map_of (es_streams s) subject of None \<Rightarrow> [] | Some events \<Rightarrow> events)
      in (\<lparr>es_streams = AList.update subject (stream @ [recorded]) (es_streams s), es_global_offset = offset + 1\<rparr>, offset))"

definition es_read_from :: "string \<Rightarrow> u64 \<Rightarrow> InMemoryEventStore \<Rightarrow> RecordedEvent list" where
  "es_read_from subject offset s = (case map_of (es_streams s) subject of
     Some events \<Rightarrow> filter (\<lambda>e. offset \<le> re_offset e) events
   | None \<Rightarrow> [])"

definition es_latest_offset :: "string \<Rightarrow> InMemoryEventStore \<Rightarrow> u64" where
  "es_latest_offset subject s = (case map_of (es_streams s) subject of
     Some events \<Rightarrow> (if events = [] then 0 else re_offset (last events))
   | None \<Rightarrow> 0)"

section \<open>Offsets\<close>

text \<open>
  The state that appending reaches: streams are ordered by offset and below the counter. It is kept as long as
  the counter does not wrap.
\<close>

definition es_inv :: "InMemoryEventStore \<Rightarrow> bool" where
  "es_inv s \<longleftrightarrow> es_global_offset s \<noteq> 0 \<and> distinct (map fst (es_streams s)) \<and>
     (\<forall>subject events. map_of (es_streams s) subject = Some events \<longrightarrow>
        sorted_wrt (<) (map re_offset events) \<and>
        (\<forall>e \<in> set events. re_subject e = subject \<and> 0 < re_offset e \<and> re_offset e < es_global_offset s))"

lemma es_new_inv: "es_inv es_new"
  by (simp add: es_inv_def es_new_def)

lemma word_less_plus_one: "n \<noteq> - 1 \<Longrightarrow> n < n + 1" for n :: "'a::len word"
  by (simp add: word_less_nat_alt unat_plus_one)

lemma es_append_inv:
  assumes "es_inv s" "es_global_offset s \<noteq> - 1"
  shows "es_inv (fst (es_append now subject event s))"
proof -
  have less: "es_global_offset s < es_global_offset s + 1" using word_less_plus_one[OF assms(2)] .
  have pos: "es_global_offset s + 1 \<noteq> 0" using less by fastforce
  have gpos: "0 < es_global_offset s" using assms(1) by (simp add: es_inv_def word_gt_0)
  have old: "sorted_wrt (<) (map re_offset (case map_of (es_streams s) x of None \<Rightarrow> [] | Some events \<Rightarrow> events))"
    "e \<in> set (case map_of (es_streams s) x of None \<Rightarrow> [] | Some events \<Rightarrow> events) \<Longrightarrow>
       re_subject e = x \<and> 0 < re_offset e \<and> re_offset e < es_global_offset s" for x e
    using assms(1) by (auto simp: es_inv_def split: option.splits)
  have "re_offset e < es_global_offset s + 1" if "re_offset e < es_global_offset s" for e
    using that less by order
  with assms(1) less pos gpos old show ?thesis
    unfolding es_inv_def es_append_def Let_def
    by (auto simp: distinct_update update_conv' sorted_wrt_append split: if_splits option.splits)
qed

text \<open>
  Appending is reading back: the offset is new, the event is the last of its stream, a reader from any earlier offset
  of the stream gets what it got before followed by the event, and other streams are unchanged.
\<close>

lemma es_append_reads:
  assumes "es_inv s" "offset \<le> es_global_offset s" "es_append now subject event s = (s', n)"
  shows "es_read_from subject offset s' = es_read_from subject offset s @
      [\<lparr>re_offset = n, re_timestamp = timestamp_millis now, re_event = event, re_subject = subject\<rparr>]"
    "es_latest_offset subject s' = n" "n \<notin> re_offset ` set (es_read_from subject 0 s)"
    "other \<noteq> subject \<Longrightarrow> es_read_from other offset s' = es_read_from other offset s"
proof -
  show "es_read_from subject offset s' = es_read_from subject offset s @
      [\<lparr>re_offset = n, re_timestamp = timestamp_millis now, re_event = event, re_subject = subject\<rparr>]"
    "es_latest_offset subject s' = n"
    "other \<noteq> subject \<Longrightarrow> es_read_from other offset s' = es_read_from other offset s"
    using assms(2,3) by (auto simp: es_append_def Let_def es_read_from_def es_latest_offset_def update_conv' split: option.splits)
  show "n \<notin> re_offset ` set (es_read_from subject 0 s)"
    using assms(1,3) by (fastforce simp: es_append_def Let_def es_read_from_def es_inv_def split: option.splits)
qed

end
