(* ===== verification/Envelope.thy ===== *)
theory Envelope
  imports Prelude
begin

text \<open>
  The execution envelope of a dispatch (\<open>crates/uc-types/src/envelope.rs\<close>): its deterministic identity and the
  dependency context that is packed under a byte budget.
\<close>

section \<open>Dependency context\<close>

definition CONTRACT_VERSION :: string where
  "CONTRACT_VERSION = ''v1''"

definition CONTEXT_BLOCK_MAX_BYTES :: nat where
  "CONTEXT_BLOCK_MAX_BYTES = 8 * 1024"

definition IDEMPOTENCY_KEY_LEN :: nat where
  "IDEMPOTENCY_KEY_LEN = 32"

record ContextEntry =
  ce_node_id :: string
  ce_success :: bool
  ce_summary :: string

record ContextBlock =
  cb_entries :: "ContextEntry list"
  cb_truncated :: bool

text \<open>
  \<open>ContextBlock::compose\<close>. The serialized size of a block is an argument: \<open>None\<close> when the block cannot be
  serialized, which counts as larger than any budget.
\<close>

fun compose_loop :: "(ContextBlock \<Rightarrow> nat option) \<Rightarrow> ContextEntry list \<Rightarrow> ContextBlock \<Rightarrow> ContextBlock" where
  "compose_loop json_size [] block = block"
| "compose_loop json_size (entry # rest) block =
     (let probe = \<lparr>cb_entries = cb_entries block @ [entry], cb_truncated = False\<rparr>
      in if (case json_size probe of None \<Rightarrow> True | Some bytes \<Rightarrow> CONTEXT_BLOCK_MAX_BYTES < bytes)
         then block\<lparr>cb_truncated := True\<rparr>
         else compose_loop json_size rest (block\<lparr>cb_entries := cb_entries probe\<rparr>))"

definition compose :: "(ContextBlock \<Rightarrow> nat option) \<Rightarrow> ContextEntry list \<Rightarrow> ContextBlock option" where
  "compose json_size entries =
     (if entries = [] then None
      else Some (compose_loop json_size (sort_key ce_node_id entries) \<lparr>cb_entries = [], cb_truncated = False\<rparr>))"

section \<open>The envelope\<close>

record ExecutionEnvelope =
  en_graph_id :: string
  en_node_id :: string
  en_attempt_id :: string
  en_idempotency_key :: string
  en_worker_epoch :: string
  en_contract_version :: string
  en_context_block :: "ContextBlock option"

definition derive_idempotency_key :: "(string \<Rightarrow> string) \<Rightarrow> string \<Rightarrow> string \<Rightarrow> string \<Rightarrow> string" where
  "derive_idempotency_key sha256_hex graph_id node_id attempt_id =
     take IDEMPOTENCY_KEY_LEN (sha256_hex (graph_id @ '':'' @ node_id @ '':'' @ attempt_id))"

definition ExecutionEnvelope_new :: "(string \<Rightarrow> string) \<Rightarrow> string \<Rightarrow> string \<Rightarrow> string \<Rightarrow> ExecutionEnvelope" where
  "ExecutionEnvelope_new sha256_hex graph_id node_id attempt_id =
     \<lparr>en_graph_id = graph_id, en_node_id = node_id, en_attempt_id = attempt_id,
      en_idempotency_key = derive_idempotency_key sha256_hex graph_id node_id attempt_id, en_worker_epoch = [],
      en_contract_version = CONTRACT_VERSION, en_context_block = None\<rparr>"

definition for_dispatch :: "(string \<Rightarrow> string) \<Rightarrow> string \<Rightarrow> string \<Rightarrow> u32 \<Rightarrow> ExecutionEnvelope" where
  "for_dispatch sha256_hex graph_id node_id attempt = ExecutionEnvelope_new sha256_hex graph_id node_id (show_word attempt)"

section \<open>The budget\<close>

definition fits :: "(ContextBlock \<Rightarrow> nat option) \<Rightarrow> ContextEntry list \<Rightarrow> bool" where
  "fits json_size entries \<longleftrightarrow>
     (\<exists>bytes. json_size \<lparr>cb_entries = entries, cb_truncated = False\<rparr> = Some bytes \<and> bytes \<le> CONTEXT_BLOCK_MAX_BYTES)"

lemma compose_loop_spec:
  assumes "\<not> cb_truncated block"
  shows "\<exists>n \<le> length rest. compose_loop json_size rest block =
      \<lparr>cb_entries = cb_entries block @ take n rest, cb_truncated = n < length rest\<rparr> \<and>
      (\<forall>k. 0 < k \<and> k \<le> n \<longrightarrow> fits json_size (cb_entries block @ take k rest)) \<and>
      (n < length rest \<longrightarrow> \<not> fits json_size (cb_entries block @ take (Suc n) rest))"
  using assms
proof (induction rest arbitrary: block)
  case Nil
  then show ?case by (cases block) simp
next
  case (Cons e rest)
  let ?probe = "\<lparr>cb_entries = cb_entries block @ [e], cb_truncated = False\<rparr>"
  show ?case
  proof (cases "fits json_size (cb_entries block @ [e])")
    case True
    from Cons.IH[of "block\<lparr>cb_entries := cb_entries block @ [e]\<rparr>"] Cons.prems obtain n where
      n: "n \<le> length rest" "compose_loop json_size rest (block\<lparr>cb_entries := cb_entries block @ [e]\<rparr>) =
        \<lparr>cb_entries = cb_entries block @ e # take n rest, cb_truncated = n < length rest\<rparr>"
        "\<And>k. 0 < k \<Longrightarrow> k \<le> n \<Longrightarrow> fits json_size (cb_entries block @ e # take k rest)"
        "n < length rest \<Longrightarrow> \<not> fits json_size (cb_entries block @ e # take (Suc n) rest)" by auto
    have "fits json_size (cb_entries block @ take k (e # rest))" if "0 < k" "k \<le> Suc n" for k
      using that n(3)[of "k - 1"] True by (cases k; cases "k = 1") auto
    moreover from True have "compose_loop json_size (e # rest) block =
        compose_loop json_size rest (block\<lparr>cb_entries := cb_entries block @ [e]\<rparr>)"
      by (auto simp: fits_def Let_def)
    ultimately show ?thesis using n by (intro exI[of _ "Suc n"]) simp
  next
    case False
    then have "compose_loop json_size (e # rest) block = block\<lparr>cb_truncated := True\<rparr>"
      by (auto simp: fits_def Let_def split: option.splits)
    with False show ?thesis by (intro exI[of _ 0]) (simp; cases block; simp)
  qed
qed

text \<open>
  A block holds the longest prefix of the entries, in node order, none of whose extensions on the way overflowed the
  budget; it says so exactly when an entry is missing, and no entry is split.
\<close>

lemma compose_longest_prefix:
  assumes "entries \<noteq> []"
  obtains n block where "compose json_size entries = Some block" "n \<le> length entries"
    "cb_entries block = take n (sort_key ce_node_id entries)" "cb_truncated block \<longleftrightarrow> n < length entries"
    "cb_entries block \<noteq> [] \<Longrightarrow> fits json_size (cb_entries block)"
    "n < length entries \<Longrightarrow> \<not> fits json_size (take (Suc n) (sort_key ce_node_id entries))"
proof -
  from compose_loop_spec[of "\<lparr>cb_entries = [], cb_truncated = False\<rparr>" "sort_key ce_node_id entries" json_size] obtain n where
    "n \<le> length entries" "compose_loop json_size (sort_key ce_node_id entries) \<lparr>cb_entries = [], cb_truncated = False\<rparr> =
      \<lparr>cb_entries = take n (sort_key ce_node_id entries), cb_truncated = n < length entries\<rparr>"
    "\<And>k. 0 < k \<Longrightarrow> k \<le> n \<Longrightarrow> fits json_size (take k (sort_key ce_node_id entries))"
    "n < length entries \<Longrightarrow> \<not> fits json_size (take (Suc n) (sort_key ce_node_id entries))" by auto
  with assms show ?thesis by (intro that[of _ n]) (auto simp: compose_def)
qed

end
