(* ===== verification/Task_Store.thy ===== *)
theory Task_Store
  imports Task_Backend Agent_Events Envelope
begin

text \<open>
  The task table of the gateway, \<open>TaskStore\<close> of \<open>crates/uc-grpc/src/server.rs\<close>, with every operation on it: submissions,
  control commands, projections over the RPC, updates from the message bus, heartbeats, dispatch and eviction. The instant
  an operation runs at and the ids it draws are arguments. A \<open>HashMap\<close> is an association list whose order stands for the
  iteration order; no theorem depends on it. A returned event is the domain event; its wire form is left to the conversion.
\<close>

section \<open>Messages of the orchestrator and the workers\<close>

definition task_status_from_str :: "string \<Rightarrow> TaskStatus option" where
  "task_status_from_str text = (let s = to_ascii_lowercase text in
     if s = ''created'' then Some TaskStatus.Created
     else if s = ''planning'' then Some Planning
     else if s = ''in_progress'' \<or> s = ''inprogress'' then Some TaskStatus.InProgress
     else if s = ''completed'' then Some TaskStatus.Completed
     else if s = ''failed'' then Some TaskStatus.Failed
     else if s = ''paused'' then Some Paused
     else None)"

definition subtask_status_from_str :: "string \<Rightarrow> SubtaskStatus option" where
  "subtask_status_from_str text = (let s = to_ascii_lowercase text in
     if s = ''pending'' then Some Pending
     else if s = ''assigned'' then Some Assigned
     else if s = ''in_progress'' \<or> s = ''inprogress'' then Some SubtaskStatus.InProgress
     else if s = ''completed'' then Some SubtaskStatus.Completed
     else if s = ''failed'' then Some SubtaskStatus.Failed
     else if s = ''conflicted'' then Some Conflicted
     else None)"

fun task_status_to_proto :: "TaskStatus \<Rightarrow> string" where
  "task_status_to_proto TaskStatus.Created = ''Created''"
| "task_status_to_proto Planning = ''Planning''"
| "task_status_to_proto TaskStatus.InProgress = ''InProgress''"
| "task_status_to_proto TaskStatus.Completed = ''Completed''"
| "task_status_to_proto TaskStatus.Failed = ''Failed''"
| "task_status_to_proto Paused = ''Paused''"

definition proto_status_to_task_status :: "string \<Rightarrow> (string, TaskStatus) result" where
  "proto_status_to_task_status s =
     (if s = ''Created'' then Inr TaskStatus.Created
      else if s = ''Planning'' then Inr Planning
      else if s = ''InProgress'' then Inr TaskStatus.InProgress
      else if s = ''Completed'' then Inr TaskStatus.Completed
      else if s = ''Failed'' then Inr TaskStatus.Failed
      else if s = ''Paused'' then Inr Paused
      else Inl (''Unknown TaskStatus: '' @ s))"

record NatsSubtaskExecution =
  nx_agent_config_json :: "string option"
  nx_required_capabilities :: "string list option"
  nx_file_constraints :: "string list option"
  nx_expected_output :: "string option"
  nx_workflow_steps :: "WorkflowStep list option"

definition apply_to :: "NatsSubtaskExecution \<Rightarrow> Subtask \<Rightarrow> Subtask" where
  "apply_to x st =
     (let st = (case nx_agent_config_json x of None \<Rightarrow> st | Some config \<Rightarrow> st\<lparr>st_agent_config_json := Some config\<rparr>);
          st = (case nx_required_capabilities x of None \<Rightarrow> st | Some capabilities \<Rightarrow> st\<lparr>st_required_capabilities := capabilities\<rparr>);
          st = (case nx_file_constraints x of None \<Rightarrow> st | Some constraints \<Rightarrow> st\<lparr>st_file_constraints := constraints\<rparr>);
          st = (case nx_expected_output x of None \<Rightarrow> st | Some output \<Rightarrow> st\<lparr>st_expected_output := output\<rparr>)
      in case nx_workflow_steps x of None \<Rightarrow> st | Some steps \<Rightarrow> st\<lparr>st_steps := steps\<rparr>)"

record NatsSubtaskUpdate =
  nt_execution :: NatsSubtaskExecution
  nt_subtask_id :: string
  nt_status :: string
  nt_assigned_worker :: "string option"
  nt_description :: "string option"
  nt_depends_on :: "string list option"
  nt_result :: "string option"
  nt_usage :: "SubtaskUsage option"
  nt_steps :: "StepUsage list option"
  nt_review :: "SubtaskReview option"
  nt_attempt_id :: "u64 option"

record NatsTaskUpdate =
  nu_message_id :: "string option"
  nu_task_id :: string
  nu_status :: string
  nu_partial :: bool
  nu_subtasks :: "NatsSubtaskUpdate list"
  nu_result :: "string option"

text \<open>\<open>fresh\<close> is the worker id drawn for a result that names none.\<close>

definition nats_subtask_to_domain :: "datetime \<Rightarrow> WorkerId \<Rightarrow> string \<Rightarrow> NatsSubtaskUpdate \<Rightarrow> Subtask" where
  "nats_subtask_to_domain now fresh task_id e =
     (let status = unwrap_or (subtask_status_from_str (nt_status e)) Pending;
          outcome = map_option (\<lambda>summary. \<lparr>res_subtask_id = nt_subtask_id e, res_worker_id = unwrap_or (nt_assigned_worker e) fresh,
            res_modified_files = [], res_summary = summary, res_success = (status \<noteq> SubtaskStatus.Failed), res_completed_at = now,
            res_result = Some summary, res_usage = nt_usage e, res_review = nt_review e\<rparr>) (nt_result e)
      in apply_to (nt_execution e)
        \<lparr>st_id = nt_subtask_id e, st_parent_id = task_id, st_description = unwrap_or (nt_description e) [], st_status = status,
         st_assigned_worker = nt_assigned_worker e, st_depends_on = unwrap_or (nt_depends_on e) [], st_file_constraints = [],
         st_expected_output = [], st_result = outcome, st_dispatch_mode = PreferRemote, st_effect_class = RequiresWorker,
         st_dispatch_retry_count = 0, st_required_capabilities = [], st_agent_config_json = None, st_steps = [], st_retry_count = 0\<rparr>)"

section \<open>The store\<close>

text \<open>
  The writes to the durable backend are chained in the order they are issued, those to the graph plane are spawned;
  both are kept as the list of what was issued, \<open>None\<close> when nothing is wired.
\<close>

datatype GraphCall =
    ShadowPersist Task
  | OnSchedule ExecutionEnvelope "string option"
  | OnHeartbeat ExecutionEnvelope
  | OnCommit ExecutionEnvelope "string option" "SubtaskUsage option" "StepUsage list option"
  | OnFail ExecutionEnvelope string

record TaskStore =
  ts_tasks :: "(string \<times> Task) list"
  ts_durability_faults :: "string set"
  ts_events :: "AgentEventType list"
  ts_event_store :: "(string \<times> AgentEventType) list"
  ts_task_backend :: "Task list option"
  ts_graph_shadow :: "GraphCall list option"
  ts_last_heartbeat :: "datetime option"
  ts_worker_heartbeats :: "(string \<times> datetime) list"
  ts_assigned_subtask_times :: "(string \<times> datetime) list"
  ts_seen_messages :: "(string \<times> datetime) list"
  ts_stale_dispatch_dropped :: u64
  ts_worker_stale_dispatch_dropped :: "(string \<times> u64) list"

definition TaskStore_new :: TaskStore where
  "TaskStore_new = \<lparr>ts_tasks = [], ts_durability_faults = {}, ts_events = [], ts_event_store = [], ts_task_backend = None,
     ts_graph_shadow = None, ts_last_heartbeat = None, ts_worker_heartbeats = [], ts_assigned_subtask_times = [],
     ts_seen_messages = [], ts_stale_dispatch_dropped = 0, ts_worker_stale_dispatch_dropped = []\<rparr>"

definition with_backend :: TaskStore where
  "with_backend = TaskStore_new\<lparr>ts_task_backend := Some []\<rparr>"

definition set_graph_shadow :: "TaskStore \<Rightarrow> TaskStore" where
  "set_graph_shadow s = s\<lparr>ts_graph_shadow := Some []\<rparr>"

definition INLINE_EVENTS_MAX :: nat where
  "INLINE_EVENTS_MAX = 5000"

definition MAX_RETAINED_TASKS :: nat where
  "MAX_RETAINED_TASKS = 1000"

definition DEDUP_TTL :: int where
  "DEDUP_TTL = 300 * 1000000000"

definition DEDUP_MAX_ENTRIES :: nat where
  "DEDUP_MAX_ENTRIES = 10000"

fun evict_loop :: "(string \<times> datetime) list \<Rightarrow> TaskStore \<Rightarrow> TaskStore" where
  "evict_loop [] s = s"
| "evict_loop ((i, _) # rest) s =
     (let stamps = (case map_of (ts_tasks s) i of
            None \<Rightarrow> ts_assigned_subtask_times s
          | Some task \<Rightarrow> fold (\<lambda>st. AList.delete (st_id st)) (t_subtasks task) (ts_assigned_subtask_times s))
      in evict_loop rest (s\<lparr>ts_assigned_subtask_times := stamps, ts_tasks := AList.delete i (ts_tasks s)\<rparr>))"

definition evict_completed_tasks :: "TaskStore \<Rightarrow> TaskStore \<times> nat" where
  "evict_completed_tasks s =
     (if length (ts_tasks s) \<le> MAX_RETAINED_TASKS then (s, 0)
      else
        let terminal = map (\<lambda>(i, t). (i, t_updated_at t))
              (filter (\<lambda>(_, t). t_status t \<in> {TaskStatus.Completed, TaskStatus.Failed}) (ts_tasks s))
        in if terminal = [] then (s, 0)
           else let terminal = sort_key snd terminal;
                    excess = length (ts_tasks s) - MAX_RETAINED_TASKS;
                    to_evict = min excess (length terminal)
                in (evict_loop (take to_evict terminal) s, to_evict))"

definition dedup_live :: "datetime \<Rightarrow> string \<times> datetime \<Rightarrow> bool" where
  "dedup_live now entry \<longleftrightarrow> max 0 (now - snd entry) < DEDUP_TTL"

definition purge_expired_dedup_entries :: "datetime \<Rightarrow> TaskStore \<Rightarrow> TaskStore" where
  "purge_expired_dedup_entries now s =
     s\<lparr>ts_seen_messages := filter (dedup_live now) (ts_seen_messages s)\<rparr>"

definition check_and_record_message_id :: "datetime \<Rightarrow> string option \<Rightarrow> TaskStore \<Rightarrow> TaskStore \<times> bool" where
  "check_and_record_message_id now message_id s = (case message_id of
     None \<Rightarrow> (s, False)
   | Some mid \<Rightarrow>
       if mid = [] then (s, False)
       else if map_of (ts_seen_messages s) mid \<noteq> None then (s, True)
       else let s = s\<lparr>ts_seen_messages := AList.update mid now (ts_seen_messages s)\<rparr>
         in (if DEDUP_MAX_ENTRIES < length (ts_seen_messages s) then purge_expired_dedup_entries now s else s, False))"

definition record_event_with_subject :: "AgentEventType \<Rightarrow> string \<Rightarrow> TaskStore \<Rightarrow> TaskStore" where
  "record_event_with_subject event subject s =
     (let events = ts_events s @ [event]
      in s\<lparr>ts_events := (if INLINE_EVENTS_MAX < length events then drop (length events - INLINE_EVENTS_MAX) events else events),
           ts_event_store := ts_event_store s @ [(subject, event)]\<rparr>)"

fun event_subject :: "AgentEventType \<Rightarrow> string" where
  "event_subject (TaskCreated task_id _) = ''task.'' @ task_id"
| "event_subject (TaskCompleted task_id _ _) = ''task.'' @ task_id"
| "event_subject (TaskFailed task_id _) = ''task.'' @ task_id"
| "event_subject (SubtaskAssigned task_id _ _) = ''task.'' @ task_id"
| "event_subject (SubtaskStarted task_id _ _) = ''task.'' @ task_id"
| "event_subject (SubtaskProgress task_id _ _ _ _ _ _ _ _ _ _ _) = ''task.'' @ task_id"
| "event_subject (SubtaskCompleted task_id _ _ _ _ _ _) = ''task.'' @ task_id"
| "event_subject (SubtaskFailed task_id _ _ _ _ _) = ''task.'' @ task_id"
| "event_subject (TaskPaused task_id) = ''task.'' @ task_id"
| "event_subject (TaskResumed task_id) = ''task.'' @ task_id"
| "event_subject (TaskCancelled task_id) = ''task.'' @ task_id"
| "event_subject (TaskUpdated task_id _) = ''task.'' @ task_id"
| "event_subject _ = ''events''"

definition record_event :: "AgentEventType \<Rightarrow> TaskStore \<Rightarrow> TaskStore" where
  "record_event event s = record_event_with_subject event (event_subject event) s"

definition graph_verb :: "GraphCall \<Rightarrow> TaskStore \<Rightarrow> TaskStore" where
  "graph_verb call s = (case ts_graph_shadow s of None \<Rightarrow> s | Some calls \<Rightarrow> s\<lparr>ts_graph_shadow := Some (calls @ [call])\<rparr>)"

definition persist_task :: "Task \<Rightarrow> TaskStore \<Rightarrow> TaskStore" where
  "persist_task task s =
     graph_verb (ShadowPersist task)
       (case ts_task_backend s of None \<Rightarrow> s | Some writes \<Rightarrow> s\<lparr>ts_task_backend := Some (writes @ [task])\<rparr>)"

definition persist_new_task :: "Task \<Rightarrow> TaskStore \<Rightarrow> TaskStore" where
  "persist_new_task task s = persist_task task s"

definition insert_task :: "string \<Rightarrow> Task \<Rightarrow> TaskStore \<Rightarrow> TaskStore" where
  "insert_task task_id task s = s\<lparr>ts_tasks := AList.update task_id task (ts_tasks s)\<rparr>"

definition load_from_backend :: "(EngineError, Task list) result \<Rightarrow> TaskStore \<Rightarrow> TaskStore \<times> (EngineError, nat) result" where
  "load_from_backend listing s = (case ts_task_backend s of
     None \<Rightarrow> (s, Inr 0)
   | Some _ \<Rightarrow>
       (case listing of
          Inl e \<Rightarrow> (s, Inl e)
        | Inr tasks \<Rightarrow> (fold (\<lambda>task. insert_task (t_id task) task) tasks s, Inr (length tasks))))"

section \<open>Submitting, reading and controlling tasks\<close>

definition submit_task ::
  "datetime \<Rightarrow> TaskId \<Rightarrow> TaskId \<Rightarrow> WorkerId \<Rightarrow> string \<Rightarrow> string \<Rightarrow> TaskStore \<Rightarrow> TaskStore \<times> Task" where
  "submit_task now task_id subtask_id worker_id description project_id s =
     (let subtask = \<lparr>st_id = subtask_id, st_parent_id = task_id, st_description = description, st_status = Pending,
            st_assigned_worker = None, st_depends_on = [], st_file_constraints = [], st_expected_output = [], st_result = None,
            st_dispatch_mode = PreferRemote, st_effect_class = RequiresWorker, st_dispatch_retry_count = 0,
            st_required_capabilities = [], st_agent_config_json = None, st_steps = [], st_retry_count = 0\<rparr>;
          task = \<lparr>t_id = task_id, t_description = description, t_project_id = project_id, t_status = TaskStatus.InProgress,
            t_subtasks = [subtask], t_created_at = now, t_updated_at = now\<rparr>;
          s = record_event_with_subject (TaskCreated task_id description) (''task.'' @ task_id) s;
          s = record_event_with_subject (SubtaskAssigned task_id subtask_id worker_id) (''task.'' @ task_id) s
      in (persist_new_task task (insert_task task_id task s), task))"

definition submit_task_pending_with_id ::
  "datetime \<Rightarrow> TaskId \<Rightarrow> string \<Rightarrow> string \<Rightarrow> TaskStore \<Rightarrow> TaskStore \<times> Task \<times> AgentEventType list" where
  "submit_task_pending_with_id now task_id description project_id s =
     (let task = \<lparr>t_id = task_id, t_description = description, t_project_id = project_id, t_status = Planning,
            t_subtasks = [], t_created_at = now, t_updated_at = now\<rparr>;
          event = TaskCreated task_id description;
          s = record_event_with_subject event (''task.'' @ task_id) s
      in (persist_new_task task (insert_task task_id task s), task, [event]))"

definition submit_task_pending ::
  "datetime \<Rightarrow> TaskId \<Rightarrow> string \<Rightarrow> string \<Rightarrow> TaskStore \<Rightarrow> TaskStore \<times> Task \<times> AgentEventType list" where
  "submit_task_pending now fresh_id description project_id s = submit_task_pending_with_id now fresh_id description project_id s"

definition get_task :: "string \<Rightarrow> TaskStore \<Rightarrow> Task option" where
  "get_task task_id s = map_of (ts_tasks s) task_id"

definition list_tasks :: "TaskStore \<Rightarrow> Task list" where
  "list_tasks s = map snd (ts_tasks s)"

definition store_not_found :: "string \<Rightarrow> string" where
  "store_not_found task_id = ''Task not found: '' @ task_id"

definition pause_task :: "datetime \<Rightarrow> string \<Rightarrow> TaskStore \<Rightarrow> TaskStore \<times> (string, Task) result" where
  "pause_task now task_id s = (case map_of (ts_tasks s) task_id of
     None \<Rightarrow> (s, Inl (store_not_found task_id))
   | Some task \<Rightarrow>
       if t_status task \<in> {TaskStatus.InProgress, Planning}
       then let task = task\<lparr>t_status := Paused, t_updated_at := now\<rparr> in (persist_task task (insert_task task_id task s), Inr task)
       else (s, Inl (''Cannot pause task in '' @ task_status_to_proto (t_status task) @ '' status (expected InProgress or Planning)'')))"

definition resume_task :: "datetime \<Rightarrow> string \<Rightarrow> TaskStore \<Rightarrow> TaskStore \<times> (string, Task) result" where
  "resume_task now task_id s = (case map_of (ts_tasks s) task_id of
     None \<Rightarrow> (s, Inl (store_not_found task_id))
   | Some task \<Rightarrow>
       if t_status task = Paused
       then let task = task\<lparr>t_status := TaskStatus.InProgress, t_updated_at := now\<rparr>
         in (persist_task task (insert_task task_id task s), Inr task)
       else (s, Inl (''Cannot resume task in '' @ task_status_to_proto (t_status task) @ '' status (expected Paused)'')))"

definition unfinished :: "SubtaskStatus \<Rightarrow> bool" where
  "unfinished status \<longleftrightarrow> status \<in> {SubtaskStatus.InProgress, Pending, Assigned}"

definition drop_assigned :: "Subtask list \<Rightarrow> (string \<times> datetime) list \<Rightarrow> (string \<times> datetime) list" where
  "drop_assigned sts stamps = fold (\<lambda>st stamps. if st_status st = Assigned then AList.delete (st_id st) stamps else stamps) sts stamps"

definition cancel_task :: "datetime \<Rightarrow> string \<Rightarrow> TaskStore \<Rightarrow> TaskStore \<times> (string, Task) result" where
  "cancel_task now task_id s = (case map_of (ts_tasks s) task_id of
     None \<Rightarrow> (s, Inl (store_not_found task_id))
   | Some task \<Rightarrow>
       (case t_status task of
          TaskStatus.Failed \<Rightarrow> (s, Inl ''Task is already failed'')
        | TaskStatus.Completed \<Rightarrow> (s, Inl ''Cannot cancel task in Completed state'')
        | TaskStatus.Created \<Rightarrow> (s, Inl ''Cannot cancel task in Created state'')
        | _ \<Rightarrow>
            let stamps = drop_assigned (t_subtasks task) (ts_assigned_subtask_times s);
                task = task\<lparr>t_status := TaskStatus.Failed, t_updated_at := now,
                  t_subtasks := map (\<lambda>st. if unfinished (st_status st) then st\<lparr>st_status := SubtaskStatus.Failed\<rparr> else st) (t_subtasks task)\<rparr>
            in (persist_task task (insert_task task_id task (s\<lparr>ts_assigned_subtask_times := stamps\<rparr>)), Inr task)))"

section \<open>Projections\<close>

definition controlled :: "TaskStatus \<Rightarrow> bool" where
  "controlled status \<longleftrightarrow> status \<in> {Paused, TaskStatus.Failed, TaskStatus.Completed}"

definition settled_node :: "SubtaskStatus \<Rightarrow> bool" where
  "settled_node status \<longleftrightarrow> status \<in> {SubtaskStatus.Failed, SubtaskStatus.Completed}"

fun projection_error :: "Task \<Rightarrow> Subtask list \<Rightarrow> string option" where
  "projection_error current [] = None"
| "projection_error current (incoming # rest) = (case find (\<lambda>node. st_id node = st_id incoming) (t_subtasks current) of
     Some node \<Rightarrow>
       if st_dispatch_retry_count node \<noteq> st_dispatch_retry_count incoming
       then Some ''Projection attempt differs from Gateway attempt''
       else if settled_node (st_status node) \<and> st_status node \<noteq> st_status incoming
       then Some ''Projection cannot reopen terminal node; use RetrySubtask''
       else projection_error current rest
   | None \<Rightarrow>
       if controlled (t_status current) then Some ''Projection cannot extend a controlled or terminal task''
       else projection_error current rest)"

definition project_node :: "Subtask \<Rightarrow> Subtask \<Rightarrow> Subtask" where
  "project_node st existing =
     existing\<lparr>st_status := st_status st, st_result := st_result st,
       st_description := (if st_description st \<noteq> [] then st_description st else st_description existing),
       st_depends_on := (if st_depends_on st \<noteq> [] then st_depends_on st else st_depends_on existing),
       st_assigned_worker := (if st_assigned_worker st \<noteq> None then st_assigned_worker st else st_assigned_worker existing)\<rparr>"

fun upsert_subtasks ::
  "Subtask list \<Rightarrow> Subtask list \<Rightarrow> Subtask list \<times> (TaskId \<times> SubtaskStatus \<times> SubtaskStatus) list \<times> TaskId list" where
  "upsert_subtasks [] nodes = (nodes, [], [])"
| "upsert_subtasks (st # rest) nodes = (case find (\<lambda>s. st_id s = st_id st) nodes of
     Some existing \<Rightarrow>
       (case upsert_subtasks rest (update_first (\<lambda>s. st_id s = st_id st) (project_node st) nodes) of
          (nodes, transitions, new_ids) \<Rightarrow>
            (nodes, (if st_status existing \<noteq> st_status st then [(st_id st, st_status existing, st_status st)] else []) @ transitions, new_ids))
   | None \<Rightarrow>
       (case upsert_subtasks rest (nodes @ [st]) of (nodes, transitions, new_ids) \<Rightarrow> (nodes, transitions, st_id st # new_ids)))"

text \<open>\<open>fresh n\<close> is the worker id drawn for the \<open>n\<close>-th of these events.\<close>

fun transition_events :: "(nat \<Rightarrow> WorkerId) \<Rightarrow> TaskId \<Rightarrow> nat \<Rightarrow> (TaskId \<times> SubtaskStatus \<times> SubtaskStatus) list \<Rightarrow> AgentEventType list" where
  "transition_events fresh tid n [] = []"
| "transition_events fresh tid n ((subtask_id, old, new) # rest) =
     (case new of
        SubtaskStatus.InProgress \<Rightarrow> [SubtaskStarted tid subtask_id (fresh n)]
      | SubtaskStatus.Completed \<Rightarrow> [SubtaskCompleted tid subtask_id [] True [] [] False]
      | SubtaskStatus.Failed \<Rightarrow> [SubtaskFailed tid subtask_id [] False [] []]
      | _ \<Rightarrow> []) @ transition_events fresh tid (n + 1) rest"

fun assigned_events :: "(nat \<Rightarrow> WorkerId) \<Rightarrow> TaskId \<Rightarrow> nat \<Rightarrow> TaskId list \<Rightarrow> AgentEventType list" where
  "assigned_events fresh tid n [] = []"
| "assigned_events fresh tid n (subtask_id # rest) = SubtaskAssigned tid subtask_id (fresh n) # assigned_events fresh tid (n + 1) rest"

definition apply_projection ::
  "datetime \<Rightarrow> (nat \<Rightarrow> WorkerId) \<Rightarrow> string \<Rightarrow> string \<Rightarrow> TaskStatus \<Rightarrow> Subtask list \<Rightarrow> Task \<Rightarrow> TaskStore \<Rightarrow>
     TaskStore \<times> (string, Task \<times> AgentEventType list) result" where
  "apply_projection now fresh task_id status parsed subtasks task s =
     (case upsert_subtasks subtasks (t_subtasks task) of
        (nodes, transitions, new_ids) \<Rightarrow>
          let updated = task\<lparr>t_status := parsed, t_updated_at := now, t_subtasks := nodes\<rparr>;
              events = TaskUpdated task_id status # transition_events fresh task_id 0 transitions @
                assigned_events fresh task_id (length transitions) new_ids;
              s = fold record_event events (insert_task task_id updated s)
          in (persist_task updated s, Inr (updated, events)))"

definition update_task ::
  "datetime \<Rightarrow> (nat \<Rightarrow> WorkerId) \<Rightarrow> string \<Rightarrow> string \<Rightarrow> Subtask list \<Rightarrow> string \<Rightarrow> string \<Rightarrow> TaskStore \<Rightarrow>
     TaskStore \<times> (string, Task \<times> AgentEventType list) result" where
  "update_task now fresh task_id status subtasks description project_id s = (case proto_status_to_task_status status of
     Inl e \<Rightarrow> (s, Inl e)
   | Inr parsed \<Rightarrow>
       (case map_of (ts_tasks s) task_id of
          Some current \<Rightarrow>
            if controlled (t_status current) \<and> t_status current \<noteq> parsed
            then (s, Inl ''Projection cannot reverse task control state; use a control command'')
            else (case projection_error current subtasks of
                    Some e \<Rightarrow> (s, Inl e)
                  | None \<Rightarrow> apply_projection now fresh task_id status parsed subtasks current s)
        | None \<Rightarrow>
            if description = [] then (s, Inl (store_not_found task_id))
            else
              let task = \<lparr>t_id = task_id, t_description = description, t_project_id = project_id, t_status = parsed,
                    t_subtasks = subtasks, t_created_at = now, t_updated_at = now\<rparr>;
                  s = record_event_with_subject (TaskCreated task_id description) (''task.'' @ task_id) s
              in apply_projection now fresh task_id status parsed subtasks task (insert_task task_id task s)))"

section \<open>Retrying a node\<close>

definition retry_subtask :: "datetime \<Rightarrow> string \<Rightarrow> string \<Rightarrow> u32 \<Rightarrow> TaskStore \<Rightarrow> TaskStore \<times> (string, Task) result" where
  "retry_subtask now task_id node_id expected_attempt s = (case map_of (ts_tasks s) task_id of
     None \<Rightarrow> (s, Inl ''Task not found'')
   | Some task \<Rightarrow>
       if t_status task \<in> {Paused, TaskStatus.Completed} then (s, Inl ''Cannot retry a paused or completed task'')
       else case find (\<lambda>node. st_id node = node_id) (t_subtasks task) of
         None \<Rightarrow> (s, Inl ''Subtask not found'')
       | Some node \<Rightarrow>
           if st_dispatch_retry_count node \<noteq> expected_attempt \<or> st_status node \<noteq> SubtaskStatus.Failed
           then (s, Inl ''Retry requires the current failed attempt'')
           else if \<not> list_all (\<lambda>dep. list_ex (\<lambda>node. st_id node = dep \<and> st_status node = SubtaskStatus.Completed) (t_subtasks task))
               (st_depends_on node)
           then (s, Inl ''Retry dependencies are not completed'')
           else if expected_attempt = - 1 then (s, Inl ''Attempt overflow'')
           else
             let next = expected_attempt + 1;
                 updated = task\<lparr>t_subtasks := update_first (\<lambda>node. st_id node = node_id)
                     (\<lambda>node. node\<lparr>st_dispatch_retry_count := next, st_status := Pending, st_result := None, st_assigned_worker := None\<rparr>)
                     (t_subtasks task), t_status := TaskStatus.InProgress, t_updated_at := now\<rparr>;
                 s = insert_task task_id updated (s\<lparr>ts_assigned_subtask_times := AList.delete node_id (ts_assigned_subtask_times s)\<rparr>);
                 s = record_event (TaskUpdated (t_id updated) ''InProgress'') s;
                 s = record_event (SubtaskRetried (t_id updated) node_id next) s
             in (persist_task updated s, Inr updated))"

definition read_events_from :: "nat \<Rightarrow> TaskStore \<Rightarrow> AgentEventType list" where
  "read_events_from offset s = drop offset (ts_events s)"

definition event_count :: "TaskStore \<Rightarrow> nat" where
  "event_count s = length (ts_events s)"

section \<open>Updates from the message bus\<close>

definition stale_entry :: "Task \<Rightarrow> NatsSubtaskUpdate \<Rightarrow> bool" where
  "stale_entry task incoming = (case find (\<lambda>node. st_id node = nt_subtask_id incoming) (t_subtasks task) of
     None \<Rightarrow> False
   | Some node \<Rightarrow>
       settled_node (st_status node) \<and> subtask_status_from_str (nt_status incoming) \<noteq> Some (st_status node) \<or>
       (case nt_attempt_id incoming of
          Some attempt \<Rightarrow> attempt \<noteq> ucast (st_dispatch_retry_count node)
        | None \<Rightarrow> 0 < st_dispatch_retry_count node))"

definition full_snapshot_is_stale :: "NatsTaskUpdate \<Rightarrow> TaskStore \<Rightarrow> bool" where
  "full_snapshot_is_stale u s \<longleftrightarrow> \<not> nu_partial u \<and> (case map_of (ts_tasks s) (nu_task_id u) of
     None \<Rightarrow> False
   | Some task \<Rightarrow>
       controlled (t_status task) \<and> task_status_from_str (nu_status u) \<noteq> Some (t_status task) \<or>
       list_ex (stale_entry task) (nu_subtasks u))"

datatype PendingGraphVerb =
    Heartbeat
  | Commit "string option" "SubtaskUsage option" "StepUsage list option"
  | Fail string

definition graph_verb_for :: "SubtaskStatus \<Rightarrow> SubtaskStatus \<Rightarrow> PendingGraphVerb option" where
  "graph_verb_for status prev =
     (if status = prev then None
      else case status of
        SubtaskStatus.InProgress \<Rightarrow> Some Heartbeat
      | SubtaskStatus.Completed \<Rightarrow> Some (Commit None None None)
      | SubtaskStatus.Failed \<Rightarrow> Some (Fail ''worker_failed'')
      | Conflicted \<Rightarrow> Some (Fail ''conflicted'')
      | _ \<Rightarrow> None)"

text \<open>What the loop over the entries of an update carries.\<close>

record UpdateLoop =
  ul_subtasks :: "Subtask list"
  ul_assigned :: "(string \<times> datetime) list"
  ul_rejects :: "(string \<times> u64 \<times> u64) list"
  ul_fanout :: "(string \<times> u32 \<times> PendingGraphVerb) list"

text \<open>The two ways in which a worker's entry is skipped without a trace.\<close>

definition skipped_entry :: "NatsSubtaskUpdate \<Rightarrow> Subtask \<Rightarrow> bool" where
  "skipped_entry e subtask \<longleftrightarrow>
     settled_node (st_status subtask) \<and>
       (case nt_attempt_id e of Some attempt \<Rightarrow> attempt \<le> ucast (st_dispatch_retry_count subtask) | None \<Rightarrow> True) \<and>
       subtask_status_from_str (nt_status e) \<noteq> Some (st_status subtask) \<or>
     nt_attempt_id e = None \<and> 0 < st_dispatch_retry_count subtask"

definition accepted_node :: "bool \<Rightarrow> datetime \<Rightarrow> WorkerId \<Rightarrow> NatsSubtaskUpdate \<Rightarrow> Subtask \<Rightarrow> Subtask" where
  "accepted_node partial now fresh e subtask =
     (let st = subtask\<lparr>st_status := unwrap_or (subtask_status_from_str (nt_status e)) (st_status subtask),
            st_assigned_worker := (if nt_assigned_worker e \<noteq> None then nt_assigned_worker e else st_assigned_worker subtask),
            st_description := unwrap_or (nt_description e) (st_description subtask),
            st_depends_on := unwrap_or (nt_depends_on e) (st_depends_on subtask)\<rparr>;
          st = (if partial then st else apply_to (nt_execution e) st)
      in case nt_result e of
        None \<Rightarrow> st
      | Some text \<Rightarrow> st\<lparr>st_result := Some \<lparr>res_subtask_id = st_id st, res_worker_id = unwrap_or (st_assigned_worker st) fresh,
          res_modified_files = [], res_summary = text, res_success = (subtask_status_from_str (nt_status e) \<noteq> Some SubtaskStatus.Failed),
          res_completed_at = now, res_result = Some text, res_usage = nt_usage e, res_review = None\<rparr>\<rparr>)"

definition accepted_assigned :: "datetime \<Rightarrow> SubtaskStatus \<Rightarrow> Subtask \<Rightarrow> (string \<times> datetime) list \<Rightarrow> (string \<times> datetime) list" where
  "accepted_assigned now status subtask stamps =
     (if st_status subtask = Assigned \<and> status \<noteq> Assigned then AList.delete (st_id subtask) stamps
      else if status = Assigned \<and> st_status subtask \<noteq> Assigned then AList.update (st_id subtask) now stamps
      else stamps)"

definition accepted_verb :: "NatsSubtaskUpdate \<Rightarrow> SubtaskStatus \<Rightarrow> Subtask \<Rightarrow> (string \<times> u32 \<times> PendingGraphVerb) list" where
  "accepted_verb e status subtask = (case graph_verb_for status (st_status subtask) of
     None \<Rightarrow> []
   | Some verb \<Rightarrow>
       let verb = (case verb of
             Commit _ _ _ \<Rightarrow> Commit (if nt_result e \<noteq> None then nt_result e else map_option res_summary (st_result subtask))
               (if nt_usage e \<noteq> None then nt_usage e else Option.bind (st_result subtask) res_usage) (nt_steps e)
           | other \<Rightarrow> other)
       in [(st_id subtask, st_dispatch_retry_count subtask, verb)])"

definition new_node :: "bool \<Rightarrow> datetime \<Rightarrow> WorkerId \<Rightarrow> string \<Rightarrow> NatsSubtaskUpdate \<Rightarrow> Subtask" where
  "new_node partial now fresh task_id e =
     (let st = nats_subtask_to_domain now fresh task_id e
      in if partial then st\<lparr>st_agent_config_json := None, st_required_capabilities := [], st_file_constraints := [],
           st_expected_output := [], st_steps := []\<rparr> else st)"

definition accept_entry :: "bool \<Rightarrow> datetime \<Rightarrow> WorkerId \<Rightarrow> NatsSubtaskUpdate \<Rightarrow> Subtask \<Rightarrow> UpdateLoop \<Rightarrow> UpdateLoop" where
  "accept_entry partial now fresh e subtask ul =
     (let nodes = update_first (\<lambda>st. st_id st = nt_subtask_id e) (accepted_node partial now fresh e) (ul_subtasks ul)
      in case subtask_status_from_str (nt_status e) of
        None \<Rightarrow> ul\<lparr>ul_subtasks := nodes\<rparr>
      | Some status \<Rightarrow> ul\<lparr>ul_subtasks := nodes, ul_assigned := accepted_assigned now status subtask (ul_assigned ul),
          ul_fanout := ul_fanout ul @ accepted_verb e status subtask\<rparr>)"

definition apply_entry :: "bool \<Rightarrow> datetime \<Rightarrow> WorkerId \<Rightarrow> string \<Rightarrow> NatsSubtaskUpdate \<Rightarrow> UpdateLoop \<Rightarrow> UpdateLoop" where
  "apply_entry partial now fresh task_id e ul = (case find (\<lambda>st. st_id st = nt_subtask_id e) (ul_subtasks ul) of
     Some subtask \<Rightarrow>
       if partial \<and> skipped_entry e subtask then ul
       else case (if partial then nt_attempt_id e else None) of
         Some received \<Rightarrow>
           if received \<noteq> ucast (st_dispatch_retry_count subtask)
           then ul\<lparr>ul_rejects := ul_rejects ul @ [(st_id subtask, received, ucast (st_dispatch_retry_count subtask))]\<rparr>
           else accept_entry partial now fresh e subtask ul
       | None \<Rightarrow> accept_entry partial now fresh e subtask ul
   | None \<Rightarrow>
       let st = new_node partial now fresh task_id e
       in ul\<lparr>ul_subtasks := ul_subtasks ul @ [st],
            ul_assigned := (if st_status st = Assigned then AList.update (nt_subtask_id e) now (ul_assigned ul) else ul_assigned ul),
            ul_fanout := ul_fanout ul @ (case graph_verb_for (st_status st) Pending of
              None \<Rightarrow> [] | Some verb \<Rightarrow> [(st_id st, st_dispatch_retry_count st, verb)])\<rparr>)"

fun apply_entries ::
  "bool \<Rightarrow> datetime \<Rightarrow> (nat \<Rightarrow> WorkerId) \<Rightarrow> string \<Rightarrow> nat \<Rightarrow> NatsSubtaskUpdate list \<Rightarrow> UpdateLoop \<Rightarrow> UpdateLoop" where
  "apply_entries partial now fresh task_id n [] ul = ul"
| "apply_entries partial now fresh task_id n (e # rest) ul =
     apply_entries partial now fresh task_id (n + 1) rest (apply_entry partial now (fresh n) task_id e ul)"

definition derived_status :: "TaskStatus \<Rightarrow> Subtask list \<Rightarrow> TaskStatus" where
  "derived_status status nodes =
     (if status \<in> {TaskStatus.InProgress, Planning} \<and> nodes \<noteq> [] \<and>
         list_all (\<lambda>st. st_status st \<in> {SubtaskStatus.Completed, SubtaskStatus.Failed, Conflicted}) nodes
      then if list_all (\<lambda>st. st_status st = SubtaskStatus.Completed) nodes then TaskStatus.Completed else TaskStatus.Failed
      else status)"

definition fanout_verb :: "(string \<Rightarrow> string) \<Rightarrow> string \<Rightarrow> string \<times> u32 \<times> PendingGraphVerb \<Rightarrow> TaskStore \<Rightarrow> TaskStore" where
  "fanout_verb sha256_hex graph_id = (\<lambda>(node_id, attempt, verb) s.
     let env = ExecutionEnvelope_new sha256_hex graph_id node_id (show_word attempt)
     in case verb of
       Heartbeat \<Rightarrow> graph_verb (OnHeartbeat env) s
     | Commit outcome usage steps \<Rightarrow> graph_verb (OnCommit env outcome usage steps) s
     | Fail reason \<Rightarrow> graph_verb (OnFail env reason) s)"

text \<open>An update of a task that the store has.\<close>

definition apply_known ::
  "(string \<Rightarrow> string) \<Rightarrow> datetime \<Rightarrow> (nat \<Rightarrow> WorkerId) \<Rightarrow> NatsTaskUpdate \<Rightarrow> Task \<Rightarrow> TaskStore \<Rightarrow> TaskStore" where
  "apply_known sha256_hex now fresh u task s =
     (let parsed = (if nu_partial u then None else task_status_from_str (nu_status u));
          status = unwrap_or parsed (t_status task);
          ul = apply_entries (nu_partial u) now fresh (t_id task) 0 (nu_subtasks u)
            \<lparr>ul_subtasks = t_subtasks task, ul_assigned = ts_assigned_subtask_times s, ul_rejects = [], ul_fanout = []\<rparr>;
          task = task\<lparr>t_subtasks := ul_subtasks ul, t_updated_at := now,
            t_status := (if parsed \<noteq> None then derived_status status (ul_subtasks ul) else status)\<rparr>;
          s = insert_task (nu_task_id u) task (s\<lparr>ts_assigned_subtask_times := ul_assigned ul\<rparr>);
          s = persist_task task (fst (evict_completed_tasks s));
          s = s\<lparr>ts_stale_dispatch_dropped := ts_stale_dispatch_dropped s + of_nat (length (ul_rejects ul))\<rparr>;
          s = fold (\<lambda>_. record_event (TaskUpdated (t_id task) ''stale_result_rejected'')) (ul_rejects ul) s
      in fold (fanout_verb sha256_hex (t_id task)) (ul_fanout ul) s)"

definition apply_update_with_metadata ::
  "(string \<Rightarrow> string) \<Rightarrow> datetime \<Rightarrow> (nat \<Rightarrow> WorkerId) \<Rightarrow> NatsTaskUpdate \<Rightarrow> string option \<Rightarrow> string option \<Rightarrow> TaskStore \<Rightarrow> TaskStore" where
  "apply_update_with_metadata sha256_hex now fresh u description project_id s =
     (if full_snapshot_is_stale u s then s
      else case map_of (ts_tasks s) (nu_task_id u) of
        Some task \<Rightarrow> apply_known sha256_hex now fresh u task s
      | None \<Rightarrow>
          if nu_partial u then s
          else case (description, project_id) of
            (Some description, Some project_id) \<Rightarrow>
              if description = [] then s
              else
                let task = \<lparr>t_id = nu_task_id u, t_description = description, t_project_id = project_id,
                      t_status = unwrap_or (task_status_from_str (nu_status u)) TaskStatus.Created,
                      t_subtasks = map (\<lambda>(n, e). nats_subtask_to_domain now (fresh n) (nu_task_id u) e) (enumerate 0 (nu_subtasks u)),
                      t_created_at = now, t_updated_at = now\<rparr>;
                    s = record_event_with_subject (TaskCreated (t_id task) (t_description task)) (''task.'' @ nu_task_id u) s;
                    s = s\<lparr>ts_assigned_subtask_times := fold (\<lambda>st stamps. if st_status st = Assigned then AList.update (st_id st) now stamps else stamps)
                          (t_subtasks task) (ts_assigned_subtask_times s)\<rparr>
                in apply_known sha256_hex now fresh u task (insert_task (nu_task_id u) task s)
          | _ \<Rightarrow> s)"

definition apply_update ::
  "(string \<Rightarrow> string) \<Rightarrow> datetime \<Rightarrow> (nat \<Rightarrow> WorkerId) \<Rightarrow> NatsTaskUpdate \<Rightarrow> TaskStore \<Rightarrow> TaskStore" where
  "apply_update sha256_hex now fresh u s = apply_update_with_metadata sha256_hex now fresh u None None s"

section \<open>Heartbeats and dispatch\<close>

definition update_last_heartbeat :: "datetime \<Rightarrow> TaskStore \<Rightarrow> TaskStore" where
  "update_last_heartbeat now s = s\<lparr>ts_last_heartbeat := Some now\<rparr>"

definition update_worker_heartbeat :: "datetime \<Rightarrow> string \<Rightarrow> u64 option \<Rightarrow> TaskStore \<Rightarrow> TaskStore" where
  "update_worker_heartbeat now worker_id dropped s =
     (let s = s\<lparr>ts_worker_heartbeats := AList.update worker_id now (ts_worker_heartbeats s)\<rparr>
      in case dropped of
        None \<Rightarrow> s
      | Some n \<Rightarrow>
          let slot = unwrap_or (map_of (ts_worker_stale_dispatch_dropped s) worker_id) 0
          in s\<lparr>ts_worker_stale_dispatch_dropped := AList.update worker_id (if slot < n then n else slot) (ts_worker_stale_dispatch_dropped s)\<rparr>)"

text \<open>A \<open>timeout\<close> is a \<open>std::time::Duration\<close> in nanoseconds.\<close>

definition mark_stale_workers :: "datetime \<Rightarrow> nat \<Rightarrow> TaskStore \<Rightarrow> TaskStore \<times> string list" where
  "mark_stale_workers now timeout s =
     (let stale = map fst (filter (\<lambda>(_, seen). int timeout < max 0 (now - seen)) (ts_worker_heartbeats s))
      in (s\<lparr>ts_worker_heartbeats := fold AList.delete stale (ts_worker_heartbeats s)\<rparr>, stale))"

definition revert_swept_subtask :: "datetime \<Rightarrow> string \<Rightarrow> string \<Rightarrow> bool \<Rightarrow> TaskStore \<Rightarrow> TaskStore \<times> bool" where
  "revert_swept_subtask now task_id subtask_id rearmed s = (case map_of (ts_tasks s) task_id of
     None \<Rightarrow> (s, False)
   | Some task \<Rightarrow>
       (case find (\<lambda>st. st_id st = subtask_id) (t_subtasks task) of
          None \<Rightarrow> (s, False)
        | Some st \<Rightarrow>
            if st_status st \<notin> {SubtaskStatus.InProgress, Assigned} then (s, False)
            else
              let task = task\<lparr>t_subtasks := update_first (\<lambda>st. st_id st = subtask_id)
                    (\<lambda>st. st\<lparr>st_status := (if rearmed then Pending else SubtaskStatus.Failed), st_assigned_worker := None\<rparr>) (t_subtasks task),
                    t_updated_at := now\<rparr>;
                  s = s\<lparr>ts_assigned_subtask_times := AList.delete subtask_id (ts_assigned_subtask_times s)\<rparr>
              in (persist_task task (insert_task task_id task s), True)))"

definition fail_subtasks :: "datetime \<Rightarrow> string \<Rightarrow> string list \<Rightarrow> TaskStore \<Rightarrow> TaskStore \<times> nat" where
  "fail_subtasks now task_id subtask_ids s = (case map_of (ts_tasks s) task_id of
     None \<Rightarrow> (s, 0)
   | Some task \<Rightarrow>
       let moves = (\<lambda>st. st_id st \<in> set subtask_ids \<and> unfinished (st_status st));
           moved = length (filter moves (t_subtasks task))
       in if moved = 0 then (s, 0)
          else
            let stamps = drop_assigned (filter moves (t_subtasks task)) (ts_assigned_subtask_times s);
                task = task\<lparr>t_subtasks := map (\<lambda>st. if moves st then st\<lparr>st_status := SubtaskStatus.Failed, st_assigned_worker := None\<rparr> else st)
                  (t_subtasks task), t_updated_at := now\<rparr>
            in (persist_task task (insert_task task_id task (s\<lparr>ts_assigned_subtask_times := stamps\<rparr>)), moved))"

definition get_ready_subtasks :: "string \<Rightarrow> TaskStore \<Rightarrow> Subtask list" where
  "get_ready_subtasks task_id s = (case map_of (ts_tasks s) task_id of
     None \<Rightarrow> []
   | Some task \<Rightarrow>
       if t_status task \<noteq> TaskStatus.InProgress \<or> task_id \<in> ts_durability_faults s then []
       else
         let completed_ids = map st_id (filter (\<lambda>st. st_status st = SubtaskStatus.Completed) (t_subtasks task))
         in filter (\<lambda>st. list_all (\<lambda>dep. dep \<in> set completed_ids) (st_depends_on st))
              (filter (\<lambda>st. st_status st = Pending) (t_subtasks task)))"

definition update_subtask_status ::
  "(string \<Rightarrow> string) \<Rightarrow> datetime \<Rightarrow> string \<Rightarrow> string \<Rightarrow> SubtaskStatus \<Rightarrow> TaskStore \<Rightarrow> TaskStore" where
  "update_subtask_status sha256_hex now task_id subtask_id new_status s = (case map_of (ts_tasks s) task_id of
     None \<Rightarrow> s
   | Some task \<Rightarrow>
       (case find (\<lambda>st. st_id st = subtask_id) (t_subtasks task) of
          None \<Rightarrow> s
        | Some st \<Rightarrow>
            let stamps = (if new_status = Assigned then AList.update subtask_id now (ts_assigned_subtask_times s)
                  else if st_status st = Assigned then AList.delete subtask_id (ts_assigned_subtask_times s)
                  else ts_assigned_subtask_times s);
                task = task\<lparr>t_subtasks := update_first (\<lambda>st. st_id st = subtask_id) (\<lambda>st. st\<lparr>st_status := new_status\<rparr>) (t_subtasks task),
                  t_updated_at := now\<rparr>;
                s = insert_task task_id task (s\<lparr>ts_assigned_subtask_times := stamps\<rparr>);
                s = (if new_status = Assigned \<and> st_status st \<noteq> Assigned
                  then graph_verb (OnSchedule (ExecutionEnvelope_new sha256_hex task_id subtask_id (show_word (st_dispatch_retry_count st))) None) s
                  else s)
            in persist_task task s))"

definition increment_dispatch_retry :: "datetime \<Rightarrow> string \<Rightarrow> string \<Rightarrow> TaskStore \<Rightarrow> TaskStore \<times> u32 option" where
  "increment_dispatch_retry now task_id subtask_id s = (case map_of (ts_tasks s) task_id of
     None \<Rightarrow> (s, None)
   | Some task \<Rightarrow>
       (case find (\<lambda>st. st_id st = subtask_id) (t_subtasks task) of
          None \<Rightarrow> (s, None)
        | Some st \<Rightarrow>
            let count = st_dispatch_retry_count st + 1;
                task = task\<lparr>t_subtasks := update_first (\<lambda>st. st_id st = subtask_id) (\<lambda>st. st\<lparr>st_dispatch_retry_count := count\<rparr>) (t_subtasks task),
                  t_updated_at := now\<rparr>
            in (persist_task task (insert_task task_id task s), Some count)))"

definition set_task_status :: "datetime \<Rightarrow> string \<Rightarrow> TaskStatus \<Rightarrow> TaskStore \<Rightarrow> TaskStore \<times> TaskStatus option" where
  "set_task_status now task_id new_status s = (case map_of (ts_tasks s) task_id of
     None \<Rightarrow> (s, None)
   | Some task \<Rightarrow>
       let updated = task\<lparr>t_status := new_status, t_updated_at := now\<rparr>
       in (persist_task updated (insert_task task_id updated s), Some (t_status task)))"

text \<open>\<open>chrono::Duration::num_milliseconds\<close>, and the cast of \<open>Duration::as_millis\<close> to \<open>i64\<close>.\<close>

definition num_milliseconds :: "int \<Rightarrow> int" where
  "num_milliseconds d = (if d < 0 then - ((- d) div 1000000) else d div 1000000)"

definition millis_as_i64 :: "nat \<Rightarrow> int" where
  "millis_as_i64 timeout = sint (of_nat (timeout div 1000000) :: u64)"

definition mark_stale_tasks_failed :: "datetime \<Rightarrow> nat \<Rightarrow> TaskStore \<Rightarrow> TaskStore \<times> string list" where
  "mark_stale_tasks_failed now timeout s = (case ts_last_heartbeat s of
     None \<Rightarrow> (s, [])
   | Some last_hb \<Rightarrow>
       if num_milliseconds (now - last_hb) < millis_as_i64 timeout then (s, [])
       else
         let running = (\<lambda>t. t_status t \<in> {TaskStatus.InProgress, Planning});
             failed = (\<lambda>t. t\<lparr>t_status := TaskStatus.Failed, t_updated_at := now\<rparr>);
             hit = filter (\<lambda>(_, t). running t) (ts_tasks s);
             s = s\<lparr>ts_tasks := map (\<lambda>(i, t). (i, if running t then failed t else t)) (ts_tasks s)\<rparr>
         in (fold (\<lambda>(_, t). persist_task (failed t)) hit s, map fst hit))"

end
