(* ===== verification/Task_Durability.thy ===== *)
theory Task_Durability
  imports Task_Store
begin

text \<open>
  What the task table keeps: the invariant of the store under every operation, recovery from the durable copy after a
  restart, and eviction.
\<close>

section \<open>The durable copy\<close>

text \<open>The last write for a task, over what the backend held before.\<close>

definition logged :: "(string \<Rightarrow> Task option) \<Rightarrow> Task list \<Rightarrow> string \<Rightarrow> Task option" where
  "logged base writes i = (case find (\<lambda>t. t_id t = i) (rev writes) of None \<Rightarrow> base i | Some t \<Rightarrow> Some t)"

lemma logged_append: "logged base (writes @ [t]) i = (if t_id t = i then Some t else logged base writes i)"
  by (simp add: logged_def)

text \<open>
  The invariant of the store: tasks are stored under their ids, the inline log is bounded, and every task is the last
  one written to the backend, except those in \<open>D\<close>, whose write is still to come.
\<close>

definition mirrors :: "(string \<Rightarrow> Task option) \<Rightarrow> Task set \<Rightarrow> Task list \<Rightarrow> string \<Rightarrow> Task \<Rightarrow> bool" where
  "mirrors base D writes i t \<longleftrightarrow> (if i \<in> t_id ` D then t \<in> D else logged base writes i = Some t)"

definition store_inv :: "(string \<Rightarrow> Task option) \<Rightarrow> Task set \<Rightarrow> TaskStore \<Rightarrow> bool" where
  "store_inv base D s \<longleftrightarrow> task_keyed (ts_tasks s) \<and> length (ts_events s) \<le> INLINE_EVENTS_MAX \<and>
     (case ts_task_backend s of
        None \<Rightarrow> True
      | Some writes \<Rightarrow> \<forall>i t. map_of (ts_tasks s) i = Some t \<longrightarrow> mirrors base D writes i t)"

lemma store_inv_keyed: "store_inv base D s \<Longrightarrow> map_of (ts_tasks s) i = Some t \<Longrightarrow> t_id t = i"
  by (simp add: store_inv_def task_keyed_def)

lemma store_inv_same:
  "ts_tasks s' = ts_tasks s \<Longrightarrow> ts_task_backend s' = ts_task_backend s \<Longrightarrow> ts_events s' = ts_events s \<Longrightarrow>
     store_inv base D s' = store_inv base D s"
  by (cases "ts_task_backend s") (simp_all add: store_inv_def)

named_theorems store_step_simps "how the small steps of the store act on its fields"

lemma graph_verb_fields [store_step_simps]:
  "ts_tasks (graph_verb c s) = ts_tasks s" "ts_task_backend (graph_verb c s) = ts_task_backend s"
  "ts_events (graph_verb c s) = ts_events s" "ts_assigned_subtask_times (graph_verb c s) = ts_assigned_subtask_times s"
  by (simp_all add: graph_verb_def split: option.splits)

lemma record_event_fields [store_step_simps]:
  "ts_tasks (record_event_with_subject e subj s) = ts_tasks s" "ts_task_backend (record_event_with_subject e subj s) = ts_task_backend s"
  "ts_tasks (record_event e s) = ts_tasks s" "ts_task_backend (record_event e s) = ts_task_backend s"
  by (simp_all add: record_event_with_subject_def record_event_def Let_def)

lemma persist_task_fields [store_step_simps]:
  "ts_tasks (persist_task t s) = ts_tasks s" "ts_events (persist_task t s) = ts_events s"
  "ts_task_backend (persist_task t s) = map_option (\<lambda>writes. writes @ [t]) (ts_task_backend s)"
  by (simp_all add: persist_task_def store_step_simps split: option.splits)

lemma insert_task_fields [store_step_simps]:
  "ts_tasks (insert_task i t s) = AList.update i t (ts_tasks s)" "ts_events (insert_task i t s) = ts_events s"
  "ts_task_backend (insert_task i t s) = ts_task_backend s" "ts_last_heartbeat (insert_task i t s) = ts_last_heartbeat s"
  by (simp_all add: insert_task_def)

lemma graph_verb_inv [simp]: "store_inv base D (graph_verb c s) = store_inv base D s"
  by (rule store_inv_same) (simp_all add: store_step_simps)

lemma stamps_inv [simp]: "store_inv base D (s\<lparr>ts_assigned_subtask_times := x\<rparr>) = store_inv base D s"
  by (rule store_inv_same) simp_all

lemma record_event_with_subject_inv: "store_inv base D s \<Longrightarrow> store_inv base D (record_event_with_subject e subj s)"
  by (cases "ts_task_backend s") (simp_all add: store_inv_def store_step_simps, simp_all add: record_event_with_subject_def Let_def INLINE_EVENTS_MAX_def)

lemma record_event_inv: "store_inv base D s \<Longrightarrow> store_inv base D (record_event e s)"
  by (simp add: record_event_def record_event_with_subject_inv)

lemma fold_inv: "(\<And>x s. x \<in> set xs \<Longrightarrow> I s \<Longrightarrow> I (f x s)) \<Longrightarrow> I s \<Longrightarrow> I (fold f xs s)"
  by (induction xs arbitrary: s) auto

lemma insert_task_inv:
  assumes "store_inv base D s" "t_id t = i" "\<forall>d \<in> D. t_id d = i"
  shows "store_inv base {t} (insert_task i t s)"
proof -
  have "logged base writes j = Some u" if "ts_task_backend s = Some writes" "map_of (ts_tasks s) j = Some u" "j \<noteq> i" for writes j u
  proof -
    have "j \<notin> t_id ` D" using that(3) assms(3) by auto
    with assms(1) that(1,2) show ?thesis by (auto simp: store_inv_def mirrors_def)
  qed
  with assms(1,2) show ?thesis
    by (auto simp: store_inv_def store_step_simps task_keyed_update update_conv' mirrors_def split: option.splits)
qed

lemma persist_task_inv:
  assumes "store_inv base D s" "t \<in> D" "inj_on t_id D"
  shows "store_inv base (D - {t}) (persist_task t s)"
proof (cases "ts_task_backend s")
  case (Some writes)
  have "mirrors base (D - {t}) (writes @ [t]) i u"
    if u: "map_of (ts_tasks s) i = Some u" for i u
  proof -
    have "if i \<in> t_id ` D then u \<in> D else logged base writes i = Some u" using assms(1) Some u by (simp add: store_inv_def mirrors_def)
    moreover have "u = t \<and> i \<notin> t_id ` (D - {t})" if "u \<in> D" "t_id t = i"
      using that store_inv_keyed[OF assms(1) u] assms(2,3) unfolding inj_on_def by blast
    ultimately show ?thesis using store_inv_keyed[OF assms(1) u] assms(2)
      by (cases "t_id t = i"; cases "i \<in> t_id ` D") (simp_all add: logged_append mirrors_def, blast+)
  qed
  with assms Some show ?thesis by (simp add: store_inv_def store_step_simps)
qed (use assms in \<open>simp add: store_inv_def store_step_simps\<close>)

lemma persist_last_inv: "store_inv base {t} s \<Longrightarrow> store_inv base {} (persist_task t s)"
  using persist_task_inv[of base "{t}" s t] by simp

lemma put_task_inv:
  assumes "store_inv base {} s" "t_id t = i"
  shows "store_inv base {} (persist_task t (insert_task i t s))"
  using persist_last_inv[OF insert_task_inv[OF assms]] by simp

lemma store_inv_remove: "store_inv base D s \<Longrightarrow> store_inv base D (s\<lparr>ts_assigned_subtask_times := x, ts_tasks := AList.delete i (ts_tasks s)\<rparr>)"
  by (auto simp: store_inv_def task_keyed_def distinct_delete delete_conv' split: option.splits)

lemma evict_inv: "store_inv base D s \<Longrightarrow> store_inv base D (fst (evict_completed_tasks s))"
proof -
  have "store_inv base D s \<Longrightarrow> store_inv base D (evict_loop xs s)" for xs s
    by (induction xs s rule: evict_loop.induct) (simp_all add: Let_def store_inv_remove)
  then show "store_inv base D s \<Longrightarrow> store_inv base D (fst (evict_completed_tasks s))"
    by (simp add: evict_completed_tasks_def Let_def)
qed

section \<open>Every operation keeps it\<close>

lemma submit_inv:
  assumes "store_inv base {} s"
  shows "store_inv base {} (fst (submit_task now i st w d p s))"
    "store_inv base {} (fst (submit_task_pending_with_id now i d p s))"
  using assms by (simp_all add: submit_task_def submit_task_pending_with_id_def Let_def persist_new_task_def put_task_inv record_event_with_subject_inv)

lemma control_inv:
  assumes "store_inv base {} s"
  shows "store_inv base {} (fst (pause_task now i s))" "store_inv base {} (fst (resume_task now i s))"
    "store_inv base {} (fst (cancel_task now i s))" "store_inv base {} (fst (set_task_status now i status s))"
  using assms store_inv_keyed[OF assms, of i]
  by (auto simp: pause_task_def resume_task_def cancel_task_def set_task_status_def Let_def
      intro!: put_task_inv split: option.splits TaskStatus.splits)

lemma node_inv:
  assumes "store_inv base {} s"
  shows "store_inv base {} (fst (revert_swept_subtask now i n b s))" "store_inv base {} (fst (fail_subtasks now i ns s))"
    "store_inv base {} (fst (increment_dispatch_retry now i n s))"
  using assms store_inv_keyed[OF assms, of i]
  by (auto simp: revert_swept_subtask_def fail_subtasks_def increment_dispatch_retry_def Let_def
      intro!: put_task_inv split: option.splits)

lemma update_subtask_status_inv:
  assumes "store_inv base {} s"
  shows "store_inv base {} (update_subtask_status sha now i n status s)"
proof -
  have put: "store_inv base {} (persist_task t (graph_verb c (insert_task i t (s\<lparr>ts_assigned_subtask_times := x\<rparr>))))"
    "store_inv base {} (persist_task t (insert_task i t (s\<lparr>ts_assigned_subtask_times := x\<rparr>)))" if "t_id t = i" for t c x
    using persist_last_inv[of base t] insert_task_inv[of base "{}" _ t] assms that by simp_all
  show ?thesis using store_inv_keyed[OF assms, of i] assms
    by (auto simp: update_subtask_status_def Let_def intro!: put put_task_inv split: option.splits)
qed

lemma retry_subtask_inv:
  assumes "store_inv base {} s"
  shows "store_inv base {} (fst (retry_subtask now i n a s))"
proof -
  have put: "store_inv base {} (persist_task t (record_event e (record_event e' (insert_task i t (s\<lparr>ts_assigned_subtask_times := x\<rparr>)))))"
    if "t_id t = i" for t e e' x
    using persist_last_inv[of base t] insert_task_inv[of base "{}" _ t] assms that by (simp add: record_event_inv)
  show ?thesis using store_inv_keyed[OF assms, of i] assms
    by (auto simp: retry_subtask_def Let_def intro!: put split: option.splits)
qed

lemma apply_projection_inv:
  assumes "store_inv base D s" "t_id task = i" "\<forall>d \<in> D. t_id d = i"
  shows "store_inv base {} (fst (apply_projection now fresh i status parsed sts task s))"
proof -
  have put: "store_inv base {} (persist_task t (fold record_event es (insert_task i t s)))" if "t_id t = i" for t es
    using persist_last_inv[of base t] fold_inv[of es "store_inv base {t}" record_event]
      insert_task_inv[OF assms(1) that assms(3)] by (simp add: record_event_inv)
  obtain nodes transitions new_ids where "upsert_subtasks sts (t_subtasks task) = (nodes, transitions, new_ids)" by (rule prod_cases3)
  then show ?thesis unfolding apply_projection_def Let_def by (simp only: prod.case fst_conv) (rule put, simp add: assms(2))
qed

lemma update_task_inv:
  assumes "store_inv base {} s"
  shows "store_inv base {} (fst (update_task now fresh i status sts d p s))"
proof -
  have new: "store_inv base {} (fst (apply_projection now fresh i status parsed sts t (insert_task i t (record_event_with_subject e subj s))))"
    if "t_id t = i" for t e subj parsed
    using that by (intro apply_projection_inv[OF insert_task_inv[OF record_event_with_subject_inv[OF assms]]]) simp_all
  show ?thesis using store_inv_keyed[OF assms, of i] assms
    by (auto simp: update_task_def Let_def intro!: new apply_projection_inv[where D = "{}"] split: option.splits sum.splits)
qed

lemma fanout_verb_inv [simp]: "store_inv base D (fanout_verb sha g x s) = store_inv base D s"
  by (cases x; cases "snd (snd x)") (auto simp: fanout_verb_def Let_def)

lemma apply_known_inv:
  assumes "store_inv base D s" "t_id task = nu_task_id u" "\<forall>d \<in> D. t_id d = nu_task_id u"
  shows "store_inv base {} (apply_known sha now fresh u task s)"
proof -
  have put: "store_inv base {} (fold (fanout_verb sha g) vs (fold (\<lambda>_. record_event e) rs
      (persist_task t (fst (evict_completed_tasks (insert_task (nu_task_id u) t (s\<lparr>ts_assigned_subtask_times := x\<rparr>))))
        \<lparr>ts_stale_dispatch_dropped := n\<rparr>)))" if "t_id t = nu_task_id u" for t x e rs g vs n
  proof -
    have "store_inv base {} (persist_task t (fst (evict_completed_tasks (insert_task (nu_task_id u) t (s\<lparr>ts_assigned_subtask_times := x\<rparr>)))))"
      by (rule persist_last_inv, rule evict_inv, rule insert_task_inv[where D = D]) (simp_all add: assms that)
    then have "store_inv base {} (persist_task t (fst (evict_completed_tasks (insert_task (nu_task_id u) t (s\<lparr>ts_assigned_subtask_times := x\<rparr>))))
        \<lparr>ts_stale_dispatch_dropped := n\<rparr>)" by (rule store_inv_same[THEN iffD2, rotated 3]) simp_all
    then have "store_inv base {} (fold (\<lambda>_. record_event e) rs (persist_task t (fst (evict_completed_tasks (insert_task (nu_task_id u) t
        (s\<lparr>ts_assigned_subtask_times := x\<rparr>))))\<lparr>ts_stale_dispatch_dropped := n\<rparr>))" by (rule fold_inv[rotated]) (rule record_event_inv)
    then show ?thesis by (rule fold_inv[rotated]) (simp only: fanout_verb_inv)
  qed
  show ?thesis unfolding apply_known_def Let_def by (rule put) (simp add: assms(2))
qed

lemma apply_update_inv:
  assumes "store_inv base {} s"
  shows "store_inv base {} (apply_update_with_metadata sha now fresh u d p s)"
proof -
  have new: "store_inv base {} (apply_known sha now fresh u t (insert_task (nu_task_id u) t
      (record_event_with_subject e subj s\<lparr>ts_assigned_subtask_times := x\<rparr>)))" if "t_id t = nu_task_id u" for t e subj x
    using that assms by (intro apply_known_inv[OF insert_task_inv[where D = "{}"]]) (simp_all add: record_event_with_subject_inv)
  show ?thesis using store_inv_keyed[OF assms, of "nu_task_id u"] assms
    by (auto simp: apply_update_with_metadata_def Let_def intro!: new apply_known_inv[where D = "{}"] split: option.splits)
qed

lemma persist_all_inv:
  assumes "store_inv base D s" "set (map f xs) = D" "distinct (map (t_id \<circ> f) xs)"
  shows "store_inv base {} (fold (\<lambda>x. persist_task (f x)) xs s)"
  using assms
proof (induction xs arbitrary: D s)
  case (Cons x xs)
  have "inj_on t_id D"
  proof (rule inj_onI)
    fix a b
    assume "a \<in> D" "b \<in> D" "t_id a = t_id b"
    moreover from this obtain i j where "i < length (x # xs)" "j < length (x # xs)" "a = f ((x # xs) ! i)" "b = f ((x # xs) ! j)"
      using Cons.prems(2) by (auto simp: in_set_conv_nth simp del: length_Cons nth_Cons_Suc list.set list.map)
    ultimately show "a = b" using Cons.prems(3) by (metis comp_apply length_map nth_eq_iff_index_eq nth_map)
  qed
  moreover have "f x \<in> D" using Cons.prems(2) by auto
  ultimately have "store_inv base (D - {f x}) (persist_task (f x) s)" using persist_task_inv[OF Cons.prems(1)] by blast
  moreover have "f x \<notin> f ` set xs" using Cons.prems(3) by (auto simp: image_iff)
  then have "set (map f xs) = D - {f x}" using Cons.prems(2) by (simp add: Diff_insert_absorb flip: Cons.prems(2))
  ultimately show ?case using Cons.IH Cons.prems(3) by simp
qed simp

lemma mark_stale_tasks_failed_inv:
  assumes "store_inv base {} s"
  shows "store_inv base {} (fst (mark_stale_tasks_failed now timeout s))"
proof -
  define running where "running = (\<lambda>t :: Task. t_status t \<in> {TaskStatus.InProgress, Planning})"
  define failed where "failed = (\<lambda>t :: Task. t\<lparr>t_status := TaskStatus.Failed, t_updated_at := now\<rparr>)"
  define hit where "hit = filter (\<lambda>(_, t). running t) (ts_tasks s)"
  define s' where "s' = s\<lparr>ts_tasks := map (\<lambda>(i, t). (i, if running t then failed t else t)) (ts_tasks s)\<rparr>"
  have id: "t_id (failed t) = t_id t" for t by (simp add: failed_def)
  have keyed: "task_keyed (ts_tasks s)" using assms by (simp add: store_inv_def)
  have map_of: "map_of (ts_tasks s') i = map_option (\<lambda>t. if running t then failed t else t) (map_of (ts_tasks s) i)" for i
    by (simp add: s'_def map_of_map)
  have keys: "map fst (ts_tasks s') = map fst (ts_tasks s)" by (auto simp: s'_def)
  have hit_in: "t_id t = i \<and> map_of (ts_tasks s) i = Some t" if "(i, t) \<in> set hit" for i t
    using that keyed by (auto simp: hit_def task_keyed_def)
  have "task_keyed (ts_tasks s')"
    unfolding task_keyed_def keys map_of using keyed id by (auto simp: task_keyed_def)
  moreover have "mirrors base (set (map (\<lambda>(_, t). failed t) hit)) writes i u"
    if w: "ts_task_backend s = Some writes" and u: "map_of (ts_tasks s') i = Some u" for writes i u
  proof -
    obtain t where t: "map_of (ts_tasks s) i = Some t" "u = (if running t then failed t else t)" using u by (auto simp: map_of)
    have log: "logged base writes i = Some t" using assms w t(1) by (auto simp: store_inv_def mirrors_def)
    show ?thesis
    proof (cases "running t")
      case True
      then have "(i, t) \<in> set hit" using t(1) by (auto simp: hit_def dest: map_of_SomeD)
      then have "u \<in> set (map (\<lambda>(_, t). failed t) hit)" using t(2) True by force
      moreover have "t_id u = i" using t True id keyed by (simp add: task_keyed_def)
      ultimately show ?thesis by (auto simp: mirrors_def)
    next
      case False
      have "i \<notin> t_id ` set (map (\<lambda>(_, t). failed t) hit)"
      proof
        assume "i \<in> t_id ` set (map (\<lambda>(_, t). failed t) hit)"
        then obtain j t' where "(j, t') \<in> set hit" "t_id (failed t') = i" by auto
        moreover from this have "t' = t" using hit_in t(1) id by auto
        ultimately show False using False by (simp add: hit_def)
      qed
      with False t(2) log show ?thesis by (simp add: mirrors_def)
    qed
  qed
  ultimately have "store_inv base (set (map (\<lambda>(_, t). failed t) hit)) s'"
    using assms by (auto simp: store_inv_def s'_def split: option.splits)
  moreover have same: "map (t_id \<circ> (\<lambda>(_, t). failed t)) hit = map fst hit"
    using hit_in id by (auto simp: map_eq_conv)
  have "distinct (map (t_id \<circ> (\<lambda>(_, t). failed t)) hit)"
    unfolding same using keyed by (simp add: hit_def task_keyed_def distinct_map_filter)
  ultimately have fin: "store_inv base {} (fold (\<lambda>x. persist_task ((\<lambda>(_, t). failed t) x)) hit s')"
    by (rule persist_all_inv[OF _ refl])
  have eq: "fold (\<lambda>x. persist_task ((\<lambda>(_, t). failed t) x)) hit s' = fold (\<lambda>(_, t). persist_task (failed t)) hit s'"
    by (rule fold_cong) auto
  from fin have "store_inv base {} (fold (\<lambda>(_, t). persist_task (failed t)) hit s')" unfolding eq .
  then show ?thesis using assms unfolding mark_stale_tasks_failed_def Let_def s'_def hit_def failed_def running_def
    by (auto split: option.splits)
qed

section \<open>Reachable stores\<close>

inductive store_step :: "TaskStore \<Rightarrow> TaskStore \<Rightarrow> bool" where
  submit: "store_step s (fst (submit_task now i n w d p s))"
| submit_pending: "store_step s (fst (submit_task_pending_with_id now i d p s))"
| pause: "store_step s (fst (pause_task now i s))"
| resume: "store_step s (fst (resume_task now i s))"
| cancel: "store_step s (fst (cancel_task now i s))"
| project: "store_step s (fst (update_task now fresh i status sts d p s))"
| retry: "store_step s (fst (retry_subtask now i n a s))"
| apply_bus: "store_step s (apply_update_with_metadata sha now fresh u md mp s)"
| event: "store_step s (record_event e s)"
| heartbeat: "store_step s (update_last_heartbeat now s)"
| worker_heartbeat: "store_step s (update_worker_heartbeat now w n s)"
| stale_workers: "store_step s (fst (mark_stale_workers now timeout s))"
| sweep: "store_step s (fst (revert_swept_subtask now i n b s))"
| fail_nodes: "store_step s (fst (fail_subtasks now i ns s))"
| node_status: "store_step s (update_subtask_status sha now i n st_new s)"
| increment: "store_step s (fst (increment_dispatch_retry now i n s))"
| set_status: "store_step s (fst (set_task_status now i t_new s))"
| stale_tasks: "store_step s (fst (mark_stale_tasks_failed now timeout s))"
| evict: "store_step s (fst (evict_completed_tasks s))"
| dedup: "store_step s (fst (check_and_record_message_id now mid s))"

lemma store_step_inv:
  assumes "store_step s s'" "store_inv base {} s"
  shows "store_inv base {} s'"
  using assms
proof (induction rule: store_step.induct)
  case (worker_heartbeat s now w n)
  then show ?case by (subst store_inv_same[of _ s]) (simp_all add: update_worker_heartbeat_def Let_def split: option.splits)
next
  case (dedup s now mid)
  then show ?case
    by (subst store_inv_same[of _ s])
      (simp_all add: check_and_record_message_id_def purge_expired_dedup_entries_def Let_def split: option.splits)
next
  case (heartbeat s now)
  then show ?case by (subst store_inv_same[of _ s]) (simp_all add: update_last_heartbeat_def)
next
  case (stale_workers s now timeout)
  then show ?case by (subst store_inv_same[of _ s]) (simp_all add: mark_stale_workers_def Let_def)
qed (simp_all only: submit_inv control_inv update_task_inv retry_subtask_inv apply_update_inv record_event_inv node_inv
    update_subtask_status_inv mark_stale_tasks_failed_inv evict_inv)

lemma store_steps_inv: "store_step\<^sup>*\<^sup>* s s' \<Longrightarrow> store_inv base {} s \<Longrightarrow> store_inv base {} s'"
  by (induction rule: rtranclp_induct) (auto intro: store_step_inv)

section \<open>Recovery\<close>

primrec write_all :: "(Task \<Rightarrow> 's \<Rightarrow> 's \<times> (EngineError, Task) result) \<Rightarrow> Task list \<Rightarrow> 's \<Rightarrow> 's" where
  "write_all upsert [] b = b"
| "write_all upsert (t # ts) b = write_all upsert ts (fst (upsert t b))"

lemma write_all_snoc: "write_all upsert (ts @ [t]) b = fst (upsert t (write_all upsert ts b))"
  by (induction ts arbitrary: b) auto

context task_backend
begin

lemma write_all_logged:
  assumes "up b"
  shows "up (write_all upsert ws b) \<and> (\<forall>i. rel_option same_task (stored (write_all upsert ws b) i) (logged (stored b) ws i))"
proof (induction ws rule: rev_induct)
  case Nil
  then show ?case using assms by (simp add: logged_def option.rel_refl)
next
  case (snoc t ws)
  then obtain b' t' where "upsert t (write_all upsert ws b) = (b', Inr t)" "up b'" "same_task t' t"
    "stored b' = (stored (write_all upsert ws b))(t_id t \<mapsto> t')" using upsert_ok by blast
  with snoc show ?case by (simp add: write_all_snoc logged_append)
qed

end

lemma load_tasks:
  assumes "ts_task_backend s = Some ws" "distinct (map t_id ts)"
  shows "map_of (ts_tasks (fst (load_from_backend (Inr ts) s))) i =
      (case find (\<lambda>t. t_id t = i) ts of None \<Rightarrow> map_of (ts_tasks s) i | Some t \<Rightarrow> Some t)"
    "snd (load_from_backend (Inr ts) s) = Inr (length ts)"
proof -
  have "map_of (ts_tasks (fold (\<lambda>t. insert_task (t_id t) t) ts s)) i =
      (case find (\<lambda>t. t_id t = i) ts of None \<Rightarrow> map_of (ts_tasks s) i | Some t \<Rightarrow> Some t)"
    using assms(2)
  proof (induction ts arbitrary: s)
    case (Cons t ts)
    have "find (\<lambda>u. t_id u = t_id t) ts = None" using Cons.prems unfolding find_None_iff by (metis distinct.simps(2) image_eqI list.map(2) set_map)
    with Cons show ?case by (auto simp: store_step_simps update_conv' split: option.splits)
  qed simp
  then show "map_of (ts_tasks (fst (load_from_backend (Inr ts) s))) i =
      (case find (\<lambda>t. t_id t = i) ts of None \<Rightarrow> map_of (ts_tasks s) i | Some t \<Rightarrow> Some t)"
    "snd (load_from_backend (Inr ts) s) = Inr (length ts)" using assms(1) by (simp_all add: load_from_backend_def)
qed

lemma find_distinct_id:
  assumes "distinct (map t_id ts)"
  shows "find (\<lambda>t. t_id t = i) ts = Some t \<longleftrightarrow> t \<in> set ts \<and> t_id t = i"
  using assms by (induction ts) (auto simp: image_iff)

lemma loaded_store:
  assumes be: "task_backend upsert listing stored up" and "up b"
  obtains s n where "load_from_backend (listing b) with_backend = (s, Inr n)" "\<And>i. get_task i s = stored b i"
    "store_inv (stored b) {} s"
proof -
  obtain ts where ts: "listing b = Inr ts" "distinct (map t_id ts)" "\<And>i t. stored b i = Some t \<longleftrightarrow> t \<in> set ts \<and> t_id t = i"
    using task_backend.listing_ok[OF be, OF assms(2)] by blast
  define s where "s = fst (load_from_backend (Inr ts) with_backend)"
  have wb: "ts_task_backend with_backend = Some []" "ts_tasks with_backend = []" "ts_events with_backend = []"
    by (simp_all add: with_backend_def TaskStore_new_def)
  have got: "map_of (ts_tasks s) i = stored b i" for i
  proof -
    have "map_of (ts_tasks s) i = find (\<lambda>t. t_id t = i) ts"
      using load_tasks(1)[OF wb(1) ts(2), of i] wb(2) by (simp add: s_def split: option.splits)
    moreover have "find (\<lambda>t. t_id t = i) ts = Some t \<longleftrightarrow> stored b i = Some t" for t
      using find_distinct_id[OF ts(2)] ts(3) by simp
    ultimately show ?thesis by (metis not_Some_eq)
  qed
  have fields: "distinct (map fst (ts_tasks s)) \<and> ts_task_backend s = Some [] \<and> ts_events s = []"
    unfolding s_def load_from_backend_def wb(1) option.case sum.case fst_conv
    by (rule fold_inv) (simp_all add: store_step_simps wb distinct_update)
  have "store_inv (stored b) {} s"
    using fields got ts(3) by (auto simp: store_inv_def task_keyed_def mirrors_def logged_def)
  moreover have "load_from_backend (listing b) with_backend = (s, Inr (length ts))"
    using load_tasks(2)[OF wb(1) ts(2)] by (simp add: s_def ts(1) prod_eq_iff)
  ultimately show ?thesis using that[of s "length ts"] got by (simp add: get_task_def)
qed

text \<open>
  C5. No task that the gateway holds is lost in a restart: whatever operations ran since the store was loaded,
  after the queued writes have reached the backend a new gateway loads every task of the old one,
  with the same status and subtasks. The timestamps are up to the backend.
\<close>

theorem recovery_restores:
  assumes be: "task_backend upsert listing stored up" and up: "up b"
    and run: "load_from_backend (listing b) with_backend = (s0, Inr n)" "store_step\<^sup>*\<^sup>* s0 s" "ts_task_backend s = Some writes"
  shows "\<exists>s' m. load_from_backend (listing (write_all upsert writes b)) with_backend = (s', Inr m) \<and>
    (\<forall>i t. get_task i s = Some t \<longrightarrow> (\<exists>t'. get_task i s' = Some t' \<and> same_task t' t))"
proof -
  have "store_inv (stored b) {} s0" by (rule loaded_store[OF be up]) (use run(1) in simp)
  then have inv: "store_inv (stored b) {} s" using store_steps_inv[OF run(2)] by blast
  note wrote = task_backend.write_all_logged[OF be, OF up, of writes]
  show ?thesis
  proof (rule loaded_store[OF be, of "write_all upsert writes b"])
    show "up (write_all upsert writes b)" using wrote by blast
    fix s' m
    assume s': "load_from_backend (listing (write_all upsert writes b)) with_backend = (s', Inr m)"
      "\<And>i. get_task i s' = stored (write_all upsert writes b) i"
    have "\<exists>t'. get_task i s' = Some t' \<and> same_task t' t" if "get_task i s = Some t" for i t
    proof -
      have "logged (stored b) writes i = Some t"
        using inv that run(3) by (auto simp: store_inv_def mirrors_def get_task_def)
      moreover have "rel_option same_task (stored (write_all upsert writes b) i) (logged (stored b) writes i)" using wrote by blast
      ultimately show ?thesis unfolding s'(2) by (auto simp: option_rel_Some2)
    qed
    with s'(1) show ?thesis by blast
  qed
qed

text \<open>
  C27. The store stays well formed and bounded: after any operations on a new store, tasks are stored under their
  own ids, each once, and the inline event log has at most 5000 events.
\<close>

theorem store_well_formed:
  assumes "store_step\<^sup>*\<^sup>* TaskStore_new s"
  shows "distinct (map fst (ts_tasks s)) \<and> (\<forall>i t. get_task i s = Some t \<longrightarrow> t_id t = i) \<and> event_count s \<le> 5000"
proof -
  have "store_inv (\<lambda>_. None) {} TaskStore_new" by (simp add: store_inv_def TaskStore_new_def task_keyed_def)
  then have "store_inv (\<lambda>_. None) {} s" using store_steps_inv[OF assms] by blast
  then show ?thesis by (simp add: store_inv_def task_keyed_def get_task_def event_count_def INLINE_EVENTS_MAX_def)
qed

section \<open>Eviction\<close>

lemma evict_loop_tasks: "ts_tasks (evict_loop xs s) = fold (\<lambda>(i, _). AList.delete i) xs (ts_tasks s)"
  by (induction xs s rule: evict_loop.induct) (simp_all add: Let_def)

lemma fold_delete_map_of: "map_of (fold (\<lambda>(i, _). AList.delete i) xs al) i = (if i \<in> fst ` set xs then None else map_of al i)"
  by (induction xs arbitrary: al) (auto simp: delete_conv')

lemma sort_key_take_le:
  assumes "x \<in> set (take n (sort_key f xs))" "y \<in> set xs" "y \<notin> set (take n (sort_key f xs))"
  shows "f x \<le> f y"
proof -
  let ?ys = "sort_key f xs"
  have y: "y \<in> set (drop n ?ys)" using assms(2,3) by (metis Un_iff append_take_drop_id set_append set_sort)
  have "sorted (map f (take n ?ys @ drop n ?ys))" by simp
  with assms(1) y show ?thesis unfolding map_append sorted_append by fastforce
qed

text \<open>
  Eviction only forgets settled history: it removes the oldest completed or failed tasks, exactly as many
  as exceed the limit of 1000 or as there are, keeps every other task unchanged, and reports the number.
\<close>

lemma evict_completed_oldest:
  assumes "task_keyed (ts_tasks s)" "evict_completed_tasks s = (s', n)"
  shows "(\<forall>i t. get_task i s' = Some t \<longrightarrow> get_task i s = Some t) \<and>
    (\<forall>i t. get_task i s = Some t \<longrightarrow> get_task i s' = None \<longrightarrow>
       t_status t \<in> {TaskStatus.Completed, TaskStatus.Failed} \<and>
       (\<forall>j u. get_task j s' = Some u \<longrightarrow> t_status u \<in> {TaskStatus.Completed, TaskStatus.Failed} \<longrightarrow> t_updated_at t \<le> t_updated_at u)) \<and>
    n = min (length (ts_tasks s) - 1000) (card {i. \<exists>t. get_task i s = Some t \<and> t_status t \<in> {TaskStatus.Completed, TaskStatus.Failed}}) \<and>
    length (ts_tasks s') + n = length (ts_tasks s)"
proof -
  define settled where "settled = (\<lambda>t :: Task. t_status t \<in> {TaskStatus.Completed, TaskStatus.Failed})"
  define cand where "cand = filter (\<lambda>(_, t). settled t) (ts_tasks s)"
  define ended where "ended = map (\<lambda>(i, t). (i, t_updated_at t)) cand"
  define k where "k = min (length (ts_tasks s) - 1000) (length ended)"
  define gone where "gone = take k (sort_key snd ended)"
  have dist: "distinct (map fst (ts_tasks s))" using assms(1) by (simp add: task_keyed_def)
  have fst_ended: "map fst ended = map fst cand" by (auto simp: ended_def)
  have dended: "distinct (map fst ended)" unfolding fst_ended cand_def using dist by (simp add: distinct_map_filter)
  have in_ended: "(i, x) \<in> set ended \<longleftrightarrow> (\<exists>t. map_of (ts_tasks s) i = Some t \<and> settled t \<and> x = t_updated_at t)" for i x
    using dist by (auto simp: ended_def cand_def)
  have res: "n = k" "ts_tasks s' = fold (\<lambda>(i, _). AList.delete i) gone (ts_tasks s)"
    using assms(2) unfolding evict_completed_tasks_def Let_def MAX_RETAINED_TASKS_def
    by (auto simp: k_def gone_def ended_def cand_def settled_def evict_loop_tasks split: if_splits)
  have dsort: "distinct (map fst (sort_key snd ended))"
    using dended by (metis distinct_map set_sort distinct_sort)
  have gone_set: "set gone \<subseteq> set ended" unfolding gone_def by (metis set_sort set_take_subset)
  have get': "get_task i s' = (if i \<in> fst ` set gone then None else get_task i s)" for i
    by (simp add: get_task_def res(2) fold_delete_map_of)
  have old: "t_updated_at t \<le> t_updated_at u"
    if a: "get_task i s = Some t" "i \<in> fst ` set gone" "get_task j s' = Some u" "settled u" for i t j u
  proof -
    have j: "j \<notin> fst ` set gone" "map_of (ts_tasks s) j = Some u" using a(3) unfolding get' by (auto simp: get_task_def split: if_splits)
    obtain x where x: "(i, x) \<in> set gone" using a(2) by force
    then have "x = t_updated_at t" using gone_set in_ended a(1) by (auto simp: get_task_def)
    moreover have "(j, t_updated_at u) \<in> set ended" using j(2) a(4) in_ended by blast
    moreover have "(j, t_updated_at u) \<notin> set gone" using j(1) by force
    ultimately show ?thesis using sort_key_take_le[of "(i, x)" k snd ended "(j, t_updated_at u)"] x by (simp add: gone_def)
  qed
  have sub: "settled t" if a: "get_task i s = Some t" "i \<in> fst ` set gone" for i t
  proof -
    obtain x where "(i, x) \<in> set ended" using a(2) gone_set by force
    with in_ended a(1) show ?thesis by (auto simp: get_task_def)
  qed
  have "fst ` set ended = {i. \<exists>t. get_task i s = Some t \<and> settled t}" using in_ended by (force simp: get_task_def)
  then have card: "length ended = card {i. \<exists>t. get_task i s = Some t \<and> settled t}"
    using dended by (metis distinct_card length_map set_map)
  have len: "length al = card (dom (map_of al))" if "distinct (map fst al)" for al :: "(string \<times> Task) list"
    using that by (metis distinct_card dom_map_of_conv_image_fst length_map set_map)
  have gone_len: "length gone = k" unfolding gone_def k_def by simp
  have "distinct (map fst gone)" unfolding gone_def using dsort by (metis distinct_take take_map)
  then have cgone: "card (fst ` set gone) = k" using gone_len by (metis distinct_card length_map set_map)
  have dist': "distinct (map fst (ts_tasks s'))" unfolding res(2)
    by (rule fold_inv[where I = "\<lambda>al. distinct (map fst al)"]) (auto simp: dist distinct_delete)
  have "dom (map_of (ts_tasks s')) = dom (map_of (ts_tasks s)) - fst ` set gone"
    unfolding res(2) dom_def fold_delete_map_of by auto
  moreover have "fst ` set gone \<subseteq> dom (map_of (ts_tasks s))" using gone_set in_ended by fastforce
  ultimately have "length (ts_tasks s') + k = length (ts_tasks s)"
    unfolding len[OF dist'] len[OF dist]
    by (metis cgone add.commute card_Diff_subset card_mono finite_dom_map_of finite_subset le_add_diff_inverse)
  with old sub card res(1) get' show ?thesis unfolding settled_def k_def by (auto split: if_splits)
qed

section \<open>Concrete stores\<close>

definition task_of :: "Subtask list \<Rightarrow> Task" where
  "task_of nodes = \<lparr>t_id = ''t1'', t_description = ''d'', t_project_id = ''p'', t_status = TaskStatus.InProgress,
     t_subtasks = nodes, t_created_at = 1, t_updated_at = 1\<rparr>"

definition planned_store :: TaskStore where
  "planned_store = fst (pause_task 3 ''t9'' (fst (submit_task_pending_with_id 2 ''t9'' ''build'' ''p'' with_backend)))"

lemma planned_store_reached: "load_from_backend (mem_list_tasks backend_new) with_backend = (with_backend, Inr 0)"
    "store_step\<^sup>*\<^sup>* with_backend planned_store"
proof -
  show "load_from_backend (mem_list_tasks backend_new) with_backend = (with_backend, Inr 0)"
    by (simp add: load_from_backend_def mem_list_tasks_def backend_new_def with_backend_def)
  have "store_step with_backend (fst (submit_task_pending_with_id 2 ''t9'' ''build'' ''p'' with_backend))" by (rule store_step.submit_pending)
  moreover have "store_step (fst (submit_task_pending_with_id 2 ''t9'' ''build'' ''p'' with_backend)) planned_store"
    unfolding planned_store_def by (rule store_step.pause)
  ultimately show "store_step\<^sup>*\<^sup>* with_backend planned_store" by simp
qed

theorem recovery_restores_witness:
  "\<exists>s' m t'. load_from_backend (mem_list_tasks (write_all mem_update_task (the (ts_task_backend planned_store)) backend_new)) with_backend =
      (s', Inr m) \<and> get_task ''t9'' s' = Some t' \<and> t_status t' = Paused"
proof -
  have "map_option t_status (get_task ''t9'' planned_store) = Some Paused" "ts_task_backend planned_store \<noteq> None" by code_simp+
  then obtain t ws where t: "get_task ''t9'' planned_store = Some t" "t_status t = Paused" "ts_task_backend planned_store = Some ws" by auto
  have "task_keyed backend_new" by (simp add: backend_new_def task_keyed_def)
  from recovery_restores[OF mem_tasks.task_backend_axioms this planned_store_reached t(3)] t show ?thesis
    by (fastforce dest: same_taskD)
qed

theorem store_well_formed_witness:
  "event_count (fst (submit_task_pending_with_id 2 ''t9'' ''build'' ''p'' TaskStore_new)) \<le> 5000"
  using store_well_formed[OF r_into_rtranclp[where r = store_step, OF store_step.submit_pending[of TaskStore_new 2 "''t9''" "''build''" "''p''"]]] by blast

end
