(* ===== verification/Task_Control.thy ===== *)
theory Task_Control
  imports Task_Durability Scheduler_Dependency
begin

text \<open>
  Who may change what in the task table: messages from the bus are fenced by the attempt they were dispatched under, retries
  and projections are checked, dispatch makes progress, and redelivered messages are recognised.
\<close>

section \<open>Nodes\<close>

definition node_of :: "TaskId \<Rightarrow> Task \<Rightarrow> Subtask option" where
  "node_of j t = find (\<lambda>n. st_id n = j) (t_subtasks t)"

lemma find_append_Some: "find P xs = Some x \<Longrightarrow> find P (xs @ ys) = Some x"
  by (induction xs) (auto split: if_splits)

lemma find_update_first:
  assumes "\<And>x. st_id (f x) = st_id x"
  shows "find (\<lambda>n. st_id n = j) (update_first (\<lambda>n. st_id n = i) f xs) =
    (if j = i then map_option f (find (\<lambda>n. st_id n = j) xs) else find (\<lambda>n. st_id n = j) xs)"
  by (induction xs) (auto simp: assms)

lemma apply_to_fields [simp]:
  "st_id (apply_to x st) = st_id st" "st_status (apply_to x st) = st_status st"
  "st_dispatch_retry_count (apply_to x st) = st_dispatch_retry_count st"
  "st_assigned_worker (apply_to x st) = st_assigned_worker st" "st_depends_on (apply_to x st) = st_depends_on st"
  by (simp_all add: apply_to_def Let_def split: option.splits)

lemma accepted_node_fields [simp]:
  "st_id (accepted_node partial now w e st) = st_id st"
  "st_dispatch_retry_count (accepted_node partial now w e st) = st_dispatch_retry_count st"
  "st_status (accepted_node partial now w e st) = unwrap_or (subtask_status_from_str (nt_status e)) (st_status st)"
  by (simp_all add: accepted_node_def Let_def split: option.splits)

lemma unwrap_or_simps [simp]: "unwrap_or (Some x) d = x" "unwrap_or None d = d"
  by (simp_all add: unwrap_or_def)

text \<open>An entry speaks for the attempt that the gateway dispatched.\<close>

definition current_entry :: "NatsSubtaskUpdate \<Rightarrow> Subtask \<Rightarrow> bool" where
  "current_entry e n \<longleftrightarrow> (case nt_attempt_id e of
     Some attempt \<Rightarrow> attempt = ucast (st_dispatch_retry_count n) | None \<Rightarrow> st_dispatch_retry_count n = 0)"

lemma not_skipped:
  assumes "\<not> skipped_entry e n" "\<forall>received. nt_attempt_id e = Some received \<longrightarrow> received = ucast (st_dispatch_retry_count n)"
  shows "current_entry e n" "settled_node (st_status n) \<Longrightarrow> subtask_status_from_str (nt_status e) = Some (st_status n)"
  using assms by (auto simp: skipped_entry_def current_entry_def word_gt_0 split: option.splits)

lemma apply_entry_node:
  assumes "find (\<lambda>n. st_id n = j) (ul_subtasks ul) = Some n"
  obtains (kept) "find (\<lambda>n. st_id n = j) (ul_subtasks (apply_entry partial now w i e ul)) = Some n"
  | (accepted) "find (\<lambda>n. st_id n = j) (ul_subtasks (apply_entry partial now w i e ul)) = Some (accepted_node partial now w e n)"
      "nt_subtask_id e = j" "partial \<Longrightarrow> current_entry e n"
      "partial \<Longrightarrow> settled_node (st_status n) \<Longrightarrow> subtask_status_from_str (nt_status e) = Some (st_status n)"
proof (cases "find (\<lambda>n. st_id n = nt_subtask_id e) (ul_subtasks ul)")
  case None
  then have "ul_subtasks (apply_entry partial now w i e ul) = ul_subtasks ul @ [new_node partial now w i e]"
    by (simp add: apply_entry_def Let_def)
  with assms show ?thesis by (intro kept) (simp add: find_append_Some)
next
  case (Some m)
  let ?found = "find (\<lambda>n. st_id n = j) (ul_subtasks (accept_entry partial now w e m ul))"
  have found: "?found = (if nt_subtask_id e = j then Some (accepted_node partial now w e n) else Some n)"
    using assms find_update_first[of "accepted_node partial now w e" j "nt_subtask_id e" "ul_subtasks ul"]
    by (auto simp: accept_entry_def Let_def split: option.splits)
  show ?thesis
  proof (cases "partial \<and> (skipped_entry e m \<or> (\<exists>r. nt_attempt_id e = Some r \<and> r \<noteq> ucast (st_dispatch_retry_count m)))")
    case True
    then have "ul_subtasks (apply_entry partial now w i e ul) = ul_subtasks ul" using Some by (auto simp: apply_entry_def)
    with assms show ?thesis by (intro kept) simp
  next
    case False
    then have run: "apply_entry partial now w i e ul = accept_entry partial now w e m ul" using Some
      by (auto simp: apply_entry_def split: option.splits)
    show ?thesis
    proof (cases "nt_subtask_id e = j")
      case True
      then have "m = n" using Some assms by simp
      with True found run False not_skipped[of e m] show ?thesis by (intro accepted) auto
    qed (use found run kept in simp)
  qed
qed

lemma apply_entries_node:
  assumes "find (\<lambda>n. st_id n = j) (ul_subtasks ul) = Some n"
  shows "\<exists>n'. find (\<lambda>n. st_id n = j) (ul_subtasks (apply_entries partial now fresh i k es ul)) = Some n' \<and>
    st_dispatch_retry_count n' = st_dispatch_retry_count n \<and>
    (settled_node (st_status n) \<and>
       (partial \<or> (\<forall>e \<in> set es. nt_subtask_id e = j \<longrightarrow> subtask_status_from_str (nt_status e) = Some (st_status n))) \<longrightarrow>
     st_status n' = st_status n) \<and>
    (n' \<noteq> n \<longrightarrow> (\<exists>e \<in> set es. nt_subtask_id e = j \<and> (partial \<longrightarrow> current_entry e n)))"
  using assms
proof (induction es arbitrary: ul n k)
  case (Cons e es)
  let ?ul = "apply_entry partial now (fresh k) i e ul"
  from Cons.prems show ?case
  proof (cases rule: apply_entry_node[where partial = partial and now = now and w = "fresh k" and i = i and e = e])
    case kept
    from Cons.IH[OF this, of "k + 1"] show ?thesis by fastforce
  next
    case accepted
    let ?m = "accepted_node partial now (fresh k) e n"
    obtain n' where n': "find (\<lambda>n. st_id n = j) (ul_subtasks (apply_entries partial now fresh i (k + 1) es ?ul)) = Some n'"
      "st_dispatch_retry_count n' = st_dispatch_retry_count ?m"
      "settled_node (st_status ?m) \<and>
       (partial \<or> (\<forall>e \<in> set es. nt_subtask_id e = j \<longrightarrow> subtask_status_from_str (nt_status e) = Some (st_status ?m))) \<longrightarrow>
       st_status n' = st_status ?m"
      using Cons.IH[OF accepted(1), of "k + 1"] by blast
    have "st_status n' = st_status n"
      if "settled_node (st_status n)" "partial \<or> (\<forall>e \<in> set (e # es). nt_subtask_id e = j \<longrightarrow> subtask_status_from_str (nt_status e) = Some (st_status n))"
    proof -
      have "subtask_status_from_str (nt_status e) = Some (st_status n)" using that accepted by auto
      then show ?thesis using n'(3) that by auto
    qed
    with n' accepted show ?thesis by auto
  qed
qed simp


section \<open>Late and repeated messages\<close>

lemma evict_get: "get_task i (fst (evict_completed_tasks s)) \<in> {None, get_task i s}"
  by (simp add: evict_completed_tasks_def Let_def get_task_def evict_loop_tasks fold_delete_map_of)

lemma fanout_verb_tasks: "ts_tasks (fanout_verb sha g x s) = ts_tasks s"
  by (cases x; cases "snd (snd x)") (auto simp: fanout_verb_def Let_def store_step_simps)

lemma apply_known_get:
  assumes "get_task k (apply_known sha now fresh u task s) = Some t"
  shows "if k = nu_task_id u
    then \<exists>ul. ul = apply_entries (nu_partial u) now fresh (t_id task) 0 (nu_subtasks u)
        \<lparr>ul_subtasks = t_subtasks task, ul_assigned = ts_assigned_subtask_times s, ul_rejects = [], ul_fanout = []\<rparr> \<and>
      t = task\<lparr>t_subtasks := ul_subtasks ul, t_updated_at := now,
        t_status := (if nu_partial u then t_status task else case task_status_from_str (nu_status u) of
          None \<Rightarrow> t_status task | Some status \<Rightarrow> derived_status status (ul_subtasks ul))\<rparr>
    else get_task k s = Some t"
proof -
  define ul where "ul = apply_entries (nu_partial u) now fresh (t_id task) 0 (nu_subtasks u)
        \<lparr>ul_subtasks = t_subtasks task, ul_assigned = ts_assigned_subtask_times s, ul_rejects = [], ul_fanout = []\<rparr>"
  define parsed where "parsed = (if nu_partial u then None else task_status_from_str (nu_status u))"
  define new where "new = task\<lparr>t_subtasks := ul_subtasks ul, t_updated_at := now,
      t_status := (if parsed \<noteq> None then derived_status (unwrap_or parsed (t_status task)) (ul_subtasks ul) else unwrap_or parsed (t_status task))\<rparr>"
  define s1 where "s1 = insert_task (nu_task_id u) new (s\<lparr>ts_assigned_subtask_times := ul_assigned ul\<rparr>)"
  have frame: "ts_tasks (fold (fanout_verb sha g) vs (fold (\<lambda>_. record_event e) rs s2)) = ts_tasks s2" for g vs e rs s2
  proof -
    have "ts_tasks (fold (fanout_verb sha g) vs s3) = ts_tasks s3" for s3
      by (rule fold_inv[where I = "\<lambda>x. ts_tasks x = ts_tasks s3"]) (simp_all add: fanout_verb_tasks)
    moreover have "ts_tasks (fold (\<lambda>_. record_event e) rs s2) = ts_tasks s2"
      by (rule fold_inv[where I = "\<lambda>x. ts_tasks x = ts_tasks s2"]) (simp_all add: store_step_simps)
    ultimately show ?thesis by simp
  qed
  have "ts_tasks (apply_known sha now fresh u task s) = ts_tasks (fst (evict_completed_tasks s1))"
    unfolding apply_known_def Let_def frame parsed_def[symmetric] ul_def[symmetric] new_def[symmetric] s1_def[symmetric]
    by (simp add: store_step_simps)
  with evict_get[of k s1] assms have "get_task k s1 = Some t" by (simp add: get_task_def)
  moreover have "get_task k s1 = (if k = nu_task_id u then Some new else get_task k s)"
    by (simp add: get_task_def s1_def store_step_simps update_conv')
  ultimately show ?thesis by (auto simp: new_def parsed_def ul_def[symmetric] split: option.splits)
qed

lemma stale_entry_fresh:
  assumes "\<not> stale_entry t e" "node_of (nt_subtask_id e) t = Some n"
  shows "current_entry e n" "settled_node (st_status n) \<Longrightarrow> subtask_status_from_str (nt_status e) = Some (st_status n)"
  using assms by (auto simp: stale_entry_def node_of_def current_entry_def word_gt_0 split: option.splits)

lemma derived_status_controlled: "controlled status \<Longrightarrow> derived_status status nodes = status"
  by (auto simp: derived_status_def controlled_def)

lemma apply_update_cases:
  obtains "apply_update_with_metadata sha now fresh u md mp s = s"
  | task where "get_task (nu_task_id u) s = Some task" "\<not> full_snapshot_is_stale u s"
      "apply_update_with_metadata sha now fresh u md mp s = apply_known sha now fresh u task s"
  | task e subj x where "get_task (nu_task_id u) s = None" "\<not> nu_partial u" "t_id task = nu_task_id u"
      "apply_update_with_metadata sha now fresh u md mp s =
         apply_known sha now fresh u task (insert_task (nu_task_id u) task (record_event_with_subject e subj s\<lparr>ts_assigned_subtask_times := x\<rparr>))"
proof (cases "full_snapshot_is_stale u s")
  case True
  then show ?thesis using that(1) by (simp add: apply_update_with_metadata_def)
next
  case live: False
  show ?thesis
  proof (cases "get_task (nu_task_id u) s")
    case (Some task)
    then show ?thesis using that(2)[of task] live by (simp add: apply_update_with_metadata_def get_task_def)
  next
    case None
    show ?thesis
    proof (cases "nu_partial u \<or> md = None \<or> mp = None \<or> md = Some []")
      case True
      then show ?thesis using that(1) None live by (auto simp: apply_update_with_metadata_def get_task_def split: option.splits)
    next
      case False
      then obtain d p where "md = Some d" "mp = Some p" "d \<noteq> []" "\<not> nu_partial u" by auto
      then show ?thesis using None live
        by (intro that(3)) (simp_all add: apply_update_with_metadata_def get_task_def Let_def)
    qed
  qed
qed

text \<open>
  An update from the bus, seen from one task and one of its nodes: what it may change.
\<close>

lemma apply_update_task:
  assumes t: "get_task i s = Some t" "get_task i (apply_update_with_metadata sha now fresh u md mp s) = Some t'"
  shows "controlled (t_status t) \<or> nu_partial u \<or> i \<noteq> nu_task_id u \<Longrightarrow> t_status t' = t_status t"
    and "node_of j t = Some n \<Longrightarrow> \<exists>n'. node_of j t' = Some n' \<and> st_dispatch_retry_count n' = st_dispatch_retry_count n \<and>
      (settled_node (st_status n) \<longrightarrow> st_status n' = st_status n) \<and>
      (n' \<noteq> n \<longrightarrow> i = nu_task_id u \<and> (\<exists>e \<in> set (nu_subtasks u). nt_subtask_id e = j \<and> current_entry e n))"
proof -
  have "(controlled (t_status t) \<or> nu_partial u \<or> i \<noteq> nu_task_id u \<longrightarrow> t_status t' = t_status t) \<and>
    (node_of j t = Some n \<longrightarrow> (\<exists>n'. node_of j t' = Some n' \<and> st_dispatch_retry_count n' = st_dispatch_retry_count n \<and>
      (settled_node (st_status n) \<longrightarrow> st_status n' = st_status n) \<and>
      (n' \<noteq> n \<longrightarrow> i = nu_task_id u \<and> (\<exists>e \<in> set (nu_subtasks u). nt_subtask_id e = j \<and> current_entry e n))))"
  proof (cases "i = nu_task_id u \<and> \<not> full_snapshot_is_stale u s")
    case False
    have "t' = t"
    proof (cases "full_snapshot_is_stale u s")
      case True
      with t show ?thesis by (simp add: apply_update_with_metadata_def)
    next
      case fresh: False
      with False have i: "i \<noteq> nu_task_id u" by simp
      have "get_task i s = Some t'"
      proof (cases rule: apply_update_cases[of sha now fresh u md mp s])
        case 1
        then show ?thesis using t(2) by simp
      next
        case (2 task)
        then show ?thesis using apply_known_get[of i sha now fresh u task s t'] t(2) i by simp
      next
        case (3 task e subj x)
        then show ?thesis using apply_known_get[of i sha now fresh u task _ t'] t(2) i
          by (fastforce simp: get_task_def store_step_simps update_conv')
      qed
      then show ?thesis using t(1) by simp
    qed
    then show ?thesis using False t(1) by auto
  next
    case True
    then have i: "i = nu_task_id u" and live: "\<not> full_snapshot_is_stale u s" by auto
    have lookup: "map_of (ts_tasks s) (nu_task_id u) = Some t" using t(1) i by (simp add: get_task_def)
    let ?ul = "apply_entries (nu_partial u) now fresh (t_id t) 0 (nu_subtasks u)
        \<lparr>ul_subtasks = t_subtasks t, ul_assigned = ts_assigned_subtask_times s, ul_rejects = [], ul_fanout = []\<rparr>"
    have "get_task i (apply_known sha now fresh u t s) = Some t'"
      using t(2) live lookup by (simp add: apply_update_with_metadata_def)
    from apply_known_get[OF this] i have t': "t' = t\<lparr>t_subtasks := ul_subtasks ?ul, t_updated_at := now,
        t_status := (if nu_partial u then t_status t else case task_status_from_str (nu_status u) of
          None \<Rightarrow> t_status t | Some status \<Rightarrow> derived_status status (ul_subtasks ?ul))\<rparr>" by auto
    have "t_status t' = t_status t" if "controlled (t_status t) \<or> nu_partial u"
    proof (cases "nu_partial u")
      case False
      with that live lookup have "task_status_from_str (nu_status u) = Some (t_status t)" "controlled (t_status t)"
        by (auto simp: full_snapshot_is_stale_def)
      then show ?thesis using t' False by (simp add: derived_status_controlled)
    qed (simp add: t')
    moreover have "\<exists>n'. node_of j t' = Some n' \<and> st_dispatch_retry_count n' = st_dispatch_retry_count n \<and>
      (settled_node (st_status n) \<longrightarrow> st_status n' = st_status n) \<and>
      (n' \<noteq> n \<longrightarrow> (\<exists>e \<in> set (nu_subtasks u). nt_subtask_id e = j \<and> current_entry e n))" if n: "node_of j t = Some n"
    proof -
      have full: "current_entry e n \<and> (settled_node (st_status n) \<longrightarrow> subtask_status_from_str (nt_status e) = Some (st_status n))"
        if e: "\<not> nu_partial u" "e \<in> set (nu_subtasks u)" "nt_subtask_id e = j" for e
      proof -
        have "\<not> stale_entry t e" using live lookup e by (auto simp: full_snapshot_is_stale_def list_ex_iff)
        with stale_entry_fresh[of t e n] n e(3) show ?thesis by simp
      qed
      from n have "find (\<lambda>n. st_id n = j) (ul_subtasks \<lparr>ul_subtasks = t_subtasks t, ul_assigned = ts_assigned_subtask_times s,
          ul_rejects = [], ul_fanout = []\<rparr>) = Some n" by (simp add: node_of_def)
      from apply_entries_node[OF this, of "nu_partial u" now fresh "t_id t" 0 "nu_subtasks u"] full
      show ?thesis by (auto simp: t' node_of_def)
    qed
    ultimately show ?thesis using i by blast
  qed
  then show "controlled (t_status t) \<or> nu_partial u \<or> i \<noteq> nu_task_id u \<Longrightarrow> t_status t' = t_status t"
    and "node_of j t = Some n \<Longrightarrow> \<exists>n'. node_of j t' = Some n' \<and> st_dispatch_retry_count n' = st_dispatch_retry_count n \<and>
      (settled_node (st_status n) \<longrightarrow> st_status n' = st_status n) \<and>
      (n' \<noteq> n \<longrightarrow> i = nu_task_id u \<and> (\<exists>e \<in> set (nu_subtasks u). nt_subtask_id e = j \<and> current_entry e n))" by blast+
qed


section \<open>Retries\<close>

lemma retry_subtask_outcome:
  "retry_subtask now i j a s = (s', Inr t') \<longleftrightarrow>
     (\<exists>t n. get_task i s = Some t \<and> t_status t \<notin> {Paused, TaskStatus.Completed} \<and> node_of j t = Some n \<and>
        st_dispatch_retry_count n = a \<and> st_status n = SubtaskStatus.Failed \<and>
        (\<forall>dep \<in> set (st_depends_on n). \<exists>m \<in> set (t_subtasks t). st_id m = dep \<and> st_status m = SubtaskStatus.Completed) \<and>
        a \<noteq> - 1 \<and> retry_subtask now i j a s = (s', Inr t'))"
  by (auto simp: retry_subtask_def get_task_def node_of_def Let_def list_all_iff list_ex_iff split: option.splits if_splits)

lemma retry_subtask_store:
  assumes "retry_subtask now i j a s = (s', Inr t')"
  shows "get_task i s' = Some t' \<and> t_status t' = TaskStatus.InProgress \<and>
    (\<exists>t n. get_task i s = Some t \<and> node_of j t = Some n \<and> node_of j t' = Some (n\<lparr>st_dispatch_retry_count := a + 1, st_status := Pending,
       st_result := None, st_assigned_worker := None\<rparr>)) \<and>
    (\<forall>k. k \<noteq> i \<longrightarrow> get_task k s' = get_task k s)"
proof -
  let ?f = "\<lambda>n. n\<lparr>st_dispatch_retry_count := a + 1, st_status := Pending, st_result := None, st_assigned_worker := None\<rparr>"
  obtain t n x e e' where r: "get_task i s = Some t" "node_of j t = Some n"
    "t' = t\<lparr>t_subtasks := update_first (\<lambda>n. st_id n = j) ?f (t_subtasks t), t_status := TaskStatus.InProgress, t_updated_at := now\<rparr>"
    "s' = persist_task t' (record_event e (record_event e' (insert_task i t' (s\<lparr>ts_assigned_subtask_times := x\<rparr>))))"
    using assms by (auto simp: retry_subtask_def get_task_def node_of_def Let_def split: option.splits if_splits)
  have "node_of j t' = Some (?f n)"
    using r(2) find_update_first[of ?f j j "t_subtasks t"] by (simp add: r(3) node_of_def)
  moreover have "get_task k s' = (if k = i then Some t' else get_task k s)" for k
    by (simp add: r(4) get_task_def store_step_simps update_conv')
  ultimately show ?thesis using r(1-3) by auto
qed

text \<open>
  C22. A retry is accepted exactly for the current attempt of a failed node, in a task that is neither paused nor
  completed, when all dependencies of the node are completed and the attempt counter does not overflow. It then has the
  next attempt and is pending; otherwise nothing changes and the reason is reported.
\<close>

theorem retry_subtask_exact:
  "(if \<exists>t n. get_task i s = Some t \<and> t_status t \<notin> {Paused, TaskStatus.Completed} \<and> node_of j t = Some n \<and>
        st_dispatch_retry_count n = a \<and> st_status n = SubtaskStatus.Failed \<and>
        (\<forall>dep \<in> set (st_depends_on n). \<exists>m \<in> set (t_subtasks t). st_id m = dep \<and> st_status m = SubtaskStatus.Completed) \<and> a \<noteq> - 1
    then \<exists>s' t' n'. retry_subtask now i j a s = (s', Inr t') \<and> get_task i s' = Some t' \<and> t_status t' = TaskStatus.InProgress \<and>
      node_of j t' = Some n' \<and> unat (st_dispatch_retry_count n') = unat a + 1 \<and> st_status n' = Pending
    else \<exists>e. retry_subtask now i j a s = (s, Inl e))"
proof (cases "\<exists>s' t'. retry_subtask now i j a s = (s', Inr t')")
  case True
  then obtain s' t' where r: "retry_subtask now i j a s = (s', Inr t')" by blast
  then have c: "\<exists>t n. get_task i s = Some t \<and> t_status t \<notin> {Paused, TaskStatus.Completed} \<and> node_of j t = Some n \<and>
        st_dispatch_retry_count n = a \<and> st_status n = SubtaskStatus.Failed \<and>
        (\<forall>dep \<in> set (st_depends_on n). \<exists>m \<in> set (t_subtasks t). st_id m = dep \<and> st_status m = SubtaskStatus.Completed) \<and> a \<noteq> - 1"
    by (subst (asm) retry_subtask_outcome) blast
  then have "unat (a + 1) = unat a + 1" using unat_plus_one[of a] by auto
  with retry_subtask_store[OF r] r show ?thesis unfolding if_P[OF c] by fastforce
next
  case False
  then have "\<exists>e. retry_subtask now i j a s = (s, Inl e)"
    by (auto simp: retry_subtask_def Let_def split: option.splits if_splits)
  moreover have "\<not> (\<exists>t n. get_task i s = Some t \<and> t_status t \<notin> {Paused, TaskStatus.Completed} \<and> node_of j t = Some n \<and>
        st_dispatch_retry_count n = a \<and> st_status n = SubtaskStatus.Failed \<and>
        (\<forall>dep \<in> set (st_depends_on n). \<exists>m \<in> set (t_subtasks t). st_id m = dep \<and> st_status m = SubtaskStatus.Completed) \<and> a \<noteq> - 1)"
    using False by (auto simp: retry_subtask_def get_task_def node_of_def Let_def list_all_iff list_ex_iff split: if_splits)
  ultimately show ?thesis by (simp only: if_not_P if_False)
qed

text \<open>
  After a retry the old attempt is dead: no later message of the bus whose entries for the node carry another
  attempt, however often it is delivered, changes the node.
\<close>

lemma retry_fences_old_attempt:
  assumes "retry_subtask now i j a s = (s1, Inr t1)" "node_of j t1 = Some n1"
    and "\<forall>e \<in> set (nu_subtasks u). nt_subtask_id e = j \<longrightarrow> (\<exists>b. nt_attempt_id e = Some b \<and> b \<noteq> ucast (a + 1))"
    and "get_task i (apply_update_with_metadata sha later fresh u md mp s1) = Some t2"
  shows "node_of j t2 = Some n1"
proof -
  have t1: "get_task i s1 = Some t1" "st_dispatch_retry_count n1 = a + 1" using retry_subtask_store[OF assms(1)] assms(2) by auto
  from apply_update_task(2)[OF t1(1) assms(4) assms(2)] obtain n' where n': "node_of j t2 = Some n'"
    "n' \<noteq> n1 \<longrightarrow> (\<exists>e \<in> set (nu_subtasks u). nt_subtask_id e = j \<and> current_entry e n1)" by blast
  have "\<not> current_entry e n1" if "e \<in> set (nu_subtasks u)" "nt_subtask_id e = j" for e
    using assms(3) that t1(2) by (auto simp: current_entry_def)
  with n' show ?thesis by blast
qed

section \<open>Projections over the RPC\<close>

lemma project_node_fields [simp]:
  "st_id (project_node st n) = st_id n" "st_dispatch_retry_count (project_node st n) = st_dispatch_retry_count n"
  "st_status (project_node st n) = st_status st"
  by (simp_all add: project_node_def)

lemma update_first_ids: "(\<And>x. st_id (f x) = st_id x) \<Longrightarrow> map st_id (update_first P f xs) = map st_id xs"
  by (induction xs) auto

lemma upsert_subtasks_node:
  assumes "find (\<lambda>n. st_id n = j) nodes = Some n" "upsert_subtasks sts nodes = (nodes', transitions, new_ids)"
  shows "\<exists>n'. find (\<lambda>n. st_id n = j) nodes' = Some n' \<and> st_dispatch_retry_count n' = st_dispatch_retry_count n \<and>
    ((\<forall>st \<in> set sts. st_id st = j \<longrightarrow> st_status st = st_status n) \<longrightarrow> st_status n' = st_status n)"
  using assms
proof (induction sts arbitrary: nodes n nodes' transitions new_ids)
  case (Cons st sts)
  show ?case
  proof (cases "find (\<lambda>s. st_id s = st_id st) nodes")
    case None
    then obtain tr ids where u: "upsert_subtasks sts (nodes @ [st]) = (nodes', tr, ids)"
      using Cons.prems(2) by (auto split: prod.splits)
    from Cons.IH[OF find_append_Some[OF Cons.prems(1)] u] None show ?thesis by fastforce
  next
    case (Some existing)
    then obtain tr ids where u: "upsert_subtasks sts (update_first (\<lambda>s. st_id s = st_id st) (project_node st) nodes) = (nodes', tr, ids)"
      using Cons.prems(2) by (auto split: prod.splits)
    have "find (\<lambda>n. st_id n = j) (update_first (\<lambda>s. st_id s = st_id st) (project_node st) nodes) =
        Some (if j = st_id st then project_node st n else n)"
      using Cons.prems(1) find_update_first[of "project_node st" j "st_id st" nodes] by auto
    from Cons.IH[OF this u] show ?thesis by (auto split: if_splits)
  qed
qed auto

lemma upsert_subtasks_known:
  assumes "\<forall>st \<in> set sts. st_id st \<in> st_id ` set nodes" "upsert_subtasks sts nodes = (nodes', transitions, new_ids)"
  shows "map st_id nodes' = map st_id nodes"
  using assms
proof (induction sts arbitrary: nodes nodes' transitions new_ids)
  case (Cons st sts)
  then obtain existing where e: "find (\<lambda>s. st_id s = st_id st) nodes = Some existing"
    by (cases "find (\<lambda>s. st_id s = st_id st) nodes") (auto simp: find_None_iff)
  then obtain tr ids where u: "upsert_subtasks sts (update_first (\<lambda>s. st_id s = st_id st) (project_node st) nodes) = (nodes', tr, ids)"
    using Cons.prems(2) by (auto split: prod.splits)
  have ids: "map st_id (update_first (\<lambda>s. st_id s = st_id st) (project_node st) nodes) = map st_id nodes"
    by (rule update_first_ids) simp
  then have "\<forall>x \<in> set sts. st_id x \<in> st_id ` set (update_first (\<lambda>s. st_id s = st_id st) (project_node st) nodes)"
    using Cons.prems(1) by (metis list.set_intros(2) set_map)
  from Cons.IH[OF this u] ids show ?case by simp
qed auto

lemma projection_error_None:
  "projection_error t sts = None \<Longrightarrow> st \<in> set sts \<Longrightarrow>
     (case node_of (st_id st) t of
        Some n \<Rightarrow> st_dispatch_retry_count n = st_dispatch_retry_count st \<and> (settled_node (st_status n) \<longrightarrow> st_status n = st_status st)
      | None \<Rightarrow> \<not> controlled (t_status t))"
  by (induction t sts rule: projection_error.induct) (auto simp: node_of_def split: option.splits if_splits)

lemma apply_projection_get:
  assumes "apply_projection now fresh i status parsed sts task s = (s', r)"
  obtains nodes transitions new_ids t' es where "upsert_subtasks sts (t_subtasks task) = (nodes, transitions, new_ids)"
    "t' = task\<lparr>t_status := parsed, t_updated_at := now, t_subtasks := nodes\<rparr>" "r = Inr (t', es)"
    "\<And>k. get_task k s' = (if k = i then Some t' else get_task k s)"
proof -
  obtain nodes transitions new_ids where u: "upsert_subtasks sts (t_subtasks task) = (nodes, transitions, new_ids)" by (rule prod_cases3)
  let ?t = "task\<lparr>t_status := parsed, t_updated_at := now, t_subtasks := nodes\<rparr>"
  obtain es where s': "s' = persist_task ?t (fold record_event es (insert_task i ?t s))" "r = Inr (?t, es)"
    using assms unfolding apply_projection_def Let_def u prod.case by (simp only: prod.inject) (metis)
  have "ts_tasks (fold record_event es x) = ts_tasks x" for x
    by (rule fold_inv[where I = "\<lambda>y. ts_tasks y = ts_tasks x"]) (simp_all add: store_step_simps)
  then have "get_task k s' = (if k = i then Some ?t else get_task k s)" for k
    by (simp add: s'(1) get_task_def store_step_simps update_conv')
  with that[OF u refl s'(2)] show ?thesis by blast
qed

text \<open>
  A projection is checked as a whole before it changes anything: when it is refused the store is as it was. When it is
  accepted, a paused, failed or completed task keeps its status and its set of nodes, every node keeps its attempt, and
  a failed or completed node keeps its status; other tasks are untouched.
\<close>

lemma projection_checked:
  "case update_task now fresh i status sts d p s of
     (s', Inl e) \<Rightarrow> s' = s
   | (s', Inr (t', events)) \<Rightarrow> get_task i s' = Some t' \<and> (\<forall>k. k \<noteq> i \<longrightarrow> get_task k s' = get_task k s) \<and>
       (\<forall>t. get_task i s = Some t \<longrightarrow>
          (controlled (t_status t) \<longrightarrow> t_status t' = t_status t \<and> map st_id (t_subtasks t') = map st_id (t_subtasks t)) \<and>
          (\<forall>j n. node_of j t = Some n \<longrightarrow> (\<exists>n'. node_of j t' = Some n' \<and> st_dispatch_retry_count n' = st_dispatch_retry_count n \<and>
             (settled_node (st_status n) \<longrightarrow> st_status n' = st_status n))))"
proof (cases "update_task now fresh i status sts d p s")
  case (Pair s' r)
  show ?thesis
  proof (cases r)
    case (Inl e)
    have inr: "apply_projection now fresh i status parsed sts task x \<noteq> (s', Inl e)" for parsed task x
      by (auto simp: apply_projection_def Let_def split: prod.splits)
    have "s' = s" using Pair Inl inr
      by (auto simp: update_task_def Let_def split: option.splits sum.splits if_splits)
    with Pair Inl show ?thesis by simp
  next
    case (Inr x)
    show ?thesis
    proof (cases "get_task i s")
      case None
      then obtain parsed task e subj where a: "apply_projection now fresh i status parsed sts task
          (insert_task i task (record_event_with_subject e subj s)) = (s', r)"
        using Pair Inr by (auto simp: update_task_def Let_def get_task_def split: sum.splits if_splits)
      show ?thesis
        by (rule apply_projection_get[OF a])
          (use Pair Inr None in \<open>auto simp: get_task_def store_step_simps update_conv'\<close>)
    next
      case (Some t)
      then obtain parsed where par: "proto_status_to_task_status status = Inr parsed" "controlled (t_status t) \<Longrightarrow> t_status t = parsed"
        "projection_error t sts = None" and a: "apply_projection now fresh i status parsed sts t s = (s', r)"
        using Pair Inr by (auto simp: update_task_def get_task_def split: option.splits sum.splits if_splits)
      show ?thesis
      proof (rule apply_projection_get[OF a])
        fix nodes transitions new_ids t' es
        assume g: "upsert_subtasks sts (t_subtasks t) = (nodes, transitions, new_ids)"
          "t' = t\<lparr>t_status := parsed, t_updated_at := now, t_subtasks := nodes\<rparr>" "r = Inr (t', es)"
          "\<And>k. get_task k s' = (if k = i then Some t' else get_task k s)"
        have ids: "map st_id nodes = map st_id (t_subtasks t)" if "controlled (t_status t)"
        proof (rule upsert_subtasks_known[OF _ g(1)], rule ballI)
          fix st
          assume "st \<in> set sts"
          from projection_error_None[OF par(3) this] that obtain n where "node_of (st_id st) t = Some n" by (auto split: option.splits)
          then show "st_id st \<in> st_id ` set (t_subtasks t)" unfolding node_of_def by (metis (mono_tags) find_SomeD imageI)
        qed
        have "\<exists>n'. node_of j t' = Some n' \<and> st_dispatch_retry_count n' = st_dispatch_retry_count n \<and>
            (settled_node (st_status n) \<longrightarrow> st_status n' = st_status n)" if n: "node_of j t = Some n" for j n
        proof -
          have "st_status st = st_status n" if "settled_node (st_status n)" "st \<in> set sts" "st_id st = j" for st
            using projection_error_None[OF par(3) that(2)] that n by auto
          with upsert_subtasks_node[OF n[unfolded node_of_def] g(1)] show ?thesis by (auto simp: g(2) node_of_def)
        qed
        with ids par(2) g Pair Some show ?thesis by simp
      qed
    qed
  qed
qed

section \<open>Dispatch makes progress\<close>

text \<open>
  C23. Dispatch never stalls by itself: in a running task without a durability fault whose dependency order resolves and
  whose dependencies are its own subtasks, as long as some subtask is pending and none is running, failed or conflicted,
  some subtask is ready, and its dependencies are completed.
\<close>

theorem dispatch_not_stuck:
  assumes t: "get_task i s = Some t" "t_status t = TaskStatus.InProgress" "i \<notin> ts_durability_faults s"
    and order: "distinct (map st_id (t_subtasks t))" "resolve_execution_order (t_subtasks t) = Some (Inr layers)"
    and known: "\<forall>n \<in> set (t_subtasks t). set (st_depends_on n) \<subseteq> st_id ` set (t_subtasks t)"
    and idle: "\<forall>n \<in> set (t_subtasks t). st_status n \<in> {Pending, SubtaskStatus.Completed}"
    and left: "\<exists>n \<in> set (t_subtasks t). st_status n = Pending"
  shows "\<exists>n \<in> set (get_ready_subtasks i s). n \<in> set (t_subtasks t) \<and> st_status n = Pending \<and>
    (\<forall>dep \<in> set (st_depends_on n). \<exists>m \<in> set (t_subtasks t). st_id m = dep \<and> st_status m = SubtaskStatus.Completed)"
proof -
  obtain rank :: "TaskId \<Rightarrow> nat" where rank: "\<And>n dep. n \<in> set (t_subtasks t) \<Longrightarrow> dep \<in> set (st_depends_on n) \<Longrightarrow>
      dep \<in> st_id ` set (t_subtasks t) \<Longrightarrow> rank dep < rank (st_id n)"
    using resolved_rank[OF order] by blast
  obtain n where n: "n \<in> set (t_subtasks t)" "st_status n = Pending"
    and least: "\<And>m. m \<in> set (t_subtasks t) \<Longrightarrow> st_status m = Pending \<Longrightarrow> rank (st_id n) \<le> rank (st_id m)"
    using left ex_has_least_nat[of "\<lambda>m. m \<in> set (t_subtasks t) \<and> st_status m = Pending" _ "\<lambda>m. rank (st_id m)"] by blast
  have deps: "\<exists>m \<in> set (t_subtasks t). st_id m = dep \<and> st_status m = SubtaskStatus.Completed" if "dep \<in> set (st_depends_on n)" for dep
  proof -
    from that known n(1) obtain m where m: "m \<in> set (t_subtasks t)" "st_id m = dep" by blast
    then have "rank (st_id m) < rank (st_id n)" using rank[OF n(1) that] by blast
    then have "st_status m \<noteq> Pending" using least[OF m(1)] by force
    with idle m show ?thesis by blast
  qed
  then have "n \<in> set (get_ready_subtasks i s)"
    using t n by (force simp: get_ready_subtasks_def get_task_def list_all_iff Let_def)
  with n deps show ?thesis by blast
qed

section \<open>Duplicate messages\<close>

lemma purge_keeps:
  assumes "distinct (map fst al)" "map_of al mid = Some seen" "seen \<le> now" "now - seen < DEDUP_TTL"
  shows "distinct (map fst (filter (dedup_live now) al)) \<and>
    map_of (filter (dedup_live now) al) mid = Some seen"
proof
  show d: "distinct (map fst (filter (dedup_live now) al))"
    using assms(1) by (simp add: distinct_map_filter)
  have "(mid, seen) \<in> set (filter (dedup_live now) al)"
    using map_of_SomeD[OF assms(2)] assms(3,4) by (simp add: dedup_live_def)
  then show "map_of (filter (dedup_live now) al) mid = Some seen"
    by (rule map_of_is_SomeI[OF d])
qed

lemma check_and_record_kept:
  assumes "distinct (map fst (ts_seen_messages s))" "map_of (ts_seen_messages s) mid = Some seen" "seen \<le> now" "now - seen < DEDUP_TTL"
    and "check_and_record_message_id now other s = (s', b)"
  shows "distinct (map fst (ts_seen_messages s')) \<and> map_of (ts_seen_messages s') mid = Some seen"
proof (cases "s' = s")
  case False
  then obtain m where m: "map_of (ts_seen_messages s) m = None" and s': "s' = (if DEDUP_MAX_ENTRIES < length (AList.update m now (ts_seen_messages s))
      then purge_expired_dedup_entries now (s\<lparr>ts_seen_messages := AList.update m now (ts_seen_messages s)\<rparr>)
      else s\<lparr>ts_seen_messages := AList.update m now (ts_seen_messages s)\<rparr>)"
    using assms(5) by (auto simp: check_and_record_message_id_def Let_def split: option.splits if_splits)
  have "m \<noteq> mid" using m assms(2) by auto
  then have "distinct (map fst (AList.update m now (ts_seen_messages s)))" "map_of (AList.update m now (ts_seen_messages s)) mid = Some seen"
    using assms(1,2) by (simp_all add: distinct_update update_conv')
  from this purge_keeps[OF this assms(3,4)] show ?thesis
    unfolding s' purge_expired_dedup_entries_def using assms(3,4) by (simp add: dedup_live_def)
qed (use assms in simp)

text \<open>
  Within five minutes a message id is processed once: after it was recorded, however many other messages are
  checked meanwhile, a redelivery is reported as a duplicate.
\<close>

lemma redelivery_detected:
  assumes "distinct (map fst (ts_seen_messages s))" "mid \<noteq> []" "check_and_record_message_id t (Some mid) s = (s1, False)"
    and "\<forall>(now, other) \<in> set checks. t \<le> now \<and> now < t + 300 * 1000000000"
  shows "snd (check_and_record_message_id later (Some mid) (fold (\<lambda>(now, other) s. fst (check_and_record_message_id now other s)) checks s1))"
proof -
  let ?al = "AList.update mid t (ts_seen_messages s)"
  have al: "distinct (map fst ?al)" "map_of ?al mid = Some t" using assms(1) by (simp_all add: distinct_update update_conv')
  have "s1 = (if DEDUP_MAX_ENTRIES < length ?al then purge_expired_dedup_entries t (s\<lparr>ts_seen_messages := ?al\<rparr>) else s\<lparr>ts_seen_messages := ?al\<rparr>)"
    using assms(2,3) by (auto simp: check_and_record_message_id_def Let_def split: if_splits)
  with al purge_keeps[OF al, of t] have "distinct (map fst (ts_seen_messages s1)) \<and> map_of (ts_seen_messages s1) mid = Some t"
    by (simp add: purge_expired_dedup_entries_def DEDUP_TTL_def dedup_live_def)
  then have "distinct (map fst (ts_seen_messages (fold (\<lambda>(now, other) s. fst (check_and_record_message_id now other s)) checks s1))) \<and>
      map_of (ts_seen_messages (fold (\<lambda>(now, other) s. fst (check_and_record_message_id now other s)) checks s1)) mid = Some t"
  proof (rule fold_inv[rotated])
    fix x and s :: TaskStore
    assume x: "x \<in> set checks" and i: "distinct (map fst (ts_seen_messages s)) \<and> map_of (ts_seen_messages s) mid = Some t"
    obtain now other where no: "x = (now, other)" by fastforce
    with x assms(4) have "t \<le> now" "now - t < DEDUP_TTL" by (auto simp: DEDUP_TTL_def)
    from check_and_record_kept[OF conjunct1[OF i] conjunct2[OF i] this prod.collapse[symmetric], of other] show "distinct (map fst (ts_seen_messages
        ((case x of (now, other) \<Rightarrow> \<lambda>s. fst (check_and_record_message_id now other s)) s))) \<and>
      map_of (ts_seen_messages ((case x of (now, other) \<Rightarrow> \<lambda>s. fst (check_and_record_message_id now other s)) s)) mid = Some t"
      by (simp add: no)
  qed
  then show ?thesis using assms(2) by (simp add: check_and_record_message_id_def)
qed

section \<open>Concrete stores\<close>

definition entry_for :: "TaskId \<Rightarrow> string \<Rightarrow> u64 option \<Rightarrow> NatsSubtaskUpdate" where
  "entry_for node status attempt = \<lparr>nt_execution = \<lparr>nx_agent_config_json = None, nx_required_capabilities = None,
     nx_file_constraints = None, nx_expected_output = None, nx_workflow_steps = None\<rparr>, nt_subtask_id = node, nt_status = status,
     nt_assigned_worker = Some ''w1'', nt_description = None, nt_depends_on = None, nt_result = Some ''done'', nt_usage = None,
     nt_steps = None, nt_review = None, nt_attempt_id = attempt\<rparr>"

definition late_result :: NatsTaskUpdate where
  "late_result = \<lparr>nu_message_id = Some ''m1'', nu_task_id = ''t1'', nu_status = ''in_progress'', nu_partial = True,
     nu_subtasks = [entry_for ''b'' ''Completed'' (Some 0)], nu_result = None\<rparr>"

definition failed_nodes :: "Subtask list" where
  "failed_nodes = [(plain_subtask ''a'' [])\<lparr>st_status := SubtaskStatus.Completed\<rparr>,
     (plain_subtask ''b'' [''a''])\<lparr>st_status := SubtaskStatus.Failed\<rparr>]"

definition failed_store :: TaskStore where
  "failed_store = TaskStore_new\<lparr>ts_tasks := [(''t1'', task_of failed_nodes)]\<rparr>"

lemma failed_store_get: "get_task ''t1'' failed_store = Some (task_of failed_nodes)"
    "node_of ''b'' (task_of failed_nodes) = Some ((plain_subtask ''b'' [''a''])\<lparr>st_status := SubtaskStatus.Failed\<rparr>)"
  by (simp_all add: get_task_def failed_store_def node_of_def task_of_def failed_nodes_def plain_subtask_def)


theorem retry_subtask_exact_witness:
  "\<exists>s' t' n'. retry_subtask 9 ''t1'' ''b'' 0 failed_store = (s', Inr t') \<and> node_of ''b'' t' = Some n' \<and>
    unat (st_dispatch_retry_count n') = 1 \<and> st_status n' = Pending"
proof -
  have "\<exists>t n. get_task ''t1'' failed_store = Some t \<and> t_status t \<notin> {Paused, TaskStatus.Completed} \<and> node_of ''b'' t = Some n \<and>
      st_dispatch_retry_count n = 0 \<and> st_status n = SubtaskStatus.Failed \<and>
      (\<forall>dep \<in> set (st_depends_on n). \<exists>m \<in> set (t_subtasks t). st_id m = dep \<and> st_status m = SubtaskStatus.Completed) \<and> (0 :: u32) \<noteq> - 1"
    by (intro exI[of _ "task_of failed_nodes"] exI[of _ "(plain_subtask ''b'' [''a''])\<lparr>st_status := SubtaskStatus.Failed\<rparr>"])
      (simp add: failed_store_get, simp add: task_of_def failed_nodes_def plain_subtask_def)
  from retry_subtask_exact[of "''t1''" failed_store "''b''" 0 9, unfolded if_P[OF this]] show ?thesis by auto
qed

definition ready_store :: TaskStore where
  "ready_store = TaskStore_new\<lparr>ts_tasks := [(''t1'', task_of [(plain_subtask ''a'' [])\<lparr>st_status := SubtaskStatus.Completed\<rparr>, plain_subtask ''b'' [''a'']])]\<rparr>"

theorem dispatch_not_stuck_witness:
  "\<exists>n \<in> set (get_ready_subtasks ''t1'' ready_store). st_status n = Pending"
proof -
  let ?nodes = "[(plain_subtask ''a'' [])\<lparr>st_status := SubtaskStatus.Completed\<rparr>, plain_subtask ''b'' [''a'']]"
  have r: "resolve_execution_order (t_subtasks (task_of ?nodes)) = Some (Inr [[''a''], [''b'']])" by code_simp
  have g: "get_task ''t1'' ready_store = Some (task_of ?nodes)" "''t1'' \<notin> ts_durability_faults ready_store"
    by (simp_all add: get_task_def ready_store_def TaskStore_new_def)
  have "t_status (task_of ?nodes) = TaskStatus.InProgress" "distinct (map st_id (t_subtasks (task_of ?nodes)))"
    "\<forall>n \<in> set (t_subtasks (task_of ?nodes)). set (st_depends_on n) \<subseteq> st_id ` set (t_subtasks (task_of ?nodes))"
    "\<forall>n \<in> set (t_subtasks (task_of ?nodes)). st_status n \<in> {Pending, SubtaskStatus.Completed}"
    "\<exists>n \<in> set (t_subtasks (task_of ?nodes)). st_status n = Pending"
    by (simp_all add: task_of_def plain_subtask_def)
  from dispatch_not_stuck[OF g(1) this(1) g(2) this(2) r this(3-5)] show ?thesis by blast
qed

definition running_store :: TaskStore where
  "running_store = TaskStore_new\<lparr>ts_tasks := [(''t1'', task_of [plain_subtask ''a'' [], (plain_subtask ''b'' [''a''])\<lparr>st_status := SubtaskStatus.InProgress\<rparr>])]\<rparr>"

text \<open>
  A sweep re-arms the subtask without counting the attempt, so the result of the swept attempt is still current: it
  completes the subtask that waits for its next dispatch.
\<close>

lemma swept_attempt_not_fenced:
  "snd (revert_swept_subtask 9 ''t1'' ''b'' True running_store) \<and>
   map_option st_status (Option.bind (get_task ''t1'' (apply_update_with_metadata id 12 (\<lambda>_. ''w'') late_result None None
     (fst (revert_swept_subtask 9 ''t1'' ''b'' True running_store)))) (node_of ''b'')) = Some SubtaskStatus.Completed"
  by code_simp

end
