(* ===== verification/Graph_Types.thy ===== *)
theory Graph_Types
  imports Agent_Types
begin

text \<open>
  The vocabulary of the durable graph runtime: the node state machine of \<open>crates/uc-types/src/graph.rs\<close> and the
  contract of the merge barrier (\<open>crates/uc-types/src/merge.rs\<close>).
\<close>

section \<open>Node states\<close>

datatype NodeStatus = Created | Ready | Scheduled | Running | Waiting | Succeeded | Failed | Cancelled | Skipped

fun NodeStatus_as_str :: "NodeStatus \<Rightarrow> string" where
  "NodeStatus_as_str NodeStatus.Created = ''CREATED''"
| "NodeStatus_as_str Ready = ''READY''"
| "NodeStatus_as_str Scheduled = ''SCHEDULED''"
| "NodeStatus_as_str Running = ''RUNNING''"
| "NodeStatus_as_str Waiting = ''WAITING''"
| "NodeStatus_as_str Succeeded = ''SUCCEEDED''"
| "NodeStatus_as_str NodeStatus.Failed = ''FAILED''"
| "NodeStatus_as_str Cancelled = ''CANCELLED''"
| "NodeStatus_as_str Skipped = ''SKIPPED''"

definition from_token :: "string \<Rightarrow> NodeStatus option" where
  "from_token token =
     (if token = ''CREATED'' then Some NodeStatus.Created
      else if token = ''READY'' then Some Ready
      else if token = ''SCHEDULED'' then Some Scheduled
      else if token = ''RUNNING'' then Some Running
      else if token = ''WAITING'' then Some Waiting
      else if token = ''SUCCEEDED'' then Some Succeeded
      else if token = ''FAILED'' then Some NodeStatus.Failed
      else if token = ''CANCELLED'' then Some Cancelled
      else if token = ''SKIPPED'' then Some Skipped
      else None)"

definition is_terminal :: "NodeStatus \<Rightarrow> bool" where
  "is_terminal n \<longleftrightarrow> n \<in> {Succeeded, Cancelled, Skipped}"

definition NodeStatus_from_str :: "string \<Rightarrow> (string, NodeStatus) result" where
  "NodeStatus_from_str s = (case from_token s of None \<Rightarrow> Inl (''unknown node state token: '' @ s) | Some n \<Rightarrow> Inr n)"

definition legal_edges :: "(NodeStatus \<times> NodeStatus) list" where
  "legal_edges =
     [(NodeStatus.Created, Ready), (NodeStatus.Created, Cancelled), (NodeStatus.Created, Skipped),
      (Ready, Scheduled), (Ready, Cancelled), (Ready, Skipped),
      (Scheduled, Running), (Scheduled, Ready), (Scheduled, Cancelled),
      (Running, Waiting), (Running, Succeeded), (Running, NodeStatus.Failed), (Running, Ready), (Running, Cancelled),
      (Waiting, Running), (Waiting, NodeStatus.Failed),
      (NodeStatus.Failed, Ready)]"

definition can_transition :: "NodeStatus \<Rightarrow> NodeStatus \<Rightarrow> bool" where
  "can_transition from to \<longleftrightarrow> (from, to) \<in> set legal_edges"

lemma from_token_as_str [simp]: "from_token (NodeStatus_as_str n) = Some n"
  by (cases n) (simp_all add: from_token_def)

lemma from_token_SomeD: "from_token token = Some n \<Longrightarrow> token = NodeStatus_as_str n"
  by (auto simp: from_token_def split: if_splits)

lemma NodeStatus_as_str_inject [simp]: "NodeStatus_as_str m = NodeStatus_as_str n \<longleftrightarrow> m = n"
  by (metis from_token_as_str option.inject)

lemma can_transition_irrefl: "\<not> can_transition n n"
  by (cases n) (simp_all add: can_transition_def legal_edges_def)

lemma can_transition_terminal: "is_terminal n \<Longrightarrow> \<not> can_transition n m"
  by (auto simp: can_transition_def legal_edges_def is_terminal_def)

section \<open>The merge barrier\<close>

definition MERGE_KEY_LEN :: nat where
  "MERGE_KEY_LEN = 32"

record MergeGrantDecision =
  mg_granted :: bool
  mg_merge_idempotency_key :: string
  mg_idempotent_replay :: bool
  mg_error :: string

record MergeOutcomeReport =
  mo_status :: string
  mo_merged_branches :: "string list"
  mo_conflict_branches :: "string list"
  mo_push_status :: string

record MergeReportDecision =
  mr_accepted :: bool
  mr_idempotent_replay :: bool

definition derive_merge_idempotency_key :: "(string \<Rightarrow> string) \<Rightarrow> string \<Rightarrow> (string \<times> string) list \<Rightarrow> string" where
  "derive_merge_idempotency_key sha256_hex graph_id succeeded =
     (let ordered = sort_key fst succeeded;
          csv = map fst ordered;
          pairs = map (\<lambda>(node, sha). node @ ''='' @ sha) ordered;
          preimage = ''merge:'' @ graph_id @ '':'' @ join_with '','' csv @ '':'' @ join_with '';'' pairs
      in take MERGE_KEY_LEN (sha256_hex preimage))"

lemma sort_key_fst_unique:
  assumes "distinct (map fst xs)" "mset xs = mset ys"
  shows "sort_key fst xs = sort_key (fst :: 'a::linorder \<times> 'b \<Rightarrow> 'a) ys"
proof (rule map_sorted_distinct_set_unique[where f = fst])
  have "set xs = set ys" using assms(2) by (rule mset_eq_setD)
  moreover have dist: "distinct (map fst ys)" using assms by (metis mset_eq_imp_distinct_iff mset_map)
  ultimately show "inj_on fst (set (sort_key fst xs) \<union> set (sort_key fst ys))" "set (sort_key fst xs) = set (sort_key fst ys)"
    by (simp_all add: distinct_map)
  show "distinct (map fst (sort_key fst xs))" "distinct (map fst (sort_key fst ys))"
    using assms(1) dist by (simp_all add: distinct_map)
qed simp_all

text \<open>The key of a merge depends on the set of succeeded nodes and not on the order the database lists them in.\<close>

lemma merge_key_order_free:
  assumes "distinct (map fst xs)" "mset xs = mset ys"
  shows "derive_merge_idempotency_key sha256_hex graph_id xs = derive_merge_idempotency_key sha256_hex graph_id ys"
  by (simp add: derive_merge_idempotency_key_def sort_key_fst_unique[OF assms])

end
