(* ===== verification/Graph_Projection.thy ===== *)
theory Graph_Projection
  imports Task_Backend Graph_Types
begin

text \<open>
  The pure part of \<open>crates/uc-engine/src/graph_store.rs\<close>: the mapping of status strings to node states, and the
  projection of a task, in its Rust shape and in the TypeScript shape, into the rows of the graph tables. The JSON
  arrays of dependencies and capabilities are lists; the conversion of milliseconds by chrono is an argument.
\<close>

section \<open>Status tokens\<close>

definition is_ascii_uppercase :: "char \<Rightarrow> bool" where
  "is_ascii_uppercase c \<longleftrightarrow> CHR ''A'' \<le> c \<and> c \<le> CHR ''Z''"

definition ascii_upper :: "char \<Rightarrow> char" where
  "ascii_upper c = (if CHR ''a'' \<le> c \<and> c \<le> CHR ''z'' then char_of (of_char c - 32 :: nat) else c)"

definition to_ascii_uppercase :: "string \<Rightarrow> string" where
  "to_ascii_uppercase = map ascii_upper"

fun normalize_loop :: "string \<Rightarrow> string \<Rightarrow> string" where
  "normalize_loop [] out = out"
| "normalize_loop (ch # rest) out =
     (if is_ascii_uppercase ch then normalize_loop rest ((if out \<noteq> [] then out @ ''_'' else out) @ [ascii_lower ch])
      else if ch = CHR ''-'' \<or> ch = CHR '' '' then normalize_loop rest (out @ ''_'')
      else normalize_loop rest (out @ [ascii_lower ch]))"

definition normalize_status_token :: "string \<Rightarrow> string" where
  "normalize_status_token raw = normalize_loop raw []"

definition node_state_token :: "string \<Rightarrow> string" where
  "node_state_token raw =
     (let token = normalize_status_token raw
      in if token \<in> {''pending'', ''ready''} then ''READY''
         else if token \<in> {''assigned'', ''in_progress'', ''running'', ''reviewing''} then ''RUNNING''
         else if token \<in> {''completed'', ''succeeded''} then ''SUCCEEDED''
         else if token = ''failed'' then ''FAILED''
         else if token = ''conflicted'' then ''FAILED''
         else if token \<in> {''cancelled'', ''canceled''} then ''CANCELLED''
         else if token = ''paused'' then ''PAUSED''
         else to_ascii_uppercase token)"

definition graph_status_token :: "string \<Rightarrow> string" where
  "graph_status_token raw =
     (let token = normalize_status_token raw
      in if token = ''created'' then ''CREATED''
         else if token = ''planning'' then ''PLANNING''
         else node_state_token token)"

definition graph_status_of_task_status :: "TaskStatus \<Rightarrow> string" where
  "graph_status_of_task_status status = graph_status_token (TaskStatus_debug status)"

fun SubtaskStatus_debug :: "SubtaskStatus \<Rightarrow> string" where
  "SubtaskStatus_debug Pending = ''Pending''"
| "SubtaskStatus_debug Assigned = ''Assigned''"
| "SubtaskStatus_debug SubtaskStatus.InProgress = ''InProgress''"
| "SubtaskStatus_debug SubtaskStatus.Completed = ''Completed''"
| "SubtaskStatus_debug SubtaskStatus.Failed = ''Failed''"
| "SubtaskStatus_debug Conflicted = ''Conflicted''"

definition dependency_aware_state :: "string \<Rightarrow> string list \<Rightarrow> (string \<Rightarrow> bool) \<Rightarrow> string" where
  "dependency_aware_state raw_status deps is_satisfied =
     (let state = node_state_token raw_status
      in if state \<noteq> ''READY'' then state
         else if list_all is_satisfied deps then ''READY''
         else ''CREATED'')"

text \<open>A \<open>HashMap\<close> collected from pairs keeps the last value of a key.\<close>

definition collect_map :: "('a \<times> 'b) list \<Rightarrow> 'a \<rightharpoonup> 'b" where
  "collect_map pairs = map_of (rev pairs)"

definition node_status_of_subtask :: "Subtask \<Rightarrow> (string \<rightharpoonup> SubtaskStatus) \<Rightarrow> string" where
  "node_status_of_subtask subtask statuses =
     dependency_aware_state (SubtaskStatus_debug (st_status subtask)) (st_depends_on subtask)
       (\<lambda>dep. statuses dep = Some SubtaskStatus.Completed)"

definition subtask_status_index :: "Task \<Rightarrow> string \<rightharpoonup> SubtaskStatus" where
  "subtask_status_index task = collect_map (map (\<lambda>st. (st_id st, st_status st)) (t_subtasks task))"

definition transition_ok :: "string \<Rightarrow> string \<Rightarrow> bool" where
  "transition_ok from to = (case (from_token from, from_token to) of (Some f, Some t) \<Rightarrow> can_transition f t | _ \<Rightarrow> False)"

definition mirror_write_allowed :: "string \<Rightarrow> string \<Rightarrow> bool" where
  "mirror_write_allowed prev_state mirror_state \<longleftrightarrow> prev_state = mirror_state \<or> transition_ok prev_state mirror_state"

section \<open>Row shapes\<close>

definition attempt_id :: "string \<Rightarrow> string \<Rightarrow> int \<Rightarrow> string" where
  "attempt_id graph_id node_id retry_no = graph_id @ '':'' @ node_id @ '':'' @ show_int retry_no"

record NodeRow =
  nr_node_id :: string
  nr_state :: string
  nr_dependencies :: "string list"
  nr_required_capabilities :: "string list"
  nr_effect_class :: string
  nr_node_type :: string

record AttemptRow =
  ar_attempt_id :: string
  ar_node_id :: string
  ar_worker_id :: "string option"
  ar_status :: string
  ar_retry_no :: int
  ar_started_at :: "datetime option"
  ar_finished_at :: "datetime option"
  ar_result_ref :: "string option"

record CompletionRow =
  cr_node_id :: string
  cr_winning_attempt_id :: string
  cr_result_ref :: "string option"
  cr_committed_at :: "datetime option"

record GraphProjection =
  gp_graph_id :: string
  gp_project_id :: string
  gp_status :: string
  gp_created_at :: datetime
  gp_updated_at :: datetime
  gp_nodes :: "NodeRow list"
  gp_attempts :: "AttemptRow list"
  gp_completions :: "CompletionRow list"

definition graph_scope_is_valid :: "string \<Rightarrow> bool" where
  "graph_scope_is_valid project_id \<longleftrightarrow> trim project_id \<noteq> []"

definition NODE_TYPE_SUBTASK :: string where
  "NODE_TYPE_SUBTASK = ''subtask''"

definition NODE_TYPE_REVIEW :: string where
  "NODE_TYPE_REVIEW = ''review''"

definition REVIEW_CAPABILITY :: string where
  "REVIEW_CAPABILITY = ''review''"

definition requires_independence :: "string list \<Rightarrow> bool" where
  "requires_independence required_capabilities \<longleftrightarrow> REVIEW_CAPABILITY \<in> set required_capabilities"

definition node_type_for :: "string list \<Rightarrow> string" where
  "node_type_for required_capabilities =
     (if requires_independence required_capabilities then NODE_TYPE_REVIEW else NODE_TYPE_SUBTASK)"

definition attempt_and_completion ::
  "string \<Rightarrow> string \<Rightarrow> string \<Rightarrow> u32 \<Rightarrow> string option \<Rightarrow> datetime option \<Rightarrow> datetime option \<Rightarrow>
   AttemptRow option \<times> CompletionRow option" where
  "attempt_and_completion graph_id node_id state retry_count worker_id started_at finished_at =
     (if state = NodeStatus_as_str Ready \<or> state = NodeStatus_as_str NodeStatus.Created then (None, None)
      else
        let retry_no = min (uint retry_count) (2 ^ 31 - 1);
            i = attempt_id graph_id node_id retry_no;
            result_ref = graph_id @ ''/'' @ node_id;
            attempt = \<lparr>ar_attempt_id = i, ar_node_id = node_id, ar_worker_id = worker_id, ar_status = state,
              ar_retry_no = retry_no, ar_started_at = started_at, ar_finished_at = finished_at, ar_result_ref = Some result_ref\<rparr>;
            completion = (if state = ''SUCCEEDED''
              then Some \<lparr>cr_node_id = node_id, cr_winning_attempt_id = i, cr_result_ref = Some result_ref, cr_committed_at = finished_at\<rparr>
              else None)
        in (Some attempt, completion))"

section \<open>The two projections\<close>

definition node_row_of :: "Subtask \<Rightarrow> string \<Rightarrow> NodeRow" where
  "node_row_of st state = \<lparr>nr_node_id = st_id st, nr_state = state, nr_dependencies = st_depends_on st,
     nr_required_capabilities = st_required_capabilities st, nr_effect_class = EffectClass_as_str (st_effect_class st),
     nr_node_type = node_type_for (st_required_capabilities st)\<rparr>"

definition attempt_of_subtask :: "Task \<Rightarrow> Subtask \<Rightarrow> string \<Rightarrow> AttemptRow option \<times> CompletionRow option" where
  "attempt_of_subtask task st state =
     (let worker_id = (case map_option res_worker_id (st_result st) of None \<Rightarrow> st_assigned_worker st | Some w \<Rightarrow> Some w);
          (started, finished) = (case st_result st of
              Some r \<Rightarrow> (Some (res_completed_at r), Some (res_completed_at r))
            | None \<Rightarrow> if state = ''RUNNING'' then (Some (t_updated_at task), None) else (None, None))
      in attempt_and_completion (t_id task) (st_id st) state (st_retry_count st) worker_id started finished)"

definition project_task :: "Task \<Rightarrow> GraphProjection" where
  "project_task task =
     (let statuses = subtask_status_index task;
          states = map (\<lambda>st. (st, node_status_of_subtask st statuses)) (t_subtasks task);
          rows = map (\<lambda>(st, state). attempt_of_subtask task st state) states
      in \<lparr>gp_graph_id = t_id task, gp_project_id = t_project_id task, gp_status = graph_status_of_task_status (t_status task),
          gp_created_at = t_created_at task, gp_updated_at = t_updated_at task,
          gp_nodes = map (\<lambda>(st, state). node_row_of st state) states,
          gp_attempts = List.map_filter fst rows, gp_completions = List.map_filter snd rows\<rparr>)"

record TsSubtask =
  tss_id :: string
  tss_status :: string
  tss_depends_on :: "string list"
  tss_started_at :: "int option"
  tss_completed_at :: "int option"
  tss_retry_count :: "u32 option"
  tss_required_capabilities :: "string list option"
  tss_effect_class :: "string option"

record TsPersistedTask =
  tst_id :: string
  tst_status :: string
  tst_project_id :: "string option"
  tst_saved_at :: "int option"
  tst_created_at :: "int option"
  tst_subtasks :: "TsSubtask list"

definition ms_to_ts :: "(int \<Rightarrow> datetime option) \<Rightarrow> int option \<Rightarrow> datetime option" where
  "ms_to_ts from_timestamp_millis ms = Option.bind ms from_timestamp_millis"

definition ts_node_row :: "TsSubtask \<Rightarrow> string \<Rightarrow> NodeRow" where
  "ts_node_row st state = \<lparr>nr_node_id = tss_id st, nr_state = state, nr_dependencies = tss_depends_on st,
     nr_required_capabilities = unwrap_or (tss_required_capabilities st) [],
     nr_effect_class = unwrap_or (tss_effect_class st) ''requires_worker'',
     nr_node_type = node_type_for (unwrap_or (tss_required_capabilities st) [])\<rparr>"

definition ts_state :: "(string \<rightharpoonup> string) \<Rightarrow> TsSubtask \<Rightarrow> string" where
  "ts_state statuses st = dependency_aware_state (tss_status st) (tss_depends_on st)
     (\<lambda>dep. case statuses dep of None \<Rightarrow> False | Some raw \<Rightarrow> node_state_token raw = ''SUCCEEDED'')"

definition project_ts_task :: "(int \<Rightarrow> datetime option) \<Rightarrow> TsPersistedTask \<Rightarrow> GraphProjection" where
  "project_ts_task from_millis task =
     (let created = unwrap_or
            (case ms_to_ts from_millis (tst_created_at task) of None \<Rightarrow> ms_to_ts from_millis (tst_saved_at task) | Some t \<Rightarrow> Some t) 0;
          updated = unwrap_or (ms_to_ts from_millis (tst_saved_at task)) created;
          statuses = collect_map (map (\<lambda>s. (tss_id s, tss_status s)) (tst_subtasks task));
          states = map (\<lambda>st. (st, ts_state statuses st)) (tst_subtasks task);
          rows = map (\<lambda>(st, state). attempt_and_completion (tst_id task) (tss_id st) state (unwrap_or (tss_retry_count st) 0) None
            (ms_to_ts from_millis (tss_started_at st)) (ms_to_ts from_millis (tss_completed_at st))) states
      in \<lparr>gp_graph_id = tst_id task, gp_project_id = unwrap_or (tst_project_id task) [],
          gp_status = graph_status_token (tst_status task), gp_created_at = created, gp_updated_at = updated,
          gp_nodes = map (\<lambda>(st, state). ts_node_row st state) states,
          gp_attempts = List.map_filter fst rows, gp_completions = List.map_filter snd rows\<rparr>)"

definition pick_newer_saved :: "TsPersistedTask \<Rightarrow> TsPersistedTask option \<Rightarrow> TsPersistedTask" where
  "pick_newer_saved task_file checkpoint = (case checkpoint of
     Some cp \<Rightarrow> if unwrap_or (tst_saved_at task_file) 0 < unwrap_or (tst_saved_at cp) 0 then cp else task_file
   | None \<Rightarrow> task_file)"

section \<open>The two projections agree\<close>

definition ts_mirrors :: "TsSubtask \<Rightarrow> Subtask \<Rightarrow> bool" where
  "ts_mirrors a b \<longleftrightarrow> tss_id a = st_id b \<and> node_state_token (tss_status a) = node_state_token (SubtaskStatus_debug (st_status b)) \<and>
     tss_depends_on a = st_depends_on b \<and> unwrap_or (tss_required_capabilities a) [] = st_required_capabilities b \<and>
     unwrap_or (tss_effect_class a) ''requires_worker'' = EffectClass_as_str (st_effect_class b) \<and>
     unwrap_or (tss_retry_count a) 0 = st_retry_count b"

lemma token_succeeded: "node_state_token (SubtaskStatus_debug s) = ''SUCCEEDED'' \<longleftrightarrow> s = SubtaskStatus.Completed"
proof -
  have "node_state_token ''Pending'' = ''READY''" "node_state_token ''Assigned'' = ''RUNNING''" "node_state_token ''InProgress'' = ''RUNNING''"
    "node_state_token ''Completed'' = ''SUCCEEDED''" "node_state_token ''Failed'' = ''FAILED''" "node_state_token ''Conflicted'' = ''FAILED''"
    by code_simp+
  then show ?thesis by (cases s) simp_all
qed

lemma satisfied_agree:
  assumes "list_all2 ts_mirrors xs ys"
  shows "(case collect_map (map (\<lambda>s. (tss_id s, tss_status s)) xs) dep of None \<Rightarrow> False | Some raw \<Rightarrow> node_state_token raw = ''SUCCEEDED'') \<longleftrightarrow>
    collect_map (map (\<lambda>st. (st_id st, st_status st)) ys) dep = Some SubtaskStatus.Completed"
proof -
  have "rel_option (\<lambda>raw s. node_state_token raw = node_state_token (SubtaskStatus_debug s))
      (collect_map (map (\<lambda>s. (tss_id s, tss_status s)) xs) dep) (collect_map (map (\<lambda>st. (st_id st, st_status st)) ys) dep)"
    using assms unfolding collect_map_def
  proof (induction rule: list_all2_induct)
    case (Cons x xs y ys)
    then show ?case
      by (cases "map_of (rev (map (\<lambda>s. (tss_id s, tss_status s)) xs)) dep"; cases "map_of (rev (map (\<lambda>st. (st_id st, st_status st)) ys)) dep")
        (auto simp: ts_mirrors_def map_add_def)
  qed simp
  then show ?thesis by (cases rule: option.rel_cases) (auto simp: token_succeeded)
qed

lemma map_filter_map_map: "List.map_filter f (map g xs) = List.map_filter (f \<circ> g) xs"
  by (induction xs) (auto simp: map_filter_simps split: option.splits)

lemma map_filter_agree:
  "list_all2 (\<lambda>a b. map_option h (f a) = map_option h (g b)) xs ys \<Longrightarrow> map h (List.map_filter f xs) = map h (List.map_filter g ys)"
proof (induction rule: list_all2_induct)
  case (Cons x xs y ys)
  then show ?case by (cases "f x"; cases "g y") (auto simp: map_filter_simps)
qed (simp add: map_filter_simps)

lemma attempt_and_completion_agree:
  "map_option (\<lambda>r. (ar_attempt_id r, ar_node_id r, ar_status r, ar_retry_no r, ar_result_ref r)) (fst (attempt_and_completion g i s k w t u)) =
   map_option (\<lambda>r. (ar_attempt_id r, ar_node_id r, ar_status r, ar_retry_no r, ar_result_ref r)) (fst (attempt_and_completion g i s k w' t' u'))"
  "map_option (\<lambda>c. (cr_node_id c, cr_winning_attempt_id c, cr_result_ref c)) (snd (attempt_and_completion g i s k w t u)) =
   map_option (\<lambda>c. (cr_node_id c, cr_winning_attempt_id c, cr_result_ref c)) (snd (attempt_and_completion g i s k w' t' u'))"
  by (simp_all add: attempt_and_completion_def Let_def)

lemma attempt_of_subtask_ex:
  "\<exists>w t u. attempt_of_subtask task b s = attempt_and_completion (t_id task) (st_id b) s (st_retry_count b) w t u"
  unfolding attempt_of_subtask_def Let_def split_beta by blast

definition same_attempt :: "AttemptRow option \<times> CompletionRow option \<Rightarrow> AttemptRow option \<times> CompletionRow option \<Rightarrow> bool" where
  "same_attempt x y \<longleftrightarrow> (\<exists>g i s k w t u w' t' u'. x = attempt_and_completion g i s k w t u \<and> y = attempt_and_completion g i s k w' t' u')"

lemma same_attempt_agree:
  assumes "same_attempt x y"
  shows "map_option (\<lambda>r. (ar_attempt_id r, ar_node_id r, ar_status r, ar_retry_no r, ar_result_ref r)) (fst x) =
      map_option (\<lambda>r. (ar_attempt_id r, ar_node_id r, ar_status r, ar_retry_no r, ar_result_ref r)) (fst y)"
    "map_option (\<lambda>c. (cr_node_id c, cr_winning_attempt_id c, cr_result_ref c)) (snd x) =
      map_option (\<lambda>c. (cr_node_id c, cr_winning_attempt_id c, cr_result_ref c)) (snd y)"
proof -
  obtain g i s k w t u w' t' u' where x: "x = attempt_and_completion g i s k w t u" and y: "y = attempt_and_completion g i s k w' t' u'"
    using assms unfolding same_attempt_def by blast
  show "map_option (\<lambda>r. (ar_attempt_id r, ar_node_id r, ar_status r, ar_retry_no r, ar_result_ref r)) (fst x) =
      map_option (\<lambda>r. (ar_attempt_id r, ar_node_id r, ar_status r, ar_retry_no r, ar_result_ref r)) (fst y)"
    unfolding x y by (rule attempt_and_completion_agree(1))
  show "map_option (\<lambda>c. (cr_node_id c, cr_winning_attempt_id c, cr_result_ref c)) (snd x) =
      map_option (\<lambda>c. (cr_node_id c, cr_winning_attempt_id c, cr_result_ref c)) (snd y)"
    unfolding x y by (rule attempt_and_completion_agree(2))
qed

text \<open>
  C20. A task in its TypeScript shape and the same task in its Rust shape, whose statuses map to the same tokens, project
  to the same rows: the same nodes with the same states, the same attempts up to worker and times, and the same
  completions up to the time.
\<close>

theorem projections_agree:
  assumes "list_all2 ts_mirrors (tst_subtasks ts) (t_subtasks task)" "tst_id ts = t_id task"
  shows "gp_nodes (project_ts_task of_millis ts) = gp_nodes (project_task task) \<and>
    map (\<lambda>r. (ar_attempt_id r, ar_node_id r, ar_status r, ar_retry_no r, ar_result_ref r)) (gp_attempts (project_ts_task of_millis ts)) =
      map (\<lambda>r. (ar_attempt_id r, ar_node_id r, ar_status r, ar_retry_no r, ar_result_ref r)) (gp_attempts (project_task task)) \<and>
    map (\<lambda>c. (cr_node_id c, cr_winning_attempt_id c, cr_result_ref c)) (gp_completions (project_ts_task of_millis ts)) =
      map (\<lambda>c. (cr_node_id c, cr_winning_attempt_id c, cr_result_ref c)) (gp_completions (project_task task))"
proof -
  define tsm where "tsm = collect_map (map (\<lambda>s. (tss_id s, tss_status s)) (tst_subtasks ts))"
  have state: "ts_state tsm a = node_status_of_subtask b (subtask_status_index task)" if "ts_mirrors a b" for a b
    using that satisfied_agree[OF assms(1)]
    by (simp add: ts_state_def node_status_of_subtask_def dependency_aware_state_def ts_mirrors_def subtask_status_index_def tsm_def)
  have nodes: "list_all2 (\<lambda>a b. ts_node_row a (ts_state tsm a) = node_row_of b (node_status_of_subtask b (subtask_status_index task)))
      (tst_subtasks ts) (t_subtasks task)"
    using assms(1) by (rule list_all2_mono) (simp add: state, simp add: ts_mirrors_def ts_node_row_def node_row_of_def)
  let ?ts = "\<lambda>a. attempt_and_completion (tst_id ts) (tss_id a) (ts_state tsm a) (unwrap_or (tss_retry_count a) 0) None
    (ms_to_ts of_millis (tss_started_at a)) (ms_to_ts of_millis (tss_completed_at a))"
  let ?rs = "\<lambda>b. attempt_of_subtask task b (node_status_of_subtask b (subtask_status_index task))"
  have rows: "list_all2 (\<lambda>a b. same_attempt (?ts a) (?rs b)) (tst_subtasks ts) (t_subtasks task)"
    using assms(1)
  proof (rule list_all2_mono)
    fix a b
    assume m: "ts_mirrors a b"
    obtain w t u where "?rs b = attempt_and_completion (t_id task) (st_id b) (node_status_of_subtask b (subtask_status_index task)) (st_retry_count b) w t u"
      using attempt_of_subtask_ex by blast
    moreover have "tss_id a = st_id b" "unwrap_or (tss_retry_count a) 0 = st_retry_count b" using m by (simp_all add: ts_mirrors_def)
    ultimately show "same_attempt (?ts a) (?rs b)" unfolding same_attempt_def assms(2) state[OF m] by metis
  qed
  have rows1: "list_all2 (\<lambda>a b. map_option (\<lambda>r. (ar_attempt_id r, ar_node_id r, ar_status r, ar_retry_no r, ar_result_ref r)) (fst (?ts a)) =
      map_option (\<lambda>r. (ar_attempt_id r, ar_node_id r, ar_status r, ar_retry_no r, ar_result_ref r)) (fst (?rs b))) (tst_subtasks ts) (t_subtasks task)"
    using rows by (rule list_all2_mono) (rule same_attempt_agree(1))
  have rows2: "list_all2 (\<lambda>a b. map_option (\<lambda>c. (cr_node_id c, cr_winning_attempt_id c, cr_result_ref c)) (snd (?ts a)) =
      map_option (\<lambda>c. (cr_node_id c, cr_winning_attempt_id c, cr_result_ref c)) (snd (?rs b))) (tst_subtasks ts) (t_subtasks task)"
    using rows by (rule list_all2_mono) (rule same_attempt_agree(2))
  have "map (\<lambda>a. ts_node_row a (ts_state tsm a)) (tst_subtasks ts) =
      map (\<lambda>b. node_row_of b (node_status_of_subtask b (subtask_status_index task))) (t_subtasks task)"
    using nodes by (simp add: list.rel_map list.rel_eq[symmetric])
  then show ?thesis
    using map_filter_agree[OF rows1] map_filter_agree[OF rows2]
    by (simp add: project_ts_task_def project_task_def Let_def tsm_def[symmetric] comp_def map_filter_map_map)
qed

end
