(* ===== verification/Graph_Store.thy ===== *)
theory Graph_Store
  imports Graph_Projection
begin

text \<open>
  The graph tables and the attempt lifecycle of \<open>crates/uc-engine/src/graph_store.rs\<close>. A table is an association
  list over its primary key, in the order of insertion; the unique constraints of the schema are checked where a
  statement can violate one. A transaction is a function of the database that returns the old one on an error. The
  clock of the database is the argument \<open>now\<close>; \<open>gd_fault\<close> is the error of a database that cannot be reached. Columns
  that no statement writes (dependency policy, scope, priority, deadline, references) are left out.
\<close>

section \<open>Tables\<close>

datatype json = JNull | JBool bool | JString string | JNumber int | JArray "json list" | JObject "(string \<times> json) list"

definition json_opt :: "string option \<Rightarrow> json" where
  "json_opt x = (case x of None \<Rightarrow> JNull | Some s \<Rightarrow> JString s)"

record ExecutionGraph =
  eg_project_id :: string
  eg_status :: string
  eg_version :: nat
  eg_imported :: bool
  eg_created_at :: datetime
  eg_updated_at :: datetime

record GraphNode =
  gn_type :: string
  gn_state :: string
  gn_dependencies :: "string list"
  gn_optional :: bool
  gn_effect_class :: string
  gn_required_capabilities :: "string list"
  gn_version :: nat

record TaskAttempt =
  ta_graph_id :: string
  ta_node_id :: string
  ta_worker_id :: "string option"
  ta_worker_epoch :: "nat option"
  ta_status :: string
  ta_retry_no :: int
  ta_started_at :: "datetime option"
  ta_heartbeat_at :: "datetime option"
  ta_finished_at :: "datetime option"
  ta_result_ref :: "string option"

record EventUsage =
  eu_cost :: "int option"
  eu_tokens :: "int option"
  eu_duration_ms :: "int option"

record ExecutionEvent =
  ev_graph_id :: string
  ev_node_id :: "string option"
  ev_attempt_id :: "string option"
  ev_graph_version :: "nat option"
  ev_event_type :: string
  ev_payload :: json
  ev_usage :: EventUsage
  ev_created_at :: datetime

record NodeCompletion =
  nc_graph_id :: string
  nc_winning_attempt_id :: string
  nc_result_ref :: "string option"
  nc_committed_at :: datetime

record MergeGrant =
  gr_merge_idempotency_key :: string
  gr_issued_at :: datetime
  gr_consumed_at :: "datetime option"
  gr_outcome :: "json option"

record GraphDb =
  gd_graphs :: "(string \<times> ExecutionGraph) list"
  gd_nodes :: "((string \<times> string) \<times> GraphNode) list"
  gd_attempts :: "(string \<times> TaskAttempt) list"
  gd_events :: "ExecutionEvent list"
  gd_completions :: "(string \<times> NodeCompletion) list"
  gd_grants :: "(string \<times> MergeGrant) list"
  gd_fault :: "string option"

definition empty_db :: GraphDb where
  "empty_db = \<lparr>gd_graphs = [], gd_nodes = [], gd_attempts = [], gd_events = [], gd_completions = [], gd_grants = [], gd_fault = None\<rparr>"

definition begin_tx :: "string \<Rightarrow> (GraphDb \<Rightarrow> GraphDb \<times> (EngineError, 'a) result) \<Rightarrow> GraphDb \<Rightarrow> GraphDb \<times> (EngineError, 'a) result" where
  "begin_tx what body db = (case gd_fault db of
     Some e \<Rightarrow> (db, Inl (StorageError (what @ '' tx begin: '' @ e)))
   | None \<Rightarrow> (case body db of (db', Inr r) \<Rightarrow> (db', Inr r) | (_, Inl e) \<Rightarrow> (db, Inl e)))"

definition graph_exists :: "string \<Rightarrow> GraphDb \<Rightarrow> (EngineError, bool) result" where
  "graph_exists graph_id db = (case gd_fault db of
     Some e \<Rightarrow> Inl (StorageError (''graph exists check: '' @ e))
   | None \<Rightarrow> Inr (map_of (gd_graphs db) graph_id \<noteq> None))"

section \<open>Statements of a transaction\<close>

definition bump_graph_version_tx :: "datetime \<Rightarrow> string \<Rightarrow> GraphDb \<Rightarrow> GraphDb \<times> nat" where
  "bump_graph_version_tx now graph_id db =
     (let row = (case map_of (gd_graphs db) graph_id of
          None \<Rightarrow> \<lparr>eg_project_id = [], eg_status = ''RUNNING'', eg_version = 1, eg_imported = False,
            eg_created_at = now, eg_updated_at = now\<rparr>
        | Some g \<Rightarrow> g\<lparr>eg_version := eg_version g + 1, eg_updated_at := now\<rparr>)
      in (db\<lparr>gd_graphs := AList.update graph_id row (gd_graphs db)\<rparr>, eg_version row))"

definition no_usage :: EventUsage where
  "no_usage = \<lparr>eu_cost = None, eu_tokens = None, eu_duration_ms = None\<rparr>"

definition append_event_with_usage_tx ::
  "datetime \<Rightarrow> string \<Rightarrow> string option \<Rightarrow> string option \<Rightarrow> nat option \<Rightarrow> string \<Rightarrow> json \<Rightarrow> EventUsage option \<Rightarrow> GraphDb \<Rightarrow> GraphDb" where
  "append_event_with_usage_tx now graph_id node_id attempt graph_version event_type payload usage db =
     db\<lparr>gd_events := gd_events db @ [\<lparr>ev_graph_id = graph_id, ev_node_id = node_id, ev_attempt_id = attempt,
       ev_graph_version = graph_version, ev_event_type = event_type, ev_payload = payload,
       ev_usage = unwrap_or usage no_usage, ev_created_at = now\<rparr>]\<rparr>"

definition append_event_tx ::
  "datetime \<Rightarrow> string \<Rightarrow> string option \<Rightarrow> string option \<Rightarrow> nat option \<Rightarrow> string \<Rightarrow> json \<Rightarrow> GraphDb \<Rightarrow> GraphDb" where
  "append_event_tx now graph_id node_id attempt graph_version event_type payload db =
     append_event_with_usage_tx now graph_id node_id attempt graph_version event_type payload None db"

definition cas_node_state_tx ::
  "string \<Rightarrow> string \<Rightarrow> string \<Rightarrow> nat \<Rightarrow> string \<Rightarrow> GraphDb \<Rightarrow> GraphDb \<times> (EngineError, bool) result" where
  "cas_node_state_tx graph_id node_id expect_state expect_version new_state db =
     (if \<not> transition_ok expect_state new_state
      then (db, Inl (InvalidOperation (''illegal node transition '' @ expect_state @ '' -> '' @ new_state)))
      else case map_of (gd_nodes db) (graph_id, node_id) of
        Some n \<Rightarrow>
          if gn_state n = expect_state \<and> gn_version n = expect_version
          then (db\<lparr>gd_nodes := AList.update (graph_id, node_id) (n\<lparr>gn_state := new_state, gn_version := gn_version n + 1\<rparr>) (gd_nodes db)\<rparr>,
                Inr True)
          else (db, Inr False)
      | None \<Rightarrow> (db, Inr False))"

text \<open>The attempts of a node, in the order of the table.\<close>

definition attempts_of :: "string \<Rightarrow> string \<Rightarrow> GraphDb \<Rightarrow> TaskAttempt list" where
  "attempts_of graph_id node_id db = filter (\<lambda>a. ta_graph_id a = graph_id \<and> ta_node_id a = node_id) (map snd (gd_attempts db))"

definition next_retry_no :: "TaskAttempt list \<Rightarrow> int" where
  "next_retry_no attempts = fold max (map ta_retry_no attempts) (-1) + 1"

definition next_worker_epoch :: "TaskAttempt list \<Rightarrow> nat" where
  "next_worker_epoch attempts = fold max (List.map_filter ta_worker_epoch attempts) 0 + 1"

definition update_attempt :: "string \<Rightarrow> (TaskAttempt \<Rightarrow> TaskAttempt) \<Rightarrow> GraphDb \<Rightarrow> GraphDb" where
  "update_attempt i f db = (case map_of (gd_attempts db) i of
     None \<Rightarrow> db
   | Some a \<Rightarrow> db\<lparr>gd_attempts := AList.update i (f a) (gd_attempts db)\<rparr>)"

text \<open>The unique constraints of \<open>task_attempts\<close>: the primary key, and \<open>UNIQUE (node_id, retry_no)\<close>.\<close>

definition attempt_clash :: "string \<Rightarrow> string \<Rightarrow> int \<Rightarrow> GraphDb \<Rightarrow> bool" where
  "attempt_clash i node_id retry_no db \<longleftrightarrow> map_of (gd_attempts db) i \<noteq> None \<or>
     list_ex (\<lambda>(_, a). ta_node_id a = node_id \<and> ta_retry_no a = retry_no) (gd_attempts db)"

section \<open>Scheduling\<close>

definition schedule_payload :: "string option \<Rightarrow> int \<Rightarrow> json" where
  "schedule_payload worker_id retry_no = JObject [(''retry_no'', JNumber retry_no), (''worker_id'', json_opt worker_id)]"

definition start_attempt ::
  "datetime \<Rightarrow> string \<Rightarrow> string \<Rightarrow> string option \<Rightarrow> int \<Rightarrow> nat \<Rightarrow> nat \<Rightarrow> GraphDb \<Rightarrow> GraphDb \<times> (EngineError, string option) result" where
  "start_attempt now graph_id node_id worker_id retry_no worker_epoch gv db =
     (let attempt = attempt_id graph_id node_id retry_no
      in if attempt_clash attempt node_id retry_no db
         then (db, Inl (StorageError ''schedule: attempt insert: duplicate key value violates unique constraint''))
         else
           let row = \<lparr>ta_graph_id = graph_id, ta_node_id = node_id, ta_worker_id = worker_id, ta_worker_epoch = Some worker_epoch,
                 ta_status = ''RUNNING'', ta_retry_no = retry_no, ta_started_at = Some now, ta_heartbeat_at = Some now,
                 ta_finished_at = None, ta_result_ref = Some (graph_id @ ''/'' @ node_id @ ''/'' @ show_int retry_no)\<rparr>;
               db = db\<lparr>gd_attempts := gd_attempts db @ [(attempt, row)]\<rparr>
           in (append_event_tx now graph_id (Some node_id) (Some attempt) (Some gv) ''attempt_started''
                 (JObject [(''worker_epoch'', JNumber (int worker_epoch)), (''worker_id'', json_opt worker_id)]) db, Inr (Some attempt)))"

definition schedule_attempt ::
  "datetime \<Rightarrow> string \<Rightarrow> string \<Rightarrow> string option \<Rightarrow> GraphDb \<Rightarrow> GraphDb \<times> (EngineError, string option) result" where
  "schedule_attempt now graph_id node_id worker_id = begin_tx ''schedule_attempt'' (\<lambda>db0.
     case map_of (gd_nodes db0) (graph_id, node_id) of
       None \<Rightarrow> (db0, Inr None)
     | Some node \<Rightarrow>
         if gn_state node \<noteq> NodeStatus_as_str Ready \<or> \<not> transition_ok (gn_state node) (NodeStatus_as_str Scheduled)
            \<or> \<not> transition_ok (NodeStatus_as_str Scheduled) (NodeStatus_as_str Running)
         then (db0, Inr None)
         else
           let retry_no = next_retry_no (attempts_of graph_id node_id db0);
               worker_epoch = next_worker_epoch (attempts_of graph_id node_id db0)
           in if 2 ^ 31 - 1 < retry_no then (db0, Inl (StorageError ''schedule: retry probe: integer out of range''))
              else case bump_graph_version_tx now graph_id db0 of
                (db, gv) \<Rightarrow>
                  (case cas_node_state_tx graph_id node_id (NodeStatus_as_str Ready) (gn_version node) (NodeStatus_as_str Scheduled) db of
                     (db, Inl e) \<Rightarrow> (db, Inl e)
                   | (db, Inr False) \<Rightarrow> (db0, Inr None)
                   | (db, Inr True) \<Rightarrow>
                       let db = append_event_tx now graph_id (Some node_id) None (Some gv) ''node_scheduled'' (schedule_payload worker_id retry_no) db
                       in (case cas_node_state_tx graph_id node_id (NodeStatus_as_str Scheduled) (gn_version node + 1) (NodeStatus_as_str Running) db of
                             (db, Inl e) \<Rightarrow> (db, Inl e)
                           | (db, Inr False) \<Rightarrow> (db0, Inr None)
                           | (db, Inr True) \<Rightarrow>
                               start_attempt now graph_id node_id worker_id retry_no worker_epoch gv
                                 (append_event_tx now graph_id (Some node_id) None (Some gv) ''node_running''
                                    (schedule_payload worker_id retry_no) db))))"

definition retry_failed_node ::
  "datetime \<Rightarrow> string \<Rightarrow> string \<Rightarrow> u32 \<Rightarrow> GraphDb \<Rightarrow> GraphDb \<times> (EngineError, bool) result" where
  "retry_failed_node now graph_id node_id dispatch_attempt = begin_tx ''retry_failed_node'' (\<lambda>db0.
     case map_of (gd_nodes db0) (graph_id, node_id) of
       None \<Rightarrow> (db0, Inr False)
     | Some node \<Rightarrow>
         if gn_state node \<noteq> NodeStatus_as_str NodeStatus.Failed \<or> \<not> transition_ok (gn_state node) (NodeStatus_as_str Ready)
         then (db0, Inr False)
         else case bump_graph_version_tx now graph_id db0 of
           (db, gv) \<Rightarrow>
             (case cas_node_state_tx graph_id node_id (gn_state node) (gn_version node) (NodeStatus_as_str Ready) db of
                (db, Inl e) \<Rightarrow> (db, Inl e)
              | (db, Inr False) \<Rightarrow> (db0, Inr False)
              | (db, Inr True) \<Rightarrow>
                  (append_event_tx now graph_id (Some node_id) None (Some gv) ''node_retried''
                     (JObject [(''dispatch_attempt'', JNumber (uint dispatch_attempt))]) db, Inr True)))"

definition heartbeat_attempt :: "datetime \<Rightarrow> string \<Rightarrow> GraphDb \<Rightarrow> GraphDb \<times> (EngineError, bool) result" where
  "heartbeat_attempt now i = begin_tx ''heartbeat_attempt'' (\<lambda>db.
     case map_of (gd_attempts db) i of
       None \<Rightarrow> (db, Inr False)
     | Some a \<Rightarrow>
         if ta_status a \<noteq> ''RUNNING'' then (db, Inr False)
         else
           let graph_version = (case map_of (gd_graphs db) (ta_graph_id a) of None \<Rightarrow> 0 | Some g \<Rightarrow> eg_version g);
               db = update_attempt i (\<lambda>a. a\<lparr>ta_heartbeat_at := Some now\<rparr>) db
           in (append_event_tx now (ta_graph_id a) (Some (ta_node_id a)) (Some i) (Some graph_version) ''attempt_heartbeat'' (JObject []) db,
               Inr True))"

definition is_running :: "string \<Rightarrow> string \<Rightarrow> TaskAttempt \<Rightarrow> bool" where
  "is_running graph_id node_id a \<longleftrightarrow> ta_graph_id a = graph_id \<and> ta_node_id a = node_id \<and> ta_status a = ''RUNNING''"

text \<open>\<open>ORDER BY retry_no DESC LIMIT 1\<close> and \<open>ORDER BY attempt_id LIMIT 1\<close> over the running attempts of a node.\<close>

definition running_attempt_id :: "string \<Rightarrow> string \<Rightarrow> GraphDb \<Rightarrow> (EngineError, string option) result" where
  "running_attempt_id graph_id node_id db = (case gd_fault db of
     Some e \<Rightarrow> Inl (StorageError (''running attempt probe: '' @ e))
   | None \<Rightarrow> (case sort_key (\<lambda>(_, a). - ta_retry_no a) (filter (\<lambda>(_, a). is_running graph_id node_id a) (gd_attempts db)) of
       [] \<Rightarrow> Inr None
     | (i, _) # _ \<Rightarrow> Inr (Some i)))"

definition first_running :: "string \<Rightarrow> string \<Rightarrow> GraphDb \<Rightarrow> string option" where
  "first_running graph_id node_id db =
     (case sort (map fst (filter (\<lambda>(_, a). is_running graph_id node_id a) (gd_attempts db))) of [] \<Rightarrow> None | i # _ \<Rightarrow> Some i)"

definition running_attempt :: "string \<Rightarrow> string \<Rightarrow> GraphDb \<Rightarrow> (EngineError, string option) result" where
  "running_attempt graph_id node_id db = (case gd_fault db of
     Some e \<Rightarrow> Inl (StorageError (''running_attempt read: '' @ e))
   | None \<Rightarrow> Inr (first_running graph_id node_id db))"

section \<open>Readiness\<close>

text \<open>Whether a dependency is met by one of the rows \<open>state IN ('SUCCEEDED', 'SKIPPED')\<close>.\<close>

definition dep_satisfied :: "string \<Rightarrow> GraphDb \<Rightarrow> string \<Rightarrow> bool" where
  "dep_satisfied graph_id db dep \<longleftrightarrow>
     list_ex (\<lambda>((g, i), n). g = graph_id \<and> gn_state n \<in> {''SUCCEEDED'', ''SKIPPED''} \<and> i = dep \<and>
       (gn_state n = ''SUCCEEDED'' \<or> gn_optional n)) (gd_nodes db)"

fun flip_ready ::
  "datetime \<Rightarrow> string \<Rightarrow> (string \<Rightarrow> bool) \<Rightarrow> (string \<times> string list \<times> nat) list \<Rightarrow> nat option \<Rightarrow> string list \<Rightarrow> GraphDb \<Rightarrow>
   GraphDb \<times> (EngineError, string list) result" where
  "flip_ready now graph_id satisfied [] gv flipped db = (db, Inr flipped)"
| "flip_ready now graph_id satisfied ((node_id, deps, version) # rest) gv flipped db =
     (if \<not> list_all satisfied deps then flip_ready now graph_id satisfied rest gv flipped db
      else case cas_node_state_tx graph_id node_id (NodeStatus_as_str NodeStatus.Created) version (NodeStatus_as_str Ready) db of
        (db, Inl e) \<Rightarrow> (db, Inl e)
      | (db, Inr False) \<Rightarrow> flip_ready now graph_id satisfied rest gv flipped db
      | (db, Inr True) \<Rightarrow>
          (case (case gv of Some v \<Rightarrow> (db, v) | None \<Rightarrow> bump_graph_version_tx now graph_id db) of
             (db, v) \<Rightarrow> flip_ready now graph_id satisfied rest (Some v) (flipped @ [node_id])
               (append_event_tx now graph_id (Some node_id) None (Some v) ''node_ready''
                  (JObject [(''dependencies_satisfied'', JArray (map JString deps))]) db)))"

definition created_nodes :: "string \<Rightarrow> GraphDb \<Rightarrow> (string \<times> string list \<times> nat) list" where
  "created_nodes graph_id db = sort_key fst (map (\<lambda>((_, i), n). (i, gn_dependencies n, gn_version n))
     (filter (\<lambda>((g, _), n). g = graph_id \<and> gn_state n = ''CREATED'') (gd_nodes db)))"

definition recompute_ready_tx ::
  "datetime \<Rightarrow> string \<Rightarrow> nat option \<Rightarrow> GraphDb \<Rightarrow> GraphDb \<times> (EngineError, string list) result" where
  "recompute_ready_tx now graph_id graph_version db =
     (let candidates = created_nodes graph_id db
      in if candidates = [] then (db, Inr [])
         else flip_ready now graph_id (dep_satisfied graph_id db) candidates graph_version [] db)"

definition recompute_ready :: "datetime \<Rightarrow> string \<Rightarrow> GraphDb \<Rightarrow> GraphDb \<times> (EngineError, string list) result" where
  "recompute_ready now graph_id = begin_tx ''recompute_ready'' (recompute_ready_tx now graph_id None)"


section \<open>Commit once\<close>

definition total_tokens :: "SubtaskUsage \<Rightarrow> int option" where
  "total_tokens u = (case (su_input_tokens u, su_output_tokens u) of
     (None, None) \<Rightarrow> None
   | (input, output) \<Rightarrow> Some (sint (unwrap_or input 0 + unwrap_or output 0)))"

definition attempt_duration_ms :: "datetime option \<Rightarrow> datetime \<Rightarrow> int option" where
  "attempt_duration_ms started_at db_now = (case started_at of
     None \<Rightarrow> None
   | Some started \<Rightarrow>
       let elapsed = sgn (db_now - started) * (\<bar>db_now - started\<bar> div 1000000)
       in if 0 \<le> elapsed then Some elapsed else None)"

definition steps_payload :: "(StepUsage list \<Rightarrow> json option) \<Rightarrow> StepUsage list option \<Rightarrow> json option" where
  "steps_payload to_value steps = (case steps of
     None \<Rightarrow> None
   | Some steps \<Rightarrow> if steps = [] then None else to_value steps)"

definition append_late_result :: "datetime \<Rightarrow> string \<Rightarrow> string \<Rightarrow> string \<Rightarrow> string \<Rightarrow> GraphDb \<Rightarrow> GraphDb" where
  "append_late_result now graph_id node_id attempt reason db =
     append_event_tx now graph_id (Some node_id) (Some attempt) None ''late_result'' (JObject [(''reason'', JString reason)]) db"

definition reported_usage :: "SubtaskUsage option \<Rightarrow> SubtaskUsage option" where
  "reported_usage usage = (case usage of Some u \<Rightarrow> if SubtaskUsage_is_empty u then None else Some u | None \<Rightarrow> None)"

text \<open>The \<open>float8\<close> to \<open>numeric(18,6)\<close> conversion of the cost, which the database may refuse.\<close>

definition commit_usage ::
  "(f64 \<Rightarrow> (string, int) result) \<Rightarrow> SubtaskUsage option \<Rightarrow> datetime option \<Rightarrow> datetime \<Rightarrow> (string, EventUsage) result" where
  "commit_usage to_numeric reported started_at now =
     (let usage = (\<lambda>cost. \<lparr>eu_cost = cost, eu_tokens = Option.bind reported total_tokens,
            eu_duration_ms = attempt_duration_ms started_at now\<rparr>)
      in case Option.bind reported su_total_cost_usd of
        None \<Rightarrow> Inr (usage None)
      | Some c \<Rightarrow> (case to_numeric c of Inl e \<Rightarrow> Inl e | Inr v \<Rightarrow> Inr (usage (Some v))))"

definition commit_payload :: "(StepUsage list \<Rightarrow> json option) \<Rightarrow> string option \<Rightarrow> SubtaskUsage option \<Rightarrow> StepUsage list option \<Rightarrow> json" where
  "commit_payload to_value result_ref reported steps =
     JObject ([(''result_ref'', json_opt result_ref)] @
       (case steps_payload to_value steps of None \<Rightarrow> [] | Some v \<Rightarrow> [(''steps'', v)]) @
       [(''usage_reported'', JBool (reported \<noteq> None)), (''usage_source'', json_opt (Option.bind reported su_source))])"

text \<open>The winner's part of the transaction: the attempt, the node, the terminal event and the readiness of dependants.\<close>

definition settle_winner ::
  "(f64 \<Rightarrow> (string, int) result) \<Rightarrow> (StepUsage list \<Rightarrow> json option) \<Rightarrow> datetime \<Rightarrow> string \<Rightarrow> string \<Rightarrow> string \<Rightarrow> string option \<Rightarrow>
   SubtaskUsage option \<Rightarrow> StepUsage list option \<Rightarrow> GraphNode \<Rightarrow> TaskAttempt \<Rightarrow> GraphDb \<Rightarrow> GraphDb \<times> (EngineError, bool) result" where
  "settle_winner to_numeric to_value now graph_id node_id winner result_ref usage steps node a db =
     (case bump_graph_version_tx now graph_id db of
        (db, gv) \<Rightarrow>
          let db = update_attempt winner (\<lambda>a. if ta_status a = ''RUNNING''
                then a\<lparr>ta_status := ''SUCCEEDED'', ta_finished_at := Some now,
                  ta_result_ref := (case result_ref of None \<Rightarrow> ta_result_ref a | Some r \<Rightarrow> Some r)\<rparr> else a) db;
              reported = reported_usage usage
          in (case (if transition_ok (gn_state node) (NodeStatus_as_str Succeeded)
                    then cas_node_state_tx graph_id node_id (gn_state node) (gn_version node) (NodeStatus_as_str Succeeded) db
                    else (db, Inr False)) of
                (db, Inl e) \<Rightarrow> (db, Inl e)
              | (db, Inr _) \<Rightarrow>
                  (case commit_usage to_numeric reported (ta_started_at a) now of
                     Inl e \<Rightarrow> (db, Inl (StorageError (''event append (node_succeeded): '' @ e)))
                   | Inr event_usage \<Rightarrow>
                       let db = append_event_with_usage_tx now graph_id (Some node_id) (Some winner) (Some gv) ''node_succeeded''
                             (commit_payload to_value result_ref reported steps) (Some event_usage) db
                       in (case recompute_ready_tx now graph_id (Some gv) db of
                             (db, Inl e) \<Rightarrow> (db, Inl e)
                           | (db, Inr _) \<Rightarrow> (db, Inr True)))))"

definition commit_once ::
  "(f64 \<Rightarrow> (string, int) result) \<Rightarrow> (StepUsage list \<Rightarrow> json option) \<Rightarrow> datetime \<Rightarrow> string \<Rightarrow> string \<Rightarrow> string \<Rightarrow> string option \<Rightarrow>
   SubtaskUsage option \<Rightarrow> StepUsage list option \<Rightarrow> GraphDb \<Rightarrow> GraphDb \<times> (EngineError, bool) result" where
  "commit_once to_numeric to_value now graph_id node_id winner result_ref usage steps = begin_tx ''commit_once'' (\<lambda>db.
     case (map_of (gd_nodes db) (graph_id, node_id), map_of (gd_attempts db) winner) of
       (Some node, Some a) \<Rightarrow>
         if gn_state node = NodeStatus_as_str Succeeded \<or> ta_status a \<noteq> ''RUNNING''
         then (append_late_result now graph_id node_id winner ''fenced_or_unknown_attempt'' db, Inr False)
         else if map_of (gd_completions db) node_id \<noteq> None
         then (append_late_result now graph_id node_id winner ''lost_commit_once'' db, Inr False)
         else settle_winner to_numeric to_value now graph_id node_id winner result_ref usage steps node a
           (db\<lparr>gd_completions := gd_completions db @ [(node_id, \<lparr>nc_graph_id = graph_id, nc_winning_attempt_id = winner,
              nc_result_ref = result_ref, nc_committed_at = now\<rparr>)]\<rparr>)
     | _ \<Rightarrow> (append_late_result now graph_id node_id winner ''fenced_or_unknown_attempt'' db, Inr False))"

section \<open>Failing attempts\<close>

datatype FailOutcome = Fenced | RearmedToReady | NodeFailed

definition DEFAULT_MAX_ATTEMPTS :: int where
  "DEFAULT_MAX_ATTEMPTS = 3"

definition i32_saturating_pred :: "int \<Rightarrow> int" where
  "i32_saturating_pred i = max (- (2 ^ 31)) (i - 1)"

definition fail_node ::
  "datetime \<Rightarrow> string \<Rightarrow> string \<Rightarrow> string \<Rightarrow> string \<Rightarrow> GraphNode \<Rightarrow> nat \<Rightarrow> FailOutcome \<Rightarrow> GraphDb \<Rightarrow> GraphDb \<times> (EngineError, FailOutcome) result" where
  "fail_node now graph_id node_id attempt reason node gv outcome db =
     (let target = (if outcome = RearmedToReady then NodeStatus_as_str Ready else NodeStatus_as_str NodeStatus.Failed)
      in if \<not> transition_ok (gn_state node) target then (db, Inr outcome)
         else case cas_node_state_tx graph_id node_id (gn_state node) (gn_version node) target db of
           (db, Inl e) \<Rightarrow> (db, Inl e)
         | (db, Inr _) \<Rightarrow>
             (append_event_tx now graph_id (Some node_id) (Some attempt) (Some gv)
                (if outcome = RearmedToReady then ''node_ready'' else ''node_failed'') (JObject [(''reason'', JString reason)]) db, Inr outcome))"

definition fail_attempt_tx ::
  "datetime \<Rightarrow> string \<Rightarrow> string \<Rightarrow> string \<Rightarrow> int \<Rightarrow> string \<Rightarrow> GraphDb \<Rightarrow> GraphDb \<times> (EngineError, FailOutcome) result" where
  "fail_attempt_tx now graph_id node_id attempt max_attempts reason db =
     (let fenced = (append_late_result now graph_id node_id attempt (''late_fail: '' @ reason) db, Inr Fenced)
      in case (map_of (gd_nodes db) (graph_id, node_id), map_of (gd_attempts db) attempt) of
        (Some node, Some a) \<Rightarrow>
          if \<not> (ta_status a = ''RUNNING'' \<and> gn_state node \<noteq> NodeStatus_as_str Succeeded) then fenced
          else
            let db = update_attempt attempt (\<lambda>a. a\<lparr>ta_status := ''FAILED'', ta_finished_at := Some now\<rparr>) db
            in (case bump_graph_version_tx now graph_id db of
                  (db, gv) \<Rightarrow>
                    fail_node now graph_id node_id attempt reason node gv
                      (if ta_retry_no a < i32_saturating_pred max_attempts then RearmedToReady else NodeFailed)
                      (append_event_tx now graph_id (Some node_id) (Some attempt) (Some gv) ''attempt_failed''
                         (JObject [(''reason'', JString reason), (''retry_no'', JNumber (ta_retry_no a))]) db))
      | _ \<Rightarrow> fenced)"

definition fail_attempt ::
  "datetime \<Rightarrow> string \<Rightarrow> string \<Rightarrow> string \<Rightarrow> int \<Rightarrow> string \<Rightarrow> GraphDb \<Rightarrow> GraphDb \<times> (EngineError, FailOutcome) result" where
  "fail_attempt now graph_id node_id attempt max_attempts reason =
     begin_tx ''fail_attempt'' (fail_attempt_tx now graph_id node_id attempt max_attempts reason)"

record SweptAttempt =
  sw_graph_id :: string
  sw_node_id :: string
  sw_attempt_id :: string
  sw_rearmed :: bool

fun fail_each ::
  "datetime \<Rightarrow> int \<Rightarrow> string \<Rightarrow> (string \<times> string \<times> string) list \<Rightarrow> SweptAttempt list \<Rightarrow> GraphDb \<Rightarrow> GraphDb \<times> (EngineError, SweptAttempt list) result" where
  "fail_each now max_attempts reason [] swept db = (db, Inr swept)"
| "fail_each now max_attempts reason ((attempt, graph_id, node_id) # rest) swept db =
     (case fail_attempt now graph_id node_id attempt max_attempts reason db of
        (db, Inl e) \<Rightarrow> (db, Inl e)
      | (db, Inr outcome) \<Rightarrow>
          fail_each now max_attempts reason rest
            (if outcome \<noteq> Fenced
             then swept @ [\<lparr>sw_graph_id = graph_id, sw_node_id = node_id, sw_attempt_id = attempt, sw_rearmed = outcome = RearmedToReady\<rparr>]
             else swept) db)"

definition stale_attempts :: "datetime \<Rightarrow> int \<Rightarrow> GraphDb \<Rightarrow> (string \<times> string \<times> string) list" where
  "stale_attempts now window db = sort_key fst (map (\<lambda>(i, a). (i, ta_graph_id a, ta_node_id a))
     (filter (\<lambda>(_, a). ta_status a = ''RUNNING'' \<and>
        (case (case ta_heartbeat_at a of None \<Rightarrow> ta_started_at a | Some t \<Rightarrow> Some t) of None \<Rightarrow> False | Some t \<Rightarrow> t < now - window))
        (gd_attempts db)))"

definition timeout_sweep :: "datetime \<Rightarrow> int \<Rightarrow> int \<Rightarrow> GraphDb \<Rightarrow> GraphDb \<times> (EngineError, SweptAttempt list) result" where
  "timeout_sweep now heartbeat_timeout max_attempts db = (case gd_fault db of
     Some e \<Rightarrow> (db, Inl (StorageError (''timeout sweep scan: '' @ e)))
   | None \<Rightarrow> fail_each now max_attempts ''heartbeat_timeout'' (stale_attempts now heartbeat_timeout db) [] db)"

definition fail_running_attempts ::
  "datetime \<Rightarrow> string \<Rightarrow> int \<Rightarrow> string \<Rightarrow> GraphDb \<Rightarrow> GraphDb \<times> (EngineError, SweptAttempt list) result" where
  "fail_running_attempts now graph_id max_attempts reason db = (case gd_fault db of
     Some e \<Rightarrow> (db, Inl (StorageError (''pause-grace scan: '' @ e)))
   | None \<Rightarrow>
       fail_each now max_attempts reason (sort_key fst (map (\<lambda>(i, a). (i, graph_id, ta_node_id a))
         (filter (\<lambda>(_, a). ta_graph_id a = graph_id \<and> ta_status a = ''RUNNING'') (gd_attempts db)))) [] db)"

definition cancel_running_attempt ::
  "datetime \<Rightarrow> string \<Rightarrow> string \<Rightarrow> int \<Rightarrow> GraphDb \<Rightarrow> GraphDb \<times> (EngineError, SweptAttempt option) result" where
  "cancel_running_attempt now graph_id node_id max_attempts db = (case running_attempt graph_id node_id db of
     Inl e \<Rightarrow> (db, Inl e)
   | Inr None \<Rightarrow> (db, Inr None)
   | Inr (Some i) \<Rightarrow>
       (case fail_attempt now graph_id node_id i max_attempts ''cancelled'' db of
          (db, Inl e) \<Rightarrow> (db, Inl e)
        | (db, Inr outcome) \<Rightarrow>
            if outcome = Fenced then (db, Inr None)
            else (db, Inr (Some \<lparr>sw_graph_id = graph_id, sw_node_id = node_id, sw_attempt_id = i, sw_rearmed = outcome = RearmedToReady\<rparr>))))"

fun cancel_nodes_tx ::
  "datetime \<Rightarrow> string \<Rightarrow> string list \<Rightarrow> string list \<Rightarrow> GraphDb \<Rightarrow> GraphDb \<times> (EngineError, string list) result" where
  "cancel_nodes_tx now graph_id [] cancelled db = (db, Inr cancelled)"
| "cancel_nodes_tx now graph_id (node_id # rest) cancelled db = (case map_of (gd_nodes db) (graph_id, node_id) of
     None \<Rightarrow> cancel_nodes_tx now graph_id rest cancelled db
   | Some node \<Rightarrow>
       if \<not> transition_ok (gn_state node) (NodeStatus_as_str Cancelled) then cancel_nodes_tx now graph_id rest cancelled db
       else
         let running = first_running graph_id node_id db;
             db = (case running of None \<Rightarrow> db
               | Some i \<Rightarrow> update_attempt i (\<lambda>a. a\<lparr>ta_status := ''FAILED'', ta_finished_at := Some now\<rparr>) db)
         in (case bump_graph_version_tx now graph_id db of
               (db, gv) \<Rightarrow>
                 (case cas_node_state_tx graph_id node_id (gn_state node) (gn_version node) (NodeStatus_as_str Cancelled) db of
                    (db, Inl e) \<Rightarrow> (db, Inl e)
                  | (db, Inr _) \<Rightarrow>
                      cancel_nodes_tx now graph_id rest (cancelled @ [node_id])
                        (append_event_tx now graph_id (Some node_id) running (Some gv) ''node_cancelled''
                           (JObject [(''reason'', JString ''cancelled'')]) db))))"

definition cancel_nodes :: "datetime \<Rightarrow> string \<Rightarrow> string list \<Rightarrow> GraphDb \<Rightarrow> GraphDb \<times> (EngineError, string list) result" where
  "cancel_nodes now graph_id node_ids = begin_tx ''cancel_nodes'' (cancel_nodes_tx now graph_id node_ids [])"

end
