(* ===== verification/Graph_Mirror.thy ===== *)
theory Graph_Mirror
  imports Graph_Store Envelope
begin

text \<open>
  The rest of \<open>crates/uc-engine/src/graph_store.rs\<close>: the closure of a cancellation, the merge barrier, the write of a
  projection (import and live mirror), the backfills, and the sink the gateway calls. The files of an import directory
  and the rows of the \<open>tasks\<close> table are arguments.
\<close>

section \<open>Downstream closure\<close>

definition deps_of_graph :: "string \<Rightarrow> GraphDb \<Rightarrow> (string \<times> string list) list" where
  "deps_of_graph graph_id db = map (\<lambda>((_, i), n). (i, gn_dependencies n)) (filter (\<lambda>((g, _), _). g = graph_id) (gd_nodes db))"

fun closure_seed :: "(string \<times> string list) list \<Rightarrow> string list \<Rightarrow> string set \<Rightarrow> string list \<Rightarrow> string set \<times> string list" where
  "closure_seed deps [] seen queue = (seen, queue)"
| "closure_seed deps (r # roots) seen queue =
     (if map_of deps r \<noteq> None \<and> r \<notin> seen then closure_seed deps roots (insert r seen) (queue @ [r])
      else closure_seed deps roots seen queue)"

fun closure_push :: "string \<Rightarrow> (string \<times> string list) list \<Rightarrow> string set \<Rightarrow> string list \<Rightarrow> string set \<times> string list" where
  "closure_push i [] seen queue = (seen, queue)"
| "closure_push i ((node_id, node_deps) # rest) seen queue =
     (if node_id \<notin> seen \<and> i \<in> set node_deps then closure_push i rest (insert node_id seen) (queue @ [node_id])
      else closure_push i rest seen queue)"

lemma closure_push_measure:
  "length (filter (\<lambda>d. fst d \<notin> fst (closure_push i ds seen queue)) deps) + length (snd (closure_push i ds seen queue)) \<le>
   length (filter (\<lambda>d. fst d \<notin> seen) deps) + length queue" if "set ds \<subseteq> set deps"
  using that
proof (induction i ds seen queue rule: closure_push.induct)
  case (2 i n nd rest seen queue)
  have "length (filter (\<lambda>d. fst d \<notin> insert n seen) deps) < length (filter (\<lambda>d. fst d \<notin> seen) deps)" if "n \<notin> seen"
  proof -
    have "filter (\<lambda>d. fst d \<notin> insert n seen) deps = filter (\<lambda>d. fst d \<noteq> n) (filter (\<lambda>d. fst d \<notin> seen) deps)"
      unfolding filter_filter by (rule filter_cong) auto
    moreover have "(n, nd) \<in> set (filter (\<lambda>d. fst d \<notin> seen) deps)" using 2(3) that by simp
    moreover have "\<not> fst (n, nd) \<noteq> n" by simp
    ultimately show ?thesis using length_filter_less[of "(n, nd)" _ "\<lambda>d. fst d \<noteq> n"] by metis
  qed
  with 2(1,2)[OF _ ] 2(3) show ?case by (cases "n \<notin> seen \<and> i \<in> set nd") (simp_all, linarith)
qed simp

function closure_loop :: "(string \<times> string list) list \<Rightarrow> string set \<Rightarrow> string list \<Rightarrow> string list \<Rightarrow> string list" where
  "closure_loop deps seen [] closure = closure"
| "closure_loop deps seen (i # queue) closure =
     (case closure_push i deps seen queue of (seen', queue') \<Rightarrow> closure_loop deps seen' queue' (closure @ [i]))"
  by pat_completeness auto
termination
proof (relation "measure (\<lambda>(deps, seen, queue, _). length (filter (\<lambda>d. fst d \<notin> seen) deps) + length queue)", goal_cases)
  case (2 deps seen i queue closure seen' queue')
  then have "closure_push i deps seen queue = (seen', queue')" by simp
  then show ?case using closure_push_measure[OF subset_refl, of i deps seen queue] by simp
qed simp

definition downstream_closure :: "string \<Rightarrow> string list \<Rightarrow> GraphDb \<Rightarrow> (EngineError, string list) result" where
  "downstream_closure graph_id roots db = (case gd_fault db of
     Some e \<Rightarrow> Inl (StorageError (''closure scan: '' @ e))
   | None \<Rightarrow>
       let deps = deps_of_graph graph_id db
       in case closure_seed deps roots {} [] of (seen, queue) \<Rightarrow> Inr (closure_loop deps seen queue []))"

section \<open>The merge barrier\<close>

definition completion_of :: "string \<Rightarrow> string \<Rightarrow> GraphDb \<Rightarrow> string option" where
  "completion_of graph_id node_id db = (case map_of (gd_completions db) node_id of
     None \<Rightarrow> None
   | Some c \<Rightarrow> if nc_graph_id c = graph_id then nc_result_ref c else None)"

definition succeeded_set :: "(string \<Rightarrow> string) \<Rightarrow> string \<Rightarrow> GraphDb \<Rightarrow> (string \<times> string) list" where
  "succeeded_set sha256_hex graph_id db =
     map (\<lambda>((_, i), _). (i, sha256_hex (unwrap_or (completion_of graph_id i db) [])))
       (filter (\<lambda>((g, _), n). g = graph_id \<and> gn_state n = ''SUCCEEDED'') (gd_nodes db))"

definition refused_grant :: "string \<Rightarrow> MergeGrantDecision" where
  "refused_grant error = \<lparr>mg_granted = False, mg_merge_idempotency_key = [], mg_idempotent_replay = False, mg_error = error\<rparr>"

definition issue_merge_grant ::
  "(string \<Rightarrow> string) \<Rightarrow> datetime \<Rightarrow> string \<Rightarrow> GraphDb \<Rightarrow> GraphDb \<times> (EngineError, MergeGrantDecision) result" where
  "issue_merge_grant sha256_hex now graph_id db = (case gd_fault db of
     Some e \<Rightarrow> (db, Inl (StorageError (''merge grant quiescence: '' @ e)))
   | None \<Rightarrow>
       let states = map (\<lambda>(_, n). gn_state n) (filter (\<lambda>((g, _), _). g = graph_id) (gd_nodes db))
       in if list_ex (\<lambda>s. s \<notin> {''SUCCEEDED'', ''FAILED'', ''CANCELLED''}) states
          then (db, Inr (refused_grant (''graph '' @ graph_id @ '' is not quiescent (non-terminal nodes present)'')))
          else if states = [] then (db, Inr (refused_grant (''graph '' @ graph_id @ '' not found'')))
          else
            let key = derive_merge_idempotency_key sha256_hex graph_id (succeeded_set sha256_hex graph_id db);
                granted = (\<lambda>replay. \<lparr>mg_granted = True, mg_merge_idempotency_key = key, mg_idempotent_replay = replay, mg_error = []\<rparr>);
                fresh = (db\<lparr>gd_grants := AList.update graph_id
                    \<lparr>gr_merge_idempotency_key = key, gr_issued_at = now, gr_consumed_at = None, gr_outcome = None\<rparr> (gd_grants db)\<rparr>,
                    Inr (granted False))
            in (case map_of (gd_grants db) graph_id of
                  Some g \<Rightarrow> if gr_merge_idempotency_key g = key then (db, Inr (granted (gr_consumed_at g \<noteq> None))) else fresh
                | None \<Rightarrow> fresh))"

definition outcome_json :: "MergeOutcomeReport \<Rightarrow> json" where
  "outcome_json r = JObject [(''conflict_branches'', JArray (map JString (mo_conflict_branches r))),
     (''merged_branches'', JArray (map JString (mo_merged_branches r))),
     (''push_status'', JString (mo_push_status r)), (''status'', JString (mo_status r))]"

definition report_merge_outcome ::
  "datetime \<Rightarrow> string \<Rightarrow> string \<Rightarrow> MergeOutcomeReport \<Rightarrow> GraphDb \<Rightarrow> GraphDb \<times> (EngineError, MergeReportDecision) result" where
  "report_merge_outcome now graph_id key outcome db = (case gd_fault db of
     Some e \<Rightarrow> (db, Inl (StorageError (''merge report read: '' @ e)))
   | None \<Rightarrow> (case map_of (gd_grants db) graph_id of
       None \<Rightarrow> (db, Inr \<lparr>mr_accepted = False, mr_idempotent_replay = False\<rparr>)
     | Some g \<Rightarrow>
         if gr_merge_idempotency_key g \<noteq> key then (db, Inr \<lparr>mr_accepted = False, mr_idempotent_replay = False\<rparr>)
         else if gr_consumed_at g \<noteq> None then (db, Inr \<lparr>mr_accepted = True, mr_idempotent_replay = True\<rparr>)
         else (db\<lparr>gd_grants := AList.update graph_id (g\<lparr>gr_consumed_at := Some now, gr_outcome := Some (outcome_json outcome)\<rparr>) (gd_grants db)\<rparr>,
               Inr \<lparr>mr_accepted = True, mr_idempotent_replay = False\<rparr>)))"

section \<open>Reads\<close>

definition committed_dep_outputs :: "string \<Rightarrow> string list \<Rightarrow> GraphDb \<Rightarrow> (EngineError, ContextEntry list) result" where
  "committed_dep_outputs graph_id node_ids db =
     (if node_ids = [] then Inr []
      else case gd_fault db of
        Some e \<Rightarrow> Inl (StorageError (''committed_dep_outputs: '' @ e))
      | None \<Rightarrow> Inr (map (\<lambda>((_, i), n). \<lparr>ce_node_id = i, ce_success = gn_state n = NodeStatus_as_str Succeeded,
            ce_summary = unwrap_or (completion_of graph_id i db) []\<rparr>)
          (filter (\<lambda>((g, i), _). g = graph_id \<and> i \<in> set node_ids) (gd_nodes db))))"

definition node_state :: "string \<Rightarrow> string \<Rightarrow> GraphDb \<Rightarrow> (EngineError, string option) result" where
  "node_state graph_id node_id db = (case gd_fault db of
     Some e \<Rightarrow> Inl (StorageError (''node_state read: '' @ e))
   | None \<Rightarrow> Inr (map_option gn_state (map_of (gd_nodes db) (graph_id, node_id))))"

definition attempt_states :: "string \<Rightarrow> string \<Rightarrow> GraphDb \<Rightarrow> (EngineError, string list) result" where
  "attempt_states graph_id node_id db = (case gd_fault db of
     Some e \<Rightarrow> Inl (StorageError (''attempt_states read: '' @ e))
   | None \<Rightarrow> Inr (map (\<lambda>(_, a). ta_status a) (sort_key fst
       (filter (\<lambda>(_, a). ta_graph_id a = graph_id \<and> ta_node_id a = node_id) (gd_attempts db)))))"

definition list_graph_ids_newest_first :: "GraphDb \<Rightarrow> (EngineError, string list) result" where
  "list_graph_ids_newest_first db = (case gd_fault db of
     Some e \<Rightarrow> Inl (StorageError (''graph list: '' @ e))
   | None \<Rightarrow> Inr (map fst (sort_key (\<lambda>(_, g). - eg_created_at g) (sort_key fst (gd_graphs db)))))"

section \<open>Writing a projection\<close>

record BackfillStats =
  bs_graphs :: nat
  bs_nodes :: nat
  bs_attempts :: nat
  bs_completions :: nat
  bs_skipped_existing :: nat
  bs_mirror_state_dropped :: nat
  bs_mirror_rejected :: nat

definition BackfillStats_default :: BackfillStats where
  "BackfillStats_default = \<lparr>bs_graphs = 0, bs_nodes = 0, bs_attempts = 0, bs_completions = 0, bs_skipped_existing = 0,
     bs_mirror_state_dropped = 0, bs_mirror_rejected = 0\<rparr>"

definition write_graph :: "GraphProjection \<Rightarrow> bool \<Rightarrow> bool \<Rightarrow> GraphDb \<Rightarrow> GraphDb \<times> nat" where
  "write_graph p shadow imported db = (case map_of (gd_graphs db) (gp_graph_id p) of
     None \<Rightarrow> (db\<lparr>gd_graphs := gd_graphs db @ [(gp_graph_id p, \<lparr>eg_project_id = gp_project_id p, eg_status = gp_status p, eg_version = 1,
        eg_imported = imported, eg_created_at = timestamptz (gp_created_at p), eg_updated_at = timestamptz (gp_updated_at p)\<rparr>)]\<rparr>, 1)
   | Some g \<Rightarrow>
       if shadow then (db\<lparr>gd_graphs := AList.update (gp_graph_id p) (g\<lparr>eg_status := gp_status p, eg_project_id := gp_project_id p,
          eg_updated_at := timestamptz (gp_updated_at p)\<rparr>) (gd_graphs db)\<rparr>, 1)
       else (db, 0))"

definition write_node :: "string \<Rightarrow> bool \<Rightarrow> NodeRow \<Rightarrow> GraphDb \<Rightarrow> GraphDb \<times> nat" where
  "write_node graph_id shadow r db = (case map_of (gd_nodes db) (graph_id, nr_node_id r) of
     None \<Rightarrow> (db\<lparr>gd_nodes := gd_nodes db @ [((graph_id, nr_node_id r), \<lparr>gn_type = nr_node_type r, gn_state = nr_state r,
        gn_dependencies = nr_dependencies r, gn_optional = False, gn_effect_class = nr_effect_class r,
        gn_required_capabilities = nr_required_capabilities r, gn_version = 1\<rparr>)]\<rparr>, 1)
   | Some n \<Rightarrow>
       if shadow then (db\<lparr>gd_nodes := AList.update (graph_id, nr_node_id r) (n\<lparr>gn_dependencies := nr_dependencies r,
          gn_required_capabilities := nr_required_capabilities r, gn_effect_class := nr_effect_class r,
          gn_type := nr_node_type r\<rparr>) (gd_nodes db)\<rparr>, 1)
       else (db, 0))"

fun write_nodes :: "string \<Rightarrow> bool \<Rightarrow> (string \<rightharpoonup> string) \<Rightarrow> NodeRow list \<Rightarrow> BackfillStats \<Rightarrow> GraphDb \<Rightarrow> GraphDb \<times> BackfillStats" where
  "write_nodes graph_id shadow existing [] stats db = (db, stats)"
| "write_nodes graph_id shadow existing (r # rest) stats db =
     (let prev = (if shadow then existing (nr_node_id r) else None)
      in if (case prev of None \<Rightarrow> False | Some prev \<Rightarrow> \<not> mirror_write_allowed prev (nr_state r))
         then write_nodes graph_id shadow existing rest (stats\<lparr>bs_mirror_rejected := bs_mirror_rejected stats + 1\<rparr>) db
         else
           let stats = (if (case prev of None \<Rightarrow> False | Some prev \<Rightarrow> prev \<noteq> nr_state r)
                 then stats\<lparr>bs_mirror_state_dropped := bs_mirror_state_dropped stats + 1\<rparr> else stats)
           in (case write_node graph_id shadow r db of
                 (db, affected) \<Rightarrow> write_nodes graph_id shadow existing rest (stats\<lparr>bs_nodes := bs_nodes stats + affected\<rparr>) db))"

fun write_attempts :: "string \<Rightarrow> AttemptRow list \<Rightarrow> BackfillStats \<Rightarrow> GraphDb \<Rightarrow> GraphDb \<times> BackfillStats" where
  "write_attempts graph_id [] stats db = (db, stats)"
| "write_attempts graph_id (r # rest) stats db =
     (if attempt_clash (ar_attempt_id r) (ar_node_id r) (ar_retry_no r) db then write_attempts graph_id rest stats db
      else write_attempts graph_id rest (stats\<lparr>bs_attempts := bs_attempts stats + 1\<rparr>)
        (db\<lparr>gd_attempts := gd_attempts db @ [(ar_attempt_id r, \<lparr>ta_graph_id = graph_id, ta_node_id = ar_node_id r,
           ta_worker_id = ar_worker_id r, ta_worker_epoch = None, ta_status = ar_status r, ta_retry_no = ar_retry_no r,
           ta_started_at = map_option timestamptz (ar_started_at r), ta_heartbeat_at = None,
           ta_finished_at = map_option timestamptz (ar_finished_at r), ta_result_ref = ar_result_ref r\<rparr>)]\<rparr>))"

fun write_completions :: "string \<Rightarrow> datetime \<Rightarrow> CompletionRow list \<Rightarrow> BackfillStats \<Rightarrow> GraphDb \<Rightarrow> GraphDb \<times> BackfillStats" where
  "write_completions graph_id updated_at [] stats db = (db, stats)"
| "write_completions graph_id updated_at (r # rest) stats db =
     (if map_of (gd_completions db) (cr_node_id r) \<noteq> None then write_completions graph_id updated_at rest stats db
      else write_completions graph_id updated_at rest (stats\<lparr>bs_completions := bs_completions stats + 1\<rparr>)
        (db\<lparr>gd_completions := gd_completions db @ [(cr_node_id r, \<lparr>nc_graph_id = graph_id,
           nc_winning_attempt_id = cr_winning_attempt_id r, nc_result_ref = cr_result_ref r,
           nc_committed_at = timestamptz (unwrap_or (cr_committed_at r) updated_at)\<rparr>)]\<rparr>))"

definition write_projection ::
  "GraphProjection \<Rightarrow> bool \<Rightarrow> bool \<Rightarrow> GraphDb \<Rightarrow> GraphDb \<times> (EngineError, BackfillStats) result" where
  "write_projection p shadow imported = begin_tx ''graph'' (\<lambda>db.
     case write_graph p shadow imported db of
       (db, affected) \<Rightarrow>
         let existing = (if shadow then map_of (map (\<lambda>((_, i), n). (i, gn_state n))
               (filter (\<lambda>((g, _), _). g = gp_graph_id p) (gd_nodes db))) else Map.empty)
         in (case write_nodes (gp_graph_id p) shadow existing (gp_nodes p) (BackfillStats_default\<lparr>bs_graphs := affected\<rparr>) db of
               (db, stats) \<Rightarrow>
                 (case write_attempts (gp_graph_id p) (gp_attempts p) stats db of
                    (db, stats) \<Rightarrow>
                      (case write_completions (gp_graph_id p) (gp_updated_at p) (gp_completions p) stats db of
                         (db, stats) \<Rightarrow> (db, Inr stats)))))"

definition upsert_task_shadow :: "Task \<Rightarrow> GraphDb \<Rightarrow> GraphDb \<times> (EngineError, BackfillStats) result" where
  "upsert_task_shadow task db =
     (if \<not> graph_scope_is_valid (t_project_id task)
      then (db, Inl (StorageError (''graph project_id cannot be empty '' @ [char_of (0xe2::nat), char_of (0x80::nat), char_of (0x94::nat)] @
             '' every execution graph must declare a project scope (D8 #645)'')))
      else write_projection (project_task task) True False db)"

end
