(* ===== verification/Graph_Sink.thy ===== *)
theory Graph_Sink
  imports Graph_Mirror
begin

text \<open>
  The population of the graph tables from older stores, the comparison of the two planes at startup, and
  \<open>GraphShadowSink\<close> as \<open>GraphStore\<close> implements it (\<open>crates/uc-engine/src/graph_store.rs\<close>): the verbs the gateway fans
  out, each of which drops its error.
\<close>

section \<open>Backfills\<close>

definition parse_task_status :: "string \<Rightarrow> TaskStatus" where
  "parse_task_status status =
     (if status = ''Created'' then TaskStatus.Created
      else if status = ''Planning'' then Planning
      else if status = ''InProgress'' then TaskStatus.InProgress
      else if status = ''Paused'' then Paused
      else if status = ''Completed'' then TaskStatus.Completed
      else if status = ''Failed'' then TaskStatus.Failed
      else TaskStatus.Created)"

definition add_stats :: "BackfillStats \<Rightarrow> BackfillStats \<Rightarrow> BackfillStats" where
  "add_stats t stats = t\<lparr>bs_graphs := bs_graphs t + bs_graphs stats, bs_nodes := bs_nodes t + bs_nodes stats,
     bs_mirror_state_dropped := bs_mirror_state_dropped t + bs_mirror_state_dropped stats,
     bs_mirror_rejected := bs_mirror_rejected t + bs_mirror_rejected stats,
     bs_attempts := bs_attempts t + bs_attempts stats, bs_completions := bs_completions t + bs_completions stats\<rparr>"

fun backfill_rows ::
  "('j \<Rightarrow> (string, Subtask list) result) \<Rightarrow> (string \<times> 'j TaskRow) list \<Rightarrow> BackfillStats \<Rightarrow> GraphDb \<Rightarrow>
   GraphDb \<times> (EngineError, BackfillStats) result" where
  "backfill_rows from_value [] t db = (db, Inr t)"
| "backfill_rows from_value ((i, row) # rest) t db = (case graph_exists i db of
     Inl e \<Rightarrow> (db, Inl e)
   | Inr True \<Rightarrow> backfill_rows from_value rest (t\<lparr>bs_skipped_existing := bs_skipped_existing t + 1\<rparr>) db
   | Inr False \<Rightarrow>
       (case from_value (tr_subtasks row) of
          Inl _ \<Rightarrow> backfill_rows from_value rest t db
        | Inr subtasks \<Rightarrow>
            let task = \<lparr>t_id = i, t_description = [], t_project_id = tr_project_id row, t_status = parse_task_status (tr_status row),
                  t_subtasks = subtasks, t_created_at = tr_created_at row, t_updated_at = tr_updated_at row\<rparr>
            in (case write_projection (project_task task) False True db of
                  (db, Inl e) \<Rightarrow> (db, Inl e)
                | (db, Inr stats) \<Rightarrow> backfill_rows from_value rest (add_stats t stats) db)))"

definition backfill_from_tasks_table ::
  "('j \<Rightarrow> (string, Subtask list) result) \<Rightarrow> (string \<times> 'j TaskRow) list option \<Rightarrow> GraphDb \<Rightarrow> GraphDb \<times> (EngineError, BackfillStats) result" where
  "backfill_from_tasks_table from_value tasks db = (case gd_fault db of
     Some e \<Rightarrow> (db, Inl (StorageError (''tasks table probe: '' @ e)))
   | None \<Rightarrow> (case tasks of
       None \<Rightarrow> (db, Inr BackfillStats_default)
     | Some rows \<Rightarrow> backfill_rows from_value (sort_key (\<lambda>(_, r). - tr_created_at r) (sort_key fst rows)) BackfillStats_default db))"

definition has_json_extension :: "string \<Rightarrow> bool" where
  "has_json_extension name \<longleftrightarrow> (case strip_suffix ''.json'' name of None \<Rightarrow> False | Some stem \<Rightarrow> stem \<noteq> [])"

fun import_files ::
  "(int \<Rightarrow> datetime option) \<Rightarrow> (string \<Rightarrow> (string, TsPersistedTask) result) \<Rightarrow> (string \<Rightarrow> (string, string) result) \<Rightarrow> string list \<Rightarrow>
   BackfillStats \<Rightarrow> GraphDb \<Rightarrow> GraphDb \<times> (EngineError, BackfillStats) result" where
  "import_files from_millis parse read [] t db = (db, Inr t)"
| "import_files from_millis parse read (path # rest) t db = (case read (''tasks/'' @ path) of
     Inl e \<Rightarrow> (db, Inl (StorageError (''read tasks/'' @ path @ '': '' @ e)))
   | Inr text \<Rightarrow>
       (case parse text of
          Inl _ \<Rightarrow> import_files from_millis parse read rest t db
        | Inr task \<Rightarrow>
            if tst_id task = [] then import_files from_millis parse read rest t db
            else case graph_exists (tst_id task) db of
              Inl e \<Rightarrow> (db, Inl e)
            | Inr True \<Rightarrow> import_files from_millis parse read rest (t\<lparr>bs_skipped_existing := bs_skipped_existing t + 1\<rparr>) db
            | Inr False \<Rightarrow>
                let checkpoint = (case read (''checkpoints/'' @ tst_id task @ ''.snap.json'') of
                      Inl _ \<Rightarrow> None
                    | Inr text \<Rightarrow> (case parse text of Inl _ \<Rightarrow> None | Inr cp \<Rightarrow> Some cp));
                    winner = pick_newer_saved task checkpoint
                in (case write_projection (project_ts_task from_millis winner) False True db of
                      (db, Inl e) \<Rightarrow> (db, Inl e)
                    | (db, Inr stats) \<Rightarrow> import_files from_millis parse read rest (add_stats t stats) db)))"

definition import_tasks_dir ::
  "(int \<Rightarrow> datetime option) \<Rightarrow> (string \<Rightarrow> (string, TsPersistedTask) result) \<Rightarrow> (string, (string, string) result list) result \<Rightarrow>
   (string \<Rightarrow> (string, string) result) \<Rightarrow> GraphDb \<Rightarrow> GraphDb \<times> (EngineError, BackfillStats) result" where
  "import_tasks_dir from_millis parse entries read db = (case entries of
     Inl _ \<Rightarrow> (db, Inr BackfillStats_default)
   | Inr entries \<Rightarrow>
       (case collect_results entries of
          Inl e \<Rightarrow> (db, Inl (StorageError (''read_dir: '' @ e)))
        | Inr names \<Rightarrow> import_files from_millis parse read (sort (filter has_json_extension names)) BackfillStats_default db))"

section \<open>Comparison of the planes\<close>

definition diff_node :: "(string \<times> string) list \<Rightarrow> string \<times> string \<Rightarrow> string list" where
  "diff_node db_states m = (case find (\<lambda>(nid, _). nid = fst m) db_states of
     Some (_, db_state) \<Rightarrow>
       if db_state = snd m then [] else [''node '' @ fst m @ '' state: rows='' @ db_state @ '' memory='' @ snd m]
   | None \<Rightarrow> [''node '' @ fst m @ '' missing from row tables''])"

definition shadow_diff :: "Task \<Rightarrow> GraphDb \<Rightarrow> (EngineError, string list) result" where
  "shadow_diff task db = (case gd_fault db of
     Some e \<Rightarrow> Inl (StorageError (''shadow diff graph: '' @ e))
   | None \<Rightarrow> (case map_of (gd_graphs db) (t_id task) of
       None \<Rightarrow> Inr [''graph '' @ t_id task @ '' missing from row tables'']
     | Some g \<Rightarrow>
         let want_status = graph_status_of_task_status (t_status task);
             db_states = sort (map (\<lambda>((_, i), n). (i, gn_state n)) (filter (\<lambda>((gid, _), _). gid = t_id task) (gd_nodes db)));
             statuses = subtask_status_index task;
             mem = sort (map (\<lambda>st. (st_id st, node_status_of_subtask st statuses)) (t_subtasks task))
         in Inr ((if eg_status g \<noteq> want_status
                  then [''graph '' @ t_id task @ '' status: rows='' @ eg_status g @ '' memory='' @ want_status] else []) @
                 (if eg_project_id g \<noteq> t_project_id task
                  then [''graph '' @ t_id task @ '' project_id: rows='' @ eg_project_id g @ '' memory='' @ t_project_id task] else []) @
                 concat (map (diff_node db_states) mem) @
                 concat (map (\<lambda>(i, _). if i \<in> fst ` set mem then [] else [''node '' @ i @ '' in row tables but not in memory'']) db_states))))"

section \<open>The sink\<close>

definition shadow_persist :: "Task \<Rightarrow> GraphDb \<Rightarrow> GraphDb" where
  "shadow_persist task db = fst (upsert_task_shadow task db)"

definition on_schedule :: "datetime \<Rightarrow> ExecutionEnvelope \<Rightarrow> string option \<Rightarrow> GraphDb \<Rightarrow> GraphDb" where
  "on_schedule now envelope worker_id db = fst (schedule_attempt now (en_graph_id envelope) (en_node_id envelope) worker_id db)"

definition on_heartbeat :: "datetime \<Rightarrow> ExecutionEnvelope \<Rightarrow> GraphDb \<Rightarrow> GraphDb" where
  "on_heartbeat now envelope db = (case running_attempt_id (en_graph_id envelope) (en_node_id envelope) db of
     Inr (Some attempt) \<Rightarrow> fst (heartbeat_attempt now attempt db)
   | _ \<Rightarrow> db)"

definition on_commit ::
  "(f64 \<Rightarrow> (string, int) result) \<Rightarrow> (StepUsage list \<Rightarrow> json option) \<Rightarrow> datetime \<Rightarrow> ExecutionEnvelope \<Rightarrow> string option \<Rightarrow>
   SubtaskUsage option \<Rightarrow> StepUsage list option \<Rightarrow> GraphDb \<Rightarrow> GraphDb" where
  "on_commit to_numeric to_value now envelope result_ref usage steps db =
     (case running_attempt_id (en_graph_id envelope) (en_node_id envelope) db of
        Inl _ \<Rightarrow> db
      | Inr probe \<Rightarrow>
          let attempt = unwrap_or probe (attempt_id (en_graph_id envelope) (en_node_id envelope) (- 1))
          in fst (commit_once to_numeric to_value now (en_graph_id envelope) (en_node_id envelope) attempt result_ref usage steps db))"

definition on_fail :: "datetime \<Rightarrow> ExecutionEnvelope \<Rightarrow> string \<Rightarrow> GraphDb \<Rightarrow> GraphDb" where
  "on_fail now envelope reason db =
     (case running_attempt_id (en_graph_id envelope) (en_node_id envelope) db of
        Inl _ \<Rightarrow> db
      | Inr probe \<Rightarrow>
          let attempt = unwrap_or probe (attempt_id (en_graph_id envelope) (en_node_id envelope) (- 1))
          in fst (fail_attempt now (en_graph_id envelope) (en_node_id envelope) attempt DEFAULT_MAX_ATTEMPTS reason db))"

text \<open>\<open>str::parse::<u32>\<close>: an optional plus sign and at least one digit, within the range.\<close>

definition parse_u32 :: "string \<Rightarrow> u32 option" where
  "parse_u32 s =
     (let digits = (case s of c # rest \<Rightarrow> if c = CHR ''+'' then rest else s | [] \<Rightarrow> []);
          n = foldl (\<lambda>acc c. 10 * acc + (of_char c - 48)) (0 :: nat) digits
      in if digits \<noteq> [] \<and> list_all (\<lambda>c. CHR ''0'' \<le> c \<and> c \<le> CHR ''9'') digits \<and> n < 2 ^ 32 then Some (of_nat n) else None)"

definition on_retry :: "datetime \<Rightarrow> ExecutionEnvelope \<Rightarrow> GraphDb \<Rightarrow> GraphDb" where
  "on_retry now envelope db =
     fst (retry_failed_node now (en_graph_id envelope) (en_node_id envelope) (unwrap_or (parse_u32 (en_attempt_id envelope)) 0) db)"

definition ok_or :: "'b \<Rightarrow> 'a \<times> (EngineError, 'b) result \<Rightarrow> 'a \<times> 'b" where
  "ok_or d r = (case r of (db, Inl _) \<Rightarrow> (db, d) | (db, Inr v) \<Rightarrow> (db, v))"

definition sink_sweep_timeouts :: "datetime \<Rightarrow> int \<Rightarrow> GraphDb \<Rightarrow> GraphDb \<times> SweptAttempt list" where
  "sink_sweep_timeouts now heartbeat_timeout db = ok_or [] (timeout_sweep now heartbeat_timeout DEFAULT_MAX_ATTEMPTS db)"

definition sink_fail_running_attempts :: "datetime \<Rightarrow> string \<Rightarrow> string \<Rightarrow> GraphDb \<Rightarrow> GraphDb \<times> SweptAttempt list" where
  "sink_fail_running_attempts now graph_id reason db = ok_or [] (fail_running_attempts now graph_id DEFAULT_MAX_ATTEMPTS reason db)"

definition sink_cancel_running_attempt :: "datetime \<Rightarrow> string \<Rightarrow> string \<Rightarrow> GraphDb \<Rightarrow> GraphDb \<times> SweptAttempt option" where
  "sink_cancel_running_attempt now graph_id node_id db = ok_or None (cancel_running_attempt now graph_id node_id DEFAULT_MAX_ATTEMPTS db)"

definition sink_cancel_nodes :: "datetime \<Rightarrow> string \<Rightarrow> string list \<Rightarrow> GraphDb \<Rightarrow> GraphDb \<times> string list" where
  "sink_cancel_nodes now graph_id node_ids db = ok_or [] (cancel_nodes now graph_id node_ids db)"

definition sink_downstream_closure :: "string \<Rightarrow> string list \<Rightarrow> GraphDb \<Rightarrow> string list" where
  "sink_downstream_closure graph_id roots db = (case downstream_closure graph_id roots db of Inl _ \<Rightarrow> [] | Inr c \<Rightarrow> c)"

text \<open>\<open>show_error\<close> renders an engine error by \<open>Display\<close>.\<close>

definition sink_issue_merge_grant ::
  "(EngineError \<Rightarrow> string) \<Rightarrow> (string \<Rightarrow> string) \<Rightarrow> datetime \<Rightarrow> string \<Rightarrow> GraphDb \<Rightarrow> GraphDb \<times> MergeGrantDecision" where
  "sink_issue_merge_grant show_error sha256_hex now graph_id db = (case issue_merge_grant sha256_hex now graph_id db of
     (db, Inl e) \<Rightarrow> (db, refused_grant (''issue_merge_grant storage error: '' @ show_error e))
   | (db, Inr d) \<Rightarrow> (db, d))"

definition sink_report_merge_outcome ::
  "datetime \<Rightarrow> string \<Rightarrow> string \<Rightarrow> MergeOutcomeReport \<Rightarrow> GraphDb \<Rightarrow> GraphDb \<times> MergeReportDecision" where
  "sink_report_merge_outcome now graph_id key outcome db =
     ok_or \<lparr>mr_accepted = False, mr_idempotent_replay = False\<rparr> (report_merge_outcome now graph_id key outcome db)"

definition sink_committed_dep_outputs :: "string \<Rightarrow> string list \<Rightarrow> GraphDb \<Rightarrow> ContextEntry list" where
  "sink_committed_dep_outputs graph_id node_ids db = (case committed_dep_outputs graph_id node_ids db of Inl _ \<Rightarrow> [] | Inr es \<Rightarrow> es)"

end
