(* ===== verification/Graph_History.thy ===== *)
theory Graph_History
  imports Graph_Sink
begin

text \<open>
  What the verbs of the graph store keep: the preorder \<open>advances\<close> on databases (states move along legal edges, finished
  attempts and completions are final, the log grows), the part of it that commits nothing (\<open>quiet\<close>), one lemma per
  verb, and the equations that evaluate a verb to its effect.
\<close>

section \<open>What is never undone\<close>

definition follows :: "('v \<Rightarrow> 'v \<Rightarrow> bool) \<Rightarrow> ('k \<rightharpoonup> 'v) \<Rightarrow> ('k \<rightharpoonup> 'v) \<Rightarrow> bool" where
  "follows R m m' \<longleftrightarrow> (\<forall>k v. m k = Some v \<longrightarrow> (\<exists>v'. m' k = Some v' \<and> R v v'))"

lemma follows_refl: "reflp R \<Longrightarrow> follows R m m"
  by (auto simp: follows_def dest: reflpD)

lemma follows_trans: "transp R \<Longrightarrow> follows R m m' \<Longrightarrow> follows R m' m'' \<Longrightarrow> follows R m m''"
  unfolding follows_def by (meson transpD)

lemma follows_update:
  assumes "reflp R" "\<And>old. map_of al k = Some old \<Longrightarrow> R old v"
  shows "follows R (map_of al) (map_of (AList.update k v al))"
  using assms by (auto simp: follows_def update_conv' dest: reflpD)

lemma follows_append: "reflp R \<Longrightarrow> follows R (map_of al) (map_of (al @ bs))"
  by (auto simp: follows_def map_add_Some_iff dest: reflpD)

abbreviation moves :: "string \<Rightarrow> string \<Rightarrow> bool" where
  "moves \<equiv> transition_ok\<^sup>*\<^sup>*"

definition node_follows :: "GraphNode \<Rightarrow> GraphNode \<Rightarrow> bool" where
  "node_follows n n' \<longleftrightarrow> moves (gn_state n) (gn_state n') \<and> gn_version n \<le> gn_version n'"

definition attempt_follows :: "TaskAttempt \<Rightarrow> TaskAttempt \<Rightarrow> bool" where
  "attempt_follows a a' \<longleftrightarrow> ta_graph_id a' = ta_graph_id a \<and> ta_node_id a' = ta_node_id a \<and> ta_retry_no a' = ta_retry_no a \<and>
     ta_worker_epoch a' = ta_worker_epoch a \<and> (ta_status a = ''RUNNING'' \<or> a' = a)"

definition graph_follows :: "ExecutionGraph \<Rightarrow> ExecutionGraph \<Rightarrow> bool" where
  "graph_follows g g' \<longleftrightarrow> eg_version g \<le> eg_version g'"

lemma row_relations [simp]: "reflp node_follows" "transp node_follows" "reflp attempt_follows" "transp attempt_follows"
    "reflp graph_follows" "transp graph_follows" "reflp ((=) :: NodeCompletion \<Rightarrow> _)" "transp ((=) :: NodeCompletion \<Rightarrow> _)"
  by (auto simp: reflp_def transp_def node_follows_def attempt_follows_def graph_follows_def)

lemma moves_terminal: "moves s t \<Longrightarrow> s \<in> {''SUCCEEDED'', ''CANCELLED'', ''SKIPPED''} \<Longrightarrow> t = s"
proof (induction rule: rtranclp_induct)
  case (step t u)
  then have "transition_ok s u" "s \<in> {''SUCCEEDED'', ''CANCELLED'', ''SKIPPED''}" by auto
  then show ?case
    by (auto simp: transition_ok_def can_transition_def legal_edges_def from_token_def split: if_splits)
qed simp

text \<open>
  The history of the tables: a node moves along legal edges with growing version, an attempt keeps its identity and
  is final once it no longer runs, a completion is final, the version of a graph grows and the log is append-only.
\<close>

definition advances :: "GraphDb \<Rightarrow> GraphDb \<Rightarrow> bool" where
  "advances db db' \<longleftrightarrow>
     follows node_follows (map_of (gd_nodes db)) (map_of (gd_nodes db')) \<and>
     follows attempt_follows (map_of (gd_attempts db)) (map_of (gd_attempts db')) \<and>
     follows (=) (map_of (gd_completions db)) (map_of (gd_completions db')) \<and>
     follows graph_follows (map_of (gd_graphs db)) (map_of (gd_graphs db')) \<and>
     (\<exists>es. gd_events db' = gd_events db @ es) \<and>
     (distinct (map fst (gd_nodes db)) \<longrightarrow> distinct (map fst (gd_nodes db'))) \<and>
     (distinct (map fst (gd_attempts db)) \<longrightarrow> distinct (map fst (gd_attempts db')))"

lemma plane_refl [simp, intro]: "advances db db"
  by (simp add: advances_def follows_refl)

lemma plane_trans [trans]: "advances db db' \<Longrightarrow> advances db' db'' \<Longrightarrow> advances db db''"
  unfolding advances_def by (auto intro: follows_trans[where m' = "map_of _"] simp: row_relations)


lemma advances_event_usage [intro]: "advances db (append_event_with_usage_tx now g n a v t p u db)"
  by (simp add: advances_def append_event_with_usage_tx_def follows_refl)

lemma advances_event [intro]: "advances db (append_event_tx now g n a v t p db)"
  unfolding append_event_tx_def by (rule advances_event_usage)

lemma advances_late [intro]: "advances db (append_late_result now g n a r db)"
  unfolding append_late_result_def by (rule advances_event)

lemma advances_bump: "bump_graph_version_tx now g db = (db', v) \<Longrightarrow> advances db db'"
  by (auto simp: bump_graph_version_tx_def Let_def advances_def follows_refl graph_follows_def intro!: follows_update split: option.splits)

lemma advances_cas: "cas_node_state_tx g n s v s' db = (db', r) \<Longrightarrow> advances db db'"
  by (auto simp: cas_node_state_tx_def advances_def follows_refl node_follows_def distinct_update intro!: follows_update
      split: option.splits if_splits)

lemma advances_update_attempt:
  assumes "\<And>a. map_of (gd_attempts db) i = Some a \<Longrightarrow> attempt_follows a (f a)"
  shows "advances db (update_attempt i f db)"
  using assms by (auto simp: update_attempt_def advances_def follows_refl distinct_update intro!: follows_update split: option.splits)

lemma advances_add_attempt:
  assumes "map_of (gd_attempts db) k = None"
  shows "advances db (db\<lparr>gd_attempts := gd_attempts db @ [(k, a)]\<rparr>)"
  using assms follows_append[of attempt_follows "gd_attempts db" "[(k, a)]"]
  by (simp add: advances_def follows_refl map_of_eq_None_iff del: map_of_append)

lemma advances_add_completion [intro]: "advances db (db\<lparr>gd_completions := gd_completions db @ rows\<rparr>)"
  using follows_append[of "(=)" "gd_completions db" rows] by (simp add: advances_def follows_refl del: map_of_append)

lemma advances_add_node:
  assumes "map_of (gd_nodes db) k = None"
  shows "advances db (db\<lparr>gd_nodes := gd_nodes db @ [(k, n)]\<rparr>)"
  using assms follows_append[of node_follows "gd_nodes db" "[(k, n)]"]
  by (simp add: advances_def follows_refl map_of_eq_None_iff del: map_of_append)

lemma advances_grants [intro]: "advances db (db\<lparr>gd_grants := rows\<rparr>)"
  by (simp add: advances_def follows_refl)

lemma begin_tx_cases:
  assumes "begin_tx what body db = (db', r)"
  obtains "db' = db" "gd_fault db \<noteq> None" | e where "gd_fault db = None" "r = Inl e" "db' = db"
    | v where "gd_fault db = None" "r = Inr v" "body db = (db', Inr v)"
  using assms by (auto simp: begin_tx_def split: option.splits prod.splits sum.splits)

lemma advances_begin_tx:
  assumes "begin_tx what body db = (db', r)" "\<And>db' r. body db = (db', r) \<Longrightarrow> advances db db'"
  shows "advances db db'"
  using assms(1) by (rule begin_tx_cases) (auto intro: assms(2))

section \<open>Evaluating the verbs\<close>

lemma transition_ok_literals [simp]:
  "transition_ok ''READY'' ''SCHEDULED''" "transition_ok ''SCHEDULED'' ''RUNNING''" "transition_ok ''FAILED'' ''READY''"
  "transition_ok ''CREATED'' ''READY''" "transition_ok ''RUNNING'' ''SUCCEEDED''" "transition_ok ''RUNNING'' ''READY''"
  "transition_ok ''RUNNING'' ''FAILED''"
  by code_simp+

lemma transition_ok_succeeded: "transition_ok s ''SUCCEEDED'' \<longleftrightarrow> s = ''RUNNING''"
  by (auto simp: transition_ok_def from_token_def can_transition_def legal_edges_def)

lemma event_fields [simp]:
  "gd_nodes (append_event_with_usage_tx now g n a v t p u db) = gd_nodes db"
  "gd_attempts (append_event_with_usage_tx now g n a v t p u db) = gd_attempts db"
  "gd_completions (append_event_with_usage_tx now g n a v t p u db) = gd_completions db"
  "gd_graphs (append_event_with_usage_tx now g n a v t p u db) = gd_graphs db"
  "gd_grants (append_event_with_usage_tx now g n a v t p u db) = gd_grants db"
  "gd_fault (append_event_with_usage_tx now g n a v t p u db) = gd_fault db"
  "gd_nodes (append_event_tx now g n a v t p db) = gd_nodes db"
  "gd_attempts (append_event_tx now g n a v t p db) = gd_attempts db"
  "gd_completions (append_event_tx now g n a v t p db) = gd_completions db"
  "gd_graphs (append_event_tx now g n a v t p db) = gd_graphs db"
  "gd_grants (append_event_tx now g n a v t p db) = gd_grants db"
  "gd_fault (append_event_tx now g n a v t p db) = gd_fault db"
  by (simp_all add: append_event_with_usage_tx_def append_event_tx_def)

lemma bump_fields [simp]:
  "gd_nodes (fst (bump_graph_version_tx now g db)) = gd_nodes db"
  "gd_attempts (fst (bump_graph_version_tx now g db)) = gd_attempts db"
  "gd_completions (fst (bump_graph_version_tx now g db)) = gd_completions db"
  "gd_events (fst (bump_graph_version_tx now g db)) = gd_events db"
  "gd_grants (fst (bump_graph_version_tx now g db)) = gd_grants db"
  "gd_fault (fst (bump_graph_version_tx now g db)) = gd_fault db"
  by (simp_all add: bump_graph_version_tx_def Let_def)

lemma update_attempt_fields [simp]:
  "gd_nodes (update_attempt i f db) = gd_nodes db"
  "gd_graphs (update_attempt i f db) = gd_graphs db"
  "gd_completions (update_attempt i f db) = gd_completions db"
  "gd_events (update_attempt i f db) = gd_events db"
  "gd_grants (update_attempt i f db) = gd_grants db"
  "gd_fault (update_attempt i f db) = gd_fault db"
  by (simp_all add: update_attempt_def split: option.splits)

definition set_node :: "string \<Rightarrow> string \<Rightarrow> GraphNode \<Rightarrow> GraphDb \<Rightarrow> GraphDb" where
  "set_node g i n db = db\<lparr>gd_nodes := AList.update (g, i) n (gd_nodes db)\<rparr>"

lemma set_node_fields [simp]:
  "map_of (gd_nodes (set_node g i n db)) = (map_of (gd_nodes db))((g, i) \<mapsto> n)"
  "gd_attempts (set_node g i n db) = gd_attempts db"
  "gd_graphs (set_node g i n db) = gd_graphs db"
  "gd_completions (set_node g i n db) = gd_completions db"
  "gd_events (set_node g i n db) = gd_events db"
  "gd_grants (set_node g i n db) = gd_grants db"
  "gd_fault (set_node g i n db) = gd_fault db"
  by (simp_all add: set_node_def update_conv')

definition moved_to :: "string \<Rightarrow> GraphNode \<Rightarrow> GraphNode" where
  "moved_to s n = n\<lparr>gn_state := s, gn_version := gn_version n + 1\<rparr>"

lemma moved_to_fields [simp]: "gn_state (moved_to s n) = s" "gn_version (moved_to s n) = gn_version n + 1"
    "gn_dependencies (moved_to s n) = gn_dependencies n" "gn_optional (moved_to s n) = gn_optional n"
  by (simp_all add: moved_to_def)

lemma cas_hit:
  assumes "map_of (gd_nodes db) (g, i) = Some n" "transition_ok (gn_state n) s"
  shows "cas_node_state_tx g i (gn_state n) (gn_version n) s db = (set_node g i (moved_to s n) db, Inr True)"
  using assms by (simp add: cas_node_state_tx_def set_node_def moved_to_def)

lemma set_node_advances:
  assumes "map_of (gd_nodes db) (g, i) = Some n" "transition_ok (gn_state n) s"
  shows "advances db (set_node g i (moved_to s n) db)"
  using advances_cas[OF cas_hit[OF assms]] .

definition started_attempt :: "datetime \<Rightarrow> string \<Rightarrow> string \<Rightarrow> string option \<Rightarrow> GraphDb \<Rightarrow> TaskAttempt" where
  "started_attempt now g i w db = \<lparr>ta_graph_id = g, ta_node_id = i, ta_worker_id = w,
     ta_worker_epoch = Some (next_worker_epoch (attempts_of g i db)), ta_status = ''RUNNING'',
     ta_retry_no = next_retry_no (attempts_of g i db), ta_started_at = Some now, ta_heartbeat_at = Some now, ta_finished_at = None,
     ta_result_ref = Some (g @ ''/'' @ i @ ''/'' @ show_int (next_retry_no (attempts_of g i db)))\<rparr>"

definition next_attempt_id :: "string \<Rightarrow> string \<Rightarrow> GraphDb \<Rightarrow> string" where
  "next_attempt_id g i db = attempt_id g i (next_retry_no (attempts_of g i db))"

lemma cas_move:
  assumes "map_of (gd_nodes db) (g, i) = Some n" "gn_state n = s0" "gn_version n = v" "transition_ok s0 s"
  shows "cas_node_state_tx g i s0 v s db = (set_node g i (moved_to s n) db, Inr True)"
  using cas_hit[of db g i n s] assms by simp

text \<open>The database after a dispatch.\<close>

definition dispatched :: "datetime \<Rightarrow> string \<Rightarrow> string \<Rightarrow> string option \<Rightarrow> GraphNode \<Rightarrow> GraphDb \<Rightarrow> GraphDb" where
  "dispatched now g i w node db =
     (let (db1, gv) = bump_graph_version_tx now g db;
          k = next_retry_no (attempts_of g i db);
          db2 = append_event_tx now g (Some i) None (Some gv) ''node_scheduled'' (schedule_payload w k)
            (set_node g i (moved_to ''SCHEDULED'' node) db1);
          db3 = append_event_tx now g (Some i) None (Some gv) ''node_running'' (schedule_payload w k)
            (set_node g i (moved_to ''RUNNING'' (moved_to ''SCHEDULED'' node)) db2)
      in append_event_tx now g (Some i) (Some (next_attempt_id g i db)) (Some gv) ''attempt_started''
           (JObject [(''worker_epoch'', JNumber (int (next_worker_epoch (attempts_of g i db)))), (''worker_id'', json_opt w)])
           (db3\<lparr>gd_attempts := gd_attempts db3 @ [(next_attempt_id g i db, started_attempt now g i w db)]\<rparr>))"

lemma attempt_clash_cong: "gd_attempts db = gd_attempts db' \<Longrightarrow> attempt_clash a i k db = attempt_clash a i k db'"
  by (simp add: attempt_clash_def)

lemma schedule_attempt_eq:
  assumes "gd_fault db = None"
  shows "schedule_attempt now g i w db = (case map_of (gd_nodes db) (g, i) of
       None \<Rightarrow> (db, Inr None)
     | Some node \<Rightarrow>
         if gn_state node \<noteq> ''READY'' then (db, Inr None)
         else if 2 ^ 31 - 1 < next_retry_no (attempts_of g i db)
         then (db, Inl (StorageError ''schedule: retry probe: integer out of range''))
         else if attempt_clash (next_attempt_id g i db) i (next_retry_no (attempts_of g i db)) db
         then (db, Inl (StorageError ''schedule: attempt insert: duplicate key value violates unique constraint''))
         else (dispatched now g i w node db, Inr (Some (next_attempt_id g i db))))"
proof (cases "map_of (gd_nodes db) (g, i)")
  case (Some node)
  then show ?thesis
    using assms attempt_clash_cong[of "append_event_tx now g (Some i) None (Some (snd (bump_graph_version_tx now g db))) ''node_running''
      (schedule_payload w (next_retry_no (attempts_of g i db))) (set_node g i (moved_to ''RUNNING'' (moved_to ''SCHEDULED'' node))
        (append_event_tx now g (Some i) None (Some (snd (bump_graph_version_tx now g db))) ''node_scheduled'' (schedule_payload w (next_retry_no (attempts_of g i db)))
            (set_node g i (moved_to ''SCHEDULED'' node) (fst (bump_graph_version_tx now g db)))))" db]
    by (auto simp: schedule_attempt_def begin_tx_def split_beta Let_def cas_move start_attempt_def dispatched_def
        next_attempt_id_def started_attempt_def)
qed (simp add: schedule_attempt_def begin_tx_def assms)

lemma dispatched_fields [simp]:
  "map_of (gd_nodes (dispatched now g i w node db)) = (map_of (gd_nodes db))((g, i) \<mapsto> moved_to ''RUNNING'' (moved_to ''SCHEDULED'' node))"
  "gd_attempts (dispatched now g i w node db) = gd_attempts db @ [(next_attempt_id g i db, started_attempt now g i w db)]"
  "gd_completions (dispatched now g i w node db) = gd_completions db"
  "gd_graphs (dispatched now g i w node db) = gd_graphs (fst (bump_graph_version_tx now g db))"
  "gd_grants (dispatched now g i w node db) = gd_grants db"
  "gd_fault (dispatched now g i w node db) = gd_fault db"
  by (simp_all add: dispatched_def split_beta Let_def)


section \<open>Steps that commit nothing\<close>

definition billed :: "string \<Rightarrow> GraphDb \<Rightarrow> nat" where
  "billed j db = length (filter (\<lambda>e. ev_event_type e = ''node_succeeded'' \<and> ev_node_id e = Some j) (gd_events db))"

definition quiet :: "GraphDb \<Rightarrow> GraphDb \<Rightarrow> bool" where
  "quiet db db' \<longleftrightarrow> advances db db' \<and> (\<forall>j. billed j db' = billed j db)"

lemma quiet_refl [simp, intro]: "quiet db db"
  by (simp add: quiet_def)

lemma quiet_trans [trans]: "quiet db db' \<Longrightarrow> quiet db' db'' \<Longrightarrow> quiet db db''"
  by (auto simp: quiet_def intro: plane_trans)

lemma quiet_advances: "quiet db db' \<Longrightarrow> advances db db'"
  by (simp add: quiet_def)

lemma quietI: "advances db db' \<Longrightarrow> gd_events db' = gd_events db \<Longrightarrow> quiet d db \<Longrightarrow> quiet d db'"
  by (auto simp: quiet_def billed_def intro: plane_trans)

named_theorems quiet_rules

lemma quiet_event [quiet_rules]: "quiet d db \<Longrightarrow> t \<noteq> ''node_succeeded'' \<Longrightarrow> quiet d (append_event_tx now g n a v t p db)"
  by (auto simp: quiet_def billed_def append_event_tx_def append_event_with_usage_tx_def
      intro: plane_trans[OF _ advances_event, unfolded append_event_tx_def append_event_with_usage_tx_def])

lemma quiet_late [quiet_rules]: "quiet d db \<Longrightarrow> quiet d (append_late_result now g n a r db)"
  by (simp add: append_late_result_def quiet_event)

lemma quiet_bump [quiet_rules]: "quiet d db \<Longrightarrow> quiet d (fst (bump_graph_version_tx now g db))"
  by (rule quietI[OF advances_bump[OF prod.collapse[symmetric]]]) simp_all

lemma quiet_set_node [quiet_rules]:
  assumes "quiet d db" "map_of (gd_nodes db) (g, i) = Some n" "transition_ok (gn_state n) s"
  shows "quiet d (set_node g i (moved_to s n) db)"
  by (rule quietI[OF set_node_advances[OF assms(2,3)] _ assms(1)]) simp

lemma quiet_update_attempt [quiet_rules]:
  assumes "quiet d db" "\<And>a. map_of (gd_attempts db) i = Some a \<Longrightarrow> attempt_follows a (f a)"
  shows "quiet d (update_attempt i f db)"
  by (rule quietI[OF advances_update_attempt[OF assms(2)] _ assms(1)]) simp_all

lemma quiet_add_attempt [quiet_rules]:
  "quiet d db \<Longrightarrow> map_of (gd_attempts db) k = None \<Longrightarrow> quiet d (db\<lparr>gd_attempts := gd_attempts db @ [(k, a)]\<rparr>)"
  by (rule quietI[OF advances_add_attempt]) simp_all

lemma quiet_add_completion [quiet_rules]: "quiet d db \<Longrightarrow> quiet d (db\<lparr>gd_completions := gd_completions db @ rows\<rparr>)"
  by (rule quietI[OF advances_add_completion]) simp_all

lemma quiet_add_node [quiet_rules]:
  "quiet d db \<Longrightarrow> map_of (gd_nodes db) k = None \<Longrightarrow> quiet d (db\<lparr>gd_nodes := gd_nodes db @ [(k, n)]\<rparr>)"
  by (rule quietI[OF advances_add_node]) simp_all

lemma quiet_grants [quiet_rules]: "quiet d db \<Longrightarrow> quiet d (db\<lparr>gd_grants := rows\<rparr>)"
  by (rule quietI[OF advances_grants]) simp_all

lemma quiet_fault [quiet_rules]: "quiet d db \<Longrightarrow> quiet d (db\<lparr>gd_fault := e\<rparr>)"
  by (rule quietI[of db]) (simp_all add: advances_def follows_refl)

lemma quiet_begin_tx:
  assumes "begin_tx what body db = (db', r)" "\<And>v. gd_fault db = None \<Longrightarrow> body db = (db', Inr v) \<Longrightarrow> quiet db db'"
  shows "quiet db db'"
  using assms(1) by (rule begin_tx_cases) (auto intro: assms(2))

lemma dispatched_quiet:
  assumes "map_of (gd_nodes db) (g, i) = Some node" "gn_state node = ''READY''" "map_of (gd_attempts db) (next_attempt_id g i db) = None"
  shows "quiet db (dispatched now g i w node db)"
  unfolding dispatched_def split_beta Let_def by (intro quiet_rules quiet_refl) (simp_all add: assms)

lemma begin_tx_fault: "gd_fault db = Some e \<Longrightarrow> fst (begin_tx what body db) = db"
  by (simp add: begin_tx_def)

lemma schedule_attempt_quiet: "quiet db (fst (schedule_attempt now g i w db))"
proof (cases "gd_fault db")
  case None
  then show ?thesis by (auto simp: schedule_attempt_eq attempt_clash_def dispatched_quiet split: option.splits)
qed (simp add: schedule_attempt_def begin_tx_fault)

lemma retry_failed_node_eq:
  assumes "gd_fault db = None"
  shows "retry_failed_node now g i d db = (case map_of (gd_nodes db) (g, i) of
       None \<Rightarrow> (db, Inr False)
     | Some node \<Rightarrow>
         if gn_state node \<noteq> ''FAILED'' then (db, Inr False)
         else (append_event_tx now g (Some i) None (Some (snd (bump_graph_version_tx now g db))) ''node_retried''
                (JObject [(''dispatch_attempt'', JNumber (uint d))])
                (set_node g i (moved_to ''READY'' node) (fst (bump_graph_version_tx now g db))), Inr True))"
  using assms by (auto simp: retry_failed_node_def begin_tx_def split_beta cas_move split: option.splits)

lemma retry_failed_node_quiet: "quiet db (fst (retry_failed_node now g i d db))"
proof (cases "gd_fault db")
  case None
  then show ?thesis by (auto simp: retry_failed_node_eq intro!: quiet_rules split: option.splits)
qed (simp add: retry_failed_node_def begin_tx_fault)

lemma heartbeat_quiet: "heartbeat_attempt now i db = (db', r) \<Longrightarrow> quiet db db'"
  unfolding heartbeat_attempt_def
  by (erule quiet_begin_tx) (auto simp: Let_def attempt_follows_def intro!: quiet_rules split: option.splits if_splits)

definition same_rows :: "GraphDb \<Rightarrow> GraphDb \<Rightarrow> bool" where
  "same_rows db db' \<longleftrightarrow> gd_attempts db' = gd_attempts db \<and> gd_completions db' = gd_completions db \<and> gd_grants db' = gd_grants db \<and>
     gd_fault db' = gd_fault db"

text \<open>
  The candidates whose dependencies are met move to \<open>READY\<close>, the others stay; nothing else of the tables changes.
\<close>

lemma flip_ready_spec:
  assumes "distinct (map fst cs)"
    and "\<forall>(i, deps, v) \<in> set cs. \<exists>n. map_of (gd_nodes db) (g, i) = Some n \<and> gn_state n = ''CREATED'' \<and> gn_version n = v"
  shows "\<exists>db'. flip_ready now g ok cs gv fl db = (db', Inr (fl @ map fst (filter (\<lambda>(_, deps, _). list_all ok deps) cs))) \<and>
     quiet db db' \<and> same_rows db db' \<and>
     (\<forall>k. map_of (gd_nodes db') k = (if fst k = g \<and> (\<exists>deps v. (snd k, deps, v) \<in> set cs \<and> list_all ok deps)
        then map_option (moved_to ''READY'') (map_of (gd_nodes db) k) else map_of (gd_nodes db) k))"
  using assms
proof (induction cs arbitrary: gv fl db)
  case Nil
  then show ?case by (simp add: same_rows_def)
next
  case (Cons c cs)
  obtain i deps v where c: "c = (i, deps, v)" by (cases c)
  with Cons.prems obtain n where n: "map_of (gd_nodes db) (g, i) = Some n" "gn_state n = ''CREATED''" "gn_version n = v" by auto
  show ?case
  proof (cases "list_all ok deps")
    case False
    have sat: "(\<exists>deps v. (j, deps, v) \<in> set (c # cs) \<and> list_all ok deps) \<longleftrightarrow> (\<exists>deps v. (j, deps, v) \<in> set cs \<and> list_all ok deps)" for j
      using False c by auto
    have "flip_ready now g ok (c # cs) gv fl db = flip_ready now g ok cs gv fl db"
      "filter (\<lambda>(_, deps, _). list_all ok deps) (c # cs) = filter (\<lambda>(_, deps, _). list_all ok deps) cs" using False c by simp_all
    with Cons.prems Cons.IH[of db gv fl] show ?thesis unfolding sat by simp
  next
    case True
    define b where "b = (case gv of Some v' \<Rightarrow> (set_node g i (moved_to ''READY'' n) db, v') | None \<Rightarrow> bump_graph_version_tx now g (set_node g i (moved_to ''READY'' n) db))"
    define db1 where "db1 = append_event_tx now g (Some i) None (Some (snd b)) ''node_ready''
        (JObject [(''dependencies_satisfied'', JArray (map JString deps))]) (fst b)"
    have run: "flip_ready now g ok (c # cs) gv fl db = flip_ready now g ok cs (Some (snd b)) (fl @ [i]) db1"
      using True n by (simp add: c cas_move b_def db1_def split_beta split: option.splits)
    have b: "quiet db (fst b)" "same_rows db (fst b)" "map_of (gd_nodes (fst b)) = (map_of (gd_nodes db))((g, i) \<mapsto> moved_to ''READY'' n)"
      using n by (auto simp: b_def same_rows_def split: option.splits intro!: quiet_rules)
    have db1: "quiet db db1" "same_rows db db1" "map_of (gd_nodes db1) = (map_of (gd_nodes db))((g, i) \<mapsto> moved_to ''READY'' n)"
      using b by (auto simp: db1_def same_rows_def intro!: quiet_rules)
    have "distinct (map fst cs)" "\<forall>(j, deps, v) \<in> set cs. j \<noteq> i" using Cons.prems c by force+
    moreover have "\<forall>(j, deps, v) \<in> set cs. \<exists>n. map_of (gd_nodes db1) (g, j) = Some n \<and> gn_state n = ''CREATED'' \<and> gn_version n = v"
      using Cons.prems(2) calculation(2) by (fastforce simp: db1(3))
    ultimately obtain db' where db': "flip_ready now g ok cs (Some (snd b)) (fl @ [i]) db1 =
          (db', Inr ((fl @ [i]) @ map fst (filter (\<lambda>(_, deps, _). list_all ok deps) cs)))"
        "quiet db1 db'" "same_rows db1 db'"
        "\<And>k. map_of (gd_nodes db') k = (if fst k = g \<and> (\<exists>deps v. (snd k, deps, v) \<in> set cs \<and> list_all ok deps)
          then map_option (moved_to ''READY'') (map_of (gd_nodes db1) k) else map_of (gd_nodes db1) k)"
      using Cons.IH[of db1 "Some (snd b)" "fl @ [i]"] by blast
    have "map_of (gd_nodes db') k = (if fst k = g \<and> (\<exists>deps v. (snd k, deps, v) \<in> set (c # cs) \<and> list_all ok deps)
        then map_option (moved_to ''READY'') (map_of (gd_nodes db) k) else map_of (gd_nodes db) k)" for k
      using \<open>\<forall>(j, deps, v) \<in> set cs. j \<noteq> i\<close> True n(1) by (cases k) (auto simp: db'(4) db1(3) c)
    then show ?thesis using run db' db1 True c by (auto simp: same_rows_def intro: quiet_trans)
  qed
qed

lemma distinct_map_sort_key: "distinct (map f (sort_key f xs)) \<longleftrightarrow> distinct (map f xs)"
  by (simp add: distinct_map)

lemma created_nodes_spec:
  assumes "distinct (map fst (gd_nodes db))"
  shows "distinct (map fst (created_nodes g db))"
    "(i, deps, v) \<in> set (created_nodes g db) \<longleftrightarrow>
       (\<exists>n. map_of (gd_nodes db) (g, i) = Some n \<and> gn_state n = ''CREATED'' \<and> gn_dependencies n = deps \<and> gn_version n = v)"
proof -
  let ?rows = "filter (\<lambda>((h, _), n). h = g \<and> gn_state n = ''CREATED'') (gd_nodes db)"
  have "distinct (map fst ?rows)" using assms by (simp add: distinct_map_filter)
  then have "distinct (map (snd \<circ> fst) ?rows)"
    by (auto simp: distinct_map comp_inj_on_iff[symmetric] inj_on_def split: prod.splits)
  moreover have "map fst (map (\<lambda>((_, i), n). (i, gn_dependencies n, gn_version n)) ?rows) = map (snd \<circ> fst) ?rows" by auto
  ultimately have "distinct (map fst (map (\<lambda>((_, i), n). (i, gn_dependencies n, gn_version n)) ?rows))" by (simp only:)
  then show "distinct (map fst (created_nodes g db))" unfolding created_nodes_def distinct_map_sort_key .
  show "(i, deps, v) \<in> set (created_nodes g db) \<longleftrightarrow>
       (\<exists>n. map_of (gd_nodes db) (g, i) = Some n \<and> gn_state n = ''CREATED'' \<and> gn_dependencies n = deps \<and> gn_version n = v)"
    using assms by (force simp: created_nodes_def image_iff)
qed


lemma cas_cases:
  assumes "cas_node_state_tx g i s v s' db = (db', r)"
  obtains "db' = db" "r \<noteq> Inr True" | n where "map_of (gd_nodes db) (g, i) = Some n" "gn_state n = s" "gn_version n = v" "transition_ok s s'"
    "db' = set_node g i (moved_to s' n) db" "r = Inr True"
  using assms by (auto simp: cas_node_state_tx_def set_node_def moved_to_def split: if_splits option.splits)

lemma quiet_cas:
  assumes "cas_node_state_tx g i s v s' db = (db', r)"
  shows "quiet db db'"
  using assms by (rule cas_cases) (auto intro!: quiet_rules)

lemma flip_ready_quiet: "flip_ready now g ok cs gv fl db = (db', r) \<Longrightarrow> quiet db db'"
proof (induction cs arbitrary: gv fl db)
  case (Cons c cs)
  obtain i deps v where c: "c = (i, deps, v)" by (cases c)
  obtain db1 q where cas: "cas_node_state_tx g i (NodeStatus_as_str NodeStatus.Created) v (NodeStatus_as_str Ready) db = (db1, q)" by fastforce
  show ?case
  proof (cases "list_all ok deps \<and> q = Inr True")
    case True
    obtain db2 v2 where b: "(case gv of None \<Rightarrow> bump_graph_version_tx now g db1 | Some v \<Rightarrow> (db1, v)) = (db2, v2)" by fastforce
    then have "quiet db1 db2" using quiet_bump[OF quiet_refl, where now = now and g = g and d = db1] by (auto split: option.splits)
    then have "quiet db1 (append_event_tx now g (Some i) None (Some v2) ''node_ready''
        (JObject [(''dependencies_satisfied'', JArray (map JString deps))]) db2)" by (rule quiet_event) simp
    from quiet_trans[OF quiet_cas[OF cas] this] show ?thesis using Cons.IH Cons.prems True cas b c by (auto intro: quiet_trans)
  qed (use Cons c cas quiet_cas[OF cas] in \<open>auto intro: quiet_trans split: if_splits sum.splits bool.splits\<close>)
qed simp

lemma recompute_ready_tx_quiet: "recompute_ready_tx now g gv db = (db', r) \<Longrightarrow> quiet db db'"
  by (auto simp: recompute_ready_tx_def Let_def split: if_splits dest: flip_ready_quiet)

lemma recompute_ready_quiet: "quiet db (fst (recompute_ready now g db))"
  unfolding recompute_ready_def by (rule quiet_begin_tx[OF prod.collapse[symmetric]]) (erule recompute_ready_tx_quiet)

lemma fail_node_quiet:
  assumes "fail_node now g i a reason node gv outcome db = (db', r)" "quiet d db"
  shows "quiet d db'"
proof -
  obtain db1 q where cas: "cas_node_state_tx g i (gn_state node) (gn_version node)
      (if outcome = RearmedToReady then NodeStatus_as_str Ready else NodeStatus_as_str NodeStatus.Failed) db = (db1, q)" by fastforce
  have "quiet d db1" using assms(2) quiet_cas[OF cas] by (rule quiet_trans)
  with assms cas show ?thesis by (auto simp: fail_node_def Let_def intro!: quiet_event split: if_splits sum.splits)
qed

lemma fail_attempt_tx_quiet: "fail_attempt_tx now g i a m reason db = (db', r) \<Longrightarrow> quiet db db'"
  by (auto simp: fail_attempt_tx_def Let_def split_beta attempt_follows_def split: option.splits if_splits
      intro!: quiet_rules elim!: fail_node_quiet)

lemma fail_attempt_quiet: "fail_attempt now g i a m reason db = (db', r) \<Longrightarrow> quiet db db'"
  unfolding fail_attempt_def by (erule quiet_begin_tx) (erule fail_attempt_tx_quiet)

lemma fail_each_quiet: "fail_each now m reason rows swept db = (db', r) \<Longrightarrow> quiet db db'"
proof (induction rows arbitrary: swept db)
  case (Cons row rows)
  then show ?case
    by (cases row) (auto split: prod.splits sum.splits if_splits dest!: fail_attempt_quiet intro: quiet_trans)
qed simp

lemma sweeps_quiet: "quiet db (fst (timeout_sweep now window m db))" "quiet db (fst (fail_running_attempts now g m reason db))"
  using fail_each_quiet[OF prod.collapse[symmetric]]
  by (auto simp: timeout_sweep_def fail_running_attempts_def split: option.splits)

lemma cancel_running_attempt_quiet: "quiet db (fst (cancel_running_attempt now g i m db))"
  by (auto simp: cancel_running_attempt_def split: sum.splits option.splits prod.splits dest: fail_attempt_quiet)

lemma first_running_spec:
  assumes "first_running g i db = Some j" "distinct (map fst (gd_attempts db))"
  shows "\<exists>a. map_of (gd_attempts db) j = Some a \<and> is_running g i a"
proof -
  have "j \<in> set (sort (map fst (filter (\<lambda>(_, a). is_running g i a) (gd_attempts db))))"
    using assms(1) by (auto simp: first_running_def simp del: set_sort split: list.splits)
  then show ?thesis using assms(2) by force
qed

text \<open>The database after one node of a cancellation: its first running attempt failed, the node cancelled.\<close>

definition stopped_db :: "datetime \<Rightarrow> string \<Rightarrow> string \<Rightarrow> GraphDb \<Rightarrow> GraphDb" where
  "stopped_db now g i db = (case first_running g i db of None \<Rightarrow> db
     | Some j \<Rightarrow> update_attempt j (\<lambda>a. a\<lparr>ta_status := ''FAILED'', ta_finished_at := Some now\<rparr>) db)"

definition cancelled_db :: "datetime \<Rightarrow> string \<Rightarrow> string \<Rightarrow> GraphNode \<Rightarrow> GraphDb \<Rightarrow> GraphDb" where
  "cancelled_db now g i node db = append_event_tx now g (Some i) (first_running g i db)
     (Some (snd (bump_graph_version_tx now g (stopped_db now g i db)))) ''node_cancelled'' (JObject [(''reason'', JString ''cancelled'')])
     (set_node g i (moved_to ''CANCELLED'' node) (fst (bump_graph_version_tx now g (stopped_db now g i db))))"

lemma cancel_nodes_tx_step:
  assumes "map_of (gd_nodes db) (g, i) = Some node" "transition_ok (gn_state node) ''CANCELLED''"
  shows "cancel_nodes_tx now g (i # is) cancelled db = cancel_nodes_tx now g is (cancelled @ [i]) (cancelled_db now g i node db)"
proof -
  have "map_of (gd_nodes (stopped_db now g i db)) (g, i) = Some node" using assms(1) by (simp add: stopped_db_def split: option.splits)
  with assms show ?thesis by (simp add: Let_def split_beta cas_move stopped_db_def[symmetric] cancelled_db_def)
qed

lemma cancelled_db_quiet:
  assumes "map_of (gd_nodes db) (g, i) = Some node" "transition_ok (gn_state node) ''CANCELLED''" "distinct (map fst (gd_attempts db))"
  shows "quiet db (cancelled_db now g i node db)" and "distinct (map fst (gd_attempts (cancelled_db now g i node db)))"
proof -
  have q1: "quiet db (stopped_db now g i db)" using assms(3)
    by (auto simp: stopped_db_def is_running_def attempt_follows_def dest: first_running_spec intro!: quiet_rules split: option.splits)
  have "map_of (gd_nodes (stopped_db now g i db)) (g, i) = Some node" using assms(1) by (simp add: stopped_db_def split: option.splits)
  with q1 assms(2) show q: "quiet db (cancelled_db now g i node db)" unfolding cancelled_db_def by (auto intro!: quiet_rules)
  from quiet_advances[OF q] assms(3) show "distinct (map fst (gd_attempts (cancelled_db now g i node db)))" by (simp add: advances_def)
qed

lemma cancel_nodes_tx_quiet:
  "cancel_nodes_tx now g is cancelled db = (db', r) \<Longrightarrow> distinct (map fst (gd_attempts db)) \<Longrightarrow> quiet db db'"
proof (induction "is" arbitrary: cancelled db)
  case (Cons i "is")
  show ?case
  proof (cases "\<exists>node. map_of (gd_nodes db) (g, i) = Some node \<and> transition_ok (gn_state node) ''CANCELLED''")
    case True
    then obtain node where node: "map_of (gd_nodes db) (g, i) = Some node" "transition_ok (gn_state node) ''CANCELLED''" by blast
    note q = cancelled_db_quiet[OF node Cons.prems(2), of now]
    from Cons.IH[OF Cons.prems(1)[unfolded cancel_nodes_tx_step[OF node]] q(2)] q(1) show ?thesis by (rule quiet_trans[rotated])
  qed (use Cons in \<open>auto split: option.splits\<close>)
qed simp

lemma cancel_nodes_quiet: "distinct (map fst (gd_attempts db)) \<Longrightarrow> quiet db (fst (cancel_nodes now g is db))"
  unfolding cancel_nodes_def by (rule quiet_begin_tx[OF prod.collapse[symmetric]]) (erule cancel_nodes_tx_quiet)

lemma merge_quiet: "quiet db (fst (issue_merge_grant sha now g db))" "quiet db (fst (report_merge_outcome now g key oc db))"
  by (auto simp: issue_merge_grant_def report_merge_outcome_def Let_def intro!: quiet_rules split: option.splits if_splits)

lemma write_graph_quiet: "quiet db (fst (write_graph p shadow imported db))"
proof -
  have "advances db (fst (write_graph p shadow imported db))"
    using follows_append[of graph_follows "gd_graphs db" "[(gp_graph_id p, _)]"]
    by (auto simp: write_graph_def advances_def follows_refl graph_follows_def intro!: follows_update split: option.splits simp del: map_of_append)
  then show ?thesis by (rule quietI) (auto simp: write_graph_def split: option.splits)
qed

lemma write_node_quiet: "quiet db (fst (write_node g shadow row db))"
proof (cases "map_of (gd_nodes db) (g, nr_node_id row)")
  case None
  then show ?thesis by (auto simp: write_node_def intro!: quiet_rules)
next
  case (Some n)
  then have "advances db (fst (write_node g shadow row db))"
    by (auto simp: write_node_def advances_def follows_refl distinct_update node_follows_def intro!: follows_update)
  then show ?thesis by (rule quietI) (auto simp: write_node_def Some)
qed

lemma write_nodes_quiet: "quiet db (fst (write_nodes g shadow existing rows stats db))"
proof (induction rows arbitrary: stats db)
  case (Cons row rows)
  have "quiet db (fst (write_nodes g shadow existing rows st (fst (write_node g shadow row db))))" for st
    using quiet_trans[OF write_node_quiet Cons.IH] .
  with Cons.IH show ?case by (simp add: Let_def split_beta)
qed simp

lemma write_attempts_quiet: "quiet db (fst (write_attempts g rows stats db))"
proof (induction rows arbitrary: stats db)
  case (Cons row rows)
  show ?case
  proof (cases "attempt_clash (ar_attempt_id row) (ar_node_id row) (ar_retry_no row) db")
    case False
    then have "map_of (gd_attempts db) (ar_attempt_id row) = None" by (simp add: attempt_clash_def)
    from quiet_trans[OF quiet_add_attempt[OF quiet_refl this] Cons.IH] show ?thesis using False by simp
  qed (use Cons.IH in simp)
qed simp

lemma write_completions_quiet: "quiet db (fst (write_completions g updated rows stats db))"
proof (induction rows arbitrary: stats db)
  case (Cons row rows)
  show ?case using quiet_trans[OF quiet_add_completion[OF quiet_refl] Cons.IH] Cons.IH by simp
qed simp

definition existing_states :: "GraphProjection \<Rightarrow> bool \<Rightarrow> GraphDb \<Rightarrow> string \<rightharpoonup> string" where
  "existing_states p shadow db = (if shadow then map_of (map (\<lambda>((_, i), n). (i, gn_state n))
     (filter (\<lambda>((g, _), _). g = gp_graph_id p) (gd_nodes db))) else Map.empty)"

lemma write_projection_eq:
  assumes "gd_fault db = None"
  shows "write_projection p shadow imported db =
    (let db1 = fst (write_graph p shadow imported db);
         w2 = write_nodes (gp_graph_id p) shadow (existing_states p shadow db1) (gp_nodes p)
           (BackfillStats_default\<lparr>bs_graphs := snd (write_graph p shadow imported db)\<rparr>) db1;
         w3 = write_attempts (gp_graph_id p) (gp_attempts p) (snd w2) (fst w2);
         w4 = write_completions (gp_graph_id p) (gp_updated_at p) (gp_completions p) (snd w3) (fst w3)
     in (fst w4, Inr (snd w4)))"
  using assms by (simp add: write_projection_def begin_tx_def split_beta Let_def existing_states_def)

lemma write_projection_quiet: "quiet db (fst (write_projection p shadow imported db))"
proof (cases "gd_fault db")
  case None
  show ?thesis unfolding write_projection_eq[OF None] Let_def fst_conv
    by (rule quiet_trans[OF quiet_trans[OF quiet_trans[OF write_graph_quiet write_nodes_quiet] write_attempts_quiet] write_completions_quiet])
qed (simp add: write_projection_def begin_tx_fault)

end
