(* ===== verification/Graph_Commit.thy ===== *)
theory Graph_Commit
  imports Graph_History
begin

text \<open>
  The transaction that commits a node: when it wins, what the winner writes, and the readiness of dependants.
\<close>

section \<open>Readiness\<close>

lemma dep_satisfied_iff:
  assumes "distinct (map fst (gd_nodes db))"
  shows "dep_satisfied g db d \<longleftrightarrow> (\<exists>n. map_of (gd_nodes db) (g, d) = Some n \<and>
    (gn_state n = ''SUCCEEDED'' \<or> gn_state n = ''SKIPPED'' \<and> gn_optional n))"
proof -
  have "dep_satisfied g db d \<longleftrightarrow> (\<exists>n. ((g, d), n) \<in> set (gd_nodes db) \<and> (gn_state n = ''SUCCEEDED'' \<or> gn_state n = ''SKIPPED'' \<and> gn_optional n))"
    unfolding dep_satisfied_def list_ex_iff by (auto intro!: bexI[rotated])
  then show ?thesis by (simp add: map_of_eq_Some_iff[OF assms])
qed

definition released :: "string \<Rightarrow> GraphDb \<Rightarrow> string \<times> string \<Rightarrow> bool" where
  "released g db k \<longleftrightarrow> fst k = g \<and> (\<exists>n. map_of (gd_nodes db) k = Some n \<and> gn_state n = ''CREATED'' \<and>
     (\<forall>d \<in> set (gn_dependencies n). dep_satisfied g db d))"

lemma recompute_ready_tx_spec:
  assumes "distinct (map fst (gd_nodes db))"
  obtains db' fl where "recompute_ready_tx now g gv db = (db', Inr fl)" "quiet db db'" "same_rows db db'"
    "\<And>k. map_of (gd_nodes db') k = (if released g db k then map_option (moved_to ''READY'') (map_of (gd_nodes db) k) else map_of (gd_nodes db) k)"
    "\<And>i. i \<in> set fl \<longleftrightarrow> released g db (g, i)"
proof -
  have run: "recompute_ready_tx now g gv db = flip_ready now g (dep_satisfied g db) (created_nodes g db) gv [] db"
    by (simp add: recompute_ready_tx_def Let_def)
  have cs: "\<forall>(i, deps, v) \<in> set (created_nodes g db). \<exists>n. map_of (gd_nodes db) (g, i) = Some n \<and> gn_state n = ''CREATED'' \<and> gn_version n = v"
    using created_nodes_spec(2)[OF assms] by auto
  have rel: "fst k = g \<and> (\<exists>deps v. (snd k, deps, v) \<in> set (created_nodes g db) \<and> list_all (dep_satisfied g db) deps) \<longleftrightarrow> released g db k" for k
    by (cases k) (auto simp: released_def created_nodes_spec(2)[OF assms] list_all_iff)
  have fl: "i \<in> set (map fst (filter (\<lambda>(_, deps, _). list_all (dep_satisfied g db) deps) (created_nodes g db))) \<longleftrightarrow> released g db (g, i)" for i
    using rel[of "(g, i)"] by force
  from flip_ready_spec[OF created_nodes_spec(1)[OF assms] cs, of now "dep_satisfied g db" gv "[]"] rel fl run
  show ?thesis by (auto intro: that)
qed

lemma dep_satisfied_recompute:
  assumes "distinct (map fst (gd_nodes db))" "distinct (map fst (gd_nodes db'))"
    and "\<And>k. map_of (gd_nodes db') k = (if released g db k then map_option (moved_to ''READY'') (map_of (gd_nodes db) k) else map_of (gd_nodes db) k)"
  shows "dep_satisfied g db' d = dep_satisfied g db d"
  by (auto simp: dep_satisfied_iff[OF assms(1)] dep_satisfied_iff[OF assms(2)] assms(3) released_def)

section \<open>The winner\<close>

definition won_attempt :: "datetime \<Rightarrow> string option \<Rightarrow> TaskAttempt \<Rightarrow> TaskAttempt" where
  "won_attempt now result_ref a = a\<lparr>ta_status := ''SUCCEEDED'', ta_finished_at := Some now,
     ta_result_ref := (case result_ref of None \<Rightarrow> ta_result_ref a | Some r \<Rightarrow> Some r)\<rparr>"

lemma update_attempt_hit:
  "map_of (gd_attempts db) i = Some a \<Longrightarrow> map_of (gd_attempts (update_attempt i f db)) = (map_of (gd_attempts db))(i \<mapsto> f a)"
  by (simp add: update_attempt_def update_conv')

text \<open>The database of a winner before the readiness of its dependants is computed.\<close>

definition won_db ::
  "datetime \<Rightarrow> string \<Rightarrow> string \<Rightarrow> string \<Rightarrow> string option \<Rightarrow> GraphNode \<Rightarrow> json \<Rightarrow> EventUsage \<Rightarrow> GraphDb \<Rightarrow> GraphDb" where
  "won_db now g i w ref node payload usage db =
     (let db1 = fst (bump_graph_version_tx now g db);
          db2 = update_attempt w (\<lambda>a. if ta_status a = ''RUNNING'' then won_attempt now ref a else a) db1;
          db3 = (if gn_state node = ''RUNNING'' then set_node g i (moved_to ''SUCCEEDED'' node) db2 else db2)
      in append_event_with_usage_tx now g (Some i) (Some w) (Some (snd (bump_graph_version_tx now g db))) ''node_succeeded'' payload (Some usage) db3)"

lemma settle_winner_eq:
  assumes "map_of (gd_nodes db) (g, i) = Some node"
  shows "settle_winner tn tv now g i w ref usage steps node a db =
    (case commit_usage tn (reported_usage usage) (ta_started_at a) now of
       Inl e \<Rightarrow> (if gn_state node = ''RUNNING''
                 then set_node g i (moved_to ''SUCCEEDED'' node) (update_attempt w (\<lambda>a. if ta_status a = ''RUNNING'' then won_attempt now ref a else a)
                   (fst (bump_graph_version_tx now g db)))
                 else update_attempt w (\<lambda>a. if ta_status a = ''RUNNING'' then won_attempt now ref a else a) (fst (bump_graph_version_tx now g db)),
                 Inl (StorageError (''event append (node_succeeded): '' @ e)))
     | Inr u \<Rightarrow> (case recompute_ready_tx now g (Some (snd (bump_graph_version_tx now g db)))
           (won_db now g i w ref node (commit_payload tv ref (reported_usage usage) steps) u db) of
         (db, Inl e) \<Rightarrow> (db, Inl e)
       | (db, Inr _) \<Rightarrow> (db, Inr True)))"
  using assms unfolding won_attempt_def won_db_def
  by (cases "gn_state node = ''RUNNING''") (simp_all add: settle_winner_def split_beta Let_def transition_ok_succeeded cas_move split: sum.splits)

lemma won_db_nodes: "map_of (gd_nodes (won_db now g i w ref node p u db)) =
    (if gn_state node = ''RUNNING'' then (map_of (gd_nodes db))((g, i) \<mapsto> moved_to ''SUCCEEDED'' node) else map_of (gd_nodes db))"
  by (simp add: won_db_def Let_def)

lemma won_db_rows: "gd_completions (won_db now g i w ref node p u db) = gd_completions db" "gd_grants (won_db now g i w ref node p u db) = gd_grants db"
  "map_of (gd_attempts db) w = Some a \<Longrightarrow> ta_status a = ''RUNNING'' \<Longrightarrow>
     map_of (gd_attempts (won_db now g i w ref node p u db)) = (map_of (gd_attempts db))(w \<mapsto> won_attempt now ref a)"
  "gd_events (won_db now g i w ref node p u db) = gd_events db @ [\<lparr>ev_graph_id = g, ev_node_id = Some i, ev_attempt_id = Some w,
     ev_graph_version = Some (snd (bump_graph_version_tx now g db)), ev_event_type = ''node_succeeded'', ev_payload = p, ev_usage = u, ev_created_at = now\<rparr>]"
  by (simp_all add: won_db_def Let_def update_attempt_hit append_event_with_usage_tx_def unwrap_or_def)

lemma won_db_advances:
  assumes "map_of (gd_nodes db) (g, i) = Some node" "map_of (gd_attempts db) w = Some a" "ta_status a = ''RUNNING''"
  shows "advances db (won_db now g i w ref node p u db)"
proof -
  let ?db2 = "update_attempt w (\<lambda>a. if ta_status a = ''RUNNING'' then won_attempt now ref a else a) (fst (bump_graph_version_tx now g db))"
  have "quiet db ?db2" using assms(2,3) by (intro quiet_rules quiet_refl) (auto simp: attempt_follows_def won_attempt_def)
  moreover have "map_of (gd_nodes ?db2) (g, i) = Some node" using assms(1) by simp
  ultimately have "quiet db (if gn_state node = ''RUNNING'' then set_node g i (moved_to ''SUCCEEDED'' node) ?db2 else ?db2)"
    by (auto intro!: quiet_rules)
  from plane_trans[OF quiet_advances[OF this] advances_event_usage] show ?thesis unfolding won_db_def Let_def .
qed

definition nodes_after :: "string \<Rightarrow> GraphDb \<Rightarrow> GraphDb \<Rightarrow> bool" where
  "nodes_after g db db' \<longleftrightarrow> (\<forall>k. map_of (gd_nodes db') k =
     (if released g db k then map_option (moved_to ''READY'') (map_of (gd_nodes db) k) else map_of (gd_nodes db) k))"

text \<open>
  A commit wins exactly when the attempt is running, the node has not succeeded, no completion of that node id exists
  and the database accepts the reported cost.
\<close>

definition may_win :: "(f64 \<Rightarrow> (string, int) result) \<Rightarrow> datetime \<Rightarrow> string \<Rightarrow> string \<Rightarrow> string \<Rightarrow> SubtaskUsage option \<Rightarrow> GraphDb \<Rightarrow> bool" where
  "may_win tn now g i w usage db \<longleftrightarrow> (\<exists>node a u. map_of (gd_nodes db) (g, i) = Some node \<and> gn_state node \<noteq> ''SUCCEEDED'' \<and>
     map_of (gd_attempts db) w = Some a \<and> ta_status a = ''RUNNING'' \<and> map_of (gd_completions db) i = None \<and>
     commit_usage tn (reported_usage usage) (ta_started_at a) now = Inr u)"

definition add_completion :: "datetime \<Rightarrow> string \<Rightarrow> string \<Rightarrow> string \<Rightarrow> string option \<Rightarrow> GraphDb \<Rightarrow> GraphDb" where
  "add_completion now g i w ref db = db\<lparr>gd_completions := gd_completions db @ [(i, \<lparr>nc_graph_id = g, nc_winning_attempt_id = w,
     nc_result_ref = ref, nc_committed_at = now\<rparr>)]\<rparr>"

lemma add_completion_fields [simp]: "gd_nodes (add_completion now g i w ref db) = gd_nodes db"
  "gd_attempts (add_completion now g i w ref db) = gd_attempts db" "gd_events (add_completion now g i w ref db) = gd_events db"
  "gd_graphs (add_completion now g i w ref db) = gd_graphs db" "gd_grants (add_completion now g i w ref db) = gd_grants db"
  by (simp_all add: add_completion_def)

lemma commit_once_won:
  assumes "gd_fault db = None" "distinct (map fst (gd_nodes db))" "may_win tn now g i w usage db"
  obtains db' node a u where "commit_once tn tv now g i w ref usage steps db = (db', Inr True)"
    "map_of (gd_nodes db) (g, i) = Some node" "map_of (gd_attempts db) w = Some a" "ta_status a = ''RUNNING''"
    "map_of (gd_completions db) i = None"
    "commit_usage tn (reported_usage usage) (ta_started_at a) now = Inr u"
    "quiet (won_db now g i w ref node (commit_payload tv ref (reported_usage usage) steps) u (add_completion now g i w ref db)) db'"
    "same_rows (won_db now g i w ref node (commit_payload tv ref (reported_usage usage) steps) u (add_completion now g i w ref db)) db'"
    "nodes_after g (won_db now g i w ref node (commit_payload tv ref (reported_usage usage) steps) u (add_completion now g i w ref db)) db'"
    "advances db (won_db now g i w ref node (commit_payload tv ref (reported_usage usage) steps) u (add_completion now g i w ref db))"
proof -
  from assms(3) obtain node a u where win: "map_of (gd_nodes db) (g, i) = Some node" "gn_state node \<noteq> ''SUCCEEDED''"
      "map_of (gd_attempts db) w = Some a" "ta_status a = ''RUNNING''" "map_of (gd_completions db) i = None"
      "commit_usage tn (reported_usage usage) (ta_started_at a) now = Inr u"
    unfolding may_win_def by blast
  let ?m = "won_db now g i w ref node (commit_payload tv ref (reported_usage usage) steps) u (add_completion now g i w ref db)"
  have m: "advances (add_completion now g i w ref db) ?m" by (rule won_db_advances) (use win in simp_all)
  have adv: "advances db ?m" by (rule plane_trans[OF _ m]) (simp add: add_completion_def advances_add_completion)
  then have keys: "distinct (map fst (gd_nodes ?m))" using assms(2) by (simp add: advances_def)
  obtain db' fl where db': "recompute_ready_tx now g (Some (snd (bump_graph_version_tx now g (add_completion now g i w ref db)))) ?m = (db', Inr fl)"
    "quiet ?m db'" "same_rows ?m db'" "nodes_after g ?m db'"
    using recompute_ready_tx_spec[OF keys] unfolding nodes_after_def by metis
  have "settle_winner tn tv now g i w ref usage steps node a (add_completion now g i w ref db) = (db', Inr True)"
    by (subst settle_winner_eq) (use win db'(1) in simp_all)
  then have "commit_once tn tv now g i w ref usage steps db = (db', Inr True)"
    using win assms(1) by (simp add: commit_once_def begin_tx_def add_completion_def)
  from that[OF this win(1,3,4,5,6) db'(2-4) adv] show ?thesis .
qed

lemma commit_once_lost:
  assumes "\<not> may_win tn now g i w usage db" "commit_once tn tv now g i w ref usage steps db = (db', r)"
  shows "(\<exists>e. r = Inl e \<and> db' = db) \<or> (\<exists>reason. r = Inr False \<and> db' = append_late_result now g i w reason db)"
proof (cases "gd_fault db")
  case None
  show ?thesis
  proof (cases "\<exists>node a. map_of (gd_nodes db) (g, i) = Some node \<and> gn_state node \<noteq> ''SUCCEEDED'' \<and>
      map_of (gd_attempts db) w = Some a \<and> ta_status a = ''RUNNING'' \<and> map_of (gd_completions db) i = None")
    case True
    then obtain node a where win: "map_of (gd_nodes db) (g, i) = Some node" "gn_state node \<noteq> ''SUCCEEDED''"
      "map_of (gd_attempts db) w = Some a" "ta_status a = ''RUNNING''" "map_of (gd_completions db) i = None" by blast
    with assms(1) obtain e where e: "commit_usage tn (reported_usage usage) (ta_started_at a) now = Inl e"
      unfolding may_win_def by (metis sumE)
    have "\<exists>db1 e. settle_winner tn tv now g i w ref usage steps node a (add_completion now g i w ref db) = (db1, Inl e)"
      by (subst settle_winner_eq) (use win e in simp_all)
    then show ?thesis using assms(2) win None by (auto simp: commit_once_def begin_tx_def add_completion_def)
  next
    case False
    then show ?thesis using assms(2) None by (auto simp: commit_once_def begin_tx_def split: option.splits if_splits)
  qed
qed (use assms(2) in \<open>auto simp: commit_once_def begin_tx_def\<close>)

lemma billed_won: "billed j (won_db now g i w ref node p u db) = billed j db + (if j = i then 1 else 0)"
  by (simp add: billed_def won_db_rows)

lemma commit_once_lost_quiet:
  assumes "\<not> (gd_fault db = None \<and> may_win tn now g i w usage db)"
  shows "quiet db (fst (commit_once tn tv now g i w ref usage steps db))"
proof (cases "gd_fault db")
  case None
  with assms have "\<not> may_win tn now g i w usage db" by simp
  from commit_once_lost[OF this prod.collapse[symmetric], of tv ref steps] show ?thesis by (auto intro!: quiet_rules)
qed (simp add: commit_once_def begin_tx_fault)

lemma commit_once_advances:
  assumes "distinct (map fst (gd_nodes db))"
  shows "advances db (fst (commit_once tn tv now g i w ref usage steps db))"
proof (cases "gd_fault db = None \<and> may_win tn now g i w usage db")
  case True
  then have "gd_fault db = None" "may_win tn now g i w usage db" by simp_all
  then show ?thesis by (rule commit_once_won[OF _ assms, of tn now g i w usage tv ref steps]) (auto dest: quiet_advances intro: plane_trans)
qed (rule quiet_advances[OF commit_once_lost_quiet])

end
