(* ===== verification/Graph_Runs.thy ===== *)
theory Graph_Runs
  imports Graph_Commit
begin

text \<open>
  Runs of the graph plane: the step relation over all verbs, sweeps, imports and mirror writes, the invariant of
  reachable databases, and the interface of the sink as a locale with its interpretations.
\<close>

section \<open>Runs of the graph plane\<close>

inductive graph_step :: "GraphDb \<Rightarrow> GraphDb \<Rightarrow> bool" where
  schedule: "graph_step db (fst (schedule_attempt now g i w db))"
| retry: "graph_step db (fst (retry_failed_node now g i d db))"
| heartbeat: "graph_step db (fst (heartbeat_attempt now a db))"
| commit: "graph_step db (fst (commit_once tn tv now g i a ref usage steps db))"
| fail: "graph_step db (fst (fail_attempt now g i a m reason db))"
| sweep: "graph_step db (fst (timeout_sweep now window m db))"
| fail_running: "graph_step db (fst (fail_running_attempts now g m reason db))"
| cancel_attempt: "graph_step db (fst (cancel_running_attempt now g i m db))"
| cancel: "graph_step db (fst (cancel_nodes now g is db))"
| recompute: "graph_step db (fst (recompute_ready now g db))"
| issue_grant: "graph_step db (fst (issue_merge_grant sha now g db))"
| report: "graph_step db (fst (report_merge_outcome now g key outcome db))"
| mirror: "graph_step db (fst (write_projection p shadow imported db))"
| fault: "graph_step db (db\<lparr>gd_fault := e\<rparr>)"


lemma graph_step_quiet:
  assumes "graph_step db db'" "distinct (map fst (gd_nodes db))" "distinct (map fst (gd_attempts db))"
  obtains "quiet db db'" | tn tv now g i w ref usage steps where "gd_fault db = None" "may_win tn now g i w usage db"
    "db' = fst (commit_once tn tv now g i w ref usage steps db)"
  using assms
proof (cases rule: graph_step.cases)
  case (commit tn tv now g i a ref usage steps)
  with that commit_once_lost_quiet show ?thesis by metis
next
  case fail
  then show ?thesis using that(1) fail_attempt_quiet[OF prod.collapse[symmetric]] by simp
next
  case heartbeat
  then show ?thesis using that(1) heartbeat_quiet[OF prod.collapse[symmetric]] by simp
qed (auto intro!: that(1) schedule_attempt_quiet retry_failed_node_quiet sweeps_quiet cancel_running_attempt_quiet cancel_nodes_quiet
    recompute_ready_quiet merge_quiet write_projection_quiet quiet_fault)

definition plane_ok :: "GraphDb \<Rightarrow> bool" where
  "plane_ok db \<longleftrightarrow> distinct (map fst (gd_nodes db)) \<and> distinct (map fst (gd_attempts db)) \<and>
     (\<forall>j. billed j db \<le> (if map_of (gd_completions db) j = None then 0 else 1))"

lemma plane_ok_billed:
  assumes "plane_ok db"
  shows "billed j db \<le> 1" "map_of (gd_completions db) j = None \<Longrightarrow> billed j db = 0"
proof -
  have "billed j db \<le> (if map_of (gd_completions db) j = None then 0 else 1)" using assms by (simp add: plane_ok_def)
  then show "billed j db \<le> 1" "map_of (gd_completions db) j = None \<Longrightarrow> billed j db = 0" by (auto split: if_splits)
qed

lemma advances_keys:
  "advances db db' \<Longrightarrow> distinct (map fst (gd_nodes db)) \<and> distinct (map fst (gd_attempts db)) \<Longrightarrow>
   distinct (map fst (gd_nodes db')) \<and> distinct (map fst (gd_attempts db'))"
  by (simp add: advances_def)

lemma advances_completion: "advances db db' \<Longrightarrow> map_of (gd_completions db) j = Some c \<Longrightarrow> map_of (gd_completions db') j = Some c"
  by (simp add: advances_def follows_def)

lemma graph_step_plane_ok:
  assumes "graph_step db db'" "plane_ok db"
  shows "advances db db' \<and> plane_ok db'"
proof -
  have keys: "distinct (map fst (gd_nodes db))" "distinct (map fst (gd_attempts db))" using assms(2) by (simp_all add: plane_ok_def)
  from assms(1) keys show ?thesis
  proof (rule graph_step_quiet)
    assume q: "quiet db db'"
    have "billed j db' \<le> (if map_of (gd_completions db') j = None then 0 else 1)" for j
      using q plane_ok_billed[OF assms(2), of j] advances_completion[OF quiet_advances[OF q], of j]
      by (cases "map_of (gd_completions db) j") (auto simp: quiet_def)
    then show ?thesis using q keys advances_keys[of db db'] by (simp add: plane_ok_def quiet_def)
  next
    fix tn tv now g i w ref usage steps
    assume win: "gd_fault db = None" "may_win tn now g i w usage db" and db': "db' = fst (commit_once tn tv now g i w ref usage steps db)"
    have adv: "advances db db'" unfolding db' by (rule commit_once_advances[OF keys(1)])
    have "billed j db' \<le> (if map_of (gd_completions db') j = None then 0 else 1)" for j
    proof (rule commit_once_won[OF win(1) keys(1) win(2), of tv ref steps])
      fix db2 node a u
      assume r: "commit_once tn tv now g i w ref usage steps db = (db2, Inr True)" "map_of (gd_completions db) i = None"
        "quiet (won_db now g i w ref node (commit_payload tv ref (reported_usage usage) steps) u (add_completion now g i w ref db)) db2"
        "same_rows (won_db now g i w ref node (commit_payload tv ref (reported_usage usage) steps) u (add_completion now g i w ref db)) db2"
      have "billed j db' = billed j db + (if j = i then 1 else 0)"
        using r(3) by (simp add: quiet_def billed_won db' r(1)) (simp add: billed_def)
      moreover have "map_of (gd_completions db') i \<noteq> None"
        using r(4) by (simp add: same_rows_def won_db_rows db' r(1) add_completion_def)
      ultimately show ?thesis using plane_ok_billed[OF assms(2), of j] r(2) advances_completion[OF adv, of j]
        by (cases "map_of (gd_completions db) j") auto
    qed
    then show ?thesis using adv keys advances_keys[of db db'] by (simp add: plane_ok_def)
  qed
qed

lemma graph_run_plane_ok: "graph_step\<^sup>*\<^sup>* db db' \<Longrightarrow> plane_ok db \<Longrightarrow> advances db db' \<and> plane_ok db'"
  by (induction rule: rtranclp_induct) (auto dest: graph_step_plane_ok intro: plane_trans)

lemma empty_plane_ok: "plane_ok empty_db"
  by (simp add: plane_ok_def empty_db_def billed_def)

lemmas reached_plane_ok = conjunct2[OF graph_run_plane_ok[OF _ empty_plane_ok]]

text \<open>
  C7. Whatever sequence of verbs, sweeps, cancellations, imports and mirror writes runs on the graph plane, a node moves
  only along edges of the state machine and a node that succeeded, was cancelled or skipped keeps that state; a
  completion is never changed; an attempt that no longer runs is final; and the event log only grows.
\<close>

theorem graph_history_permanent:
  assumes "graph_step\<^sup>*\<^sup>* empty_db db" "graph_step\<^sup>*\<^sup>* db db'"
  shows "(\<forall>k n. map_of (gd_nodes db) k = Some n \<longrightarrow> (\<exists>n'. map_of (gd_nodes db') k = Some n' \<and>
      (\<lambda>s t. \<exists>m m'. from_token s = Some m \<and> from_token t = Some m' \<and> can_transition m m')\<^sup>*\<^sup>* (gn_state n) (gn_state n') \<and>
      (gn_state n \<in> {''SUCCEEDED'', ''CANCELLED'', ''SKIPPED''} \<longrightarrow> gn_state n' = gn_state n))) \<and>
    (\<forall>j c. map_of (gd_completions db) j = Some c \<longrightarrow> map_of (gd_completions db') j = Some c) \<and>
    (\<forall>a t. map_of (gd_attempts db) a = Some t \<longrightarrow> ta_status t \<noteq> ''RUNNING'' \<longrightarrow> map_of (gd_attempts db') a = Some t) \<and>
    (\<exists>es. gd_events db' = gd_events db @ es)"
proof -
  have adv: "advances db db'" using graph_run_plane_ok[OF assms(2) reached_plane_ok[OF assms(1)]] by simp
  have ok: "transition_ok = (\<lambda>s t. \<exists>m m'. from_token s = Some m \<and> from_token t = Some m' \<and> can_transition m m')"
    by (auto simp: transition_ok_def fun_eq_iff split: option.splits)
  have "\<exists>n'. map_of (gd_nodes db') k = Some n' \<and> moves (gn_state n) (gn_state n') \<and>
      (gn_state n \<in> {''SUCCEEDED'', ''CANCELLED'', ''SKIPPED''} \<longrightarrow> gn_state n' = gn_state n)" if n: "map_of (gd_nodes db) k = Some n" for k n
  proof -
    from adv n obtain n' where n': "map_of (gd_nodes db') k = Some n'" "moves (gn_state n) (gn_state n')"
      unfolding advances_def follows_def node_follows_def by blast
    then show ?thesis using moves_terminal[OF n'(2)] by blast
  qed
  moreover have "map_of (gd_attempts db') a = Some t" if "map_of (gd_attempts db) a = Some t" "ta_status t \<noteq> ''RUNNING''" for a t
    using adv that unfolding advances_def follows_def attempt_follows_def by blast
  moreover have "\<exists>es. gd_events db' = gd_events db @ es" using adv by (simp add: advances_def)
  ultimately show ?thesis using advances_completion[OF adv] unfolding ok by blast
qed

text \<open>
  The usage of a node is billed at most once: along any run there is at most one terminal success event for a node
  id, and there is none before the commit that wins, which adds exactly one.
\<close>

lemma commit_bills_once:
  assumes "graph_step\<^sup>*\<^sup>* empty_db db"
  shows "length (filter (\<lambda>e. ev_event_type e = ''node_succeeded'' \<and> ev_node_id e = Some i) (gd_events db)) \<le> 1 \<and>
    (\<forall>db'. commit_once tn tv now g i w ref usage steps db = (db', Inr True) \<longrightarrow>
      filter (\<lambda>e. ev_event_type e = ''node_succeeded'' \<and> ev_node_id e = Some i) (gd_events db) = [] \<and>
      length (filter (\<lambda>e. ev_event_type e = ''node_succeeded'' \<and> ev_node_id e = Some i) (gd_events db')) = 1)"
proof -
  have ok: "plane_ok db" by (rule reached_plane_ok[OF assms])
  have "billed i db = 0 \<and> billed i db' = 1" if c: "commit_once tn tv now g i w ref usage steps db = (db', Inr True)" for db'
  proof -
    have win: "gd_fault db = None" "may_win tn now g i w usage db"
      using c commit_once_lost[OF _ c] by (auto simp: commit_once_def begin_tx_def split: option.splits)
    obtain node a u where r: "map_of (gd_completions db) i = None"
      "quiet (won_db now g i w ref node (commit_payload tv ref (reported_usage usage) steps) u (add_completion now g i w ref db)) db'"
      using commit_once_won[OF win(1) _ win(2), of tv ref steps] ok c unfolding plane_ok_def by (metis prod.inject)
    have "billed i db = 0" using plane_ok_billed(2)[OF ok r(1)] .
    moreover have "billed i db' = Suc (billed i db)"
      using r(2) by (simp add: quiet_def billed_won) (simp add: billed_def)
    ultimately show ?thesis by simp
  qed
  moreover have "billed i db \<le> 1" by (rule plane_ok_billed(1)[OF ok])
  ultimately show ?thesis unfolding billed_def by simp
qed

section \<open>The sink as the gateway sees it\<close>

text \<open>
  The gateway holds a sink and calls its verbs in any order. What it relies on is that the first result of a node
  wins: a verb keeps every completion. The store provides that, and so do the default verbs of the trait, which do
  nothing.
\<close>

datatype SinkVerb =
    ShadowPersist Task
  | OnSchedule datetime ExecutionEnvelope "string option"
  | OnHeartbeat datetime ExecutionEnvelope
  | OnCommit "f64 \<Rightarrow> (string, int) result" "StepUsage list \<Rightarrow> json option" datetime ExecutionEnvelope "string option"
      "SubtaskUsage option" "StepUsage list option"
  | OnFail datetime ExecutionEnvelope string
  | OnRetry datetime ExecutionEnvelope
  | SweepTimeouts datetime int
  | FailRunning datetime string string
  | CancelAttempt datetime string string
  | CancelNodes datetime string "string list"
  | IssueGrant "EngineError \<Rightarrow> string" "string \<Rightarrow> string" datetime string
  | ReportOutcome datetime string string MergeOutcomeReport

fun run_verb :: "SinkVerb \<Rightarrow> GraphDb \<Rightarrow> GraphDb" where
  "run_verb (ShadowPersist task) db = shadow_persist task db"
| "run_verb (OnSchedule now e w) db = on_schedule now e w db"
| "run_verb (OnHeartbeat now e) db = on_heartbeat now e db"
| "run_verb (OnCommit tn tv now e ref usage steps) db = on_commit tn tv now e ref usage steps db"
| "run_verb (OnFail now e reason) db = on_fail now e reason db"
| "run_verb (OnRetry now e) db = on_retry now e db"
| "run_verb (SweepTimeouts now window) db = fst (sink_sweep_timeouts now window db)"
| "run_verb (FailRunning now g reason) db = fst (sink_fail_running_attempts now g reason db)"
| "run_verb (CancelAttempt now g i) db = fst (sink_cancel_running_attempt now g i db)"
| "run_verb (CancelNodes now g is) db = fst (sink_cancel_nodes now g is db)"
| "run_verb (IssueGrant sh sha now g) db = fst (sink_issue_merge_grant sh sha now g db)"
| "run_verb (ReportOutcome now g key oc) db = fst (sink_report_merge_outcome now g key oc db)"

lemma fst_ok_or [simp]: "fst (ok_or d r) = fst r"
  by (cases r) (auto simp: ok_or_def split: sum.splits)

lemma run_verb_step: "graph_step\<^sup>=\<^sup>= db (run_verb v db)"
proof (cases v)
  case (ShadowPersist task)
  then show ?thesis using graph_step.mirror[of db "project_task task" True False] by (simp add: shadow_persist_def upsert_task_shadow_def)
next
  case (IssueGrant sh sha now g)
  then show ?thesis using graph_step.issue_grant[of db sha now g]
    by (auto simp: sink_issue_merge_grant_def split: prod.splits sum.splits)
qed (auto simp: on_schedule_def on_heartbeat_def on_commit_def on_fail_def on_retry_def sink_sweep_timeouts_def
    sink_fail_running_attempts_def sink_cancel_running_attempt_def sink_cancel_nodes_def sink_report_merge_outcome_def Let_def
    intro: graph_step.intros split: sum.splits option.splits)

locale completion_sink =
  fixes run :: "'v \<Rightarrow> 's \<Rightarrow> 's" and completed :: "'s \<Rightarrow> string \<Rightarrow> 'c option" and consistent :: "'s \<Rightarrow> bool"
  assumes keeps_consistent: "consistent s \<Longrightarrow> consistent (run v s)"
    and keeps_completed: "consistent s \<Longrightarrow> completed s j = Some c \<Longrightarrow> completed (run v s) j = Some c"
begin

lemma first_result_wins: "consistent s \<Longrightarrow> completed s j = Some c \<Longrightarrow> completed (fold run vs s) j = Some c"
  by (induction vs arbitrary: s) (auto intro: keeps_consistent keeps_completed)

end

interpretation store_sink: completion_sink run_verb "\<lambda>db. map_of (gd_completions db)" plane_ok
proof
  fix db v
  assume ok: "plane_ok db"
  show "plane_ok (run_verb v db)" using run_verb_step[of db v] graph_step_plane_ok[OF _ ok] ok by auto
  show "map_of (gd_completions (run_verb v db)) j = Some c" if "map_of (gd_completions db) j = Some c" for j c
    using run_verb_step[of db v] graph_step_plane_ok[OF _ ok] advances_completion[OF _ that] that by auto
qed

interpretation default_sink: completion_sink "\<lambda>(v :: SinkVerb) db. db" "\<lambda>db. map_of (gd_completions db)" "\<lambda>_ :: GraphDb. True"
  by unfold_locales

text \<open>In a reachable state a completion survives every sequence of calls of the sink.\<close>

lemma completion_survives_sink:
  assumes "graph_step\<^sup>*\<^sup>* empty_db db" "map_of (gd_completions db) j = Some c"
  shows "map_of (gd_completions (fold run_verb vs db)) j = Some c"
  using store_sink.first_result_wins[OF reached_plane_ok[OF assms(1)] assms(2)] .

end
