(* ===== verification/Graph_Fence.thy ===== *)
theory Graph_Fence
  imports Graph_Runs
begin

text \<open>
  Outcome of commits, fencing of failed attempts, fencing epochs of dispatches, and the retry budget.
\<close>

section \<open>Outcome of a commit\<close>

text \<open>
  C6. In every reachable state with a database that answers, a commit wins exactly when the node exists and has not
  succeeded, the attempt runs, no completion exists for the node id and the database accepts the reported cost. The
  winner's completion and attempt are recorded, a running node succeeds, and every node of the graph that waited
  becomes ready exactly when all its dependencies are satisfied. A commit that does not win changes no table but the
  event log.
\<close>

theorem commit_once_outcome:
  assumes "graph_step\<^sup>*\<^sup>* empty_db db" "gd_fault db = None" "commit_once tn tv now g i w ref usage steps db = (db', r)"
  shows "if \<exists>node a u. map_of (gd_nodes db) (g, i) = Some node \<and> gn_state node \<noteq> ''SUCCEEDED'' \<and>
       map_of (gd_attempts db) w = Some a \<and> ta_status a = ''RUNNING'' \<and> map_of (gd_completions db) i = None \<and>
       commit_usage tn (reported_usage usage) (ta_started_at a) now = Inr u
     then r = Inr True \<and>
       map_of (gd_completions db') i = Some \<lparr>nc_graph_id = g, nc_winning_attempt_id = w, nc_result_ref = ref, nc_committed_at = now\<rparr> \<and>
       map_option ta_status (map_of (gd_attempts db') w) = Some ''SUCCEEDED'' \<and>
       (\<forall>n. map_of (gd_nodes db) (g, i) = Some n \<longrightarrow> gn_state n = ''RUNNING'' \<longrightarrow>
          map_option gn_state (map_of (gd_nodes db') (g, i)) = Some ''SUCCEEDED'') \<and>
       (\<forall>j n. map_of (gd_nodes db) (g, j) = Some n \<longrightarrow> gn_state n = ''CREATED'' \<longrightarrow>
          map_option gn_state (map_of (gd_nodes db') (g, j)) =
            Some (if \<forall>d \<in> set (gn_dependencies n). dep_satisfied g db' d then ''READY'' else ''CREATED''))
     else r \<noteq> Inr True \<and> gd_nodes db' = gd_nodes db \<and> gd_attempts db' = gd_attempts db \<and> gd_completions db' = gd_completions db \<and>
       gd_graphs db' = gd_graphs db \<and> gd_grants db' = gd_grants db"
proof -
  have keys: "distinct (map fst (gd_nodes db))" using reached_plane_ok[OF assms(1)] by (simp add: plane_ok_def)
  show ?thesis
  proof (cases "may_win tn now g i w usage db")
    case True
    show ?thesis
    proof (rule commit_once_won[OF assms(2) keys True, of tv ref steps])
      fix db2 node a u
      let ?m = "won_db now g i w ref node (commit_payload tv ref (reported_usage usage) steps) u (add_completion now g i w ref db)"
      assume r: "commit_once tn tv now g i w ref usage steps db = (db2, Inr True)" and node: "map_of (gd_nodes db) (g, i) = Some node"
        and a: "map_of (gd_attempts db) w = Some a" "ta_status a = ''RUNNING''" and none: "map_of (gd_completions db) i = None"
        and m: "quiet ?m db2" "same_rows ?m db2" "nodes_after g ?m db2" "advances db ?m"
      have db2: "db' = db2" "r = Inr True" using r assms(3) by simp_all
      have mkeys: "distinct (map fst (gd_nodes ?m))" using m(4) keys by (simp add: advances_def)
      then have keys2: "distinct (map fst (gd_nodes db2))" using quiet_advances[OF m(1)] by (simp add: advances_def)
      note after = m(3)[unfolded nodes_after_def, rule_format]
      have "map_of (gd_completions db2) i = Some \<lparr>nc_graph_id = g, nc_winning_attempt_id = w, nc_result_ref = ref, nc_committed_at = now\<rparr>"
        using m(2) none by (simp add: same_rows_def won_db_rows(1,2)) (simp add: add_completion_def map_add_def)
      moreover have "map_option ta_status (map_of (gd_attempts db2) w) = Some ''SUCCEEDED''"
        using m(2) won_db_rows(3)[of "add_completion now g i w ref db" w a] a by (simp add: same_rows_def won_attempt_def)
      moreover have "map_option gn_state (map_of (gd_nodes db2) (g, i)) = Some ''SUCCEEDED''" if "gn_state node = ''RUNNING''"
        using that by (simp add: after won_db_nodes released_def)
      moreover have "map_option gn_state (map_of (gd_nodes db2) (g, j)) =
          Some (if \<forall>d \<in> set (gn_dependencies n). dep_satisfied g db2 d then ''READY'' else ''CREATED'')"
        if n: "map_of (gd_nodes db) (g, j) = Some n" "gn_state n = ''CREATED''" for j n
      proof -
        have mn: "map_of (gd_nodes ?m) (g, j) = Some n" using n node by (auto simp: won_db_nodes)
        have "dep_satisfied g db2 d = dep_satisfied g ?m d" for d by (rule dep_satisfied_recompute[OF mkeys keys2 after])
        then show ?thesis using mn n(2) by (simp add: after released_def)
      qed
      ultimately show ?thesis using True node unfolding db2 may_win_def[symmetric] by simp
    qed
  next
    case False
    from commit_once_lost[OF False assms(3)] show ?thesis
      using False unfolding may_win_def[symmetric] by (auto simp: append_late_result_def)
  qed
qed

section \<open>Fencing\<close>

lemma fail_attempt_settles:
  assumes "fail_attempt now g i w m reason db = (db', Inr outcome)" "outcome \<noteq> Fenced"
  shows "\<exists>a. map_of (gd_attempts db') w = Some a \<and> ta_status a = ''FAILED''"
proof -
  have keep: "gd_attempts db2 = gd_attempts db1" if "fail_node now g i w reason node gv oc db1 = (db2, q)" for node gv oc db1 db2 q
    using that by (auto simp: fail_node_def Let_def cas_node_state_tx_def split: if_splits prod.splits sum.splits option.splits)
  have "fail_attempt_tx now g i w m reason db = (db', Inr outcome)"
    using assms(1) by (auto simp: fail_attempt_def begin_tx_def split: option.splits prod.splits sum.splits)
  then show ?thesis
    using assms(2) by (auto simp: fail_attempt_tx_def Let_def split_beta update_attempt_hit dest!: keep split: option.splits if_splits)
qed

lemma advances_settled:
  "advances db db' \<Longrightarrow> map_of (gd_attempts db) w = Some a \<Longrightarrow> ta_status a \<noteq> ''RUNNING'' \<Longrightarrow> map_of (gd_attempts db') w = Some a"
  unfolding advances_def follows_def attempt_follows_def by blast

text \<open>
  The calls that take an attempt from its worker: a reported failure, the cancellation of the attempt, the sweep of the
  silent ones, the end of a pause's grace, and the cancellation of its node.
\<close>

inductive fences :: "GraphDb \<Rightarrow> string \<Rightarrow> GraphDb \<Rightarrow> bool" where
  failed: "fail_attempt now g i w m reason db = (db', Inr outcome) \<Longrightarrow> outcome \<noteq> Fenced \<Longrightarrow> fences db w db'"
| attempt_cancelled: "cancel_running_attempt now g i m db = (db', Inr (Some sw)) \<Longrightarrow> fences db (sw_attempt_id sw) db'"
| swept: "timeout_sweep now window m db = (db', Inr swept) \<Longrightarrow> sw \<in> set swept \<Longrightarrow> fences db (sw_attempt_id sw) db'"
| grace_ended: "fail_running_attempts now g m reason db = (db', Inr swept) \<Longrightarrow> sw \<in> set swept \<Longrightarrow> fences db (sw_attempt_id sw) db'"
| node_cancelled: "cancel_nodes now g is db = (db', Inr cancelled) \<Longrightarrow> i \<in> set cancelled \<Longrightarrow> first_running g i db = Some w \<Longrightarrow>
    fences db w db'"

definition settled :: "string \<Rightarrow> GraphDb \<Rightarrow> bool" where
  "settled w db \<longleftrightarrow> map_option ta_status (map_of (gd_attempts db) w) = Some ''FAILED''"

lemma settled_quiet: "quiet db db' \<Longrightarrow> settled w db \<Longrightarrow> settled w db'"
  by (auto simp: settled_def dest!: quiet_advances dest: advances_settled)

lemma fail_each_settles:
  assumes "fail_each now m reason rows swept db = (db', Inr swept')" "\<forall>sw \<in> set swept. settled (sw_attempt_id sw) db"
  shows "\<forall>sw \<in> set swept'. settled (sw_attempt_id sw) db'"
  using assms
proof (induction rows arbitrary: swept db)
  case (Cons row rows)
  obtain w g i where row: "row = (w, g, i)" by (cases row)
  obtain db1 r where f: "fail_attempt now g i w m reason db = (db1, r)" by fastforce
  obtain outcome where [simp]: "r = Inr outcome" using Cons.prems(1) row f by (cases r) simp_all
  have "settled w db1" if "outcome \<noteq> Fenced"
    using fail_attempt_settles[OF f[simplified] that] by (auto simp: settled_def)
  moreover have "\<forall>sw \<in> set swept. settled (sw_attempt_id sw) db1" using Cons.prems(2) settled_quiet[OF fail_attempt_quiet[OF f]] by blast
  ultimately show ?case using Cons.prems(1) row f
    by (cases "outcome = Fenced") (auto elim!: Cons.IH)
qed simp

lemma filter_update_other:
  assumes "map_of xs k = Some a" "\<not> P a" "\<not> P b" "distinct (map fst xs)"
  shows "map fst (filter (\<lambda>(_, x). P x) (AList.update k b xs)) = map fst (filter (\<lambda>(_, x). P x) xs)"
  using assms
proof (induction xs)
  case (Cons x xs)
  then show ?case by (cases x) (auto simp: AList.update_triv split: if_splits)
qed simp

lemma cancelled_db_attempts:
  "gd_attempts (cancelled_db now g i node db) = gd_attempts (stopped_db now g i db)"
  by (simp add: cancelled_db_def)

lemma first_running_cancelled:
  assumes "distinct (map fst (gd_attempts db))" "j \<noteq> i"
  shows "first_running g i (cancelled_db now g j node db) = first_running g i db"
proof (cases "first_running g j db")
  case (Some w)
  obtain a where a: "map_of (gd_attempts db) w = Some a" "is_running g j a" using first_running_spec[OF Some assms(1)] by blast
  then have "\<not> is_running g i a" "\<not> is_running g i (a\<lparr>ta_status := ''FAILED'', ta_finished_at := Some now\<rparr>)"
    using assms(2) by (auto simp: is_running_def)
  from filter_update_other[where P = "is_running g i", OF a(1) this assms(1)] show ?thesis
    using Some a(1) by (simp add: first_running_def cancelled_db_attempts stopped_db_def update_attempt_def)
qed (simp add: first_running_def cancelled_db_attempts stopped_db_def)

lemma cancelled_db_settles:
  assumes "distinct (map fst (gd_attempts db))" "first_running g i db = Some w"
  shows "settled w (cancelled_db now g i node db)"
  using first_running_spec[OF assms(2,1)] assms(2)
  by (auto simp: settled_def cancelled_db_attempts stopped_db_def update_attempt_hit)

lemma cancel_nodes_tx_settles:
  assumes "cancel_nodes_tx now g is cancelled db = (db', Inr cancelled')" "distinct (map fst (gd_attempts db))" "i \<in> set cancelled'"
    "if i \<in> set cancelled then settled w db else first_running g i db = Some w"
  shows "settled w db'"
  using assms
proof (induction "is" arbitrary: cancelled db)
  case (Cons j "is")
  show ?case
  proof (cases "\<exists>node. map_of (gd_nodes db) (g, j) = Some node \<and> transition_ok (gn_state node) ''CANCELLED''")
    case True
    then obtain node where node: "map_of (gd_nodes db) (g, j) = Some node" "transition_ok (gn_state node) ''CANCELLED''" by blast
    note q = cancelled_db_quiet[OF node Cons.prems(2), of now]
    have "if i \<in> set (cancelled @ [j]) then settled w (cancelled_db now g j node db)
        else first_running g i (cancelled_db now g j node db) = Some w"
      using Cons.prems(2,4) settled_quiet[OF q(1)] cancelled_db_settles first_running_cancelled by (auto split: if_splits)
    from Cons.IH[OF Cons.prems(1)[unfolded cancel_nodes_tx_step[OF node]] q(2) Cons.prems(3) this] show ?thesis .
  qed (use Cons in \<open>auto split: option.splits\<close>)
qed simp

lemma fences_settled:
  assumes "fences db w db'" "distinct (map fst (gd_attempts db))"
  shows "settled w db' \<and> graph_step db db'"
  using assms(1)
proof cases
  case (failed now g i m reason outcome)
  then show ?thesis using fail_attempt_settles[OF failed] graph_step.fail[of db now g i w m reason] by (auto simp: settled_def)
next
  case (attempt_cancelled now g i m sw)
  then obtain outcome where "fail_attempt now g i w m ''cancelled'' db = (db', Inr outcome)" "outcome \<noteq> Fenced"
    by (auto simp: cancel_running_attempt_def split: sum.splits option.splits prod.splits if_splits)
  from fail_attempt_settles[OF this] attempt_cancelled(2) show ?thesis
    using graph_step.cancel_attempt[of db now g i m] by (auto simp: settled_def)
next
  case (swept now window m rows sw)
  then show ?thesis using graph_step.sweep[of db now window m]
    by (auto simp: timeout_sweep_def split: option.splits dest!: fail_each_settles)
next
  case (grace_ended now g m reason rows sw)
  then show ?thesis using graph_step.fail_running[of db now g m reason]
    by (auto simp: fail_running_attempts_def split: option.splits dest!: fail_each_settles)
next
  case (node_cancelled now g "is" cancelled i)
  then have "cancel_nodes_tx now g is [] db = (db', Inr cancelled)"
    by (auto simp: cancel_nodes_def begin_tx_def split: option.splits prod.splits sum.splits)
  from cancel_nodes_tx_settles[OF this assms(2) node_cancelled(2)] node_cancelled(1,3) show ?thesis
    using graph_step.cancel[of db now g "is"] by simp
qed

text \<open>
  C8. Once an attempt was taken from its worker (a failure that was not itself fenced off, a sweep, the end of a pause's
  grace, a cancellation of the attempt, or the cancellation of the node whose first running attempt it was), no later
  commit of it wins, under any node and whatever happened in between, and such a commit leaves every table but the event
  log as it is.
\<close>

theorem fenced_attempt_never_commits:
  assumes "graph_step\<^sup>*\<^sup>* empty_db db" "fences db w db1" "graph_step\<^sup>*\<^sup>* db1 db2"
    and "commit_once tn tv later g i w ref usage steps db2 = (db3, r)"
  shows "r \<noteq> Inr True \<and> gd_nodes db3 = gd_nodes db2 \<and> gd_attempts db3 = gd_attempts db2 \<and> gd_completions db3 = gd_completions db2 \<and>
    gd_graphs db3 = gd_graphs db2 \<and> gd_grants db3 = gd_grants db2"
proof -
  have "plane_ok db" by (rule reached_plane_ok[OF assms(1)])
  then have s: "settled w db1" "graph_step db db1" using fences_settled[OF assms(2)] by (auto simp: plane_ok_def)
  then have "plane_ok db1" using graph_step_plane_ok[OF _ \<open>plane_ok db\<close>] by blast
  then have "advances db1 db2" using graph_run_plane_ok[OF assms(3)] by blast
  then have "settled w db2" using s(1) by (auto simp: settled_def dest: advances_settled)
  then have "\<not> may_win tn later g i w usage db2" by (auto simp: may_win_def settled_def)
  from commit_once_lost[OF this assms(4)] show ?thesis by (auto simp: append_late_result_def)
qed

lemma fold_max_ge: "b \<le> fold max xs b \<and> (\<forall>x \<in> set xs. x \<le> fold max xs (b :: 'a :: linorder))"
proof (induction xs arbitrary: b)
  case (Cons y ys)
  have "max y b \<le> fold max ys (max y b)" using Cons[of "max y b"] by blast
  then show ?case using Cons[of "max y b"] by simp
qed simp

lemma next_retry_no_gt: "a \<in> set as \<Longrightarrow> ta_retry_no a < next_retry_no as"
  using fold_max_ge[of "-1" "map ta_retry_no as"] by (auto simp: next_retry_no_def)

lemma next_worker_epoch_gt: "a \<in> set as \<Longrightarrow> ta_worker_epoch a = Some e \<Longrightarrow> e < next_worker_epoch as"
  using fold_max_ge[of 0 "List.map_filter ta_worker_epoch as"]
  by (force simp: next_worker_epoch_def List.map_filter_def less_Suc_eq_le)

lemma schedule_attempt_Some:
  assumes "schedule_attempt now g i w db = (db', Inr (Some a))"
  shows "gd_fault db = None \<and> (\<exists>node. map_of (gd_nodes db) (g, i) = Some node \<and> gn_state node = ''READY'' \<and>
    map_of (gd_attempts db) (next_attempt_id g i db) = None \<and> a = next_attempt_id g i db \<and> db' = dispatched now g i w node db)"
proof (cases "gd_fault db")
  case None
  show ?thesis
  proof (cases "map_of (gd_nodes db) (g, i)")
    case (Some node)
    show ?thesis using assms[unfolded schedule_attempt_eq[OF None]] None
      by (simp add: Some attempt_clash_def split: if_splits)
  qed (use assms[unfolded schedule_attempt_eq[OF None]] in simp)
qed (use assms in \<open>simp add: schedule_attempt_def begin_tx_def\<close>)

text \<open>
  A dispatch starts an attempt exactly on a ready node. The new attempt has an id not used before, a retry number
  and a fencing epoch above those of every earlier attempt of the node, and the node runs; a dispatch that starts
  nothing changes nothing.
\<close>

lemma schedule_attempt_fences:
  assumes "schedule_attempt now g i worker db = (db', r)"
  shows "case r of
      Inr (Some w) \<Rightarrow> map_option gn_state (map_of (gd_nodes db) (g, i)) = Some ''READY'' \<and> map_of (gd_attempts db) w = None \<and>
        map_option gn_state (map_of (gd_nodes db') (g, i)) = Some ''RUNNING'' \<and>
        (\<exists>a e. gd_attempts db' = gd_attempts db @ [(w, a)] \<and> ta_status a = ''RUNNING'' \<and> ta_worker_epoch a = Some e \<and>
          (\<forall>(_, b) \<in> set (gd_attempts db). ta_graph_id b = g \<longrightarrow> ta_node_id b = i \<longrightarrow>
             ta_retry_no b < ta_retry_no a \<and> (\<forall>e'. ta_worker_epoch b = Some e' \<longrightarrow> e' < e)))
    | Inr None \<Rightarrow> db' = db \<and> map_option gn_state (map_of (gd_nodes db) (g, i)) \<noteq> Some ''READY''
    | Inl _ \<Rightarrow> db' = db"
proof (cases "gd_fault db")
  case None
  have old: "b \<in> set (attempts_of g i db)" if "(k, b) \<in> set (gd_attempts db)" "ta_graph_id b = g" "ta_node_id b = i" for k b
    using that by (force simp: attempts_of_def)
  have above: "ta_retry_no b < next_retry_no (attempts_of g i db) \<and> (\<forall>e. ta_worker_epoch b = Some e \<longrightarrow> e < next_worker_epoch (attempts_of g i db))"
    if "(k, b) \<in> set (gd_attempts db)" "ta_graph_id b = g" "ta_node_id b = i" for k b
    using old[OF that] by (simp add: next_retry_no_gt next_worker_epoch_gt)
  show ?thesis
  proof (cases "\<exists>w. r = Inr (Some w)")
    case True
    then obtain w where w: "r = Inr (Some w)" by blast
    from schedule_attempt_Some[OF assms[unfolded w]] obtain node where node: "map_of (gd_nodes db) (g, i) = Some node" "gn_state node = ''READY''"
      "map_of (gd_attempts db) (next_attempt_id g i db) = None" and "w = next_attempt_id g i db" and db': "db' = dispatched now g i worker node db"
      by blast
    then have r: "r = Inr (Some (next_attempt_id g i db))" using w by simp
    let ?a = "started_attempt now g i worker db"
    have "\<forall>(_, b) \<in> set (gd_attempts db). ta_graph_id b = g \<longrightarrow> ta_node_id b = i \<longrightarrow>
        ta_retry_no b < ta_retry_no ?a \<and> (\<forall>e'. ta_worker_epoch b = Some e' \<longrightarrow> e' < next_worker_epoch (attempts_of g i db))"
      unfolding started_attempt_def using above by simp blast
    moreover have "gd_attempts db' = gd_attempts db @ [(next_attempt_id g i db, ?a)]" "ta_status ?a = ''RUNNING''"
      "ta_worker_epoch ?a = Some (next_worker_epoch (attempts_of g i db))" "map_option gn_state (map_of (gd_nodes db') (g, i)) = Some ''RUNNING''"
      by (simp_all add: db') (simp_all add: started_attempt_def)
    ultimately show ?thesis unfolding r sum.case option.case using node by (intro conjI exI[of _ ?a]) auto
  qed (use assms[unfolded schedule_attempt_eq[OF None]] in \<open>auto split: option.splits if_splits\<close>)
qed (use assms in \<open>auto simp: schedule_attempt_def begin_tx_def\<close>)

section \<open>The retry budget\<close>

lemma fail_node_hit:
  assumes "map_of (gd_nodes db) (g, i) = Some node" "gn_state node = ''RUNNING''"
  shows "\<exists>db'. fail_node now g i w reason node gv oc db = (db', Inr oc) \<and> gd_attempts db' = gd_attempts db \<and>
    map_option gn_state (map_of (gd_nodes db') (g, i)) = Some (if oc = RearmedToReady then ''READY'' else ''FAILED'')"
  using assms by (auto simp: fail_node_def Let_def cas_move)

lemma fail_node_result:
  assumes "map_of (gd_nodes db) (g, i) = Some node"
  shows "\<exists>db'. fail_node now g i w reason node gv oc db = (db', Inr oc) \<and> gd_attempts db' = gd_attempts db"
  using assms by (cases "transition_ok (gn_state node) (if oc = RearmedToReady then ''READY'' else ''FAILED'')")
    (simp_all add: fail_node_def Let_def cas_move)

text \<open>
  Failing an attempt is refused as late exactly when the attempt does not run or the node is unknown or has
  succeeded, and then only the log grows. Otherwise the attempt is failed, and a running node becomes ready again while
  the retry number is below the budget and fails when the budget is spent.
\<close>

lemma fail_attempt_budget:
  assumes "gd_fault db = None" "fail_attempt now g i w m reason db = (db', r)"
  shows "case (map_of (gd_nodes db) (g, i), map_of (gd_attempts db) w) of
      (Some node, Some a) \<Rightarrow>
        if ta_status a = ''RUNNING'' \<and> gn_state node \<noteq> ''SUCCEEDED''
        then r = Inr (if ta_retry_no a < i32_saturating_pred m then RearmedToReady else NodeFailed) \<and>
          map_option ta_status (map_of (gd_attempts db') w) = Some ''FAILED'' \<and>
          (gn_state node = ''RUNNING'' \<longrightarrow> map_option gn_state (map_of (gd_nodes db') (g, i)) =
             Some (if ta_retry_no a < i32_saturating_pred m then ''READY'' else ''FAILED''))
        else r = Inr Fenced \<and> gd_nodes db' = gd_nodes db \<and> gd_attempts db' = gd_attempts db
    | _ \<Rightarrow> r = Inr Fenced \<and> gd_nodes db' = gd_nodes db \<and> gd_attempts db' = gd_attempts db"
proof (cases "\<exists>node a. map_of (gd_nodes db) (g, i) = Some node \<and> map_of (gd_attempts db) w = Some a \<and> ta_status a = ''RUNNING'' \<and>
    gn_state node \<noteq> ''SUCCEEDED''")
  case True
  then obtain node a where live: "map_of (gd_nodes db) (g, i) = Some node" "map_of (gd_attempts db) w = Some a" "ta_status a = ''RUNNING''"
    "gn_state node \<noteq> ''SUCCEEDED''" by blast
  define oc where "oc = (if ta_retry_no a < i32_saturating_pred m then RearmedToReady else NodeFailed)"
  define db1 where "db1 = update_attempt w (\<lambda>a. a\<lparr>ta_status := ''FAILED'', ta_finished_at := Some now\<rparr>) db"
  define db2 where "db2 = append_event_tx now g (Some i) (Some w) (Some (snd (bump_graph_version_tx now g db1))) ''attempt_failed''
      (JObject [(''reason'', JString reason), (''retry_no'', JNumber (ta_retry_no a))]) (fst (bump_graph_version_tx now g db1))"
  have node2: "map_of (gd_nodes db2) (g, i) = Some node" using live(1) by (simp add: db2_def db1_def)
  have at2: "map_option ta_status (map_of (gd_attempts db2) w) = Some ''FAILED''" using live(2) by (simp add: db2_def db1_def update_attempt_hit)
  have run: "fail_attempt_tx now g i w m reason db = fail_node now g i w reason node (snd (bump_graph_version_tx now g db1)) oc db2"
    using live by (simp add: fail_attempt_tx_def Let_def split_beta db1_def[symmetric] db2_def oc_def)
  obtain db3 where db3: "fail_attempt_tx now g i w m reason db = (db3, Inr oc)" "gd_attempts db3 = gd_attempts db2"
    using fail_node_result[OF node2] unfolding run by blast
  have "gn_state node = ''RUNNING'' \<longrightarrow> map_option gn_state (map_of (gd_nodes db3) (g, i)) = Some (if oc = RearmedToReady then ''READY'' else ''FAILED'')"
    using fail_node_hit[OF node2, of now w reason _ oc] db3(1) unfolding run by (metis prod.inject)
  moreover have "db' = db3" "r = Inr oc" using assms db3(1) by (simp_all add: fail_attempt_def begin_tx_def)
  ultimately show ?thesis using live at2 db3(2) by (simp add: oc_def split: if_splits)
next
  case False
  then have "fail_attempt_tx now g i w m reason db = (append_late_result now g i w (''late_fail: '' @ reason) db, Inr Fenced)"
    by (auto simp: fail_attempt_tx_def Let_def split: option.splits)
  then have "db' = append_late_result now g i w (''late_fail: '' @ reason) db" "r = Inr Fenced"
    using assms by (simp_all add: fail_attempt_def begin_tx_def)
  then show ?thesis using False by (auto simp: append_late_result_def split: option.splits)
qed

end
