(* ===== verification/Graph_Cancel.thy ===== *)
theory Graph_Cancel
  imports Graph_Runs
begin

text \<open>
  The closure of a cancellation and the single use of a merge grant.
\<close>

section \<open>The closure of a cancellation\<close>

lemma closure_push_spec:
  "\<exists>new. closure_push i ds seen queue = (seen \<union> set new, queue @ new) \<and> distinct new \<and>
     set new = {n. n \<notin> seen \<and> (\<exists>nd. (n, nd) \<in> set ds \<and> i \<in> set nd)}"
proof (induction i ds seen queue rule: closure_push.induct)
  case (2 i n nd rest seen queue)
  show ?case
  proof (cases "n \<notin> seen \<and> i \<in> set nd")
    case True
    with 2 obtain new where "closure_push i rest (insert n seen) (queue @ [n]) = (insert n seen \<union> set new, (queue @ [n]) @ new)"
      "distinct new" "set new = {m. m \<notin> insert n seen \<and> (\<exists>nd. (m, nd) \<in> set rest \<and> i \<in> set nd)}" by blast
    then show ?thesis using True by (intro exI[of _ "n # new"]) auto
  qed (use 2 in auto)
qed simp

lemma closure_seed_spec:
  "\<exists>new. closure_seed deps roots seen queue = (seen \<union> set new, queue @ new) \<and> distinct new \<and>
     set new = {r \<in> set roots. r \<notin> seen \<and> map_of deps r \<noteq> None}"
proof (induction deps roots seen queue rule: closure_seed.induct)
  case (2 deps r roots seen queue)
  show ?case
  proof (cases "map_of deps r \<noteq> None \<and> r \<notin> seen")
    case True
    with 2 obtain new where "closure_seed deps roots (insert r seen) (queue @ [r]) = (insert r seen \<union> set new, (queue @ [r]) @ new)"
      "distinct new" "set new = {s \<in> set roots. s \<notin> insert r seen \<and> map_of deps s \<noteq> None}" by blast
    then show ?thesis using True by (intro exI[of _ "r # new"]) auto
  qed (use 2 in auto)
qed simp

definition dependant :: "(string \<times> string list) list \<Rightarrow> string \<Rightarrow> string \<Rightarrow> bool" where
  "dependant deps x y \<longleftrightarrow> (\<exists>nd. (y, nd) \<in> set deps \<and> x \<in> set nd)"

lemma closure_loop_spec:
  assumes "seen = set closure \<union> set queue" "distinct (closure @ queue)"
    and "\<forall>x \<in> set closure. \<forall>y. dependant deps x y \<longrightarrow> y \<in> seen"
  shows "distinct (closure_loop deps seen queue closure) \<and>
    set (closure_loop deps seen queue closure) = {y. \<exists>x \<in> set closure \<union> set queue. (dependant deps)\<^sup>*\<^sup>* x y}"
  using assms
proof (induction deps seen queue closure rule: closure_loop.induct)
  case (1 deps seen closure)
  have "y \<in> set closure" if "(dependant deps)\<^sup>*\<^sup>* x y" "x \<in> set closure" for x y
    using that 1 by (induction rule: rtranclp_induct) auto
  then show ?case using 1 by auto
next
  case (2 deps seen i queue closure)
  obtain new where new: "closure_push i deps seen queue = (seen \<union> set new, queue @ new)" "distinct new"
      "set new = {n. n \<notin> seen \<and> dependant deps i n}"
    using closure_push_spec[of i deps seen queue] by (auto simp: dependant_def)
  have ih: "distinct (closure_loop deps (seen \<union> set new) (queue @ new) (closure @ [i])) \<and>
      set (closure_loop deps (seen \<union> set new) (queue @ new) (closure @ [i])) =
        {y. \<exists>x \<in> set (closure @ [i]) \<union> set (queue @ new). (dependant deps)\<^sup>*\<^sup>* x y}"
  proof (rule 2(1)[OF new(1)[symmetric]])
    show "seen \<union> set new = set (closure @ [i]) \<union> set (queue @ new)" using 2(2) by auto
    show "distinct ((closure @ [i]) @ queue @ new)" using 2(2,3) new(2,3) by auto
    show "\<forall>x \<in> set (closure @ [i]). \<forall>y. dependant deps x y \<longrightarrow> y \<in> seen \<union> set new" using 2(4) new(3) by auto
  qed
  have "(\<exists>x \<in> set (closure @ [i]) \<union> set (queue @ new). (dependant deps)\<^sup>*\<^sup>* x y) \<longleftrightarrow>
      (\<exists>x \<in> set closure \<union> set (i # queue). (dependant deps)\<^sup>*\<^sup>* x y)" for y
    using new(3) by (auto intro: converse_rtranclp_into_rtranclp)
  with ih new(1) show ?case by simp
qed

lemma dependant_iff:
  assumes "distinct (map fst (gd_nodes db))"
  shows "dependant (deps_of_graph g db) x y \<longleftrightarrow> (\<exists>n. map_of (gd_nodes db) (g, y) = Some n \<and> x \<in> set (gn_dependencies n))"
proof -
  have "dependant (deps_of_graph g db) x y \<longleftrightarrow> (\<exists>n. ((g, y), n) \<in> set (gd_nodes db) \<and> x \<in> set (gn_dependencies n))"
    by (auto simp: dependant_def deps_of_graph_def image_iff)
  then show ?thesis by (simp add: map_of_eq_Some_iff[OF assms])
qed

lemma deps_of_graph_node:
  assumes "distinct (map fst (gd_nodes db))"
  shows "map_of (deps_of_graph g db) r \<noteq> None \<longleftrightarrow> map_of (gd_nodes db) (g, r) \<noteq> None"
  by (force simp: map_of_eq_None_iff deps_of_graph_def)

text \<open>
  C9. The closure of a cancellation exists, lists no node twice and holds exactly the given nodes of the graph and the
  nodes that depend on one of them through any chain of dependencies, in every reachable state and also when the
  dependencies form a cycle.
\<close>

theorem downstream_closure_exact:
  assumes "graph_step\<^sup>*\<^sup>* empty_db db" "gd_fault db = None"
  shows "\<exists>closure. downstream_closure g roots db = Inr closure \<and> distinct closure \<and>
    set closure = {y. \<exists>x \<in> set roots. map_of (gd_nodes db) (g, x) \<noteq> None \<and>
      (\<lambda>x y. \<exists>n. map_of (gd_nodes db) (g, y) = Some n \<and> x \<in> set (gn_dependencies n))\<^sup>*\<^sup>* x y}"
proof -
  have keys: "distinct (map fst (gd_nodes db))" using reached_plane_ok[OF assms(1)] by (simp add: plane_ok_def)
  let ?deps = "deps_of_graph g db"
  obtain new where new: "closure_seed ?deps roots {} [] = (set new, new)" "distinct new"
      "set new = {r \<in> set roots. map_of (gd_nodes db) (g, r) \<noteq> None}"
    using closure_seed_spec[of ?deps roots "{}" "[]"] deps_of_graph_node[OF keys, of g] by auto
  have rel: "dependant ?deps = (\<lambda>x y. \<exists>n. map_of (gd_nodes db) (g, y) = Some n \<and> x \<in> set (gn_dependencies n))"
    by (auto simp: fun_eq_iff dependant_iff[OF keys])
  from closure_loop_spec[of "set new" "[]" new ?deps] new(2) show ?thesis
    unfolding downstream_closure_def Let_def using assms(2) new(1,3) by (auto simp: rel)
qed

section \<open>The merge barrier\<close>






end
