(* ===== verification/Graph_Examples.thy ===== *)
theory Graph_Examples
  imports Graph_Fence Graph_Cancel Scheduler_Dependency
begin

text \<open>
  A concrete graph of two nodes on which the theorems of the graph plane are applied, and the runs that show the
  defects of the mirror and of the schema.
\<close>

section \<open>A concrete graph\<close>

definition two_steps :: "SubtaskStatus \<Rightarrow> SubtaskStatus \<Rightarrow> string \<Rightarrow> Task" where
  "two_steps sa sb g = \<lparr>t_id = g, t_description = ''d'', t_project_id = ''p'', t_status = TaskStatus.InProgress,
     t_subtasks = [(plain_subtask ''st-1'' [])\<lparr>st_status := sa\<rparr>, (plain_subtask ''st-2'' [''st-1''])\<lparr>st_status := sb\<rparr>],
     t_created_at = 0, t_updated_at = 0\<rparr>"

definition planned_db :: GraphDb where
  "planned_db = fst (write_projection (project_task (two_steps Pending Pending ''g'')) True False empty_db)"

definition running_db :: GraphDb where
  "running_db = fst (schedule_attempt 5 ''g'' ''st-1'' None planned_db)"

definition committed_db :: GraphDb where
  "committed_db = fst (commit_once (\<lambda>_. Inr 0) (\<lambda>_. None) 9 ''g'' ''st-1'' ''g:st-1:0'' (Some ''out'') None None running_db)"

lemma example_reached: "graph_step\<^sup>*\<^sup>* empty_db planned_db" "graph_step\<^sup>*\<^sup>* planned_db running_db" "graph_step\<^sup>*\<^sup>* running_db committed_db"
  unfolding planned_db_def running_db_def committed_db_def
  by (rule r_into_rtranclp, rule graph_step.intros)+

lemma running_reached: "graph_step\<^sup>*\<^sup>* empty_db running_db"
  using example_reached(1,2) by (rule rtranclp_trans)

section \<open>The theorems on the concrete graph\<close>

theorem graph_history_permanent_witness:
  "\<exists>n'. map_of (gd_nodes committed_db) (''g'', ''st-1'') = Some n' \<and> gd_events committed_db \<noteq> [] \<and>
    (\<exists>es. gd_events committed_db = gd_events running_db @ es)"
proof -
  have "map_of (gd_nodes running_db) (''g'', ''st-1'') \<noteq> None" "gd_events committed_db \<noteq> []" by code_simp+
  with graph_history_permanent[OF running_reached example_reached(3)] show ?thesis by blast
qed

theorem commit_once_outcome_witness:
  "map_option gn_state (map_of (gd_nodes committed_db) (''g'', ''st-2'')) = Some ''READY''"
proof -
  let ?run = "commit_once (\<lambda>_. Inr 0) (\<lambda>_. None) 9 ''g'' ''st-1'' ''g:st-1:0'' (Some ''out'') None None running_db"
  have run: "?run = (committed_db, Inr True)" unfolding committed_db_def by (rule prod_eqI) (simp, code_simp)
  have "gd_fault running_db = None" by code_simp
  note outcome = commit_once_outcome[OF running_reached this run]
  have waiting: "map_option (\<lambda>n. (gn_state n, gn_dependencies n)) (map_of (gd_nodes running_db) (''g'', ''st-2'')) = Some (''CREATED'', [''st-1''])"
    "dep_satisfied ''g'' committed_db ''st-1''" by code_simp+
  then obtain n where n: "map_of (gd_nodes running_db) (''g'', ''st-2'') = Some n" "gn_state n = ''CREATED''" "gn_dependencies n = [''st-1'']" by auto
  show ?thesis
  proof (cases "\<exists>node a u. map_of (gd_nodes running_db) (''g'', ''st-1'') = Some node \<and> gn_state node \<noteq> ''SUCCEEDED'' \<and>
       map_of (gd_attempts running_db) ''g:st-1:0'' = Some a \<and> ta_status a = ''RUNNING'' \<and> map_of (gd_completions running_db) ''st-1'' = None \<and>
       commit_usage (\<lambda>_. Inr 0) (reported_usage None) (ta_started_at a) 9 = Inr u")
    case True
    from outcome[unfolded if_P[OF True]] have "map_option gn_state (map_of (gd_nodes committed_db) (''g'', ''st-2'')) =
        Some (if \<forall>d \<in> set (gn_dependencies n). dep_satisfied ''g'' committed_db d then ''READY'' else ''CREATED'')" using n by blast
    then show ?thesis using n(3) waiting(2) by simp
  next
    case False
    from outcome[unfolded if_not_P[OF False]] show ?thesis by simp
  qed
qed

definition swept_db :: GraphDb where
  "swept_db = fst (fail_attempt 8 ''g'' ''st-1'' ''g:st-1:0'' 3 ''heartbeat_timeout'' running_db)"

lemma swept_outcome: "fail_attempt 8 ''g'' ''st-1'' ''g:st-1:0'' 3 ''heartbeat_timeout'' running_db = (swept_db, Inr RearmedToReady)"
  unfolding swept_db_def by (rule prod_eqI) (simp, code_simp)

definition redispatched_db :: GraphDb where
  "redispatched_db = fst (schedule_attempt 9 ''g'' ''st-1'' None swept_db)"

definition stopped_node_db :: GraphDb where
  "stopped_node_db = fst (cancel_nodes 8 ''g'' [''st-1''] running_db)"

theorem fenced_attempt_never_commits_witness:
  "snd (commit_once (\<lambda>_. Inr 0) (\<lambda>_. None) 12 ''g'' ''st-1'' ''g:st-1:0'' (Some ''late'') None None redispatched_db) \<noteq> Inr True \<and>
   snd (commit_once (\<lambda>_. Inr 0) (\<lambda>_. None) 12 ''g'' ''st-1'' ''g:st-1:0'' (Some ''late'') None None stopped_node_db) \<noteq> Inr True"
proof -
  have swept: "fences running_db ''g:st-1:0'' swept_db" using swept_outcome by (rule fences.failed) simp
  have "cancel_nodes 8 ''g'' [''st-1''] running_db = (stopped_node_db, Inr [''st-1''])"
    unfolding stopped_node_db_def by (rule prod_eqI) (simp, code_simp)
  moreover have "first_running ''g'' ''st-1'' running_db = Some ''g:st-1:0''" by code_simp
  ultimately have stopped: "fences running_db ''g:st-1:0'' stopped_node_db" by (intro fences.node_cancelled[of _ _ _ _ _ "[''st-1'']" "''st-1''"]) auto
  have "graph_step\<^sup>*\<^sup>* swept_db redispatched_db" unfolding redispatched_db_def by (rule r_into_rtranclp) (rule graph_step.schedule)
  from fenced_attempt_never_commits[OF running_reached swept this prod.collapse[symmetric]]
    fenced_attempt_never_commits[OF running_reached stopped rtranclp.rtrancl_refl prod.collapse[symmetric]] show ?thesis by blast
qed

theorem downstream_closure_exact_witness: "\<exists>closure. downstream_closure ''g'' [''st-1''] running_db = Inr closure \<and> ''st-2'' \<in> set closure"
proof -
  have "gd_fault running_db = None" by code_simp
  from downstream_closure_exact[OF running_reached this, of "''g''" "[''st-1'']"] obtain c where c: "downstream_closure ''g'' [''st-1''] running_db = Inr c"
    "set c = {y. \<exists>x \<in> set [''st-1'']. map_of (gd_nodes running_db) (''g'', x) \<noteq> None \<and>
      (\<lambda>x y. \<exists>n. map_of (gd_nodes running_db) (''g'', y) = Some n \<and> x \<in> set (gn_dependencies n))\<^sup>*\<^sup>* x y}" by blast
  have "map_option gn_dependencies (map_of (gd_nodes running_db) (''g'', ''st-2'')) = Some [''st-1'']" "map_of (gd_nodes running_db) (''g'', ''st-1'') \<noteq> None"
    by code_simp+
  then have "''st-2'' \<in> set c" unfolding c(2) by (intro CollectI bexI[of _ "''st-1''"] conjI r_into_rtranclp) auto
  with c(1) show ?thesis by blast
qed






definition ts_two_steps :: TsPersistedTask where
  "ts_two_steps = \<lparr>tst_id = ''g'', tst_status = ''inProgress'', tst_project_id = Some ''p'', tst_saved_at = None, tst_created_at = None,
     tst_subtasks = [\<lparr>tss_id = ''st-1'', tss_status = ''completed'', tss_depends_on = [], tss_started_at = None, tss_completed_at = None,
         tss_retry_count = None, tss_required_capabilities = None, tss_effect_class = None\<rparr>,
       \<lparr>tss_id = ''st-2'', tss_status = ''pending'', tss_depends_on = [''st-1''], tss_started_at = None, tss_completed_at = None,
         tss_retry_count = None, tss_required_capabilities = None, tss_effect_class = None\<rparr>]\<rparr>"

theorem projections_agree_witness:
  "map nr_state (gp_nodes (project_ts_task (\<lambda>_. None) ts_two_steps)) = [''SUCCEEDED'', ''READY'']"
proof -
  have "list_all2 ts_mirrors (tst_subtasks ts_two_steps) (t_subtasks (two_steps SubtaskStatus.Completed Pending ''g''))"
    "tst_id ts_two_steps = t_id (two_steps SubtaskStatus.Completed Pending ''g'')" by code_simp+
  from projections_agree[OF this, of "\<lambda>_. None"] have "gp_nodes (project_ts_task (\<lambda>_. None) ts_two_steps) =
      gp_nodes (project_task (two_steps SubtaskStatus.Completed Pending ''g''))" by blast
  moreover have "map nr_state (gp_nodes (project_task (two_steps SubtaskStatus.Completed Pending ''g''))) = [''SUCCEEDED'', ''READY'']" by code_simp
  ultimately show ?thesis by simp
qed

section \<open>Defects of the mirror and the schema\<close>

definition other_graph_db :: GraphDb where
  "other_graph_db = fst (write_projection (project_task (two_steps Pending Pending ''h'')) True False running_db)"

text \<open>
  \<open>UNIQUE (node_id, retry_no)\<close> does not name the graph, and the planner numbers subtasks per task: the first node of a
  second task cannot be dispatched once the first node of another one was.
\<close>

lemma node_ids_collide_across_graphs:
  "map_option gn_state (map_of (gd_nodes other_graph_db) (''h'', ''st-1'')) = Some ''READY'' \<and>
   snd (schedule_attempt 6 ''h'' ''st-1'' None other_graph_db) =
     Inl (StorageError ''schedule: attempt insert: duplicate key value violates unique constraint'')"
  by code_simp

definition mirrored_db :: GraphDb where
  "mirrored_db = fst (write_projection (project_task (two_steps SubtaskStatus.Completed Pending ''g'')) True False running_db)"

text \<open>A mirror of the completed task that lands before the commit takes the completion row, so the commit loses and the node keeps running.\<close>

lemma mirror_completion_blocks_commit:
  "snd (commit_once (\<lambda>_. Inr 0) (\<lambda>_. None) 9 ''g'' ''st-1'' ''g:st-1:0'' (Some ''out'') None None mirrored_db) = Inr False \<and>
   map_option gn_state (map_of (gd_nodes (fst (commit_once (\<lambda>_. Inr 0) (\<lambda>_. None) 9 ''g'' ''st-1'' ''g:st-1:0'' (Some ''out'') None None mirrored_db)))
     (''g'', ''st-1'')) = Some ''RUNNING''"
  by code_simp

definition phantom_db :: GraphDb where
  "phantom_db = fst (schedule_attempt 100000 ''g'' ''st-1'' None
     (fst (write_projection (project_task (two_steps Assigned Pending ''g'')) True False planned_db)))"

text \<open>
  A mirror of the assigned task that lands before the dispatch inserts a running attempt although the node write is
  refused; the sweep of that attempt re-arms the node under the attempt that is alive.
\<close>

lemma mirror_attempt_rearms_live_node:
  "map (\<lambda>(i, a). (i, ta_status a)) (gd_attempts phantom_db) = [(''g:st-1:0'', ''RUNNING''), (''g:st-1:1'', ''RUNNING'')] \<and>
   map_option gn_state (map_of (gd_nodes (fst (timeout_sweep 110000 20000 3 phantom_db))) (''g'', ''st-1'')) = Some ''READY'' \<and>
   map_option ta_status (map_of (gd_attempts (fst (timeout_sweep 110000 20000 3 phantom_db))) ''g:st-1:1'') = Some ''RUNNING''"
  by code_simp

text \<open>The sink commits whichever attempt runs: the late result of a swept attempt commits its successor.\<close>

lemma late_result_commits_successor:
  "map_option nc_winning_attempt_id (map_of (gd_completions (on_commit (\<lambda>_. Inr 0) (\<lambda>_. None) 12
     (ExecutionEnvelope_new id ''g'' ''st-1'' ''0'') (Some ''late'') None None redispatched_db)) ''st-1'') = Some ''g:st-1:1''"
  by code_simp

end
