(* ===== verification/Sched_Types.thy ===== *)
theory Sched_Types
  imports Task_Backend
begin

text \<open>
  The types of the nightly scheduler (\<open>crates/uc-types/src/scheduler.rs\<close>) and the declarative jobs of its configuration
  file (\<open>crates/uc-engine/src/scheduler/config.rs\<close>). A \<open>NaiveTime\<close> is its number of nanoseconds since midnight, a uuid
  its hyphenated text, whose order is the order of the bytes of the uuid. The uuids the code draws and the readings of
  the clock are arguments.
\<close>

section \<open>Scheduled tasks\<close>

type_synonym Uuid = string
type_synonym NaiveTime = int

record ScheduledTask =
  sk_id :: Uuid
  sk_description :: string
  sk_project_id :: string
  sk_cron_expression :: "string option"
  sk_execute_after :: "datetime option"
  sk_night_window_start :: NaiveTime
  sk_night_window_end :: NaiveTime
  sk_timezone :: string
  sk_enabled :: bool
  sk_last_execution :: "datetime option"
  sk_next_execution :: "datetime option"
  sk_created_at :: datetime
  sk_updated_at :: datetime
  sk_verify_command :: "string option"
  sk_dispatch_attempts :: u32

definition ScheduledTask_new :: "Uuid \<Rightarrow> datetime \<Rightarrow> string \<Rightarrow> string \<Rightarrow> NaiveTime \<Rightarrow> NaiveTime \<Rightarrow> string \<Rightarrow> ScheduledTask" where
  "ScheduledTask_new new_id now description project_id night_window_start night_window_end timezone =
     \<lparr>sk_id = new_id, sk_description = description, sk_project_id = project_id, sk_cron_expression = None,
      sk_execute_after = None, sk_night_window_start = night_window_start, sk_night_window_end = night_window_end,
      sk_timezone = timezone, sk_enabled = True, sk_last_execution = None, sk_next_execution = None,
      sk_created_at = now, sk_updated_at = now, sk_verify_command = None, sk_dispatch_attempts = 0\<rparr>"

definition ScheduledTask_cron ::
  "Uuid \<Rightarrow> datetime \<Rightarrow> string \<Rightarrow> string \<Rightarrow> string \<Rightarrow> NaiveTime \<Rightarrow> NaiveTime \<Rightarrow> string \<Rightarrow> ScheduledTask" where
  "ScheduledTask_cron new_id now description project_id cron_expression night_window_start night_window_end timezone =
     (ScheduledTask_new new_id now description project_id night_window_start night_window_end timezone)
       \<lparr>sk_cron_expression := Some cron_expression\<rparr>"

definition ScheduledTask_one_shot ::
  "Uuid \<Rightarrow> datetime \<Rightarrow> string \<Rightarrow> string \<Rightarrow> datetime \<Rightarrow> NaiveTime \<Rightarrow> NaiveTime \<Rightarrow> string \<Rightarrow> ScheduledTask" where
  "ScheduledTask_one_shot new_id now description project_id execute_after night_window_start night_window_end timezone =
     (ScheduledTask_new new_id now description project_id night_window_start night_window_end timezone)
       \<lparr>sk_execute_after := Some execute_after\<rparr>"

definition is_cron :: "ScheduledTask \<Rightarrow> bool" where
  "is_cron task \<longleftrightarrow> sk_cron_expression task \<noteq> None"

definition is_one_shot :: "ScheduledTask \<Rightarrow> bool" where
  "is_one_shot task \<longleftrightarrow> sk_execute_after task \<noteq> None \<and> sk_cron_expression task = None"

section \<open>Executions\<close>

datatype ExecutionStatus = Completed | Failed | Skipped | Deferred

record ExecutionHistory =
  xh_id :: Uuid
  xh_scheduled_task_id :: Uuid
  xh_started_at :: datetime
  xh_completed_at :: "datetime option"
  xh_status :: ExecutionStatus
  xh_result_summary :: "string option"
  xh_deferred_reason :: "string option"

definition ExecutionHistory_started :: "Uuid \<Rightarrow> datetime \<Rightarrow> Uuid \<Rightarrow> ExecutionHistory" where
  "ExecutionHistory_started new_id now scheduled_task_id =
     \<lparr>xh_id = new_id, xh_scheduled_task_id = scheduled_task_id, xh_started_at = now, xh_completed_at = None,
      xh_status = Completed, xh_result_summary = None, xh_deferred_reason = None\<rparr>"

definition ExecutionHistory_deferred :: "Uuid \<Rightarrow> datetime \<Rightarrow> Uuid \<Rightarrow> string \<Rightarrow> ExecutionHistory" where
  "ExecutionHistory_deferred new_id now scheduled_task_id reason =
     \<lparr>xh_id = new_id, xh_scheduled_task_id = scheduled_task_id, xh_started_at = now, xh_completed_at = Some now,
      xh_status = Deferred, xh_result_summary = None, xh_deferred_reason = Some reason\<rparr>"

definition ExecutionHistory_skipped :: "Uuid \<Rightarrow> datetime \<Rightarrow> Uuid \<Rightarrow> string \<Rightarrow> ExecutionHistory" where
  "ExecutionHistory_skipped new_id now scheduled_task_id reason =
     \<lparr>xh_id = new_id, xh_scheduled_task_id = scheduled_task_id, xh_started_at = now, xh_completed_at = Some now,
      xh_status = Skipped, xh_result_summary = Some reason, xh_deferred_reason = None\<rparr>"

section \<open>The configured window\<close>

record NightWindowConfig =
  nc_start :: NaiveTime
  nc_end :: NaiveTime
  nc_timezone :: string

definition NightWindowConfig_new :: "NaiveTime \<Rightarrow> NaiveTime \<Rightarrow> string \<Rightarrow> NightWindowConfig" where
  "NightWindowConfig_new start end timezone = \<lparr>nc_start = start, nc_end = end, nc_timezone = timezone\<rparr>"

definition from_hms :: "int \<Rightarrow> int \<Rightarrow> int \<Rightarrow> NaiveTime" where
  "from_hms h m s = ((h * 60 + m) * 60 + s) * 1000000000"

definition default_utc :: NightWindowConfig where
  "default_utc = \<lparr>nc_start = from_hms 22 0 0, nc_end = from_hms 6 0 0, nc_timezone = ''UTC''\<rparr>"

definition config_crosses_midnight :: "NightWindowConfig \<Rightarrow> bool" where
  "config_crosses_midnight config \<longleftrightarrow> nc_end config < nc_start config"

section \<open>The configuration file\<close>

text \<open>The file after the YAML parser of serde, which is third-party code.\<close>

record NightWindowFile =
  nf_start :: string
  nf_end :: string
  nf_timezone :: string

record JobFile =
  jf_description :: string
  jf_project_id :: string
  jf_cron :: "string option"
  jf_execute_after :: "string option"
  jf_night_window :: "NightWindowFile option"
  jf_enabled :: bool
  jf_verify_command :: "string option"

record SchedulerFileConfig =
  sf_night_window :: "NightWindowFile option"
  sf_jobs :: "JobFile list"

record ParsedJob =
  pj_description :: string
  pj_project_id :: string
  pj_cron_expression :: "string option"
  pj_execute_after :: "datetime option"
  pj_night_window :: "NightWindowConfig option"
  pj_enabled :: bool
  pj_verify_command :: "string option"

record ParsedSchedulerConfig =
  ps_default_night_window :: "NightWindowConfig option"
  ps_jobs :: "ParsedJob list"

datatype SchedulerConfigError =
    Io string | Parse string | JobMissingSchedule string | JobBothSchedules string
  | BadTimestamp string string | BadTime string

text \<open>The parsers of chrono for \<open>%H:%M\<close> and for RFC 3339 are arguments.\<close>

definition parse_night_window ::
  "(string \<Rightarrow> NaiveTime option) \<Rightarrow> NightWindowFile \<Rightarrow> (SchedulerConfigError, NightWindowConfig) result" where
  "parse_night_window parse_hhmm n = (case parse_hhmm (nf_start n) of
     None \<Rightarrow> Inl (BadTime (nf_start n))
   | Some start \<Rightarrow>
       (case parse_hhmm (nf_end n) of
          None \<Rightarrow> Inl (BadTime (nf_end n))
        | Some end \<Rightarrow> Inr (NightWindowConfig_new start end (nf_timezone n))))"

definition resolve_job ::
  "(string \<Rightarrow> NaiveTime option) \<Rightarrow> (string \<Rightarrow> (string, datetime) result) \<Rightarrow> NightWindowConfig option \<Rightarrow> JobFile \<Rightarrow>
     (SchedulerConfigError, ParsedJob) result" where
  "resolve_job parse_hhmm parse_from_rfc3339 default_nw j =
     (if jf_cron j = None \<and> jf_execute_after j = None then Inl (JobMissingSchedule (jf_description j))
      else if jf_cron j \<noteq> None \<and> jf_execute_after j \<noteq> None then Inl (JobBothSchedules (jf_description j))
      else case (case jf_execute_after j of
          Some s \<Rightarrow> (case parse_from_rfc3339 s of
              Inl e \<Rightarrow> Inl (BadTimestamp (jf_description j) e)
            | Inr t \<Rightarrow> Inr (Some t))
        | None \<Rightarrow> Inr None) of
        Inl e \<Rightarrow> Inl e
      | Inr execute_after \<Rightarrow>
          (case (case jf_night_window j of
               Some n \<Rightarrow> map_sum id Some (parse_night_window parse_hhmm n)
             | None \<Rightarrow> Inr default_nw) of
             Inl e \<Rightarrow> Inl e
           | Inr nw \<Rightarrow> Inr \<lparr>pj_description = jf_description j, pj_project_id = jf_project_id j, pj_cron_expression = jf_cron j,
               pj_execute_after = execute_after, pj_night_window = nw, pj_enabled = jf_enabled j,
               pj_verify_command = jf_verify_command j\<rparr>))"

fun resolve_jobs ::
  "(string \<Rightarrow> NaiveTime option) \<Rightarrow> (string \<Rightarrow> (string, datetime) result) \<Rightarrow> NightWindowConfig option \<Rightarrow> JobFile list \<Rightarrow>
     (SchedulerConfigError, ParsedJob list) result" where
  "resolve_jobs parse_hhmm rfc nw [] = Inr []"
| "resolve_jobs parse_hhmm rfc nw (j # js) = (case resolve_job parse_hhmm rfc nw j of
     Inl e \<Rightarrow> Inl e
   | Inr job \<Rightarrow> map_sum id (Cons job) (resolve_jobs parse_hhmm rfc nw js))"

definition resolve_config ::
  "(string \<Rightarrow> NaiveTime option) \<Rightarrow> (string \<Rightarrow> (string, datetime) result) \<Rightarrow> SchedulerFileConfig \<Rightarrow>
     (SchedulerConfigError, ParsedSchedulerConfig) result" where
  "resolve_config parse_hhmm rfc f =
     (case (case sf_night_window f of
         None \<Rightarrow> Inr None
       | Some n \<Rightarrow> map_sum id Some (parse_night_window parse_hhmm n)) of
        Inl e \<Rightarrow> Inl e
      | Inr default_nw \<Rightarrow>
          map_sum id (\<lambda>jobs. \<lparr>ps_default_night_window = default_nw, ps_jobs = jobs\<rparr>)
            (resolve_jobs parse_hhmm rfc default_nw (sf_jobs f)))"

text \<open>A file is accepted as a whole: then its jobs are those declared, in order, each with exactly one schedule.\<close>

lemma resolve_jobs_Inr:
  assumes "resolve_jobs parse_hhmm rfc nw js = Inr ps"
  shows "list_all2 (\<lambda>j p. resolve_job parse_hhmm rfc nw j = Inr p) js ps"
  using assms by (induction js arbitrary: ps) (auto split: sum.splits simp: map_sum_def)

lemma resolve_job_schedule:
  assumes "resolve_job parse_hhmm rfc nw j = Inr p"
  shows "pj_description p = jf_description j \<and> pj_enabled p = jf_enabled j \<and>
    (pj_cron_expression p = None \<longleftrightarrow> pj_execute_after p \<noteq> None) \<and>
    (jf_night_window j = None \<longrightarrow> pj_night_window p = nw)"
  using assms by (auto simp: resolve_job_def split: if_splits option.splits sum.splits)

lemma config_one_schedule:
  assumes "resolve_config parse_hhmm rfc f = Inr c"
  shows "map pj_description (ps_jobs c) = map jf_description (sf_jobs f)"
    and "p \<in> set (ps_jobs c) \<Longrightarrow> pj_cron_expression p = None \<longleftrightarrow> pj_execute_after p \<noteq> None"
proof -
  from assms obtain nw where jobs: "resolve_jobs parse_hhmm rfc nw (sf_jobs f) = Inr (ps_jobs c)"
    by (auto simp: resolve_config_def map_sum_def split: sum.splits)
  note all = resolve_jobs_Inr[OF jobs]
  show "map pj_description (ps_jobs c) = map jf_description (sf_jobs f)"
    using all by (induction rule: list_all2_induct) (simp_all add: resolve_job_schedule)
  assume p: "p \<in> set (ps_jobs c)"
  from all p have "\<exists>j. resolve_job parse_hhmm rfc nw j = Inr p" by (induction rule: list_all2_induct) auto
  then show "pj_cron_expression p = None \<longleftrightarrow> pj_execute_after p \<noteq> None" using resolve_job_schedule by blast
qed

end
