(* ===== verification/Sched_Window.thy ===== *)
theory Sched_Window
  imports Sched_Types
begin

text \<open>
  The night window (\<open>crates/uc-engine/src/scheduler/night_window.rs\<close>). The time-zone database is third-party code: a
  zone is an argument, with the local wall clock of an instant and the instants that show a given wall clock.
\<close>

section \<open>Zones\<close>

datatype LocalResult = NoInstant | Single datetime | Ambiguous datetime datetime

record Tz =
  tz_name :: string
  tz_local :: "datetime \<Rightarrow> int"
  tz_instants :: "int \<Rightarrow> LocalResult"

fun earliest :: "LocalResult \<Rightarrow> datetime option" where
  "earliest NoInstant = None"
| "earliest (Single t) = Some t"
| "earliest (Ambiguous a b) = Some a"

fun latest :: "LocalResult \<Rightarrow> datetime option" where
  "latest NoInstant = None"
| "latest (Single t) = Some t"
| "latest (Ambiguous a b) = Some b"

record ZonedTime =
  zt_instant :: datetime
  zt_zone :: Tz

abbreviation nanos_per_day :: int where
  "nanos_per_day \<equiv> 86400000000000"

definition date_naive :: "ZonedTime \<Rightarrow> int" where
  "date_naive t = tz_local (zt_zone t) (zt_instant t) div nanos_per_day"

definition local_time :: "ZonedTime \<Rightarrow> NaiveTime" where
  "local_time t = tz_local (zt_zone t) (zt_instant t) mod nanos_per_day"

definition and_time :: "int \<Rightarrow> NaiveTime \<Rightarrow> int" where
  "and_time date t = date * nanos_per_day + t"

section \<open>The window\<close>

record NightWindow =
  nw_start :: NaiveTime
  nw_end :: NaiveTime
  nw_tz :: Tz

datatype NightWindowError = InvalidTimezone string | AmbiguousTime string

definition NightWindow_new :: "NaiveTime \<Rightarrow> NaiveTime \<Rightarrow> Tz \<Rightarrow> NightWindow" where
  "NightWindow_new start end tz = \<lparr>nw_start = start, nw_end = end, nw_tz = tz\<rparr>"

definition from_config :: "(string \<Rightarrow> Tz option) \<Rightarrow> NightWindowConfig \<Rightarrow> (NightWindowError, NightWindow) result" where
  "from_config parse_tz config = (case parse_tz (nc_timezone config) of
     None \<Rightarrow> Inl (InvalidTimezone (nc_timezone config))
   | Some tz \<Rightarrow> Inr (NightWindow_new (nc_start config) (nc_end config) tz))"

definition crosses_midnight :: "NightWindow \<Rightarrow> bool" where
  "crosses_midnight w \<longleftrightarrow> nw_end w < nw_start w"

definition is_within_window :: "NightWindow \<Rightarrow> ZonedTime \<Rightarrow> bool" where
  "is_within_window w now =
     (let t = local_time now in
      if crosses_midnight w then nw_start w \<le> t \<or> t < nw_end w
      else nw_start w \<le> t \<and> t < nw_end w)"

definition zoned_or :: "datetime option \<Rightarrow> Tz \<Rightarrow> ZonedTime \<Rightarrow> ZonedTime" where
  "zoned_or t tz fallback = (case t of None \<Rightarrow> fallback | Some u \<Rightarrow> \<lparr>zt_instant = u, zt_zone = tz\<rparr>)"

definition today_window_start :: "NightWindow \<Rightarrow> ZonedTime \<Rightarrow> ZonedTime" where
  "today_window_start w now =
     zoned_or (earliest (tz_instants (nw_tz w) (and_time (date_naive now) (nw_start w)))) (nw_tz w) now"

definition tomorrow_window_start :: "NightWindow \<Rightarrow> ZonedTime \<Rightarrow> ZonedTime" where
  "tomorrow_window_start w now =
     zoned_or (earliest (tz_instants (nw_tz w) (and_time (date_naive now + 1) (nw_start w)))) (nw_tz w) now"

definition next_window_start :: "NightWindow \<Rightarrow> ZonedTime \<Rightarrow> ZonedTime" where
  "next_window_start w now =
     (let today_start = today_window_start w now in
      if zt_instant now < zt_instant today_start then today_start else tomorrow_window_start w now)"

definition current_window_end :: "NightWindow \<Rightarrow> ZonedTime \<Rightarrow> ZonedTime" where
  "current_window_end w window_start =
     (let end_date = (if crosses_midnight w then date_naive window_start + 1 else date_naive window_start)
      in zoned_or (latest (tz_instants (nw_tz w) (and_time end_date (nw_end w)))) (nw_tz w) window_start)"

definition next_window_end :: "NightWindow \<Rightarrow> ZonedTime \<Rightarrow> ZonedTime" where
  "next_window_end w now =
     (if is_within_window w now then current_window_end w now
      else current_window_end w (next_window_start w now))"

section \<open>What a zone promises\<close>

text \<open>
  An instant that a zone gives for a wall clock shows it, and a wall clock without an instant is never shown: the
  gap of a change to summer time. A zone with a fixed offset is the simplest case.
\<close>

definition zone_ok :: "Tz \<Rightarrow> bool" where
  "zone_ok tz \<longleftrightarrow> (\<forall>l. case tz_instants tz l of
     NoInstant \<Rightarrow> \<forall>u. tz_local tz u \<noteq> l
   | Single u \<Rightarrow> tz_local tz u = l \<and> (\<forall>v. tz_local tz v = l \<longrightarrow> v = u)
   | Ambiguous a b \<Rightarrow> a < b \<and> tz_local tz a = l \<and> tz_local tz b = l \<and> (\<forall>v. tz_local tz v = l \<longrightarrow> a \<le> v \<and> v \<le> b))"

definition fixed_zone :: "string \<Rightarrow> int \<Rightarrow> Tz" where
  "fixed_zone name offset = \<lparr>tz_name = name, tz_local = \<lambda>u. u + offset, tz_instants = \<lambda>l. Single (l - offset)\<rparr>"

lemma fixed_zone_ok: "zone_ok (fixed_zone name offset)"
  by (auto simp: zone_ok_def fixed_zone_def)

definition window_ok :: "NightWindow \<Rightarrow> bool" where
  "window_ok w \<longleftrightarrow> 0 \<le> nw_start w \<and> nw_start w < nanos_per_day \<and> 0 \<le> nw_end w \<and> nw_end w < nanos_per_day \<and>
     nw_start w \<noteq> nw_end w"

section \<open>The window is an arc of the day\<close>

lemma mod_diff_small:
  fixes a b n :: int
  assumes "0 \<le> a" "a < n" "0 \<le> b" "b < n"
  shows "(a - b) mod n = (if b \<le> a then a - b else a - b + n)"
proof (cases "b \<le> a")
  case False
  from False assms have "(a - b + n) mod n = a - b + n" by (intro mod_pos_pos_trivial) simp_all
  with False show ?thesis by (simp only: mod_add_self2) simp
qed (use assms in simp)

text \<open>
  Whether or not the window crosses midnight, a wall clock is in it when the way from the start to it, around the
  clock, is shorter than the way from the start to the end.
\<close>

lemma within_window_arc:
  assumes "window_ok w"
  shows "is_within_window w now \<longleftrightarrow>
    (local_time now - nw_start w) mod nanos_per_day < (nw_end w - nw_start w) mod nanos_per_day"
proof -
  have t: "0 \<le> local_time now" "local_time now < nanos_per_day" by (simp_all add: local_time_def)
  from assms have w: "0 \<le> nw_start w" "nw_start w < nanos_per_day" "0 \<le> nw_end w" "nw_end w < nanos_per_day"
    by (simp_all add: window_ok_def)
  show ?thesis
    unfolding mod_diff_small[OF t w(1,2)] mod_diff_small[OF w(3,4,1,2)]
    using t w assms by (auto simp: is_within_window_def crosses_midnight_def window_ok_def)
qed

text \<open>An instant whose wall clock shows the start is in the window.\<close>

lemma within_at_start:
  assumes "window_ok w" "local_time now = nw_start w"
  shows "is_within_window w now"
  using assms by (auto simp: is_within_window_def crosses_midnight_def window_ok_def)

lemma local_time_and_time:
  assumes "tz_local tz u = and_time date t" "0 \<le> t" "t < nanos_per_day"
  shows "local_time \<lparr>zt_instant = u, zt_zone = tz\<rparr> = t" "date_naive \<lparr>zt_instant = u, zt_zone = tz\<rparr> = date"
  using assms by (simp_all add: local_time_def date_naive_def and_time_def)

lemma zone_ok_earliest: "zone_ok tz \<Longrightarrow> earliest (tz_instants tz l) = Some u \<Longrightarrow> tz_local tz u = l"
  unfolding zone_ok_def by (cases "tz_instants tz l") (force dest: spec[of _ l])+

text \<open>
  In every zone the next start is in the window, unless that wall clock is skipped on its day: then it is the
  argument itself.
\<close>

lemma next_window_start_opens:
  assumes "zone_ok (nw_tz w)" "window_ok w" "next_window_start w now \<noteq> now"
  shows "is_within_window w (next_window_start w now)"
proof -
  have start: "0 \<le> nw_start w" "nw_start w < nanos_per_day" using assms(2) by (simp_all add: window_ok_def)
  have "\<exists>date u. next_window_start w now = \<lparr>zt_instant = u, zt_zone = nw_tz w\<rparr> \<and>
      earliest (tz_instants (nw_tz w) (and_time date (nw_start w))) = Some u"
    using assms(3) unfolding next_window_start_def today_window_start_def tomorrow_window_start_def zoned_or_def Let_def
    by (auto split: option.splits if_splits)
  then obtain date u where u: "next_window_start w now = \<lparr>zt_instant = u, zt_zone = nw_tz w\<rparr>"
    and "earliest (tz_instants (nw_tz w) (and_time date (nw_start w))) = Some u" by blast
  then have "tz_local (nw_tz w) u = and_time date (nw_start w)" using zone_ok_earliest[OF assms(1)] by blast
  then show ?thesis unfolding u using local_time_and_time(1) start within_at_start[OF assms(2)] by blast
qed

section \<open>The next opening is the earliest\<close>

lemma fixed_zone_simps [simp]:
  "tz_local (fixed_zone name offset) u = u + offset"
  "tz_instants (fixed_zone name offset) l = Single (l - offset)"
  by (simp_all add: fixed_zone_def)

text \<open>The wall clock of an instant, by its distance to the next start.\<close>

lemma next_start_fixed:
  assumes "nw_tz w = fixed_zone name offset" "zt_zone now = nw_tz w" "window_ok w"
  defines "t \<equiv> local_time now"
  shows "next_window_start w now = \<lparr>zt_instant = zt_instant now + (if t < nw_start w then nw_start w - t
      else nw_start w - t + nanos_per_day), zt_zone = nw_tz w\<rparr>"
proof -
  let ?l = "zt_instant now + offset"
  have l: "?l = date_naive now * nanos_per_day + t" unfolding t_def using assms(1,2) by (simp add: date_naive_def local_time_def)
  have "zt_instant now < and_time (date_naive now) (nw_start w) - offset \<longleftrightarrow> t < nw_start w"
    using l by (simp add: and_time_def) linarith
  moreover have "and_time (date_naive now) (nw_start w) - offset = zt_instant now + (nw_start w - t)"
    "and_time (date_naive now + 1) (nw_start w) - offset = zt_instant now + (nw_start w - t + nanos_per_day)"
    using l by (simp_all add: and_time_def algebra_simps)
  ultimately show ?thesis
    using assms(1) by (simp add: next_window_start_def today_window_start_def tomorrow_window_start_def zoned_or_def Let_def)
qed

lemma local_time_later:
  assumes "zt_zone now = fixed_zone name offset" "0 \<le> local_time now + d - k * nanos_per_day"
    "local_time now + d - k * nanos_per_day < nanos_per_day"
  shows "local_time \<lparr>zt_instant = zt_instant now + d, zt_zone = zt_zone now\<rparr> = local_time now + d - k * nanos_per_day"
proof -
  let ?l = "zt_instant now + offset"
  have "?l + d = (local_time now + d - k * nanos_per_day) + (?l div nanos_per_day + k) * nanos_per_day"
    using assms(1) by (simp add: local_time_def algebra_simps)
  then have "(?l + d) mod nanos_per_day = (local_time now + d - k * nanos_per_day) mod nanos_per_day"
    by (metis mod_mult_self1)
  also have "\<dots> = local_time now + d - k * nanos_per_day" using assms(2,3) by simp
  finally show ?thesis using assms(1) by (simp add: local_time_def algebra_simps)
qed

text \<open>
  C14. In a zone with a fixed offset, the instant a deferred job is armed for is the first opening of the window: it
  lies in the future and in the window, and at no instant from now until then is the window open.
\<close>

theorem next_opening_earliest:
  assumes "nw_tz w = fixed_zone name offset" "zt_zone now = nw_tz w" "window_ok w" "\<not> is_within_window w now"
  shows "zt_instant now < zt_instant (next_window_start w now) \<and> is_within_window w (next_window_start w now) \<and>
    (\<forall>u. zt_instant now \<le> u \<and> u < zt_instant (next_window_start w now) \<longrightarrow>
      \<not> is_within_window w \<lparr>zt_instant = u, zt_zone = nw_tz w\<rparr>)"
proof -
  let ?t = "local_time now"
  note armed = next_start_fixed[OF assms(1-3)]
  have t: "0 \<le> ?t" "?t < nanos_per_day" by (simp_all add: local_time_def)
  have zone: "zt_zone now = fixed_zone name offset" using assms(1,2) by simp
  have "\<not> is_within_window w \<lparr>zt_instant = u, zt_zone = nw_tz w\<rparr>"
    if u: "zt_instant now \<le> u" "u < zt_instant (next_window_start w now)" for u
  proof -
    define x where "x = u - zt_instant now"
    then have ux: "\<lparr>zt_instant = u, zt_zone = nw_tz w\<rparr> = \<lparr>zt_instant = zt_instant now + x, zt_zone = zt_zone now\<rparr>"
      using assms(2) by simp
    have x: "0 \<le> x" "x < (if ?t < nw_start w then nw_start w - ?t else nw_start w - ?t + nanos_per_day)"
      using u armed by (simp_all add: x_def split: if_splits)
    show ?thesis
    proof (cases "?t + x < nanos_per_day")
      case True
      with t x(1) have "local_time \<lparr>zt_instant = u, zt_zone = nw_tz w\<rparr> = ?t + x"
        unfolding ux using local_time_later[OF zone, of x 0] by simp
      with x assms(3,4) True show ?thesis
        by (auto simp: is_within_window_def crosses_midnight_def window_ok_def split: if_splits)
    next
      case False
      with t x assms(3) have "local_time \<lparr>zt_instant = u, zt_zone = nw_tz w\<rparr> = ?t + x - nanos_per_day"
        unfolding ux using local_time_later[OF zone, of x 1] by (simp add: window_ok_def split: if_splits)
      with x t assms(3,4) False show ?thesis
        by (auto simp: is_within_window_def crosses_midnight_def window_ok_def split: if_splits)
    qed
  qed
  moreover have later: "zt_instant now < zt_instant (next_window_start w now)"
    using t assms(3) by (simp add: armed window_ok_def)
  moreover from later have "next_window_start w now \<noteq> now" by auto
  then have "is_within_window w (next_window_start w now)"
    using next_window_start_opens[of w now] assms(1,3) fixed_zone_ok by simp
  ultimately show ?thesis by blast
qed

text \<open>22:00 to 06:00 at UTC+8, asked at noon of the first day: the next opening is at 22:00 of that day.\<close>

definition shanghai_night :: NightWindow where
  "shanghai_night = NightWindow_new (from_hms 22 0 0) (from_hms 6 0 0) (fixed_zone ''Asia/Shanghai'' (from_hms 8 0 0))"

definition shanghai_noon :: ZonedTime where
  "shanghai_noon = \<lparr>zt_instant = from_hms 4 0 0, zt_zone = nw_tz shanghai_night\<rparr>"

lemma shanghai_night_ok:
  "nw_tz shanghai_night = fixed_zone ''Asia/Shanghai'' (from_hms 8 0 0)" "window_ok shanghai_night"
  "\<not> is_within_window shanghai_night shanghai_noon" "zt_instant (next_window_start shanghai_night shanghai_noon) = from_hms 14 0 0"
  by (simp_all add: shanghai_night_def shanghai_noon_def NightWindow_new_def window_ok_def from_hms_def is_within_window_def
      crosses_midnight_def local_time_def next_window_start_def today_window_start_def zoned_or_def and_time_def date_naive_def)

theorem next_opening_earliest_witness:
  "is_within_window shanghai_night (next_window_start shanghai_night shanghai_noon) \<and>
   \<not> is_within_window shanghai_night \<lparr>zt_instant = from_hms 13 59 59, zt_zone = nw_tz shanghai_night\<rparr>"
proof -
  have "zt_zone shanghai_noon = nw_tz shanghai_night" by (simp add: shanghai_noon_def)
  from next_opening_earliest[OF shanghai_night_ok(1) this shanghai_night_ok(2,3)] shanghai_night_ok(4)
  show ?thesis by (simp add: shanghai_noon_def from_hms_def)
qed

section \<open>The closing of the window\<close>

text \<open>
  After midnight the closing of a window that crosses it is computed from the date of today, a day too late: at
  01:00 of a window that ends at 06:00 the answer is 06:00 of the next day, when the window was closed all day.
\<close>

lemma window_end_a_day_late:
  defines "now \<equiv> \<lparr>zt_instant = from_hms 17 0 0, zt_zone = nw_tz shanghai_night\<rparr>"
  shows "local_time now = from_hms 1 0 0" "is_within_window shanghai_night now"
    "zt_instant (next_window_end shanghai_night now) = zt_instant now + from_hms 29 0 0"
    "\<not> is_within_window shanghai_night \<lparr>zt_instant = zt_instant now + from_hms 5 0 0, zt_zone = nw_tz shanghai_night\<rparr>"
  by (simp_all add: now_def shanghai_night_def NightWindow_new_def from_hms_def is_within_window_def crosses_midnight_def
      local_time_def next_window_end_def current_window_end_def zoned_or_def and_time_def date_naive_def)

text \<open>Where the start of tomorrow is skipped by the clock, the next opening is the present instant.\<close>

lemma skipped_start_opens_now:
  assumes "zt_instant (today_window_start w now) \<le> zt_instant now"
    and "tz_instants (nw_tz w) (and_time (date_naive now + 1) (nw_start w)) = NoInstant"
  shows "next_window_start w now = now"
  using assms by (simp add: next_window_start_def tomorrow_window_start_def zoned_or_def Let_def)

end
