(* ===== verification/Sched_Store.thy ===== *)
theory Sched_Store
  imports Sched_Window
begin

text \<open>
  The stores of scheduled tasks (\<open>crates/uc-engine/src/scheduler/store.rs\<close>, tables of \<open>migration.rs\<close>): the trait
  \<open>ScheduleStore\<close> as a record of operations, the in-memory store and the PostgreSQL one. The locale \<open>schedule_store\<close> is
  what the scheduler relies on, interpreted on both.
\<close>

fun EngineError_display :: "EngineError \<Rightarrow> string" where
  "EngineError_display (EngineError.NotFound e) = ''Not found: '' @ e"
| "EngineError_display (SearchError e) = ''Search failed: '' @ e"
| "EngineError_display (IndexError e) = ''Index not found: '' @ e"
| "EngineError_display (MemoryReadError e) = ''Memory read error: '' @ e"
| "EngineError_display (MemoryWriteError e) = ''Memory write error: '' @ e"
| "EngineError_display (IndexingError e) = ''Indexing failed: '' @ e"
| "EngineError_display (ConnectionError e) = ''Connection error: '' @ e"
| "EngineError_display (TimeoutError e) = ''Timeout: '' @ e"
| "EngineError_display (RateLimited s) = ''Rate limited: retry after '' @ show_word s @ ''s''"
| "EngineError_display (ConflictError path details) = ''Conflict detected in '' @ path @ '': '' @ details"
| "EngineError_display (TaskError e) = ''Task failed: '' @ e"
| "EngineError_display (WorkerUnavailable e) = ''Worker unavailable: '' @ e"
| "EngineError_display (SandboxError e) = ''Sandbox error: '' @ e"
| "EngineError_display (ConfigError e) = ''Configuration error: '' @ e"
| "EngineError_display (InternalError e) = ''Internal error: '' @ e"
| "EngineError_display (StorageError e) = ''Storage error: '' @ e"
| "EngineError_display (InvalidOperation e) = ''Invalid operation: '' @ e"

section \<open>The trait\<close>

record 's ScheduleStore =
  so_save_task :: "ScheduledTask \<Rightarrow> 's \<Rightarrow> 's \<times> (EngineError, unit) result"
  so_load_task :: "Uuid \<Rightarrow> 's \<Rightarrow> 's \<times> (EngineError, ScheduledTask option) result"
  so_list_tasks :: "bool \<Rightarrow> 's \<Rightarrow> 's \<times> (EngineError, ScheduledTask list) result"
  so_update_task :: "ScheduledTask \<Rightarrow> 's \<Rightarrow> 's \<times> (EngineError, unit) result"
  so_delete_task :: "Uuid \<Rightarrow> 's \<Rightarrow> 's \<times> (EngineError, unit) result"
  so_save_execution :: "ExecutionHistory \<Rightarrow> 's \<Rightarrow> 's \<times> (EngineError, unit) result"
  so_list_executions :: "Uuid \<Rightarrow> int \<Rightarrow> 's \<Rightarrow> 's \<times> (EngineError, ExecutionHistory list) result"

section \<open>The in-memory store\<close>

record InMemoryScheduleStore =
  ms_tasks :: "ScheduledTask list"
  ms_executions :: "ExecutionHistory list"

definition InMemoryScheduleStore_new :: InMemoryScheduleStore where
  "InMemoryScheduleStore_new = \<lparr>ms_tasks = [], ms_executions = []\<rparr>"

definition ms_save_task :: "ScheduledTask \<Rightarrow> InMemoryScheduleStore \<Rightarrow> InMemoryScheduleStore \<times> (EngineError, unit) result" where
  "ms_save_task task s =
     (if \<exists>t \<in> set (ms_tasks s). sk_id t = sk_id task
      then (s, Inl (TaskError (''Scheduled task '' @ sk_id task @ '' already exists'')))
      else (s\<lparr>ms_tasks := ms_tasks s @ [task]\<rparr>, Inr ()))"

definition ms_load_task :: "Uuid \<Rightarrow> InMemoryScheduleStore \<Rightarrow> InMemoryScheduleStore \<times> (EngineError, ScheduledTask option) result" where
  "ms_load_task i s = (s, Inr (find (\<lambda>t. sk_id t = i) (ms_tasks s)))"

definition ms_list_tasks :: "bool \<Rightarrow> InMemoryScheduleStore \<Rightarrow> InMemoryScheduleStore \<times> (EngineError, ScheduledTask list) result" where
  "ms_list_tasks enabled_only s = (s, Inr (filter (\<lambda>t. \<not> enabled_only \<or> sk_enabled t) (ms_tasks s)))"

definition ms_update_task :: "ScheduledTask \<Rightarrow> InMemoryScheduleStore \<Rightarrow> InMemoryScheduleStore \<times> (EngineError, unit) result" where
  "ms_update_task task s =
     (if \<exists>t \<in> set (ms_tasks s). sk_id t = sk_id task
      then (s\<lparr>ms_tasks := update_first (\<lambda>t. sk_id t = sk_id task) (\<lambda>_. task) (ms_tasks s)\<rparr>, Inr ())
      else (s, Inl (TaskError (''Scheduled task '' @ sk_id task @ '' not found for update''))))"

definition ms_delete_task :: "Uuid \<Rightarrow> InMemoryScheduleStore \<Rightarrow> InMemoryScheduleStore \<times> (EngineError, unit) result" where
  "ms_delete_task i s =
     (let tasks = filter (\<lambda>t. sk_id t \<noteq> i) (ms_tasks s) in
      if length tasks = length (ms_tasks s)
      then (s\<lparr>ms_tasks := tasks\<rparr>, Inl (TaskError (''Scheduled task '' @ i @ '' not found for deletion'')))
      else (s\<lparr>ms_tasks := tasks, ms_executions := filter (\<lambda>e. xh_scheduled_task_id e \<noteq> i) (ms_executions s)\<rparr>, Inr ()))"

definition ms_save_execution ::
  "ExecutionHistory \<Rightarrow> InMemoryScheduleStore \<Rightarrow> InMemoryScheduleStore \<times> (EngineError, unit) result" where
  "ms_save_execution h s = (s\<lparr>ms_executions := ms_executions s @ [h]\<rparr>, Inr ())"

text \<open>The cast \<open>limit as usize\<close> of a negative number exceeds every length.\<close>

definition ms_list_executions ::
  "Uuid \<Rightarrow> int \<Rightarrow> InMemoryScheduleStore \<Rightarrow> InMemoryScheduleStore \<times> (EngineError, ExecutionHistory list) result" where
  "ms_list_executions task_id limit s =
     (let newest = rev (filter (\<lambda>e. xh_scheduled_task_id e = task_id) (ms_executions s))
      in (s, Inr (if limit < 0 then newest else take (nat limit) newest)))"

definition in_memory_schedule :: "InMemoryScheduleStore ScheduleStore" where
  "in_memory_schedule = \<lparr>so_save_task = ms_save_task, so_load_task = ms_load_task, so_list_tasks = ms_list_tasks,
     so_update_task = ms_update_task, so_delete_task = ms_delete_task, so_save_execution = ms_save_execution,
     so_list_executions = ms_list_executions\<rparr>"

section \<open>The PostgreSQL store\<close>

text \<open>
  The rows of the two tables. \<open>TIMESTAMPTZ\<close> and \<open>TIME\<close> columns keep microseconds; the counter of attempts is a signed
  \<open>INTEGER\<close>. Each query may fail: \<open>pq_faults\<close> has the outcome of the queries to come.
\<close>

record ScheduledTaskRow =
  kr_id :: Uuid
  kr_description :: string
  kr_project_id :: string
  kr_cron_expression :: "string option"
  kr_execute_after :: "datetime option"
  kr_night_window_start :: NaiveTime
  kr_night_window_end :: NaiveTime
  kr_timezone :: string
  kr_enabled :: bool
  kr_last_execution :: "datetime option"
  kr_next_execution :: "datetime option"
  kr_created_at :: datetime
  kr_updated_at :: datetime
  kr_verify_command :: "string option"
  kr_dispatch_attempts :: int

fun execution_status_to_str :: "ExecutionStatus \<Rightarrow> string" where
  "execution_status_to_str ExecutionStatus.Completed = ''Completed''"
| "execution_status_to_str ExecutionStatus.Failed = ''Failed''"
| "execution_status_to_str Skipped = ''Skipped''"
| "execution_status_to_str Deferred = ''Deferred''"

definition parse_execution_status :: "string \<Rightarrow> ExecutionStatus" where
  "parse_execution_status s =
     (if s = ''Completed'' then ExecutionStatus.Completed
      else if s = ''Failed'' then ExecutionStatus.Failed
      else if s = ''Skipped'' then Skipped
      else if s = ''Deferred'' then Deferred
      else ExecutionStatus.Failed)"

record ExecutionHistoryRow =
  hr_id :: Uuid
  hr_scheduled_task_id :: Uuid
  hr_started_at :: datetime
  hr_completed_at :: "datetime option"
  hr_status :: string
  hr_result_summary :: "string option"
  hr_deferred_reason :: "string option"

record PostgresScheduleStore =
  pq_tasks :: "ScheduledTaskRow list"
  pq_history :: "ExecutionHistoryRow list"
  pq_faults :: "string option list"

definition dispatch_attempts_to_column :: "ScheduledTask \<Rightarrow> int" where
  "dispatch_attempts_to_column task = min (uint (sk_dispatch_attempts task)) 2147483647"

definition attempts_of_column :: "int \<Rightarrow> u32" where
  "attempts_of_column c = (if c < 0 then 0 else word_of_int c)"

definition task_to_row :: "ScheduledTask \<Rightarrow> ScheduledTaskRow" where
  "task_to_row task =
     \<lparr>kr_id = sk_id task, kr_description = sk_description task, kr_project_id = sk_project_id task,
      kr_cron_expression = sk_cron_expression task, kr_execute_after = map_option timestamptz (sk_execute_after task),
      kr_night_window_start = timestamptz (sk_night_window_start task),
      kr_night_window_end = timestamptz (sk_night_window_end task), kr_timezone = sk_timezone task,
      kr_enabled = sk_enabled task, kr_last_execution = map_option timestamptz (sk_last_execution task),
      kr_next_execution = map_option timestamptz (sk_next_execution task), kr_created_at = timestamptz (sk_created_at task),
      kr_updated_at = timestamptz (sk_updated_at task), kr_verify_command = sk_verify_command task,
      kr_dispatch_attempts = dispatch_attempts_to_column task\<rparr>"

definition row_to_scheduled :: "ScheduledTaskRow \<Rightarrow> ScheduledTask" where
  "row_to_scheduled r =
     \<lparr>sk_id = kr_id r, sk_description = kr_description r, sk_project_id = kr_project_id r,
      sk_cron_expression = kr_cron_expression r, sk_execute_after = kr_execute_after r,
      sk_night_window_start = kr_night_window_start r, sk_night_window_end = kr_night_window_end r,
      sk_timezone = kr_timezone r, sk_enabled = kr_enabled r, sk_last_execution = kr_last_execution r,
      sk_next_execution = kr_next_execution r, sk_created_at = kr_created_at r, sk_updated_at = kr_updated_at r,
      sk_verify_command = kr_verify_command r, sk_dispatch_attempts = attempts_of_column (kr_dispatch_attempts r)\<rparr>"

text \<open>The outcome of one query: the error of the connection, or the effect of its statement.\<close>

definition pq_query ::
  "string \<Rightarrow> (PostgresScheduleStore \<Rightarrow> PostgresScheduleStore \<times> (EngineError, 'a) result) \<Rightarrow> PostgresScheduleStore \<Rightarrow>
     PostgresScheduleStore \<times> (EngineError, 'a) result" where
  "pq_query what body s = (case pq_faults s of
     [] \<Rightarrow> body s
   | None # rest \<Rightarrow> body (s\<lparr>pq_faults := rest\<rparr>)
   | Some e # rest \<Rightarrow> (s\<lparr>pq_faults := rest\<rparr>, Inl (ConnectionError (what @ e))))"

definition pq_save_task :: "ScheduledTask \<Rightarrow> PostgresScheduleStore \<Rightarrow> PostgresScheduleStore \<times> (EngineError, unit) result" where
  "pq_save_task task = pq_query ''Failed to save scheduled task: '' (\<lambda>s.
     if \<exists>r \<in> set (pq_tasks s). kr_id r = sk_id task
     then (s, Inl (ConnectionError ''Failed to save scheduled task: duplicate key value violates unique constraint''))
     else (s\<lparr>pq_tasks := pq_tasks s @ [task_to_row task]\<rparr>, Inr ()))"

definition pq_load_task :: "Uuid \<Rightarrow> PostgresScheduleStore \<Rightarrow> PostgresScheduleStore \<times> (EngineError, ScheduledTask option) result" where
  "pq_load_task i = pq_query ''Failed to load scheduled task: '' (\<lambda>s.
     (s, Inr (map_option row_to_scheduled (find (\<lambda>r. kr_id r = i) (pq_tasks s)))))"

definition pq_list_tasks :: "bool \<Rightarrow> PostgresScheduleStore \<Rightarrow> PostgresScheduleStore \<times> (EngineError, ScheduledTask list) result" where
  "pq_list_tasks enabled_only = pq_query ''Failed to list scheduled tasks: '' (\<lambda>s.
     (s, Inr (map row_to_scheduled (sort_key kr_created_at
       (if enabled_only then filter kr_enabled (pq_tasks s) else pq_tasks s)))))"

definition pq_update_task :: "ScheduledTask \<Rightarrow> PostgresScheduleStore \<Rightarrow> PostgresScheduleStore \<times> (EngineError, unit) result" where
  "pq_update_task task = pq_query ''Failed to update scheduled task: '' (\<lambda>s.
     if \<exists>r \<in> set (pq_tasks s). kr_id r = sk_id task
     then (s\<lparr>pq_tasks := map (\<lambda>r. if kr_id r = sk_id task
         then (task_to_row task)\<lparr>kr_created_at := kr_created_at r\<rparr> else r) (pq_tasks s)\<rparr>, Inr ())
     else (s, Inl (TaskError (''Scheduled task '' @ sk_id task @ '' not found for update''))))"

definition pq_delete_task :: "Uuid \<Rightarrow> PostgresScheduleStore \<Rightarrow> PostgresScheduleStore \<times> (EngineError, unit) result" where
  "pq_delete_task i = pq_query ''Failed to delete scheduled task: '' (\<lambda>s.
     if \<exists>r \<in> set (pq_tasks s). kr_id r = i
     then (s\<lparr>pq_tasks := filter (\<lambda>r. kr_id r \<noteq> i) (pq_tasks s),
            pq_history := filter (\<lambda>h. hr_scheduled_task_id h \<noteq> i) (pq_history s)\<rparr>, Inr ())
     else (s, Inl (TaskError (''Scheduled task '' @ i @ '' not found for deletion''))))"

text \<open>The foreign key of the history and its primary key are checked by the insertion.\<close>

definition pq_save_execution ::
  "ExecutionHistory \<Rightarrow> PostgresScheduleStore \<Rightarrow> PostgresScheduleStore \<times> (EngineError, unit) result" where
  "pq_save_execution h = pq_query ''Failed to save execution history: '' (\<lambda>s.
     if \<exists>r \<in> set (pq_history s). hr_id r = xh_id h
     then (s, Inl (ConnectionError ''Failed to save execution history: duplicate key value violates unique constraint''))
     else if \<not> (\<exists>r \<in> set (pq_tasks s). kr_id r = xh_scheduled_task_id h)
     then (s, Inl (ConnectionError ''Failed to save execution history: insert violates foreign key constraint''))
     else (s\<lparr>pq_history := pq_history s @ [\<lparr>hr_id = xh_id h, hr_scheduled_task_id = xh_scheduled_task_id h,
         hr_started_at = timestamptz (xh_started_at h), hr_completed_at = map_option timestamptz (xh_completed_at h),
         hr_status = execution_status_to_str (xh_status h), hr_result_summary = xh_result_summary h,
         hr_deferred_reason = xh_deferred_reason h\<rparr>]\<rparr>, Inr ()))"

definition row_to_history :: "ExecutionHistoryRow \<Rightarrow> ExecutionHistory" where
  "row_to_history r =
     \<lparr>xh_id = hr_id r, xh_scheduled_task_id = hr_scheduled_task_id r, xh_started_at = hr_started_at r,
      xh_completed_at = hr_completed_at r, xh_status = parse_execution_status (hr_status r),
      xh_result_summary = hr_result_summary r, xh_deferred_reason = hr_deferred_reason r\<rparr>"

definition pq_list_executions ::
  "Uuid \<Rightarrow> int \<Rightarrow> PostgresScheduleStore \<Rightarrow> PostgresScheduleStore \<times> (EngineError, ExecutionHistory list) result" where
  "pq_list_executions task_id limit = pq_query ''Failed to list execution history: '' (\<lambda>s.
     if limit < 0 then (s, Inl (ConnectionError ''Failed to list execution history: LIMIT must not be negative''))
     else (s, Inr (map row_to_history (take (nat limit)
       (sort_key (\<lambda>r. - hr_started_at r) (filter (\<lambda>r. hr_scheduled_task_id r = task_id) (pq_history s)))))))"

definition postgres_schedule :: "PostgresScheduleStore ScheduleStore" where
  "postgres_schedule = \<lparr>so_save_task = pq_save_task, so_load_task = pq_load_task, so_list_tasks = pq_list_tasks,
     so_update_task = pq_update_task, so_delete_task = pq_delete_task, so_save_execution = pq_save_execution,
     so_list_executions = pq_list_executions\<rparr>"

section \<open>What a store promises\<close>

text \<open>
  \<open>stored\<close> is the content of a store, \<open>column\<close> what it keeps of a task. An operation that reports an error leaves the
  content; one that succeeds has the effect its name says. An update keeps the time of creation the store has.
\<close>

locale schedule_store =
  fixes ops :: "'s ScheduleStore"
    and stored :: "'s \<Rightarrow> Uuid \<Rightarrow> ScheduledTask option"
    and column :: "ScheduledTask \<Rightarrow> ScheduledTask"
    and valid :: "'s \<Rightarrow> bool"
  assumes column_id: "sk_id (column t) = sk_id t" "sk_enabled (column t) = sk_enabled t"
      "sk_cron_expression (column t) = sk_cron_expression t" "column (column t) = column t"
      "sk_execute_after (column t) = None \<longleftrightarrow> sk_execute_after t = None"
    and column_created: "sk_created_at t = sk_created_at u \<Longrightarrow> sk_created_at (column t) = sk_created_at (column u)"
    and stored_task: "valid s \<Longrightarrow> stored s i = Some t \<Longrightarrow> sk_id t = i \<and> column t = t"
    and save_task: "valid s \<Longrightarrow> so_save_task ops t s = (s', r) \<Longrightarrow>
      valid s' \<and> stored s' = (if r = Inr () then (stored s)(sk_id t \<mapsto> column t) else stored s) \<and>
      (r = Inr () \<longrightarrow> stored s (sk_id t) = None)"
    and update_task: "valid s \<Longrightarrow> so_update_task ops t s = (s', r) \<Longrightarrow>
      valid s' \<and> (r = Inr () \<longrightarrow> stored s (sk_id t) \<noteq> None) \<and>
      (\<forall>old. stored s (sk_id t) = Some old \<longrightarrow> sk_created_at old = sk_created_at (column t) \<longrightarrow>
         stored s' = (if r = Inr () then (stored s)(sk_id t \<mapsto> column t) else stored s)) \<and>
      (stored s (sk_id t) = None \<longrightarrow> stored s' = stored s)"
    and delete_task: "valid s \<Longrightarrow> so_delete_task ops i s = (s', r) \<Longrightarrow>
      valid s' \<and> stored s' = (if r = Inr () then (stored s)(i := None) else stored s) \<and>
      (r = Inr () \<longrightarrow> stored s i \<noteq> None)"
    and list_tasks: "valid s \<Longrightarrow> so_list_tasks ops enabled_only s = (s', listed) \<Longrightarrow>
      valid s' \<and> stored s' = stored s \<and>
      (\<forall>ts. listed = Inr ts \<longrightarrow> distinct (map sk_id ts) \<and>
        (\<forall>i t. t \<in> set ts \<and> sk_id t = i \<longleftrightarrow> stored s i = Some t \<and> (enabled_only \<longrightarrow> sk_enabled t)))"
    and save_execution: "valid s \<Longrightarrow> so_save_execution ops h s = (s', r) \<Longrightarrow> valid s' \<and> stored s' = stored s"
    and list_executions: "valid s \<Longrightarrow> so_list_executions ops i n s = (s', entries) \<Longrightarrow> valid s' \<and> stored s' = stored s"

text \<open>A store whose queries do not fail: it lists its tasks and updates every task it has.\<close>

locale reliable_store = schedule_store ops stored column valid
  for ops :: "'s ScheduleStore" and stored column valid +
  fixes up :: "'s \<Rightarrow> bool"
  assumes up_save: "up s \<Longrightarrow> up (fst (so_save_task ops t s))"
    and up_delete: "up s \<Longrightarrow> up (fst (so_delete_task ops i s))"
    and up_update: "up s \<Longrightarrow> up (fst (so_update_task ops t s))"
      "up s \<Longrightarrow> stored s (sk_id t) \<noteq> None \<Longrightarrow> snd (so_update_task ops t s) = Inr ()"
    and up_list: "up s \<Longrightarrow> up (fst (so_list_tasks ops enabled_only s))"
      "up s \<Longrightarrow> \<exists>ts. snd (so_list_tasks ops enabled_only s) = Inr ts"
    and up_executions: "up s \<Longrightarrow> up (fst (so_save_execution ops h s))" "up s \<Longrightarrow> up (fst (so_list_executions ops i n s))"

section \<open>The in-memory store keeps the promise\<close>

definition ms_stored :: "InMemoryScheduleStore \<Rightarrow> Uuid \<Rightarrow> ScheduledTask option" where
  "ms_stored s i = find (\<lambda>t. sk_id t = i) (ms_tasks s)"

definition ms_valid :: "InMemoryScheduleStore \<Rightarrow> bool" where
  "ms_valid s \<longleftrightarrow> distinct (map sk_id (ms_tasks s))"

lemma find_key_distinct:
  "distinct (map f xs) \<Longrightarrow> find (\<lambda>x. f x = i) xs = Some x \<longleftrightarrow> x \<in> set xs \<and> f x = i"
  by (induction xs) auto

lemma find_key_None: "find (\<lambda>x. f x = i) xs = None \<longleftrightarrow> i \<notin> f ` set xs"
  by (auto simp: find_None_iff)

lemma some_key: "(\<exists>y \<in> set xs. f y = k) \<longleftrightarrow> k \<in> f ` set xs"
  by auto

lemma no_key: "(\<forall>y \<in> set xs. f y \<noteq> k) \<longleftrightarrow> k \<notin> f ` set xs"
  by auto

lemma find_snoc_key:
  assumes "k \<notin> f ` set xs" "f x = k"
  shows "find (\<lambda>y. f y = i) (xs @ [x]) = (if i = k then Some x else find (\<lambda>y. f y = i) xs)"
  using assms by (induction xs) auto

lemma find_update_key:
  assumes "k \<in> f ` set xs" "f x = k"
  shows "find (\<lambda>y. f y = i) (update_first (\<lambda>y. f y = k) (\<lambda>_. x) xs) = (if i = k then Some x else find (\<lambda>y. f y = i) xs)"
  using assms by (induction xs) auto

lemma map_update_key: "f x = k \<Longrightarrow> map f (update_first (\<lambda>y. f y = k) (\<lambda>_. x) xs) = map f xs"
  by (induction xs) auto

lemma find_filter_key: "find (\<lambda>y. f y = i) (filter (\<lambda>y. f y \<noteq> k) xs) = (if i = k then None else find (\<lambda>y. f y = i) xs)"
  by (induction xs) auto

lemma filter_same_length: "length (filter P xs) = length xs \<longleftrightarrow> (\<forall>x \<in> set xs. P x)"
  by (metis filter_True length_filter_less nat_neq_iff)

interpretation mem_schedule: schedule_store in_memory_schedule ms_stored "\<lambda>t. t" ms_valid
proof unfold_locales
  fix s t s' r
  assume "ms_valid s" "so_save_task in_memory_schedule t s = (s', r)"
  then show "ms_valid s' \<and> ms_stored s' = (if r = Inr () then (ms_stored s)(sk_id t \<mapsto> t) else ms_stored s) \<and>
      (r = Inr () \<longrightarrow> ms_stored s (sk_id t) = None)"
    by (auto simp: in_memory_schedule_def ms_save_task_def ms_valid_def ms_stored_def find_snoc_key[where k = "sk_id t"]
        find_key_None no_key fun_eq_iff split: if_splits)
next
  fix s t s' r
  assume "ms_valid s" "so_update_task in_memory_schedule t s = (s', r)"
  then show "ms_valid s' \<and> (r = Inr () \<longrightarrow> ms_stored s (sk_id t) \<noteq> None) \<and>
      (\<forall>old. ms_stored s (sk_id t) = Some old \<longrightarrow> sk_created_at old = sk_created_at t \<longrightarrow>
         ms_stored s' = (if r = Inr () then (ms_stored s)(sk_id t \<mapsto> t) else ms_stored s)) \<and>
      (ms_stored s (sk_id t) = None \<longrightarrow> ms_stored s' = ms_stored s)"
    by (auto simp: in_memory_schedule_def ms_update_task_def ms_valid_def ms_stored_def find_key_None find_update_key
        map_update_key some_key no_key fun_eq_iff simp del: image_iff split: if_splits)
next
  fix s i s' r
  assume "ms_valid s" "so_delete_task in_memory_schedule i s = (s', r)"
  then show "ms_valid s' \<and> ms_stored s' = (if r = Inr () then (ms_stored s)(i := None) else ms_stored s) \<and>
      (r = Inr () \<longrightarrow> ms_stored s i \<noteq> None)"
    by (auto simp: in_memory_schedule_def ms_delete_task_def ms_valid_def ms_stored_def find_filter_key find_None_iff
        filter_same_length distinct_map_filter fun_eq_iff Let_def split: if_splits)
next
  fix s enabled_only s' r
  assume "ms_valid s" "so_list_tasks in_memory_schedule enabled_only s = (s', r)"
  then show "ms_valid s' \<and> ms_stored s' = ms_stored s \<and>
      (\<forall>ts. r = Inr ts \<longrightarrow> distinct (map sk_id ts) \<and>
        (\<forall>i t. t \<in> set ts \<and> sk_id t = i \<longleftrightarrow> ms_stored s i = Some t \<and> (enabled_only \<longrightarrow> sk_enabled t)))"
    by (auto simp: in_memory_schedule_def ms_list_tasks_def ms_valid_def ms_stored_def find_key_distinct distinct_map_filter)
qed (auto simp: in_memory_schedule_def ms_save_execution_def ms_list_executions_def ms_valid_def ms_stored_def Let_def
    dest: find_SomeD)

interpretation mem_reliable: reliable_store in_memory_schedule ms_stored "\<lambda>t. t" ms_valid "\<lambda>s. True"
  by unfold_locales (auto simp: in_memory_schedule_def ms_update_task_def ms_list_tasks_def ms_stored_def find_key_None
      dest: find_SomeD)

section \<open>The PostgreSQL store keeps the promise\<close>

definition pq_stored :: "PostgresScheduleStore \<Rightarrow> Uuid \<Rightarrow> ScheduledTask option" where
  "pq_stored s i = map_option row_to_scheduled (find (\<lambda>r. kr_id r = i) (pq_tasks s))"

definition pq_valid :: "PostgresScheduleStore \<Rightarrow> bool" where
  "pq_valid s \<longleftrightarrow> distinct (map kr_id (pq_tasks s)) \<and> (\<forall>r \<in> set (pq_tasks s). task_to_row (row_to_scheduled r) = r)"

definition pq_column :: "ScheduledTask \<Rightarrow> ScheduledTask" where
  "pq_column t = row_to_scheduled (task_to_row t)"

lemma timestamptz_idem [simp]: "timestamptz (timestamptz t) = timestamptz t"
  by (simp add: timestamptz_def timestamp_micros_def)

lemma column_attempts: "dispatch_attempts_to_column (row_to_scheduled (task_to_row t)) = dispatch_attempts_to_column t"
proof -
  have "uint (sk_dispatch_attempts t) < 2 ^ 32" using uint_lt2p[of "sk_dispatch_attempts t"] by simp
  then have "uint (word_of_int (min (uint (sk_dispatch_attempts t)) 2147483647) :: u32) = min (uint (sk_dispatch_attempts t)) 2147483647"
    by (simp add: uint_word_of_int_eq take_bit_int_eq_self)
  moreover have "\<not> min (uint (sk_dispatch_attempts t)) 2147483647 < 0" by (auto simp: min_def not_less)
  ultimately show ?thesis
    by (simp add: row_to_scheduled_def task_to_row_def attempts_of_column_def dispatch_attempts_to_column_def)
qed

lemma row_kept: "task_to_row (row_to_scheduled (task_to_row t)) = task_to_row t"
  using column_attempts[of t] by (simp add: row_to_scheduled_def task_to_row_def option.map_comp comp_def dispatch_attempts_to_column_def)

lemma row_kept_created:
  assumes "task_to_row (row_to_scheduled r) = r"
  shows "task_to_row (row_to_scheduled ((task_to_row t)\<lparr>kr_created_at := kr_created_at r\<rparr>)) = (task_to_row t)\<lparr>kr_created_at := kr_created_at r\<rparr>"
proof -
  have "timestamptz (kr_created_at r) = kr_created_at (task_to_row (row_to_scheduled r))"
    by (simp add: task_to_row_def row_to_scheduled_def)
  with assms have "timestamptz (kr_created_at r) = kr_created_at r" by simp
  with row_kept[of t] show ?thesis
    by (simp add: row_to_scheduled_def task_to_row_def dispatch_attempts_to_column_def)
qed

lemma pq_column_fields:
  "sk_id (pq_column t) = sk_id t" "sk_enabled (pq_column t) = sk_enabled t"
  "sk_cron_expression (pq_column t) = sk_cron_expression t" "pq_column (pq_column t) = pq_column t"
  "sk_created_at (pq_column t) = timestamptz (sk_created_at t)"
  "sk_execute_after (pq_column t) = None \<longleftrightarrow> sk_execute_after t = None"
  using row_kept[of t] by (simp_all add: pq_column_def) (simp_all add: row_to_scheduled_def task_to_row_def)

lemma row_id [simp]: "kr_id (task_to_row t) = sk_id t"
  by (simp add: task_to_row_def)

lemma pq_query_cases:
  assumes "pq_query what body s = (s', r)"
  obtains fs where "body (s\<lparr>pq_faults := fs\<rparr>) = (s', r)"
  | fs e where "s' = s\<lparr>pq_faults := fs\<rparr>" "r = Inl (ConnectionError e)"
proof (cases "pq_faults s")
  case Nil
  then have "s\<lparr>pq_faults := []\<rparr> = s" by simp
  with Nil assms that(1)[of "[]"] show ?thesis by (simp add: pq_query_def)
next
  case (Cons f fs)
  with assms that show ?thesis by (cases f) (auto simp: pq_query_def)
qed

lemma find_map_key:
  assumes "\<And>r. f r = k \<Longrightarrow> f (g r) = k"
  shows "find (\<lambda>r. f r = i) (map (\<lambda>r. if f r = k then g r else r) xs) =
    (if i = k then map_option g (find (\<lambda>r. f r = k) xs) else find (\<lambda>r. f r = i) xs)"
  using assms by (induction xs) auto

lemma row_created:
  "row_to_scheduled r = old \<Longrightarrow> sk_created_at old = timestamptz (sk_created_at t) \<Longrightarrow>
     row_to_scheduled ((task_to_row t)\<lparr>kr_created_at := kr_created_at r\<rparr>) = pq_column t"
  by (auto simp: pq_column_def row_to_scheduled_def task_to_row_def)

lemma pq_update_stored:
  assumes "k = sk_id t"
  shows "find (\<lambda>r. kr_id r = i) (map (\<lambda>r. if kr_id r = k then (task_to_row t)\<lparr>kr_created_at := kr_created_at r\<rparr> else r) rows) =
    (if i = k then map_option (\<lambda>r. (task_to_row t)\<lparr>kr_created_at := kr_created_at r\<rparr>) (find (\<lambda>r. kr_id r = k) rows)
     else find (\<lambda>r. kr_id r = i) rows)"
  by (rule find_map_key) (simp add: assms task_to_row_def)

interpretation pg_schedule: schedule_store postgres_schedule pq_stored pq_column pq_valid
proof unfold_locales
  fix s t s' r
  assume "pq_valid s" "so_save_task postgres_schedule t s = (s', r)"
  then show "pq_valid s' \<and> pq_stored s' = (if r = Inr () then (pq_stored s)(sk_id t \<mapsto> pq_column t) else pq_stored s) \<and>
      (r = Inr () \<longrightarrow> pq_stored s (sk_id t) = None)"
    unfolding postgres_schedule_def ScheduleStore.simps pq_save_task_def
    by (elim pq_query_cases) (auto simp: pq_valid_def pq_stored_def pq_column_def find_snoc_key[where k = "sk_id t"] row_kept
        find_key_None no_key fun_eq_iff split: if_splits)
next
  fix s t s' r
  assume s: "pq_valid s" "so_update_task postgres_schedule t s = (s', r)"
  then have up: "pq_query ''Failed to update scheduled task: '' (\<lambda>s.
     if \<exists>r \<in> set (pq_tasks s). kr_id r = sk_id t
     then (s\<lparr>pq_tasks := map (\<lambda>r. if kr_id r = sk_id t
         then (task_to_row t)\<lparr>kr_created_at := kr_created_at r\<rparr> else r) (pq_tasks s)\<rparr>, Inr ())
     else (s, Inl (TaskError (''Scheduled task '' @ sk_id t @ '' not found for update'')))) s = (s', r)"
    by (simp add: postgres_schedule_def pq_update_task_def)
  have ids: "map kr_id (map (\<lambda>r. if kr_id r = sk_id t then (task_to_row t)\<lparr>kr_created_at := kr_created_at r\<rparr> else r) rows) =
      map kr_id rows" for rows
    by (auto simp: task_to_row_def)
  from up s(1) show "pq_valid s' \<and> (r = Inr () \<longrightarrow> pq_stored s (sk_id t) \<noteq> None) \<and>
      (\<forall>old. pq_stored s (sk_id t) = Some old \<longrightarrow> sk_created_at old = sk_created_at (pq_column t) \<longrightarrow>
         pq_stored s' = (if r = Inr () then (pq_stored s)(sk_id t \<mapsto> pq_column t) else pq_stored s)) \<and>
      (pq_stored s (sk_id t) = None \<longrightarrow> pq_stored s' = pq_stored s)"
  proof (cases rule: pq_query_cases)
    case (1 fs)
    show ?thesis
    proof (cases "\<exists>r \<in> set (pq_tasks s). kr_id r = sk_id t")
      case True
      with 1 have s': "r = Inr ()" "pq_tasks s' = map (\<lambda>r. if kr_id r = sk_id t
          then (task_to_row t)\<lparr>kr_created_at := kr_created_at r\<rparr> else r) (pq_tasks s)" by auto
      from True have "pq_stored s (sk_id t) \<noteq> None" by (auto simp: pq_stored_def find_None_iff)
      with s(1) show ?thesis
        by (auto simp: s' pq_valid_def row_kept_created ids pq_stored_def pq_update_stored[OF refl] fun_eq_iff pq_column_fields
            intro: row_created simp del: map_map)
    qed (use 1 s(1) in \<open>auto simp: pq_valid_def pq_stored_def find_None_iff\<close>)
  qed (auto simp: pq_valid_def pq_stored_def)
next
  fix s i s' r
  assume "pq_valid s" "so_delete_task postgres_schedule i s = (s', r)"
  then show "pq_valid s' \<and> pq_stored s' = (if r = Inr () then (pq_stored s)(i := None) else pq_stored s) \<and>
      (r = Inr () \<longrightarrow> pq_stored s i \<noteq> None)"
    unfolding postgres_schedule_def ScheduleStore.simps pq_delete_task_def
    by (elim pq_query_cases) (auto simp: pq_valid_def pq_stored_def find_filter_key find_None_iff distinct_map_filter fun_eq_iff
        split: if_splits)
next
  fix s enabled_only s' r
  assume s: "pq_valid s" "so_list_tasks postgres_schedule enabled_only s = (s', r)"
  let ?rows = "if enabled_only then filter kr_enabled (pq_tasks s) else pq_tasks s"
  let ?ts = "map row_to_scheduled (sort_key kr_created_at ?rows)"
  have "distinct (map kr_id ?rows)" using s(1) by (simp add: pq_valid_def distinct_map_filter)
  moreover have "distinct (map kr_id (sort_key kr_created_at ?rows)) = distinct (map kr_id ?rows)"
    by (rule mset_eq_imp_distinct_iff) simp
  ultimately have "distinct (map kr_id (sort_key kr_created_at ?rows))" by simp
  moreover have "map sk_id ?ts = map kr_id (sort_key kr_created_at ?rows)" by (simp add: row_to_scheduled_def)
  moreover have "t \<in> set ?ts \<and> sk_id t = i \<longleftrightarrow> pq_stored s i = Some t \<and> (enabled_only \<longrightarrow> sk_enabled t)" for t i
    using s(1) by (auto simp: pq_stored_def find_key_distinct pq_valid_def row_to_scheduled_def)
  moreover have ran: "(r = Inr ?ts \<or> (\<exists>e. r = Inl e)) \<and> pq_stored s' = pq_stored s \<and> pq_valid s' = pq_valid s"
    using s(2) unfolding postgres_schedule_def ScheduleStore.simps pq_list_tasks_def
    by (elim pq_query_cases) (auto simp: pq_valid_def pq_stored_def fun_eq_iff)
  ultimately show "pq_valid s' \<and> pq_stored s' = pq_stored s \<and>
      (\<forall>ts. r = Inr ts \<longrightarrow> distinct (map sk_id ts) \<and>
        (\<forall>i t. t \<in> set ts \<and> sk_id t = i \<longleftrightarrow> pq_stored s i = Some t \<and> (enabled_only \<longrightarrow> sk_enabled t)))"
    using ran s(1) by (auto simp only: sum.inject)
next
  fix s h s' r
  assume "pq_valid s" "so_save_execution postgres_schedule h s = (s', r)"
  then show "pq_valid s' \<and> pq_stored s' = pq_stored s"
    unfolding postgres_schedule_def ScheduleStore.simps pq_save_execution_def
    by (elim pq_query_cases) (auto simp: pq_valid_def pq_stored_def split: if_splits)
next
  fix s i n s' r
  assume "pq_valid s" "so_list_executions postgres_schedule i n s = (s', r)"
  then show "pq_valid s' \<and> pq_stored s' = pq_stored s"
    unfolding postgres_schedule_def ScheduleStore.simps pq_list_executions_def
    by (elim pq_query_cases) (auto simp: pq_valid_def pq_stored_def split: if_splits)
next
  fix s i t
  assume s: "pq_valid s" "pq_stored s i = Some t"
  then obtain r where r: "r \<in> set (pq_tasks s)" "kr_id r = i" "t = row_to_scheduled r"
    by (auto simp: pq_stored_def dest: find_SomeD)
  with s(1) have "task_to_row t = r" by (simp add: pq_valid_def)
  with r show "sk_id t = i \<and> pq_column t = t" by (simp add: pq_column_def) (simp add: row_to_scheduled_def)
qed (simp_all add: pq_column_fields)

interpretation pg_reliable: reliable_store postgres_schedule pq_stored pq_column pq_valid "\<lambda>s. pq_faults s = []"
  by unfold_locales (auto simp: postgres_schedule_def pq_save_task_def pq_update_task_def pq_delete_task_def pq_list_tasks_def
      pq_save_execution_def pq_list_executions_def pq_query_def pq_stored_def find_key_None dest: find_SomeD)

end
