(* ===== verification/Sched_Service.thy ===== *)
theory Sched_Service
  imports Sched_Store
begin

text \<open>
  The scheduler service (\<open>crates/uc-engine/src/scheduler/service.rs\<close>, built with the feature \<open>scheduler\<close>). The cron parser
  \<open>croner\<close>, the runtime \<open>tokio-cron-scheduler\<close>, the time-zone database and the rendering of instants are arguments, in one
  record with the store; the dispatcher and the lock provider, which the gateway binds later, are arguments of the
  operations that call them. Each reading of the clock that an operation makes has a name, and the readings are an
  argument. A registration that the code spawns as a task of its own is queued in the state and run by a step of its own.

  An operation is one task of the runtime. The code holds the lock of the registry for the part that changes it and writes
  the row of the job after the lock is released; the two parts are definitions of their own (\<open>commit_toggle\<close>, \<open>mark_locked\<close>,
  \<open>rearm_locked\<close>, and \<open>update_store\<close>), and an operation composes them as it runs when no other operation on the job comes
  in between. What can happen when one does is shown on the parts (\<open>Sched_Examples\<close>).
\<close>

section \<open>Third-party components\<close>

record Croner =
  cr_parse :: "string \<Rightarrow> (string, unit) result"
  cr_next :: "string \<Rightarrow> datetime \<Rightarrow> (string, datetime) result"

text \<open>A job of the runtime: its schedule, and the scheduled task its callback dispatches.\<close>

datatype RuntimeJob = CronJob string Uuid | OneShotJob int Uuid

record 'r JobScheduler =
  js_new :: "(string, 'r) result"
  js_make :: "RuntimeJob \<Rightarrow> (string, unit) result"
  js_add :: "RuntimeJob \<Rightarrow> 'r \<Rightarrow> 'r \<times> (string, Uuid) result"
  js_remove :: "Uuid \<Rightarrow> 'r \<Rightarrow> 'r \<times> (string, unit) result"
  js_start :: "'r \<Rightarrow> 'r \<times> (string, unit) result"
  js_shutdown :: "'r \<Rightarrow> 'r \<times> (string, unit) result"

record ('s, 'r) SchedulerEnv =
  se_store :: "'s ScheduleStore"
  se_croner :: Croner
  se_runtime :: "'r JobScheduler"
  se_parse_tz :: "string \<Rightarrow> Tz option"
  se_show :: "datetime \<Rightarrow> string"

datatype Reading =
    AtCall | AtWindow | AtStart | AtEnd | AtDefer | AtMark | AtRearm | AtRearmed | AtRegister | AtTick
  | AtRecovery | AtRefresh Uuid | AtMissed Uuid | AtRegisterOf Uuid

type_synonym clock = "Reading \<Rightarrow> datetime"

section \<open>The service\<close>

definition EXECUTION_HISTORY_RECOVERY_LIMIT :: int where
  "EXECUTION_HISTORY_RECOVERY_LIMIT = 50"

definition MAX_DISPATCH_RETRIES :: u32 where
  "MAX_DISPATCH_RETRIES = 3"

definition DISPATCH_RETRY_BASE_SECS :: u64 where
  "DISPATCH_RETRY_BASE_SECS = 60"

definition DISPATCH_RETRY_MAX_SECS :: u64 where
  "DISPATCH_RETRY_MAX_SECS = 900"

datatype DispatchSource = Scheduled | Manual

datatype DispatchOutcome = Succeeded | FailedRetryable | FailedObserved

record ('s, 'r) SchedulerService =
  sv_night_window :: "NightWindow option"
  sv_job_metadata :: "(Uuid \<times> ScheduledTask) list"
  sv_execution_history :: "ExecutionHistory list"
  sv_store :: 's
  sv_started :: bool
  sv_job_scheduler :: "'r option"
  sv_scheduler_job_ids :: "(Uuid \<times> Uuid) list"
  sv_spawned :: "ScheduledTask list"

definition SchedulerService_new :: "'s \<Rightarrow> ('s, 'r) SchedulerService" where
  "SchedulerService_new store =
     \<lparr>sv_night_window = None, sv_job_metadata = [], sv_execution_history = [], sv_store = store, sv_started = False,
      sv_job_scheduler = None, sv_scheduler_job_ids = [], sv_spawned = []\<rparr>"

fun NightWindowError_display :: "NightWindowError \<Rightarrow> string" where
  "NightWindowError_display (InvalidTimezone tz) = ''Invalid timezone: '' @ tz"
| "NightWindowError_display (AmbiguousTime t) = ''Ambiguous time (DST transition): '' @ t"

definition set_night_window ::
  "('s, 'r) SchedulerEnv \<Rightarrow> NightWindowConfig \<Rightarrow> ('s, 'r) SchedulerService \<Rightarrow> ('s, 'r) SchedulerService \<times> (EngineError, unit) result" where
  "set_night_window env config sv = (case from_config (se_parse_tz env) config of
     Inl e \<Rightarrow> (sv, Inl (ConfigError (''Invalid night window config: '' @ NightWindowError_display e)))
   | Inr window \<Rightarrow> (sv\<lparr>sv_night_window := Some window\<rparr>, Inr ()))"

definition clear_night_window :: "('s, 'r) SchedulerService \<Rightarrow> ('s, 'r) SchedulerService" where
  "clear_night_window sv = sv\<lparr>sv_night_window := None\<rparr>"

section \<open>When a task is due\<close>

fun split_words :: "string \<Rightarrow> string \<Rightarrow> string list" where
  "split_words [] w = (if w = [] then [] else [rev w])"
| "split_words (c # cs) w =
     (if is_whitespace c then (if w = [] then split_words cs [] else rev w # split_words cs [])
      else split_words cs (c # w))"

definition split_whitespace :: "string \<Rightarrow> string list" where
  "split_whitespace s = split_words s []"

definition cron_to_6field :: "string \<Rightarrow> string" where
  "cron_to_6field expr = (if length (split_whitespace expr) = 5 then ''0 '' @ expr else expr)"

definition next_cron_execution ::
  "('s, 'r) SchedulerEnv \<Rightarrow> string \<Rightarrow> datetime \<Rightarrow> (EngineError, datetime) result" where
  "next_cron_execution env cron_expression after =
     (case cr_parse (se_croner env) (cron_to_6field cron_expression) of
        Inl e \<Rightarrow> Inl (ConfigError (''Invalid cron expression '' @ CHR 0x27 # cron_expression @ CHR 0x27 # '': '' @ e))
      | Inr _ \<Rightarrow>
          (case cr_next (se_croner env) (cron_to_6field cron_expression) after of
             Inl e \<Rightarrow> Inl (ConfigError (''Unable to calculate next execution for cron '' @ CHR 0x27 # cron_expression @ CHR 0x27 # '': '' @ e))
           | Inr t \<Rightarrow> Inr t))"

definition later_than :: "datetime \<Rightarrow> datetime option \<Rightarrow> datetime option" where
  "later_than after t = (case t of None \<Rightarrow> None | Some u \<Rightarrow> if after < u then Some u else None)"

definition one_shot_attempt_at :: "ScheduledTask \<Rightarrow> datetime \<Rightarrow> datetime option" where
  "one_shot_attempt_at task after = (case later_than after (sk_next_execution task) of
     Some t \<Rightarrow> Some t
   | None \<Rightarrow> later_than after (sk_execute_after task))"

definition next_execution_for_task ::
  "('s, 'r) SchedulerEnv \<Rightarrow> ScheduledTask \<Rightarrow> datetime \<Rightarrow> (EngineError, datetime option) result" where
  "next_execution_for_task env task after = (case sk_cron_expression task of
     Some cron_expression \<Rightarrow> map_sum id Some (next_cron_execution env cron_expression after)
   | None \<Rightarrow> Inr (one_shot_attempt_at task after))"

definition one_shot_duration :: "datetime \<Rightarrow> datetime \<Rightarrow> int option" where
  "one_shot_duration execute_after now = (let duration = execute_after - now in if duration \<le> 0 then None else Some duration)"

definition retry_delay_for :: "u32 \<Rightarrow> int" where
  "retry_delay_for attempt =
     (let shift = unat (saturating_sub attempt 1);
          factor = (if shift < 64 then push_bit shift (1 :: u64) else - 1);
          seconds = min (saturating_mul DISPATCH_RETRY_BASE_SECS factor) DISPATCH_RETRY_MAX_SECS
      in uint seconds * 1000000000)"

section \<open>The runtime registration\<close>

definition register_cron_with_scheduler ::
  "('s, 'r) SchedulerEnv \<Rightarrow> ScheduledTask \<Rightarrow> 'r \<Rightarrow> 'r \<times> (EngineError, Uuid) result" where
  "register_cron_with_scheduler env task scheduler = (case sk_cron_expression task of
     None \<Rightarrow> (scheduler, Inl (ConfigError ''Cron expression missing''))
   | Some cron_expr \<Rightarrow>
       (let job = CronJob (cron_to_6field cron_expr) (sk_id task) in
        case js_make (se_runtime env) job of
          Inl e \<Rightarrow> (scheduler, Inl (InternalError (''Failed to create cron job: '' @ e)))
        | Inr _ \<Rightarrow>
            (case js_add (se_runtime env) job scheduler of
               (scheduler, Inl e) \<Rightarrow> (scheduler, Inl (InternalError (''Failed to add cron job to scheduler: '' @ e)))
             | (scheduler, Inr u) \<Rightarrow> (scheduler, Inr u))))"

definition register_one_shot_with_scheduler ::
  "('s, 'r) SchedulerEnv \<Rightarrow> datetime \<Rightarrow> ScheduledTask \<Rightarrow> 'r \<Rightarrow> 'r \<times> (EngineError, Uuid option) result" where
  "register_one_shot_with_scheduler env now task scheduler =
     (if sk_execute_after task = None then (scheduler, Inl (ConfigError ''execute_after missing''))
      else case one_shot_attempt_at task now of
        None \<Rightarrow> (scheduler, Inr None)
      | Some attempt_at \<Rightarrow>
          (case one_shot_duration attempt_at now of
             None \<Rightarrow> (scheduler, Inr None)
           | Some duration \<Rightarrow>
               (let job = OneShotJob duration (sk_id task) in
                case js_make (se_runtime env) job of
                  Inl e \<Rightarrow> (scheduler, Inl (InternalError (''Failed to create one-shot job: '' @ e)))
                | Inr _ \<Rightarrow>
                    (case js_add (se_runtime env) job scheduler of
                       (scheduler, Inl e) \<Rightarrow> (scheduler, Inl (InternalError (''Failed to add one-shot job to scheduler: '' @ e)))
                     | (scheduler, Inr u) \<Rightarrow> (scheduler, Inr (Some u))))))"

definition register_runtime_job ::
  "('s, 'r) SchedulerEnv \<Rightarrow> datetime \<Rightarrow> ScheduledTask \<Rightarrow> 'r \<Rightarrow> 'r \<times> (EngineError, Uuid option) result" where
  "register_runtime_job env now task scheduler =
     (if sk_cron_expression task \<noteq> None
      then (case register_cron_with_scheduler env task scheduler of (scheduler, r) \<Rightarrow> (scheduler, map_sum id Some r))
      else if sk_execute_after task \<noteq> None then register_one_shot_with_scheduler env now task scheduler
      else (scheduler, Inr None))"

definition forget_scheduler_job_id :: "Uuid \<Rightarrow> ('s, 'r) SchedulerService \<Rightarrow> ('s, 'r) SchedulerService" where
  "forget_scheduler_job_id task_id sv = sv\<lparr>sv_scheduler_job_ids := AList.delete task_id (sv_scheduler_job_ids sv)\<rparr>"

definition unregister_runtime_job ::
  "('s, 'r) SchedulerEnv \<Rightarrow> Uuid \<Rightarrow> ('s, 'r) SchedulerService \<Rightarrow> ('s, 'r) SchedulerService" where
  "unregister_runtime_job env task_id sv =
     forget_scheduler_job_id task_id
       (case (sv_job_scheduler sv, map_of (sv_scheduler_job_ids sv) task_id) of
          (Some scheduler, Some scheduler_job_id) \<Rightarrow>
            sv\<lparr>sv_job_scheduler := Some (fst (js_remove (se_runtime env) scheduler_job_id scheduler))\<rparr>
        | _ \<Rightarrow> sv)"

section \<open>Adding and removing jobs\<close>

definition insert_metadata :: "ScheduledTask \<Rightarrow> ('s, 'r) SchedulerService \<Rightarrow> ('s, 'r) SchedulerService" where
  "insert_metadata task sv = sv\<lparr>sv_job_metadata := AList.update (sk_id task) task (sv_job_metadata sv)\<rparr>"

text \<open>The registration of a new job, where the runtime runs and the job is enabled.\<close>

definition register_new ::
  "(ScheduledTask \<Rightarrow> 'r \<Rightarrow> 'r \<times> (EngineError, Uuid option) result) \<Rightarrow> ScheduledTask \<Rightarrow> ('s, 'r) SchedulerService \<Rightarrow>
     ('s, 'r) SchedulerService \<times> (EngineError, unit) result" where
  "register_new register task sv =
     (if \<not> sk_enabled task then (sv, Inr ())
      else case sv_job_scheduler sv of
        None \<Rightarrow> (sv, Inr ())
      | Some scheduler \<Rightarrow>
          (case register task scheduler of
             (scheduler, Inl e) \<Rightarrow> (sv\<lparr>sv_job_scheduler := Some scheduler\<rparr>, Inl e)
           | (scheduler, Inr None) \<Rightarrow> (sv\<lparr>sv_job_scheduler := Some scheduler\<rparr>, Inr ())
           | (scheduler, Inr (Some u)) \<Rightarrow> (sv\<lparr>sv_job_scheduler := Some scheduler,
               sv_scheduler_job_ids := AList.update (sk_id task) u (sv_scheduler_job_ids sv)\<rparr>, Inr ())))"

definition persist_and_register ::
  "('s, 'r) SchedulerEnv \<Rightarrow> (ScheduledTask \<Rightarrow> 'r \<Rightarrow> 'r \<times> (EngineError, Uuid option) result) \<Rightarrow> ScheduledTask \<Rightarrow>
     ('s, 'r) SchedulerService \<Rightarrow> ('s, 'r) SchedulerService \<times> (EngineError, Uuid) result" where
  "persist_and_register env register task sv =
     (case so_save_task (se_store env) task (sv_store sv) of
        (s, Inl e) \<Rightarrow> (sv\<lparr>sv_store := s\<rparr>, Inl e)
      | (s, Inr _) \<Rightarrow>
          (case register_new register task (sv\<lparr>sv_store := s\<rparr>) of
             (sv, Inl e) \<Rightarrow> (sv, Inl e)
           | (sv, Inr _) \<Rightarrow> (insert_metadata task sv, Inr (sk_id task))))"

definition add_cron_job ::
  "('s, 'r) SchedulerEnv \<Rightarrow> clock \<Rightarrow> ScheduledTask \<Rightarrow> ('s, 'r) SchedulerService \<Rightarrow>
     ('s, 'r) SchedulerService \<times> (EngineError, Uuid) result" where
  "add_cron_job env clk task sv = (case sk_cron_expression task of
     None \<Rightarrow> (sv, Inl (ConfigError ''Cron expression required for cron job''))
   | Some cron_expr \<Rightarrow>
       (case cr_parse (se_croner env) cron_expr of
          Inl e \<Rightarrow> (sv, Inl (ConfigError (''Invalid cron expression '' @ CHR 0x27 # cron_expr @ CHR 0x27 # '': '' @ e)))
        | Inr _ \<Rightarrow>
            (case next_execution_for_task env task (clk AtCall) of
               Inl e \<Rightarrow> (sv, Inl e)
             | Inr next \<Rightarrow>
                 persist_and_register env
                   (\<lambda>task scheduler. case register_cron_with_scheduler env task scheduler of
                      (scheduler, r) \<Rightarrow> (scheduler, map_sum id Some r))
                   (task\<lparr>sk_next_execution := next\<rparr>) sv)))"

definition add_one_shot_job ::
  "('s, 'r) SchedulerEnv \<Rightarrow> clock \<Rightarrow> ScheduledTask \<Rightarrow> ('s, 'r) SchedulerService \<Rightarrow>
     ('s, 'r) SchedulerService \<times> (EngineError, Uuid) result" where
  "add_one_shot_job env clk task sv = (case sk_execute_after task of
     None \<Rightarrow> (sv, Inl (ConfigError ''execute_after required for one-shot job''))
   | Some execute_after \<Rightarrow>
       persist_and_register env (register_one_shot_with_scheduler env (clk AtRegister))
         (task\<lparr>sk_next_execution := later_than (clk AtCall) (Some execute_after)\<rparr>) sv)"

definition remove_job ::
  "('s, 'r) SchedulerEnv \<Rightarrow> Uuid \<Rightarrow> ('s, 'r) SchedulerService \<Rightarrow> ('s, 'r) SchedulerService \<times> (EngineError, unit) result" where
  "remove_job env task_id sv = (case so_delete_task (se_store env) task_id (sv_store sv) of
     (s, Inl e) \<Rightarrow> (sv\<lparr>sv_store := s\<rparr>, Inl e)
   | (s, Inr _) \<Rightarrow>
       (unregister_runtime_job env task_id
          (sv\<lparr>sv_store := s, sv_job_metadata := AList.delete task_id (sv_job_metadata sv)\<rparr>), Inr ()))"

section \<open>Pausing and resuming\<close>

definition update_store :: "('s, 'r) SchedulerEnv \<Rightarrow> ScheduledTask \<Rightarrow> ('s, 'r) SchedulerService \<Rightarrow> ('s, 'r) SchedulerService" where
  "update_store env task sv = sv\<lparr>sv_store := fst (so_update_task (se_store env) task (sv_store sv))\<rparr>"

definition replace_metadata :: "Uuid \<Rightarrow> ScheduledTask \<Rightarrow> ('s, 'r) SchedulerService \<Rightarrow> ('s, 'r) SchedulerService" where
  "replace_metadata task_id task sv = (case map_of (sv_job_metadata sv) task_id of
     None \<Rightarrow> sv
   | Some _ \<Rightarrow> sv\<lparr>sv_job_metadata := AList.update task_id task (sv_job_metadata sv)\<rparr>)"

definition toggle_candidate :: "('s, 'r) SchedulerEnv \<Rightarrow> clock \<Rightarrow> bool \<Rightarrow> ScheduledTask \<Rightarrow> ScheduledTask" where
  "toggle_candidate env clk enabled current =
     (let candidate = current\<lparr>sk_enabled := enabled\<rparr>;
          next = (if enabled then (case next_execution_for_task env candidate (clk AtCall) of Inr n \<Rightarrow> n | Inl _ \<Rightarrow> None)
                  else None)
      in candidate\<lparr>sk_next_execution := next, sk_updated_at := clk AtMark\<rparr>)"

definition toggle_runtime ::
  "('s, 'r) SchedulerEnv \<Rightarrow> clock \<Rightarrow> bool \<Rightarrow> ScheduledTask \<Rightarrow> ('s, 'r) SchedulerService \<Rightarrow>
     ('s, 'r) SchedulerService \<times> (EngineError, unit) result" where
  "toggle_runtime env clk enabled candidate sv =
     (if enabled then register_new (register_runtime_job env (clk AtRegister)) candidate sv
      else (unregister_runtime_job env (sk_id candidate) sv, Inr ()))"

text \<open>
  The operation up to the release of the registry's lock: a result to return at once, or the candidate whose row is still to
  be written.
\<close>

definition commit_toggle ::
  "('s, 'r) SchedulerEnv \<Rightarrow> clock \<Rightarrow> Uuid \<Rightarrow> bool \<Rightarrow> ('s, 'r) SchedulerService \<Rightarrow>
     ('s, 'r) SchedulerService \<times> ((EngineError, ScheduledTask) result + ScheduledTask)" where
  "commit_toggle env clk task_id enabled sv = (case map_of (sv_job_metadata sv) task_id of
     None \<Rightarrow> (sv, Inl (Inl (TaskError (''Scheduled task not found: '' @ task_id))))
   | Some current \<Rightarrow>
       if sk_enabled current = enabled then (sv, Inl (Inr current))
       else
         (let candidate = toggle_candidate env clk enabled current in
          case toggle_runtime env clk enabled candidate sv of
            (sv, Inl e) \<Rightarrow> (sv, Inl (Inl e))
          | (sv, Inr _) \<Rightarrow> (replace_metadata task_id candidate sv, Inr candidate)))"

definition set_job_enabled ::
  "('s, 'r) SchedulerEnv \<Rightarrow> clock \<Rightarrow> Uuid \<Rightarrow> bool \<Rightarrow> ('s, 'r) SchedulerService \<Rightarrow>
     ('s, 'r) SchedulerService \<times> (EngineError, ScheduledTask) result" where
  "set_job_enabled env clk task_id enabled sv = (case commit_toggle env clk task_id enabled sv of
     (sv, Inl result) \<Rightarrow> (sv, result)
   | (sv, Inr candidate) \<Rightarrow> (update_store env candidate sv, Inr candidate))"

section \<open>Reading the registry\<close>

definition list_jobs :: "('s, 'r) SchedulerService \<Rightarrow> ScheduledTask list" where
  "list_jobs sv = sort_key (\<lambda>t. (sk_created_at t, sk_id t)) (map snd (sv_job_metadata sv))"

definition get_job :: "Uuid \<Rightarrow> ('s, 'r) SchedulerService \<Rightarrow> ScheduledTask option" where
  "get_job task_id sv = map_of (sv_job_metadata sv) task_id"

definition get_night_window_config :: "('s, 'r) SchedulerService \<Rightarrow> NightWindowConfig option" where
  "get_night_window_config sv =
     map_option (\<lambda>w. NightWindowConfig_new (nw_start w) (nw_end w) (tz_name (nw_tz w))) (sv_night_window sv)"

definition get_execution_history :: "Uuid option \<Rightarrow> ('s, 'r) SchedulerService \<Rightarrow> ExecutionHistory list" where
  "get_execution_history task_id sv = (case task_id of
     Some i \<Rightarrow> filter (\<lambda>h. xh_scheduled_task_id h = i) (sv_execution_history sv)
   | None \<Rightarrow> sv_execution_history sv)"

section \<open>The guard of the window\<close>

definition next_window_opening :: "datetime \<Rightarrow> ('s, 'r) SchedulerService \<Rightarrow> datetime option" where
  "next_window_opening now sv = (case sv_night_window sv of
     None \<Rightarrow> None
   | Some window \<Rightarrow>
       (let t = \<lparr>zt_instant = now, zt_zone = nw_tz window\<rparr>
        in if is_within_window window t then None else Some (zt_instant (next_window_start window t))))"

definition outside_window_error :: "('s, 'r) SchedulerEnv \<Rightarrow> datetime \<Rightarrow> EngineError" where
  "outside_window_error env next_start = TaskError (''Outside night window. Next window starts at '' @ se_show env next_start)"

definition check_night_window ::
  "('s, 'r) SchedulerEnv \<Rightarrow> datetime \<Rightarrow> ('s, 'r) SchedulerService \<Rightarrow> (EngineError, unit) result" where
  "check_night_window env now sv = (case next_window_opening now sv of
     None \<Rightarrow> Inr ()
   | Some next_start \<Rightarrow> Inl (outside_window_error env next_start))"

section \<open>Dispatching\<close>

definition record_execution ::
  "('s, 'r) SchedulerEnv \<Rightarrow> ExecutionHistory \<Rightarrow> ('s, 'r) SchedulerService \<Rightarrow> ('s, 'r) SchedulerService" where
  "record_execution env history sv =
     sv\<lparr>sv_store := fst (so_save_execution (se_store env) history (sv_store sv)),
        sv_execution_history := sv_execution_history sv @ [history]\<rparr>"

definition marked ::
  "('s, 'r) SchedulerEnv \<Rightarrow> clock \<Rightarrow> datetime \<Rightarrow> DispatchOutcome \<Rightarrow> ScheduledTask \<Rightarrow> ScheduledTask" where
  "marked env clk started_at outcome task =
     (let in_order = (case sk_last_execution task of None \<Rightarrow> True | Some previous \<Rightarrow> previous \<le> started_at);
          task = (if \<not> in_order then task
            else let t = task\<lparr>sk_last_execution := Some started_at,
                   sk_dispatch_attempts := (case outcome of
                       Succeeded \<Rightarrow> 0
                     | FailedRetryable \<Rightarrow> saturating_add (sk_dispatch_attempts task) 1
                     | FailedObserved \<Rightarrow> sk_dispatch_attempts task)\<rparr>;
                 next = (case next_execution_for_task env t started_at of Inr n \<Rightarrow> n | Inl _ \<Rightarrow> None)
               in t\<lparr>sk_next_execution := if sk_enabled t then next else None\<rparr>)
      in task\<lparr>sk_updated_at := clk AtMark\<rparr>)"

text \<open>What \<open>mark_execution_started\<close> does under the lock of the registry; the row is written after it is released.\<close>

definition mark_locked ::
  "('s, 'r) SchedulerEnv \<Rightarrow> clock \<Rightarrow> Uuid \<Rightarrow> datetime \<Rightarrow> DispatchOutcome \<Rightarrow> ('s, 'r) SchedulerService \<Rightarrow>
     ('s, 'r) SchedulerService \<times> ScheduledTask option" where
  "mark_locked env clk task_id started_at outcome sv = (case map_of (sv_job_metadata sv) task_id of
     None \<Rightarrow> (sv, None)
   | Some task \<Rightarrow>
       (let task = marked env clk started_at outcome task
        in (sv\<lparr>sv_job_metadata := AList.update task_id task (sv_job_metadata sv)\<rparr>, Some task)))"

definition mark_execution_started ::
  "('s, 'r) SchedulerEnv \<Rightarrow> clock \<Rightarrow> Uuid \<Rightarrow> datetime \<Rightarrow> DispatchOutcome \<Rightarrow> ('s, 'r) SchedulerService \<Rightarrow>
     ('s, 'r) SchedulerService \<times> u32" where
  "mark_execution_started env clk task_id started_at outcome sv = (case mark_locked env clk task_id started_at outcome sv of
     (sv, None) \<Rightarrow> (sv, 0)
   | (sv, Some task) \<Rightarrow> (update_store env task sv, sk_dispatch_attempts task))"

definition rearmed :: "clock \<Rightarrow> datetime \<Rightarrow> ScheduledTask \<Rightarrow> ScheduledTask" where
  "rearmed clk when task =
     (let target = (case one_shot_attempt_at task (clk AtRearm) of
            Some owed \<Rightarrow> if when < owed then owed else when
          | None \<Rightarrow> when)
      in task\<lparr>sk_next_execution := Some target, sk_updated_at := clk AtRearmed\<rparr>)"

definition rearm_locked ::
  "clock \<Rightarrow> Uuid \<Rightarrow> datetime \<Rightarrow> ('s, 'r) SchedulerService \<Rightarrow> ('s, 'r) SchedulerService \<times> ScheduledTask option" where
  "rearm_locked clk task_id when sv = (case map_of (sv_job_metadata sv) task_id of
     None \<Rightarrow> (sv, None)
   | Some task \<Rightarrow>
       if sk_cron_expression task \<noteq> None \<or> sk_execute_after task = None then (sv, None)
       else
         (let task = rearmed clk when task
          in (sv\<lparr>sv_job_metadata := AList.update task_id task (sv_job_metadata sv)\<rparr>, Some task)))"

definition rearm_one_shot_at ::
  "('s, 'r) SchedulerEnv \<Rightarrow> clock \<Rightarrow> Uuid \<Rightarrow> datetime \<Rightarrow> ('s, 'r) SchedulerService \<Rightarrow> ('s, 'r) SchedulerService" where
  "rearm_one_shot_at env clk task_id when sv = (case rearm_locked clk task_id when sv of
     (sv, None) \<Rightarrow> sv
   | (sv, Some task) \<Rightarrow> (let sv = update_store env task sv in sv\<lparr>sv_spawned := sv_spawned sv @ [task]\<rparr>))"

definition skip_summary :: "('s, 'r) SchedulerEnv \<Rightarrow> EngineError \<Rightarrow> u32 \<Rightarrow> datetime option \<Rightarrow> bool \<Rightarrow> string" where
  "skip_summary env e attempts retry_at spends_budget =
     ''Dispatch skipped (no worker): '' @ EngineError_display e @
     (case (retry_at, spends_budget) of
        (Some t, True) \<Rightarrow> ''; retry '' @ show_word attempts @ '' of '' @ show_word MAX_DISPATCH_RETRIES @ '' at '' @ se_show env t
      | (None, True) \<Rightarrow> ''; retries exhausted after '' @ show_word attempts @ '' attempts''
      | _ \<Rightarrow> [])"

definition dispatch_failed ::
  "('s, 'r) SchedulerEnv \<Rightarrow> clock \<Rightarrow> Uuid \<Rightarrow> Uuid \<Rightarrow> bool \<Rightarrow> EngineError \<Rightarrow> ('s, 'r) SchedulerService \<Rightarrow> ('s, 'r) SchedulerService" where
  "dispatch_failed env clk new_id task_id spends_budget e sv =
     (case mark_execution_started env clk task_id (clk AtStart) (if spends_budget then FailedRetryable else FailedObserved) sv of
        (sv, attempts) \<Rightarrow>
          (let retry_at = (if spends_budget \<and> attempts \<le> MAX_DISPATCH_RETRIES then Some (clk AtStart + retry_delay_for attempts)
                 else None);
               sv = record_execution env \<lparr>xh_id = new_id, xh_scheduled_task_id = task_id, xh_started_at = clk AtStart,
                 xh_completed_at = Some (clk AtEnd), xh_status = Skipped,
                 xh_result_summary = Some (skip_summary env e attempts retry_at spends_budget), xh_deferred_reason = None\<rparr> sv
           in case retry_at of None \<Rightarrow> sv | Some t \<Rightarrow> rearm_one_shot_at env clk task_id t sv))"

definition dispatch_with_guard_from ::
  "('s, 'r) SchedulerEnv \<Rightarrow> (ScheduledTask \<Rightarrow> (EngineError, unit) result) \<Rightarrow> clock \<Rightarrow> Uuid \<Rightarrow> Uuid \<Rightarrow> DispatchSource \<Rightarrow>
     ('s, 'r) SchedulerService \<Rightarrow> ('s, 'r) SchedulerService \<times> (EngineError, unit) result" where
  "dispatch_with_guard_from env dispatch clk new_id task_id source sv = (case map_of (sv_job_metadata sv) task_id of
     None \<Rightarrow> (sv, Inl (TaskError (''Job '' @ task_id @ '' not found'')))
   | Some task \<Rightarrow>
       (case next_window_opening (clk AtWindow) sv of
          None \<Rightarrow>
            (case dispatch task of
               Inr _ \<Rightarrow>
                 (record_execution env \<lparr>xh_id = new_id, xh_scheduled_task_id = task_id, xh_started_at = clk AtStart,
                    xh_completed_at = Some (clk AtEnd), xh_status = ExecutionStatus.Completed,
                    xh_result_summary = Some ''Task dispatched successfully'', xh_deferred_reason = None\<rparr>
                    (fst (mark_execution_started env clk task_id (clk AtStart) Succeeded sv)), Inr ())
             | Inl e \<Rightarrow>
                 (dispatch_failed env clk new_id task_id (source = Scheduled \<and> is_one_shot task) e sv, Inl e))
        | Some next_start \<Rightarrow>
            (let reason = outside_window_error env next_start;
                 sv = record_execution env (ExecutionHistory_deferred new_id (clk AtDefer) task_id (EngineError_display reason)) sv
             in (if source = Scheduled then rearm_one_shot_at env clk task_id next_start sv else sv, Inl reason))))"

definition dispatch_with_guard ::
  "('s, 'r) SchedulerEnv \<Rightarrow> (ScheduledTask \<Rightarrow> (EngineError, unit) result) \<Rightarrow> clock \<Rightarrow> Uuid \<Rightarrow> Uuid \<Rightarrow>
     ('s, 'r) SchedulerService \<Rightarrow> ('s, 'r) SchedulerService \<times> (EngineError, unit) result" where
  "dispatch_with_guard env dispatch clk new_id task_id sv = dispatch_with_guard_from env dispatch clk new_id task_id Scheduled sv"

text \<open>The dispatcher that only logs, and the lock provider of a single instance.\<close>

definition LoggingDispatcher :: "ScheduledTask \<Rightarrow> (EngineError, unit) result" where
  "LoggingDispatcher task = Inr ()"

definition NoOpLockProvider :: "string \<Rightarrow> int \<Rightarrow> bool" where
  "NoOpLockProvider key ttl = True"

section \<open>The callbacks of the runtime\<close>

definition lock_key :: "Uuid \<Rightarrow> datetime \<Rightarrow> string" where
  "lock_key task_id now = ''scheduler:'' @ task_id @ '':'' @ show_int (now div 1000000000)"

definition lock_ttl :: int where
  "lock_ttl = 30 * 1000000000"

definition cron_callback ::
  "('s, 'r) SchedulerEnv \<Rightarrow> (ScheduledTask \<Rightarrow> (EngineError, unit) result) \<Rightarrow> (string \<Rightarrow> int \<Rightarrow> bool) \<Rightarrow> clock \<Rightarrow> Uuid \<Rightarrow> Uuid \<Rightarrow>
     ('s, 'r) SchedulerService \<Rightarrow> ('s, 'r) SchedulerService" where
  "cron_callback env dispatch try_acquire clk new_id task_id sv =
     (if \<not> try_acquire (lock_key task_id (clk AtTick)) lock_ttl then sv
      else fst (dispatch_with_guard env dispatch clk new_id task_id sv))"

definition one_shot_callback ::
  "('s, 'r) SchedulerEnv \<Rightarrow> (ScheduledTask \<Rightarrow> (EngineError, unit) result) \<Rightarrow> (string \<Rightarrow> int \<Rightarrow> bool) \<Rightarrow> clock \<Rightarrow> Uuid \<Rightarrow> Uuid \<Rightarrow>
     ('s, 'r) SchedulerService \<Rightarrow> ('s, 'r) SchedulerService" where
  "one_shot_callback env dispatch try_acquire clk new_id task_id sv =
     (let sv = forget_scheduler_job_id task_id sv in
      if \<not> try_acquire (lock_key task_id (clk AtTick)) lock_ttl then sv
      else fst (dispatch_with_guard env dispatch clk new_id task_id sv))"

definition rearm_registration_task ::
  "('s, 'r) SchedulerEnv \<Rightarrow> clock \<Rightarrow> ScheduledTask \<Rightarrow> ('s, 'r) SchedulerService \<Rightarrow> ('s, 'r) SchedulerService" where
  "rearm_registration_task env clk task sv = (case sv_job_scheduler sv of
     None \<Rightarrow> sv
   | Some scheduler \<Rightarrow>
       (case register_one_shot_with_scheduler env (clk AtRegister) task scheduler of
          (scheduler, Inr (Some scheduler_job_id)) \<Rightarrow>
            (let scheduler = (case map_of (sv_scheduler_job_ids sv) (sk_id task) of
                   None \<Rightarrow> scheduler
                 | Some previous \<Rightarrow> fst (js_remove (se_runtime env) previous scheduler))
             in sv\<lparr>sv_job_scheduler := Some scheduler,
                   sv_scheduler_job_ids := AList.update (sk_id task) scheduler_job_id (sv_scheduler_job_ids sv)\<rparr>)
        | (scheduler, _) \<Rightarrow> sv\<lparr>sv_job_scheduler := Some scheduler\<rparr>))"

section \<open>Starting and stopping\<close>

fun collect_executions ::
  "('s, 'r) SchedulerEnv \<Rightarrow> ScheduledTask list \<Rightarrow> 's \<Rightarrow> ExecutionHistory list \<Rightarrow> 's \<times> ExecutionHistory list" where
  "collect_executions env [] s acc = (s, acc)"
| "collect_executions env (task # tasks) s acc =
     (case so_list_executions (se_store env) (sk_id task) EXECUTION_HISTORY_RECOVERY_LIMIT s of
        (s, Inr history) \<Rightarrow> collect_executions env tasks s (acc @ history)
      | (s, Inl _) \<Rightarrow> collect_executions env tasks s acc)"

definition recover_execution_history ::
  "('s, 'r) SchedulerEnv \<Rightarrow> ScheduledTask list \<Rightarrow> ('s, 'r) SchedulerService \<Rightarrow> ('s, 'r) SchedulerService" where
  "recover_execution_history env tasks sv = (case collect_executions env tasks (sv_store sv) [] of
     (s, history) \<Rightarrow>
       (let sorted = sort_key (\<lambda>h. (xh_started_at h, xh_id h)) history
        in sv\<lparr>sv_store := s, sv_execution_history := drop (length sorted - nat EXECUTION_HISTORY_RECOVERY_LIMIT) sorted\<rparr>))"

definition insert_execution_history_ordered ::
  "('s, 'r) SchedulerEnv \<Rightarrow> ExecutionHistory \<Rightarrow> ('s, 'r) SchedulerService \<Rightarrow> ('s, 'r) SchedulerService" where
  "insert_execution_history_ordered env history sv =
     (let before = (\<lambda>entry. xh_started_at entry \<le> xh_started_at history);
          cache = sv_execution_history sv
      in sv\<lparr>sv_store := fst (so_save_execution (se_store env) history (sv_store sv)),
            sv_execution_history := takeWhile before cache @ history # dropWhile before cache\<rparr>)"

definition missed_entry :: "('s, 'r) SchedulerEnv \<Rightarrow> Uuid \<Rightarrow> Uuid \<Rightarrow> datetime \<Rightarrow> ExecutionHistory" where
  "missed_entry env new_id task_id execute_after =
     \<lparr>xh_id = new_id, xh_scheduled_task_id = task_id, xh_started_at = execute_after, xh_completed_at = None,
      xh_status = Skipped,
      xh_result_summary = Some (''Missed: execute_after '' @ se_show env execute_after @ '' passed while the gateway scheduler was not running''),
      xh_deferred_reason = None\<rparr>"

definition proves_attempt :: "datetime \<Rightarrow> ExecutionHistory \<Rightarrow> bool" where
  "proves_attempt execute_after entry \<longleftrightarrow> execute_after \<le> xh_started_at entry \<and> xh_status entry \<noteq> Deferred"

definition record_missed_one_shot ::
  "('s, 'r) SchedulerEnv \<Rightarrow> clock \<Rightarrow> (Uuid \<Rightarrow> Uuid) \<Rightarrow> ScheduledTask \<Rightarrow> ('s, 'r) SchedulerService \<Rightarrow> ('s, 'r) SchedulerService" where
  "record_missed_one_shot env clk new_id task sv = (case sk_execute_after task of
     None \<Rightarrow> sv
   | Some execute_after \<Rightarrow>
       if sk_cron_expression task \<noteq> None then sv
       else if one_shot_attempt_at task (clk (AtMissed (sk_id task))) \<noteq> None then sv
       else if (case sk_last_execution task of None \<Rightarrow> False | Some previous \<Rightarrow> execute_after \<le> previous) then sv
       else
         (case so_list_executions (se_store env) (sk_id task) 1 (sv_store sv) of
            (s, Inl _) \<Rightarrow> sv\<lparr>sv_store := s\<rparr>
          | (s, Inr newest) \<Rightarrow>
              (let sv = sv\<lparr>sv_store := s\<rparr> in
               if \<exists>entry \<in> set newest. proves_attempt execute_after entry then sv
               else insert_execution_history_ordered env (missed_entry env (new_id (sk_id task)) (sk_id task) execute_after) sv)))"

definition refresh_task :: "('s, 'r) SchedulerEnv \<Rightarrow> clock \<Rightarrow> ScheduledTask \<Rightarrow> ScheduledTask \<times> bool" where
  "refresh_task env clk task =
     (case (if sk_enabled task then next_execution_for_task env task (clk AtRecovery) else Inr None) of
        Inr next_execution \<Rightarrow>
          if next_execution \<noteq> sk_next_execution task
          then (task\<lparr>sk_next_execution := next_execution, sk_updated_at := clk (AtRefresh (sk_id task))\<rparr>, True)
          else (task, False)
      | Inl _ \<Rightarrow> (task, False))"

definition recover_task ::
  "('s, 'r) SchedulerEnv \<Rightarrow> clock \<Rightarrow> (Uuid \<Rightarrow> Uuid) \<Rightarrow> ScheduledTask \<Rightarrow> ('s, 'r) SchedulerService \<Rightarrow>
     ('s, 'r) SchedulerService \<times> ScheduledTask" where
  "recover_task env clk new_id task sv = (case refresh_task env clk task of
     (recovered, changed) \<Rightarrow>
       (let sv = (if changed then update_store env recovered sv else sv);
            sv = (if sk_enabled recovered then record_missed_one_shot env clk new_id recovered sv else sv)
        in (sv, recovered)))"

fun recover_tasks ::
  "('s, 'r) SchedulerEnv \<Rightarrow> clock \<Rightarrow> (Uuid \<Rightarrow> Uuid) \<Rightarrow> ScheduledTask list \<Rightarrow> ('s, 'r) SchedulerService \<Rightarrow>
     ('s, 'r) SchedulerService \<times> ScheduledTask list" where
  "recover_tasks env clk new_id [] sv = (sv, [])"
| "recover_tasks env clk new_id (task # tasks) sv =
     (case recover_task env clk new_id task sv of
        (sv, recovered) \<Rightarrow>
          (case recover_tasks env clk new_id tasks sv of (sv, rest) \<Rightarrow> (sv, recovered # rest)))"

fun register_recovered ::
  "('s, 'r) SchedulerEnv \<Rightarrow> clock \<Rightarrow> ScheduledTask list \<Rightarrow> 'r \<Rightarrow> (Uuid \<times> Uuid) list \<Rightarrow> 'r \<times> (Uuid \<times> Uuid) list" where
  "register_recovered env clk [] scheduler ids = (scheduler, ids)"
| "register_recovered env clk (task # tasks) scheduler ids =
     (if \<not> sk_enabled task then register_recovered env clk tasks scheduler ids
      else case register_runtime_job env (clk (AtRegisterOf (sk_id task))) task scheduler of
        (scheduler, Inr (Some u)) \<Rightarrow> register_recovered env clk tasks scheduler (AList.update (sk_id task) u ids)
      | (scheduler, _) \<Rightarrow> register_recovered env clk tasks scheduler ids)"

definition start_runtime ::
  "('s, 'r) SchedulerEnv \<Rightarrow> clock \<Rightarrow> ScheduledTask list \<Rightarrow> ('s, 'r) SchedulerService \<Rightarrow>
     ('s, 'r) SchedulerService \<times> (EngineError, unit) result" where
  "start_runtime env clk tasks sv = (case js_new (se_runtime env) of
     Inl e \<Rightarrow> (sv, Inl (InternalError (''Failed to create job scheduler: '' @ e)))
   | Inr scheduler \<Rightarrow>
       (case register_recovered env clk tasks scheduler (sv_scheduler_job_ids sv) of
          (scheduler, ids) \<Rightarrow>
            (let sv = sv\<lparr>sv_scheduler_job_ids := ids\<rparr> in
             case js_start (se_runtime env) scheduler of
               (scheduler, Inl e) \<Rightarrow> (sv, Inl (InternalError (''Failed to start job scheduler: '' @ e)))
             | (scheduler, Inr _) \<Rightarrow> (sv\<lparr>sv_job_scheduler := Some scheduler, sv_started := True\<rparr>, Inr ()))))"

definition start ::
  "('s, 'r) SchedulerEnv \<Rightarrow> clock \<Rightarrow> (Uuid \<Rightarrow> Uuid) \<Rightarrow> ('s, 'r) SchedulerService \<Rightarrow>
     ('s, 'r) SchedulerService \<times> (EngineError, unit) result" where
  "start env clk new_id sv =
     (if sv_started sv then (sv, Inr ())
      else case so_list_tasks (se_store env) False (sv_store sv) of
        (s, Inl e) \<Rightarrow> (sv\<lparr>sv_store := s\<rparr>, Inl e)
      | (s, Inr persisted_tasks) \<Rightarrow>
          (case recover_tasks env clk new_id persisted_tasks
              (recover_execution_history env persisted_tasks (sv\<lparr>sv_store := s\<rparr>)) of
             (sv, recovered_tasks) \<Rightarrow> start_runtime env clk recovered_tasks (fold insert_metadata recovered_tasks sv)))"

definition stop ::
  "('s, 'r) SchedulerEnv \<Rightarrow> ('s, 'r) SchedulerService \<Rightarrow> ('s, 'r) SchedulerService \<times> (EngineError, unit) result" where
  "stop env sv =
     (if \<not> sv_started sv then (sv, Inr ())
      else case sv_job_scheduler sv of
        None \<Rightarrow> (sv\<lparr>sv_scheduler_job_ids := [], sv_started := False\<rparr>, Inr ())
      | Some scheduler \<Rightarrow>
          (case js_shutdown (se_runtime env) scheduler of
             (_, Inl e) \<Rightarrow> (sv\<lparr>sv_job_scheduler := None\<rparr>, Inl (InternalError (''Failed to stop job scheduler: '' @ e)))
           | (_, Inr _) \<Rightarrow> (sv\<lparr>sv_job_scheduler := None, sv_scheduler_job_ids := [], sv_started := False\<rparr>, Inr ())))"

end
