(* ===== verification/Sched_Runs.thy ===== *)
theory Sched_Runs
  imports Sched_Service
begin

text \<open>
  Runs of the scheduler: the operations, the callbacks of the runtime and the spawned registrations in any order, each run
  to its end before the next one starts. In such a run what the registry shows is what the store keeps, for every store that
  is \<open>reliable_store\<close>; a restart brings the jobs back and arms every attempt that is owed. Operations on one job that
  overlap are not runs in this sense: they can write its row in the other order (\<open>overlapping_toggles_stale\<close>).
\<close>

section \<open>Runs\<close>

datatype SchedEvent =
    SetWindow NightWindowConfig | ClearWindow
  | AddCron clock ScheduledTask | AddOneShot clock ScheduledTask | RemoveJob Uuid | SetEnabled clock Uuid bool
  | CronFires "ScheduledTask \<Rightarrow> (EngineError, unit) result" "string \<Rightarrow> int \<Rightarrow> bool" clock Uuid Uuid
  | OneShotFires "ScheduledTask \<Rightarrow> (EngineError, unit) result" "string \<Rightarrow> int \<Rightarrow> bool" clock Uuid Uuid
  | Trigger "ScheduledTask \<Rightarrow> (EngineError, unit) result" clock Uuid Uuid
  | RunSpawned clock
  | LateFailure ExecutionHistory
  | Start clock "Uuid \<Rightarrow> Uuid" | Stop

fun sched_event :: "('s, 'r) SchedulerEnv \<Rightarrow> SchedEvent \<Rightarrow> ('s, 'r) SchedulerService \<Rightarrow> ('s, 'r) SchedulerService" where
  "sched_event env (SetWindow config) sv = fst (set_night_window env config sv)"
| "sched_event env ClearWindow sv = clear_night_window sv"
| "sched_event env (AddCron clk task) sv = fst (add_cron_job env clk task sv)"
| "sched_event env (AddOneShot clk task) sv = fst (add_one_shot_job env clk task sv)"
| "sched_event env (RemoveJob i) sv = fst (remove_job env i sv)"
| "sched_event env (SetEnabled clk i b) sv = fst (set_job_enabled env clk i b sv)"
| "sched_event env (CronFires dispatch lock clk new_id i) sv = cron_callback env dispatch lock clk new_id i sv"
| "sched_event env (OneShotFires dispatch lock clk new_id i) sv = one_shot_callback env dispatch lock clk new_id i sv"
| "sched_event env (Trigger dispatch clk new_id i) sv = fst (dispatch_with_guard_from env dispatch clk new_id i Manual sv)"
| "sched_event env (RunSpawned clk) sv = (case sv_spawned sv of
     [] \<Rightarrow> sv | task # rest \<Rightarrow> rearm_registration_task env clk task (sv\<lparr>sv_spawned := rest\<rparr>))"
| "sched_event env (LateFailure h) sv = record_execution env h sv"
| "sched_event env (Start clk new_id) sv = fst (start env clk new_id sv)"
| "sched_event env Stop sv = fst (stop env sv)"

definition sched_run :: "('s, 'r) SchedulerEnv \<Rightarrow> SchedEvent list \<Rightarrow> ('s, 'r) SchedulerService \<Rightarrow> ('s, 'r) SchedulerService" where
  "sched_run env events sv = fold (sched_event env) events sv"

section \<open>The registry and the store agree\<close>

definition durable ::
  "('s \<Rightarrow> Uuid \<Rightarrow> ScheduledTask option) \<Rightarrow> (ScheduledTask \<Rightarrow> ScheduledTask) \<Rightarrow> ('s \<Rightarrow> bool) \<Rightarrow> ('s, 'r) SchedulerService \<Rightarrow> bool" where
  "durable stored column good sv \<longleftrightarrow> good (sv_store sv) \<and> distinct (map fst (sv_job_metadata sv)) \<and>
     (\<forall>i t. map_of (sv_job_metadata sv) i = Some t \<longrightarrow> sk_id t = i \<and> stored (sv_store sv) i = Some (column t))"

lemma durable_cong:
  "durable stored column good sv \<Longrightarrow> sv_store sv' = sv_store sv \<Longrightarrow> sv_job_metadata sv' = sv_job_metadata sv \<Longrightarrow>
     durable stored column good sv'"
  by (simp add: durable_def)

lemma unregister_keeps:
  "sv_store (unregister_runtime_job env i sv) = sv_store sv"
  "sv_job_metadata (unregister_runtime_job env i sv) = sv_job_metadata sv"
  by (simp_all add: unregister_runtime_job_def forget_scheduler_job_id_def split: option.splits)

lemma register_new_keeps:
  "sv_store (fst (register_new register task sv)) = sv_store sv"
  "sv_job_metadata (fst (register_new register task sv)) = sv_job_metadata sv"
  by (simp_all add: register_new_def split: option.splits sum.splits prod.splits)

lemma toggle_runtime_keeps:
  "sv_store (fst (toggle_runtime env clk b task sv)) = sv_store sv"
  "sv_job_metadata (fst (toggle_runtime env clk b task sv)) = sv_job_metadata sv"
  by (simp_all add: toggle_runtime_def register_new_keeps unregister_keeps)

lemma rearm_registration_keeps:
  "sv_store (rearm_registration_task env clk task sv) = sv_store sv"
  "sv_job_metadata (rearm_registration_task env clk task sv) = sv_job_metadata sv"
  by (simp_all add: rearm_registration_task_def Let_def split: option.splits sum.splits prod.splits)

lemma start_runtime_keeps:
  "sv_store (fst (start_runtime env clk tasks sv)) = sv_store sv"
  "sv_job_metadata (fst (start_runtime env clk tasks sv)) = sv_job_metadata sv"
  by (simp_all add: start_runtime_def Let_def split: sum.splits prod.splits)

lemma marked_fields:
  "sk_id (marked env clk s outcome task) = sk_id task" "sk_created_at (marked env clk s outcome task) = sk_created_at task"
  by (simp_all add: marked_def Let_def)

lemma toggle_candidate_fields:
  "sk_id (toggle_candidate env clk b task) = sk_id task"
  "sk_created_at (toggle_candidate env clk b task) = sk_created_at task"
  "sk_enabled (toggle_candidate env clk b task) = b"
  by (simp_all add: toggle_candidate_def Let_def)

lemma refresh_fields:
  "sk_id (fst (refresh_task env clk task)) = sk_id task"
  "sk_created_at (fst (refresh_task env clk task)) = sk_created_at task"
  "sk_enabled (fst (refresh_task env clk task)) = sk_enabled task"
  "\<not> snd (refresh_task env clk task) \<Longrightarrow> fst (refresh_task env clk task) = task"
proof -
  define r where "r = (if sk_enabled task then next_execution_for_task env task (clk AtRecovery) else Inr None)"
  show "sk_id (fst (refresh_task env clk task)) = sk_id task"
    "sk_created_at (fst (refresh_task env clk task)) = sk_created_at task"
    "sk_enabled (fst (refresh_task env clk task)) = sk_enabled task"
    "\<not> snd (refresh_task env clk task) \<Longrightarrow> fst (refresh_task env clk task) = task"
    unfolding refresh_task_def r_def[symmetric] by (cases r; simp split: if_splits)+
qed

context reliable_store
begin

abbreviation good where
  "good s \<equiv> valid s \<and> up s"

abbreviation durably where
  "durably \<equiv> durable stored column good"

lemma durable_store:
  assumes "durably sv" "good s" "stored s = stored (sv_store sv)"
  shows "durably (sv\<lparr>sv_store := s\<rparr>)"
  using assms by (simp add: durable_def)

lemma save_execution_good:
  "good s \<Longrightarrow> good (fst (so_save_execution ops h s)) \<and> stored (fst (so_save_execution ops h s)) = stored s"
  using save_execution[of s h] up_executions(1)[of s h] by (cases "so_save_execution ops h s") auto

lemma list_executions_good:
  "good s \<Longrightarrow> so_list_executions ops i n s = (s', r) \<Longrightarrow> good s' \<and> stored s' = stored s"
  using list_executions[of s i n] up_executions(2)[of s i n] by auto

lemma update_store_good:
  assumes "good s" "stored s (sk_id t) = Some (column old)" "sk_created_at t = sk_created_at old"
  shows "good (fst (so_update_task ops t s)) \<and> stored (fst (so_update_task ops t s)) = (stored s)(sk_id t \<mapsto> column t)"
proof -
  obtain s' r where u: "so_update_task ops t s = (s', r)" by fastforce
  have "r = Inr ()" using up_update(2)[of s t] assms u by simp
  then show ?thesis
    using update_task[OF _ u] up_update(1)[of s t] assms column_created[OF assms(3)] u by simp
qed

lemma durable_update:
  assumes "durably sv" "map_of (sv_job_metadata sv) (sk_id t) = Some old" "sk_created_at t = sk_created_at old"
    "se_store env = ops"
  shows "durably (update_store env t (sv\<lparr>sv_job_metadata := AList.update (sk_id t) t (sv_job_metadata sv)\<rparr>))"
proof -
  from assms(1,2) have "good (sv_store sv)" "stored (sv_store sv) (sk_id t) = Some (column old)" by (simp_all add: durable_def)
  from update_store_good[OF this assms(3)] assms(1,4) show ?thesis
    by (auto simp: durable_def update_store_def update_conv' distinct_update)
qed

lemma record_execution_durable: "durably sv \<Longrightarrow> se_store env = ops \<Longrightarrow> durably (record_execution env h sv)"
  using save_execution_good[of "sv_store sv" h] by (simp add: record_execution_def durable_def)

lemma mark_durable:
  assumes "durably sv" "se_store env = ops"
  shows "durably (fst (mark_execution_started env clk i s outcome sv))"
proof (cases "map_of (sv_job_metadata sv) i")
  case (Some task)
  with assms(1) have "sk_id task = i" by (simp add: durable_def)
  with durable_update[OF assms(1), of "marked env clk s outcome task" task env] Some assms(2) show ?thesis
    by (simp add: mark_execution_started_def mark_locked_def marked_fields Let_def)
qed (simp add: mark_execution_started_def mark_locked_def assms)

lemma rearm_durable:
  assumes "durably sv" "se_store env = ops"
  shows "durably (rearm_one_shot_at env clk i w sv)"
proof (cases "map_of (sv_job_metadata sv) i")
  case (Some task)
  with assms(1) have i: "sk_id task = i" by (simp add: durable_def)
  have "durably (update_store env (rearmed clk w task) (sv\<lparr>sv_job_metadata := AList.update i (rearmed clk w task) (sv_job_metadata sv)\<rparr>))"
    using durable_update[OF assms(1), of "rearmed clk w task" task env] Some i assms(2) by (simp add: rearmed_def)
  with Some assms(1) show ?thesis by (simp add: rearm_one_shot_at_def rearm_locked_def Let_def durable_def)
qed (simp add: rearm_one_shot_at_def rearm_locked_def assms)

lemma dispatch_failed_durable:
  assumes "durably sv" "se_store env = ops"
  shows "durably (dispatch_failed env clk new_id i spends e sv)"
proof -
  obtain sv' n where m: "mark_execution_started env clk i (clk AtStart) (if spends then FailedRetryable else FailedObserved) sv = (sv', n)"
    by fastforce
  then have "durably sv'" using mark_durable[OF assms] by (metis fst_conv)
  then show ?thesis
    using assms(2) by (simp add: dispatch_failed_def m Let_def record_execution_durable rearm_durable split: option.splits)
qed

lemma dispatch_durable:
  assumes "durably sv" "se_store env = ops"
  shows "durably (fst (dispatch_with_guard_from env dispatch clk new_id i source sv))"
  using assms unfolding dispatch_with_guard_from_def Let_def
  by (simp add: record_execution_durable rearm_durable mark_durable dispatch_failed_durable split: option.splits sum.splits)

lemma persist_and_register_durable:
  assumes "durably sv" "se_store env = ops"
  shows "durably (fst (persist_and_register env register task sv))"
proof -
  obtain s r where save: "so_save_task ops task (sv_store sv) = (s, r)" by fastforce
  have g: "good s" "stored s = (if r = Inr () then (stored (sv_store sv))(sk_id task \<mapsto> column task) else stored (sv_store sv))"
    "r = Inr () \<Longrightarrow> stored (sv_store sv) (sk_id task) = None"
    using save_task[OF _ save] up_save[of "sv_store sv" task] assms(1) save by (auto simp: durable_def)
  show ?thesis
  proof (cases r)
    case (Inl e)
    then show ?thesis using durable_store[OF assms(1) g(1)] g(2) save assms(2) by (simp add: persist_and_register_def)
  next
    case (Inr u)
    then have u: "r = Inr ()" by simp
    let ?sv = "sv\<lparr>sv_store := s\<rparr>"
    have d: "durably ?sv" using assms(1) g u by (auto simp: durable_def)
    note keeps = register_new_keeps[of register task ?sv]
    show ?thesis
    proof (cases "register_new register task ?sv")
      case (Pair sv' r')
      from keeps Pair have sv': "sv_store sv' = s" "sv_job_metadata sv' = sv_job_metadata sv" by simp_all
      from d sv' have "durably sv'" by (auto intro: durable_cong)
      moreover have "durably (insert_metadata task sv')"
        using assms(1) g u sv' by (auto simp: durable_def insert_metadata_def update_conv' distinct_update)
      ultimately show ?thesis
        using save assms(2) u Pair by (simp add: persist_and_register_def split: sum.splits)
    qed
  qed
qed

lemma remove_durable:
  assumes "durably sv" "se_store env = ops"
  shows "durably (fst (remove_job env i sv))"
proof -
  obtain s r where del: "so_delete_task ops i (sv_store sv) = (s, r)" by fastforce
  have g: "good s" "stored s = (if r = Inr () then (stored (sv_store sv))(i := None) else stored (sv_store sv))"
    using delete_task[OF _ del] up_delete[of "sv_store sv" i] assms(1) del by (auto simp: durable_def)
  have "durably (sv\<lparr>sv_store := s\<rparr>)" if "r \<noteq> Inr ()" using durable_store[OF assms(1) g(1)] g(2) that by simp
  moreover have "durably (sv\<lparr>sv_store := s, sv_job_metadata := AList.delete i (sv_job_metadata sv)\<rparr>)" if "r = Inr ()"
    using assms(1) g that by (auto simp: durable_def delete_conv' distinct_delete)
  ultimately show ?thesis
    using del assms(2) by (cases r) (auto simp: remove_job_def intro: durable_cong[OF _ unregister_keeps])
qed

lemma set_enabled_durable:
  assumes "durably sv" "se_store env = ops"
  shows "durably (fst (set_job_enabled env clk i b sv))"
proof (cases "map_of (sv_job_metadata sv) i")
  case (Some current)
  with assms(1) have i: "sk_id current = i" by (simp add: durable_def)
  let ?task = "toggle_candidate env clk b current"
  obtain sv' r where t: "toggle_runtime env clk b ?task sv = (sv', r)" by fastforce
  have k: "sv_store sv' = sv_store sv" "sv_job_metadata sv' = sv_job_metadata sv"
    using toggle_runtime_keeps[of env clk b ?task sv] t by simp_all
  have d: "durably sv'" using durable_cong[OF assms(1) k] .
  have "durably (update_store env ?task (sv'\<lparr>sv_job_metadata := AList.update i ?task (sv_job_metadata sv')\<rparr>))"
    using durable_update[OF d, of ?task current env] Some i assms(2) k by (simp add: toggle_candidate_fields)
  then show ?thesis
    using Some assms(1) d t k by (simp add: set_job_enabled_def commit_toggle_def replace_metadata_def Let_def split: sum.splits)
qed (simp add: set_job_enabled_def commit_toggle_def assms)

lemma collect_executions_good:
  "good s \<Longrightarrow> se_store env = ops \<Longrightarrow> collect_executions env tasks s acc = (s', h) \<Longrightarrow> good s' \<and> stored s' = stored s"
proof (induction tasks arbitrary: s acc)
  case (Cons task tasks)
  obtain s1 r where l: "so_list_executions ops (sk_id task) EXECUTION_HISTORY_RECOVERY_LIMIT s = (s1, r)" by fastforce
  from list_executions_good[OF Cons.prems(1) l] have "good s1" "stored s1 = stored s" by auto
  with Cons.IH[of s1] Cons.prems l show ?case by (auto split: sum.splits)
qed simp

lemma record_missed_good:
  assumes "good (sv_store sv)" "se_store env = ops"
  shows "good (sv_store (record_missed_one_shot env clk new_id task sv)) \<and>
    stored (sv_store (record_missed_one_shot env clk new_id task sv)) = stored (sv_store sv)"
proof -
  obtain s r where l: "so_list_executions ops (sk_id task) 1 (sv_store sv) = (s, r)" by fastforce
  note s = list_executions_good[OF assms(1) l]
  show ?thesis
    unfolding record_missed_one_shot_def insert_execution_history_ordered_def assms(2) l Let_def
    using s save_execution_good[of s] assms(1) by (simp split: option.splits sum.splits)
qed

end

lemma record_missed_keeps:
  "sv_job_metadata (record_missed_one_shot env clk new_id task sv) = sv_job_metadata sv"
  "sv_started (record_missed_one_shot env clk new_id task sv) = sv_started sv"
  "sv_job_scheduler (record_missed_one_shot env clk new_id task sv) = sv_job_scheduler sv"
  "sv_scheduler_job_ids (record_missed_one_shot env clk new_id task sv) = sv_scheduler_job_ids sv"
  by (simp_all add: record_missed_one_shot_def insert_execution_history_ordered_def Let_def split: option.splits sum.splits prod.splits)

lemma recover_task_keeps:
  "sv_job_metadata (fst (recover_task env clk new_id task sv)) = sv_job_metadata sv"
  "sv_started (fst (recover_task env clk new_id task sv)) = sv_started sv"
  "sv_job_scheduler (fst (recover_task env clk new_id task sv)) = sv_job_scheduler sv"
  "sv_scheduler_job_ids (fst (recover_task env clk new_id task sv)) = sv_scheduler_job_ids sv"
  by (simp_all add: recover_task_def record_missed_keeps update_store_def Let_def split: prod.splits)

lemma recover_tasks_Cons:
  "fst (recover_tasks env clk new_id (task # tasks) sv) = fst (recover_tasks env clk new_id tasks (fst (recover_task env clk new_id task sv)))"
  "snd (recover_tasks env clk new_id (task # tasks) sv) =
     fst (refresh_task env clk task) # snd (recover_tasks env clk new_id tasks (fst (recover_task env clk new_id task sv)))"
  by (simp_all add: recover_task_def Let_def split: prod.split)

declare recover_tasks.simps(2) [simp del]

lemma recover_tasks_keeps:
  "sv_job_metadata (fst (recover_tasks env clk new_id tasks sv)) = sv_job_metadata sv"
  "sv_started (fst (recover_tasks env clk new_id tasks sv)) = sv_started sv"
  "sv_job_scheduler (fst (recover_tasks env clk new_id tasks sv)) = sv_job_scheduler sv"
  "sv_scheduler_job_ids (fst (recover_tasks env clk new_id tasks sv)) = sv_scheduler_job_ids sv"
  by (induction tasks arbitrary: sv) (simp_all add: recover_tasks_Cons recover_task_keeps)

lemma recover_tasks_result: "snd (recover_tasks env clk new_id tasks sv) = map (fst \<circ> refresh_task env clk) tasks"
  by (induction tasks arbitrary: sv) (simp_all add: recover_tasks_Cons)

lemma insert_metadata_map:
  assumes "distinct (map sk_id ts)"
  shows "map_of (sv_job_metadata (fold insert_metadata ts sv)) =
      map_of (sv_job_metadata sv) ++ map_of (map (\<lambda>t. (sk_id t, t)) ts)"
    "sv_store (fold insert_metadata ts sv) = sv_store sv"
    "sv_scheduler_job_ids (fold insert_metadata ts sv) = sv_scheduler_job_ids sv"
    "distinct (map fst (sv_job_metadata sv)) \<Longrightarrow> distinct (map fst (sv_job_metadata (fold insert_metadata ts sv)))"
proof -
  show "map_of (sv_job_metadata (fold insert_metadata ts sv)) =
      map_of (sv_job_metadata sv) ++ map_of (map (\<lambda>t. (sk_id t, t)) ts)"
    using assms
  proof (induction ts arbitrary: sv)
    case (Cons t ts)
    then have "sk_id t \<notin> dom (map_of (map (\<lambda>t. (sk_id t, t)) ts))" by (auto simp: dom_map_of_conv_image_fst image_iff)
    with Cons show ?case
      by (auto simp: insert_metadata_def update_conv' map_add_def fun_eq_iff split: option.splits)
  qed simp
qed (induction ts arbitrary: sv, simp_all add: insert_metadata_def distinct_update)+

section \<open>What the runtime promises\<close>

text \<open>
  A view of the jobs a runtime has: a job that is added is there under an id of its own until it is removed. A one-shot
  job can always be made; a cron job may be refused.
\<close>

definition runtime_ok :: "'r JobScheduler \<Rightarrow> ('r \<Rightarrow> Uuid \<Rightarrow> RuntimeJob option) \<Rightarrow> bool" where
  "runtime_ok rt jobs \<longleftrightarrow>
     (\<exists>r. js_new rt = Inr r \<and> jobs r = Map.empty) \<and>
     (\<forall>d i. js_make rt (OneShotJob d i) = Inr ()) \<and>
     (\<forall>job r. \<exists>r' u. js_add rt job r = (r', Inr u) \<and> jobs r u = None \<and> jobs r' = (jobs r)(u \<mapsto> job)) \<and>
     (\<forall>u r. jobs (fst (js_remove rt u r)) = (jobs r)(u := None)) \<and>
     (\<forall>r. \<exists>r'. js_start rt r = (r', Inr ()) \<and> jobs r' = jobs r)"

lemma runtime_addE:
  assumes "runtime_ok rt jobs"
  obtains r' u where "js_add rt job r = (r', Inr u)" "jobs r u = None" "jobs r' = (jobs r)(u \<mapsto> job)"
  using assms unfolding runtime_ok_def by blast

lemma one_shot_attempt_later: "one_shot_attempt_at task after = Some t \<Longrightarrow> after < t"
  by (auto simp: one_shot_attempt_at_def later_than_def split: option.splits if_splits)

definition adds_job :: "('r \<Rightarrow> Uuid \<Rightarrow> RuntimeJob option) \<Rightarrow> 'r \<Rightarrow> 'r \<Rightarrow> Uuid option \<Rightarrow> RuntimeJob \<Rightarrow> bool" where
  "adds_job jobs r r' u job \<longleftrightarrow> (case u of
     None \<Rightarrow> jobs r' = jobs r
   | Some u \<Rightarrow> jobs r u = None \<and> jobs r' = (jobs r)(u \<mapsto> job))"

definition registered_id :: "(EngineError, Uuid option) result \<Rightarrow> Uuid option" where
  "registered_id res = (case res of Inr u \<Rightarrow> u | Inl _ \<Rightarrow> None)"

text \<open>A registration adds at most one job, under a fresh id; a one-shot is armed whenever it is owed an attempt.\<close>

lemma register_cron_adds:
  assumes "runtime_ok (se_runtime env) jobs" "register_cron_with_scheduler env task r = (r', res)"
  shows "\<exists>job. adds_job jobs r r' (registered_id (map_sum id Some res)) job"
proof (cases "sk_cron_expression task")
  case (Some e)
  let ?job = "CronJob (cron_to_6field e) (sk_id task)"
  obtain r1 u where "js_add (se_runtime env) ?job r = (r1, Inr u)" "jobs r u = None" "jobs r1 = (jobs r)(u \<mapsto> ?job)"
    using runtime_addE[OF assms(1)] by blast
  with assms(2) Some show ?thesis
    by (intro exI[of _ ?job]) (auto simp: register_cron_with_scheduler_def Let_def adds_job_def registered_id_def split: sum.splits)
qed (use assms(2) in \<open>auto simp: register_cron_with_scheduler_def adds_job_def registered_id_def\<close>)

lemma register_one_shot_adds:
  assumes "runtime_ok (se_runtime env) jobs" "register_one_shot_with_scheduler env now task r = (r', res)"
    "sk_execute_after task \<noteq> None"
  shows "case one_shot_attempt_at task now of
      None \<Rightarrow> r' = r \<and> registered_id res = None
    | Some t \<Rightarrow> \<exists>u. registered_id res = Some u \<and> adds_job jobs r r' (Some u) (OneShotJob (t - now) (sk_id task))"
proof (cases "one_shot_attempt_at task now")
  case (Some t)
  let ?job = "OneShotJob (t - now) (sk_id task)"
  obtain r1 u where "js_add (se_runtime env) ?job r = (r1, Inr u)" "jobs r u = None" "jobs r1 = (jobs r)(u \<mapsto> ?job)"
    using runtime_addE[OF assms(1)] by blast
  moreover have "js_make (se_runtime env) ?job = Inr ()" using assms(1) by (simp add: runtime_ok_def)
  moreover have "one_shot_duration t now = Some (t - now)" using one_shot_attempt_later[OF Some] by (simp add: one_shot_duration_def)
  ultimately show ?thesis
    using assms(2,3) Some by (auto simp: register_one_shot_with_scheduler_def Let_def adds_job_def registered_id_def)
qed (use assms(2,3) in \<open>auto simp: register_one_shot_with_scheduler_def registered_id_def\<close>)

lemma register_runtime_adds:
  assumes "runtime_ok (se_runtime env) jobs" "register_runtime_job env now task r = (r', res)"
  shows "\<exists>job. adds_job jobs r r' (registered_id res) job"
proof (cases "sk_cron_expression task = None \<and> sk_execute_after task \<noteq> None")
  case True
  then have "register_one_shot_with_scheduler env now task r = (r', res)" using assms(2) by (auto simp: register_runtime_job_def)
  from register_one_shot_adds[OF assms(1) this] True show ?thesis
    by (auto simp: adds_job_def split: option.splits)
next
  case False
  with assms(2) register_cron_adds[OF assms(1), of task r] show ?thesis
    by (auto simp: register_runtime_job_def adds_job_def registered_id_def split: prod.splits if_splits)
qed

lemma register_recovered_Cons:
  assumes "sk_enabled task" "register_runtime_job env (clk (AtRegisterOf (sk_id task))) task r = (r', res)"
  shows "register_recovered env clk (task # tasks) r ids = register_recovered env clk tasks r'
    (case registered_id res of None \<Rightarrow> ids | Some u \<Rightarrow> AList.update (sk_id task) u ids)"
  using assms by (simp add: registered_id_def split: sum.splits option.splits)

text \<open>Registering the other tasks leaves what a task has.\<close>

lemma register_recovered_keeps:
  assumes "runtime_ok (se_runtime env) jobs" "i \<notin> sk_id ` set tasks" "register_recovered env clk tasks r ids = (r', ids')"
  shows "map_of ids' i = map_of ids i \<and> (\<forall>u job. jobs r u = Some job \<longrightarrow> jobs r' u = Some job)"
  using assms(2,3)
proof (induction tasks arbitrary: r ids)
  case (Cons task tasks)
  show ?case
  proof (cases "sk_enabled task")
    case True
    obtain r1 res where reg: "register_runtime_job env (clk (AtRegisterOf (sk_id task))) task r = (r1, res)" by fastforce
    obtain job where job: "adds_job jobs r r1 (registered_id res) job" using register_runtime_adds[OF assms(1) reg] by blast
    let ?ids = "case registered_id res of None \<Rightarrow> ids | Some u \<Rightarrow> AList.update (sk_id task) u ids"
    have "register_recovered env clk tasks r1 ?ids = (r', ids')" using Cons.prems(2) register_recovered_Cons[where clk = clk and task = task, OF True reg] by simp
    from Cons.IH[OF _ this] Cons.prems(1) have "map_of ids' i = map_of ?ids i \<and> (\<forall>u job. jobs r1 u = Some job \<longrightarrow> jobs r' u = Some job)" by simp
    moreover have "map_of ?ids i = map_of ids i" using Cons.prems(1) by (auto simp: update_conv' split: option.splits)
    moreover have "jobs r u = Some j \<Longrightarrow> jobs r1 u = Some j" for u j using job by (auto simp: adds_job_def split: option.splits)
    ultimately show ?thesis by simp
  qed (use Cons in simp)
qed simp

lemma register_recovered_arms:
  assumes "runtime_ok (se_runtime env) jobs" "distinct (map sk_id tasks)" "task \<in> set tasks" "sk_enabled task" "is_one_shot task"
    "one_shot_attempt_at task (clk (AtRegisterOf (sk_id task))) = Some t" "register_recovered env clk tasks r ids = (r', ids')"
  shows "\<exists>u. map_of ids' (sk_id task) = Some u \<and> jobs r' u = Some (OneShotJob (t - clk (AtRegisterOf (sk_id task))) (sk_id task))"
  using assms(2,3,7)
proof (induction tasks arbitrary: r ids)
  case (Cons x tasks)
  show ?case
  proof (cases "x = task")
    case True
    obtain r1 res where reg: "register_runtime_job env (clk (AtRegisterOf (sk_id task))) task r = (r1, res)" by fastforce
    then have "register_one_shot_with_scheduler env (clk (AtRegisterOf (sk_id task))) task r = (r1, res)"
      using assms(5) by (simp add: register_runtime_job_def is_one_shot_def)
    from register_one_shot_adds[OF assms(1) this] assms(5,6) obtain u where u: "registered_id res = Some u"
      "jobs r1 u = Some (OneShotJob (t - clk (AtRegisterOf (sk_id task))) (sk_id task))"
      by (auto simp: is_one_shot_def adds_job_def)
    have "register_recovered env clk tasks r1 (AList.update (sk_id task) u ids) = (r', ids')"
      using Cons.prems(3) register_recovered_Cons[where clk = clk and task = task, OF assms(4) reg] True u(1) by simp
    from register_recovered_keeps[OF assms(1) _ this, of "sk_id task"] Cons.prems(1) True u(2) show ?thesis
      by (auto simp: update_conv')
  next
    case False
    then have mem: "task \<in> set tasks" "distinct (map sk_id tasks)" using Cons.prems(1,2) by auto
    show ?thesis
    proof (cases "sk_enabled x")
      case True
      obtain r1 res where reg: "register_runtime_job env (clk (AtRegisterOf (sk_id x))) x r = (r1, res)" by fastforce
      from Cons.prems(3) register_recovered_Cons[where clk = clk and task = x, OF True reg] Cons.IH[OF mem(2,1)] show ?thesis by metis
    qed (use Cons mem in simp)
  qed
qed simp

lemma register_recovered_disabled:
  assumes "\<And>task. task \<in> set tasks \<Longrightarrow> sk_id task = i \<Longrightarrow> \<not> sk_enabled task" "register_recovered env clk tasks r ids = (r', ids')"
  shows "map_of ids' i = map_of ids i"
  using assms
proof (induction tasks arbitrary: r ids)
  case (Cons x tasks)
  show ?case
  proof (cases "sk_enabled x")
    case True
    with Cons.prems(1) have "sk_id x \<noteq> i" by auto
    moreover obtain r1 res where reg: "register_runtime_job env (clk (AtRegisterOf (sk_id x))) x r = (r1, res)" by fastforce
    ultimately show ?thesis
      using Cons.IH[OF _ Cons.prems(2)[unfolded register_recovered_Cons[where clk = clk and task = x, OF True reg]]] Cons.prems(1)
      by (auto simp: update_conv' split: option.splits)
  qed (use Cons in simp)
qed simp

context reliable_store
begin

lemma recover_task_good:
  assumes "good (sv_store sv)" "se_store env = ops" "stored (sv_store sv) (sk_id task) = Some task"
    "sv' = fst (recover_task env clk new_id task sv)"
  shows "good (sv_store sv') \<and> stored (sv_store sv') = (stored (sv_store sv))(sk_id task \<mapsto> column (fst (refresh_task env clk task)))"
proof -
  let ?r = "fst (refresh_task env clk task)" and ?changed = "snd (refresh_task env clk task)"
  let ?sv = "if ?changed then update_store env ?r sv else sv"
  have col: "column task = task" using stored_task assms(1,3) by blast
  have upd: "good (fst (so_update_task ops ?r (sv_store sv)))"
    "stored (fst (so_update_task ops ?r (sv_store sv))) = (stored (sv_store sv))(sk_id task \<mapsto> column ?r)"
    using update_store_good[of "sv_store sv" ?r task] assms(1,3) col by (simp_all add: refresh_fields)
  have "good (sv_store ?sv) \<and> stored (sv_store ?sv) = (stored (sv_store sv))(sk_id task \<mapsto> column ?r)"
  proof (cases ?changed)
    case True
    with upd assms(2) show ?thesis by (simp add: update_store_def)
  next
    case False
    with col assms(1,3) show ?thesis by (simp add: refresh_fields(4) fun_upd_idem)
  qed
  moreover have "sv' = (if sk_enabled ?r then record_missed_one_shot env clk new_id ?r ?sv else ?sv)"
    by (simp add: assms(4) recover_task_def Let_def split: prod.split)
  ultimately show ?thesis using record_missed_good[of ?sv env clk new_id ?r] assms(2) by presburger
qed

lemma recover_tasks_good:
  assumes "good (sv_store sv)" "se_store env = ops" "distinct (map sk_id tasks)"
    "\<And>t. t \<in> set tasks \<Longrightarrow> stored (sv_store sv) (sk_id t) = Some t"
  shows "good (sv_store (fst (recover_tasks env clk new_id tasks sv))) \<and>
    stored (sv_store (fst (recover_tasks env clk new_id tasks sv))) =
      stored (sv_store sv) ++ map_of (map (\<lambda>t. (sk_id t, column (fst (refresh_task env clk t)))) tasks)"
  using assms
proof (induction tasks arbitrary: sv)
  case (Cons task tasks)
  let ?sv1 = "fst (recover_task env clk new_id task sv)"
  have one: "good (sv_store ?sv1)" "stored (sv_store ?sv1) = (stored (sv_store sv))(sk_id task \<mapsto> column (fst (refresh_task env clk task)))"
    using recover_task_good[OF Cons.prems(1,2), of task ?sv1 clk new_id] Cons.prems(4) by auto
  have "\<And>t. t \<in> set tasks \<Longrightarrow> stored (sv_store ?sv1) (sk_id t) = Some t"
    using Cons.prems(3,4) one(2) by (auto simp: image_iff)
  note rest = Cons.IH[OF one(1) Cons.prems(2) _ this]
  have "sk_id task \<notin> dom (map_of (map (\<lambda>t. (sk_id t, column (fst (refresh_task env clk t)))) tasks))"
    using Cons.prems(3) by (auto simp: dom_map_of_conv_image_fst image_iff)
  then have eq: "(stored (sv_store sv))(sk_id task \<mapsto> column (fst (refresh_task env clk task))) ++
      map_of (map (\<lambda>t. (sk_id t, column (fst (refresh_task env clk t)))) tasks) =
      stored (sv_store sv) ++ map_of (map (\<lambda>t. (sk_id t, column (fst (refresh_task env clk t)))) (task # tasks))"
    by (auto simp: map_add_def fun_eq_iff split: option.splits)
  have "distinct (map sk_id tasks)" using Cons.prems(3) by simp
  from rest[OF this] show ?case unfolding recover_tasks_Cons one(2) eq .
qed simp

lemma start_spec:
  assumes "durably sv" "se_store env = ops" "\<not> sv_started sv"
  obtains ts sv' where "distinct (map sk_id ts)" "\<forall>t i. t \<in> set ts \<and> sk_id t = i \<longleftrightarrow> stored (sv_store sv) i = Some t"
    "start env clk new_id sv = start_runtime env clk (map (fst \<circ> refresh_task env clk) ts) sv'" "durably sv'"
    "map_of (sv_job_metadata sv') = map_of (sv_job_metadata sv) ++ map_of (map (\<lambda>t. (sk_id t, fst (refresh_task env clk t))) ts)"
    "sv_scheduler_job_ids sv' = sv_scheduler_job_ids sv"
proof -
  obtain s ts where l: "so_list_tasks ops False (sv_store sv) = (s, Inr ts)"
    using up_list(2)[of "sv_store sv" False] assms(1) by (auto simp: durable_def) (metis prod.collapse)
  have g: "good s" "stored s = stored (sv_store sv)" "distinct (map sk_id ts)"
    "\<And>t i. t \<in> set ts \<and> sk_id t = i \<longleftrightarrow> stored (sv_store sv) i = Some t"
    using list_tasks[OF _ l] up_list(1)[of "sv_store sv" False] assms(1) l by (auto simp: durable_def)
  obtain s' h where c: "collect_executions env ts s [] = (s', h)" by fastforce
  note c' = collect_executions_good[OF g(1) assms(2) c]
  let ?sv1 = "recover_execution_history env ts (sv\<lparr>sv_store := s\<rparr>)"
  have sv1: "sv_store ?sv1 = s'" "sv_job_metadata ?sv1 = sv_job_metadata sv"
    using c by (simp_all add: recover_execution_history_def Let_def)
  let ?sv2 = "fst (recover_tasks env clk new_id ts ?sv1)" and ?rs = "map (fst \<circ> refresh_task env clk) ts"
  have stored1: "stored (sv_store ?sv1) (sk_id t) = Some t" if "t \<in> set ts" for t
    using that g(2) g(4)[of t "sk_id t"] c' sv1(1) by simp
  have r: "good (sv_store ?sv2)" "stored (sv_store ?sv2) = stored (sv_store ?sv1) ++
      map_of (map (\<lambda>t. (sk_id t, column (fst (refresh_task env clk t)))) ts)"
    using recover_tasks_good[OF _ assms(2) g(3) stored1] c' sv1(1) by simp_all
  have ids: "map sk_id ?rs = map sk_id ts" by (simp add: refresh_fields)
  let ?sv3 = "fold insert_metadata ?rs ?sv2"
  have d: "distinct (map sk_id ?rs)" unfolding ids by (rule g(3))
  note ins = insert_metadata_map[OF d, of ?sv2]
  have meta: "map_of (sv_job_metadata ?sv3) = map_of (sv_job_metadata sv) ++ map_of (map (\<lambda>t. (sk_id t, fst (refresh_task env clk t))) ts)"
    using ins(1) by (simp add: recover_tasks_keeps sv1 comp_def refresh_fields)
  have "durably ?sv3"
    unfolding durable_def
  proof (intro conjI allI impI)
    show "valid (sv_store ?sv3)" "up (sv_store ?sv3)" using r(1) by (simp_all add: ins)
    show "distinct (map fst (sv_job_metadata ?sv3))"
      using assms(1) by (intro ins(4)) (simp add: recover_tasks_keeps sv1 durable_def)
  next
    fix i t
    assume t: "map_of (sv_job_metadata ?sv3) i = Some t"
    have "\<exists>t0. t0 \<in> set ts \<and> sk_id t0 = i \<and> t = fst (refresh_task env clk t0)"
    proof (cases "map_of (map (\<lambda>t. (sk_id t, fst (refresh_task env clk t))) ts) i")
      case None
      then have "map_of (sv_job_metadata sv) i = Some t" using t unfolding meta by (simp add: map_add_def)
      then have "stored (sv_store sv) i \<noteq> None" using assms(1) by (simp add: durable_def)
      then obtain t0 where "t0 \<in> set ts" "sk_id t0 = i" using g(4) by blast
      with None show ?thesis by (auto simp: map_of_eq_None_iff image_iff)
    next
      case (Some t1)
      then have "t = t1" using t unfolding meta by (simp add: map_add_def)
      with map_of_SomeD[OF Some] show ?thesis by auto
    qed
    then obtain t0 where t0: "t0 \<in> set ts" "sk_id t0 = i" "t = fst (refresh_task env clk t0)" by blast
    then show "sk_id t = i" by (simp add: refresh_fields)
    have "map_of (map (\<lambda>t. (sk_id t, column (fst (refresh_task env clk t)))) ts) i = Some (column t)"
      using t0 g(3) by (intro map_of_is_SomeI) (auto simp: comp_def)
    then show "stored (sv_store ?sv3) i = Some (column t)" unfolding ins(2) r(2) by (simp add: map_add_def)
  qed
  have "snd (recover_tasks env clk new_id ts ?sv1) = ?rs" by (rule recover_tasks_result)
  then have "start env clk new_id sv = start_runtime env clk ?rs ?sv3"
    using l assms(2,3) by (cases "recover_tasks env clk new_id ts ?sv1") (simp add: start_def)
  moreover have "sv_scheduler_job_ids ?sv3 = sv_scheduler_job_ids sv"
    unfolding ins(3) recover_tasks_keeps using c by (simp add: recover_execution_history_def Let_def)
  ultimately show ?thesis using that g(3,4) \<open>durably ?sv3\<close> meta by blast
qed

lemma start_durable:
  assumes "durably sv" "se_store env = ops"
  shows "durably (fst (start env clk new_id sv))"
proof (cases "sv_started sv")
  case False
  from start_spec[OF assms False, of clk new_id] obtain ts sv' where
    "start env clk new_id sv = start_runtime env clk (map (fst \<circ> refresh_task env clk) ts) sv'" "durably sv'" by metis
  then show ?thesis using durable_cong start_runtime_keeps by metis
qed (simp add: start_def assms)

lemma stop_durable: "durably sv \<Longrightarrow> durably (fst (stop env sv))"
  by (simp add: stop_def durable_def split: option.splits sum.splits prod.splits)

lemma event_durable:
  assumes "durably sv" "se_store env = ops"
  shows "durably (sched_event env ev sv)"
proof (cases ev)
  case (AddCron clk task)
  with assms show ?thesis
    by (auto simp: add_cron_job_def split: option.splits sum.splits intro: persist_and_register_durable)
next
  case (AddOneShot clk task)
  with assms show ?thesis by (auto simp: add_one_shot_job_def split: option.splits intro: persist_and_register_durable)
next
  case (OneShotFires dispatch lock clk new_id i)
  have "durably (forget_scheduler_job_id i sv)" using assms(1) by (simp add: forget_scheduler_job_id_def durable_def)
  with OneShotFires assms(2) show ?thesis
    by (simp add: one_shot_callback_def Let_def dispatch_with_guard_def dispatch_durable)
next
  case (RunSpawned clk)
  have "durably (rearm_registration_task env clk task (sv\<lparr>sv_spawned := rest\<rparr>))" for task rest
    by (rule durable_cong[OF assms(1)]) (simp_all add: rearm_registration_keeps)
  with RunSpawned assms(1) show ?thesis by (simp split: list.splits)
next
  case (SetWindow config)
  with assms(1) show ?thesis by (simp add: set_night_window_def durable_def split: sum.splits)
next
  case ClearWindow
  with assms(1) show ?thesis by (simp add: clear_night_window_def durable_def)
qed (use assms in \<open>simp_all add: cron_callback_def dispatch_with_guard_def dispatch_durable remove_durable set_enabled_durable
    record_execution_durable start_durable stop_durable\<close>)

lemma run_durable: "durably sv \<Longrightarrow> se_store env = ops \<Longrightarrow> durably (sched_run env events sv)"
  unfolding sched_run_def by (induction events arbitrary: sv) (simp_all add: event_durable)

lemma registry_kept:
  assumes "valid s" "up s" "se_store env = ops"
    "get_job i (sched_run env events (SchedulerService_new s)) = Some t"
  shows "sk_id t = i \<and> stored (sv_store (sched_run env events (SchedulerService_new s))) i = Some (column t)"
proof -
  have "durably (SchedulerService_new s)" using assms(1,2) by (simp add: durable_def SchedulerService_new_def)
  from run_durable[OF this assms(3), of events] assms(4) show ?thesis by (simp add: durable_def get_job_def)
qed

lemma restart:
  fixes clk :: clock and new_id :: "Uuid \<Rightarrow> Uuid" and sv :: "('s, 'r) SchedulerService"
    and env :: "('s, 'r) SchedulerEnv"
  assumes "durably sv" "se_store env = ops" "runtime_ok (se_runtime env) jobs" "get_job i sv = Some t"
  defines "sv' \<equiv> fst (start env clk new_id (SchedulerService_new (sv_store sv)))"
    and "t' \<equiv> fst (refresh_task env clk (column t))"
  shows "get_job i sv' = Some t' \<and>
    (\<not> sk_enabled t \<longrightarrow> map_of (sv_scheduler_job_ids sv') i = None) \<and>
    (sk_enabled t \<and> is_one_shot t \<longrightarrow> (\<forall>a. one_shot_attempt_at (column t) (clk AtRecovery) = Some a \<longrightarrow> clk (AtRegisterOf i) < a \<longrightarrow>
      sk_next_execution t' = Some a \<and>
      (\<exists>u r. sv_job_scheduler sv' = Some r \<and> map_of (sv_scheduler_job_ids sv') i = Some u \<and>
        jobs r u = Some (OneShotJob (a - clk (AtRegisterOf i)) i))))"
proof -
  let ?new = "SchedulerService_new (sv_store sv) :: ('s, 'r) SchedulerService"
  have new: "durably ?new" "\<not> sv_started ?new" "sv_store ?new = sv_store sv" "sv_job_metadata ?new = []" "sv_scheduler_job_ids ?new = []"
    using assms(1) by (simp_all add: durable_def SchedulerService_new_def)
  have stored_i: "stored (sv_store sv) i = Some (column t)" "sk_id t = i" using assms(1,4) by (simp_all add: durable_def get_job_def)
  obtain ts sv1 where ts: "distinct (map sk_id ts)" "\<forall>t i. t \<in> set ts \<and> sk_id t = i \<longleftrightarrow> stored (sv_store ?new) i = Some t"
    and st: "start env clk new_id ?new = start_runtime env clk (map (fst \<circ> refresh_task env clk) ts) sv1"
    and "durably sv1"
    and meta0: "map_of (sv_job_metadata sv1) = map_of (sv_job_metadata ?new) ++ map_of (map (\<lambda>t. (sk_id t, fst (refresh_task env clk t))) ts)"
    and ids0: "sv_scheduler_job_ids sv1 = sv_scheduler_job_ids ?new"
    by (rule start_spec[OF new(1) assms(2) new(2), of clk new_id])
  note ids = ids0[unfolded new(5)] and meta = meta0[unfolded new(4) map_of.simps(1) empty_map_add]
  let ?rs = "map (fst \<circ> refresh_task env clk) ts"
  have mem: "column t \<in> set ts" using ts(2)[rule_format, of "column t" i] stored_i(1) new(3) by simp
  have t': "sk_id t' = i" "sk_enabled t' = sk_enabled t" "t' \<in> set ?rs"
    using mem stored_i(2) by (auto simp: t'_def refresh_fields column_id)
  have get: "map_of (sv_job_metadata sv1) i = Some t'"
    unfolding meta using ts(1) mem stored_i(2) by (intro map_of_is_SomeI) (auto simp: comp_def t'_def column_id image_iff intro!: bexI[of _ "column t"])
  have dist: "distinct (map sk_id ?rs)" using ts(1) by (simp add: comp_def refresh_fields)
  obtain r0 where r0: "js_new (se_runtime env) = Inr r0" using assms(3) by (auto simp: runtime_ok_def)
  obtain r1 ids1 where reg: "register_recovered env clk ?rs r0 [] = (r1, ids1)" by fastforce
  obtain r2 where r2: "js_start (se_runtime env) r1 = (r2, Inr ())" "jobs r2 = jobs r1" using assms(3) unfolding runtime_ok_def by blast
  have sv': "sv_job_metadata sv' = sv_job_metadata sv1" "sv_scheduler_job_ids sv' = ids1" "sv_job_scheduler sv' = Some r2"
    using r0 reg r2 ids by (simp_all add: sv'_def st start_runtime_def)
  have "map_of ids1 i = None" if "\<not> sk_enabled t"
  proof -
    have "\<not> sk_enabled x" if "x \<in> set ?rs" "sk_id x = i" for x
      using that t' dist \<open>\<not> sk_enabled t\<close> by (metis inj_onD distinct_map)
    from register_recovered_disabled[OF this reg] show ?thesis by simp
  qed
  moreover have "sk_next_execution t' = Some a \<and> (\<exists>u. map_of ids1 i = Some u \<and> jobs r2 u = Some (OneShotJob (a - clk (AtRegisterOf i)) i))"
    if "sk_enabled t" "is_one_shot t" "one_shot_attempt_at (column t) (clk AtRecovery) = Some a" "clk (AtRegisterOf i) < a" for a
  proof -
    have c: "sk_cron_expression (column t) = None" using that(2) by (simp add: column_id is_one_shot_def)
    have "sk_next_execution t' = Some a" "sk_cron_expression t' = None" "sk_execute_after t' = sk_execute_after (column t)"
      using that(1,3) c by (auto simp: t'_def refresh_task_def next_execution_for_task_def column_id)
    moreover from this that(2) have "is_one_shot t'" by (auto simp: is_one_shot_def column_id)
    moreover have "one_shot_attempt_at t' (clk (AtRegisterOf i)) = Some a"
      using calculation(1) that(4) by (simp add: one_shot_attempt_at_def later_than_def)
    ultimately show ?thesis
      using register_recovered_arms[OF assms(3) dist t'(3) _ _ _ reg] that(1) t'(1,2) r2(2) by auto
  qed
  ultimately show ?thesis unfolding sv' get_job_def using get by blast
qed

end

end
