(* ===== verification/Sched_Dispatch.thy ===== *)
theory Sched_Dispatch
  imports Sched_Runs
begin

text \<open>
  What a dispatch does, on every branch: the guard of the night window, the budget of retries of a one-shot, the manual
  trigger, the registration of what was armed again, and the restart of the service on PostgreSQL.
\<close>

section \<open>The delay before a retry\<close>

lemma retry_delay_exact: "retry_delay_for n = int (min (60 * 2 ^ (unat n - 1)) 900) * 1000000000"
proof -
  let ?k = "unat (saturating_sub n 1)"
  have k: "?k = unat n - 1" by (simp add: unat_saturating_sub)
  let ?factor = "if ?k < 64 then push_bit ?k (1 :: u64) else - 1"
  have factor: "unat ?factor = (if ?k < 64 then 2 ^ ?k else 2 ^ 64 - 1)"
  proof (cases "?k < 64")
    case True
    then have "(2 :: nat) ^ ?k < 2 ^ 64" by (rule power_strict_increasing) simp
    with True show ?thesis by (simp add: push_bit_eq_mult unat_of_nat[of "2 ^ _", simplified] take_bit_nat_eq_self)
  qed (simp add: unat_minus_one_eq)
  have "unat (min (saturating_mul DISPATCH_RETRY_BASE_SECS ?factor) DISPATCH_RETRY_MAX_SECS) = min (60 * 2 ^ ?k) 900"
  proof -
    have "unat (min a b) = min (unat a) (unat b)" for a b :: u64 by (simp add: min_def word_le_nat_alt)
    moreover have "min (min (60 * unat ?factor) (2 ^ 64 - 1)) 900 = min (60 * 2 ^ ?k) 900"
    proof (cases "?k < 64")
      case True
      then show ?thesis unfolding factor by simp
    next
      case False
      then have "(2::nat) ^ 64 \<le> 2 ^ ?k" by (intro power_increasing) simp_all
      with False show ?thesis unfolding factor by simp
    qed
    ultimately show ?thesis
      by (simp add: unat_saturating_mul DISPATCH_RETRY_BASE_SECS_def DISPATCH_RETRY_MAX_SECS_def)
  qed
  then show ?thesis unfolding retry_delay_for_def Let_def by (simp only: uint_nat k)
qed

lemma retry_delay_bounds:
  "60 * 1000000000 \<le> retry_delay_for n" "retry_delay_for n \<le> 900 * 1000000000"
  by (simp_all add: retry_delay_exact min_def)

section \<open>The registry after a step\<close>

lemma get_job_record [simp]: "get_job i (record_execution env h sv) = get_job i sv"
  by (simp add: get_job_def record_execution_def)

lemma spawned_record [simp]: "sv_spawned (record_execution env h sv) = sv_spawned sv"
  by (simp add: record_execution_def)

lemma history_record [simp]: "sv_execution_history (record_execution env h sv) = sv_execution_history sv @ [h]"
  by (simp add: record_execution_def)

lemma mark_job:
  assumes "get_job i sv = Some t"
  shows "get_job i (fst (mark_execution_started env clk i s outcome sv)) = Some (marked env clk s outcome t)"
    "snd (mark_execution_started env clk i s outcome sv) = sk_dispatch_attempts (marked env clk s outcome t)"
    "sv_spawned (fst (mark_execution_started env clk i s outcome sv)) = sv_spawned sv"
    "sv_execution_history (fst (mark_execution_started env clk i s outcome sv)) = sv_execution_history sv"
  using assms by (simp_all add: get_job_def mark_execution_started_def mark_locked_def update_store_def update_conv' Let_def)

lemma rearm_job:
  assumes "get_job i sv = Some t" "is_one_shot t"
  shows "get_job i (rearm_one_shot_at env clk i w sv) = Some (rearmed clk w t)"
    "sv_spawned (rearm_one_shot_at env clk i w sv) = sv_spawned sv @ [rearmed clk w t]"
    "sv_execution_history (rearm_one_shot_at env clk i w sv) = sv_execution_history sv"
  using assms by (auto simp: get_job_def rearm_one_shot_at_def rearm_locked_def update_store_def update_conv' is_one_shot_def Let_def)

lemma rearm_other:
  assumes "get_job i sv = Some t" "\<not> is_one_shot t"
  shows "rearm_one_shot_at env clk i w sv = sv"
  using assms by (auto simp: get_job_def rearm_one_shot_at_def rearm_locked_def is_one_shot_def)

lemma rearmed_fields:
  "sk_id (rearmed clk w t) = sk_id t" "sk_enabled (rearmed clk w t) = sk_enabled t"
  "sk_dispatch_attempts (rearmed clk w t) = sk_dispatch_attempts t" "is_one_shot (rearmed clk w t) = is_one_shot t"
  "\<exists>x. sk_next_execution (rearmed clk w t) = Some x \<and> (x = w \<or> w < x \<and> one_shot_attempt_at t (clk AtRearm) = Some x)"
  by (auto simp: rearmed_def is_one_shot_def Let_def split: option.splits)

lemma marked_one_shot: "is_one_shot (marked env clk s outcome t) = is_one_shot t" "sk_enabled (marked env clk s outcome t) = sk_enabled t"
  by (simp_all add: marked_def is_one_shot_def Let_def)

lemma marked_attempts:
  assumes "\<And>l. sk_last_execution t = Some l \<Longrightarrow> l \<le> s"
  shows "sk_dispatch_attempts (marked env clk s outcome t) =
    (case outcome of Succeeded \<Rightarrow> 0 | FailedRetryable \<Rightarrow> saturating_add (sk_dispatch_attempts t) 1 | FailedObserved \<Rightarrow> sk_dispatch_attempts t)"
  using assms by (auto simp: marked_def Let_def split: option.splits)

section \<open>Dispatching\<close>

text \<open>
  C12. While the night window is closed nothing is dispatched: the outcome is the same for every dispatcher, a deferral is
  recorded, and a one-shot fired by its schedule is armed again, for the opening of the window or for an attempt after it
  that was owed already (two comments in \<open>record_missed_one_shot\<close> still say that a one-shot is never retried after a
  deferral); a cron job and a manual trigger leave the job as it was. No other operation on the job runs in between.
\<close>

theorem closed_window_defers:
  assumes "get_job i sv = Some t" "next_window_opening (clk AtWindow) sv = Some w"
    "dispatch_with_guard_from env dispatch clk new_id i source sv = (sv', res)"
  shows "res = Inl (outside_window_error env w) \<and>
    dispatch_with_guard_from env dispatch' clk new_id i source sv = (sv', res) \<and>
    (\<exists>h. sv_execution_history sv' = sv_execution_history sv @ [h] \<and> xh_status h = Deferred \<and> xh_scheduled_task_id h = i) \<and>
    (if source = Scheduled \<and> is_one_shot t
     then \<exists>t' x. get_job i sv' = Some t' \<and> sk_next_execution t' = Some x \<and>
       (x = w \<or> w < x \<and> one_shot_attempt_at t (clk AtRearm) = Some x) \<and> sk_enabled t' = sk_enabled t \<and>
       sv_spawned sv' = sv_spawned sv @ [t']
     else get_job i sv' = Some t \<and> sv_spawned sv' = sv_spawned sv)"
proof -
  let ?h = "ExecutionHistory_deferred new_id (clk AtDefer) i (EngineError_display (outside_window_error env w))"
  let ?sv = "record_execution env ?h sv"
  have eq: "dispatch_with_guard_from env d clk new_id i source sv =
      (if source = Scheduled then rearm_one_shot_at env clk i w ?sv else ?sv, Inl (outside_window_error env w))" for d
    using assms(1,2) by (simp add: dispatch_with_guard_from_def get_job_def Let_def)
  have job: "get_job i ?sv = Some t" using assms(1) by simp
  have h: "xh_status ?h = Deferred" "xh_scheduled_task_id ?h = i" by (simp_all add: ExecutionHistory_deferred_def)
  show ?thesis
  proof (cases "source = Scheduled \<and> is_one_shot t")
    case True
    with assms(3) eq have "sv' = rearm_one_shot_at env clk i w ?sv" by simp
    with True assms(3) eq h rearm_job[OF job, of env clk w] rearmed_fields[of clk w t] show ?thesis by auto
  next
    case False
    with assms(3) eq rearm_other[OF job, of env clk w] have "sv' = ?sv" by (auto split: if_splits)
    with False assms(1,3) eq h show ?thesis by auto
  qed
qed

text \<open>An attempt that fires when nothing later is owed leaves no next instant, and a retry is planned for exactly its time.\<close>

lemma marked_next:
  assumes "is_one_shot t" "one_shot_attempt_at t s = None" "\<forall>l. sk_last_execution t = Some l \<longrightarrow> l \<le> s"
  shows "sk_next_execution (marked env clk s outcome t) = None" and "sk_execute_after (marked env clk s outcome t) = sk_execute_after t"
  using assms
  by (auto simp: marked_def next_execution_for_task_def one_shot_attempt_at_def later_than_def is_one_shot_def Let_def split: option.splits)

lemma rearmed_exactly:
  assumes "sk_next_execution t = None" "\<forall>x. sk_execute_after t = Some x \<longrightarrow> x \<le> w"
  shows "sk_next_execution (rearmed clk w t) = Some w"
  using assms by (auto simp: rearmed_def one_shot_attempt_at_def later_than_def Let_def split: option.splits)

text \<open>
  C11. A dispatch of a one-shot that is due, with the window open, no later dispatch of it accounted already and no other
  operation on it in between. A success sets the count of failed attempts back to zero, and nothing is armed again. A
  failure spends one attempt of the budget, is recorded as skipped, and its error is what the caller gets. Up to three
  failures arm the job again, at the instant the dispatch started plus 60 seconds, doubled for each failure and never more
  than 900; after the fourth nothing is owed and nothing is armed.
\<close>

theorem failed_dispatch_budget:
  assumes "get_job i sv = Some t" "is_one_shot t" "next_window_opening (clk AtWindow) sv = None"
    "one_shot_attempt_at t (clk AtStart) = None" "\<forall>l. sk_last_execution t = Some l \<longrightarrow> l \<le> clk AtStart"
    "dispatch_with_guard env dispatch clk new_id i sv = (sv', res)" "n = saturating_add (sk_dispatch_attempts t) 1"
  shows "\<exists>t' h. get_job i sv' = Some t' \<and> sv_execution_history sv' = sv_execution_history sv @ [h] \<and> xh_scheduled_task_id h = i \<and>
    (case dispatch t of
       Inr _ \<Rightarrow> res = Inr () \<and> xh_status h = ExecutionStatus.Completed \<and> sk_dispatch_attempts t' = 0 \<and>
         sk_next_execution t' = None \<and> sv_spawned sv' = sv_spawned sv
     | Inl e \<Rightarrow> res = Inl e \<and> xh_status h = Skipped \<and> sk_dispatch_attempts t' = n \<and>
         (if unat n \<le> 3
          then sk_next_execution t' = Some (clk AtStart + int (min (60 * 2 ^ (unat n - 1)) 900) * 1000000000) \<and>
            sv_spawned sv' = sv_spawned sv @ [t']
          else sk_next_execution t' = None \<and> sv_spawned sv' = sv_spawned sv))"
proof (cases "dispatch t")
  case (Inr u)
  let ?m = "marked env clk (clk AtStart) Succeeded t"
  have "sk_dispatch_attempts ?m = 0" using marked_attempts[of t "clk AtStart" env clk Succeeded] assms(5) by simp
  moreover have "sk_next_execution ?m = None" using marked_next(1)[OF assms(2,4,5)] .
  moreover define h where "h = \<lparr>xh_id = new_id, xh_scheduled_task_id = i, xh_started_at = clk AtStart, xh_completed_at = Some (clk AtEnd),
    xh_status = ExecutionStatus.Completed, xh_result_summary = Some ''Task dispatched successfully'', xh_deferred_reason = None\<rparr>"
  moreover have "sv' = record_execution env h (fst (mark_execution_started env clk i (clk AtStart) Succeeded sv))" "res = Inr ()"
    using Inr assms(1,3,6) by (simp_all add: dispatch_with_guard_def dispatch_with_guard_from_def get_job_def h_def)
  ultimately show ?thesis using mark_job[OF assms(1), of env clk "clk AtStart" Succeeded]
    by (intro exI[of _ ?m] exI[of _ h]) (simp add: Inr)
next
  case (Inl e)
  let ?m = "marked env clk (clk AtStart) FailedRetryable t"
  obtain sv1 k where mark: "mark_execution_started env clk i (clk AtStart) FailedRetryable sv = (sv1, k)" by fastforce
  note m = mark_job[OF assms(1), of env clk "clk AtStart" FailedRetryable, unfolded mark fst_conv snd_conv]
  have n: "sk_dispatch_attempts ?m = n" using marked_attempts[of t "clk AtStart" env clk FailedRetryable] assms(5,7) by simp
  have three: "n \<le> MAX_DISPATCH_RETRIES \<longleftrightarrow> unat n \<le> 3" by (simp add: MAX_DISPATCH_RETRIES_def word_le_nat_alt)
  let ?at = "clk AtStart + retry_delay_for n"
  let ?retry = "if n \<le> MAX_DISPATCH_RETRIES then Some ?at else None"
  let ?h = "\<lparr>xh_id = new_id, xh_scheduled_task_id = i, xh_started_at = clk AtStart, xh_completed_at = Some (clk AtEnd),
    xh_status = Skipped, xh_result_summary = Some (skip_summary env e n ?retry True), xh_deferred_reason = None\<rparr>"
  have eq: "sv' = (case ?retry of None \<Rightarrow> record_execution env ?h sv1 | Some x \<Rightarrow> rearm_one_shot_at env clk i x (record_execution env ?h sv1))"
    "res = Inl e"
    using assms(1-3,6) Inl m(2) n mark
    by (auto simp: dispatch_with_guard_def dispatch_with_guard_from_def get_job_def dispatch_failed_def Let_def)
  have job: "get_job i (record_execution env ?h sv1) = Some ?m" using m(1) by simp
  have shot: "is_one_shot ?m" using assms(2) by (simp add: marked_one_shot)
  have next_m: "sk_next_execution ?m = None" "sk_execute_after ?m = sk_execute_after t" using marked_next[OF assms(2,4,5)] .
  moreover have "\<forall>x. sk_execute_after t = Some x \<longrightarrow> x \<le> clk AtStart"
    using assms(4) by (auto simp: one_shot_attempt_at_def later_than_def split: option.splits if_splits)
  moreover have "0 \<le> retry_delay_for n" using retry_delay_bounds(1)[of n] by linarith
  ultimately have at: "sk_next_execution (rearmed clk ?at ?m) = Some ?at" by (intro rearmed_exactly) auto
  show ?thesis
  proof (cases "n \<le> MAX_DISPATCH_RETRIES")
    case True
    with eq Inl three rearm_job[OF job shot, of env clk ?at] m(3,4) n at rearmed_fields(3)[of clk ?at ?m]
    show ?thesis by (auto simp: retry_delay_exact)
  qed (use eq Inl three job m(3,4) n next_m(1) in auto)
qed

text \<open>
  A manual trigger never moves the plan of a one-shot: whatever the window and the dispatcher say, the owed attempt
  and the registration stay as they are, and no attempt of the retry budget is spent.
\<close>

lemma manual_trigger_keeps_plan:
  assumes "get_job i sv = Some t" "is_one_shot t" "sk_enabled t" "sk_next_execution t = Some w" "clk AtStart < w"
    "dispatch_with_guard_from env dispatch clk new_id i Manual sv = (sv', res)"
  shows "\<exists>t'. get_job i sv' = Some t' \<and> sk_next_execution t' = Some w \<and> sk_enabled t' \<and>
    sk_dispatch_attempts t' \<le> sk_dispatch_attempts t \<and> sv_spawned sv' = sv_spawned sv \<and>
    sv_scheduler_job_ids sv' = sv_scheduler_job_ids sv \<and> sv_job_scheduler sv' = sv_job_scheduler sv"
proof (cases "next_window_opening (clk AtWindow) sv")
  case (Some x)
  with assms(1,3,4,6) show ?thesis
    by (auto simp: dispatch_with_guard_from_def get_job_def record_execution_def Let_def)
next
  case None
  have m: "sk_next_execution (marked env clk (clk AtStart) outcome t) = Some w" "sk_enabled (marked env clk (clk AtStart) outcome t)"
    "outcome \<noteq> FailedRetryable \<Longrightarrow> sk_dispatch_attempts (marked env clk (clk AtStart) outcome t) \<le> sk_dispatch_attempts t" for outcome
    using assms(2-5)
    by (auto simp: marked_def next_execution_for_task_def one_shot_attempt_at_def later_than_def is_one_shot_def Let_def
        split: option.splits DispatchOutcome.splits)
  have keep: "sv_scheduler_job_ids (fst (mark_execution_started env clk i s outcome sv)) = sv_scheduler_job_ids sv"
    "sv_job_scheduler (fst (mark_execution_started env clk i s outcome sv)) = sv_job_scheduler sv" for s outcome
    by (simp_all add: mark_execution_started_def mark_locked_def update_store_def Let_def split: option.splits)
  have "\<exists>outcome h. outcome \<noteq> FailedRetryable \<and> sv' = record_execution env h (fst (mark_execution_started env clk i (clk AtStart) outcome sv))"
  proof (cases "dispatch t")
    case (Inr u)
    with None assms(1,6) show ?thesis by (auto simp: dispatch_with_guard_from_def get_job_def)
  next
    case (Inl e)
    with None assms(1,6) have "sv' = dispatch_failed env clk new_id i False e sv" by (simp add: dispatch_with_guard_from_def get_job_def)
    then have "\<exists>h. sv' = record_execution env h (fst (mark_execution_started env clk i (clk AtStart) FailedObserved sv))"
      by (auto simp: dispatch_failed_def Let_def split: prod.splits)
    then show ?thesis by blast
  qed
  then obtain outcome h where o: "outcome \<noteq> FailedRetryable"
    "sv' = record_execution env h (fst (mark_execution_started env clk i (clk AtStart) outcome sv))" by blast
  with m[of outcome] mark_job[OF assms(1), of env clk "clk AtStart" outcome] show ?thesis
    by (auto simp: record_execution_def get_job_def keep)
qed

section \<open>What was armed again fires\<close>

text \<open>
  C13. The registration that a deferral or a failure spawns, for a job that is still in the registry as it was armed, and
  enabled: the one-shot is put into the runtime, to fire at exactly the instant the registry shows as owed, and a
  registration it replaces, which the runtime still holds, is taken out of it; so long as that instant is still ahead. A job
  that was paused or removed in between is not covered: the spawned task does not look at the registry.
\<close>

theorem spawned_registration_arms:
  assumes "runtime_ok (se_runtime env) jobs" "sv_spawned sv = t # rest" "sv_job_scheduler sv = Some r" "is_one_shot t"
    "get_job (sk_id t) sv = Some t" "sk_enabled t" "sk_next_execution t = Some w" "clk AtRegister < w"
    "\<forall>v. map_of (sv_scheduler_job_ids sv) (sk_id t) = Some v \<longrightarrow> jobs r v \<noteq> None"
  shows "\<exists>u r'. map_of (sv_scheduler_job_ids (sched_event env (RunSpawned clk) sv)) (sk_id t) = Some u \<and>
    sv_job_scheduler (sched_event env (RunSpawned clk) sv) = Some r' \<and> sv_spawned (sched_event env (RunSpawned clk) sv) = rest \<and>
    get_job (sk_id t) (sched_event env (RunSpawned clk) sv) = Some t \<and>
    jobs r' u = Some (OneShotJob (w - clk AtRegister) (sk_id t)) \<and>
    (\<forall>v. map_of (sv_scheduler_job_ids sv) (sk_id t) = Some v \<longrightarrow> jobs r' v = None)"
proof -
  obtain r1 res where reg: "register_one_shot_with_scheduler env (clk AtRegister) t r = (r1, res)" by fastforce
  have owed: "one_shot_attempt_at t (clk AtRegister) = Some w" using assms(7,8) by (simp add: one_shot_attempt_at_def later_than_def)
  with register_one_shot_adds[OF assms(1) reg] assms(4) obtain u where u: "registered_id res = Some u" "jobs r u = None"
    "jobs r1 = (jobs r)(u \<mapsto> OneShotJob (w - clk AtRegister) (sk_id t))" by (auto simp: is_one_shot_def adds_job_def)
  then have res: "res = Inr (Some u)" by (auto simp: registered_id_def split: sum.splits)
  let ?r = "case map_of (sv_scheduler_job_ids sv) (sk_id t) of None \<Rightarrow> r1 | Some v \<Rightarrow> fst (js_remove (se_runtime env) v r1)"
  have "jobs ?r u = Some (OneShotJob (w - clk AtRegister) (sk_id t)) \<and> (\<forall>v. map_of (sv_scheduler_job_ids sv) (sk_id t) = Some v \<longrightarrow> jobs ?r v = None)"
    using u assms(1,9) by (auto simp: runtime_ok_def split: option.splits)
  moreover have "sched_event env (RunSpawned clk) sv = sv\<lparr>sv_spawned := rest, sv_job_scheduler := Some ?r,
      sv_scheduler_job_ids := AList.update (sk_id t) u (sv_scheduler_job_ids sv)\<rparr>"
    using assms(2,3) reg res by (simp add: rearm_registration_task_def Let_def)
  ultimately show ?thesis using assms(5) by (simp add: update_conv' get_job_def)
qed

section \<open>The registry survives\<close>

text \<open>
  In every run of the scheduler on PostgreSQL in which operations do not overlap and no query fails, what the registry shows of a job is in the
  table of scheduled tasks, up to the precision of its columns.
\<close>

lemma registry_durable:
  assumes "pq_valid s" "pq_faults s = []" "se_store env = postgres_schedule"
    "get_job i (sched_run env events (SchedulerService_new s)) = Some t"
  shows "sk_id t = i \<and> pq_stored (sv_store (sched_run env events (SchedulerService_new s))) i = Some (pq_column t)"
  by (rule pg_reliable.registry_kept[OF assms])

text \<open>
  When the gateway is restarted after any such run, the new service has the jobs of the old one: a paused job is there
  and is not registered, and an enabled one-shot that is owed an attempt is registered to fire at that instant.
\<close>

lemma restart_rearms:
  assumes "pq_valid s" "pq_faults s = []" "se_store env = postgres_schedule" "runtime_ok (se_runtime env) jobs"
    "sv = sched_run env events (SchedulerService_new s)" "get_job i sv = Some t"
    "sv' = fst (start env clk new_id (SchedulerService_new (sv_store sv)))"
  shows "\<exists>t'. get_job i sv' = Some t' \<and> sk_enabled t' = sk_enabled t \<and>
    (\<not> sk_enabled t \<longrightarrow> sk_next_execution t' = None \<and> map_of (sv_scheduler_job_ids sv') i = None) \<and>
    (sk_enabled t \<and> is_one_shot t \<longrightarrow> (\<forall>a. one_shot_attempt_at (pq_column t) (clk AtRecovery) = Some a \<longrightarrow> clk (AtRegisterOf i) < a \<longrightarrow>
      sk_next_execution t' = Some a \<and>
      (\<exists>u r. sv_job_scheduler sv' = Some r \<and> map_of (sv_scheduler_job_ids sv') i = Some u \<and>
        jobs r u = Some (OneShotJob (a - clk (AtRegisterOf i)) i))))"
proof -
  let ?t = "fst (refresh_task env clk (pq_column t))"
  have "durable pq_stored pq_column (\<lambda>s. pq_valid s \<and> pq_faults s = []) (SchedulerService_new s)"
    using assms(1,2) by (simp add: durable_def SchedulerService_new_def)
  from pg_reliable.restart[OF pg_reliable.run_durable[OF this assms(3), of events, folded assms(5)] assms(3,4,6), of clk new_id]
  have "get_job i sv' = Some ?t \<and> (\<not> sk_enabled t \<longrightarrow> map_of (sv_scheduler_job_ids sv') i = None) \<and>
    (sk_enabled t \<and> is_one_shot t \<longrightarrow> (\<forall>a. one_shot_attempt_at (pq_column t) (clk AtRecovery) = Some a \<longrightarrow> clk (AtRegisterOf i) < a \<longrightarrow>
      sk_next_execution ?t = Some a \<and>
      (\<exists>u r. sv_job_scheduler sv' = Some r \<and> map_of (sv_scheduler_job_ids sv') i = Some u \<and>
        jobs r u = Some (OneShotJob (a - clk (AtRegisterOf i)) i))))"
    unfolding assms(7) by auto
  moreover have "sk_enabled ?t = sk_enabled t" by (simp add: refresh_fields pq_column_fields)
  moreover have "sk_next_execution ?t = None" if "\<not> sk_enabled t"
    using that by (simp add: refresh_task_def pq_column_fields)
  ultimately show ?thesis by (intro exI[of _ ?t]) blast
qed

end
