(* ===== verification/Sched_Examples.thy ===== *)
theory Sched_Examples
  imports Sched_Dispatch
begin

text \<open>
  Concrete runs of the scheduler on an empty PostgreSQL store, with a runtime that keeps its jobs in a list: the
  witnesses of the theorems, and the runs that show where the code differs from what it means to do.
\<close>

section \<open>A runtime and a store\<close>

definition plain_id :: "(Uuid \<times> RuntimeJob) list \<Rightarrow> Uuid" where
  "plain_id jobs = CHR ''j'' # concat (map fst jobs)"

definition plain_runtime :: "(Uuid \<times> RuntimeJob) list JobScheduler" where
  "plain_runtime = \<lparr>js_new = Inr [], js_make = (\<lambda>job. Inr ()), js_add = (\<lambda>job jobs. ((plain_id jobs, job) # jobs, Inr (plain_id jobs))),
     js_remove = (\<lambda>u jobs. (AList.delete u jobs, Inr ())), js_start = (\<lambda>jobs. (jobs, Inr ())), js_shutdown = (\<lambda>jobs. (jobs, Inr ()))\<rparr>"

definition plain_croner :: Croner where
  "plain_croner = \<lparr>cr_parse = (\<lambda>e. Inr ()), cr_next = (\<lambda>e t. Inr (t + 1))\<rparr>"

definition sched_env :: "(PostgresScheduleStore, (Uuid \<times> RuntimeJob) list) SchedulerEnv" where
  "sched_env = \<lparr>se_store = postgres_schedule, se_croner = plain_croner, se_runtime = plain_runtime,
     se_parse_tz = (\<lambda>name. Some (fixed_zone name 0)), se_show = (\<lambda>t. show_int t)\<rparr>"

lemma plain_id_fresh: "map_of jobs (plain_id jobs) = None"
proof -
  have "length u \<le> length (concat (map fst jobs))" if "(u, j) \<in> set jobs" for u j
    using that by (induction jobs) auto
  then have "(plain_id jobs, j) \<notin> set jobs" for j by (fastforce simp: plain_id_def)
  then show ?thesis by (auto simp: map_of_eq_None_iff)
qed

lemma plain_runtime_ok: "runtime_ok (se_runtime sched_env) map_of"
  by (simp add: runtime_ok_def sched_env_def plain_runtime_def plain_id_fresh delete_conv')

lemma sched_env_store: "se_store sched_env = postgres_schedule"
  by (simp add: sched_env_def)

definition empty_tables :: PostgresScheduleStore where
  "empty_tables = \<lparr>pq_tasks = [], pq_history = [], pq_faults = []\<rparr>"

lemma empty_tables_ok: "pq_valid empty_tables" "pq_faults empty_tables = []"
  by (simp_all add: empty_tables_def pq_valid_def)

section \<open>A job for noon\<close>

definition noon_job :: ScheduledTask where
  "noon_job = ScheduledTask_one_shot ''job-1'' 0 ''review'' ''p1'' (from_hms 12 0 0) 0 0 ''UTC''"

definition hour :: "int \<Rightarrow> clock" where
  "hour h = (\<lambda>r. from_hms h 0 0)"

definition no_worker :: "ScheduledTask \<Rightarrow> (EngineError, unit) result" where
  "no_worker task = Inl (TaskError ''no worker'')"

definition noon_events :: "SchedEvent list" where
  "noon_events = [Start (hour 1) id, AddOneShot (hour 2) noon_job]"

definition noon_service :: "(PostgresScheduleStore, (Uuid \<times> RuntimeJob) list) SchedulerService" where
  "noon_service = sched_run sched_env noon_events (SchedulerService_new empty_tables)"

definition failed_service :: "(PostgresScheduleStore, (Uuid \<times> RuntimeJob) list) SchedulerService" where
  "failed_service = sched_event sched_env (OneShotFires no_worker NoOpLockProvider (hour 12) ''h-1'' ''job-1'') noon_service"

lemmas sched_ops =
  start_def start_runtime_def recover_execution_history_def add_one_shot_job_def persist_and_register_def register_new_def
  register_one_shot_with_scheduler_def one_shot_attempt_at_def later_than_def one_shot_duration_def insert_metadata_def
  one_shot_callback_def forget_scheduler_job_id_def dispatch_with_guard_def dispatch_with_guard_from_def next_window_opening_def
  dispatch_failed_def mark_execution_started_def mark_locked_def marked_def update_store_def record_execution_def rearm_one_shot_at_def rearm_locked_def rearmed_def
  next_execution_for_task_def is_one_shot_def retry_delay_exact MAX_DISPATCH_RETRIES_def rearm_registration_task_def
  set_job_enabled_def commit_toggle_def toggle_candidate_def toggle_runtime_def unregister_runtime_job_def replace_metadata_def

lemmas sched_store_ops =
  postgres_schedule_def pq_save_task_def pq_list_tasks_def pq_update_task_def pq_save_execution_def pq_list_executions_def
  pq_query_def

lemmas sched_parts =
  sched_env_def plain_runtime_def plain_croner_def empty_tables_def SchedulerService_new_def hour_def plain_id_def
  noon_job_def ScheduledTask_one_shot_def ScheduledTask_new_def from_hms_def no_worker_def NoOpLockProvider_def

lemmas sched_recovery =
  recover_tasks.simps register_runtime_job_def recover_task_def refresh_task_def record_missed_one_shot_def insert_execution_history_ordered_def
  missed_entry_def proves_attempt_def parse_execution_status_def row_to_history_def row_to_scheduled_def task_to_row_def
  timestamptz_def timestamp_micros_def EXECUTION_HISTORY_RECOVERY_LIMIT_def dispatch_attempts_to_column_def attempts_of_column_def

definition noon_pending :: ScheduledTask where
  "noon_pending = noon_job\<lparr>sk_next_execution := Some (from_hms 12 0 0)\<rparr>"

lemma noon_service_eq:
  "noon_service = \<lparr>sv_night_window = None, sv_job_metadata = [(''job-1'', noon_pending)], sv_execution_history = [],
     sv_store = \<lparr>pq_tasks = [task_to_row noon_pending], pq_history = [], pq_faults = []\<rparr>, sv_started = True,
     sv_job_scheduler = Some [(''j'', OneShotJob (from_hms 10 0 0) ''job-1'')], sv_scheduler_job_ids = [(''job-1'', ''j'')],
     sv_spawned = []\<rparr>"
  by (simp add: noon_service_def noon_events_def sched_run_def sched_ops sched_store_ops sched_parts noon_pending_def)

definition noon_failed :: ScheduledTask where
  "noon_failed = noon_job\<lparr>sk_last_execution := Some (from_hms 12 0 0), sk_next_execution := Some (from_hms 12 1 0),
     sk_updated_at := from_hms 12 0 0, sk_dispatch_attempts := 1\<rparr>"

lemma failed_service_eq:
  "failed_service = noon_service\<lparr>sv_job_metadata := [(''job-1'', noon_failed)], sv_scheduler_job_ids := [],
     sv_execution_history := sv_execution_history failed_service, sv_store := sv_store failed_service, sv_spawned := [noon_failed]\<rparr>"
  by (simp add: failed_service_def noon_service_eq get_job_def sched_ops sched_store_ops sched_parts noon_pending_def noon_failed_def
      saturating_add_def Let_def)

lemma failed_service_shape:
  "\<exists>h s. failed_service = noon_service\<lparr>sv_job_metadata := [(''job-1'', noon_failed)], sv_scheduler_job_ids := [],
     sv_execution_history := [h], sv_store := s, sv_spawned := [noon_failed]\<rparr>"
  by (simp add: failed_service_def noon_service_eq get_job_def sched_ops sched_store_ops sched_parts noon_pending_def noon_failed_def
      saturating_add_def Let_def)

section \<open>Witnesses\<close>

theorem failed_dispatch_budget_witness:
  "\<exists>t'. get_job ''job-1'' (fst (dispatch_with_guard sched_env no_worker (hour 12) ''h-1'' ''job-1'' noon_service)) = Some t' \<and>
     sk_dispatch_attempts t' = 1 \<and> sk_next_execution t' = Some (from_hms 12 1 0)"
proof -
  obtain sv' res where d: "dispatch_with_guard sched_env no_worker (hour 12) ''h-1'' ''job-1'' noon_service = (sv', res)" by fastforce
  have "get_job ''job-1'' noon_service = Some noon_pending" "is_one_shot noon_pending"
    "next_window_opening (hour 12 AtWindow) noon_service = None" "one_shot_attempt_at noon_pending (hour 12 AtStart) = None"
    "\<forall>l. sk_last_execution noon_pending = Some l \<longrightarrow> l \<le> hour 12 AtStart" "1 = saturating_add (sk_dispatch_attempts noon_pending) 1"
    "no_worker noon_pending = Inl (TaskError ''no worker'')"
    by (simp_all add: noon_service_eq get_job_def next_window_opening_def no_worker_def noon_pending_def noon_job_def
        ScheduledTask_one_shot_def ScheduledTask_new_def is_one_shot_def saturating_add_def one_shot_attempt_at_def later_than_def
        hour_def from_hms_def)
  from failed_dispatch_budget[OF this(1-5) d this(6)] this(7) show ?thesis
    unfolding d fst_conv by (auto simp: hour_def from_hms_def)
qed

text \<open>The same job when a window from 22:00 to 23:00 is configured.\<close>

definition late_window :: NightWindowConfig where
  "late_window = NightWindowConfig_new (from_hms 22 0 0) (from_hms 23 0 0) ''UTC''"

definition night_service :: "(PostgresScheduleStore, (Uuid \<times> RuntimeJob) list) SchedulerService" where
  "night_service = sched_event sched_env (SetWindow late_window) noon_service"

lemma night_service_eq:
  "night_service = noon_service\<lparr>sv_night_window := Some (NightWindow_new (from_hms 22 0 0) (from_hms 23 0 0) (fixed_zone ''UTC'' 0))\<rparr>"
  by (simp add: night_service_def set_night_window_def from_config_def late_window_def NightWindowConfig_new_def sched_env_def)

lemma night_service_closed:
  "next_window_opening (hour 12 r) night_service = Some (from_hms 22 0 0)"
  by (simp add: night_service_eq next_window_opening_def NightWindow_new_def is_within_window_def crosses_midnight_def local_time_def
      next_window_start_def today_window_start_def zoned_or_def and_time_def date_naive_def hour_def from_hms_def Let_def)

theorem closed_window_defers_witness:
  "\<exists>t' x. get_job ''job-1'' (fst (dispatch_with_guard_from sched_env LoggingDispatcher (hour 12) ''h-1'' ''job-1'' Scheduled night_service)) = Some t' \<and>
     sk_next_execution t' = Some x \<and> from_hms 22 0 0 \<le> x"
proof -
  obtain sv' res where d: "dispatch_with_guard_from sched_env LoggingDispatcher (hour 12) ''h-1'' ''job-1'' Scheduled night_service = (sv', res)" by fastforce
  have "get_job ''job-1'' night_service = Some noon_pending" "is_one_shot noon_pending"
    by (simp_all add: night_service_eq noon_service_eq get_job_def noon_pending_def noon_job_def ScheduledTask_one_shot_def
        ScheduledTask_new_def is_one_shot_def)
  with closed_window_defers[OF this(1) night_service_closed d, of no_worker] show ?thesis by (auto simp: d)
qed

theorem spawned_registration_arms_witness:
  "\<exists>u r'. map_of (sv_scheduler_job_ids (sched_event sched_env (RunSpawned (hour 12)) failed_service)) ''job-1'' = Some u \<and>
     sv_job_scheduler (sched_event sched_env (RunSpawned (hour 12)) failed_service) = Some r' \<and>
     map_of r' u = Some (OneShotJob (from_hms 0 1 0) ''job-1'')"
proof -
  have fields: "sk_id noon_failed = ''job-1''" "sk_enabled noon_failed" "is_one_shot noon_failed"
    "sk_next_execution noon_failed = Some (from_hms 12 1 0)"
    by (simp_all add: noon_failed_def noon_job_def ScheduledTask_one_shot_def ScheduledTask_new_def is_one_shot_def)
  have sv: "sv_spawned failed_service = noon_failed # []" "sv_job_scheduler failed_service = Some [(''j'', OneShotJob (from_hms 10 0 0) ''job-1'')]"
    "get_job (sk_id noon_failed) failed_service = Some noon_failed" "sv_scheduler_job_ids failed_service = []"
    by (subst failed_service_eq, simp add: noon_service_eq get_job_def fields)+
  have due: "hour 12 AtRegister < from_hms 12 1 0" by (simp add: hour_def from_hms_def)
  have "\<forall>v. map_of (sv_scheduler_job_ids failed_service) (sk_id noon_failed) = Some v \<longrightarrow>
      map_of [(''j'', OneShotJob (from_hms 10 0 0) ''job-1'')] v \<noteq> None" by (simp add: sv(4))
  from spawned_registration_arms[where clk = "hour 12", OF plain_runtime_ok sv(1,2) fields(3) sv(3) fields(2,4) due this] show ?thesis
    by (auto simp: fields hour_def from_hms_def)
qed

section \<open>Where the code differs\<close>

text \<open>
  A job is paused and resumed at once by two requests. The pause changes the registry and has still to write the row when
  the resume runs from start to end; then the row of the pause is written, over the newer one. The registry shows the job
  enabled and the runtime holds it, the table has it paused, and a restart brings it up paused.
\<close>

definition overlapping_toggles :: "(PostgresScheduleStore, (Uuid \<times> RuntimeJob) list) SchedulerService" where
  "overlapping_toggles = (case commit_toggle sched_env (hour 3) ''job-1'' False noon_service of
     (sv, Inr paused) \<Rightarrow> update_store sched_env paused (fst (set_job_enabled sched_env (hour 4) ''job-1'' True sv))
   | (sv, Inl _) \<Rightarrow> sv)"

lemma overlapping_toggles_stale:
  "map_option sk_enabled (get_job ''job-1'' overlapping_toggles) = Some True"
  "map_of (sv_scheduler_job_ids overlapping_toggles) ''job-1'' \<noteq> None"
  "map_option sk_enabled (pq_stored (sv_store overlapping_toggles) ''job-1'') = Some False"
  "map_option sk_enabled (get_job ''job-1'' (fst (start sched_env (hour 5) id (SchedulerService_new (sv_store overlapping_toggles))))) = Some False"
  by (simp_all add: overlapping_toggles_def noon_service_eq get_job_def pq_stored_def sched_ops sched_store_ops sched_parts sched_recovery
      noon_pending_def Let_def)

text \<open>
  A job that is paused while the registration of its retry is still to run is registered all the same: the spawned task
  does not look at the registry, and neither does the dispatch look at \<open>enabled\<close>.
\<close>

lemma paused_job_rearmed:
  defines "sv \<equiv> sched_run sched_env [SetEnabled (hour 12) ''job-1'' False, RunSpawned (hour 12)] failed_service"
  shows "map_option sk_enabled (get_job ''job-1'' sv) = Some False" "map_of (sv_scheduler_job_ids sv) ''job-1'' \<noteq> None"
    "map_option sk_enabled (get_job ''job-1'' (sched_event sched_env (OneShotFires LoggingDispatcher NoOpLockProvider (hour 13) ''h-2'' ''job-1'') sv)) = Some False"
    "map xh_status (drop 1 (sv_execution_history (sched_event sched_env (OneShotFires LoggingDispatcher NoOpLockProvider (hour 13) ''h-2'' ''job-1'') sv))) =
       [ExecutionStatus.Completed]"
proof -
  obtain h s where f: "failed_service = noon_service\<lparr>sv_job_metadata := [(''job-1'', noon_failed)], sv_scheduler_job_ids := [],
      sv_execution_history := [h], sv_store := s, sv_spawned := [noon_failed]\<rparr>" using failed_service_shape by blast
  show "map_option sk_enabled (get_job ''job-1'' sv) = Some False" "map_of (sv_scheduler_job_ids sv) ''job-1'' \<noteq> None"
    "map_option sk_enabled (get_job ''job-1'' (sched_event sched_env (OneShotFires LoggingDispatcher NoOpLockProvider (hour 13) ''h-2'' ''job-1'') sv)) = Some False"
    "map xh_status (drop 1 (sv_execution_history (sched_event sched_env (OneShotFires LoggingDispatcher NoOpLockProvider (hour 13) ''h-2'' ''job-1'') sv))) =
       [ExecutionStatus.Completed]"
    by (simp_all add: sv_def sched_run_def get_job_def f noon_service_eq sched_ops sched_parts noon_failed_def LoggingDispatcher_def Let_def)
qed

text \<open>
  The retry is planned from the start of the dispatch. When the dispatcher takes two minutes to fail, the first retry, a
  minute after the start, is in the past when it is to be registered, and the job is not registered at all.
\<close>

definition slow_clock :: clock where
  "slow_clock r = (if r = AtWindow \<or> r = AtStart \<or> r = AtTick then from_hms 12 0 0 else from_hms 12 2 0)"

lemma slow_failure_loses_retry:
  defines "sv \<equiv> sched_run sched_env [OneShotFires no_worker NoOpLockProvider slow_clock ''h-1'' ''job-1'', RunSpawned slow_clock] noon_service"
  shows "map_option sk_dispatch_attempts (get_job ''job-1'' sv) = Some 1" "map_option sk_next_execution (get_job ''job-1'' sv) = Some (Some (from_hms 12 1 0))"
    "sv_spawned sv = []" "sv_scheduler_job_ids sv = []"
  by (simp_all add: sv_def sched_run_def noon_service_eq get_job_def sched_ops sched_store_ops sched_parts noon_pending_def slow_clock_def
      saturating_add_def Let_def)

text \<open>A job whose registration fails is reported as an error, but its row stays, and the next start brings it up.\<close>

definition refusing_env :: "(PostgresScheduleStore, (Uuid \<times> RuntimeJob) list) SchedulerEnv" where
  "refusing_env = sched_env\<lparr>se_runtime := plain_runtime\<lparr>js_make := (\<lambda>job. Inl ''refused'')\<rparr>\<rparr>"

lemma refused_add_is_stored:
  defines "started \<equiv> sched_run refusing_env [Start (hour 1) id] (SchedulerService_new empty_tables)"
  shows "snd (add_one_shot_job refusing_env (hour 2) noon_job started) = Inl (InternalError ''Failed to create one-shot job: refused'')"
    "get_job ''job-1'' (fst (add_one_shot_job refusing_env (hour 2) noon_job started)) = None"
    "pq_stored (sv_store (fst (add_one_shot_job refusing_env (hour 2) noon_job started))) ''job-1'' \<noteq> None"
  by (simp_all add: started_def refusing_env_def sched_run_def get_job_def pq_stored_def sched_ops sched_store_ops sched_parts Let_def)

text \<open>
  A job that was deferred and then missed: PostgreSQL lists the deferral, which is later than the instant of the miss,
  as the newest entry, so the miss that was recorded does not suppress the next one.
\<close>

definition deferred_tables :: PostgresScheduleStore where
  "deferred_tables = sv_store (sched_event sched_env (OneShotFires LoggingDispatcher NoOpLockProvider
     (\<lambda>r. from_hms 12 0 1) ''h-1'' ''job-1'') night_service)"

definition restarted :: "int \<Rightarrow> Uuid \<Rightarrow> PostgresScheduleStore \<Rightarrow> PostgresScheduleStore" where
  "restarted h new_id tables = sv_store (fst (start sched_env (hour h) (\<lambda>i. new_id) (SchedulerService_new tables)))"

definition noon_deferred :: ScheduledTask where
  "noon_deferred = noon_job\<lparr>sk_next_execution := Some (from_hms 22 0 0), sk_updated_at := from_hms 12 0 1\<rparr>"

definition deferral_row :: ExecutionHistoryRow where
  "deferral_row = \<lparr>hr_id = ''h-1'', hr_scheduled_task_id = ''job-1'', hr_started_at = from_hms 12 0 1,
     hr_completed_at = Some (from_hms 12 0 1), hr_status = ''Deferred'', hr_result_summary = None,
     hr_deferred_reason = Some (EngineError_display (outside_window_error sched_env (from_hms 22 0 0)))\<rparr>"

lemma deferred_tables_eq:
  "deferred_tables = \<lparr>pq_tasks = [task_to_row noon_deferred], pq_history = [deferral_row], pq_faults = []\<rparr>"
  by (simp add: deferred_tables_def night_service_eq noon_service_eq sched_ops sched_store_ops sched_parts noon_pending_def
      NightWindow_new_def is_within_window_def crosses_midnight_def local_time_def next_window_start_def today_window_start_def
      zoned_or_def and_time_def date_naive_def ExecutionHistory_deferred_def noon_deferred_def deferral_row_def outside_window_error_def
      task_to_row_def timestamptz_def timestamp_micros_def Let_def)

definition miss_row :: "Uuid \<Rightarrow> ExecutionHistoryRow" where
  "miss_row new_id = \<lparr>hr_id = new_id, hr_scheduled_task_id = ''job-1'', hr_started_at = from_hms 12 0 0, hr_completed_at = None,
     hr_status = ''Skipped'', hr_result_summary = xh_result_summary (missed_entry sched_env new_id ''job-1'' (from_hms 12 0 0)),
     hr_deferred_reason = None\<rparr>"

lemma first_restart:
  "restarted 30 ''m-1'' deferred_tables =
     \<lparr>pq_tasks = [task_to_row (noon_job\<lparr>sk_updated_at := from_hms 30 0 0\<rparr>)], pq_history = [deferral_row, miss_row ''m-1''], pq_faults = []\<rparr>"
  by (simp add: restarted_def deferred_tables_eq deferral_row_def noon_deferred_def miss_row_def sched_ops sched_store_ops sched_parts
      sched_recovery Let_def)

lemma miss_recorded_again:
  "pq_history (restarted 31 ''m-2'' (restarted 30 ''m-1'' deferred_tables)) = [deferral_row, miss_row ''m-1'', miss_row ''m-2'']"
  unfolding first_restart
  by (simp add: restarted_def deferral_row_def miss_row_def sched_ops sched_store_ops sched_parts sched_recovery Let_def)

end
