(* ===== verification/Sched_Gateway.thy ===== *)
theory Sched_Gateway
  imports Sched_Examples
begin

text \<open>
  The scheduler as the gateway uses it: the job operations of \<open>EngineApi\<close> (\<open>crates/uc-engine/src/local.rs\<close>), the dispatcher
  and the distributed lock over NATS (\<open>crates/uc-grpc/src/scheduler_dispatch.rs\<close>) and the watcher that announces the
  opening and closing of the window (\<open>crates/uc-grpc-server/src/window_watcher.rs\<close>). The NATS client is an argument: what
  its \<open>create\<close> answers, and what its \<open>publish\<close> answers.
\<close>

section \<open>The operations of the engine\<close>

record SchedulerStatus =
  ss_available :: bool
  ss_is_running :: bool
  ss_night_window :: "NightWindowConfig option"
  ss_jobs :: "ScheduledTask list"
  ss_execution_history :: "ExecutionHistory list"

record SchedulerTriggerResult =
  tg_success :: bool
  tg_job_id :: string
  tg_error :: "string option"

record AddCronJobApiRequest =
  ar_description :: string
  ar_cron_expression :: string
  ar_project_id :: string
  ar_night_window_start :: "NaiveTime option"
  ar_night_window_end :: "NaiveTime option"
  ar_timezone :: string
  ar_enabled :: bool

record AddCronJobResult =
  aj_success :: bool
  aj_job_id :: string
  aj_error :: "string option"

record RemoveJobResult =
  rj_success :: bool
  rj_error :: "string option"

record SchedulerJobEnabledResult =
  je_success :: bool
  je_job_id :: string
  je_enabled :: bool
  je_error :: "string option"

definition get_scheduler_status :: "('s, 'r) SchedulerService \<Rightarrow> SchedulerStatus" where
  "get_scheduler_status sv =
     \<lparr>ss_available = True, ss_is_running = sv_started sv, ss_night_window = get_night_window_config sv,
      ss_jobs = list_jobs sv, ss_execution_history = get_execution_history None sv\<rparr>"

text \<open>\<open>Uuid::parse_str\<close> is an argument, with the text of its error.\<close>

definition invalid_job_id :: "string \<Rightarrow> string \<Rightarrow> EngineError" where
  "invalid_job_id job_id e = ConfigError (''Invalid job ID '' @ CHR 0x27 # job_id @ CHR 0x27 # '': '' @ e)"

definition trigger_scheduler_job ::
  "('s, 'r) SchedulerEnv \<Rightarrow> (string \<Rightarrow> (string, Uuid) result) \<Rightarrow> (ScheduledTask \<Rightarrow> (EngineError, unit) result) \<Rightarrow> clock \<Rightarrow> Uuid \<Rightarrow> string \<Rightarrow>
     ('s, 'r) SchedulerService \<Rightarrow> ('s, 'r) SchedulerService \<times> (EngineError, SchedulerTriggerResult) result" where
  "trigger_scheduler_job env parse_str dispatch clk new_id job_id sv = (case parse_str job_id of
     Inl e \<Rightarrow> (sv, Inl (invalid_job_id job_id e))
   | Inr task_id \<Rightarrow>
       if get_job task_id sv = None
       then (sv, Inr \<lparr>tg_success = False, tg_job_id = job_id, tg_error = Some (''Job not found: '' @ job_id)\<rparr>)
       else (case dispatch_with_guard_from env dispatch clk new_id task_id Manual sv of
           (sv, Inr _) \<Rightarrow> (sv, Inr \<lparr>tg_success = True, tg_job_id = job_id, tg_error = None\<rparr>)
         | (sv, Inl e) \<Rightarrow> (sv, Inr \<lparr>tg_success = False, tg_job_id = job_id, tg_error = Some (EngineError_display e)\<rparr>)))"

definition engine_add_cron_job ::
  "('s, 'r) SchedulerEnv \<Rightarrow> clock \<Rightarrow> Uuid \<Rightarrow> AddCronJobApiRequest \<Rightarrow> ('s, 'r) SchedulerService \<Rightarrow> ('s, 'r) SchedulerService \<times> AddCronJobResult" where
  "engine_add_cron_job env clk new_id request sv =
     (let task = ScheduledTask_cron new_id (clk AtCall) (ar_description request) (ar_project_id request) (ar_cron_expression request)
            (unwrap_or (ar_night_window_start request) (nc_start default_utc)) (unwrap_or (ar_night_window_end request) (nc_end default_utc))
            (ar_timezone request)
      in case add_cron_job env clk (task\<lparr>sk_enabled := ar_enabled request\<rparr>) sv of
           (sv, Inr task_id) \<Rightarrow> (sv, \<lparr>aj_success = True, aj_job_id = task_id, aj_error = None\<rparr>)
         | (sv, Inl e) \<Rightarrow> (sv, \<lparr>aj_success = False, aj_job_id = [], aj_error = Some (EngineError_display e)\<rparr>))"

definition engine_remove_job ::
  "('s, 'r) SchedulerEnv \<Rightarrow> (string \<Rightarrow> (string, Uuid) result) \<Rightarrow> string \<Rightarrow> ('s, 'r) SchedulerService \<Rightarrow>
     ('s, 'r) SchedulerService \<times> (EngineError, RemoveJobResult) result" where
  "engine_remove_job env parse_str job_id sv = (case parse_str job_id of
     Inl e \<Rightarrow> (sv, Inl (invalid_job_id job_id e))
   | Inr task_id \<Rightarrow>
       (case remove_job env task_id sv of
          (sv, Inr _) \<Rightarrow> (sv, Inr \<lparr>rj_success = True, rj_error = None\<rparr>)
        | (sv, Inl e) \<Rightarrow> (sv, Inr \<lparr>rj_success = False, rj_error = Some (EngineError_display e)\<rparr>)))"

definition set_scheduler_job_enabled ::
  "('s, 'r) SchedulerEnv \<Rightarrow> (string \<Rightarrow> (string, Uuid) result) \<Rightarrow> clock \<Rightarrow> string \<Rightarrow> bool \<Rightarrow> ('s, 'r) SchedulerService \<Rightarrow>
     ('s, 'r) SchedulerService \<times> (EngineError, SchedulerJobEnabledResult) result" where
  "set_scheduler_job_enabled env parse_str clk job_id enabled sv = (case parse_str job_id of
     Inl e \<Rightarrow> (sv, Inl (invalid_job_id job_id e))
   | Inr task_id \<Rightarrow>
       (case set_job_enabled env clk task_id enabled sv of
          (sv, Inr task) \<Rightarrow> (sv, Inr \<lparr>je_success = True, je_job_id = job_id, je_enabled = sk_enabled task, je_error = None\<rparr>)
        | (sv, Inl e) \<Rightarrow> (sv, Inr \<lparr>je_success = False, je_job_id = job_id, je_enabled = enabled, je_error = Some (EngineError_display e)\<rparr>)))"

section \<open>Dispatching over NATS\<close>

record NatsTaskSubmit =
  nt_submit_task_id :: string
  nt_submit_description :: string
  nt_submit_project_id :: string
  nt_submit_scheduled :: "bool option"
  nt_submit_verify_command :: "string option"

text \<open>The dash of the message is an em dash in the source.\<close>

definition validate_scheduled_task_scope :: "ScheduledTask \<Rightarrow> (EngineError, unit) result" where
  "validate_scheduled_task_scope task =
     (if trim (sk_project_id task) = []
      then Inl (InternalError (''NatsSubmitDispatcher: scheduled task '' @ CHR 0x27 # sk_id task @ CHR 0x27 #
        '' has empty project_id - every task must declare a project scope (D8 #645)''))
      else Inr ())"

definition build_payload :: "Uuid \<Rightarrow> ScheduledTask \<Rightarrow> NatsTaskSubmit" where
  "build_payload new_id task =
     \<lparr>nt_submit_task_id = new_id, nt_submit_description = sk_description task, nt_submit_project_id = sk_project_id task,
      nt_submit_scheduled = Some True, nt_submit_verify_command = sk_verify_command task\<rparr>"

definition build_failed_history :: "Uuid \<Rightarrow> Uuid \<Rightarrow> datetime \<Rightarrow> datetime \<Rightarrow> string \<Rightarrow> ExecutionHistory" where
  "build_failed_history new_id scheduled_task_id started_at now error =
     \<lparr>xh_id = new_id, xh_scheduled_task_id = scheduled_task_id, xh_started_at = started_at, xh_completed_at = Some now,
      xh_status = ExecutionStatus.Failed, xh_result_summary = Some (''NatsSubmitDispatcher: NATS publish failed: '' @ error),
      xh_deferred_reason = None\<rparr>"

text \<open>The synchronous part of the dispatch, with the message it spawns the publication of; the generated id is a uuid.\<close>

definition nats_dispatch :: "Uuid \<Rightarrow> ScheduledTask \<Rightarrow> (EngineError, unit) result \<times> NatsTaskSubmit option" where
  "nats_dispatch new_id task = (case validate_scheduled_task_scope task of
     Inl e \<Rightarrow> (Inl e, None)
   | Inr _ \<Rightarrow> (Inr (), Some (build_payload new_id task)))"

text \<open>The spawned publication: a failure is appended to the history of the scheduler.\<close>

definition nats_published ::
  "('s, 'r) SchedulerEnv \<Rightarrow> (string, unit) result \<Rightarrow> Uuid \<Rightarrow> Uuid \<Rightarrow> datetime \<Rightarrow> datetime \<Rightarrow> ('s, 'r) SchedulerService \<Rightarrow> ('s, 'r) SchedulerService" where
  "nats_published env answer new_id scheduled_task_id started_at now sv = (case answer of
     Inr _ \<Rightarrow> sv
   | Inl e \<Rightarrow> record_execution env (build_failed_history new_id scheduled_task_id started_at now e) sv)"

text \<open>The same for the dispatcher that submits to the engine (\<open>dispatcher.rs\<close>).\<close>

definition engine_submitted ::
  "('s, 'r) SchedulerEnv \<Rightarrow> (EngineError, unit) result \<Rightarrow> Uuid \<Rightarrow> Uuid \<Rightarrow> datetime \<Rightarrow> datetime \<Rightarrow> ('s, 'r) SchedulerService \<Rightarrow> ('s, 'r) SchedulerService" where
  "engine_submitted env answer new_id task_id started_at now sv = (case answer of
     Inr _ \<Rightarrow> sv
   | Inl e \<Rightarrow> record_execution env
       \<lparr>xh_id = new_id, xh_scheduled_task_id = task_id, xh_started_at = started_at, xh_completed_at = Some now,
        xh_status = ExecutionStatus.Failed, xh_result_summary = Some (''submit_task failed: '' @ EngineError_display e),
        xh_deferred_reason = None\<rparr> sv)"

section \<open>The distributed lock\<close>

datatype KvCreate = Revision | AlreadyExists | OtherKvError

text \<open>One access: the bucket cannot be reached, or \<open>create\<close> answers.\<close>

definition nats_try_acquire :: "KvCreate option \<Rightarrow> bool" where
  "nats_try_acquire answer = (case answer of
     None \<Rightarrow> True
   | Some Revision \<Rightarrow> True
   | Some AlreadyExists \<Rightarrow> False
   | Some OtherKvError \<Rightarrow> True)"

text \<open>
  A bucket as NATS documents it: \<open>create\<close> succeeds for a key it does not have, answers that it exists for one it has, and
  refuses a key that is not valid. Keys are made of letters, digits and the characters - / _ = and the dot.
\<close>

definition valid_kv_char :: "char \<Rightarrow> bool" where
  "valid_kv_char c = (let n = (of_char c :: nat) in
     (48 \<le> n \<and> n \<le> 57) \<or> (65 \<le> n \<and> n \<le> 90) \<or> (97 \<le> n \<and> n \<le> 122) \<or> c \<in> set ''-/_=.'')"

definition kv_create :: "string \<Rightarrow> string set \<Rightarrow> string set \<times> KvCreate" where
  "kv_create key bucket =
     (if key = [] \<or> \<not> list_all valid_kv_char key then (bucket, OtherKvError)
      else if key \<in> bucket then (bucket, AlreadyExists)
      else (insert key bucket, Revision))"

text \<open>A gateway whose cron callback runs, on the bucket it shares with the others.\<close>

definition cron_tick ::
  "('s, 'r) SchedulerEnv \<Rightarrow> (ScheduledTask \<Rightarrow> (EngineError, unit) result) \<Rightarrow> clock \<Rightarrow> Uuid \<Rightarrow> Uuid \<Rightarrow>
     string set \<times> ('s, 'r) SchedulerService \<Rightarrow> string set \<times> ('s, 'r) SchedulerService" where
  "cron_tick env dispatch clk new_id task_id state = (case state of
     (bucket, sv) \<Rightarrow>
       (case kv_create (lock_key task_id (clk AtTick)) bucket of
          (bucket, answer) \<Rightarrow>
            (bucket, cron_callback env dispatch (\<lambda>key ttl. nats_try_acquire (Some answer)) clk new_id task_id sv)))"

text \<open>
  The key of a tick has colons in it, which the documented alphabet leaves out: the bucket refuses it, \<open>try_acquire\<close> fails open,
  and every gateway that shares the bucket dispatches the tick.
\<close>

lemma lock_key_refused: "\<not> list_all valid_kv_char (lock_key task_id now)"
  by (simp add: lock_key_def valid_kv_char_def)

lemma refused_key_excludes_nobody:
  "cron_tick env dispatch clk new_id task_id (bucket, sv) =
     (bucket, fst (dispatch_with_guard env dispatch clk new_id task_id sv))"
  by (simp add: cron_tick_def kv_create_def lock_key_refused cron_callback_def nats_try_acquire_def)

section \<open>The watcher of the window\<close>

datatype WindowEventType = Opened | Closed

definition event_name :: "WindowEventType \<Rightarrow> string" where
  "event_name e = (case e of Opened \<Rightarrow> ''opened'' | Closed \<Rightarrow> ''closed'')"

definition window_subject :: "WindowEventType \<Rightarrow> string" where
  "window_subject e = (case e of Opened \<Rightarrow> ''schedule.window.opened'' | Closed \<Rightarrow> ''schedule.window.closed'')"

definition window_lock_key :: "WindowEventType \<Rightarrow> datetime \<Rightarrow> string" where
  "window_lock_key e now = ''window:'' @ event_name e @ '':'' @ show_int (now div 1000000000)"

definition window_lock_ttl :: int where
  "window_lock_ttl = 60 * 1000000000"

text \<open>One poll, with its two readings of the clock: the new state and the event it publishes.\<close>

definition watch_poll ::
  "NightWindow \<Rightarrow> (string \<Rightarrow> int \<Rightarrow> bool) \<Rightarrow> datetime \<Rightarrow> datetime \<Rightarrow> bool \<Rightarrow> bool \<times> WindowEventType option" where
  "watch_poll window try_acquire now tick last_inside =
     (let now_inside = is_within_window window \<lparr>zt_instant = now, zt_zone = nw_tz window\<rparr> in
      if now_inside = last_inside then (last_inside, None)
      else
        (let event = (if now_inside then Opened else Closed) in
         if \<not> try_acquire (window_lock_key event tick) window_lock_ttl then (now_inside, None)
         else (now_inside, Some event)))"

fun watch_window ::
  "NightWindow \<Rightarrow> (string \<Rightarrow> int \<Rightarrow> bool) \<Rightarrow> (datetime \<times> datetime) list \<Rightarrow> bool \<Rightarrow> WindowEventType list" where
  "watch_window window try_acquire [] last_inside = []"
| "watch_window window try_acquire ((now, tick) # polls) last_inside =
     (case watch_poll window try_acquire now tick last_inside of
        (inside, None) \<Rightarrow> watch_window window try_acquire polls inside
      | (inside, Some event) \<Rightarrow> event # watch_window window try_acquire polls inside)"

text \<open>With a lock that always acquires, a single watcher announces opening and closing in turn.\<close>

fun alternating :: "bool \<Rightarrow> WindowEventType list \<Rightarrow> bool" where
  "alternating inside [] = True"
| "alternating inside (e # es) = (e = (if inside then Closed else Opened) \<and> alternating (\<not> inside) es)"

lemma watcher_alternates: "alternating inside (watch_window window NoOpLockProvider polls inside)"
  by (induction polls arbitrary: inside) (auto simp: watch_poll_def NoOpLockProvider_def Let_def)

text \<open>
  The keys of the watchers have colons too, so the bucket refuses them and each watcher announces the opening. A bucket that
  took them would not help either: two watchers poll in seconds of their own, and the keys they ask for differ.
\<close>

lemma opening_announced_twice:
  "kv_create (window_lock_key e now) bucket = (bucket, OtherKvError)"
  "nats_try_acquire (Some OtherKvError)"
  "window_lock_key Opened (from_hms 22 0 31) \<noteq> window_lock_key Opened (from_hms 22 0 30)"
  by (simp_all add: kv_create_def nats_try_acquire_def valid_kv_char_def window_lock_key_def event_name_def from_hms_def show_int_def
      show_nat.simps)

end
