(* ===== verification/Worker_Registry.thy ===== *)
theory Worker_Registry
  imports Placement Envelope Graph_Projection
begin

text \<open>
  The registry of workers (\<open>crates/uc-grpc/src/worker_service.rs\<close>): registration with the contract handshake, heartbeats
  with the placement signals, the hard gate of a dispatch with the independence of reviews, and the candidates of
  placement. The hash map is an association list, in the order in which the code happens to walk it; the readings of
  the clock within one walk are one instant, and an operation that walks twice has two.
\<close>

section \<open>Workers\<close>

record RegisteredWorker =
  rw_id :: string
  rw_capabilities :: "string list"
  rw_max_capacity :: u32
  rw_current_load :: u32
  rw_metadata :: string
  rw_contract_version :: string
  rw_projects :: "string list"
  rw_recent_files :: "string list"
  rw_per_worker_topic :: bool
  rw_registered_at :: datetime
  rw_last_heartbeat :: datetime

text \<open>\<open>chrono::Duration::num_seconds\<close> truncates towards zero.\<close>

definition num_seconds :: "int \<Rightarrow> int" where
  "num_seconds d = (if d < 0 then - ((- d) div 1000000000) else d div 1000000000)"

text \<open>The timeout is a whole number of seconds, the constant below; an \<open>i64\<close> compares with it as with the \<open>f64\<close> of the code.\<close>

definition is_available :: "datetime \<Rightarrow> int \<Rightarrow> RegisteredWorker \<Rightarrow> bool" where
  "is_available now stale_timeout_secs w \<longleftrightarrow>
     num_seconds (now - rw_last_heartbeat w) \<le> stale_timeout_secs \<and> rw_current_load w < rw_max_capacity w"

text \<open>The product of the load wraps as in a release build.\<close>

definition worker_load_percent :: "RegisteredWorker \<Rightarrow> u32" where
  "worker_load_percent w = (if rw_max_capacity w = 0 then 100 else (rw_current_load w * 100) div rw_max_capacity w)"

definition serves_scope :: "RegisteredWorker \<Rightarrow> string \<Rightarrow> bool" where
  "serves_scope w project_id \<longleftrightarrow> rw_projects w = [] \<or> project_id \<in> set (rw_projects w)"

section \<open>The registry\<close>

definition STALE_TIMEOUT_SECS :: int where
  "STALE_TIMEOUT_SECS = 60"

record WorkerRegistry =
  wr_workers :: "(string \<times> RegisteredWorker) list"
  wr_placement_policy :: PlacementPolicy
  wr_no_independent_reviewer :: u64
  wr_producer_identity_unknown :: u64

definition WorkerRegistry_new :: WorkerRegistry where
  "WorkerRegistry_new = \<lparr>wr_workers = [], wr_placement_policy = Affinity, wr_no_independent_reviewer = 0, wr_producer_identity_unknown = 0\<rparr>"

definition set_placement_policy :: "PlacementPolicy \<Rightarrow> WorkerRegistry \<Rightarrow> WorkerRegistry" where
  "set_placement_policy policy r = r\<lparr>wr_placement_policy := policy\<rparr>"

fun normalize_projects_loop :: "string list \<Rightarrow> string list \<Rightarrow> string list" where
  "normalize_projects_loop [] out = out"
| "normalize_projects_loop (p # raw) out =
     (let t = trim p in normalize_projects_loop raw (if t \<noteq> [] \<and> t \<notin> set out then out @ [t] else out))"

definition normalize_projects :: "string list \<Rightarrow> string list" where
  "normalize_projects raw = normalize_projects_loop raw []"

text \<open>The dash of the message is an em dash in the source.\<close>

definition contract_mismatch :: "string \<Rightarrow> string \<Rightarrow> string" where
  "contract_mismatch worker_id contract_version =
     ''contract_version mismatch: worker '' @ CHR 0x27 # worker_id @ CHR 0x27 # '' declares '' @ CHR 0x27 # contract_version @ CHR 0x27 #
     '', gateway speaks '' @ CHR 0x27 # CONTRACT_VERSION @ CHR 0x27 # '' - gateway and workers must be upgraded in lockstep''"

definition register_with_projects ::
  "datetime \<Rightarrow> string \<Rightarrow> string list \<Rightarrow> u32 \<Rightarrow> string \<Rightarrow> string \<Rightarrow> string list \<Rightarrow> WorkerRegistry \<Rightarrow> WorkerRegistry \<times> (string, unit) result" where
  "register_with_projects now worker_id capabilities max_capacity metadata contract_version projects r =
     (if worker_id = [] then (r, Inl ''worker_id cannot be empty'')
      else if contract_version \<noteq> [] \<and> contract_version \<noteq> CONTRACT_VERSION then (r, Inl (contract_mismatch worker_id contract_version))
      else
        let worker = \<lparr>rw_id = worker_id, rw_capabilities = capabilities, rw_max_capacity = max_capacity, rw_current_load = 0,
              rw_metadata = metadata, rw_contract_version = contract_version, rw_projects = normalize_projects projects,
              rw_recent_files = [], rw_per_worker_topic = False, rw_registered_at = now, rw_last_heartbeat = now\<rparr>
        in (r\<lparr>wr_workers := AList.update worker_id worker (wr_workers r)\<rparr>, Inr ()))"

definition register ::
  "datetime \<Rightarrow> string \<Rightarrow> string list \<Rightarrow> u32 \<Rightarrow> string \<Rightarrow> string \<Rightarrow> WorkerRegistry \<Rightarrow> WorkerRegistry \<times> (string, unit) result" where
  "register now worker_id capabilities max_capacity metadata contract_version r =
     register_with_projects now worker_id capabilities max_capacity metadata contract_version [] r"

definition heartbeat_with_signals ::
  "datetime \<Rightarrow> string \<Rightarrow> u32 \<Rightarrow> string list \<Rightarrow> bool \<Rightarrow> WorkerRegistry \<Rightarrow> WorkerRegistry \<times> (string, unit) result" where
  "heartbeat_with_signals now worker_id current_load recent_files per_worker_topic r = (case map_of (wr_workers r) worker_id of
     None \<Rightarrow> (r, Inl (''Worker '' @ CHR 0x27 # worker_id @ CHR 0x27 # '' not registered - call RegisterWorker first''))
   | Some worker \<Rightarrow>
       (r\<lparr>wr_workers := AList.update worker_id
           (worker\<lparr>rw_last_heartbeat := now, rw_current_load := current_load, rw_recent_files := normalize_recent_files recent_files,
              rw_per_worker_topic := per_worker_topic\<rparr>) (wr_workers r)\<rparr>, Inr ()))"

definition heartbeat :: "datetime \<Rightarrow> string \<Rightarrow> u32 \<Rightarrow> WorkerRegistry \<Rightarrow> WorkerRegistry \<times> (string, unit) result" where
  "heartbeat now worker_id current_load r = heartbeat_with_signals now worker_id current_load [] False r"

definition deregister :: "string \<Rightarrow> WorkerRegistry \<Rightarrow> WorkerRegistry \<times> (string, unit) result" where
  "deregister worker_id r =
     (if map_of (wr_workers r) worker_id \<noteq> None then (r\<lparr>wr_workers := AList.delete worker_id (wr_workers r)\<rparr>, Inr ())
      else (r, Inl (''Worker '' @ CHR 0x27 # worker_id @ CHR 0x27 # '' not found'')))"

fun capacity_loop :: "datetime \<Rightarrow> RegisteredWorker list \<Rightarrow> u32 \<times> u32 \<Rightarrow> u32 \<times> u32" where
  "capacity_loop now [] totals = totals"
| "capacity_loop now (w # ws) totals = (case totals of (sum_total, busy) \<Rightarrow>
     if trim (rw_contract_version w) = [] then capacity_loop now ws (sum_total, busy)
     else if \<not> num_seconds (now - rw_last_heartbeat w) \<le> STALE_TIMEOUT_SECS then capacity_loop now ws (sum_total, busy)
     else capacity_loop now ws (saturating_add sum_total (rw_max_capacity w),
            saturating_add busy (min (rw_current_load w) (rw_max_capacity w))))"

definition capacity_totals :: "datetime \<Rightarrow> WorkerRegistry \<Rightarrow> u32 \<times> u32" where
  "capacity_totals now r = capacity_loop now (map snd (wr_workers r)) (0, 0)"

section \<open>Candidates\<close>

definition available_workers :: "datetime \<Rightarrow> WorkerRegistry \<Rightarrow> RegisteredWorker list" where
  "available_workers now r = filter (is_available now STALE_TIMEOUT_SECS) (map snd (wr_workers r))"

definition workers_with_capabilities_excluding :: "datetime \<Rightarrow> string list \<Rightarrow> string set \<Rightarrow> WorkerRegistry \<Rightarrow> RegisteredWorker list" where
  "workers_with_capabilities_excluding now required exclude r =
     filter (\<lambda>w. set required \<subseteq> set (rw_capabilities w)) (filter (\<lambda>w. rw_id w \<notin> exclude) (available_workers now r))"

definition workers_with_capabilities :: "datetime \<Rightarrow> string list \<Rightarrow> WorkerRegistry \<Rightarrow> RegisteredWorker list" where
  "workers_with_capabilities now required r = workers_with_capabilities_excluding now required {} r"

definition dispatchable_workers_with_capabilities :: "datetime \<Rightarrow> string list \<Rightarrow> WorkerRegistry \<Rightarrow> RegisteredWorker list" where
  "dispatchable_workers_with_capabilities now required r =
     filter (\<lambda>w. rw_contract_version w = CONTRACT_VERSION) (workers_with_capabilities now required r)"

definition dispatch_candidates :: "datetime \<Rightarrow> string list \<Rightarrow> string \<Rightarrow> string set \<Rightarrow> WorkerRegistry \<Rightarrow> RegisteredWorker list" where
  "dispatch_candidates now required project_id exclude r =
     filter (\<lambda>w. rw_contract_version w = CONTRACT_VERSION)
       (filter (\<lambda>w. serves_scope w project_id) (workers_with_capabilities_excluding now required exclude r))"

definition worker_host :: "(string \<Rightarrow> string option) \<Rightarrow> string \<Rightarrow> WorkerRegistry \<Rightarrow> string option" where
  "worker_host hostname worker_id r =
     Option.bind (map_of (wr_workers r) worker_id) (\<lambda>w. host_from_metadata hostname (rw_metadata w))"

definition candidate_of :: "RegisteredWorker \<Rightarrow> PlacementCandidate" where
  "candidate_of w = \<lparr>pc_worker_id = rw_id w, pc_metadata = rw_metadata w, pc_recent_files = rw_recent_files w,
     pc_current_load = rw_current_load w, pc_max_capacity = rw_max_capacity w\<rparr>"

definition placement_target ::
  "(string \<Rightarrow> string option) \<Rightarrow> datetime \<Rightarrow> string list \<Rightarrow> string \<Rightarrow> string list \<Rightarrow> string set \<Rightarrow> string set \<Rightarrow> WorkerRegistry \<Rightarrow> Placement option" where
  "placement_target hostname now required project_id file_constraints sibling_hosts exclude r =
     place_with_policy hostname
       (map candidate_of (filter rw_per_worker_topic (dispatch_candidates now required project_id exclude r)))
       file_constraints sibling_hosts (wr_placement_policy r)"

definition stale_worker_ids :: "datetime \<Rightarrow> WorkerRegistry \<Rightarrow> string list" where
  "stale_worker_ids now r = map rw_id (filter (\<lambda>w. \<not> is_available now STALE_TIMEOUT_SECS w) (map snd (wr_workers r)))"

section \<open>Independence of reviews\<close>

record ReviewIndependence =
  ri_excluded_producers :: "string set"
  ri_unknown_producers :: "string list"

definition is_unconstrained :: "ReviewIndependence \<Rightarrow> bool" where
  "is_unconstrained i \<longleftrightarrow> ri_excluded_producers i = {} \<and> ri_unknown_producers i = []"

definition producer_of :: "Task option \<Rightarrow> TaskId \<Rightarrow> WorkerId option" where
  "producer_of task dep =
     Option.bind (Option.bind task (\<lambda>t. find (\<lambda>s. st_id s = dep) (t_subtasks t))) st_assigned_worker"

fun independence_loop :: "Task option \<Rightarrow> TaskId list \<Rightarrow> ReviewIndependence \<Rightarrow> ReviewIndependence" where
  "independence_loop task [] out = out"
| "independence_loop task (dep # deps) out = independence_loop task deps
     (case producer_of task dep of
        Some i \<Rightarrow> out\<lparr>ri_excluded_producers := insert i (ri_excluded_producers out)\<rparr>
      | None \<Rightarrow> out\<lparr>ri_unknown_producers := ri_unknown_producers out @ [dep]\<rparr>)"

definition review_independence :: "Subtask \<Rightarrow> Task option \<Rightarrow> ReviewIndependence" where
  "review_independence subtask task =
     (let out = \<lparr>ri_excluded_producers = {}, ri_unknown_producers = []\<rparr>
      in if \<not> requires_independence (st_required_capabilities subtask) then out
         else independence_loop task (st_depends_on subtask) out)"

section \<open>The gate\<close>

datatype WorkerDispatchGate =
    Dispatch
  | NoCapableWorker
  | NoScopeMatchedWorker "string list"
  | NoVersionMatchedWorker "(string \<times> string) list"
  | ProducerIdentityUnknown "string list"
  | NoIndependentReviewer "string list"

text \<open>The counters are atomic additions and wrap. The second walk over the registry has its own reading of the clock.\<close>

definition dispatch_gate ::
  "datetime \<Rightarrow> datetime \<Rightarrow> string list \<Rightarrow> string \<Rightarrow> ReviewIndependence \<Rightarrow> WorkerRegistry \<Rightarrow> WorkerRegistry \<times> WorkerDispatchGate" where
  "dispatch_gate now now' required project_id independence r =
     (if workers_with_capabilities now required r = []
      then (r, if required = [] then Dispatch else NoCapableWorker)
      else if ri_unknown_producers independence \<noteq> []
      then (r\<lparr>wr_producer_identity_unknown := wr_producer_identity_unknown r + 1\<rparr>,
            ProducerIdentityUnknown (ri_unknown_producers independence))
      else
        let candidates = workers_with_capabilities_excluding now' required (ri_excluded_producers independence) r in
        if candidates = []
        then (r\<lparr>wr_no_independent_reviewer := wr_no_independent_reviewer r + 1\<rparr>,
              NoIndependentReviewer (sorted_list_of_set (ri_excluded_producers independence)))
        else
          let scope_matched = filter (\<lambda>w. serves_scope w project_id) candidates in
          if scope_matched = [] then (r, NoScopeMatchedWorker (map rw_id candidates))
          else if list_all (\<lambda>w. rw_contract_version w \<noteq> CONTRACT_VERSION) scope_matched
          then (r, NoVersionMatchedWorker (map (\<lambda>w. (rw_id w, rw_contract_version w)) scope_matched))
          else (r, Dispatch))"

section \<open>The listing\<close>

text \<open>\<open>to_rfc3339\<close> is an argument; the age in seconds is a whole number.\<close>

record WorkerProto =
  wq_id :: string
  wq_capabilities :: "string list"
  wq_current_load :: u32
  wq_max_capacity :: u32
  wq_load_percent :: u32
  wq_last_heartbeat :: string
  wq_heartbeat_age_seconds :: int
  wq_heartbeat_stale :: bool
  wq_is_available :: bool
  wq_metadata :: string

definition to_worker_protos :: "(datetime \<Rightarrow> string) \<Rightarrow> datetime \<Rightarrow> WorkerRegistry \<Rightarrow> WorkerProto list" where
  "to_worker_protos rfc3339 now r = map (\<lambda>w.
     let available = is_available now STALE_TIMEOUT_SECS w in
     \<lparr>wq_id = rw_id w, wq_capabilities = rw_capabilities w, wq_current_load = rw_current_load w, wq_max_capacity = rw_max_capacity w,
      wq_load_percent = worker_load_percent w, wq_last_heartbeat = rfc3339 (rw_last_heartbeat w),
      wq_heartbeat_age_seconds = num_seconds (now - rw_last_heartbeat w), wq_heartbeat_stale = (\<not> available),
      wq_is_available = available, wq_metadata = rw_metadata w\<rparr>) (map snd (wr_workers r))"

section \<open>The invariant\<close>

definition worker_ok :: "string \<Rightarrow> RegisteredWorker \<Rightarrow> bool" where
  "worker_ok k w \<longleftrightarrow> rw_id w = k \<and> k \<noteq> [] \<and> rw_contract_version w \<in> {[], CONTRACT_VERSION} \<and>
     distinct (rw_projects w) \<and> (\<forall>p \<in> set (rw_projects w). p \<noteq> [] \<and> trim p = p) \<and> length (rw_recent_files w) \<le> MAX_RECENT_FILES"

definition registry_ok :: "WorkerRegistry \<Rightarrow> bool" where
  "registry_ok r \<longleftrightarrow> distinct (map fst (wr_workers r)) \<and> (\<forall>(k, w) \<in> set (wr_workers r). worker_ok k w)"

lemma normalize_projects_loop_distinct: "distinct out \<Longrightarrow> distinct (normalize_projects_loop raw out)"
  by (induction raw arbitrary: out) (simp_all add: Let_def)

lemma normalize_projects_loop_set: "set (normalize_projects_loop raw out) = set out \<union> (trim ` set raw - {[]})"
  by (induction raw arbitrary: out) (auto simp: Let_def)

lemma normalize_projects_spec:
  "distinct (normalize_projects raw)" "set (normalize_projects raw) = trim ` set raw - {[]}"
  by (simp_all add: normalize_projects_def normalize_projects_loop_distinct normalize_projects_loop_set)

lemma normalize_projects_clean: "p \<in> set (normalize_projects raw) \<Longrightarrow> p \<noteq> [] \<and> trim p = p"
  unfolding normalize_projects_spec(2) using trim_idem by blast

lemma set_update_subset: "set (AList.update k v al) \<subseteq> insert (k, v) (set al)"
  by (induction al) auto

lemma registry_ok_update:
  assumes "registry_ok r" "worker_ok k w"
  shows "registry_ok (r\<lparr>wr_workers := AList.update k w (wr_workers r)\<rparr>)"
  using assms set_update_subset[of k w "wr_workers r"] by (auto simp: registry_ok_def distinct_update)

lemma registry_ok_counters [simp]:
  "registry_ok (r\<lparr>wr_no_independent_reviewer := n\<rparr>) = registry_ok r" "registry_ok (r\<lparr>wr_producer_identity_unknown := n\<rparr>) = registry_ok r"
  "registry_ok (r\<lparr>wr_placement_policy := p\<rparr>) = registry_ok r"
  by (simp_all add: registry_ok_def)

lemma registry_ok_register: "registry_ok r \<Longrightarrow> registry_ok (fst (register_with_projects now i caps cap meta v projects r))"
  using normalize_projects_clean[of _ projects]
  by (simp add: register_with_projects_def Let_def worker_ok_def normalize_projects_spec(1) registry_ok_update)

lemma registry_ok_heartbeat: "registry_ok r \<Longrightarrow> registry_ok (fst (heartbeat_with_signals now i load files topic r))"
proof (cases "map_of (wr_workers r) i")
  case (Some w)
  assume "registry_ok r"
  with Some have "worker_ok i w" by (auto simp: registry_ok_def dest: map_of_SomeD)
  moreover have "length (normalize_recent_files files) \<le> MAX_RECENT_FILES"
    using normalize_recent_files_bounded[of files] by (simp add: MAX_RECENT_FILES_def)
  ultimately show ?thesis using Some \<open>registry_ok r\<close>
    by (simp add: heartbeat_with_signals_def registry_ok_update worker_ok_def)
qed (simp add: heartbeat_with_signals_def)

lemma registry_ok_deregister: "registry_ok r \<Longrightarrow> registry_ok (fst (deregister i r))"
  by (auto simp: deregister_def registry_ok_def distinct_delete) (auto simp: AList.delete_eq)

lemma registry_ok_gate: "registry_ok r \<Longrightarrow> registry_ok (fst (dispatch_gate now now' required project i r))"
  by (simp add: dispatch_gate_def Let_def)

inductive registry_step :: "WorkerRegistry \<Rightarrow> WorkerRegistry \<Rightarrow> bool" where
  register: "registry_step r (fst (register_with_projects now i caps cap meta v projects r))"
| heartbeat: "registry_step r (fst (heartbeat_with_signals now i load files topic r))"
| deregister: "registry_step r (fst (deregister i r))"
| policy: "registry_step r (set_placement_policy p r)"
| gate: "registry_step r (fst (dispatch_gate now now' required project independence r))"

lemma registry_step_ok: "registry_step r r' \<Longrightarrow> registry_ok r \<Longrightarrow> registry_ok r'"
  by (induction rule: registry_step.induct)
    (simp_all add: registry_ok_register registry_ok_heartbeat registry_ok_deregister registry_ok_gate set_placement_policy_def)

lemma reachable_registry_ok:
  assumes "registry_step\<^sup>*\<^sup>* WorkerRegistry_new r"
  shows "registry_ok r"
  using assms
proof (induction rule: rtranclp_induct)
  case base
  show ?case by (simp add: registry_ok_def WorkerRegistry_new_def)
qed (rule registry_step_ok)

section \<open>What the gate lets through\<close>

lemma candidates_of_excluding:
  "dispatch_candidates now required project_id exclude r =
     filter (\<lambda>w. rw_contract_version w = CONTRACT_VERSION \<and> serves_scope w project_id)
       (workers_with_capabilities_excluding now required exclude r)"
  by (simp add: dispatch_candidates_def conj_commute)

text \<open>
  The gate lets a node through exactly when the list of candidates for it is not empty and every producer it must
  be independent of is known, apart from a node that requires nothing while no worker is available: that one is let
  through for subscribers that never registered.
\<close>

lemma dispatch_gate_exact:
  "snd (dispatch_gate now now' required project_id independence r) = Dispatch \<longleftrightarrow>
     (if workers_with_capabilities now required r = [] then required = []
      else ri_unknown_producers independence = [] \<and>
        dispatch_candidates now' required project_id (ri_excluded_producers independence) r \<noteq> [])"
  by (auto simp: dispatch_gate_def candidates_of_excluding Let_def filter_empty_conv list_all_iff)

lemma gate_counts_refusals:
  "dispatch_gate now now' required project_id independence r = (r', verdict) \<Longrightarrow>
     wr_producer_identity_unknown r' = wr_producer_identity_unknown r + (case verdict of ProducerIdentityUnknown _ \<Rightarrow> 1 | _ \<Rightarrow> 0) \<and>
     wr_no_independent_reviewer r' = wr_no_independent_reviewer r + (case verdict of NoIndependentReviewer _ \<Rightarrow> 1 | _ \<Rightarrow> 0) \<and>
     wr_workers r' = wr_workers r \<and> wr_placement_policy r' = wr_placement_policy r"
  by (auto simp: dispatch_gate_def Let_def split: if_splits)

lemma dispatch_candidate_iff:
  "w \<in> set (dispatch_candidates now required project_id exclude r) \<longleftrightarrow>
     w \<in> snd ` set (wr_workers r) \<and> is_available now STALE_TIMEOUT_SECS w \<and> rw_id w \<notin> exclude \<and>
     set required \<subseteq> set (rw_capabilities w) \<and> serves_scope w project_id \<and> rw_contract_version w = CONTRACT_VERSION"
  by (auto simp: dispatch_candidates_def workers_with_capabilities_excluding_def available_workers_def)

lemma min_by_member: "min_by compare xs = Some x \<Longrightarrow> x \<in> set xs"
proof -
  have "min_by_loop compare y ys \<in> insert y (set ys)" for y and ys by (induction ys arbitrary: y) (auto split: if_splits)
  then show "min_by compare xs = Some x \<Longrightarrow> x \<in> set xs" by (auto simp: min_by_def split: list.splits)
qed

text \<open>A target is one of the candidates, with a topic of its own, and the subject is its own.\<close>

lemma placement_target_candidate:
  assumes "placement_target hostname now required project_id file_constraints sibling_hosts exclude r = Some p"
  obtains w where "w \<in> set (dispatch_candidates now required project_id exclude r)" "rw_per_worker_topic w"
    "pl_worker_id p = rw_id w" "pl_subject p = per_worker_subject (rw_id w)"
  using assms
  by (auto simp: placement_target_def place_with_policy_def candidate_of_def placement_of_def dest!: min_by_member)

section \<open>Independence\<close>

lemma independence_loop_spec:
  "ri_excluded_producers (independence_loop task deps out) = ri_excluded_producers out \<union> {i. \<exists>dep \<in> set deps. producer_of task dep = Some i}"
  "ri_unknown_producers (independence_loop task deps out) = ri_unknown_producers out @ filter (\<lambda>dep. producer_of task dep = None) deps"
  by (induction deps arbitrary: out) (auto split: option.split)

lemma review_independence_spec:
  "ri_excluded_producers (review_independence subtask task) =
     (if requires_independence (st_required_capabilities subtask)
      then {i. \<exists>dep \<in> set (st_depends_on subtask). producer_of task dep = Some i} else {})"
  "ri_unknown_producers (review_independence subtask task) =
     (if requires_independence (st_required_capabilities subtask)
      then filter (\<lambda>dep. producer_of task dep = None) (st_depends_on subtask) else [])"
  by (simp_all add: review_independence_def Let_def independence_loop_spec)

section \<open>Capacity\<close>

lemma capacity_loop_busy_le: "busy \<le> sum_total \<Longrightarrow> snd (capacity_loop now ws (sum_total, busy)) \<le> fst (capacity_loop now ws (sum_total, busy))"
proof (induction ws arbitrary: sum_total busy)
  case (Cons w ws)
  have "unat (min (rw_current_load w) (rw_max_capacity w)) \<le> unat (rw_max_capacity w)" by (simp add: word_le_nat_alt[symmetric])
  then have "saturating_add busy (min (rw_current_load w) (rw_max_capacity w)) \<le> saturating_add sum_total (rw_max_capacity w)"
    using Cons.prems unfolding word_le_nat_alt unat_saturating_add by linarith
  with Cons show ?case by simp
qed simp

lemma capacity_busy_le: "snd (capacity_totals now r) \<le> fst (capacity_totals now r)"
  by (simp add: capacity_totals_def capacity_loop_busy_le)

text \<open>The product of the reported load wraps at 2 to the 32: a worker at two thirds of a large capacity is reported as idle.\<close>

lemma load_percent_wraps:
  "worker_load_percent (w\<lparr>rw_current_load := 42949673, rw_max_capacity := 64424509\<rparr>) = 0"
  by (simp add: worker_load_percent_def)

text \<open>A worker that heartbeats but has no free slot is listed as stale.\<close>

lemma saturated_worker_stale:
  "rw_current_load w = rw_max_capacity w \<Longrightarrow> wr_workers r = [(k, w)] \<Longrightarrow> stale_worker_ids now r = [rw_id w]"
  by (simp add: stale_worker_ids_def is_available_def)

end
