(* ===== verification/Worker_Dispatch.thy ===== *)
theory Worker_Dispatch
  imports Worker_Registry Task_Control Graph_Sink "HOL-Library.Sublist"
begin

text \<open>
  The two publishers of ready nodes in \<open>crates/uc-grpc/src/server.rs\<close>, \<open>publish_ready_subtasks\<close> and
  \<open>dispatch_ready_subtasks\<close>: both select nodes under the lock of the task table, through the gate of the registry, and
  publish them after the lock is given back. The source reads the clock for every worker it asks whether it is available;
  one reading per walk over the registry stands for them. What NATS answers to a publication and what the graph plane answers to a
  reading are arguments; a clock tells the readings made for one node apart.
\<close>

section \<open>The message\<close>

definition NATS_SUBJECT_SUBTASK_EXECUTE :: string where
  "NATS_SUBJECT_SUBTASK_EXECUTE = ''uc.subtask.execute''"

record NatsSubtaskExecute =
  nq_message_id :: "string option"
  nq_description :: string
  nq_expected_output :: string
  nq_file_constraints :: "string list"
  nq_timeout_seconds :: u64
  nq_retry_count :: u32
  nq_dispatch_mode :: DispatchMode
  nq_effect_class :: EffectClass
  nq_required_capabilities :: "string list"
  nq_agent_config_json :: "string option"
  nq_steps :: "WorkflowStep list"
  nq_project_id :: string
  nq_graph_id :: string
  nq_node_id :: string
  nq_attempt_id :: string
  nq_idempotency_key :: string
  nq_worker_epoch :: string
  nq_contract_version :: string
  nq_context_block :: "ContextBlock option"

text \<open>The milliseconds since the epoch are those of an instant after it.\<close>

definition subtask_execute_payload ::
  "(string \<Rightarrow> string) \<Rightarrow> datetime \<Rightarrow> string \<Rightarrow> Subtask \<Rightarrow> string \<Rightarrow> string \<Rightarrow> string list \<Rightarrow> ContextBlock option \<Rightarrow> NatsSubtaskExecute" where
  "subtask_execute_payload sha256_hex now task_id st project_id expected_output file_constraints context_block =
     (let envelope = (for_dispatch sha256_hex task_id (st_id st) (st_dispatch_retry_count st))\<lparr>en_context_block := context_block\<rparr> in
      \<lparr>nq_message_id = Some (task_id @ '':execute:'' @ st_id st @ '':'' @ show_nat (nat (now div 1000000))),
       nq_description = st_description st, nq_expected_output = expected_output, nq_file_constraints = file_constraints,
       nq_timeout_seconds = 600, nq_retry_count = st_dispatch_retry_count st, nq_dispatch_mode = st_dispatch_mode st,
       nq_effect_class = st_effect_class st, nq_required_capabilities = st_required_capabilities st,
       nq_agent_config_json = st_agent_config_json st, nq_steps = st_steps st, nq_project_id = project_id,
       nq_graph_id = en_graph_id envelope, nq_node_id = en_node_id envelope, nq_attempt_id = en_attempt_id envelope,
       nq_idempotency_key = en_idempotency_key envelope, nq_worker_epoch = en_worker_epoch envelope,
       nq_contract_version = en_contract_version envelope, nq_context_block = context_block\<rparr>)"

definition dispatch_dedup_headers :: "string \<Rightarrow> (string \<times> string) list" where
  "dispatch_dedup_headers idempotency_key = [(''Nats-Msg-Id'', idempotency_key)]"

definition compose_context_block ::
  "(ContextBlock \<Rightarrow> nat option) \<Rightarrow> (string \<Rightarrow> string list \<Rightarrow> ContextEntry list) \<Rightarrow> string \<Rightarrow> string list \<Rightarrow> TaskStore \<Rightarrow> ContextBlock option" where
  "compose_context_block json_size committed graph_id dep_ids s =
     (if dep_ids = [] then None
      else case ts_graph_shadow s of
        None \<Rightarrow> None
      | Some _ \<Rightarrow> Envelope.compose json_size (committed graph_id dep_ids))"

section \<open>Selection\<close>

definition sibling_worker_hosts :: "(string \<Rightarrow> string option) \<Rightarrow> TaskStore \<Rightarrow> WorkerRegistry \<Rightarrow> string \<Rightarrow> string set" where
  "sibling_worker_hosts hostname s r task_id = (case get_task task_id s of
     None \<Rightarrow> {}
   | Some task \<Rightarrow> set (List.map_filter (\<lambda>st. Option.bind (st_assigned_worker st) (\<lambda>i. worker_host hostname i r)) (t_subtasks task)))"

definition resolve_dispatch_subject ::
  "(string \<Rightarrow> string option) \<Rightarrow> datetime \<Rightarrow> WorkerRegistry \<Rightarrow> Subtask \<Rightarrow> string \<Rightarrow> string set \<Rightarrow> ReviewIndependence \<Rightarrow> string" where
  "resolve_dispatch_subject hostname now r subtask project_id sibling_hosts independence =
     (case placement_target hostname now (st_required_capabilities subtask) project_id (st_file_constraints subtask) sibling_hosts
             (ri_excluded_producers independence) r of
        Some placement \<Rightarrow> pl_subject placement
      | None \<Rightarrow> NATS_SUBJECT_SUBTASK_EXECUTE)"

datatype Reading = FirstWalk | SecondWalk | StatusWrite | Scoring

text \<open>What a publisher has at hand: the digest, the host lookup and its clock.\<close>

record DispatchEnv =
  de_sha256_hex :: "string \<Rightarrow> string"
  de_hostname :: "string \<Rightarrow> string option"
  de_clock :: "TaskId \<Rightarrow> Reading \<Rightarrow> datetime"

definition set_node :: "DispatchEnv \<Rightarrow> string \<Rightarrow> TaskId \<Rightarrow> SubtaskStatus \<Rightarrow> TaskStore \<Rightarrow> TaskStore" where
  "set_node env task_id i = update_subtask_status (de_sha256_hex env) (de_clock env i StatusWrite) task_id i"

definition node_verdict :: "DispatchEnv \<Rightarrow> string \<Rightarrow> Task option \<Rightarrow> Subtask \<Rightarrow> WorkerRegistry \<Rightarrow> WorkerRegistry \<times> WorkerDispatchGate" where
  "node_verdict env project_id task st =
     dispatch_gate (de_clock env (st_id st) FirstWalk) (de_clock env (st_id st) SecondWalk) (st_required_capabilities st) project_id
       (review_independence st task)"

fun select_loop ::
  "DispatchEnv \<Rightarrow> string \<Rightarrow> Task option \<Rightarrow> string \<Rightarrow> string set \<Rightarrow> Subtask list \<Rightarrow> TaskStore \<times> WorkerRegistry \<Rightarrow>
     (TaskStore \<times> WorkerRegistry) \<times> (Subtask \<times> string) list" where
  "select_loop env task_id task project_id hosts [] state = (state, [])"
| "select_loop env task_id task project_id hosts (st # sts) (s, r) =
     (if 3 \<le> st_dispatch_retry_count st
      then select_loop env task_id task project_id hosts sts (set_node env task_id (st_id st) SubtaskStatus.Failed s, r)
      else case node_verdict env project_id task st r of
        (r, Dispatch) \<Rightarrow>
          (let subject = resolve_dispatch_subject (de_hostname env) (de_clock env (st_id st) Scoring) r st project_id hosts (review_independence st task)
           in case select_loop env task_id task project_id hosts sts (set_node env task_id (st_id st) Assigned s, r) of
                (state, out) \<Rightarrow> (state, (st, subject) # out))
      | (r, _) \<Rightarrow> select_loop env task_id task project_id hosts sts (s, r))"

definition task_project :: "Task option \<Rightarrow> string" where
  "task_project task = (case task of None \<Rightarrow> [] | Some t \<Rightarrow> t_project_id t)"

definition select_ready ::
  "DispatchEnv \<Rightarrow> string \<Rightarrow> TaskStore \<times> WorkerRegistry \<Rightarrow> (TaskStore \<times> WorkerRegistry) \<times> (Subtask \<times> string) list" where
  "select_ready env task_id state = (case state of (s, r) \<Rightarrow>
     select_loop env task_id (get_task task_id s) (task_project (get_task task_id s)) (sibling_worker_hosts (de_hostname env) s r task_id)
       (get_ready_subtasks task_id s) (s, r))"

section \<open>Publication\<close>

datatype SendOutcome = Sent | SendFailed | NotEncoded

definition send_failed :: "DispatchEnv \<Rightarrow> string \<Rightarrow> Subtask \<Rightarrow> TaskStore \<Rightarrow> TaskStore" where
  "send_failed env task_id st s =
     (if st_dispatch_mode st = Remote
      then (case increment_dispatch_retry (de_clock env (st_id st) StatusWrite) task_id (st_id st) s of
          (s, counted) \<Rightarrow>
            let new_retry = unwrap_or counted (st_dispatch_retry_count st + 1)
            in set_node env task_id (st_id st) (if 3 \<le> new_retry then SubtaskStatus.Failed else Pending) s)
      else set_node env task_id (st_id st) Pending s)"

definition sent :: "DispatchEnv \<Rightarrow> string \<Rightarrow> Subtask \<Rightarrow> SendOutcome \<Rightarrow> TaskStore \<Rightarrow> TaskStore" where
  "sent env task_id st outcome s = (case outcome of Sent \<Rightarrow> s | SendFailed \<Rightarrow> send_failed env task_id st s | NotEncoded \<Rightarrow> s)"

text \<open>
  The loops over the selected nodes. \<open>send\<close> answers a publication of a message under a subject, with its headers; the table
  is read for the context of each node as it is then. The result has the messages that were handed to NATS, in order: all
  but those that could not be encoded. No other task changes the table while a loop runs.
\<close>

type_synonym publication = "string \<times> (string \<times> string) list \<times> NatsSubtaskExecute"

fun publish_loop ::
  "DispatchEnv \<Rightarrow> (TaskStore \<Rightarrow> Subtask \<Rightarrow> NatsSubtaskExecute) \<Rightarrow> (string \<Rightarrow> (string \<times> string) list \<Rightarrow> NatsSubtaskExecute \<Rightarrow> SendOutcome) \<Rightarrow> string \<Rightarrow>
     (Subtask \<times> string) list \<Rightarrow> TaskStore \<Rightarrow> TaskStore \<times> publication list" where
  "publish_loop env message send task_id [] s = (s, [])"
| "publish_loop env message send task_id ((st, subject) # ready) s =
     (let execute = message s st;
          dedup = dispatch_dedup_headers (nq_idempotency_key execute);
          outcome = send subject dedup execute
      in map_prod id (\<lambda>pubs. (if outcome = NotEncoded then [] else [(subject, dedup, execute)]) @ pubs)
           (publish_loop env message send task_id ready (sent env task_id st outcome s)))"

definition dispatch_ready_subtasks ::
  "DispatchEnv \<Rightarrow> (ContextBlock \<Rightarrow> nat option) \<Rightarrow> (string \<Rightarrow> string list \<Rightarrow> ContextEntry list) \<Rightarrow>
     (string \<Rightarrow> (string \<times> string) list \<Rightarrow> NatsSubtaskExecute \<Rightarrow> SendOutcome) \<Rightarrow> string \<Rightarrow> TaskStore \<times> WorkerRegistry \<Rightarrow>
     (TaskStore \<times> WorkerRegistry) \<times> publication list" where
  "dispatch_ready_subtasks env json_size committed send task_id state = (case select_ready env task_id state of
     ((s, r), ready) \<Rightarrow>
       map_prod (\<lambda>s. (s, r)) id (publish_loop env (\<lambda>s' st. subtask_execute_payload (de_sha256_hex env) (de_clock env (st_id st) Scoring) task_id st
            (task_project (get_task task_id (fst state))) (st_expected_output st) (st_file_constraints st)
            (compose_context_block json_size committed task_id (st_depends_on st) s')) send task_id ready s))"

definition publish_ready_subtasks ::
  "DispatchEnv \<Rightarrow> (ContextBlock \<Rightarrow> nat option) \<Rightarrow> (string \<Rightarrow> string list \<Rightarrow> ContextEntry list) \<Rightarrow>
     (string \<Rightarrow> (string \<times> string) list \<Rightarrow> NatsSubtaskExecute \<Rightarrow> SendOutcome) option \<Rightarrow> string \<Rightarrow> TaskStore \<times> WorkerRegistry \<Rightarrow>
     (TaskStore \<times> WorkerRegistry) \<times> publication list" where
  "publish_ready_subtasks env json_size committed nats_client task_id state = (case select_ready env task_id state of
     ((s, r), ready) \<Rightarrow>
       (case nats_client of
          None \<Rightarrow> ((s, r), [])
        | Some send \<Rightarrow>
            map_prod (\<lambda>s. (s, r)) id (publish_loop env (\<lambda>s' st. subtask_execute_payload (de_sha256_hex env) (de_clock env (st_id st) Scoring) task_id st
                 (task_project (get_task task_id (fst state))) [] [] (compose_context_block json_size committed task_id (st_depends_on st) s'))
               send task_id ready s)))"

section \<open>What a selection keeps\<close>

lemma set_node_task:
  "get_task task_id (set_node env task_id i status s) =
     (case get_task task_id s of
        None \<Rightarrow> None
      | Some t \<Rightarrow> if node_of i t = None then Some t
          else Some (t\<lparr>t_subtasks := update_first (\<lambda>n. st_id n = i) (\<lambda>n. n\<lparr>st_status := status\<rparr>) (t_subtasks t),
                 t_updated_at := de_clock env i StatusWrite\<rparr>))"
  by (auto simp: set_node_def update_subtask_status_def get_task_def node_of_def persist_task_def graph_verb_def insert_task_def
      Let_def update_conv' split: option.splits)

lemma set_node_node:
  assumes "get_task task_id s = Some t"
  obtains t' where "get_task task_id (set_node env task_id i status s) = Some t'"
    "\<And>j. node_of j t' = (if j = i then map_option (\<lambda>n. n\<lparr>st_status := status\<rparr>) (node_of j t) else node_of j t)"
proof (cases "node_of i t")
  case None
  with that[of t] show ?thesis by (auto simp: set_node_task assms)
next
  case (Some n)
  show ?thesis
    by (rule that) (use Some in \<open>auto simp: set_node_task assms node_of_def find_update_first\<close>)
qed

lemma gate_workers:
  assumes "node_verdict env project_id task st r = (r', verdict)"
  shows "wr_workers r' = wr_workers r" "wr_placement_policy r' = wr_placement_policy r"
  using gate_counts_refusals[OF assms[unfolded node_verdict_def]] by simp_all

lemma walks_cong:
  assumes "wr_workers r = wr_workers r'"
  shows "workers_with_capabilities_excluding now required exclude r = workers_with_capabilities_excluding now required exclude r'"
    "workers_with_capabilities now required r = workers_with_capabilities now required r'"
    "dispatch_candidates now required project_id exclude r = dispatch_candidates now required project_id exclude r'"
  by (simp_all add: assms workers_with_capabilities_excluding_def workers_with_capabilities_def dispatch_candidates_def available_workers_def)

lemma verdict_cong:
  assumes "wr_workers r = wr_workers r'"
  shows "snd (node_verdict env project_id task st r) = snd (node_verdict env project_id task st r')"
  by (simp add: node_verdict_def dispatch_gate_def Let_def walks_cong[OF assms])

lemma subject_cong:
  assumes "wr_workers r = wr_workers r'" "wr_placement_policy r = wr_placement_policy r'"
  shows "resolve_dispatch_subject hostname now r st project_id hosts independence =
    resolve_dispatch_subject hostname now r' st project_id hosts independence"
  by (simp add: resolve_dispatch_subject_def placement_target_def walks_cong[OF assms(1)] assms(2))

definition selected :: "DispatchEnv \<Rightarrow> string \<Rightarrow> Task option \<Rightarrow> WorkerRegistry \<Rightarrow> Subtask \<Rightarrow> bool" where
  "selected env project_id task r st \<longleftrightarrow>
     \<not> 3 \<le> st_dispatch_retry_count st \<and> snd (node_verdict env project_id task st r) = Dispatch"

lemma selected_cong: "wr_workers r = wr_workers r' \<Longrightarrow> selected env project_id task r = selected env project_id task r'"
  using verdict_cong[of r r' env project_id task] by (simp add: selected_def fun_eq_iff)

lemma select_loop_step:
  obtains (spent) "3 \<le> st_dispatch_retry_count st"
      "select_loop env task_id task project_id hosts (st # sts) (s, r) =
         select_loop env task_id task project_id hosts sts (set_node env task_id (st_id st) SubtaskStatus.Failed s, r)"
  | (published) r1 where "\<not> 3 \<le> st_dispatch_retry_count st" "selected env project_id task r st"
      "wr_workers r1 = wr_workers r" "wr_placement_policy r1 = wr_placement_policy r"
      "select_loop env task_id task project_id hosts (st # sts) (s, r) =
         apsnd (Cons (st, resolve_dispatch_subject (de_hostname env) (de_clock env (st_id st) Scoring) r st project_id hosts
             (review_independence st task)))
           (select_loop env task_id task project_id hosts sts (set_node env task_id (st_id st) Assigned s, r1))"
  | (kept) r1 where "\<not> 3 \<le> st_dispatch_retry_count st" "\<not> selected env project_id task r st"
      "wr_workers r1 = wr_workers r" "wr_placement_policy r1 = wr_placement_policy r"
      "select_loop env task_id task project_id hosts (st # sts) (s, r) = select_loop env task_id task project_id hosts sts (s, r1)"
proof (cases "3 \<le> st_dispatch_retry_count st")
  case True
  with spent show ?thesis by simp
next
  case False
  obtain r1 verdict where v: "node_verdict env project_id task st r = (r1, verdict)" by fastforce
  note same = gate_workers[OF v]
  show ?thesis
  proof (cases "verdict = Dispatch")
    case True
    with False v same show ?thesis
      by (intro published[of r1]) (simp_all add: selected_def Let_def apsnd_def map_prod_def subject_cong[of r1 r] split: prod.split)
  next
    case other: False
    with False v same show ?thesis
      by (intro kept[of r1]) (simp_all add: selected_def split: WorkerDispatchGate.split)
  qed
qed

text \<open>The published nodes are the selected ones, in order, each with the subject the registry resolves for it.\<close>

lemma select_loop_out:
  assumes "select_loop env task_id task project_id hosts sts (s, r) = ((s', r'), out)"
  shows "wr_workers r' = wr_workers r \<and> wr_placement_policy r' = wr_placement_policy r \<and>
    out = map (\<lambda>st. (st, resolve_dispatch_subject (de_hostname env) (de_clock env (st_id st) Scoring) r st project_id hosts (review_independence st task)))
      (filter (selected env project_id task r) sts)"
  using assms
proof (induction sts arbitrary: s r out)
  case (Cons st sts)
  show ?case
  proof (cases rule: select_loop_step[of st env task_id task project_id hosts sts s r])
    case spent
    from Cons.IH[OF Cons.prems[unfolded spent(2)]] spent(1) show ?thesis by (simp add: selected_def)
  next
    case (published r1)
    from Cons.prems[unfolded published(5)] obtain out' where
      rec: "select_loop env task_id task project_id hosts sts (set_node env task_id (st_id st) Assigned s, r1) = ((s', r'), out')"
      and out: "out = (st, resolve_dispatch_subject (de_hostname env) (de_clock env (st_id st) Scoring) r st project_id hosts
             (review_independence st task)) # out'" by (auto simp: apsnd_def map_prod_def split: prod.splits)
    from Cons.IH[OF rec] published(2-4) out selected_cong[OF published(3)] subject_cong[OF published(3,4)] show ?thesis by simp
  next
    case (kept r1)
    from Cons.IH[OF Cons.prems[unfolded kept(5)]] kept(2-4) selected_cong[OF kept(3)] subject_cong[OF kept(3,4)] show ?thesis by simp
  qed
qed simp

definition status_after :: "DispatchEnv \<Rightarrow> string \<Rightarrow> Task option \<Rightarrow> WorkerRegistry \<Rightarrow> Subtask \<Rightarrow> SubtaskStatus \<Rightarrow> SubtaskStatus" where
  "status_after env project_id task r st status =
     (if 3 \<le> st_dispatch_retry_count st then SubtaskStatus.Failed else if selected env project_id task r st then Assigned else status)"

lemma status_after_cong: "wr_workers r = wr_workers r' \<Longrightarrow> status_after env project_id task r = status_after env project_id task r'"
  by (simp add: status_after_def fun_eq_iff selected_cong[of r r'])

text \<open>One node is written, then the rest of the list, which does not have it.\<close>

lemma settled_step:
  assumes "\<exists>t'. get_task task_id s' = Some t' \<and> (\<forall>j. node_of j t' = (case find (\<lambda>x. st_id x = j) sts of
      None \<Rightarrow> node_of j mid | Some x \<Rightarrow> map_option (f x) (node_of j mid)))"
    "\<forall>j. node_of j mid = (if j = st_id st then map_option (f st) (node_of j t) else node_of j t)"
    "find (\<lambda>x. st_id x = st_id st) sts = None"
  shows "\<exists>t'. get_task task_id s' = Some t' \<and> (\<forall>j. node_of j t' = (case find (\<lambda>x. st_id x = j) (st # sts) of
      None \<Rightarrow> node_of j t | Some x \<Rightarrow> map_option (f x) (node_of j t)))"
proof -
  from assms(1) obtain t' where t': "get_task task_id s' = Some t'" "\<And>j. node_of j t' = (case find (\<lambda>x. st_id x = j) sts of
      None \<Rightarrow> node_of j mid | Some x \<Rightarrow> map_option (f x) (node_of j mid))" by blast
  have "node_of j t' = (case find (\<lambda>x. st_id x = j) (st # sts) of None \<Rightarrow> node_of j t | Some x \<Rightarrow> map_option (f x) (node_of j t))" for j
    using assms(2,3) by (cases "j = st_id st") (simp_all add: t'(2) split: option.split)
  with t'(1) show ?thesis by blast
qed

lemma select_loop_nodes:
  assumes "select_loop env task_id task project_id hosts sts (s, r) = ((s', r'), out)" "get_task task_id s = Some t" "distinct (map st_id sts)"
  shows "\<exists>t'. get_task task_id s' = Some t' \<and> (\<forall>j. node_of j t' =
    (case find (\<lambda>st. st_id st = j) sts of
       None \<Rightarrow> node_of j t
     | Some st \<Rightarrow> map_option (\<lambda>n. n\<lparr>st_status := status_after env project_id task r st (st_status n)\<rparr>) (node_of j t)))"
  using assms
proof (induction sts arbitrary: s r t out)
  case (Cons st sts)
  have fresh: "find (\<lambda>x. st_id x = st_id st) sts = None" using Cons.prems(3) by (simp add: find_None_iff) (metis image_eqI)
  show ?case
  proof (cases rule: select_loop_step[of st env task_id task project_id hosts sts s r])
    case spent
    obtain t1 where t1: "get_task task_id (set_node env task_id (st_id st) SubtaskStatus.Failed s) = Some t1"
      "\<And>j. node_of j t1 = (if j = st_id st then map_option (\<lambda>n. n\<lparr>st_status := SubtaskStatus.Failed\<rparr>) (node_of j t) else node_of j t)"
      using set_node_node[OF Cons.prems(2)] by metis
    have "status_after env project_id task r st status = SubtaskStatus.Failed" for status using spent(1) by (simp add: status_after_def)
    with Cons.IH[OF Cons.prems(1)[unfolded spent(2)] t1(1)] Cons.prems(3) t1(2) fresh show ?thesis by (intro settled_step[where mid = t1]) auto
  next
    case (published r1)
    obtain t1 where t1: "get_task task_id (set_node env task_id (st_id st) Assigned s) = Some t1"
      "\<And>j. node_of j t1 = (if j = st_id st then map_option (\<lambda>n. n\<lparr>st_status := Assigned\<rparr>) (node_of j t) else node_of j t)"
      using set_node_node[OF Cons.prems(2)] by metis
    from Cons.prems(1)[unfolded published(5)] obtain out' where
      rec: "select_loop env task_id task project_id hosts sts (set_node env task_id (st_id st) Assigned s, r1) = ((s', r'), out')"
      by (auto simp: apsnd_def map_prod_def split: prod.splits)
    have "status_after env project_id task r st status = Assigned" for status using published(1,2) by (simp add: status_after_def)
    with Cons.IH[OF rec t1(1), unfolded status_after_cong[OF published(3)]] Cons.prems(3) t1(2) fresh show ?thesis
      by (intro settled_step[where mid = t1]) auto
  next
    case (kept r1)
    have "status_after env project_id task r st status = status" for status using kept(1,2) by (simp add: status_after_def)
    with Cons.IH[OF Cons.prems(1)[unfolded kept(5)] Cons.prems(2), unfolded status_after_cong[OF kept(3)]] Cons.prems(3) fresh show ?thesis
      by (intro settled_step[where mid = t]) (auto simp: option.map_ident)
  qed
qed simp

section \<open>Properties of a selection\<close>

lemma ready_from_task:
  assumes "n \<in> set (get_ready_subtasks task_id s)"
  obtains t where "get_task task_id s = Some t" "n \<in> set (t_subtasks t)" "st_status n = Pending"
proof (cases "map_of (ts_tasks s) task_id")
  case (Some t)
  with assms that[of t] show ?thesis by (auto simp: get_ready_subtasks_def get_task_def Let_def split: if_splits)
qed (use assms in \<open>simp add: get_ready_subtasks_def\<close>)

lemma ready_distinct:
  assumes "get_task task_id s = Some t" "distinct (map st_id (t_subtasks t))"
  shows "distinct (map st_id (get_ready_subtasks task_id s))"
  using assms by (auto simp: get_ready_subtasks_def get_task_def Let_def distinct_map inj_on_def)

lemma ready_subseq: "get_task task_id s = Some t \<Longrightarrow> subseq (get_ready_subtasks task_id s) (t_subtasks t)"
  by (auto simp: get_ready_subtasks_def get_task_def Let_def)

lemma find_distinct:
  assumes "distinct (map st_id xs)" "n \<in> set xs"
  shows "find (\<lambda>x. st_id x = st_id n) xs = Some n"
  using assms by (induction xs) (auto simp: image_iff)

lemma select_ready_out:
  assumes "select_ready env task_id (s, r) = ((s', r'), ready)"
  shows "ready = map (\<lambda>st. (st, resolve_dispatch_subject (de_hostname env) (de_clock env (st_id st) Scoring) r st
        (task_project (get_task task_id s)) (sibling_worker_hosts (de_hostname env) s r task_id) (review_independence st (get_task task_id s))))
      (filter (selected env (task_project (get_task task_id s)) (get_task task_id s) r) (get_ready_subtasks task_id s))"
  using select_loop_out[OF assms[unfolded select_ready_def prod.case]] by blast

lemma selection_settled:
  assumes "select_ready env task_id (s, r) = ((s', r'), ready)" "get_task task_id s = Some t" "distinct (map st_id (t_subtasks t))"
    "n \<in> set (t_subtasks t)"
  shows "(\<exists>t'. get_task task_id s' = Some t' \<and>
    node_of (st_id n) t' = Some (n\<lparr>st_status :=
      (if n \<notin> set (get_ready_subtasks task_id s) then st_status n
       else if 3 \<le> st_dispatch_retry_count n then SubtaskStatus.Failed
       else if n \<in> fst ` set ready then Assigned else st_status n)\<rparr>)) \<and>
    distinct (map (st_id \<circ> fst) ready) \<and> subseq (map fst ready) (t_subtasks t) \<and>
    (\<forall>m \<in> fst ` set ready. m \<in> set (get_ready_subtasks task_id s) \<and> st_dispatch_retry_count m < 3)"
proof -
  let ?p = "task_project (Some t)" and ?sts = "get_ready_subtasks task_id s"
  note run = assms(1)[unfolded select_ready_def prod.case assms(2)]
  from select_loop_nodes[OF run assms(2) ready_distinct[OF assms(2,3)]] obtain t' where t': "get_task task_id s' = Some t'"
    "node_of (st_id n) t' = (case find (\<lambda>st. st_id st = st_id n) ?sts of None \<Rightarrow> node_of (st_id n) t
       | Some st \<Rightarrow> map_option (\<lambda>n. n\<lparr>st_status := status_after env ?p (Some t) r st (st_status n)\<rparr>) (node_of (st_id n) t))" by blast
  have node: "node_of (st_id n) t = Some n" using find_distinct[OF assms(3,4)] by (simp add: node_of_def)
  have ready: "n \<in> fst ` set ready \<longleftrightarrow> n \<in> set ?sts \<and> selected env ?p (Some t) r n"
    using select_loop_out[OF run] by force
  have listed: "map fst ready = filter (selected env ?p (Some t) r) ?sts" using select_loop_out[OF run] by (simp add: comp_def)
  have "distinct (map st_id (map fst ready))" unfolding listed by (rule distinct_map_filter[OF ready_distinct[OF assms(2,3)]])
  moreover have "subseq (map fst ready) (t_subtasks t)" unfolding listed
    using ready_subseq[OF assms(2)] subseq_order.order_trans[OF subseq_filter_left] by blast
  moreover have "\<forall>m \<in> fst ` set ready. m \<in> set ?sts \<and> st_dispatch_retry_count m < 3"
    unfolding set_map[symmetric] listed by (auto simp: selected_def)
  moreover have "\<exists>t'. get_task task_id s' = Some t' \<and>
    node_of (st_id n) t' = Some (n\<lparr>st_status :=
      (if n \<notin> set ?sts then st_status n
       else if 3 \<le> st_dispatch_retry_count n then SubtaskStatus.Failed
       else if n \<in> fst ` set ready then Assigned else st_status n)\<rparr>)"
  proof (cases "n \<in> set ?sts")
    case True
    then show ?thesis using t' node ready find_distinct[OF ready_distinct[OF assms(2,3)] True] by (simp add: status_after_def)
  next
    case False
    have "find (\<lambda>st. st_id st = st_id n) ?sts = None"
    proof -
      have "m = n" if "m \<in> set ?sts" "st_id m = st_id n" for m
        using ready_from_task[OF that(1)] assms(2-4) that(2) by (metis distinct_map inj_onD option.inject)
      with False show ?thesis by (auto simp: find_None_iff)
    qed
    with False t' node show ?thesis by simp
  qed  ultimately show ?thesis by simp
qed

text \<open>
  C16. A selection settles every node of the task, whose ids are distinct: a ready node that used up its dispatch attempts is
  failed, a ready node that is selected is marked assigned, and every other node is left as it was. The list of selected
  nodes holds ready nodes with attempts left, each once, in the order of the task. (Selected nodes are handed to NATS
  afterwards, and only when there is a client and the message can be encoded.)
\<close>

theorem selection_settles:
  assumes "select_ready env task_id (s, r) = ((s', r'), ready)" "get_task task_id s = Some t" "distinct (map st_id (t_subtasks t))"
    "n \<in> set (t_subtasks t)"
  shows "(\<exists>t'. get_task task_id s' = Some t' \<and>
    node_of (st_id n) t' = Some (n\<lparr>st_status :=
      (if n \<notin> set (get_ready_subtasks task_id s) then st_status n
       else if 3 \<le> st_dispatch_retry_count n then SubtaskStatus.Failed
       else if n \<in> fst ` set ready then Assigned else st_status n)\<rparr>)) \<and>
    distinct (map (st_id \<circ> fst) ready) \<and> subseq (map fst ready) (t_subtasks t) \<and>
    (\<forall>m \<in> fst ` set ready. m \<in> set (get_ready_subtasks task_id s) \<and> st_dispatch_retry_count m < 3)"
  by (rule selection_settled[OF assms])

text \<open>
  C15. A review that is published has a reviewer that did not produce what it reviews: every producer of its dependencies is
  known, a worker that is available, capable, in scope, of the gateway's contract and none of the producers exists, and a
  review sent to a worker's own subject is sent to such a worker.
\<close>

theorem review_dispatch_independent:
  assumes "select_ready env task_id (s, r) = ((s', r'), ready)" "(st, subject) \<in> set ready"
    "requires_independence (st_required_capabilities st)"
  defines "producers \<equiv> {i. \<exists>dep \<in> set (st_depends_on st). producer_of (get_task task_id s) dep = Some i}"
  shows "(\<forall>dep \<in> set (st_depends_on st). producer_of (get_task task_id s) dep \<noteq> None) \<and>
    dispatch_candidates (de_clock env (st_id st) SecondWalk) (st_required_capabilities st) (task_project (get_task task_id s)) producers r \<noteq> [] \<and>
    (subject = NATS_SUBJECT_SUBTASK_EXECUTE \<or>
     (\<exists>w \<in> set (dispatch_candidates (de_clock env (st_id st) Scoring) (st_required_capabilities st) (task_project (get_task task_id s)) producers r).
        subject = per_worker_subject (rw_id w) \<and> rw_id w \<notin> producers))"
proof -
  let ?p = "task_project (get_task task_id s)"
  from assms(2) select_ready_out[OF assms(1)] have sel: "selected env ?p (get_task task_id s) r st"
    and subject: "subject = resolve_dispatch_subject (de_hostname env) (de_clock env (st_id st) Scoring) r st ?p
        (sibling_worker_hosts (de_hostname env) s r task_id) (review_independence st (get_task task_id s))" by auto
  have excluded: "ri_excluded_producers (review_independence st (get_task task_id s)) = producers"
    using assms(3) by (simp add: review_independence_spec producers_def)
  have "st_required_capabilities st \<noteq> []" using assms(3) by (auto simp: requires_independence_def)
  with sel have gate: "ri_unknown_producers (review_independence st (get_task task_id s)) = []"
    "dispatch_candidates (de_clock env (st_id st) SecondWalk) (st_required_capabilities st) ?p producers r \<noteq> []"
    unfolding selected_def node_verdict_def dispatch_gate_exact excluded by (simp_all split: if_splits)
  have "subject = NATS_SUBJECT_SUBTASK_EXECUTE \<or>
     (\<exists>w \<in> set (dispatch_candidates (de_clock env (st_id st) Scoring) (st_required_capabilities st) ?p producers r).
        subject = per_worker_subject (rw_id w) \<and> rw_id w \<notin> producers)"
  proof (cases "placement_target (de_hostname env) (de_clock env (st_id st) Scoring) (st_required_capabilities st) ?p
      (st_file_constraints st) (sibling_worker_hosts (de_hostname env) s r task_id) producers r")
    case (Some pl)
    from placement_target_candidate[OF Some] obtain w where w:
      "w \<in> set (dispatch_candidates (de_clock env (st_id st) Scoring) (st_required_capabilities st) ?p producers r)"
      "pl_subject pl = per_worker_subject (rw_id w)" by metis
    moreover have "rw_id w \<notin> producers" using w(1) by (simp add: dispatch_candidate_iff)
    moreover have "subject = pl_subject pl" by (simp add: subject resolve_dispatch_subject_def excluded Some)
    ultimately show ?thesis by metis
  qed (simp add: subject resolve_dispatch_subject_def excluded)
  with gate assms(3) show ?thesis by (auto simp: review_independence_spec filter_empty_conv)
qed

text \<open>
  A ready node with attempts left is selected whenever a worker can take it: one that is available at both readings of
  the gate, has the capabilities, serves the project, speaks the gateway's contract and produced none of the node's
  dependencies, when the node is a review, whose producers are all known.
\<close>

lemma ready_node_selected:
  assumes "select_ready env task_id (s, r) = ((s', r'), ready)" "n \<in> set (get_ready_subtasks task_id s)" "st_dispatch_retry_count n < 3"
    "w \<in> snd ` set (wr_workers r)" "is_available (de_clock env (st_id n) FirstWalk) STALE_TIMEOUT_SECS w"
    "is_available (de_clock env (st_id n) SecondWalk) STALE_TIMEOUT_SECS w" "set (st_required_capabilities n) \<subseteq> set (rw_capabilities w)"
    "serves_scope w (task_project (get_task task_id s))" "rw_contract_version w = CONTRACT_VERSION"
    "requires_independence (st_required_capabilities n) \<longrightarrow>
       (\<forall>dep \<in> set (st_depends_on n). \<exists>i. producer_of (get_task task_id s) dep = Some i \<and> i \<noteq> rw_id w)"
  shows "n \<in> fst ` set ready"
proof -
  let ?p = "task_project (get_task task_id s)" and ?i = "review_independence n (get_task task_id s)"
  have "ri_unknown_producers ?i = []" using assms(10) by (fastforce simp: review_independence_spec filter_empty_conv)
  moreover have "rw_id w \<notin> ri_excluded_producers ?i" using assms(10) unfolding review_independence_spec by (simp split: if_splits) (metis option.inject)
  moreover from this have "w \<in> set (dispatch_candidates (de_clock env (st_id n) SecondWalk) (st_required_capabilities n) ?p (ri_excluded_producers ?i) r)"
    using assms(4-9) by (simp add: dispatch_candidate_iff)
  moreover have "w \<in> set (workers_with_capabilities (de_clock env (st_id n) FirstWalk) (st_required_capabilities n) r)"
    using assms(4,5,7) by (auto simp: workers_with_capabilities_def workers_with_capabilities_excluding_def available_workers_def)
  ultimately have "selected env ?p (get_task task_id s) r n"
    using assms(3) by (auto simp: selected_def node_verdict_def dispatch_gate_exact)
  with assms(2) select_ready_out[OF assms(1)] show ?thesis by force
qed

section \<open>Failed publications and exhausted attempts\<close>

text \<open>A failed publication of a node that may only run remotely costs one attempt, and the third failure fails the node.\<close>

lemma send_failed_remote:
  assumes "get_task task_id s = Some t" "node_of (st_id st) t = Some n" "st_dispatch_mode st = Remote"
  shows "\<exists>t' n'. get_task task_id (send_failed env task_id st s) = Some t' \<and> node_of (st_id st) t' = Some n' \<and>
    st_dispatch_retry_count n' = st_dispatch_retry_count n + 1 \<and>
    st_status n' = (if 3 \<le> st_dispatch_retry_count n + 1 then SubtaskStatus.Failed else Pending)"
proof -
  let ?now = "de_clock env (st_id st) StatusWrite"
  let ?count = "\<lambda>m. m\<lparr>st_dispatch_retry_count := st_dispatch_retry_count n + 1\<rparr>"
  obtain s1 where s1: "increment_dispatch_retry ?now task_id (st_id st) s = (s1, Some (st_dispatch_retry_count n + 1))"
    "get_task task_id s1 = Some (t\<lparr>t_subtasks := update_first (\<lambda>m. st_id m = st_id st) ?count (t_subtasks t), t_updated_at := ?now\<rparr>)"
    using assms(1,2)
    by (auto simp: increment_dispatch_retry_def get_task_def node_of_def persist_task_def graph_verb_def insert_task_def Let_def
        update_conv' split: option.splits)
  let ?status = "if 3 \<le> st_dispatch_retry_count n + 1 then SubtaskStatus.Failed else Pending"
  have run: "send_failed env task_id st s = set_node env task_id (st_id st) ?status s1"
    using s1(1) assms(3) by (simp add: send_failed_def Let_def)
  from set_node_node[OF s1(2), of env "st_id st" ?status] obtain t' where t':
    "get_task task_id (set_node env task_id (st_id st) ?status s1) = Some t'"
    "node_of (st_id st) t' = map_option (\<lambda>m. m\<lparr>st_status := ?status\<rparr>)
       (node_of (st_id st) (t\<lparr>t_subtasks := update_first (\<lambda>m. st_id m = st_id st) ?count (t_subtasks t), t_updated_at := ?now\<rparr>))"
    by metis
  then show ?thesis unfolding run using assms(2) by (simp add: node_of_def find_update_first)
qed

text \<open>A node that prefers a remote worker never spends an attempt, however often its publication fails.\<close>

lemma prefer_remote_never_exhausted:
  assumes "get_task task_id s = Some t" "node_of (st_id st) t = Some n" "st_dispatch_mode st = PreferRemote"
  shows "\<exists>t'. get_task task_id (send_failed env task_id st s) = Some t' \<and> node_of (st_id st) t' = Some (n\<lparr>st_status := Pending\<rparr>)"
  using set_node_node[OF assms(1), of env "st_id st" Pending] assms(2,3) by (auto simp: send_failed_def) (metis option.simps(9))

section \<open>Publications\<close>

lemma map_prod_eqE:
  assumes "map_prod f g p = (a, b)"
  obtains x y where "p = (x, y)" "a = f x" "b = g y"
  using assms by (cases p) auto

lemma sent_others:
  assumes "get_task task_id s = Some t"
  shows "\<exists>t'. get_task task_id (sent env task_id st outcome s) = Some t' \<and> (\<forall>j. j \<noteq> st_id st \<longrightarrow> node_of j t' = node_of j t) \<and>
    (outcome = Sent \<longrightarrow> t' = t)"
proof -
  have set_node: "\<exists>t'. get_task task_id (set_node env task_id (st_id st) status s0) = Some t' \<and> (\<forall>j. j \<noteq> st_id st \<longrightarrow> node_of j t' = node_of j t0)"
    if "get_task task_id s0 = Some t0" for s0 t0 status
    using set_node_node[OF that, of env "st_id st" status] by metis
  obtain s1 c where inc: "increment_dispatch_retry (de_clock env (st_id st) StatusWrite) task_id (st_id st) s = (s1, c)" by fastforce
  then have "\<exists>t1. get_task task_id s1 = Some t1 \<and> (\<forall>j. j \<noteq> st_id st \<longrightarrow> node_of j t1 = node_of j t)"
    using assms by (auto simp: increment_dispatch_retry_def get_task_def node_of_def persist_task_def graph_verb_def insert_task_def Let_def
        update_conv' find_update_first split: option.splits)
  then obtain t1 where t1: "get_task task_id s1 = Some t1" "\<forall>j. j \<noteq> st_id st \<longrightarrow> node_of j t1 = node_of j t" by blast
  have "\<exists>status. send_failed env task_id st s = set_node env task_id (st_id st) status (if st_dispatch_mode st = Remote then s1 else s)"
    by (auto simp: send_failed_def inc Let_def)
  then obtain status where "send_failed env task_id st s = set_node env task_id (st_id st) status (if st_dispatch_mode st = Remote then s1 else s)" by blast
  moreover have "get_task task_id (if st_dispatch_mode st = Remote then s1 else s) = Some (if st_dispatch_mode st = Remote then t1 else t)"
    using t1(1) assms by simp
  ultimately have "\<exists>t'. get_task task_id (send_failed env task_id st s) = Some t' \<and> (\<forall>j. j \<noteq> st_id st \<longrightarrow> node_of j t' = node_of j t)"
    using set_node[of "if st_dispatch_mode st = Remote then s1 else s" "if st_dispatch_mode st = Remote then t1 else t" status] t1(2)
    by (auto split: if_splits)
  with assms show ?thesis by (cases outcome) (auto simp: sent_def)
qed

lemma publish_loop_unlisted:
  assumes "publish_loop env message send task_id ready s = (s', pubs)" "get_task task_id s = Some t" "i \<notin> (st_id \<circ> fst) ` set ready"
    "\<And>s st. nq_node_id (message s st) = st_id st"
  shows "(\<exists>t'. get_task task_id s' = Some t' \<and> node_of i t' = node_of i t) \<and> filter (\<lambda>(_, _, m). nq_node_id m = i) pubs = []"
  using assms(1-3)
proof (induction ready arbitrary: s t pubs)
  case (Cons x ready)
  obtain st subject where x: "x = (st, subject)" by fastforce
  let ?m = "message s st"
  let ?out = "send subject (dispatch_dedup_headers (nq_idempotency_key ?m)) ?m"
  obtain pubs1 where l: "publish_loop env message send task_id ready (sent env task_id st ?out s) = (s', pubs1)"
    "pubs = (if ?out = NotEncoded then [] else [(subject, dispatch_dedup_headers (nq_idempotency_key ?m), ?m)]) @ pubs1"
    using Cons.prems(1) by (auto simp: x Let_def elim!: map_prod_eqE)
  obtain t1 where t1: "get_task task_id (sent env task_id st ?out s) = Some t1" "\<forall>j. j \<noteq> st_id st \<longrightarrow> node_of j t1 = node_of j t"
    using sent_others[OF Cons.prems(2)] by blast
  from Cons.IH[OF l(1) t1(1)] Cons.prems(3) t1(2) l(2) show ?case by (auto simp: x assms(4))
qed simp

lemma publish_loop_listed:
  assumes "publish_loop env message send task_id ready s = (s', pubs)" "get_task task_id s = Some t" "distinct (map (st_id \<circ> fst) ready)"
    "(n, subject) \<in> set ready" "\<And>s st. nq_node_id (message s st) = st_id st" "\<And>subject headers m. send subject headers m \<noteq> NotEncoded"
  shows "\<exists>s1 t'. filter (\<lambda>(_, _, m). nq_node_id m = st_id n) pubs =
      [(subject, dispatch_dedup_headers (nq_idempotency_key (message s1 n)), message s1 n)] \<and> get_task task_id s' = Some t' \<and>
    (send subject (dispatch_dedup_headers (nq_idempotency_key (message s1 n))) (message s1 n) = Sent \<longrightarrow> node_of (st_id n) t' = node_of (st_id n) t)"
  using assms(1-4)
proof (induction ready arbitrary: s t pubs)
  case (Cons x ready)
  obtain st sub where x: "x = (st, sub)" by fastforce
  let ?m = "message s st"
  let ?out = "send sub (dispatch_dedup_headers (nq_idempotency_key ?m)) ?m"
  obtain pubs1 where l: "publish_loop env message send task_id ready (sent env task_id st ?out s) = (s', pubs1)"
    "pubs = (sub, dispatch_dedup_headers (nq_idempotency_key ?m), ?m) # pubs1"
    using Cons.prems(1) assms(6) by (auto simp: x Let_def elim!: map_prod_eqE)
  obtain t1 where t1: "get_task task_id (sent env task_id st ?out s) = Some t1" "\<forall>j. j \<noteq> st_id st \<longrightarrow> node_of j t1 = node_of j t"
    "?out = Sent \<longrightarrow> t1 = t"
    using sent_others[OF Cons.prems(2)] by blast
  show ?case
  proof (cases "(n, subject) = x")
    case True
    then have "st_id n \<notin> (st_id \<circ> fst) ` set ready" using Cons.prems(3) by (simp add: True[symmetric])
    from publish_loop_unlisted[OF l(1) t1(1) this assms(5)] True x l(2) t1(3) show ?thesis
      by (intro exI[of _ s]) (auto simp: assms(5))
  next
    case False
    then have mem: "(n, subject) \<in> set ready" using Cons.prems(4) by auto
    then have other: "st_id n \<noteq> st_id st" using Cons.prems(3) by (force simp: x)
    from Cons.IH[OF l(1) t1(1) _ mem] Cons.prems(3) t1(2) other l(2) show ?thesis by (auto simp: x assms(5))
  qed
qed simp

lemma payload_fields:
  "nq_node_id (subtask_execute_payload sha now task_id st p e f c) = st_id st"
  "nq_graph_id (subtask_execute_payload sha now task_id st p e f c) = task_id"
  "nq_description (subtask_execute_payload sha now task_id st p e f c) = st_description st"
  "nq_required_capabilities (subtask_execute_payload sha now task_id st p e f c) = st_required_capabilities st"
  "nq_retry_count (subtask_execute_payload sha now task_id st p e f c) = st_dispatch_retry_count st"
  by (simp_all add: subtask_execute_payload_def for_dispatch_def ExecutionEnvelope_new_def Let_def)

text \<open>
  C17. A ready node with attempts left is handed to NATS exactly once whenever a worker can take it, by
  \<open>dispatch_ready_subtasks\<close> and, where the gateway has a NATS client, by \<open>publish_ready_subtasks\<close>: some worker is available at
  both readings of the gate, has the capabilities, serves the project, speaks the gateway's contract and, when the node is a
  review, whose producers are all known, produced none of its dependencies. The messages can be encoded, the ids of the
  nodes are distinct, and no other task changes the table. The one message for the node names the task, the node and its
  work, carries its idempotency key as the deduplication header, and when NATS takes it the node stays assigned.
\<close>

theorem ready_node_published:
  assumes "dispatch_ready_subtasks env json_size committed send task_id (s, r) = ((s', r'), pubs) \<or>
      publish_ready_subtasks env json_size committed (Some send) task_id (s, r) = ((s', r'), pubs)"
    "\<forall>subject headers m. send subject headers m \<noteq> NotEncoded"
    "get_task task_id s = Some t" "distinct (map st_id (t_subtasks t))"
    "n \<in> set (get_ready_subtasks task_id s)" "st_dispatch_retry_count n < 3"
    "w \<in> snd ` set (wr_workers r)" "is_available (de_clock env (st_id n) FirstWalk) STALE_TIMEOUT_SECS w"
    "is_available (de_clock env (st_id n) SecondWalk) STALE_TIMEOUT_SECS w" "set (st_required_capabilities n) \<subseteq> set (rw_capabilities w)"
    "serves_scope w (t_project_id t)" "rw_contract_version w = CONTRACT_VERSION"
    "requires_independence (st_required_capabilities n) \<longrightarrow>
       (\<forall>dep \<in> set (st_depends_on n). \<exists>i. producer_of (Some t) dep = Some i \<and> i \<noteq> rw_id w)"
  shows "\<exists>subject m t'. filter (\<lambda>(_, _, m). nq_node_id m = st_id n) pubs = [(subject, [(''Nats-Msg-Id'', nq_idempotency_key m)], m)] \<and>
    nq_graph_id m = task_id \<and> nq_description m = st_description n \<and> nq_required_capabilities m = st_required_capabilities n \<and>
    nq_retry_count m = st_dispatch_retry_count n \<and> get_task task_id s' = Some t' \<and>
    (send subject [(''Nats-Msg-Id'', nq_idempotency_key m)] m = Sent \<longrightarrow> node_of (st_id n) t' = Some (n\<lparr>st_status := Assigned\<rparr>))"
proof -
  obtain s1 r1 ready where sel: "select_ready env task_id (s, r) = ((s1, r1), ready)" by (metis surj_pair)
  define payload where "payload e f s' st = subtask_execute_payload (de_sha256_hex env) (de_clock env (st_id st) Scoring) task_id st
    (t_project_id t) (e st) (f st) (compose_context_block json_size committed task_id (st_depends_on st) s')" for e f s' st
  have "\<exists>e f. publish_loop env (payload e f) send task_id ready s1 = (s', pubs)"
    using assms(1)
  proof
    assume "dispatch_ready_subtasks env json_size committed send task_id (s, r) = ((s', r'), pubs)"
    then have "publish_loop env (payload st_expected_output st_file_constraints) send task_id ready s1 = (s', pubs)"
      by (auto simp: dispatch_ready_subtasks_def sel payload_def[abs_def] assms(3) task_project_def elim!: map_prod_eqE)
    then show ?thesis by blast
  next
    assume "publish_ready_subtasks env json_size committed (Some send) task_id (s, r) = ((s', r'), pubs)"
    then have "publish_loop env (payload (\<lambda>_. []) (\<lambda>_. [])) send task_id ready s1 = (s', pubs)"
      by (auto simp: publish_ready_subtasks_def sel payload_def[abs_def] assms(3) task_project_def elim!: map_prod_eqE)
    then show ?thesis by blast
  qed
  then obtain e f where run: "publish_loop env (payload e f) send task_id ready s1 = (s', pubs)" by blast
  have "n \<in> fst ` set ready"
    using ready_node_selected[OF sel assms(5-10)] assms(11-13) by (simp add: assms(3) task_project_def)
  then obtain subject where mem: "(n, subject) \<in> set ready" by force
  have n: "n \<in> set (t_subtasks t)" using ready_from_task[OF assms(5)] assms(3) by auto
  have status: "(if n \<notin> set (get_ready_subtasks task_id s) then st_status n else if 3 \<le> st_dispatch_retry_count n then SubtaskStatus.Failed
      else if n \<in> fst ` set ready then Assigned else st_status n) = Assigned"
    using \<open>n \<in> fst ` set ready\<close> assms(5,6) by simp
  from selection_settled[OF sel assms(3,4) n, unfolded status] obtain t1 where
    t1: "get_task task_id s1 = Some t1" "node_of (st_id n) t1 = Some (n\<lparr>st_status := Assigned\<rparr>)" and d: "distinct (map (st_id \<circ> fst) ready)"
    by blast
  have id: "nq_node_id (payload e f s st) = st_id st" for s st by (simp add: payload_def payload_fields)
  have "\<And>subject headers m. send subject headers m \<noteq> NotEncoded" using assms(2) by blast
  from publish_loop_listed[OF run t1(1) d mem id this] obtain s2 t' where p:
    "filter (\<lambda>(_, _, m). nq_node_id m = st_id n) pubs = [(subject, dispatch_dedup_headers (nq_idempotency_key (payload e f s2 n)), payload e f s2 n)]"
    "get_task task_id s' = Some t'"
    "send subject (dispatch_dedup_headers (nq_idempotency_key (payload e f s2 n))) (payload e f s2 n) = Sent \<longrightarrow> node_of (st_id n) t' = node_of (st_id n) t1"
    by blast
  then show ?thesis using t1(2)
    by (intro exI[of _ subject] exI[of _ "payload e f s2 n"] exI[of _ t']) (simp add: dispatch_dedup_headers_def payload_def payload_fields)
qed

text \<open>The third retry an operator asks for is accepted, and the node is then failed instead of published.\<close>

lemma third_retry_never_published:
  assumes "retry_subtask now task_id i 2 s = (s1, Inr t1)" "select_ready env task_id (s1, r) = ((s2, r2), ready)"
    "distinct (map st_id (t_subtasks t1))"
  shows "\<forall>(st, subject) \<in> set ready. st_id st \<noteq> i"
proof -
  have task: "get_task task_id s1 = Some t1" and node: "\<exists>n. node_of i t1 = Some n \<and> st_dispatch_retry_count n = 3"
    using retry_subtask_store[OF assms(1)] by auto
  have "3 \<le> st_dispatch_retry_count m" if "m \<in> set (t_subtasks t1)" "st_id m = i" for m
    using node find_distinct[OF assms(3) that(1)] that(2) by (simp add: node_of_def)
  with select_ready_out[OF assms(2)] task show ?thesis by (auto simp: selected_def elim!: ready_from_task)
qed

section \<open>A review and two reviewers\<close>

definition review_task :: Task where
  "review_task = task_of [(plain_subtask ''a'' [])\<lparr>st_status := SubtaskStatus.Completed, st_assigned_worker := Some ''w1''\<rparr>,
     (plain_subtask ''b'' [''a''])\<lparr>st_required_capabilities := [''review'']\<rparr>]"

definition review_store :: TaskStore where
  "review_store = TaskStore_new\<lparr>ts_tasks := [(''t1'', review_task)]\<rparr>"

definition review_registry :: WorkerRegistry where
  "review_registry = fst (register 0 ''w2'' [''review''] 1 [] CONTRACT_VERSION
     (fst (register 0 ''w1'' [''review''] 1 [] CONTRACT_VERSION WorkerRegistry_new)))"

definition review_env :: DispatchEnv where
  "review_env = \<lparr>de_sha256_hex = id, de_hostname = (\<lambda>metadata. None), de_clock = (\<lambda>i reading. 0)\<rparr>"

definition review_node :: Subtask where
  "review_node = (plain_subtask ''b'' [''a''])\<lparr>st_required_capabilities := [''review'']\<rparr>"

definition second_reviewer :: RegisteredWorker where
  "second_reviewer = \<lparr>rw_id = ''w2'', rw_capabilities = [''review''], rw_max_capacity = 1, rw_current_load = 0, rw_metadata = [],
     rw_contract_version = CONTRACT_VERSION, rw_projects = [], rw_recent_files = [], rw_per_worker_topic = False, rw_registered_at = 0,
     rw_last_heartbeat = 0\<rparr>"

lemmas review_parts = review_store_def review_task_def review_node_def task_of_def plain_subtask_def get_task_def

lemma review_ready: "get_ready_subtasks ''t1'' review_store = [review_node]"
  by (simp add: get_ready_subtasks_def review_parts Let_def TaskStore_new_def)

lemma review_task_found: "get_task ''t1'' review_store = Some review_task"
  by (simp add: review_store_def get_task_def)

lemma review_workers: "second_reviewer \<in> snd ` set (wr_workers review_registry)"
  by (simp add: review_registry_def register_def register_with_projects_def WorkerRegistry_new_def second_reviewer_def CONTRACT_VERSION_def
      Let_def normalize_projects_def)

definition taking :: "string \<Rightarrow> (string \<times> string) list \<Rightarrow> NatsSubtaskExecute \<Rightarrow> SendOutcome" where
  "taking subject headers m = Sent"

theorem ready_node_published_witness:
  "\<exists>subject m. filter (\<lambda>(_, _, m). nq_node_id m = ''b'')
      (snd (dispatch_ready_subtasks review_env (\<lambda>_. None) (\<lambda>_ _. []) taking ''t1'' (review_store, review_registry))) =
        [(subject, [(''Nats-Msg-Id'', nq_idempotency_key m)], m)] \<and> nq_graph_id m = ''t1''"
proof -
  obtain s' r' pubs where run: "dispatch_ready_subtasks review_env (\<lambda>_. None) (\<lambda>_ _. []) taking ''t1'' (review_store, review_registry) = ((s', r'), pubs)"
    by (metis surj_pair)
  have "\<exists>subject m t'. filter (\<lambda>(_, _, m). nq_node_id m = st_id review_node) pubs = [(subject, [(''Nats-Msg-Id'', nq_idempotency_key m)], m)] \<and>
    nq_graph_id m = ''t1'' \<and> nq_description m = st_description review_node \<and> nq_required_capabilities m = st_required_capabilities review_node \<and>
    nq_retry_count m = st_dispatch_retry_count review_node \<and> get_task ''t1'' s' = Some t' \<and>
    (taking subject [(''Nats-Msg-Id'', nq_idempotency_key m)] m = Sent \<longrightarrow> node_of (st_id review_node) t' = Some (review_node\<lparr>st_status := Assigned\<rparr>))"
    by (rule ready_node_published[OF disjI1[OF run] _ review_task_found _ _ _ review_workers])
      (simp_all add: review_ready taking_def, simp_all add: second_reviewer_def is_available_def serves_scope_def num_seconds_def review_env_def
        STALE_TIMEOUT_SECS_def producer_of_def review_parts)
  moreover have "st_id review_node = ''b''" by (simp add: review_parts)
  ultimately show ?thesis by (auto simp: run)
qed

theorem selection_settles_witness:
  "\<exists>t'. get_task ''t1'' (fst (fst (select_ready review_env ''t1'' (review_store, review_registry)))) = Some t' \<and>
     node_of ''a'' t' = node_of ''a'' review_task"
proof -
  obtain s' r' ready where run: "select_ready review_env ''t1'' (review_store, review_registry) = ((s', r'), ready)" by (metis surj_pair)
  let ?a = "(plain_subtask ''a'' [])\<lparr>st_status := SubtaskStatus.Completed, st_assigned_worker := Some ''w1''\<rparr>"
  have "distinct (map st_id (t_subtasks review_task))" "?a \<in> set (t_subtasks review_task)" "?a \<notin> set (get_ready_subtasks ''t1'' review_store)"
    "node_of ''a'' review_task = Some ?a" "st_id ?a = ''a''"
    by (simp_all add: review_ready, simp_all add: review_parts node_of_def)
  with selection_settles[OF run review_task_found, of ?a] show ?thesis by (simp add: run plain_subtask_def)
qed

theorem review_dispatch_independent_witness:
  "\<exists>subject. (review_node, subject) \<in> set (snd (select_ready review_env ''t1'' (review_store, review_registry))) \<and>
     dispatch_candidates 0 [''review''] (t_project_id review_task) {''w1''} review_registry \<noteq> []"
proof -
  obtain s' r' ready where run: "select_ready review_env ''t1'' (review_store, review_registry) = ((s', r'), ready)" by (metis surj_pair)
  have "selected review_env (task_project (Some review_task)) (Some review_task) review_registry review_node"
    by (simp add: selected_def node_verdict_def dispatch_gate_def review_registry_def review_parts register_def register_with_projects_def
        WorkerRegistry_new_def CONTRACT_VERSION_def normalize_projects_def Let_def review_env_def workers_with_capabilities_def
        workers_with_capabilities_excluding_def available_workers_def is_available_def num_seconds_def STALE_TIMEOUT_SECS_def
        review_independence_def requires_independence_def REVIEW_CAPABILITY_def producer_of_def serves_scope_def)
  with select_ready_out[OF run] obtain subject where member: "(review_node, subject) \<in> set ready"
    by (auto simp: review_ready review_task_found)
  have review: "requires_independence (st_required_capabilities review_node)"
    by (simp add: requires_independence_def REVIEW_CAPABILITY_def review_node_def)
  have "{i. \<exists>dep \<in> set (st_depends_on review_node). producer_of (get_task ''t1'' review_store) dep = Some i} = {''w1''}"
    by (auto simp: review_task_found) (simp_all add: review_parts producer_of_def)
  moreover have "de_clock review_env i reading = 0" "st_required_capabilities review_node = [''review'']"
    "task_project (get_task ''t1'' review_store) = t_project_id review_task" for i reading
    by (simp_all add: review_env_def review_node_def review_task_found task_project_def)
  ultimately show ?thesis using review_dispatch_independent[OF run member review] member run by auto
qed

end
