(* ===== verification/Worker_Service.thy ===== *)
theory Worker_Service
  imports Worker_Registry Policy_Engine
begin

text \<open>
  The RPC surface of the registry (\<open>crates/uc-grpc/src/worker_service.rs\<close>) and the authorization it goes through
  (\<open>crates/uc-grpc/src/governance/policy_interceptor.rs\<close>): who the caller is, what a denial looks like, and the resizing of
  the pool, which runs \<open>docker compose\<close> on every host. The process is an argument; the commands it was given are
  part of the result.
\<close>

section \<open>Principals\<close>

text \<open>The two statuses of \<open>tonic\<close> that are used here.\<close>

datatype Status = InvalidArgument string | PermissionDenied string

definition DECLARATION_REFUSED :: string where "DECLARATION_REFUSED = ''principal_kind_not_declarable''"

definition INVALID_PRINCIPAL :: string where "INVALID_PRINCIPAL = ''invalid_principal''"

definition parse_kind :: "string \<Rightarrow> PrincipalKind option" where
  "parse_kind token =
     (let t = to_ascii_lowercase (trim token) in
      if t = ''user'' then Some PrincipalKind.User
      else if t = ''service'' then Some PrincipalKind.Service
      else if t = ''agent'' then Some PrincipalKind.Agent
      else if t = ''worker'' then Some PrincipalKind.Worker
      else if t = ''external_trigger'' \<or> t = ''externaltrigger'' then Some PrincipalKind.ExternalTrigger
      else if t = ''anonymous'' then Some PrincipalKind.Anonymous
      else None)"

definition resolve_principal :: "string \<Rightarrow> string \<Rightarrow> (Status, Principal) result" where
  "resolve_principal kind i = (case parse_kind kind of
     None \<Rightarrow> Inl (InvalidArgument (''unknown principal_kind '' @ CHR 0x27 # kind @ CHR 0x27 # '' (expected user | service | agent | worker)''))
   | Some k \<Rightarrow>
       if trim i = [] then Inl (InvalidArgument ''principal_id must not be empty'')
       else if \<not> may_hold k Permission.TaskSubmit \<and> k \<noteq> PrincipalKind.Anonymous
       then Inl (PermissionDenied (DECLARATION_REFUSED @ '': principal kind '' @ PrincipalKind_as_str k @ '' may not act over gRPC''))
       else if k \<in> {PrincipalKind.ExternalTrigger, PrincipalKind.Anonymous}
       then Inl (PermissionDenied (DECLARATION_REFUSED @ '': principal kind '' @ PrincipalKind_as_str k @
         '' cannot be declared at this boundary (a webhook acts as the service that verified it)''))
       else Inr (Principal_new k (trim i)))"

definition declared :: "string option \<Rightarrow> string option" where
  "declared value = Option.bind value (\<lambda>v. if trim v = [] then None else Some (trim v))"

definition resolve_declared_principal :: "string option \<Rightarrow> string option \<Rightarrow> (Status, Principal) result" where
  "resolve_declared_principal kind i = (case (declared kind, declared i) of
     (None, None) \<Rightarrow> Inr (Principal_new PrincipalKind.Service ''dashboard'')
   | (Some _, None) \<Rightarrow> Inl (InvalidArgument (INVALID_PRINCIPAL @ '': principal_kind was set without principal_id''))
   | (None, Some _) \<Rightarrow> Inl (InvalidArgument (INVALID_PRINCIPAL @ '': principal_id was set without principal_kind''))
   | (Some k, Some d) \<Rightarrow> resolve_principal k d)"

text \<open>\<open>metadata\<close> looks a key up in the request, when its value is text.\<close>

definition resolve_principal_from_metadata :: "(string \<Rightarrow> string option) \<Rightarrow> (Status, Principal) result" where
  "resolve_principal_from_metadata metadata =
     resolve_declared_principal (metadata ''x-uc-principal-kind'') (metadata ''x-uc-principal-id'')"

section \<open>Denials\<close>

definition denial_code :: "PolicyDecision \<Rightarrow> string" where
  "denial_code decision = unwrap_or (deny_code decision) ''policy_denied''"

text \<open>\<open>debug\<close> is the derived \<open>Debug\<close> rendering of a reason.\<close>

definition deny_status :: "(DenyReason \<Rightarrow> string) \<Rightarrow> PolicyDecision \<Rightarrow> Status" where
  "deny_status debug decision = (case deny_reason decision of
     Some reason \<Rightarrow> PermissionDenied (DenyReason_code reason @ '': '' @ debug reason)
   | None \<Rightarrow> PermissionDenied ''policy_denied: the policy engine refused the request'')"

definition require_decision :: "(DenyReason \<Rightarrow> string) \<Rightarrow> PolicyDecision \<Rightarrow> (Status, unit) result" where
  "require_decision debug decision = (if PolicyDecision_is_allowed decision then Inr () else Inl (deny_status debug decision))"

definition require ::
  "(DenyReason \<Rightarrow> string) \<Rightarrow> 's PolicyState \<Rightarrow> Principal \<Rightarrow> Permission \<Rightarrow> string option \<Rightarrow> datetime \<Rightarrow> (Status, unit) result" where
  "require debug st who permission project now = require_decision debug (authorize st who permission project now)"

definition require_scale_workers ::
  "(DenyReason \<Rightarrow> string) \<Rightarrow> ('s, 'v) PolicyEngine \<Rightarrow> Principal \<Rightarrow> string option \<Rightarrow> datetime \<Rightarrow> 's PolicyState \<Rightarrow>
     's PolicyState \<times> (Status, unit) result" where
  "require_scale_workers debug engine who case_id now st =
     (case authorize_human_tier_tool engine who ''scale_workers'' None case_id now st of
        (st, decision) \<Rightarrow> (st, require_decision debug decision))"

section \<open>Registration\<close>

record RegisterWorkerRequest =
  rr_worker_id :: string
  rr_capabilities :: "string list"
  rr_max_capacity :: u32
  rr_metadata :: string
  rr_contract_version :: string
  rr_projects :: "string list"

record RegisterWorkerResponse =
  ro_success :: bool
  ro_worker_id :: string
  ro_error :: "string option"

record WorkerHeartbeatRequest =
  hq_worker_id :: string
  hq_current_load :: u32
  hq_contract_version :: string
  hq_recent_files :: "string list"
  hq_per_worker_topic :: bool

text \<open>The responses to a heartbeat and to a deregistration: a flag and an error.\<close>

record FlaggedResponse =
  fr_accepted :: bool
  fr_error :: "string option"

definition flagged :: "(string, unit) result \<Rightarrow> FlaggedResponse" where
  "flagged result = (case result of Inr _ \<Rightarrow> \<lparr>fr_accepted = True, fr_error = None\<rparr> | Inl e \<Rightarrow> \<lparr>fr_accepted = False, fr_error = Some e\<rparr>)"

definition register_worker :: "datetime \<Rightarrow> RegisterWorkerRequest \<Rightarrow> WorkerRegistry \<Rightarrow> WorkerRegistry \<times> RegisterWorkerResponse" where
  "register_worker now req r =
     (if rr_worker_id req = [] then (r, \<lparr>ro_success = False, ro_worker_id = [], ro_error = Some ''worker_id cannot be empty''\<rparr>)
      else case register_with_projects now (rr_worker_id req) (rr_capabilities req) (rr_max_capacity req) (rr_metadata req)
             (rr_contract_version req) (rr_projects req) r of
        (r, Inr _) \<Rightarrow> (r, \<lparr>ro_success = True, ro_worker_id = rr_worker_id req, ro_error = None\<rparr>)
      | (r, Inl e) \<Rightarrow> (r, \<lparr>ro_success = False, ro_worker_id = rr_worker_id req, ro_error = Some e\<rparr>))"

definition worker_heartbeat :: "datetime \<Rightarrow> WorkerHeartbeatRequest \<Rightarrow> WorkerRegistry \<Rightarrow> WorkerRegistry \<times> FlaggedResponse" where
  "worker_heartbeat now req r =
     (if hq_contract_version req \<noteq> [] \<and> hq_contract_version req \<noteq> CONTRACT_VERSION
      then (r, \<lparr>fr_accepted = False, fr_error = Some (contract_mismatch (hq_worker_id req) (hq_contract_version req))\<rparr>)
      else map_prod id flagged (heartbeat_with_signals now (hq_worker_id req) (hq_current_load req) (hq_recent_files req)
             (hq_per_worker_topic req) r))"

definition deregister_worker :: "string \<Rightarrow> WorkerRegistry \<Rightarrow> WorkerRegistry \<times> FlaggedResponse" where
  "deregister_worker worker_id r = map_prod id flagged (deregister worker_id r)"

section \<open>The hosts of a resize\<close>

text \<open>\<open>str::split\<close> on a set of characters.\<close>

fun split_any :: "char set \<Rightarrow> string \<Rightarrow> string list" where
  "split_any cs [] = [[]]"
| "split_any cs (c # s) = (if c \<in> cs then [] # split_any cs s else (c # hd (split_any cs s)) # tl (split_any cs s))"

definition parse_scale_hosts :: "string option \<Rightarrow> string list" where
  "parse_scale_hosts raw =
     (let hosts = filter (\<lambda>s. s \<noteq> []) (map trim (split_any {CHR '','', CHR '';''} (unwrap_or raw [])))
      in if hosts = [] then [''local''] else hosts)"

text \<open>The cast of the number of hosts to \<open>u32\<close> truncates; the list the callers pass has a host.\<close>

definition split_target_across_hosts :: "u32 \<Rightarrow> string list \<Rightarrow> (string \<times> u32) list" where
  "split_target_across_hosts target hosts =
     (let n = of_nat (max (length hosts) 1) :: u32; base = target div n; remainder = target mod n
      in map (\<lambda>(i, h). (h, base + (if i < unat remainder then 1 else 0))) (enumerate 0 hosts))"

definition scale_dry_run_enabled :: "string option \<Rightarrow> bool" where
  "scale_dry_run_enabled raw = (case raw of
     None \<Rightarrow> False
   | Some v \<Rightarrow> to_ascii_lowercase (trim v) \<in> {''1'', ''true'', ''yes'', ''on''})"

text \<open>\<open>str::lines\<close>: a line ends in a newline, with or without a carriage return before it.\<close>

definition text_lines :: "string \<Rightarrow> string list" where
  "text_lines s = (let ls = split_any {CHR 0x0A} s
     in map (\<lambda>l. unwrap_or (strip_suffix [CHR 0x0D] l) l) (butlast ls) @ (if last ls = [] then [] else [last ls]))"

datatype DockerOutput = Exited bool string string string | NotInvoked string

record DockerCommand =
  dc_args :: "string list"
  dc_docker_host :: "string option"

definition compose_command :: "string \<Rightarrow> string \<Rightarrow> u32 \<Rightarrow> string option \<Rightarrow> DockerCommand" where
  "compose_command compose_file compose_project n docker_host =
     \<lparr>dc_args = [''compose'', ''-p'', compose_project, ''-f'', compose_file, ''up'', ''-d'', ''--no-deps'', ''--scale'',
        ''worker='' @ show_word n, ''worker''], dc_docker_host = docker_host\<rparr>"

text \<open>The arguments of \<open>Exited\<close> are success, the rendered exit code, stdout and stderr.\<close>

definition run_compose_scale :: "(DockerCommand \<Rightarrow> DockerOutput) \<Rightarrow> DockerCommand \<Rightarrow> (string, unit) result" where
  "run_compose_scale docker cmd =
     (let label = unwrap_or (dc_docker_host cmd) ''local'' in
      case docker cmd of
        Exited True _ _ _ \<Rightarrow> Inr ()
      | Exited False code stdout stderr \<Rightarrow>
          Inl (label @ '': docker compose scale failed (exit '' @ code @ ''): '' @
            join_with ''; '' (take 5 (text_lines (if trim stderr \<noteq> [] then stderr else stdout))))
      | NotInvoked e \<Rightarrow>
          Inl (label @ '': Failed to invoke docker CLI: '' @ e @ '' (ensure docker is installed and reachable from this host)''))"

section \<open>Resizing the pool\<close>

record ScaleWorkersRequest =
  sc_action :: string
  sc_target_count :: u32
  sc_worker_id :: string
  sc_case_id :: "string option"

record ScaleWorkersResponse =
  sr_success :: bool
  sr_error :: "string option"
  sr_actual_count :: u32
  sr_message :: string

record ScaleEnv =
  sn_var :: "string \<Rightarrow> string option"
  sn_exists :: "string \<Rightarrow> bool"
  sn_docker :: "DockerCommand \<Rightarrow> DockerOutput"

definition scale_deregister :: "string \<Rightarrow> WorkerRegistry \<Rightarrow> WorkerRegistry \<times> ScaleWorkersResponse" where
  "scale_deregister worker_id r =
     (if worker_id = [] then (r, \<lparr>sr_success = False, sr_error = Some (''worker_id is required for action='' @ CHR 0x27 # ''deregister'' @ [CHR 0x27]),
        sr_actual_count = 0, sr_message = []\<rparr>)
      else case deregister worker_id r of
        (r, Inr _) \<Rightarrow> (r, \<lparr>sr_success = True, sr_error = None, sr_actual_count = of_nat (length (wr_workers r)),
          sr_message = ''Worker '' @ CHR 0x27 # worker_id @ CHR 0x27 # '' deregistered''\<rparr>)
      | (r, Inl e) \<Rightarrow> (r, \<lparr>sr_success = False, sr_error = Some e, sr_actual_count = of_nat (length (wr_workers r)), sr_message = []\<rparr>))"

definition host_of :: "string \<Rightarrow> string option" where
  "host_of host = (if to_ascii_lowercase host = ''local'' then None else Some host)"

text \<open>The resize on all hosts, with the commands it ran, in order.\<close>

definition scale_pool :: "ScaleEnv \<Rightarrow> u32 \<Rightarrow> ScaleWorkersResponse \<times> DockerCommand list" where
  "scale_pool env target =
     (let compose_file = unwrap_or (sn_var env ''UC_COMPOSE_FILE'') ''/app/docker/docker-compose.yml'';
          compose_project = unwrap_or (sn_var env ''UC_COMPOSE_PROJECT'') ''docker'';
          dry_run = scale_dry_run_enabled (sn_var env ''UC_SCALE_DRY_RUN'') in
      if \<not> dry_run \<and> \<not> sn_exists env compose_file
      then (\<lparr>sr_success = False, sr_error = Some (''Compose file not found: '' @ CHR 0x27 # compose_file @ CHR 0x27 #
          '' (set UC_COMPOSE_FILE to the correct path)''), sr_actual_count = 0, sr_message = []\<rparr>, [])
      else
        let hosts = parse_scale_hosts (sn_var env ''UC_SCALE_HOSTS'');
            assignments = split_target_across_hosts target hosts in
        if dry_run
        then (\<lparr>sr_success = True, sr_error = None, sr_actual_count = target,
            sr_message = ''DRY-RUN: would scale '' @ show_word target @ '' worker instance(s) across '' @ show_nat (length hosts) @ '' host(s) ['' @
              join_with ''; '' (map (\<lambda>(h, s). h @ ''='' @ show_word s) assignments) @
              '']; no docker invoked (unset UC_SCALE_DRY_RUN to apply)''\<rparr>, [])
        else
          let commands = map (\<lambda>(h, share). compose_command compose_file compose_project share (host_of h)) assignments;
              results = map (\<lambda>((h, share), cmd). (h, share, run_compose_scale (sn_docker env) cmd)) (zip assignments commands);
              actual_count = sum_list (map (\<lambda>(h, share, res). share) (filter (\<lambda>(h, share, res). is_ok res) results));
              detail = join_with ''; '' (map (\<lambda>(h, s, res). case res of Inr _ \<Rightarrow> h @ ''='' @ show_word s | Inl e \<Rightarrow> h @ ''=FAILED('' @ e @ '')'') results);
              failures = List.map_filter (\<lambda>(h, s, res). case res of Inl e \<Rightarrow> Some e | Inr _ \<Rightarrow> None) results
          in if failures = []
             then (\<lparr>sr_success = True, sr_error = None, sr_actual_count = actual_count,
                 sr_message = ''Scaled worker instances across '' @ show_nat (length hosts) @ '' host(s) ['' @ detail @
                   '']; workers self-register asynchronously''\<rparr>, commands)
             else (\<lparr>sr_success = False, sr_error = Some (join_with ''; '' failures), sr_actual_count = actual_count,
                 sr_message = ''Partial scale ['' @ detail @ '']''\<rparr>, commands))"

definition scale_workers ::
  "(DenyReason \<Rightarrow> string) \<Rightarrow> ScaleEnv \<Rightarrow> ('s, 'v) PolicyEngine \<Rightarrow> (string \<Rightarrow> string option) \<Rightarrow> datetime \<Rightarrow> ScaleWorkersRequest \<Rightarrow>
     's PolicyState \<times> WorkerRegistry \<Rightarrow> ('s PolicyState \<times> WorkerRegistry) \<times> (Status, ScaleWorkersResponse) result \<times> DockerCommand list" where
  "scale_workers debug env engine metadata now req state = (case state of (st, r) \<Rightarrow>
     (case resolve_principal_from_metadata metadata of
        Inl status \<Rightarrow> ((st, r), Inl status, [])
      | Inr who \<Rightarrow>
          (case require_scale_workers debug engine who (declared (sc_case_id req)) now st of
             (st, Inl status) \<Rightarrow> ((st, r), Inl status, [])
           | (st, Inr _) \<Rightarrow>
               (if sc_action req = ''deregister''
                then (case scale_deregister (sc_worker_id req) r of (r, response) \<Rightarrow> ((st, r), Inr response, []))
                else if sc_action req = ''scale''
                then (case scale_pool env (sc_target_count req) of (response, commands) \<Rightarrow> ((st, r), Inr response, commands))
                else ((st, r), Inr \<lparr>sr_success = False, sr_error = Some (''Unknown action: '' @ CHR 0x27 # sc_action req @ CHR 0x27 #
                       '' (expected '' @ CHR 0x27 # ''scale'' @ CHR 0x27 # '' or '' @ CHR 0x27 # ''deregister'' @ CHR 0x27 # '')''),
                       sr_actual_count = 0, sr_message = []\<rparr>, [])))))"

section \<open>Who may act\<close>

lemma every_kind_may_submit: "may_hold k Permission.TaskSubmit"
  by (cases k) (simp_all add: may_hold_def)

text \<open>A caller is a user, a service, an agent or a worker with a name of its own, never an event or the anonymous principal.\<close>

lemma resolved_principal_declarable:
  assumes "resolve_principal_from_metadata metadata = Inr who"
  shows "p_kind who \<in> {PrincipalKind.User, PrincipalKind.Service, PrincipalKind.Agent, PrincipalKind.Worker} \<and> p_id who \<noteq> []"
proof -
  have "p_kind who \<in> {PrincipalKind.User, PrincipalKind.Service, PrincipalKind.Agent, PrincipalKind.Worker} \<and> p_id who \<noteq> []"
    if "resolve_principal k i = Inr who" for k i
    using that by (cases "p_kind who") (auto simp: resolve_principal_def Principal_new_def split: option.splits if_splits)
  with assms show ?thesis
    by (auto simp: resolve_principal_from_metadata_def resolve_declared_principal_def Principal_new_def split: option.splits)
qed

context record_store
begin

lemma human_tier_cases:
  assumes over: "engine_over store contents engine st" and "valid (pe_records st)"
    and "authorize_human_tier_tool engine who tool project_id case_id now st = (st', decision)"
  shows "if decision = PolicyDecision.Allow then
      tp_known (requirement (pe_tools engine) tool) \<and>
      authorize st who (required_permission (tp_action (requirement (pe_tools engine) tool))) project_id now = PolicyDecision.Allow \<and>
      (if tp_human_approval (requirement (pe_tools engine) tool)
       then human_tier_met engine who project_id tool case_id now st (contents (pe_records st)) (contents (pe_records st'))
       else st' = st)
    else st' = st"
proof -
  obtain st1 gate where g: "tool_gate engine who tool project_id case_id now st = (st1, gate)" by fastforce
  note gc = tool_gate_cases[OF over assms(2) g]
  show ?thesis
  proof (cases gate)
    case (Inl d)
    with gc g assms(3) show ?thesis by (auto simp: authorize_human_tier_tool_def)
  next
    case (Inr permit)
    with gc g assms(3) have "settle_tool_decision engine permit tool now st = (st', decision)"
      by (simp add: authorize_human_tier_tool_def)
    moreover have "\<exists>approvals a v. pe_approvals engine = Some approvals \<and> approval_covers a tool case_id \<and> ta_id a = i \<and>
        document approvals (contents (pe_records st)) i = Some (a, v)" if "permit = Some i" for i
      using gc that Inr by simp
    ultimately show ?thesis using settle_cases[OF over assms(2), of permit tool now st' decision case_id] gc Inr
      by (cases permit) (auto simp: human_tier_met_def)
  qed
qed

end

lemma scale_requirement:
  "tp_known (requirement builtin ''scale_workers'') \<and> tp_human_approval (requirement builtin ''scale_workers'') \<and>
   required_permission (tp_action (requirement builtin ''scale_workers'')) = Permission.WorkerScale"
  by code_simp

text \<open>
  C18. With the built-in tool table, a call of \<open>scale_workers\<close> is answered, and so the pool resized, a worker removed or a
  docker command run, only for a user or a service that holds a live \<open>WorkerScale\<close> grant and either is an operator, with no
  record changed, or spends exactly one permit approved for the case it names, every other record being kept. A call that
  is refused with a status changes neither the policy state and its records nor the registry, and runs no command.
\<close>

theorem scale_effect_authorized:
  assumes "record_store store contents ready valid" "engine_over store contents engine st" "valid (pe_records st)" "pe_tools engine = builtin"
    "scale_workers debug env engine metadata now req (st, r) = ((st', r'), answer, commands)"
  shows "case answer of
      Inl status \<Rightarrow> st' = st \<and> r' = r \<and> commands = []
    | Inr response \<Rightarrow> (\<exists>who. resolve_principal_from_metadata metadata = Inr who \<and>
        p_kind who \<in> {PrincipalKind.User, PrincipalKind.Service} \<and>
        authorize st who Permission.WorkerScale None now = PolicyDecision.Allow \<and>
        human_tier_met engine who None ''scale_workers'' (declared (sc_case_id req)) now st (contents (pe_records st)) (contents (pe_records st')))"
proof (cases "resolve_principal_from_metadata metadata")
  case (Inl e)
  with assms(5) show ?thesis by (auto simp: scale_workers_def)
next
  case (Inr who)
  obtain st1 decision where h: "authorize_human_tier_tool engine who ''scale_workers'' None (declared (sc_case_id req)) now st = (st1, decision)"
    by fastforce
  note hc = record_store.human_tier_cases[OF assms(1), OF assms(2,3) h, unfolded assms(4)]
  show ?thesis
  proof (cases "decision = PolicyDecision.Allow")
    case True
    with hc scale_requirement have granted: "authorize st who Permission.WorkerScale None now = PolicyDecision.Allow"
      "human_tier_met engine who None ''scale_workers'' (declared (sc_case_id req)) now st (contents (pe_records st)) (contents (pe_records st1))"
      by simp_all
    from granted(1) have "p_kind who \<in> {PrincipalKind.User, PrincipalKind.Service}"
      using evaluate_authority_ceiling[of _ who Permission.WorkerScale] by (auto simp: authorize_def)
    moreover have "st' = st1" "\<exists>response. answer = Inr response"
      using assms(5) Inr h True by (auto simp: scale_workers_def require_scale_workers_def require_decision_def split: prod.splits if_splits)
    ultimately show ?thesis using granted Inr by auto
  next
    case False
    with hc have "st1 = st" by simp
    moreover obtain status where "answer = Inl status" "st' = st1" "r' = r" "commands = []"
      using assms(5) Inr h False by (auto simp: scale_workers_def require_scale_workers_def require_decision_def)
    ultimately show ?thesis by simp
  qed
qed

section \<open>The shares\<close>

lemma sum_shares: "sum_list (map (\<lambda>i. q + (if i < rem then 1 else 0)) [0..<n]) = n * q + min rem n" for q rem n :: nat
  by (induction n) auto

text \<open>
  C19. The shares of a resize follow the list of hosts and add up to the target, none wraps, and two hosts differ by at
  most one worker.
\<close>

theorem split_target_exact:
  assumes "hosts \<noteq> []" "length hosts < 2 ^ 32"
  shows "map fst (split_target_across_hosts target hosts) = hosts \<and>
    sum_list (map (unat \<circ> snd) (split_target_across_hosts target hosts)) = unat target \<and>
    (\<forall>share \<in> snd ` set (split_target_across_hosts target hosts).
       unat share = unat target div length hosts \<or> unat share = unat target div length hosts + 1)"
proof -
  let ?n = "of_nat (length hosts) :: u32" and ?l = "length hosts"
  let ?share = "\<lambda>i. target div ?n + (if i < unat (target mod ?n) then 1 else 0)"
  have n: "unat ?n = ?l" using assms(2) by (simp add: unat_of_nat)
  have eq: "split_target_across_hosts target hosts = map (\<lambda>(i, h). (h, ?share i)) (enumerate 0 hosts)"
    using assms(1) by (cases hosts) (simp_all add: split_target_across_hosts_def Let_def max_def)
  have share: "unat (?share i) = unat target div ?l + (if i < unat target mod ?l then 1 else 0)" for i
  proof (cases "i < unat (target mod ?n)")
    case True
    then have "unat target mod ?l \<noteq> 0" by (simp add: unat_mod n)
    then have "?l \<noteq> 1" by auto
    then have "1 < ?l" using assms(1) by (metis length_0_conv less_one linorder_neqE_nat)
    have "unat target \<noteq> 0" using \<open>unat target mod ?l \<noteq> 0\<close> by (metis mod_0)
    with \<open>1 < ?l\<close> have "unat target div ?l < unat target" by simp
    moreover have "unat target < 2 ^ 32" using unsigned_less[of target, where ?'a = nat] by simp
    ultimately have "unat target div ?l + 1 < 2 ^ 32" by linarith
    then have "unat (target div ?n + 1) = unat target div ?l + 1" by (simp add: unat_word_ariths unat_div n)
    with True show ?thesis by (simp add: unat_mod n)
  qed (simp add: unat_mod unat_div n)
  have fst_eq: "map fst (split_target_across_hosts target hosts) = hosts" by (simp add: eq case_prod_beta comp_def enumerate_eq_zip)
  have "map (unat \<circ> snd) (split_target_across_hosts target hosts) =
      map (\<lambda>i. unat target div ?l + (if i < unat target mod ?l then 1 else 0)) (map fst (enumerate 0 hosts))"
    unfolding eq list.map_comp by (rule list.map_cong[OF refl]) (auto simp: share)
  then have "sum_list (map (unat \<circ> snd) (split_target_across_hosts target hosts)) = ?l * (unat target div ?l) + unat target mod ?l"
    using assms(1) by (simp add: enumerate_eq_zip sum_shares min_absorb1 less_imp_le)
  moreover have "\<forall>x \<in> snd ` set (split_target_across_hosts target hosts). unat x = unat target div ?l \<or> unat x = unat target div ?l + 1"
    unfolding eq by (auto simp: share)
  ultimately show ?thesis using fst_eq by simp
qed

theorem split_target_exact_witness:
  "map (unat \<circ> snd) (split_target_across_hosts 7 [''a'', ''b'', ''c'']) = [3, 2, 2] \<and>
   sum_list (map (unat \<circ> snd) (split_target_across_hosts 7 [''a'', ''b'', ''c''])) = unat (7 :: u32)"
  using split_target_exact[of "[''a'', ''b'', ''c'']" 7] by (simp add: split_target_across_hosts_def Let_def)

definition ops_metadata :: "string \<Rightarrow> string option" where
  "ops_metadata key = (if key = ''x-uc-principal-kind'' then Some ''service'' else if key = ''x-uc-principal-id'' then Some ''ops'' else None)"

definition scale_up :: ScaleWorkersRequest where
  "scale_up = \<lparr>sc_action = ''scale'', sc_target_count = 3, sc_worker_id = [], sc_case_id = Some ''case-1''\<rparr>"

definition quiet_env :: ScaleEnv where
  "quiet_env = \<lparr>sn_var = (\<lambda>name. None), sn_exists = (\<lambda>path. True), sn_docker = (\<lambda>cmd. Exited True [] [] [])\<rparr>"

theorem scale_effect_authorized_witness:
  "\<exists>st' answer. scale_workers (\<lambda>reason. []) quiet_env plain_engine ops_metadata 6 scale_up (engine_state, WorkerRegistry_new) =
      ((st', WorkerRegistry_new), answer, [compose_command ''/app/docker/docker-compose.yml'' ''docker'' 3 None]) \<and>
    permit_spent (the (pe_approvals plain_engine)) ''scale_workers'' (Some ''case-1'') 6
      (mem_contents (pe_records engine_state)) (mem_contents (pe_records st'))"
proof -
  let ?run = "scale_workers (\<lambda>reason. []) quiet_env plain_engine ops_metadata 6 scale_up (engine_state, WorkerRegistry_new)"
  let ?cmds = "[compose_command ''/app/docker/docker-compose.yml'' ''docker'' 3 None]"
  have cmds: "snd (snd ?run) = ?cmds" by code_simp
  have reg: "snd (fst ?run) = WorkerRegistry_new" by code_simp
  have run: "?run = ((fst (fst ?run), WorkerRegistry_new), fst (snd ?run), ?cmds)"
    using cmds reg by (metis prod.collapse)
  have "is_ok (fst (snd ?run))" by code_simp
  then have answered: "\<exists>response. fst (snd ?run) = Inr response" by (simp add: is_ok_iff)
  have who: "resolve_principal_from_metadata ops_metadata = Inr (Principal_new PrincipalKind.Service ''ops'')"
    "declared (sc_case_id scale_up) = Some ''case-1''"
    "authorize engine_state (Principal_new PrincipalKind.Service ''ops'') Permission.ProactiveExecute None 6 \<noteq> PolicyDecision.Allow"
    "pe_tools plain_engine = builtin" by code_simp+
  from scale_effect_authorized[OF mem.record_store_axioms, OF engine_state_ok(1,2) who(4) run] who(1-3) answered
  have "permit_spent (the (pe_approvals plain_engine)) ''scale_workers'' (Some ''case-1'') 6
      (mem_contents (pe_records engine_state)) (mem_contents (pe_records (fst (fst ?run))))"
    by (auto simp: human_tier_met_def)
  with run show ?thesis by blast
qed

end
