(* ===== verification/Merge_Lines.thy ===== *)
theory Merge_Lines
  imports Agent_Events "HOL-Library.Multiset"
begin

text \<open>
  The three-way merge of \<open>crates/uc-engine/src/conflict/merger.rs\<close>: the longest common subsequence of two lists of lines,
  the changes it leaves, the conflicts of two lists of changes and the merged text. Line numbers of a change are \<open>u32\<close>, as
  in the code; indices into the lists of lines are natural numbers.
\<close>

section \<open>The longest common subsequence\<close>

definition dp_cell :: "'l list \<Rightarrow> 'l list \<Rightarrow> nat list list \<Rightarrow> nat \<Rightarrow> nat \<Rightarrow> nat" where
  "dp_cell base modified dp i j =
     (if base ! (i - 1) = modified ! (j - 1) then dp ! (i - 1) ! (j - 1) + 1 else max (dp ! (i - 1) ! j) (dp ! i ! (j - 1)))"

definition dp_step :: "'l list \<Rightarrow> 'l list \<Rightarrow> nat \<Rightarrow> nat \<Rightarrow> nat list list \<Rightarrow> nat list list" where
  "dp_step base modified i j dp = dp[i := (dp ! i)[j := dp_cell base modified dp i j]]"

definition dp_row :: "'l list \<Rightarrow> 'l list \<Rightarrow> nat \<Rightarrow> nat list list \<Rightarrow> nat list list" where
  "dp_row base modified i dp = fold (dp_step base modified i) [1..<Suc (length modified)] dp"

definition dp_table :: "'l list \<Rightarrow> 'l list \<Rightarrow> nat list list" where
  "dp_table base modified =
     fold (dp_row base modified) [1..<Suc (length base)] (replicate (Suc (length base)) (replicate (Suc (length modified)) 0))"

fun backtrack :: "'l list \<Rightarrow> 'l list \<Rightarrow> nat list list \<Rightarrow> nat \<Rightarrow> nat \<Rightarrow> (nat \<times> nat) list \<Rightarrow> (nat \<times> nat) list" where
  "backtrack base modified dp 0 j result = result"
| "backtrack base modified dp (Suc i) 0 result = result"
| "backtrack base modified dp (Suc i) (Suc j) result =
     (if base ! i = modified ! j then backtrack base modified dp i j (result @ [(i, j)])
      else if dp ! Suc i ! j < dp ! i ! Suc j then backtrack base modified dp i (Suc j) result
      else backtrack base modified dp (Suc i) j result)"

text \<open>The first position of a line in the modified text, from an index on.\<close>

definition find_from :: "'l \<Rightarrow> 'l list \<Rightarrow> nat \<Rightarrow> nat option" where
  "find_from line modified mod_idx = find (\<lambda>j. line = modified ! j) [mod_idx..<length modified]"

fun simple_lcs_loop :: "'l list \<Rightarrow> 'l list \<Rightarrow> nat \<Rightarrow> nat \<Rightarrow> (nat \<times> nat) list" where
  "simple_lcs_loop [] modified base_i mod_idx = []"
| "simple_lcs_loop (line # base) modified base_i mod_idx = (case find_from line modified mod_idx of
     Some j \<Rightarrow> (base_i, j) # simple_lcs_loop base modified (Suc base_i) (Suc j)
   | None \<Rightarrow> simple_lcs_loop base modified (Suc base_i) mod_idx)"

definition simple_lcs :: "'l list \<Rightarrow> 'l list \<Rightarrow> (nat \<times> nat) list" where
  "simple_lcs base modified = simple_lcs_loop base modified 0 0"

definition longest_common_subsequence :: "'l list \<Rightarrow> 'l list \<Rightarrow> (nat \<times> nat) list" where
  "longest_common_subsequence base modified =
     (if base = [] \<or> modified = [] then []
      else if 5000 < length base \<or> 5000 < length modified then simple_lcs base modified
      else rev (backtrack base modified (dp_table base modified) (length base) (length modified) []))"

section \<open>Changes\<close>

record 'l LineChange =
  lc_start :: u32
  lc_end :: u32
  lc_new_lines :: "'l list"

definition slice :: "nat \<Rightarrow> nat \<Rightarrow> 'l list \<Rightarrow> 'l list" where
  "slice a b xs = take (b - a) (drop a xs)"

definition line_change :: "nat \<Rightarrow> nat \<Rightarrow> 'l list \<Rightarrow> 'l LineChange" where
  "line_change start finish new_lines = \<lparr>lc_start = of_nat start, lc_end = of_nat finish, lc_new_lines = new_lines\<rparr>"

fun changes_loop :: "'l list \<Rightarrow> 'l list \<Rightarrow> (nat \<times> nat) list \<Rightarrow> nat \<Rightarrow> nat \<Rightarrow> 'l LineChange list" where
  "changes_loop base modified ((match_base, match_mod) # lcs) base_idx mod_idx =
     (if base_idx < match_base \<or> mod_idx < match_mod
      then [line_change base_idx match_base (slice mod_idx match_mod modified)] else []) @
     changes_loop base modified lcs (Suc match_base) (Suc match_mod)"
| "changes_loop base modified [] base_idx mod_idx =
     (if base_idx < length base \<or> mod_idx < length modified
      then [line_change base_idx (length base) (drop mod_idx modified)] else [])"

definition compute_line_changes :: "'l list \<Rightarrow> 'l list \<Rightarrow> 'l LineChange list" where
  "compute_line_changes base modified = changes_loop base modified (longest_common_subsequence base modified) 0 0"

section \<open>Conflicts\<close>

datatype ResolutionTier = AutoMerge | LlmAssisted | Reassign | Human

fun escalate :: "ResolutionTier \<Rightarrow> ResolutionTier" where
  "escalate AutoMerge = LlmAssisted"
| "escalate LlmAssisted = Reassign"
| "escalate Reassign = Human"
| "escalate Human = Human"

record ConflictMarker =
  cm_start_line :: u32
  cm_end_line :: u32
  cm_ours :: string
  cm_theirs :: string
  cm_base :: string

record MergeResult =
  mr_merged :: "string option"
  mr_conflicts :: "ConflictMarker list"
  mr_success :: bool
  mr_tier :: ResolutionTier

definition changes_overlap :: "'l LineChange \<Rightarrow> 'l LineChange \<Rightarrow> bool" where
  "changes_overlap a b \<longleftrightarrow> lc_start a < lc_end b \<and> lc_start b < lc_end a"

definition newline :: string where "newline = [CHR 0x0A]"

definition marker_of :: "string list \<Rightarrow> string LineChange \<Rightarrow> string LineChange \<Rightarrow> ConflictMarker" where
  "marker_of base_lines our_change their_change =
     (let start = min (lc_start our_change) (lc_start their_change); finish = max (lc_end our_change) (lc_end their_change) in
      \<lparr>cm_start_line = start + 1, cm_end_line = finish + 1, cm_ours = join_with newline (lc_new_lines our_change),
       cm_theirs = join_with newline (lc_new_lines their_change), cm_base = join_with newline (slice (unat start) (unat finish) base_lines)\<rparr>)"

definition find_conflicts :: "string LineChange list \<Rightarrow> string LineChange list \<Rightarrow> string list \<Rightarrow> ConflictMarker list" where
  "find_conflicts ours theirs base_lines =
     concat (map (\<lambda>our_change. map (marker_of base_lines our_change) (filter (changes_overlap our_change) theirs)) ours)"

section \<open>Applying changes\<close>

definition all_changes :: "'l LineChange list \<Rightarrow> 'l LineChange list \<Rightarrow> 'l LineChange list" where
  "all_changes ours theirs = sort_key lc_start (ours @ theirs)"

definition kept_before :: "'l list \<Rightarrow> nat \<Rightarrow> 'l LineChange \<Rightarrow> 'l list" where
  "kept_before base_lines base_idx change = slice base_idx (min (unat (lc_start change)) (length base_lines)) base_lines"

definition after_change :: "'l list \<Rightarrow> nat \<Rightarrow> 'l LineChange \<Rightarrow> nat" where
  "after_change base_lines base_idx change =
     (let i = max base_idx (min (unat (lc_start change)) (length base_lines))
      in if i < unat (lc_end change) then unat (lc_end change) else i)"

fun apply_loop :: "'l list \<Rightarrow> 'l LineChange list \<Rightarrow> nat \<Rightarrow> 'l list" where
  "apply_loop base_lines [] base_idx = drop base_idx base_lines"
| "apply_loop base_lines (change # changes) base_idx =
     kept_before base_lines base_idx change @ lc_new_lines change @
     apply_loop base_lines changes (after_change base_lines base_idx change)"

definition apply_merge :: "string list \<Rightarrow> string LineChange list \<Rightarrow> string LineChange list \<Rightarrow> string" where
  "apply_merge base_lines ours theirs = join_with newline (apply_loop base_lines (all_changes ours theirs) 0)"

definition in_marker :: "'l LineChange \<Rightarrow> ConflictMarker \<Rightarrow> bool" where
  "in_marker change c \<longleftrightarrow> cm_start_line c \<le> lc_start change + 1 \<and> lc_start change < cm_end_line c"

definition marker_lines :: "ConflictMarker \<Rightarrow> string list" where
  "marker_lines c = [''<<<<<<< ours'', cm_ours c, ''======='', cm_theirs c, ''>>>>>>> theirs'']"

fun conflicted_loop :: "string list \<Rightarrow> ConflictMarker list \<Rightarrow> string LineChange list \<Rightarrow> nat \<Rightarrow> string list \<Rightarrow> string list" where
  "conflicted_loop base_lines conflicts [] base_idx result = result @ drop base_idx base_lines"
| "conflicted_loop base_lines conflicts (change # changes) base_idx result =
     (let result = result @ kept_before base_lines base_idx change;
          result = (case find (in_marker change) conflicts of
            Some c \<Rightarrow> if lc_start change + 1 = cm_start_line c \<or> result = [] then result @ marker_lines c else result
          | None \<Rightarrow> result @ lc_new_lines change)
      in conflicted_loop base_lines conflicts changes (after_change base_lines base_idx change) result)"

definition apply_merge_with_conflicts ::
  "string list \<Rightarrow> string LineChange list \<Rightarrow> string LineChange list \<Rightarrow> ConflictMarker list \<Rightarrow> string" where
  "apply_merge_with_conflicts base_lines ours theirs conflicts =
     join_with newline (conflicted_loop base_lines conflicts (all_changes ours theirs) 0 [])"

text \<open>\<open>str::lines\<close>: a line ends in a newline, with or without a carriage return before it.\<close>

fun split_newlines :: "string \<Rightarrow> string list" where
  "split_newlines [] = [[]]"
| "split_newlines (c # s) =
     (if c = CHR 0x0A then [] # split_newlines s else (c # hd (split_newlines s)) # tl (split_newlines s))"

definition lines_of :: "string \<Rightarrow> string list" where
  "lines_of s = (let ls = split_newlines s
     in map (\<lambda>l. unwrap_or (strip_suffix [CHR 0x0D] l) l) (butlast ls) @ (if last ls = [] then [] else [last ls]))"

definition three_way_merge :: "string \<Rightarrow> string \<Rightarrow> string \<Rightarrow> MergeResult" where
  "three_way_merge base ours theirs =
     (let base_lines = lines_of base;
          ours_changes = compute_line_changes base_lines (lines_of ours);
          theirs_changes = compute_line_changes base_lines (lines_of theirs);
          conflicts = find_conflicts ours_changes theirs_changes base_lines
      in if conflicts = []
         then \<lparr>mr_merged = Some (apply_merge base_lines ours_changes theirs_changes), mr_conflicts = [], mr_success = True, mr_tier = AutoMerge\<rparr>
         else \<lparr>mr_merged = Some (apply_merge_with_conflicts base_lines ours_changes theirs_changes conflicts), mr_conflicts = conflicts,
               mr_success = False, mr_tier = AutoMerge\<rparr>)"

section \<open>Common subsequences\<close>

text \<open>Pairs of positions of equal lines, rising in both texts from the given indices on.\<close>

fun chain :: "'l list \<Rightarrow> 'l list \<Rightarrow> nat \<Rightarrow> nat \<Rightarrow> (nat \<times> nat) list \<Rightarrow> bool" where
  "chain base modified a b [] = True"
| "chain base modified a b ((i, j) # ps) =
     (a \<le> i \<and> b \<le> j \<and> i < length base \<and> j < length modified \<and> base ! i = modified ! j \<and> chain base modified (Suc i) (Suc j) ps)"

text \<open>The length of a longest common subsequence of two prefixes, by the recursion the table follows.\<close>

fun lcs_len :: "'l list \<Rightarrow> 'l list \<Rightarrow> nat \<Rightarrow> nat \<Rightarrow> nat" where
  "lcs_len base modified 0 j = 0"
| "lcs_len base modified (Suc i) 0 = 0"
| "lcs_len base modified (Suc i) (Suc j) =
     (if base ! i = modified ! j then lcs_len base modified i j + 1
      else max (lcs_len base modified i (Suc j)) (lcs_len base modified (Suc i) j))"

lemma lcs_len_0 [simp]: "lcs_len base modified i 0 = 0"
  by (cases i) simp_all

definition shaped :: "nat \<Rightarrow> nat \<Rightarrow> nat list list \<Rightarrow> bool" where
  "shaped m n dp \<longleftrightarrow> length dp = Suc m \<and> (\<forall>a \<le> m. length (dp ! a) = Suc n)"

text \<open>The cells before \<open>(i, j)\<close>, row by row, have their value and the others are zero.\<close>

definition filled :: "'l list \<Rightarrow> 'l list \<Rightarrow> nat \<Rightarrow> nat \<Rightarrow> nat list list \<Rightarrow> bool" where
  "filled base modified i j dp \<longleftrightarrow> shaped (length base) (length modified) dp \<and>
     (\<forall>a \<le> length base. \<forall>b \<le> length modified. dp ! a ! b = (if a < i \<or> a = i \<and> b < j then lcs_len base modified a b else 0))"

lemma dp_step_nth:
  assumes "shaped m n dp" "i \<le> m" "j \<le> n" "a \<le> m" "b \<le> n"
  shows "dp_step base modified i j dp ! a ! b = (if a = i \<and> b = j then dp_cell base modified dp i j else dp ! a ! b)"
    "length (dp_step base modified i j dp ! a) = Suc n"
  using assms by (cases "a = i"; simp add: dp_step_def shaped_def nth_list_update)+

lemma dp_step_filled:
  assumes "filled base modified (Suc i) (Suc j) dp" "i < length base" "j < length modified"
  shows "filled base modified (Suc i) (Suc (Suc j)) (dp_step base modified (Suc i) (Suc j) dp)"
proof -
  let ?dp = "dp_step base modified (Suc i) (Suc j) dp"
  have sh: "shaped (length base) (length modified) dp" and
    f: "\<And>a b. a \<le> length base \<Longrightarrow> b \<le> length modified \<Longrightarrow> dp ! a ! b = (if a < Suc i \<or> a = Suc i \<and> b < Suc j then lcs_len base modified a b else 0)"
    using assms(1) by (simp_all add: filled_def)
  have cell: "dp_cell base modified dp (Suc i) (Suc j) = lcs_len base modified (Suc i) (Suc j)"
    using f[of i j] f[of i "Suc j"] f[of "Suc i" j] assms(2,3) by (simp add: dp_cell_def)
  have "?dp ! a ! b = (if a < Suc i \<or> a = Suc i \<and> b < Suc (Suc j) then lcs_len base modified a b else 0)"
    if "a \<le> length base" "b \<le> length modified" for a b
    using dp_step_nth(1)[OF sh _ _ that, of "Suc i" "Suc j" base modified] f[OF that] assms(2,3)
    unfolding cell by (cases "a = Suc i \<and> b = Suc j") (auto simp del: lcs_len.simps)
  moreover have "shaped (length base) (length modified) ?dp"
    using dp_step_nth(2)[OF sh _ _ _ le0, of "Suc i" "Suc j" _ base modified] sh assms(2,3) by (auto simp: shaped_def dp_step_def)
  ultimately show ?thesis by (simp add: filled_def del: lcs_len.simps)
qed

lemma dp_row_filled:
  assumes "filled base modified (Suc i) 1 dp" "i < length base"
  shows "filled base modified (Suc (Suc i)) 1 (dp_row base modified (Suc i) dp)"
proof -
  have "filled base modified (Suc i) (Suc k) (fold (dp_step base modified (Suc i)) [1..<Suc k] dp)" if "k \<le> length modified" for k
    using that
  proof (induction k)
    case (Suc k)
    then show ?case using dp_step_filled[of base modified i k] assms(2) by simp
  qed (use assms in simp)
  then have "filled base modified (Suc i) (Suc (length modified)) (dp_row base modified (Suc i) dp)" by (simp add: dp_row_def)
  then show ?thesis by (auto simp: filled_def less_Suc_eq_le le_less)
qed

lemma dp_table_lcs:
  assumes "a \<le> length base" "b \<le> length modified"
  shows "dp_table base modified ! a ! b = lcs_len base modified a b"
proof -
  let ?zero = "replicate (Suc (length base)) (replicate (Suc (length modified)) 0)"
  have "filled base modified 1 1 ?zero" by (auto simp: filled_def shaped_def less_Suc_eq_le nth_replicate simp del: replicate_Suc)
  then have "filled base modified (Suc k) 1 (fold (dp_row base modified) [1..<Suc k] ?zero)" if "k \<le> length base" for k
    using that
  proof (induction k)
    case (Suc k)
    then show ?case using dp_row_filled[of base modified k] by simp
  qed simp
  then have "filled base modified (Suc (length base)) 1 (dp_table base modified)" by (simp add: dp_table_def)
  then show ?thesis using assms by (simp add: filled_def)
qed

lemma chain_snoc:
  "chain base modified a b (ps @ [(i, j)]) \<longleftrightarrow>
     chain (take i base) (take j modified) a b ps \<and> a \<le> i \<and> b \<le> j \<and> i < length base \<and> j < length modified \<and> base ! i = modified ! j"
  by (induction ps arbitrary: a b) auto

lemma chain_take:
  "chain (take i base) (take j modified) a b ps \<Longrightarrow> chain base modified a b ps"
  by (induction ps arbitrary: a b) auto

text \<open>No common subsequence of two prefixes is longer than the value of the recursion.\<close>

lemma chain_bounded:
  assumes "chain (take i base) (take j modified) 0 0 ps" "i \<le> length base" "j \<le> length modified"
  shows "length ps \<le> lcs_len base modified i j"
  using assms
proof (induction base modified i j arbitrary: ps rule: lcs_len.induct)
  case (3 base modified i j)
  show ?case
  proof (cases ps rule: rev_exhaust)
    case (snoc qs p)
    obtain k l where p: "p = (k, l)" by fastforce
    from 3(4) snoc p have c: "chain (take k base) (take l modified) 0 0 qs" "k < Suc i" "l < Suc j" "base ! k = modified ! l"
      by (auto simp: chain_snoc min_def split: if_splits)
    have shrink: "chain (take i' base) (take j' modified) 0 0 qs" if "k \<le> i'" "l \<le> j'" for i' j'
      using c(1) that chain_take[of k "take i' base" l "take j' modified"] by (simp add: min_def)
    show ?thesis
    proof (cases "base ! i = modified ! j")
      case True
      then show ?thesis using 3(1)[OF True, of qs] shrink[of i j] c 3(5,6) snoc by simp
    next
      case False
      with c(4) have "k < i \<or> l < j" using c(2,3) by (metis less_SucE)
      then show ?thesis
      proof
        assume "k < i"
        then have "chain (take i base) (take (Suc j) modified) 0 0 ps"
          unfolding snoc p chain_snoc using c 3(5,6) by (simp add: min_def)
        from 3(2)[OF False this] 3(5,6) False show ?thesis by simp
      next
        assume "l < j"
        then have "chain (take (Suc i) base) (take j modified) 0 0 ps"
          unfolding snoc p chain_snoc using c 3(5,6) by (simp add: min_def)
        from 3(3)[OF False this] 3(5,6) False show ?thesis by simp
      qed
    qed
  qed simp
qed (auto elim: chain.elims)

lemma backtrack_chain:
  assumes "\<forall>a \<le> length base. \<forall>b \<le> length modified. dp ! a ! b = lcs_len base modified a b" "i \<le> length base" "j \<le> length modified"
  shows "\<exists>ps. rev (backtrack base modified dp i j result) = ps @ rev result \<and>
    chain (take i base) (take j modified) 0 0 ps \<and> length ps = lcs_len base modified i j"
  using assms
proof (induction base modified dp i j result rule: backtrack.induct)
  case (3 base modified dp i j result)
  have cells: "dp ! Suc i ! j = lcs_len base modified (Suc i) j" "dp ! i ! Suc j = lcs_len base modified i (Suc j)"
    using 3(4-6) by simp_all
  have widen: "chain (take (Suc i) base) (take (Suc j) modified) 0 0 ps"
    if "chain (take a base) (take b modified) 0 0 ps" "a \<le> Suc i" "b \<le> Suc j" for a b ps
    using chain_take[of a "take (Suc i) base" b "take (Suc j) modified"] that by (simp add: min_def)
  consider (same) "base ! i = modified ! j" | (up) "base ! i \<noteq> modified ! j" "dp ! Suc i ! j < dp ! i ! Suc j"
    | (left) "base ! i \<noteq> modified ! j" "\<not> dp ! Suc i ! j < dp ! i ! Suc j" by blast
  then show ?case
  proof cases
    case same
    from 3(1)[OF same 3(4)] 3(5,6) obtain ps where "rev (backtrack base modified dp i j (result @ [(i, j)])) = ps @ rev (result @ [(i, j)])"
      "chain (take i base) (take j modified) 0 0 ps" "length ps = lcs_len base modified i j" by auto
    with same 3(5,6) show ?thesis by (intro exI[of _ "ps @ [(i, j)]"]) (simp add: chain_snoc min_def)
  next
    case up
    from 3(2)[OF up 3(4)] 3(5,6) obtain ps where "rev (backtrack base modified dp i (Suc j) result) = ps @ rev result"
      "chain (take i base) (take (Suc j) modified) 0 0 ps" "length ps = lcs_len base modified i (Suc j)" by auto
    with up cells widen[of i "Suc j" ps] show ?thesis by (intro exI[of _ ps]) simp
  next
    case left
    from 3(3)[OF left 3(4)] 3(5,6) obtain ps where "rev (backtrack base modified dp (Suc i) j result) = ps @ rev result"
      "chain (take (Suc i) base) (take j modified) 0 0 ps" "length ps = lcs_len base modified (Suc i) j" by auto
    with left cells widen[of "Suc i" j ps] show ?thesis by (intro exI[of _ ps]) simp
  qed
qed simp_all

lemma find_from_Some:
  assumes "find_from line modified b = Some j"
  shows "b \<le> j \<and> j < length modified \<and> modified ! j = line"
  using assms by (auto simp: find_from_def find_Some_iff)

lemma chain_earlier: "chain base modified a b ps \<Longrightarrow> a' \<le> a \<Longrightarrow> b' \<le> b \<Longrightarrow> chain base modified a' b' ps"
  by (cases ps) auto

lemma simple_lcs_loop_chain: "chain (pre @ xs) modified (length pre) b (simple_lcs_loop xs modified (length pre) b)"
proof (induction xs arbitrary: pre b)
  case (Cons line xs)
  have rest: "chain (pre @ line # xs) modified (Suc (length pre)) c (simple_lcs_loop xs modified (Suc (length pre)) c)" for c
    using Cons.IH[of "pre @ [line]" c] by simp
  show ?case
    using rest chain_earlier[OF rest, of "length pre"] find_from_Some[of line modified b]
    by (auto split: option.split)
qed simp

lemma lcs_chain: "chain base modified 0 0 (longest_common_subsequence base modified)"
proof -
  have "chain base modified 0 0 (rev (backtrack base modified (dp_table base modified) (length base) (length modified) []))"
    using backtrack_chain[of base modified "dp_table base modified" "length base" "length modified" "[]"] by (auto simp: dp_table_lcs)
  moreover have "chain base modified 0 0 (simple_lcs base modified)"
    using simple_lcs_loop_chain[of "[]" base modified 0] by (simp add: simple_lcs_def)
  ultimately show ?thesis by (simp add: longest_common_subsequence_def)
qed

text \<open>
  C38. For texts of at most five thousand lines the table and the walk back through it find a longest common subsequence:
  what they return is one, and none is longer.
\<close>

theorem lcs_optimal:
  assumes "length base \<le> 5000" "length modified \<le> 5000"
  shows "chain base modified 0 0 (longest_common_subsequence base modified) \<and>
    (\<forall>ps. chain base modified 0 0 ps \<longrightarrow> length ps \<le> length (longest_common_subsequence base modified))"
proof -
  have "length (longest_common_subsequence base modified) = lcs_len base modified (length base) (length modified)"
    using backtrack_chain[of base modified "dp_table base modified" "length base" "length modified" "[]"] assms
    by (auto simp: longest_common_subsequence_def dp_table_lcs)
  then show ?thesis using lcs_chain[of base modified] chain_bounded[of "length base" base "length modified" modified] by simp
qed

theorem lcs_optimal_witness:
  "length (longest_common_subsequence [1, 2, 3, 4 :: nat] [2, 4, 3]) \<ge> 2"
  using lcs_optimal[of "[1, 2, 3, 4 :: nat]" "[2, 4, 3]", THEN conjunct2, THEN spec, of "[(1, 0), (3, 1)]"] by simp

section \<open>Changes reproduce the text\<close>

lemma slice_append: "a \<le> b \<Longrightarrow> b \<le> c \<Longrightarrow> slice a b xs @ slice b c xs = slice a c xs"
proof -
  assume "a \<le> b" "b \<le> c"
  then have "slice b c xs = take (c - b) (drop (b - a) (drop a xs))" "c - a = (b - a) + (c - b)" by (simp_all add: slice_def)
  then show ?thesis by (simp add: slice_def take_add)
qed

lemma slice_drop: "a \<le> b \<Longrightarrow> slice a b xs @ drop b xs = drop a xs"
  using append_take_drop_id[of "b - a" "drop a xs"] by (simp add: slice_def)

lemma slice_step: "i < length xs \<Longrightarrow> slice i (Suc i) xs = [xs ! i]"
  by (simp add: slice_def Cons_nth_drop_Suc[symmetric])

lemma slice_empty [simp]: "b \<le> a \<Longrightarrow> slice a b xs = []"
  by (simp add: slice_def)

lemma line_change_bounds:
  assumes "a < 2 ^ 32" "b < 2 ^ 32"
  shows "unat (lc_start (line_change a b ls)) = a" "unat (lc_end (line_change a b ls)) = b" "lc_new_lines (line_change a b ls) = ls"
  using assms by (simp_all add: line_change_def unat_of_nat)

text \<open>The effect of a change in front of the others.\<close>

lemma apply_line_change:
  assumes "a \<le> b" "b \<le> length base" "length base < 2 ^ 32" "k \<le> a"
  shows "apply_loop base (line_change a b ls # cs) k = slice k a base @ ls @ apply_loop base cs b"
  using assms by (auto simp: kept_before_def after_change_def line_change_bounds Let_def min_def max_def)

lemma changes_loop_apply:
  assumes "chain base modified a b ps" "a \<le> length base" "b \<le> length modified" "length base < 2 ^ 32" "k \<le> a"
  shows "apply_loop base (changes_loop base modified ps a b) k = slice k a base @ drop b modified"
  using assms
proof (induction ps arbitrary: a b k)
  case Nil
  then show ?case
    using apply_line_change[of a "length base" base k "drop b modified" "[]"] slice_drop[of k a base] by (auto simp: not_less)
next
  case (Cons p ps)
  obtain i j where p: "p = (i, j)" by fastforce
  with Cons.prems have c: "a \<le> i" "b \<le> j" "i < length base" "j < length modified" "base ! i = modified ! j"
    "chain base modified (Suc i) (Suc j) ps" by auto
  have mod: "slice b j modified @ modified ! j # drop (Suc j) modified = drop b modified"
    using c slice_drop[of b j modified] by (simp add: Cons_nth_drop_Suc)
  show ?case
  proof (cases "a < i \<or> b < j")
    case True
    have "slice i (Suc i) base = [modified ! j]" using c by (simp add: slice_step)
    with Cons.IH[OF c(6), of i] True p c Cons.prems(4,5) mod show ?thesis
      by (simp add: apply_line_change del: apply_loop.simps(2))
  next
    case False
    with c have eq: "a = i" "b = j" by auto
    have "slice k (Suc i) base = slice k i base @ [modified ! j]"
      using slice_append[of k i "Suc i" base] c eq Cons.prems(5) by (simp add: slice_step)
    with Cons.IH[OF c(6), of k] p c Cons.prems(4,5) mod eq show ?thesis by simp
  qed
qed

text \<open>
  The changes computed between two texts, applied to the first, give the second back, for every text of fewer than
  2 to the 32 lines, with either way of finding the common lines.
\<close>

lemma changes_roundtrip:
  assumes "length base < 2 ^ 32"
  shows "apply_loop base (compute_line_changes base modified) 0 = modified"
  using changes_loop_apply[OF lcs_chain le0 le0 assms order_refl] by (simp add: compute_line_changes_def)

section \<open>A merge without conflicts\<close>

definition replaces :: "'l LineChange \<Rightarrow> bool" where
  "replaces c \<longleftrightarrow> lc_start c < lc_end c"

definition in_base :: "'l list \<Rightarrow> 'l LineChange \<Rightarrow> bool" where
  "in_base base c \<longleftrightarrow> lc_start c \<le> lc_end c \<and> unat (lc_end c) \<le> length base"

definition separate :: "'l LineChange list \<Rightarrow> bool" where
  "separate cs \<longleftrightarrow> distinct (filter replaces cs) \<and> (\<forall>c \<in> set cs. \<forall>d \<in> set cs. replaces c \<and> replaces d \<and> c \<noteq> d \<longrightarrow> \<not> changes_overlap c d)"

definition added :: "'l LineChange multiset \<Rightarrow> 'l multiset" where
  "added cs = (\<Sum>c \<in># cs. mset (lc_new_lines c))"

definition removed :: "'l list \<Rightarrow> 'l LineChange multiset \<Rightarrow> 'l multiset" where
  "removed base cs = (\<Sum>c \<in># cs. mset (slice (unat (lc_start c)) (unat (lc_end c)) base))"

lemma added_removed_simps [simp]:
  "added {#} = {#}" "added (add_mset c cs) = mset (lc_new_lines c) + added cs" "added (cs + ds) = added cs + added ds"
  "removed base {#} = {#}"
  "removed base (add_mset c cs) = mset (slice (unat (lc_start c)) (unat (lc_end c)) base) + removed base cs"
  "removed base (cs + ds) = removed base cs + removed base ds"
  by (simp_all add: added_def removed_def)

lemma drop_slices:
  assumes "a \<le> b"
  shows "mset (drop a xs) = mset (slice a b xs) + mset (drop b xs)"
  using slice_drop[OF assms, of xs] by (metis mset_append)

text \<open>Applying separate changes in order keeps every line that none of them replaces.\<close>

lemma apply_loop_lines:
  assumes "sorted (map lc_start cs)" "separate cs" "\<forall>c \<in> set cs. in_base base c" "\<forall>c \<in> set cs. replaces c \<longrightarrow> k \<le> unat (lc_start c)"
  shows "mset (apply_loop base cs k) + removed base (mset cs) = mset (drop k base) + added (mset cs)"
  using assms
proof (induction cs arbitrary: k)
  case (Cons c cs)
  let ?a = "unat (lc_start c)" and ?b = "unat (lc_end c)" and ?k = "after_change base k c"
  have w: "?a \<le> ?b" "?b \<le> length base" using Cons.prems(3) by (auto simp: in_base_def word_le_nat_alt)
  have sep: "separate cs" using Cons.prems(2) by (auto simp: separate_def split: if_splits)
  have later: "?k \<le> unat (lc_start d)" if d: "d \<in> set cs" "replaces d" for d
  proof -
    have "?a \<le> unat (lc_start d)" using Cons.prems(1) d(1) by (simp add: word_le_nat_alt[symmetric])
    moreover have "k \<le> unat (lc_start d)" using Cons.prems(4) d by simp
    moreover have "?b \<le> unat (lc_start d)" if "replaces c"
    proof -
      have "c \<noteq> d" using Cons.prems(2) d that by (auto simp: separate_def)
      then have "\<not> changes_overlap c d" using Cons.prems(2) d that by (auto simp: separate_def)
      then show ?thesis using d(2) \<open>?a \<le> unat (lc_start d)\<close> by (auto simp: changes_overlap_def replaces_def word_less_nat_alt)
    qed
    ultimately show ?thesis using w
      by (cases "replaces c") (auto simp: after_change_def Let_def max_def min_def replaces_def word_less_nat_alt)
  qed
  have ih: "mset (apply_loop base cs ?k) + removed base (mset cs) = mset (drop ?k base) + added (mset cs)"
    using Cons.IH[OF _ sep, of ?k] Cons.prems(1,3) later by simp
  have parts: "mset (kept_before base k c) + mset (slice ?a ?b base) + mset (drop ?k base) = mset (drop k base)"
  proof (cases "replaces c")
    case True
    with Cons.prems(4) have "k \<le> ?a" "?a < ?b" by (simp_all add: replaces_def word_less_nat_alt)
    then show ?thesis using w drop_slices[of k ?a base] drop_slices[of ?a ?b base]
      by (simp add: kept_before_def after_change_def Let_def max_def min_def)
  next
    case False
    with w have "?a = ?b" by (simp add: replaces_def word_less_nat_alt)
    have "?k = max k ?a" using w \<open>?a = ?b\<close> by (simp add: after_change_def Let_def)
    moreover have "kept_before base k c = slice k (max k ?a) base" using w by (cases "k \<le> ?a") (simp_all add: kept_before_def)
    moreover have "slice ?a ?b base = []" using \<open>?a = ?b\<close> by simp
    ultimately show ?thesis using drop_slices[of k "max k ?a" base] by simp
  qed
  have "mset (apply_loop base (c # cs) k) + removed base (mset (c # cs)) =
      mset (kept_before base k c) + mset (slice ?a ?b base) + mset (lc_new_lines c) + (mset (apply_loop base cs ?k) + removed base (mset cs))"
    by (simp add: ac_simps)
  also have "\<dots> = (mset (kept_before base k c) + mset (slice ?a ?b base) + mset (drop ?k base)) + added (mset (c # cs))"
    unfolding ih by (simp add: ac_simps)
  finally show ?case unfolding parts .
qed simp

lemma changes_loop_ordered:
  assumes "chain base modified a b ps" "a \<le> length base" "length base < 2 ^ 32"
  shows "(\<forall>c \<in> set (changes_loop base modified ps a b). a \<le> unat (lc_start c) \<and> in_base base c) \<and>
    sorted_wrt (\<lambda>c d. lc_end c < lc_start d) (changes_loop base modified ps a b)"
  using assms
proof (induction ps arbitrary: a b)
  case Nil
  then show ?case by (auto simp: line_change_bounds in_base_def word_le_nat_alt)
next
  case (Cons p ps)
  obtain i j where p: "p = (i, j)" by fastforce
  with Cons.prems have c: "a \<le> i" "i < length base" "chain base modified (Suc i) (Suc j) ps" by auto
  from Cons.IH[OF c(3)] c Cons.prems(3) have ih:
    "\<forall>c \<in> set (changes_loop base modified ps (Suc i) (Suc j)). Suc i \<le> unat (lc_start c) \<and> in_base base c"
    "sorted_wrt (\<lambda>c d. lc_end c < lc_start d) (changes_loop base modified ps (Suc i) (Suc j))" by auto
  with p c Cons.prems(3) show ?case
    by (auto simp: line_change_bounds in_base_def word_le_nat_alt word_less_nat_alt)
qed

lemma compute_ordered:
  assumes "length base < 2 ^ 32"
  shows "\<forall>c \<in> set (compute_line_changes base modified). in_base base c"
    "sorted_wrt (\<lambda>c d. lc_end c < lc_start d) (compute_line_changes base modified)"
  using changes_loop_ordered[OF lcs_chain le0 assms] by (auto simp: compute_line_changes_def)

lemma ordered_separate:
  assumes "sorted_wrt (\<lambda>c d. lc_end c < lc_start d) cs" "\<forall>c \<in> set cs. in_base base c"
  shows "separate cs" "sorted (map lc_start cs)"
  using assms
proof (induction cs)
  case (Cons c cs)
  {
    case 1
    have "lc_start c < lc_start d" "\<not> changes_overlap c d" "\<not> changes_overlap d c" if "d \<in> set cs" for d
      using 1 that by (auto simp: in_base_def changes_overlap_def)
    with Cons.IH(1) 1 show ?case by (fastforce simp: separate_def)
  next
    case 2
    have "lc_start c \<le> lc_start d" if "d \<in> set cs" for d
      using 2 that by (auto simp: in_base_def intro: order.trans less_imp_le)
    with Cons.IH(2) 2 show ?case by simp
  }
qed (simp_all add: separate_def)

lemma separate_mset: "mset cs = mset ds \<Longrightarrow> separate cs = separate ds"
proof -
  assume "mset cs = mset ds"
  then have "set cs = set ds" "mset (filter replaces cs) = mset (filter replaces ds)" by (auto dest: mset_eq_setD)
  then show ?thesis unfolding separate_def using mset_eq_imp_distinct_iff by metis
qed

lemma no_conflicts_separate:
  assumes "separate ours" "separate theirs" "find_conflicts ours theirs base = []"
  shows "separate (ours @ theirs)"
proof -
  have free: "\<not> changes_overlap c d" "\<not> changes_overlap d c" if "c \<in> set ours" "d \<in> set theirs" for c d
    using assms(3) that by (auto simp: find_conflicts_def filter_empty_conv changes_overlap_def)
  have "c \<notin> set theirs" if "c \<in> set ours" "replaces c" for c
    using free(1)[OF that(1)] that(2) by (auto simp: changes_overlap_def replaces_def)
  then have "distinct (filter replaces (ours @ theirs))" using assms(1,2) by (auto simp: separate_def)
  moreover have "\<not> changes_overlap c d" if "c \<in> set (ours @ theirs)" "d \<in> set (ours @ theirs)" "replaces c" "replaces d" "c \<noteq> d" for c d
  proof -
    note members = that(1,2)
    consider "c \<in> set ours" "d \<in> set ours" | "c \<in> set theirs" "d \<in> set theirs" | "c \<in> set ours" "d \<in> set theirs"
      | "c \<in> set theirs" "d \<in> set ours" using members unfolding set_append by blast
    then show ?thesis using assms(1,2) that(3-5) free by cases (auto simp: separate_def)
  qed
  ultimately show ?thesis unfolding separate_def by blast
qed

lemma cancel_both:
  fixes m :: "'l multiset"
  assumes "m + (ro + rt) = b + (ao + at')" "x + ro = b + ao" "y + rt = b + at'"
  shows "m + b + (ro + rt) = x + y + (ro + rt)"
proof -
  have "m + b + (ro + rt) = (b + ao) + (b + at')" using assms(1) by (simp add: ac_simps)
  also have "\<dots> = x + y + (ro + rt)" unfolding assms(2,3)[symmetric] by (simp add: ac_simps)
  finally show ?thesis .
qed

lemma computed_lines:
  assumes "length base < 2 ^ 32"
  shows "mset modified + removed base (mset (compute_line_changes base modified)) =
    mset base + added (mset (compute_line_changes base modified))"
proof -
  note o = compute_ordered[OF assms, of modified]
  have "mset (apply_loop base (compute_line_changes base modified) 0) + removed base (mset (compute_line_changes base modified)) =
      mset (drop 0 base) + added (mset (compute_line_changes base modified))"
    using ordered_separate[OF o(2,1)] o(1) by (intro apply_loop_lines) simp_all
  moreover have "apply_loop base (compute_line_changes base modified) 0 = modified"
    by (rule changes_roundtrip[OF assms])
  ultimately show ?thesis by simp
qed

text \<open>
  C39. A merge that reports success neither loses a line nor makes one up: the lines it joins are those of both sides less
  those of the base, each as often as it occurs there.
\<close>

theorem merge_conserves_lines:
  assumes "length (lines_of base) < 2 ^ 32" "mr_success (three_way_merge base ours theirs)"
  shows "\<exists>merged. mr_merged (three_way_merge base ours theirs) = Some (join_with newline merged) \<and>
    mset merged + mset (lines_of base) = mset (lines_of ours) + mset (lines_of theirs)"
proof -
  let ?b = "lines_of base" and ?o = "compute_line_changes (lines_of base) (lines_of ours)"
    and ?t = "compute_line_changes (lines_of base) (lines_of theirs)"
  let ?all = "all_changes ?o ?t"
  have clear: "find_conflicts ?o ?t ?b = []" using assms(2) by (auto simp: three_way_merge_def Let_def split: if_splits)
  note oo = compute_ordered[OF assms(1), of "lines_of ours"] and ot = compute_ordered[OF assms(1), of "lines_of theirs"]
  have perm: "mset ?all = mset (?o @ ?t)" by (simp add: all_changes_def)
  have "separate ?all"
    using no_conflicts_separate[OF ordered_separate(1)[OF oo(2,1)] ordered_separate(1)[OF ot(2,1)] clear] separate_mset[OF perm] by blast
  moreover have "\<forall>c \<in> set ?all. in_base ?b c" using oo(1) ot(1) by (auto simp: all_changes_def)
  moreover have "sorted (map lc_start ?all)" by (simp add: all_changes_def)
  ultimately have "mset (apply_loop ?b ?all 0) + removed ?b (mset ?all) = mset ?b + added (mset ?all)"
    using apply_loop_lines[of ?all ?b 0] by simp
  then have "mset (apply_loop ?b ?all 0) + (removed ?b (mset ?o) + removed ?b (mset ?t)) = mset ?b + (added (mset ?o) + added (mset ?t))"
    unfolding perm by simp
  moreover note computed_lines[OF assms(1), of "lines_of ours"] computed_lines[OF assms(1), of "lines_of theirs"]
  ultimately have "mset (apply_loop ?b ?all 0) + mset ?b + (removed ?b (mset ?o) + removed ?b (mset ?t)) =
      mset (lines_of ours) + mset (lines_of theirs) + (removed ?b (mset ?o) + removed ?b (mset ?t))"
    by (rule cancel_both)
  then have "mset (apply_loop ?b ?all 0) + mset ?b = mset (lines_of ours) + mset (lines_of theirs)" by (simp only: add_right_cancel)
  then show ?thesis using clear by (intro exI[of _ "apply_loop ?b ?all 0"]) (simp add: three_way_merge_def Let_def apply_merge_def)
qed

lemma lcs_same: "longest_common_subsequence xs xs = map (\<lambda>i. (i, i)) [0..<length xs]"
proof -
  have "backtrack xs xs dp i i result = result @ rev (map (\<lambda>i. (i, i)) [0..<i])" for dp i result
    by (induction i arbitrary: result) simp_all
  moreover have "simple_lcs_loop ys (pre @ ys) (length pre) (length pre) = map (\<lambda>i. (i, i)) [length pre..<length (pre @ ys)]" for pre ys
  proof (induction ys arbitrary: pre)
    case (Cons y ys)
    have "find_from y (pre @ y # ys) (length pre) = Some (length pre)" unfolding find_from_def by (subst upt_conv_Cons) simp_all
    moreover have "[length pre..<length (pre @ y # ys)] = length pre # [Suc (length pre)..<length (pre @ y # ys)]" by (rule upt_conv_Cons) simp
    ultimately show ?case using Cons[of "pre @ [y]"] by simp
  qed simp
  from this[of xs "[]"] have "simple_lcs xs xs = map (\<lambda>i. (i, i)) [0..<length xs]" by (simp add: simple_lcs_def)
  ultimately show ?thesis by (simp add: longest_common_subsequence_def)
qed

lemma changes_same: "compute_line_changes xs xs = []"
proof -
  have "changes_loop xs xs (map (\<lambda>i. (i, i)) [k..<length xs]) k k = []" if "k \<le> length xs" for k
    using that by (induction "length xs - k" arbitrary: k) (auto simp: upt_conv_Cons)
  then show ?thesis by (simp add: compute_line_changes_def lcs_same)
qed

lemma all_changes_ordered:
  assumes "length base < 2 ^ 32"
  shows "all_changes (compute_line_changes base modified) [] = compute_line_changes base modified"
    "all_changes [] (compute_line_changes base modified) = compute_line_changes base modified"
  using ordered_separate(2)[OF compute_ordered(2,1)[OF assms, of modified]] by (simp_all add: all_changes_def sort_key_id_if_sorted)

text \<open>
  C40. When one side left the text as it was, the merge succeeds and its lines are those of the other side.
\<close>

theorem merge_unchanged_side:
  assumes "length (lines_of base) < 2 ^ 32"
  shows "mr_success (three_way_merge base ours base) \<and> mr_merged (three_way_merge base ours base) = Some (join_with newline (lines_of ours)) \<and>
    mr_success (three_way_merge base base ours) \<and> mr_merged (three_way_merge base base ours) = Some (join_with newline (lines_of ours))"
proof -
  have "apply_loop (lines_of base) (compute_line_changes (lines_of base) (lines_of ours)) 0 = lines_of ours"
    by (rule changes_roundtrip[OF assms])
  then show ?thesis using all_changes_ordered[OF assms, of "lines_of ours"]
    by (simp add: three_way_merge_def changes_same find_conflicts_def apply_merge_def Let_def)
qed

theorem merge_unchanged_side_witness:
  "mr_merged (three_way_merge ''a'' ''b'' ''a'') = Some ''b''"
  using merge_unchanged_side[of "''a''" "''b''"] by (simp add: lines_of_def unwrap_or_def)

theorem merge_conserves_lines_witness:
  "\<exists>merged. mr_merged (three_way_merge (''a'' @ newline @ ''b'') (''c'' @ newline @ ''b'') (''a'' @ newline @ ''d'')) = Some (join_with newline merged) \<and>
     mset merged + {#''a'', ''b''#} = {#''c'', ''b''#} + {#''a'', ''d''#}"
proof -
  have "mr_success (three_way_merge (''a'' @ newline @ ''b'') (''c'' @ newline @ ''b'') (''a'' @ newline @ ''d''))" by code_simp
  moreover have "lines_of (''a'' @ newline @ ''b'') = [''a'', ''b'']" "lines_of (''c'' @ newline @ ''b'') = [''c'', ''b'']"
    "lines_of (''a'' @ newline @ ''d'') = [''a'', ''d'']" by code_simp+
  ultimately show ?thesis using merge_conserves_lines[of "''a'' @ newline @ ''b''" "''c'' @ newline @ ''b''" "''a'' @ newline @ ''d''"] by simp
qed

section \<open>Where the merge falls short\<close>

definition doc :: "string list \<Rightarrow> string" where
  "doc ls = join_with newline ls"

text \<open>Both sides insert the same line at the same place: it is there twice, and the merge reports success.\<close>

lemma same_insertion_twice:
  "three_way_merge (doc [''a'', ''b'']) (doc [''a'', ''x'', ''b'']) (doc [''a'', ''x'', ''b'']) =
     \<lparr>mr_merged = Some (doc [''a'', ''x'', ''x'', ''b'']), mr_conflicts = [], mr_success = True, mr_tier = AutoMerge\<rparr>"
  by code_simp

text \<open>
  A change that starts where a conflict ends is taken as part of it and dropped: the third line of our side is in neither
  the merged text nor a marker.
\<close>

lemma adjacent_change_lost:
  "mr_merged (three_way_merge (doc [''a'', ''b'', ''c'']) (doc [''A'', ''b'', ''C'']) (doc [''X'', ''Y'', ''c''])) =
     Some (doc [''<<<<<<< ours'', ''A'', ''======='', doc [''X'', ''Y''], ''>>>>>>> theirs'',
       ''<<<<<<< ours'', ''A'', ''======='', doc [''X'', ''Y''], ''>>>>>>> theirs''])"
  by code_simp

end
