(* ===== verification/Edit_Intents.thy ===== *)
theory Edit_Intents
  imports Merge_Lines
begin

text \<open>
  The intent-based conflict detector of \<open>crates/uc-engine/src/conflict/mod.rs\<close>: workers declare the regions of a file they
  are about to edit, and a declaration is answered with the workers it collides with. Each operation is one call; a
  declaration looks at the intents and then appends its own, in two accesses to the shared map, so two declarations that
  run at the same time may both miss each other.
\<close>

section \<open>Intents\<close>

datatype EditType = Create | Modify | Delete

record EditIntent =
  ei_worker_id :: string
  ei_file_path :: string
  ei_edit_type :: EditType
  ei_regions :: "LineRange list"
  ei_timestamp :: i64

definition EditIntent_new :: "string \<Rightarrow> string \<Rightarrow> EditType \<Rightarrow> LineRange list \<Rightarrow> i64 \<Rightarrow> EditIntent" where
  "EditIntent_new worker_id file_path edit_type regions now =
     \<lparr>ei_worker_id = worker_id, ei_file_path = file_path, ei_edit_type = edit_type, ei_regions = regions, ei_timestamp = now\<rparr>"

datatype ConflictResult =
    NoConflict
  | PotentialConflict (conflicting_workers: "string list")
  | Conflicting (conflicting_workers: "string list") (resolution_tier: ResolutionTier)

record ConflictDetector =
  cd_baseline_hashes :: "string \<rightharpoonup> string"
  cd_active_intents :: "string \<rightharpoonup> EditIntent list"

definition ConflictDetector_new :: ConflictDetector where
  "ConflictDetector_new = \<lparr>cd_baseline_hashes = (\<lambda>_. None), cd_active_intents = (\<lambda>_. None)\<rparr>"

section \<open>Operations\<close>

definition register_baseline :: "string \<Rightarrow> string \<Rightarrow> ConflictDetector \<Rightarrow> ConflictDetector" where
  "register_baseline file_path hash d = d\<lparr>cd_baseline_hashes := (cd_baseline_hashes d)(file_path \<mapsto> hash)\<rparr>"

definition intent_collides :: "LineRange list \<Rightarrow> EditIntent \<Rightarrow> bool" where
  "intent_collides regions intent =
     (let has_overlap = (\<exists>existing_region \<in> set (ei_regions intent). \<exists>new_region \<in> set regions. overlaps existing_region new_region);
          whole_file_conflict = ((ei_regions intent = [] \<or> regions = []) \<and> \<not> has_overlap)
      in has_overlap \<or> whole_file_conflict)"

fun colliding_workers :: "string \<Rightarrow> LineRange list \<Rightarrow> EditIntent list \<Rightarrow> string list \<Rightarrow> string list" where
  "colliding_workers worker_id regions [] workers = workers"
| "colliding_workers worker_id regions (intent # intents) workers =
     (if ei_worker_id intent = worker_id then colliding_workers worker_id regions intents workers
      else if intent_collides regions intent \<and> ei_worker_id intent \<notin> set workers
      then colliding_workers worker_id regions intents (workers @ [ei_worker_id intent])
      else colliding_workers worker_id regions intents workers)"

definition check_conflict :: "string \<Rightarrow> string \<Rightarrow> LineRange list \<Rightarrow> ConflictDetector \<Rightarrow> ConflictResult" where
  "check_conflict file_path worker_id regions d = (case cd_active_intents d file_path of
     None \<Rightarrow> NoConflict
   | Some existing \<Rightarrow>
       if existing = [] then NoConflict
       else (let conflicting = colliding_workers worker_id regions existing [] in
         if conflicting = []
         then (let other_workers = map ei_worker_id (filter (\<lambda>i. ei_worker_id i \<noteq> worker_id) existing)
               in if other_workers = [] then NoConflict else PotentialConflict other_workers)
         else Conflicting conflicting AutoMerge))"

definition declare_intent :: "EditIntent \<Rightarrow> ConflictDetector \<Rightarrow> ConflictDetector \<times> ConflictResult" where
  "declare_intent intent d =
     (let result = check_conflict (ei_file_path intent) (ei_worker_id intent) (ei_regions intent) d
      in (d\<lparr>cd_active_intents := (cd_active_intents d)(ei_file_path intent \<mapsto>
            unwrap_or (cd_active_intents d (ei_file_path intent)) [] @ [intent])\<rparr>, result))"

definition remove_intent :: "string \<Rightarrow> string \<Rightarrow> ConflictDetector \<Rightarrow> ConflictDetector" where
  "remove_intent file_path worker_id d = (case cd_active_intents d file_path of
     Some intents \<Rightarrow> d\<lparr>cd_active_intents := (cd_active_intents d)(file_path \<mapsto> filter (\<lambda>i. ei_worker_id i \<noteq> worker_id) intents)\<rparr>
   | None \<Rightarrow> d)"

definition clear_intents :: "ConflictDetector \<Rightarrow> ConflictDetector" where
  "clear_intents d = d\<lparr>cd_active_intents := (\<lambda>_. None)\<rparr>"

definition get_intents :: "string \<Rightarrow> ConflictDetector \<Rightarrow> EditIntent list" where
  "get_intents file_path d = unwrap_or (cd_active_intents d file_path) []"

definition is_file_modified :: "string \<Rightarrow> string \<Rightarrow> ConflictDetector \<Rightarrow> bool" where
  "is_file_modified file_path current_hash d = (case cd_baseline_hashes d file_path of
     Some baseline \<Rightarrow> baseline \<noteq> current_hash
   | None \<Rightarrow> False)"

section \<open>What a declaration reports\<close>

lemma colliding_workers_set:
  "set (colliding_workers worker_id regions intents workers) =
     set workers \<union> ei_worker_id ` {i \<in> set intents. ei_worker_id i \<noteq> worker_id \<and> intent_collides regions i}"
  by (induction intents arbitrary: workers) auto

lemma colliding_workers_distinct:
  "distinct workers \<Longrightarrow> distinct (colliding_workers worker_id regions intents workers)"
  by (induction intents arbitrary: workers) auto

text \<open>
  A conflict names, once each, exactly the other workers whose declared regions meet the given ones or who, on either
  side, mean the whole file.
\<close>

lemma check_conflict_exact:
  "(\<exists>ws. check_conflict file_path worker_id regions d = Conflicting ws AutoMerge \<and> distinct ws \<and>
      set ws = ei_worker_id ` {i \<in> set (get_intents file_path d). ei_worker_id i \<noteq> worker_id \<and> intent_collides regions i}) \<longleftrightarrow>
   (\<exists>i \<in> set (get_intents file_path d). ei_worker_id i \<noteq> worker_id \<and> intent_collides regions i)"
proof (cases "cd_active_intents d file_path")
  case (Some existing)
  let ?ws = "colliding_workers worker_id regions existing []"
  have ws: "set ?ws = ei_worker_id ` {i \<in> set existing. ei_worker_id i \<noteq> worker_id \<and> intent_collides regions i}"
    by (simp add: colliding_workers_set)
  then have "?ws = [] \<longleftrightarrow> \<not> (\<exists>i \<in> set existing. ei_worker_id i \<noteq> worker_id \<and> intent_collides regions i)"
    by (metis (mono_tags, lifting) empty_Collect_eq image_is_empty set_empty)
  moreover have "distinct ?ws" by (simp add: colliding_workers_distinct)
  ultimately show ?thesis using Some ws
    by (cases "existing = []") (auto simp: check_conflict_def get_intents_def unwrap_or_def Let_def)
qed (simp add: check_conflict_def get_intents_def unwrap_or_def)

text \<open>A declared intent collides with every later one on the same region, until its worker takes it back.\<close>

lemma declared_intent_reported:
  assumes "ei_file_path intent = file_path" "ei_worker_id intent \<noteq> worker_id" "intent_collides regions intent"
  shows "\<exists>ws. check_conflict file_path worker_id regions (fst (declare_intent intent d)) = Conflicting ws AutoMerge \<and> ei_worker_id intent \<in> set ws"
proof -
  have "intent \<in> set (get_intents file_path (fst (declare_intent intent d)))"
    using assms(1) by (auto simp: get_intents_def declare_intent_def Let_def unwrap_or_def)
  with assms(2,3) check_conflict_exact[of file_path worker_id regions "fst (declare_intent intent d)"] show ?thesis by fastforce
qed

lemma removed_intent_silent:
  "\<forall>i \<in> set (get_intents file_path (remove_intent file_path worker_id d)). ei_worker_id i \<noteq> worker_id"
  by (auto simp: get_intents_def remove_intent_def unwrap_or_def split: option.split)

end
