(* ===== verification/Spec2Isabelle.thy ===== *)
theory Spec2Isabelle
  imports Gov_Pattern Gov_Policy Gov_Mandate Gov_WorkCase Record_Store Gov_Submission Outbox_Queue
    Submission_Store Case_Store Gov_Approval Policy_Engine Agent_Types Trigger_Inbox
    Attention_Board Proactive_Gate Watchdog Case_Wake Scheduler_Dependency Placement Task_Control
    Graph_Examples Sched_Gateway Worker_Dispatch Worker_Service Edit_Intents
begin

text \<open>
  Verification of the control plane of UltimateCoders.

  \<^bold>\<open>The program.\<close> A gateway process accepts work for coding agents, decides under whose authority it may run,
  and hands subtasks to workers. Its governance plane keeps every decision as a versioned document of one record
  store (\<open>crates/uc-engine/src/governance/record_store.rs\<close>); the stores of submissions, outbox entries, cases,
  mandates, approvals, trigger events, attention items, proposals and watchdog decisions are views of it in
  different namespaces. A trigger event is matched to cases and may wake or resume them; a submission is recorded
  once and published through the outbox; a tool call is allowed by the policy snapshot, a mandate and, for the
  human tier, an approval that is spent by the call; subtasks are ordered by their dependencies and placed on
  workers.

  \<^bold>\<open>Theories.\<close> Source paths are below \<open>src/crates\<close>; the definitions of a theory have the names of the Rust
  items where Isabelle allows it, with a prefix where two items share a name.
  \<^item> \<open>Prelude\<close>: machine integers with saturating arithmetic, instants, the string functions of the standard
    library, results; \<open>Ieee\<close>: binary64 comparison, minimum, clamp and rounded addition.
  \<^item> \<open>Gov_Pattern\<close>: \<open>pattern_covers\<close> and \<open>pattern_subsumes\<close> of \<open>uc-types/src/governance/mandate.rs\<close>, against the
    language of a pattern.
  \<^item> \<open>Gov_Policy\<close>, \<open>Gov_Mandate\<close>, \<open>Gov_WorkCase\<close>, \<open>Gov_Submission\<close>: the types of the same directory and their
    operations (\<open>policy.rs\<close>, \<open>mandate.rs\<close>, \<open>workcase.rs\<close>, \<open>submission.rs\<close>).
  \<^item> \<open>Record_Store\<close>: both implementations of the \<open>RecordStore\<close> trait, the typed view, the locale
    \<open>record_store\<close> with the laws of a store and its interpretation \<open>mem\<close> on the in-memory store, the compare-and-swap
    loop of the clients, and its behaviour when other tasks write in between. The PostgreSQL store keeps versions and
    limits at their width of 64 bits and orders keys by the collation of the database, so it does not have the laws
    without restriction; it is related to the in-memory store by a simulation instead.
  \<^item> \<open>Outbox_Queue\<close> (\<open>outbox.rs\<close>), \<open>Submission_Store\<close> (\<open>submission.rs\<close>), \<open>Case_Store\<close> (\<open>case_store.rs\<close>),
    \<open>Gov_Approval\<close> (\<open>approval.rs\<close>, \<open>approvals.rs\<close>), \<open>Policy_Engine\<close> (\<open>policy.rs\<close>), \<open>Trigger_Inbox\<close> (\<open>trigger.rs\<close>,
    \<open>trigger_inbox.rs\<close>), \<open>Attention_Board\<close> (\<open>attention.rs\<close>), \<open>Proactive_Gate\<close> (\<open>proactive.rs\<close>), \<open>Watchdog\<close>
    (\<open>watchdog.rs\<close>): the stores of \<open>uc-engine/src/governance\<close> and the decisions on top of them. The locales
    \<open>outbox_queue\<close>, \<open>submit_plane\<close>, \<open>trigger_inbox\<close> and \<open>attention_board\<close> extend \<open>record_store\<close> by the views a
    client holds, and each is interpreted on the in-memory store.
  \<^item> \<open>Case_Wake\<close> (\<open>case_wake.rs\<close>, \<open>case_resume.rs\<close>): waking of the cases an event matched and the gates of an automatic
    resume, over the stores above.
  \<^item> \<open>Agent_Events\<close> (\<open>uc-engine/src/events.rs\<close>), \<open>Envelope\<close> (\<open>uc-types/src/envelope.rs\<close>): the event log of the agents and
    the context block composed under a byte budget.
  \<^item> \<open>Task_Backend\<close> (\<open>uc-engine/src/task_store.rs\<close>): the in-memory and the PostgreSQL backend of tasks; the locale
    \<open>task_backend\<close> has the laws of a backend, interpreted on both (\<open>mem_tasks\<close>, and \<open>pg\<close> in the locale \<open>subtask_json\<close> of
    the JSON column).
  \<^item> \<open>Task_Store\<close>, \<open>Task_Durability\<close>, \<open>Task_Control\<close>: the \<open>TaskStore\<close> of \<open>uc-grpc/src/server.rs\<close>, its operations; the step
    relation of the table with the log of its backend writes; the fencing of messages, retries and dispatch.
  \<^item> \<open>Graph_Types\<close> (\<open>uc-types/src/graph.rs\<close>, \<open>merge.rs\<close>), \<open>Graph_Projection\<close>, \<open>Graph_Store\<close>, \<open>Graph_Mirror\<close>, \<open>Graph_Sink\<close>
    (\<open>uc-engine/src/graph_store.rs\<close>): the node state machine, the projections of the two shapes of a task, the tables of
    the graph plane with the transactions on attempts, completions and merge grants, the mirror and the imports, and
    the verbs of \<open>GraphShadowSink\<close>. \<open>Graph_History\<close>, \<open>Graph_Commit\<close> and \<open>Graph_Runs\<close> order the states of the plane by
    what never goes back; the locale \<open>completion_sink\<close> of \<open>Graph_Runs\<close> has the law of a sink, interpreted on the store
    (\<open>store_sink\<close>) and on the default methods of the trait (\<open>default_sink\<close>). \<open>Graph_Fence\<close>, \<open>Graph_Cancel\<close> and
    \<open>Graph_Examples\<close> have the outcomes of the transactions and the concrete runs.
  \<^item> \<open>Sched_Types\<close> (\<open>uc-types/src/scheduler.rs\<close>), \<open>Sched_Window\<close> (\<open>night_window.rs\<close>), \<open>Sched_Store\<close> (\<open>store.rs\<close>), \<open>Sched_Service\<close>
    (\<open>service.rs\<close>, all below \<open>uc-engine/src/scheduler\<close>), \<open>Sched_Gateway\<close> (the job operations of \<open>local.rs\<close>, the NATS dispatcher
    and lock of \<open>uc-grpc/src/scheduler_dispatch.rs\<close>, \<open>window_watcher.rs\<close>): the nightly scheduler. The locale \<open>schedule_store\<close>
    has the laws of a store of jobs, interpreted on both implementations (\<open>mem_schedule\<close>, \<open>pg_schedule\<close>), and
    \<open>reliable_store\<close> extends it to stores whose statements all succeed (\<open>mem_reliable\<close>, \<open>pg_reliable\<close>). \<open>Sched_Runs\<close> has the
    events of a service and what every run keeps, \<open>Sched_Dispatch\<close> the outcome of a dispatch, \<open>Sched_Examples\<close> concrete runs.
  \<^item> \<open>Worker_Registry\<close> and \<open>Worker_Service\<close> (\<open>uc-grpc/src/worker_service.rs\<close>, \<open>governance/policy_interceptor.rs\<close>): the registry of
    workers, its RPC handlers and the authorization of a resize; \<open>Worker_Dispatch\<close>: the two publishers of ready nodes in
    \<open>uc-grpc/src/server.rs\<close>, which join the task table, the registry, placement and the envelope.
  \<^item> \<open>Merge_Lines\<close> (\<open>uc-engine/src/conflict/merger.rs\<close>) and \<open>Edit_Intents\<close> (\<open>uc-engine/src/conflict/mod.rs\<close>): the three-way
    merge of texts and the detector of colliding edit intents.
  \<^item> \<open>Agent_Types\<close> (\<open>uc-types/src/agent.rs\<close>, \<open>error.rs\<close>), \<open>Scheduler_Dependency\<close>
    (\<open>uc-engine/src/scheduler/dependency.rs\<close>) and \<open>Placement\<close> (\<open>uc-grpc/src/placement.rs\<close>): subtasks, their layered
    order, and the choice of a worker.

  \<^bold>\<open>State.\<close> An operation is a function of the state it runs in: the store of records, or a record that has it as a
  field next to what the code keeps behind a lock. It returns the new state and a value of a sum type whose left
  side is the error type of the code. A \<open>Result\<close> that the code drops is dropped in the model. The interleaving of
  tasks is explicit where it matters: \<open>concurrent_view\<close> runs an arbitrary environment step before each access of
  a view, restricted by \<open>tolerable\<close> to environments that only advance versions, and \<open>env_run\<close> is the store such an
  environment leaves. The operations of the night scheduler, of the worker registry and of the edit intents run one after
  another in the model. Those of the scheduler that write their row after the lock on the registry is released are
  composed of a locked part (\<open>commit_toggle\<close>, \<open>mark_locked\<close>, \<open>rearm_locked\<close>) and \<open>update_store\<close>; that overlapping
  calls can leave the older row in the table is shown on the parts, and no theorem claims agreement for overlapping calls.

  \<^bold>\<open>What the theorems show.\<close>
  \<^item> Authority: a pattern covers exactly its language; a request is permitted exactly when the mandate is live and
    a scope covers every dimension of it, where of several budgets only the first counts; revocation is permanent,
    delegation and intersection narrow under the stated restrictions; a decision of the snapshot respects the ceiling of the principal's kind; an allowed tool
    call passed every check and spent its approval; an approval is spent once, by the decision of another human.
  \<^item> Durability: the Postgres store simulates the in-memory store for a byte-wise collation, versions below the limit of
    \<open>BIGINT\<close> and updates that name a version they have seen; an update through the compare-and-swap loop is
    applied to the version it read and none is lost; a submission is recorded once, retried without effect and
    queued again after a crash; the outbox claims what is due, and its backoff is bounded.
  \<^item> Cases: the invariant of reachable cases, completion only after verification, routing of events exactly once
    to exactly the cases that listen, one open attention item per case, the worklist order and the capacity count.
  \<^item> Autonomy: what the proactive gate admits, the history of an executed proposal, the watchdog's verdict, its
    bounded delay and its bounded number of replans.
  \<^item> Scheduling: the layers of the dependency order exist exactly when there is no cycle, a layer depends on earlier
    ones only and no subtask is later than necessary; placement picks the least candidate of a total order.
  \<^item> Tasks: the table is rebuilt from its backend after a crash as it was; it stays keyed and its event window bounded;
    messages of the bus and projections never move a paused, cancelled or finished task or a settled subtask; a retry
    is accepted exactly when it may be and fences the attempt before it; a running task whose subtasks can be ordered
    always has one to dispatch; a redelivered message is recognised within its time to live.
  \<^item> Resuming: a case is woken with one attention item, and a resume passes every gate and makes one task.
  \<^item> Graph plane: a completed node keeps its winner, its attempts and events are never rewritten, and it is billed once,
    in every run of the sink; a result is committed exactly for a running attempt of a node that has none; a failed or
    cancelled attempt never commits; a schedule numbers its attempt past all others; a failure re-arms the node within
    its budget; the closure of a cancellation is the set of nodes that depend on it; a merge grant is consumed once and
    names what it merges; both projections of a task agree.
  \<^item> Night scheduler: the next opening is the earliest instant inside the window; outside it a job is deferred to the
    opening and not dispatched; a failed dispatch uses one attempt of its budget and waits the bounded delay; a manual
    trigger leaves the plan as it was; a job that is still as it was armed is put into the runtime for that instant. When
    operations do not overlap, the registry and the store agree and a restart arms the jobs it had (\<open>registry_durable\<close>,
    \<open>restart_rearms\<close>); the keys of the tick lock are outside the documented alphabet, and what follows is shown as such.
  \<^item> Workers: the registry keeps its handshake, its normalised scopes and its bounded signals; a selection settles every ready
    node, lists none twice, and a node a worker can take is handed to NATS once when a client is there; a review is published only when an independent reviewer exists and
    is never sent to a producer's own subject; the pool is resized only with authority, and the shares add up.
  \<^item> Merging: the table finds a longest common subsequence; a merge that succeeds keeps and adds exactly the lines of both
    sides; a side that changed nothing leaves the text of the other. Two lemmas show where the text with markers loses a
    change and where the same insertion of both sides is there twice.


  \<^bold>\<open>Bounds and termination.\<close> The retry loops run at most 16, 8 or 3 times, as in the code, by recursion on that
  number. The search of \<open>pattern_covers\<close> and the layering of \<open>resolve_execution_order\<close> are \<open>function\<close>s with a
  termination proof, by the cells not yet seen and by the remaining in-degrees. Everything else recurses on its data.

  \<^bold>\<open>Conventions.\<close> \<open>u8\<close>, \<open>u32\<close> and \<open>u64\<close> are words, \<open>usize\<close> and record versions natural numbers, instants
  nanoseconds as integers; the versions of PostgreSQL rows are signed 64-bit words. SHA-256, the JSON conversions of serde, uuids, the Debug rendering of values and the
  environment lookup are arguments; the hypothesis on the JSON conversions, \<open>serde_ok\<close>, is that a document can be
  written and reads back. Log statements are left out.

  \<^bold>\<open>Not modelled.\<close> The gateway's RPC handlers, conversions and client stubs (\<open>uc-grpc\<close>), the process set-up
  (\<open>uc-grpc-server\<close>) and the Python bindings are glue over generated code, tonic and NATS. Indexing, search, memory,
  sandboxing, git and metadata (\<open>uc-engine\<close>) rest on external stores, models and processes. The executor
  of the scheduler waits for messages of NATS; the rate limiter computes in floating point over a monotonic clock.
\<close>

end
